(* ===== verification/Prelude.thy ===== *)
theory Prelude
  imports Main "HOL-Library.Word"
begin

text \<open>
  Vocabulary shared by every component theory: the machine integers of the C++ code as
  words, bytes against characters, fixed-offset slices of byte buffers, the pieces of the
  C and C++ standard library the sources call (decimal printing as in \<open>std::to_string\<close>
  and \<open>snprintf\<close>, \<open>strtoull\<close>), trimming and padding of fixed-width text fields, and the
  hint collections the component proofs share.
\<close>

unbundle bit_operations_syntax

section \<open>Machine integers, bytes and characters\<close>

type_synonym byte = "8 word"
type_synonym u8 = "8 word"
type_synonym u16 = "16 word"
type_synonym u32 = "32 word"
type_synonym u64 = "64 word"
type_synonym i32 = "32 word"
type_synonym i64 = "64 word"

lemma unat_bound_8: "unat (w :: u8) < 256"
  and unat_bound_16: "unat (x :: u16) < 65536"
  and unat_bound_32: "unat (y :: u32) < 2 ^ 32"
  and unat_bound_64: "unat (z :: u64) < 2 ^ 64"
  using unsigned_less [of w, where 'a = nat] unsigned_less [of x, where 'a = nat]
    unsigned_less [of y, where 'a = nat] unsigned_less [of z, where 'a = nat]
  by simp_all

named_theorems layout_simps
  \<comment> \<open>lengths of encoded fields and how slices see an append\<close>

definition byte_of_char :: "char \<Rightarrow> byte" where
  "byte_of_char c = word_of_nat (of_char c)"

definition char_of_byte :: "byte \<Rightarrow> char" where
  "char_of_byte b = char_of (unat b)"

lemma unat_byte_of_char: "unat (byte_of_char c) = of_char c"
  by (simp add: byte_of_char_def unat_of_nat)

lemma char_of_byte_of_char [simp]: "char_of_byte (byte_of_char c) = c"
  by (simp add: char_of_byte_def unat_byte_of_char)

lemma byte_of_char_of_byte [simp]: "byte_of_char (char_of_byte b) = b"
proof -
  have "unat b < 256" using unat_bound_8 [of b] by simp
  then show ?thesis
    by (simp add: byte_of_char_def char_of_byte_def of_char_of take_bit_eq_mod word_unat_eq_iff
        unat_of_nat)
qed

lemma byte_of_char_inj [simp]: "byte_of_char c = byte_of_char d \<longleftrightarrow> c = d"
  by (metis char_of_byte_of_char)

definition bytes_of_string :: "string \<Rightarrow> byte list" where
  "bytes_of_string s = map byte_of_char s"

definition string_of_bytes :: "byte list \<Rightarrow> string" where
  "string_of_bytes bs = map char_of_byte bs"

lemma length_bytes_of_string [simp, layout_simps]:
  "length (bytes_of_string s) = length s"
  by (simp add: bytes_of_string_def)

lemma length_string_of_bytes [simp, layout_simps]:
  "length (string_of_bytes bs) = length bs"
  by (simp add: string_of_bytes_def)

lemma string_of_bytes_of_string [simp]: "string_of_bytes (bytes_of_string s) = s"
  by (simp add: string_of_bytes_def bytes_of_string_def comp_def)

lemma bytes_of_string_of_bytes [simp]: "bytes_of_string (string_of_bytes bs) = bs"
  by (simp add: string_of_bytes_def bytes_of_string_def comp_def)

lemma bytes_of_string_append: "bytes_of_string (s @ t) = bytes_of_string s @ bytes_of_string t"
  by (simp add: bytes_of_string_def)

section \<open>Slices of a buffer\<close>

text \<open>\<open>slice_at off n bs\<close> is the \<open>n\<close> bytes at offset \<open>off\<close>: what a field access of a packed
  struct at that offset reads.\<close>

definition slice_at :: "nat \<Rightarrow> nat \<Rightarrow> 'a list \<Rightarrow> 'a list" where
  "slice_at off n bs = take n (drop off bs)"

lemma slice_here [layout_simps]: "length xs = n \<Longrightarrow> slice_at 0 n (xs @ ys) = xs"
  by (simp add: slice_at_def)

lemma slice_all [layout_simps]: "length xs = n \<Longrightarrow> slice_at 0 n xs = xs"
  by (simp add: slice_at_def)

lemma slice_skip [layout_simps]:
  "length xs \<le> off \<Longrightarrow> slice_at off n (xs @ ys) = slice_at (off - length xs) n ys"
  by (simp add: slice_at_def)

lemma length_slice [layout_simps]: "off + n \<le> length bs \<Longrightarrow> length (slice_at off n bs) = n"
  by (simp add: slice_at_def)

lemma slice_append_slice:
  "slice_at off n bs @ slice_at (off + n) m bs = slice_at off (n + m) bs"
  by (simp add: slice_at_def take_add add.commute [of n off])

text \<open>The two-field read of a split buffer, used to reassemble a struct from its fields.\<close>

lemma slice_append_rest:
  "k = off + n \<Longrightarrow> slice_at off n bs @ slice_at k m bs @ rest = slice_at off (n + m) bs @ rest"
  by (simp add: slice_append_slice flip: append_assoc)

lemma slice_append_last:
  "k = off + n \<Longrightarrow> slice_at off n bs @ slice_at k m bs = slice_at off (n + m) bs"
  by (simp add: slice_append_slice)

section \<open>Fixed-width text fields\<close>

text \<open>Copy at most \<open>n\<close> characters, pad the rest with blanks; the inverse drops trailing
  padding.\<close>

definition pad_field :: "nat \<Rightarrow> string \<Rightarrow> string" where
  "pad_field n s = take n s @ replicate (n - length s) CHR '' ''"

definition rstrip :: "('a \<Rightarrow> bool) \<Rightarrow> 'a list \<Rightarrow> 'a list" where
  "rstrip p s = rev (dropWhile p (rev s))"

abbreviation trim_blanks :: "string \<Rightarrow> string" where
  "trim_blanks \<equiv> rstrip (\<lambda>c. c = CHR '' '')"

lemma length_pad_field [simp, layout_simps]: "length (pad_field n s) = n"
  by (simp add: pad_field_def)

lemma rstrip_snoc: "rstrip p (s @ [x]) = (if p x then rstrip p s else s @ [x])"
  by (simp add: rstrip_def)

lemma rstrip_Nil [simp]: "rstrip p [] = []"
  by (simp add: rstrip_def)

lemma rstrip_append_replicate: "p x \<Longrightarrow> rstrip p (s @ replicate k x) = rstrip p s"
proof (induction k)
  case 0
  then show ?case by simp
next
  case (Suc k)
  then show ?case
    by (simp add: replicate_append_same [symmetric] rstrip_snoc flip: append_assoc)
qed

lemma rstrip_idem [simp]: "rstrip p (rstrip p s) = rstrip p s"
  by (induction s rule: rev_induct) (simp_all add: rstrip_snoc)

lemma rstrip_id: "s = [] \<or> \<not> p (last s) \<Longrightarrow> rstrip p s = s"
  by (cases s rule: rev_cases) (auto simp: rstrip_snoc)

lemma length_rstrip_le: "length (rstrip p s) \<le> length s"
  by (induction s rule: rev_induct) (simp_all add: rstrip_snoc)

lemma rstrip_decomp: "\<exists>t. s = rstrip p s @ t \<and> list_all p t"
proof (induction s rule: rev_induct)
  case Nil
  then show ?case by simp
next
  case (snoc x s)
  then obtain t where t: "s = rstrip p s @ t" "list_all p t" by blast
  show ?case
  proof (cases "p x")
    case True
    with t have "s @ [x] = rstrip p (s @ [x]) @ (t @ [x])" by (simp add: rstrip_snoc)
    moreover have "list_all p (t @ [x])" using t(2) True by simp
    ultimately show ?thesis by blast
  next
    case False
    then show ?thesis by (intro exI [of _ "[]"]) (simp add: rstrip_snoc)
  qed
qed

lemma list_all_eq_replicate: "list_all (\<lambda>c. c = x) t \<Longrightarrow> t = replicate (length t) x"
  by (induction t) simp_all

lemma trim_pad_field: "trim_blanks (pad_field n s) = trim_blanks (take n s)"
  by (simp add: pad_field_def rstrip_append_replicate)

lemma pad_trim_field: "length s = n \<Longrightarrow> pad_field n (trim_blanks s) = s"
proof -
  assume n: "length s = n"
  obtain t where t: "s = trim_blanks s @ t" and all: "list_all (\<lambda>c. c = CHR '' '') t"
    using rstrip_decomp [of s "\<lambda>c. c = CHR '' ''"] by blast
  have len: "length t = n - length (trim_blanks s)"
    using n arg_cong [OF t, of length] by simp
  have "pad_field n (trim_blanks s) = trim_blanks s @ replicate (length t) CHR '' ''"
    using n length_rstrip_le [of _ s] by (simp add: pad_field_def len)
  also have "\<dots> = s" using t list_all_eq_replicate [OF all] by metis
  finally show ?thesis .
qed

section \<open>Decimal text\<close>

definition digit_char :: "nat \<Rightarrow> char" where
  "digit_char d = char_of (48 + d)"

fun dec :: "nat \<Rightarrow> string" where
  "dec n = (if n < 10 then [digit_char n] else dec (n div 10) @ [digit_char (n mod 10)])"

declare dec.simps [simp del]

definition is_digit :: "char \<Rightarrow> bool" where
  "is_digit c \<longleftrightarrow> 48 \<le> (of_char c :: nat) \<and> (of_char c :: nat) \<le> 57"

definition digit_val :: "char \<Rightarrow> nat" where
  "digit_val c = of_char c - 48"

definition dec_val :: "string \<Rightarrow> nat" where
  "dec_val s = foldl (\<lambda>a c. 10 * a + digit_val c) 0 s"

lemma of_char_digit_char: "d < 10 \<Longrightarrow> (of_char (digit_char d) :: nat) = 48 + d"
  by (simp add: digit_char_def)

lemma is_digit_digit_char [simp]: "d < 10 \<Longrightarrow> is_digit (digit_char d)"
  by (simp add: is_digit_def of_char_digit_char)

lemma digit_val_digit_char [simp]: "d < 10 \<Longrightarrow> digit_val (digit_char d) = d"
  by (simp add: digit_val_def of_char_digit_char)

lemma dec_digits: "list_all is_digit (dec n)"
proof (induction n rule: dec.induct)
  case (1 n)
  then show ?case by (cases "n < 10") (simp_all add: dec.simps [of n])
qed

lemma dec_nonempty [simp]: "dec n \<noteq> []"
  by (subst dec.simps) simp

lemma dec_val_Nil [simp]: "dec_val [] = 0"
  by (simp add: dec_val_def)

lemma dec_val_snoc: "dec_val (s @ [c]) = 10 * dec_val s + digit_val c"
  by (simp add: dec_val_def)

lemma dec_val_Cons: "dec_val (c # s) = digit_val c * 10 ^ length s + dec_val s"
proof (induction s rule: rev_induct)
  case Nil
  then show ?case by (simp add: dec_val_def)
next
  case (snoc d s)
  then show ?case using dec_val_snoc [of "c # s" d] dec_val_snoc [of s d] by simp
qed

lemma dec_val_dec [simp]: "dec_val (dec n) = n"
proof (induction n rule: dec.induct)
  case (1 n)
  show ?case
  proof (cases "n < 10")
    case True
    then show ?thesis by (simp add: dec.simps [of n] dec_val_snoc [of "[]", simplified])
  next
    case False
    with 1 show ?thesis by (simp add: dec.simps [of n] dec_val_snoc)
  qed
qed

lemma dec_eq_iff: "dec m = dec n \<longleftrightarrow> m = n"
  by (metis dec_val_dec)

lemma length_dec_le: "n < 10 ^ k \<Longrightarrow> 0 < k \<Longrightarrow> length (dec n) \<le> k"
proof (induction k arbitrary: n)
  case 0
  then show ?case by simp
next
  case (Suc k)
  show ?case
  proof (cases "n < 10")
    case True
    then show ?thesis by (simp add: dec.simps [of n])
  next
    case False
    with Suc.prems have k: "0 < k" by (cases k) auto
    have "n div 10 < 10 ^ k"
      using Suc.prems(1) by (simp add: less_mult_imp_div_less mult.commute)
    with k Suc.IH False show ?thesis by (simp add: dec.simps [of n])
  qed
qed

text \<open>\<open>snprintf\<close>'s zero-padded \<open>%0<w>llu\<close>.\<close>

definition dec_pad :: "nat \<Rightarrow> nat \<Rightarrow> string" where
  "dec_pad w n = replicate (w - length (dec n)) CHR ''0'' @ dec n"

lemma length_dec_pad: "n < 10 ^ w \<Longrightarrow> 0 < w \<Longrightarrow> length (dec_pad w n) = w"
  using length_dec_le [of n w] by (simp add: dec_pad_def)

lemma length_dec_pad_ge: "w \<le> length (dec_pad w n)"
  by (simp add: dec_pad_def)

lemma dec_val_zeros: "dec_val (replicate k CHR ''0'' @ s) = dec_val s"
  by (induction k) (simp_all add: dec_val_def digit_val_def)

lemma dec_val_dec_pad [simp]: "dec_val (dec_pad w n) = n"
  by (simp add: dec_pad_def dec_val_zeros)

lemma dec_pad_inj: "dec_pad w m = dec_pad w n \<longleftrightarrow> m = n"
  by (metis dec_val_dec_pad)

lemma dec_pad_digits: "list_all is_digit (dec_pad w n)"
  using dec_digits [of n] by (auto simp: dec_pad_def list_all_iff is_digit_def)

text \<open>Dropping the last digit of a decimal numeral divides its value by ten.\<close>

lemma dec_val_butlast: "list_all is_digit s \<Longrightarrow> dec_val (butlast s) = dec_val s div 10"
proof (cases s rule: rev_cases)
  case Nil
  then show ?thesis by simp
next
  case (snoc t c)
  assume "list_all is_digit s"
  then have "digit_val c < 10" using snoc by (auto simp: is_digit_def digit_val_def)
  then show ?thesis using snoc by (simp add: dec_val_snoc)
qed

text \<open>The part of a path after its last separator.\<close>

definition path_filename :: "string \<Rightarrow> string" where
  "path_filename p = rev (takeWhile (\<lambda>ch. ch \<noteq> CHR ''/'') (rev p))"

text \<open>\<open>std::strtoull(s, nullptr, 10)\<close>: skip blanks, an optional sign, then the longest run
  of digits; no digit gives 0, a value beyond 64 bits saturates, a minus sign negates
  modulo \<open>2^64\<close>.\<close>

definition is_space :: "char \<Rightarrow> bool" where
  "is_space c \<longleftrightarrow> c = CHR '' '' \<or> (9 \<le> (of_char c :: nat) \<and> (of_char c :: nat) \<le> 13)"

definition strtoull_digits :: "string \<Rightarrow> u64" where
  "strtoull_digits s =
     (let v = dec_val (takeWhile is_digit s)
      in if v < 2 ^ 64 then word_of_nat v else - 1)"

definition strtoull :: "string \<Rightarrow> u64" where
  "strtoull s =
     (case dropWhile is_space s of
        [] \<Rightarrow> 0
      | c # cs \<Rightarrow>
          if c = CHR ''-'' then
            (if dec_val (takeWhile is_digit cs) < 2 ^ 64
             then - word_of_nat (dec_val (takeWhile is_digit cs)) else - 1)
          else if c = CHR ''+'' then strtoull_digits cs
          else strtoull_digits (c # cs))"

lemma takeWhile_digits: "list_all is_digit s \<Longrightarrow> takeWhile is_digit s = s"
  by (simp add: takeWhile_eq_all_conv list_all_iff)

lemma is_digit_not_space: "is_digit c \<Longrightarrow> \<not> is_space c \<and> c \<noteq> CHR ''-'' \<and> c \<noteq> CHR ''+''"
  by (auto simp: is_digit_def is_space_def)

lemma strtoull_numeral:
  assumes "list_all is_digit s" "s \<noteq> []"
  shows "strtoull s = strtoull_digits s"
proof -
  obtain c cs where s: "s = c # cs" using assms(2) by (cases s) auto
  have "is_digit c" using assms(1) s by simp
  then show ?thesis using is_digit_not_space [of c] by (simp add: strtoull_def s)
qed

lemma strtoull_dec: "strtoull (dec (unat w)) = w"
  using unat_bound_64 [of w]
  by (simp add: strtoull_numeral dec_digits strtoull_digits_def takeWhile_digits Let_def)

lemma strtoull_dec_pad: "0 < k \<Longrightarrow> strtoull (dec_pad k (unat w)) = w"
proof -
  assume "0 < k"
  then have "dec_pad k (unat w) \<noteq> []" by (simp add: dec_pad_def)
  then show ?thesis using unat_bound_64 [of w]
    by (simp add: strtoull_numeral dec_pad_digits strtoull_digits_def takeWhile_digits Let_def)
qed

section \<open>Signed arithmetic\<close>

text \<open>Signed overflow is undefined behaviour in C++: the checked operations return \<open>None\<close>
  there. \<open>sint\<close> reads a word as two's complement.\<close>

definition i64_ok :: "int \<Rightarrow> bool" where
  "i64_ok x \<longleftrightarrow> - (2 ^ 63) \<le> x \<and> x < 2 ^ 63"

definition i64_of :: "int \<Rightarrow> i64 option" where
  "i64_of x = (if i64_ok x then Some (word_of_int x) else None)"

lemma sint_word_of_int_64: "i64_ok x \<Longrightarrow> sint (word_of_int x :: i64) = x"
  by (simp add: i64_ok_def sint_sbintrunc' signed_take_bit_int_eq_self)

lemma i64_of_Some: "i64_of x = Some w \<Longrightarrow> sint w = x"
  by (auto simp: i64_of_def sint_word_of_int_64 split: if_splits)

lemma i64_of_ok:
  assumes "i64_ok x"
  obtains w where "i64_of x = Some w" "sint w = x"
  using assms that [of "word_of_int x"] sint_word_of_int_64 [of x] by (simp add: i64_of_def)

lemma i64_sless: "(a :: i64) <s b \<longleftrightarrow> sint a < sint b"
  by (simp add: word_sless_alt)

lemma i64_ok_sint [simp]: "i64_ok (sint (w :: i64))"
  using sint_ge [of w] sint_lt [of w] by (simp add: i64_ok_def)

lemma i64_of_sint [simp]: "i64_of (sint w) = Some w"
  by (simp add: i64_of_def)

text \<open>\<open>std::to_string\<close> of signed values.\<close>

definition dec_int :: "int \<Rightarrow> string" where
  "dec_int x = (if x < 0 then CHR ''-'' # dec (nat (- x)) else dec (nat x))"

lemma dec_not_minus: "hd (dec n) \<noteq> CHR ''-''"
proof -
  have "is_digit (hd (dec n))" using dec_digits [of n] by (cases "dec n") auto
  then show ?thesis by (auto simp: is_digit_def)
qed

lemma dec_int_inj: "dec_int x = dec_int y \<longleftrightarrow> x = y"
proof
  assume eq: "dec_int x = dec_int y"
  have cross: "CHR ''-'' # s \<noteq> dec n" for s n
    using dec_not_minus [of n] by (metis list.sel(1))
  show "x = y"
    using eq cross cross [symmetric]
    by (auto simp: dec_int_def dec_eq_iff split: if_splits)
qed simp

section \<open>Branches\<close>

lemma if_SomeE:
  assumes "(if b then x else y) = Some z"
  obtains b "x = Some z" | "y = Some z"
  using assms by (cases b) auto

end
