(* ===== verification/Ring_Buffer.thy ===== *)
theory Ring_Buffer
  imports Prelude
begin

text \<open>
  \<open>include/bist/core/ring_buffer.hpp\<close>: the single-producer single-consumer ring. The counters
  are 64-bit and wrap; the storage is masked. The contract \<open>bounded_queue\<close> is a FIFO of
  bounded length; the ring implements it for any power-of-two capacity, across counter
  wrap-around.\<close>

section \<open>The code\<close>

record 'a ring =
  rb_head :: u64
  rb_tail :: u64
  rb_storage :: "'a list"

definition ring_capacity :: "'a ring \<Rightarrow> nat" where
  "ring_capacity r = length (rb_storage r)"

text \<open>\<open>kCapacity\<close> and \<open>kMask\<close>; the capacity is the length of the storage array.\<close>

definition kCapacity :: "'a ring \<Rightarrow> u64" where
  "kCapacity r = word_of_nat (length (rb_storage r))"

definition kMask :: "'a ring \<Rightarrow> u64" where
  "kMask r = kCapacity r - 1"

definition ring_init :: "'a \<Rightarrow> nat \<Rightarrow> 'a ring" where
  "ring_init z k = \<lparr>rb_head = 0, rb_tail = 0, rb_storage = replicate (2 ^ k) z\<rparr>"

definition ring_slot :: "'a ring \<Rightarrow> u64 \<Rightarrow> nat" where
  "ring_slot r counter = unat (counter AND kMask r)"

definition try_push :: "'a \<Rightarrow> 'a ring \<Rightarrow> bool \<times> 'a ring" where
  "try_push v r =
     (let head = rb_head r; nxt = head + 1
      in if nxt - rb_tail r > kCapacity r then (False, r)
         else (True, r\<lparr>rb_storage := (rb_storage r)[ring_slot r head := v], rb_head := nxt\<rparr>))"

definition try_pop :: "'a ring \<Rightarrow> 'a option \<times> 'a ring" where
  "try_pop r =
     (let tail = rb_tail r
      in if tail = rb_head r then (None, r)
         else (Some (rb_storage r ! ring_slot r tail), r\<lparr>rb_tail := tail + 1\<rparr>))"

definition ring_empty :: "'a ring \<Rightarrow> bool" where
  "ring_empty r \<longleftrightarrow> rb_head r = rb_tail r"

definition approx_size :: "'a ring \<Rightarrow> u64" where
  "approx_size r = rb_head r - rb_tail r"

section \<open>The contract\<close>

text \<open>A queue operation of a client: push a value, or pop.\<close>

datatype 'a qop = Push 'a | Pop

text \<open>The bounded FIFO: what each operation answers, and the queue it leaves.\<close>

fun fifo_run :: "nat \<Rightarrow> 'a qop list \<Rightarrow> 'a list \<Rightarrow> (bool + 'a option) list \<times> 'a list" where
  "fifo_run n [] q = ([], q)"
| "fifo_run n (Push v # ops) q =
     (let (rs, q') = fifo_run n ops (if length q < n then q @ [v] else q)
      in (Inl (length q < n) # rs, q'))"
| "fifo_run n (Pop # ops) q =
     (let (rs, q') = fifo_run n ops (tl q)
      in (Inr (case q of [] \<Rightarrow> None | x # _ \<Rightarrow> Some x) # rs, q'))"

primrec queue_run :: "('a \<Rightarrow> 's \<Rightarrow> bool \<times> 's) \<Rightarrow> ('s \<Rightarrow> 'a option \<times> 's) \<Rightarrow>
    'a qop list \<Rightarrow> 's \<Rightarrow> (bool + 'a option) list \<times> 's" where
  "queue_run psh pp [] s = ([], s)"
| "queue_run psh pp (op # ops) s =
     (case op of
        Push v \<Rightarrow> (let (b, s1) = psh v s; (rs, s2) = queue_run psh pp ops s1 in (Inl b # rs, s2))
      | Pop \<Rightarrow> (let (x, s1) = pp s; (rs, s2) = queue_run psh pp ops s1 in (Inr x # rs, s2)))"

locale bounded_queue =
  fixes psh :: "'a \<Rightarrow> 's \<Rightarrow> bool \<times> 's"
    and pp :: "'s \<Rightarrow> 'a option \<times> 's"
    and abs :: "'s \<Rightarrow> 'a list"
    and inv :: "'s \<Rightarrow> bool"
    and bound :: "'s \<Rightarrow> nat"
  assumes psh_ok: "inv s \<Longrightarrow> inv (snd (psh v s)) \<and> bound (snd (psh v s)) = bound s
      \<and> fst (psh v s) = (length (abs s) < bound s)
      \<and> abs (snd (psh v s)) = (if length (abs s) < bound s then abs s @ [v] else abs s)"
    and pp_ok: "inv s \<Longrightarrow> inv (snd (pp s)) \<and> bound (snd (pp s)) = bound s
      \<and> fst (pp s) = (case abs s of [] \<Rightarrow> None | x # _ \<Rightarrow> Some x)
      \<and> abs (snd (pp s)) = tl (abs s)"
begin

lemma run_refines:
  "inv s \<Longrightarrow> fst (queue_run psh pp ops s) = fst (fifo_run (bound s) ops (abs s))
     \<and> abs (snd (queue_run psh pp ops s)) = snd (fifo_run (bound s) ops (abs s))
     \<and> inv (snd (queue_run psh pp ops s))"
proof (induction ops arbitrary: s)
  case Nil
  then show ?case by simp
next
  case (Cons op ops)
  show ?case
  proof (cases op)
    case (Push v)
    then show ?thesis
      using psh_ok [OF Cons.prems, of v] Cons.IH [of "snd (psh v s)"]
      by (simp add: case_prod_beta Let_def)
  next
    case Pop
    then show ?thesis
      using pp_ok [OF Cons.prems] Cons.IH [of "snd (pp s)"]
      by (simp add: case_prod_beta Let_def)
  qed
qed

end

section \<open>The ring implements it\<close>

text \<open>The number of elements, and the queue they form from the tail on.\<close>

definition ring_len :: "'a ring \<Rightarrow> nat" where
  "ring_len r = unat (rb_head r - rb_tail r)"

definition ring_list :: "'a ring \<Rightarrow> 'a list" where
  "ring_list r = map (\<lambda>i. rb_storage r ! ring_slot r (rb_tail r + word_of_nat i)) [0..<ring_len r]"

definition ring_inv :: "'a ring \<Rightarrow> bool" where
  "ring_inv r \<longleftrightarrow> (\<exists>k < 64. length (rb_storage r) = 2 ^ k) \<and> ring_len r \<le> ring_capacity r"

lemma ring_slot_add:
  assumes "length (rb_storage r) = 2 ^ k" "k < 64"
  shows "ring_slot r (c + word_of_nat i) = (unat c + i) mod 2 ^ k"
proof -
  have "kMask r = mask k" by (simp add: kMask_def kCapacity_def assms(1) mask_eq_exp_minus_1)
  then have "ring_slot r (c + word_of_nat i) = unat (take_bit k (c + word_of_nat i))"
    by (simp add: ring_slot_def take_bit_eq_mask)
  also have "\<dots> = unat (c + word_of_nat i) mod 2 ^ k"
    by (simp only: unsigned_take_bit_eq) (simp only: take_bit_eq_mod)
  also have "unat (c + word_of_nat i) = (unat c + i) mod 2 ^ 64"
    by (simp add: unat_word_ariths unat_of_nat mod_add_right_eq)
  also have "(unat c + i) mod 2 ^ 64 mod 2 ^ k = (unat c + i) mod 2 ^ k"
    using assms(2) by (intro mod_mod_cancel le_imp_power_dvd) simp
  finally show ?thesis .
qed

lemma mod_add_inj: "i < n \<Longrightarrow> j < n \<Longrightarrow> (a + i) mod n = (a + j) mod (n :: nat) \<Longrightarrow> i = j"
proof (induction i j rule: linorder_wlog)
  case (le i j)
  then have "n dvd (a + j) - (a + i)" by (metis mod_eq_dvd_iff_nat nat_add_left_cancel_le)
  then have "n dvd j - i" by simp
  moreover have "j - i < n" using le by simp
  ultimately have "j - i = 0" using nat_dvd_not_less by blast
  with le show ?case by simp
qed auto

lemma ring_head: "rb_head r = rb_tail r + word_of_nat (ring_len r)"
  by (simp add: ring_len_def)

lemma ring_len_push:
  assumes "ring_len r \<le> 2 ^ k" "k < 64"
  shows "unat (rb_head r + 1 - rb_tail r) = ring_len r + 1"
proof -
  have "(2 :: nat) ^ k \<le> 2 ^ 63" using assms(2) by (intro power_increasing) simp_all
  then have "unat (rb_head r - rb_tail r) + unat (1 :: u64) < 2 ^ 64"
    using assms(1) by (simp add: ring_len_def)
  then have "unat (rb_head r - rb_tail r + 1) = ring_len r + 1"
    using unat_add_lem [of "rb_head r - rb_tail r" "1 :: u64"] by (simp add: ring_len_def)
  then show ?thesis by (simp add: algebra_simps)
qed

lemma try_push_refines:
  assumes "ring_inv r"
  shows "ring_inv (snd (try_push v r)) \<and> ring_capacity (snd (try_push v r)) = ring_capacity r
    \<and> fst (try_push v r) = (length (ring_list r) < ring_capacity r)
    \<and> ring_list (snd (try_push v r)) =
        (if length (ring_list r) < ring_capacity r then ring_list r @ [v] else ring_list r)"
proof -
  obtain k where k: "length (rb_storage r) = 2 ^ k" "k < 64" "ring_len r \<le> 2 ^ k"
    using assms by (auto simp: ring_inv_def ring_capacity_def)
  have cap: "unat (kCapacity r) = 2 ^ k"
  proof -
    have "(2 :: nat) ^ k < 2 ^ 64" using k(2) by (intro power_strict_increasing) simp_all
    then show ?thesis unfolding kCapacity_def unat_of_nat k(1) by simp
  qed
  have len: "length (ring_list r) = ring_len r" by (simp add: ring_list_def)
  have full: "rb_head r + 1 - rb_tail r > kCapacity r \<longleftrightarrow> \<not> ring_len r < 2 ^ k"
    using ring_len_push [OF k(3,2)] cap by (auto simp: word_less_nat_alt)
  show ?thesis
  proof (cases "ring_len r < 2 ^ k")
    case False
    then show ?thesis using full assms len k(1) by (simp add: try_push_def Let_def ring_capacity_def)
  next
    case True
    let ?r = "snd (try_push v r)"
    have r: "try_push v r = (True, r\<lparr>rb_storage := (rb_storage r)[ring_slot r (rb_head r) := v],
        rb_head := rb_head r + 1\<rparr>)"
      using full True by (simp add: try_push_def Let_def)
    have st: "length (rb_storage ?r) = 2 ^ k" "rb_tail ?r = rb_tail r" "ring_len ?r = ring_len r + 1"
      using ring_len_push [OF k(3,2)] k(1) by (simp_all add: r ring_len_def)
    have slot: "ring_slot r (rb_head r) = (unat (rb_tail r) + ring_len r) mod 2 ^ k"
      using ring_slot_add [OF k(1,2)] ring_head [of r] by metis
    have slots: "ring_slot ?r c = ring_slot r c" for c
      using st(1) k(1) by (simp add: ring_slot_def kMask_def kCapacity_def)
    have store: "rb_storage ?r = (rb_storage r)[ring_slot r (rb_head r) := v]" by (simp add: r)
    have "rb_storage ?r ! ring_slot ?r (rb_tail r + word_of_nat i)
        = (if i = ring_len r then v else rb_storage r ! ring_slot r (rb_tail r + word_of_nat i))"
      if "i \<le> ring_len r" for i
      using mod_add_inj [of i "2 ^ k" "ring_len r" "unat (rb_tail r)"] that True k(1)
      unfolding slots store slot ring_slot_add [OF k(1,2)] by (auto simp: nth_list_update)
    then have "ring_list ?r = ring_list r @ [v]"
      unfolding ring_list_def st(2,3) by (simp add: map_eq_conv del: upt_Suc) (simp add: map_eq_conv)
    then show ?thesis
      using True st k by (auto simp: r len ring_inv_def ring_capacity_def)
  qed
qed

lemma try_pop_refines:
  assumes "ring_inv r"
  shows "ring_inv (snd (try_pop r)) \<and> ring_capacity (snd (try_pop r)) = ring_capacity r
    \<and> fst (try_pop r) = (case ring_list r of [] \<Rightarrow> None | x # _ \<Rightarrow> Some x)
    \<and> ring_list (snd (try_pop r)) = tl (ring_list r)"
proof (cases "rb_tail r = rb_head r")
  case True
  then show ?thesis using assms by (simp add: try_pop_def Let_def ring_list_def ring_len_def)
next
  case False
  let ?r = "snd (try_pop r)"
  have r: "try_pop r = (Some (rb_storage r ! ring_slot r (rb_tail r)), r\<lparr>rb_tail := rb_tail r + 1\<rparr>)"
    using False by (simp add: try_pop_def Let_def)
  obtain n where n: "ring_len r = Suc n"
    using False by (cases "ring_len r") (auto simp: ring_len_def unat_eq_0)
  have "unat (rb_head r - rb_tail r - 1) = n"
    using n unat_minus_one [of "rb_head r - rb_tail r"] False by (simp add: ring_len_def)
  then have st: "ring_len ?r = n" by (simp add: r ring_len_def algebra_simps)
  have "rb_storage ?r ! ring_slot ?r (rb_tail ?r + word_of_nat i) =
      rb_storage r ! ring_slot r (rb_tail r + word_of_nat (Suc i))" for i
    by (simp add: r ring_slot_def kMask_def kCapacity_def algebra_simps)
  then have "ring_list ?r = map (\<lambda>i. rb_storage r ! ring_slot r (rb_tail r + word_of_nat (Suc i))) [0..<n]"
    unfolding ring_list_def st by simp
  moreover have "ring_list r = rb_storage r ! ring_slot r (rb_tail r)
      # map (\<lambda>i. rb_storage r ! ring_slot r (rb_tail r + word_of_nat (Suc i))) [0..<n]"
    unfolding ring_list_def n upt_conv_Cons [OF zero_less_Suc] list.map
    by (simp add: map_Suc_upt [symmetric] comp_def del: upt_Suc)
  ultimately show ?thesis
    using assms n st by (auto simp: r ring_inv_def ring_capacity_def)
qed

interpretation spsc: bounded_queue try_push try_pop ring_list ring_inv ring_capacity
  by unfold_locales (erule try_push_refines, erule try_pop_refines)

lemma ring_inv_init: "k < 64 \<Longrightarrow> ring_inv (ring_init z k)"
  by (auto simp: ring_inv_def ring_init_def ring_len_def ring_capacity_def)

lemma ring_list_empty: "ring_empty r \<longleftrightarrow> ring_list r = []"
  by (auto simp: ring_empty_def ring_list_def ring_len_def unat_eq_0)

section \<open>Properties\<close>

text \<open>
  C4: A ring of \<open>2^k\<close> slots answers every sequence of pushes and pops as a FIFO bounded by
  \<open>2^k\<close> does, and ends holding that FIFO's content. This holds from any state within the
  invariant, so also when the 64-bit counters wrap.
\<close>

theorem ring_is_bounded_fifo:
  assumes "ring_inv r"
  shows "fst (queue_run try_push try_pop ops r) = fst (fifo_run (ring_capacity r) ops (ring_list r))
    \<and> ring_list (snd (queue_run try_push try_pop ops r)) = snd (fifo_run (ring_capacity r) ops (ring_list r))
    \<and> (ring_empty (snd (queue_run try_push try_pop ops r))
        \<longleftrightarrow> snd (fifo_run (ring_capacity r) ops (ring_list r)) = [])"
  using spsc.run_refines [OF assms, of ops] by (simp add: ring_list_empty)

theorem ring_is_bounded_fifo_witness:
  "fst (queue_run try_push try_pop [Push 1, Push 2, Push 3, Pop, Pop, Pop]
     \<lparr>rb_head = - 1, rb_tail = - 1, rb_storage = [0, 0 :: nat]\<rparr>)
   = [Inl True, Inl True, Inl False, Inr (Some 1), Inr (Some 2), Inr None]"
proof -
  have inv: "ring_inv \<lparr>rb_head = - 1, rb_tail = - 1, rb_storage = [0, 0 :: nat]\<rparr>"
    by (auto simp: ring_inv_def ring_len_def ring_capacity_def intro: exI [of _ 1])
  have "ring_list \<lparr>rb_head = - 1, rb_tail = - 1, rb_storage = [0, 0 :: nat]\<rparr> = []"
    by (simp add: ring_list_def ring_len_def)
  then show ?thesis
    using ring_is_bounded_fifo [OF inv, of "[Push 1, Push 2, Push 3, Pop, Pop, Pop]"]
    by (simp add: ring_capacity_def Let_def)
qed

end
