(* ===== verification/Ring_Threads.thy ===== *)
theory Ring_Threads
  imports Ring_Buffer
begin

text \<open>
  \<open>include/bist/core/ring_buffer.hpp\<close> with its two threads: every atomic access of \<open>try_push\<close>
  and \<open>try_pop\<close> is a step of its own. A load of the other thread's counter may be stale: it gives
  any value the counter has had since the last one seen, as acquire loads may. The payload
  itself is an ordinary cell, written and read without synchronisation, so part of correctness
  is that both threads are never at the same cell. The values committed and taken so far are kept
  beside the ring.
\<close>

section \<open>The threads\<close>

text \<open>Where a thread stands: the counter it loaded, what it is about to do next.\<close>

datatype 'a producer =
  PIdle
| PLoaded 'a u64
| PChecked 'a u64
| PWritten 'a u64

datatype 'a consumer =
  CIdle
| CLoaded u64
| CReady u64
| CGot u64 'a

record 'a threads =
  th_ring :: "'a ring"
  th_base :: u64
  th_prod :: "'a producer"
  th_cons :: "'a consumer"
  th_pushed :: "'a list"
  th_popped :: "'a list"
  th_pseen :: nat
  th_cseen :: nat

definition threads_init :: "u64 \<Rightarrow> 'a \<Rightarrow> nat \<Rightarrow> 'a threads" where
  "threads_init base z k =
     \<lparr>th_ring = \<lparr>rb_head = base, rb_tail = base, rb_storage = replicate (2 ^ k) z\<rparr>, th_base = base,
      th_prod = PIdle, th_cons = CIdle, th_pushed = [], th_popped = [], th_pseen = 0, th_cseen = 0\<rparr>"

text \<open>The value the counters had after \<open>n\<close> pushes or pops.\<close>

definition count_at :: "'a threads \<Rightarrow> nat \<Rightarrow> u64" where
  "count_at s n = th_base s + word_of_nat n"

inductive ring_step :: "'a threads \<Rightarrow> 'a threads \<Rightarrow> bool" where
  load_head:
    "th_prod s = PIdle \<Longrightarrow> ring_step s (s\<lparr>th_prod := PLoaded v (rb_head (th_ring s))\<rparr>)"
| push_full:
    "th_prod s = PLoaded v head \<Longrightarrow> th_pseen s \<le> n \<Longrightarrow> n \<le> length (th_popped s) \<Longrightarrow>
     head + 1 - count_at s n > kCapacity (th_ring s) \<Longrightarrow>
     ring_step s (s\<lparr>th_prod := PIdle, th_pseen := n\<rparr>)"
| push_room:
    "th_prod s = PLoaded v head \<Longrightarrow> th_pseen s \<le> n \<Longrightarrow> n \<le> length (th_popped s) \<Longrightarrow>
     \<not> head + 1 - count_at s n > kCapacity (th_ring s) \<Longrightarrow>
     ring_step s (s\<lparr>th_prod := PChecked v head, th_pseen := n\<rparr>)"
| write_cell:
    "th_prod s = PChecked v head \<Longrightarrow>
     ring_step s (s\<lparr>th_prod := PWritten v head,
       th_ring := (th_ring s)\<lparr>rb_storage := (rb_storage (th_ring s))[ring_slot (th_ring s) head := v]\<rparr>\<rparr>)"
| store_head:
    "th_prod s = PWritten v head \<Longrightarrow>
     ring_step s (s\<lparr>th_prod := PIdle, th_ring := (th_ring s)\<lparr>rb_head := head + 1\<rparr>,
       th_pushed := th_pushed s @ [v]\<rparr>)"
| load_tail:
    "th_cons s = CIdle \<Longrightarrow> ring_step s (s\<lparr>th_cons := CLoaded (rb_tail (th_ring s))\<rparr>)"
| pop_empty:
    "th_cons s = CLoaded tail \<Longrightarrow> th_cseen s \<le> n \<Longrightarrow> n \<le> length (th_pushed s) \<Longrightarrow>
     tail = count_at s n \<Longrightarrow>
     ring_step s (s\<lparr>th_cons := CIdle, th_cseen := n\<rparr>)"
| pop_ready:
    "th_cons s = CLoaded tail \<Longrightarrow> th_cseen s \<le> n \<Longrightarrow> n \<le> length (th_pushed s) \<Longrightarrow>
     tail \<noteq> count_at s n \<Longrightarrow>
     ring_step s (s\<lparr>th_cons := CReady tail, th_cseen := n\<rparr>)"
| read_cell:
    "th_cons s = CReady tail \<Longrightarrow>
     ring_step s (s\<lparr>th_cons := CGot tail (rb_storage (th_ring s) ! ring_slot (th_ring s) tail)\<rparr>)"
| store_tail:
    "th_cons s = CGot tail v \<Longrightarrow>
     ring_step s (s\<lparr>th_cons := CIdle, th_ring := (th_ring s)\<lparr>rb_tail := tail + 1\<rparr>,
       th_popped := th_popped s @ [v]\<rparr>)"

section \<open>The invariant\<close>

definition cell :: "'a threads \<Rightarrow> nat \<Rightarrow> nat" where
  "cell s i = (unat (th_base s) + i) mod length (rb_storage (th_ring s))"

definition prod_ok :: "'a threads \<Rightarrow> bool" where
  "prod_ok s \<longleftrightarrow>
     (case th_prod s of
        PIdle \<Rightarrow> True
      | PLoaded v head \<Rightarrow> head = count_at s (length (th_pushed s))
      | PChecked v head \<Rightarrow> head = count_at s (length (th_pushed s))
          \<and> length (th_pushed s) < th_pseen s + length (rb_storage (th_ring s))
      | PWritten v head \<Rightarrow> head = count_at s (length (th_pushed s))
          \<and> length (th_pushed s) < th_pseen s + length (rb_storage (th_ring s))
          \<and> rb_storage (th_ring s) ! cell s (length (th_pushed s)) = v)"

definition cons_ok :: "'a threads \<Rightarrow> bool" where
  "cons_ok s \<longleftrightarrow>
     (case th_cons s of
        CIdle \<Rightarrow> True
      | CLoaded tail \<Rightarrow> tail = count_at s (length (th_popped s))
      | CReady tail \<Rightarrow> tail = count_at s (length (th_popped s)) \<and> length (th_popped s) < th_cseen s
      | CGot tail v \<Rightarrow> tail = count_at s (length (th_popped s)) \<and> length (th_popped s) < th_cseen s
          \<and> v = th_pushed s ! length (th_popped s))"

definition counts_ok :: "'a threads \<Rightarrow> bool" where
  "counts_ok s \<longleftrightarrow>
     rb_head (th_ring s) = count_at s (length (th_pushed s))
     \<and> rb_tail (th_ring s) = count_at s (length (th_popped s))
     \<and> th_pseen s \<le> length (th_popped s) \<and> length (th_popped s) \<le> th_cseen s
     \<and> th_cseen s \<le> length (th_pushed s)
     \<and> length (th_pushed s) \<le> th_pseen s + length (rb_storage (th_ring s))"

definition cells_ok :: "'a threads \<Rightarrow> bool" where
  "cells_ok s \<longleftrightarrow>
     th_popped s = take (length (th_popped s)) (th_pushed s)
     \<and> (\<forall>i. length (th_popped s) \<le> i \<and> i < length (th_pushed s) \<longrightarrow>
          rb_storage (th_ring s) ! cell s i = th_pushed s ! i)"

definition threads_inv :: "'a threads \<Rightarrow> bool" where
  "threads_inv s \<longleftrightarrow> (\<exists>k < 64. length (rb_storage (th_ring s)) = 2 ^ k)
     \<and> counts_ok s \<and> cells_ok s \<and> prod_ok s \<and> cons_ok s"

lemma power_of_two_small: "k < 64 \<Longrightarrow> (2 :: nat) ^ k \<le> 2 ^ 63"
  by (intro power_increasing) simp_all

lemma ring_slot_count:
  assumes "length (rb_storage (th_ring s)) = 2 ^ k" "k < 64"
  shows "ring_slot (th_ring s) (count_at s i) = cell s i"
  using ring_slot_add [OF assms] by (simp add: count_at_def cell_def assms(1))

lemma unat_small: "n < 2 ^ 64 \<Longrightarrow> unat (word_of_nat n :: u64) = n"
  by (simp add: unat_of_nat take_bit_nat_eq_self_iff [symmetric] take_bit_nat_eq_self unsigned_of_nat)

text \<open>Comparisons of counters are comparisons of counts while these are less than \<open>2^64\<close> apart.\<close>

lemma count_diff:
  assumes "n \<le> m"
  shows "count_at s m - count_at s n = word_of_nat (m - n)"
  using assms by (simp add: count_at_def of_nat_diff)

lemma count_eq:
  assumes "n \<le> m" "m - n < 2 ^ 64"
  shows "count_at s n = count_at s m \<longleftrightarrow> n = m"
proof -
  have "count_at s n = count_at s m \<longleftrightarrow> (word_of_nat (m - n) :: u64) = 0"
    using count_diff [OF assms(1), of s] by auto
  also have "\<dots> \<longleftrightarrow> m - n = 0" 
    using unat_small [OF assms(2)] unat_eq_0 [of "word_of_nat (m - n) :: u64"] by (simp only:)
  finally show ?thesis using assms(1) by auto
qed

lemma push_check:
  assumes "length (rb_storage (th_ring s)) = 2 ^ k" "k < 64" "n \<le> m" "m \<le> n + 2 ^ k"
  shows "count_at s m + 1 - count_at s n > kCapacity (th_ring s) \<longleftrightarrow> m = n + 2 ^ k"
proof -
  have small: "m + 1 - n < 2 ^ 64" "(2 :: nat) ^ k < 2 ^ 64"
    using assms(4) power_of_two_small [OF assms(2)] by simp_all
  have "count_at s m + 1 = count_at s (m + 1)" by (simp add: count_at_def)
  then have "count_at s m + 1 - count_at s n = word_of_nat (m + 1 - n)"
    using count_diff [of n "m + 1" s] assms(3) by simp
  then have "unat (count_at s m + 1 - count_at s n) = m + 1 - n"
    using unat_small [OF small(1)] by simp
  moreover have "unat (kCapacity (th_ring s)) = 2 ^ k"
    unfolding kCapacity_def assms(1) using unat_small [OF small(2)] by simp
  ultimately show ?thesis using assms(3,4) by (auto simp: word_less_nat_alt)
qed

lemma cell_differs:
  assumes "i < j" "j < i + length (rb_storage (th_ring s))"
  shows "cell s i \<noteq> cell s j"
proof
  let ?n = "length (rb_storage (th_ring s))"
  assume "cell s i = cell s j"
  then have eq: "(unat (th_base s) + i + 0) mod ?n = (unat (th_base s) + i + (j - i)) mod ?n"
    using assms(1) by (simp add: cell_def)
  have "0 < ?n" "j - i < ?n" using assms by linarith+
  from mod_add_inj [OF this eq] have "0 = j - i" .
  with assms(1) show False by simp
qed

lemma count_at_updates [simp]:
  "count_at (s\<lparr>th_prod := p\<rparr>) n = count_at s n" "count_at (s\<lparr>th_cons := c\<rparr>) n = count_at s n"
  "count_at (s\<lparr>th_ring := r\<rparr>) n = count_at s n" "count_at (s\<lparr>th_pseen := i\<rparr>) n = count_at s n"
  "count_at (s\<lparr>th_cseen := i\<rparr>) n = count_at s n" "count_at (s\<lparr>th_pushed := xs\<rparr>) n = count_at s n"
  "count_at (s\<lparr>th_popped := xs\<rparr>) n = count_at s n"
  by (simp_all add: count_at_def)

lemma cell_updates [simp]:
  "cell (s\<lparr>th_prod := p\<rparr>) n = cell s n" "cell (s\<lparr>th_cons := c\<rparr>) n = cell s n"
  "cell (s\<lparr>th_pseen := i\<rparr>) n = cell s n" "cell (s\<lparr>th_cseen := i\<rparr>) n = cell s n"
  "cell (s\<lparr>th_pushed := xs\<rparr>) n = cell s n" "cell (s\<lparr>th_popped := xs\<rparr>) n = cell s n"
  "length (rb_storage r) = length (rb_storage (th_ring s)) \<Longrightarrow> cell (s\<lparr>th_ring := r\<rparr>) n = cell s n"
  by (simp_all add: cell_def)

lemma count_at_Suc: "count_at s n + 1 = count_at s (Suc n)"
  by (simp add: count_at_def)

lemma threads_inv_init: "k < 64 \<Longrightarrow> threads_inv (threads_init base z k)"
  by (auto simp: threads_inv_def threads_init_def counts_ok_def cells_ok_def prod_ok_def cons_ok_def count_at_def)

lemmas inv_defs = counts_ok_def cells_ok_def prod_ok_def cons_ok_def

lemma ring_step_inv:
  assumes "ring_step s s'" "threads_inv s"
  shows "threads_inv s'"
proof -
  obtain k where k: "length (rb_storage (th_ring s)) = 2 ^ k" "k < 64"
    and inv: "counts_ok s" "cells_ok s" "prod_ok s" "cons_ok s"
    using assms(2) by (auto simp: threads_inv_def)
  have pos: "0 < (2 :: nat) ^ k" by simp
  from assms(1) show ?thesis
  proof cases
    case (load_head v)
    then show ?thesis using assms(2) by (auto simp: threads_inv_def inv_defs split: consumer.splits)
  next
    case (push_full v head n)
    then show ?thesis using assms(2) by (auto simp: threads_inv_def inv_defs split: consumer.splits)
  next
    case (push_room v head n)
    have "head = count_at s (length (th_pushed s))" using inv(3) push_room(2) by (simp add: prod_ok_def)
    then have "length (th_pushed s) < n + 2 ^ k"
      using push_check [OF k, of n "length (th_pushed s)"] push_room inv(1) k(1)
      by (auto simp: counts_ok_def)
    then show ?thesis using push_room assms(2) k
      by (auto simp: threads_inv_def inv_defs split: consumer.splits)
  next
    case (write_cell v head)
    let ?n = "length (th_pushed s)"
    have head: "head = count_at s ?n" "?n < th_pseen s + 2 ^ k"
      using inv(3) write_cell(2) k(1) by (simp_all add: prod_ok_def)
    have slot: "ring_slot (th_ring s) (count_at s ?n) = cell s ?n" by (rule ring_slot_count [OF k])
    have "cell s ?n < 2 ^ k" by (simp add: cell_def k(1))
    moreover have "cell s i \<noteq> cell s ?n" if "length (th_popped s) \<le> i" "i < ?n" for i
      using cell_differs [of i ?n s] that head(2) inv(1) k(1) by (auto simp: counts_ok_def)
    ultimately have same: "(rb_storage (th_ring s))[cell s ?n := v] ! cell s i = rb_storage (th_ring s) ! cell s i"
      if "length (th_popped s) \<le> i" "i < ?n" for i using that by (metis nth_list_update_neq)
    show ?thesis using write_cell head inv k \<open>cell s ?n < 2 ^ k\<close>
      by (auto simp: threads_inv_def inv_defs slot same split: consumer.splits)
  next
    case (store_head v head)
    then show ?thesis using inv k
      by (auto simp: threads_inv_def inv_defs nth_append less_Suc_eq count_at_Suc split: consumer.splits)
  next
    case load_tail
    then show ?thesis using assms(2) by (auto simp: threads_inv_def inv_defs split: producer.splits)
  next
    case (pop_empty tail n)
    then show ?thesis using assms(2) by (auto simp: threads_inv_def inv_defs split: producer.splits)
  next
    case (pop_ready tail n)
    have "tail = count_at s (length (th_popped s))" using inv(4) pop_ready(2) by (simp add: cons_ok_def)
    moreover have "length (th_popped s) \<le> n" using pop_ready(3) inv(1) by (simp add: counts_ok_def)
    ultimately have "length (th_popped s) < n" using pop_ready(5) by (cases "length (th_popped s) = n") auto
    then show ?thesis using pop_ready assms(2)
      by (auto simp: threads_inv_def inv_defs split: producer.splits)
  next
    case (read_cell tail)
    have "tail = count_at s (length (th_popped s))" "length (th_popped s) < th_cseen s"
      using inv(4) read_cell(2) by (simp_all add: cons_ok_def)
    then show ?thesis using read_cell assms(2) ring_slot_count [OF k]
      by (auto simp: threads_inv_def inv_defs split: producer.splits)
  next
    case (store_tail tail v)
    then show ?thesis using inv k
      by (auto simp: threads_inv_def inv_defs count_at_Suc take_Suc_conv_app_nth split: producer.splits)
  qed
qed

lemma ring_run_inv:
  assumes "ring_step\<^sup>*\<^sup>* s s'" "threads_inv s"
  shows "threads_inv s'"
  using assms by (induction rule: rtranclp_induct) (auto intro: ring_step_inv)

lemma ring_step_storage: "ring_step s s' \<Longrightarrow> length (rb_storage (th_ring s')) = length (rb_storage (th_ring s))"
  by (induction rule: ring_step.induct) simp_all

lemma ring_run_storage:
  "ring_step\<^sup>*\<^sup>* s s' \<Longrightarrow> length (rb_storage (th_ring s')) = length (rb_storage (th_ring s))"
  by (induction rule: rtranclp_induct) (auto dest: ring_step_storage)

section \<open>One thread alone\<close>

lemma two_steps: "ring_step a b \<Longrightarrow> ring_step b c \<Longrightarrow> (ring_step ^^ 2) a c"
  by (auto simp: eval_nat_numeral relcompp_apply)

lemma four_steps:
  "ring_step a b \<Longrightarrow> ring_step b c \<Longrightarrow> ring_step c d \<Longrightarrow> ring_step d e \<Longrightarrow> (ring_step ^^ 4) a e"
  by (auto simp: eval_nat_numeral relcompp_apply)

text \<open>A call that runs without interference and with fresh loads takes at most four steps and
  does to the ring what the sequential function does.\<close>

lemma push_alone:
  assumes "threads_inv s" "th_prod s = PIdle"
  obtains s' n where "(ring_step ^^ n) s s'" "n \<le> 4" "th_ring s' = snd (try_push v (th_ring s))"
    "th_prod s' = PIdle" "th_cons s' = th_cons s" "th_popped s' = th_popped s"
    "th_pushed s' = th_pushed s @ (if fst (try_push v (th_ring s)) then [v] else [])"
proof -
  let ?r = "th_ring s" and ?n = "length (th_popped s)"
  let ?head = "rb_head ?r"
  let ?s1 = "s\<lparr>th_prod := PLoaded v ?head\<rparr>"
  have step1: "ring_step s ?s1" using assms(2) by (rule load_head)
  have tail: "count_at ?s1 ?n = rb_tail ?r" "th_pseen ?s1 \<le> ?n" "?n \<le> length (th_popped ?s1)"
    using assms(1) by (simp_all add: threads_inv_def counts_ok_def)
  show thesis
  proof (cases "?head + 1 - rb_tail ?r > kCapacity ?r")
    case True
    let ?s2 = "?s1\<lparr>th_prod := PIdle, th_pseen := ?n\<rparr>"
    have "ring_step ?s1 ?s2" using True tail by (intro push_full) simp_all
    with step1 have run: "(ring_step ^^ 2) s ?s2" by (rule two_steps)
    show thesis by (rule that [OF run]) (use True in \<open>simp_all add: try_push_def Let_def\<close>)
  next
    case False
    let ?s2 = "?s1\<lparr>th_prod := PChecked v ?head, th_pseen := ?n\<rparr>"
    let ?r3 = "?r\<lparr>rb_storage := (rb_storage ?r)[ring_slot ?r ?head := v]\<rparr>"
    let ?s3 = "?s2\<lparr>th_prod := PWritten v ?head, th_ring := ?r3\<rparr>"
    let ?s4 = "?s3\<lparr>th_prod := PIdle, th_ring := ?r3\<lparr>rb_head := ?head + 1\<rparr>, th_pushed := th_pushed s @ [v]\<rparr>"
    have step2: "ring_step ?s1 ?s2" using False tail by (intro push_room) simp_all
    have step3: "ring_step ?s2 ?s3" using write_cell [of ?s2 v ?head] by simp
    have step4: "ring_step ?s3 ?s4" using store_head [of ?s3 v ?head] by simp
    have run: "(ring_step ^^ 4) s ?s4" using step1 step2 step3 step4 by (rule four_steps)
    have seq: "try_push v ?r = (True, ?r3\<lparr>rb_head := ?head + 1\<rparr>)"
      using False by (simp only: try_push_def Let_def if_False)
    show thesis by (rule that [OF run]) (simp_all add: seq)
  qed
qed

lemma pop_alone:
  assumes "threads_inv s" "th_cons s = CIdle"
  obtains s' n where "(ring_step ^^ n) s s'" "n \<le> 4" "th_ring s' = snd (try_pop (th_ring s))"
    "th_cons s' = CIdle" "th_prod s' = th_prod s" "th_pushed s' = th_pushed s"
    "th_popped s' = th_popped s @ (case fst (try_pop (th_ring s)) of None \<Rightarrow> [] | Some v \<Rightarrow> [v])"
proof -
  let ?r = "th_ring s" and ?n = "length (th_pushed s)"
  let ?tail = "rb_tail ?r"
  let ?s1 = "s\<lparr>th_cons := CLoaded ?tail\<rparr>"
  have step1: "ring_step s ?s1" using assms(2) by (rule load_tail)
  have head: "count_at ?s1 ?n = rb_head ?r" "th_cseen ?s1 \<le> ?n" "?n \<le> length (th_pushed ?s1)"
    using assms(1) by (simp_all add: threads_inv_def counts_ok_def)
  show thesis
  proof (cases "?tail = rb_head ?r")
    case True
    let ?s2 = "?s1\<lparr>th_cons := CIdle, th_cseen := ?n\<rparr>"
    have "ring_step ?s1 ?s2" using True head by (intro pop_empty) simp_all
    with step1 have run: "(ring_step ^^ 2) s ?s2" by (rule two_steps)
    show thesis by (rule that [OF run]) (use True in \<open>simp_all add: try_pop_def Let_def\<close>)
  next
    case False
    let ?v = "rb_storage ?r ! ring_slot ?r ?tail"
    let ?s2 = "?s1\<lparr>th_cons := CReady ?tail, th_cseen := ?n\<rparr>"
    let ?s3 = "?s2\<lparr>th_cons := CGot ?tail ?v\<rparr>"
    let ?s4 = "?s3\<lparr>th_cons := CIdle, th_ring := ?r\<lparr>rb_tail := ?tail + 1\<rparr>, th_popped := th_popped s @ [?v]\<rparr>"
    have step2: "ring_step ?s1 ?s2" using False head by (intro pop_ready) simp_all
    have step3: "ring_step ?s2 ?s3" using read_cell [of ?s2 ?tail] by simp
    have step4: "ring_step ?s3 ?s4" using store_tail [of ?s3 ?tail ?v] by simp
    have run: "(ring_step ^^ 4) s ?s4" using step1 step2 step3 step4 by (rule four_steps)
    have seq: "try_pop ?r = (Some ?v, ?r\<lparr>rb_tail := ?tail + 1\<rparr>)"
      using False by (simp only: try_pop_def Let_def if_False)
    show thesis by (rule that [OF run]) (simp_all add: seq)
  qed
qed

section \<open>Properties\<close>

text \<open>
  C13: Whatever the interleaving of the two threads and however stale their loads of each other's
  counter, what the consumer has taken is a prefix of what the producer has committed, at most
  the capacity is in between, the values in between are in the cells, and a producer about to
  write and a consumer about to read are never at the same cell. This holds from any initial
  value of the counters, so also across their wrap-around.
\<close>

theorem threads_keep_fifo:
  assumes "ring_step\<^sup>*\<^sup>* (threads_init base z k) s" "k < 64"
  shows "th_popped s = take (length (th_popped s)) (th_pushed s)
    \<and> length (th_pushed s) \<le> length (th_popped s) + 2 ^ k
    \<and> ring_list (th_ring s) = drop (length (th_popped s)) (th_pushed s)
    \<and> (\<forall>v head tail. th_prod s = PChecked v head \<and> th_cons s = CReady tail \<longrightarrow>
        ring_slot (th_ring s) head \<noteq> ring_slot (th_ring s) tail)"
proof -
  have inv: "threads_inv s" using ring_run_inv [OF assms(1) threads_inv_init [OF assms(2)]] .
  have len: "length (rb_storage (th_ring s)) = 2 ^ k"
    using ring_run_storage [OF assms(1)] by (simp add: threads_init_def)
  let ?p = "length (th_popped s)" and ?n = "length (th_pushed s)"
  have cnt: "?p \<le> ?n" "?n \<le> ?p + 2 ^ k" using inv len by (auto simp: threads_inv_def counts_ok_def)
  have slot: "ring_slot (th_ring s) (count_at s i) = cell s i" for i by (rule ring_slot_count [OF len assms(2)])
  have "?n - ?p < 2 ^ 64" using cnt(2) power_of_two_small [OF assms(2)] by simp
  then have rl: "ring_len (th_ring s) = ?n - ?p"
  proof -
    have "rb_head (th_ring s) - rb_tail (th_ring s) = word_of_nat (?n - ?p)"
      using inv count_diff [OF cnt(1), of s] by (simp add: threads_inv_def counts_ok_def)
    then show ?thesis using unat_small [OF \<open>?n - ?p < 2 ^ 64\<close>] by (simp only: ring_len_def)
  qed
  have "rb_tail (th_ring s) + word_of_nat i = count_at s (?p + i)" for i
    using inv by (simp add: threads_inv_def counts_ok_def count_at_def)
  then have "ring_list (th_ring s) = map (\<lambda>i. rb_storage (th_ring s) ! cell s (?p + i)) [0..<?n - ?p]"
    by (simp add: ring_list_def rl slot)
  also have "\<dots> = map (\<lambda>i. th_pushed s ! (?p + i)) [0..<?n - ?p]"
    using inv by (intro map_cong) (auto simp: threads_inv_def cells_ok_def)
  also have "\<dots> = drop ?p (th_pushed s)" by (intro nth_equalityI) simp_all
  finally have "ring_list (th_ring s) = drop ?p (th_pushed s)" .
  moreover have "ring_slot (th_ring s) head \<noteq> ring_slot (th_ring s) tail"
    if "th_prod s = PChecked v head" "th_cons s = CReady tail" for v head tail
  proof -
    have "head = count_at s ?n" "tail = count_at s ?p" "?p < ?n" "?n < ?p + 2 ^ k"
      using inv that len by (auto simp: threads_inv_def inv_defs)
    then show ?thesis using cell_differs [of ?p ?n s] len by (simp add: slot)
  qed
  ultimately show ?thesis using inv cnt by (auto simp: threads_inv_def cells_ok_def)
qed

text \<open>
  Neither thread waits for the other: from every reachable state in which the producer is
  between calls, it can finish a push within four steps of its own, and a consumer between calls
  a pop, with the ring, the result and the committed or taken value of the sequential function.
\<close>

lemma threads_progress:
  assumes "ring_step\<^sup>*\<^sup>* (threads_init base z k) s" "k < 64"
  shows "(th_prod s = PIdle \<longrightarrow> (\<exists>s' n. (ring_step ^^ n) s s' \<and> n \<le> 4
        \<and> th_prod s' = PIdle \<and> th_cons s' = th_cons s \<and> th_popped s' = th_popped s
        \<and> th_ring s' = snd (try_push v (th_ring s))
        \<and> th_pushed s' = th_pushed s @ (if fst (try_push v (th_ring s)) then [v] else [])))
    \<and> (th_cons s = CIdle \<longrightarrow> (\<exists>s' n. (ring_step ^^ n) s s' \<and> n \<le> 4
        \<and> th_cons s' = CIdle \<and> th_prod s' = th_prod s \<and> th_pushed s' = th_pushed s
        \<and> th_ring s' = snd (try_pop (th_ring s))
        \<and> th_popped s' = th_popped s @ (case fst (try_pop (th_ring s)) of None \<Rightarrow> [] | Some v \<Rightarrow> [v])))"
proof -
  have inv: "threads_inv s" using ring_run_inv [OF assms(1) threads_inv_init [OF assms(2)]] .
  show ?thesis
  proof (intro conjI impI)
    assume "th_prod s = PIdle"
    from push_alone [OF inv this, of v] show "\<exists>s' n. (ring_step ^^ n) s s' \<and> n \<le> 4
        \<and> th_prod s' = PIdle \<and> th_cons s' = th_cons s \<and> th_popped s' = th_popped s
        \<and> th_ring s' = snd (try_push v (th_ring s))
        \<and> th_pushed s' = th_pushed s @ (if fst (try_push v (th_ring s)) then [v] else [])" by metis
  next
    assume "th_cons s = CIdle"
    from pop_alone [OF inv this] show "\<exists>s' n. (ring_step ^^ n) s s' \<and> n \<le> 4
        \<and> th_cons s' = CIdle \<and> th_prod s' = th_prod s \<and> th_pushed s' = th_pushed s
        \<and> th_ring s' = snd (try_pop (th_ring s))
        \<and> th_popped s' = th_popped s @ (case fst (try_pop (th_ring s)) of None \<Rightarrow> [] | Some v \<Rightarrow> [v])" by metis
  qed
qed

section \<open>Witnesses\<close>

text \<open>A ring of one slot whose counters wrap: the producer has checked and is about to write.\<close>

theorem threads_keep_fifo_witness:
  "\<exists>s. ring_step\<^sup>*\<^sup>* (threads_init (- 1) (0 :: nat) 0) s \<and> th_prod s = PChecked 7 (- 1)
    \<and> th_popped s = take (length (th_popped s)) (th_pushed s)"
proof -
  let ?s0 = "threads_init (- 1) (0 :: nat) 0"
  let ?s1 = "?s0\<lparr>th_prod := PLoaded 7 (- 1)\<rparr>"
  let ?s2 = "?s1\<lparr>th_prod := PChecked 7 (- 1), th_pseen := 0\<rparr>"
  have "ring_step ?s0 ?s1" using load_head [of ?s0 7] by (simp add: threads_init_def)
  moreover have "ring_step ?s1 ?s2"
    by (intro push_room) (simp_all add: threads_init_def count_at_def kCapacity_def)
  ultimately have run: "ring_step\<^sup>*\<^sup>* ?s0 ?s2" by simp
  have "th_prod ?s2 = PChecked 7 (- 1)" by simp
  moreover have "th_popped ?s2 = take (length (th_popped ?s2)) (th_pushed ?s2)"
    using threads_keep_fifo [OF run] by (rule conjunct1) simp
  ultimately show ?thesis using run by (intro exI conjI)
qed

end
