(* ===== verification/Endian.thy ===== *)
theory Endian
  imports Prelude
begin

text \<open>
  \<open>include/bist/core/endian.hpp\<close>: \<open>BigEndian<T>\<close>, a wrapper whose storage is the wire
  bytes of an integer. Its \<open>set\<close> and \<open>get\<close> copy the object representation of a host
  integer with \<open>memcpy\<close>, after a byte swap on little-endian hosts. The model keeps the
  host's byte order as a parameter and shows that the wire bytes do not depend on it.
\<close>

unbundle bit_operations_syntax

section \<open>Object representations\<close>

text \<open>The \<open>n\<close> bytes of a word, least significant first, and the word they spell.\<close>

fun le_bytes :: "nat \<Rightarrow> 'a::len word \<Rightarrow> byte list" where
  "le_bytes 0 w = []"
| "le_bytes (Suc n) w = ucast w # le_bytes n (drop_bit 8 w)"

fun of_le_bytes :: "byte list \<Rightarrow> 'a::len word" where
  "of_le_bytes [] = 0"
| "of_le_bytes (b # bs) = ucast b OR push_bit 8 (of_le_bytes bs)"

definition word_bytes :: "'a::len itself \<Rightarrow> nat" where
  "word_bytes t = LENGTH('a) div 8"

lemma length_le_bytes [simp, layout_simps]: "length (le_bytes n w) = n"
  by (induction n arbitrary: w) simp_all

lemma le_bytes_numeral [simp]:
  "le_bytes (numeral k) w = ucast w # le_bytes (pred_numeral k) (drop_bit 8 w)"
  by (simp add: numeral_eq_Suc)

lemma of_le_bytes_le_bytes:
  "of_le_bytes (le_bytes n w) = take_bit (8 * n) (w :: 'a::len word)"
proof (induction n arbitrary: w)
  case 0
  then show ?case by simp
next
  case (Suc n)
  have "ucast (ucast w :: byte) OR push_bit 8 (take_bit (8 * n) (drop_bit 8 w))
      = take_bit (8 * Suc n) w"
    by (rule bit_eqI) (auto simp: bit_simps)
  with Suc show ?case by simp
qed

lemma drop_bit_of_le_bytes:
  "drop_bit 8 (ucast (b :: byte) OR push_bit 8 (v :: 'a::len word))
     = take_bit (LENGTH('a) - 8) v"
  by (rule bit_eqI) (auto simp: bit_simps dest: bit_imp_le_length)

lemma ucast_of_le_bytes:
  "8 \<le> LENGTH('a) \<Longrightarrow> ucast (ucast (b :: byte) OR push_bit 8 (v :: 'a::len word)) = b"
  by (rule bit_eqI) (auto simp: bit_simps)

lemma le_bytes_take_bit:
  "8 * n \<le> k \<Longrightarrow> le_bytes n (take_bit k (w :: 'a::len word)) = le_bytes n w"
proof (induction n arbitrary: k w)
  case 0
  then show ?case by simp
next
  case (Suc n)
  have "ucast (take_bit k w) = (ucast w :: byte)"
    using Suc.prems by (intro bit_eqI) (auto simp: bit_simps)
  moreover have "drop_bit 8 (take_bit k w) = take_bit (k - 8) (drop_bit 8 w)"
    using Suc.prems by (intro bit_eqI) (auto simp: bit_simps)
  moreover have "8 * n \<le> k - 8" using Suc.prems by simp
  ultimately show ?case using Suc.IH by simp
qed

lemma le_bytes_of_le_bytes:
  "8 * length bs \<le> LENGTH('a) \<Longrightarrow> le_bytes (length bs) (of_le_bytes bs :: 'a::len word) = bs"
proof (induction bs)
  case Nil
  then show ?case by simp
next
  case (Cons b bs)
  then have "8 * length bs \<le> LENGTH('a) - 8" "8 \<le> LENGTH('a)" by simp_all
  with Cons.IH show ?case
    by (simp add: ucast_of_le_bytes drop_bit_of_le_bytes le_bytes_take_bit del: drop_bit_or)
qed

section \<open>The wrapper\<close>

datatype endianness = Little | Big

text \<open>\<open>memcpy\<close> between a host integer and its object representation on a host of the given
  byte order, and \<open>__builtin_bswap\<close>, which reverses the bytes of the value.\<close>

definition store :: "endianness \<Rightarrow> 'a::len word \<Rightarrow> byte list" where
  "store e w = (let bs = le_bytes (word_bytes TYPE('a)) w
                in case e of Little \<Rightarrow> bs | Big \<Rightarrow> rev bs)"

definition fetch :: "endianness \<Rightarrow> byte list \<Rightarrow> 'a::len word" where
  "fetch e bs = (case e of Little \<Rightarrow> of_le_bytes bs | Big \<Rightarrow> of_le_bytes (rev bs))"

definition byteswap :: "'a::len word \<Rightarrow> 'a word" where
  "byteswap w = of_le_bytes (rev (le_bytes (word_bytes TYPE('a)) w))"

definition be_set :: "endianness \<Rightarrow> 'a::len word \<Rightarrow> byte list" where
  "be_set native v =
     (if word_bytes TYPE('a) = 1 then [ucast v]
      else store native (if native = Little then byteswap v else v))"

definition be_get :: "endianness \<Rightarrow> byte list \<Rightarrow> 'a::len word" where
  "be_get native bs =
     (if word_bytes TYPE('a) = 1 then ucast (hd bs)
      else (let v = fetch native bs in if native = Little then byteswap v else v))"

text \<open>The byte-sized integer types the wrapper is instantiated at.\<close>

definition whole_bytes :: "'a::len itself \<Rightarrow> bool" where
  "whole_bytes t \<longleftrightarrow> LENGTH('a) = 8 * word_bytes TYPE('a) \<and> 0 < word_bytes TYPE('a)"

lemma whole_bytes_8 [simp]: "whole_bytes TYPE(8)"
  and whole_bytes_16 [simp]: "whole_bytes TYPE(16)"
  and whole_bytes_32 [simp]: "whole_bytes TYPE(32)"
  and whole_bytes_64 [simp]: "whole_bytes TYPE(64)"
  by (simp_all add: whole_bytes_def word_bytes_def)

lemma word_bytes_simps [simp]:
  "word_bytes TYPE(8) = 1" "word_bytes TYPE(16) = 2"
  "word_bytes TYPE(32) = 4" "word_bytes TYPE(64) = 8"
  by (simp_all add: word_bytes_def)

text \<open>The specification: most significant byte first.\<close>

definition be_bytes :: "'a::len word \<Rightarrow> byte list" where
  "be_bytes w = rev (le_bytes (word_bytes TYPE('a)) w)"

definition of_be_bytes :: "byte list \<Rightarrow> 'a::len word" where
  "of_be_bytes bs = of_le_bytes (rev bs)"

lemma length_be_bytes [simp, layout_simps]:
  "length (be_bytes (w :: 'a::len word)) = word_bytes TYPE('a)"
  by (simp add: be_bytes_def)

lemma of_be_bytes_be_bytes [simp]:
  "whole_bytes TYPE('a) \<Longrightarrow> of_be_bytes (be_bytes (w :: 'a::len word)) = w"
  by (simp add: of_be_bytes_def be_bytes_def of_le_bytes_le_bytes whole_bytes_def
      take_bit_word_eq_self)

lemma be_bytes_of_be_bytes:
  assumes "whole_bytes TYPE('a::len)" "length bs = word_bytes TYPE('a)"
  shows "be_bytes (of_be_bytes bs :: 'a word) = bs"
proof -
  have "8 * length (rev bs) \<le> LENGTH('a)" using assms by (simp add: whole_bytes_def)
  then have "le_bytes (length (rev bs)) (of_le_bytes (rev bs) :: 'a word) = rev bs"
    by (rule le_bytes_of_le_bytes)
  then show ?thesis using assms(2) by (simp add: be_bytes_def of_be_bytes_def)
qed

lemma be_bytes_inj:
  "whole_bytes TYPE('a) \<Longrightarrow> be_bytes (v :: 'a::len word) = be_bytes w \<longleftrightarrow> v = w"
  by (metis of_be_bytes_be_bytes)

lemma le_bytes_byteswap:
  assumes "whole_bytes TYPE('a::len)"
  shows "le_bytes (word_bytes TYPE('a)) (byteswap (w :: 'a word)) = be_bytes w"
  using le_bytes_of_le_bytes [of "rev (le_bytes (word_bytes TYPE('a)) w)", where 'a = 'a] assms
  by (simp add: byteswap_def be_bytes_def whole_bytes_def)

lemma le_bytes_1: "word_bytes TYPE('a) = 1 \<Longrightarrow> be_bytes (w :: 'a::len word) = [ucast w]"
  by (simp add: be_bytes_def)

lemma be_set_eq:
  "whole_bytes TYPE('a) \<Longrightarrow> be_set e (w :: 'a::len word) = be_bytes w"
  by (cases e) (simp_all add: be_set_def store_def le_bytes_byteswap le_bytes_1 be_bytes_def Let_def)

lemma byteswap_of_le_bytes:
  assumes "whole_bytes TYPE('a::len)" "length bs = word_bytes TYPE('a)"
  shows "byteswap (of_le_bytes bs :: 'a word) = of_be_bytes bs"
  using le_bytes_of_le_bytes [of bs, where 'a = 'a] assms
  by (simp add: byteswap_def of_be_bytes_def whole_bytes_def)

lemma be_get_eq:
  assumes "whole_bytes TYPE('a::len)" "length bs = word_bytes TYPE('a)"
  shows "be_get e bs = (of_be_bytes bs :: 'a word)"
proof (cases "word_bytes TYPE('a) = 1")
  case True
  then obtain b where "bs = [b]" using assms(2) by (cases bs) auto
  with True show ?thesis by (simp add: be_get_def of_be_bytes_def)
next
  case False
  with assms show ?thesis
    by (cases e) (simp_all add: be_get_def fetch_def byteswap_of_le_bytes of_be_bytes_def Let_def)
qed

text \<open>Whatever the byte order of the host, \<open>BigEndian<T>::set\<close> leaves the bytes of the
  value in storage most significant first, \<open>get\<close> reads back the value that was set, even on
  a host of the other byte order, and any storage of the right size is the storage of exactly
  one value; for the 16, 32 and 64 bit types the messages use.\<close>

lemma big_endian_host_independent:
  "be_set e (w :: 16 word) = be_bytes w \<and> (be_get e' (be_set e w) = w)
   \<and> be_set e (x :: 32 word) = be_bytes x \<and> (be_get e' (be_set e x) = x)
   \<and> be_set e (y :: 64 word) = be_bytes y \<and> (be_get e' (be_set e y) = y)
   \<and> (length bs = 8 \<longrightarrow> be_set e (be_get e' bs :: 64 word) = bs)"
  by (simp add: be_set_eq be_get_eq be_bytes_of_be_bytes)

end
