(* ===== verification/Core_Types.thy ===== *)
theory Core_Types
  imports Endian
begin

text \<open>
  \<open>include/bist/core/types.hpp\<close> and \<open>include/bist/core/result.hpp\<close>: the enumerations of
  the protocol with their wire values, the fixed-width order token and the domain error type.
  An enumeration that the code casts from an arbitrary byte (\<open>Side\<close>) keeps the unlisted
  values as a constructor of their own; the others are only ever built from their enumerators.
\<close>

section \<open>Scalar aliases\<close>

type_synonym order_book_id = u32
type_synonym order_id = u64
type_synonym quantity = i64
type_synonym price_int = i32
type_synonym timestamp_ns = u64
type_synonym seq_num = u64

section \<open>Enumerations\<close>

datatype side = Buy | Sell | ShortSell | RawSide char

fun to_wire :: "side \<Rightarrow> char" where
  "to_wire Buy = CHR ''B''"
| "to_wire Sell = CHR ''S''"
| "to_wire ShortSell = CHR ''T''"
| "to_wire (RawSide c) = c"

definition side_from_wire :: "char \<Rightarrow> side" where
  "side_from_wire c =
     (if c = CHR ''B'' then Buy else if c = CHR ''S'' then Sell
      else if c = CHR ''T'' then ShortSell else RawSide c)"

lemma to_wire_side_from_wire [simp]: "to_wire (side_from_wire c) = c"
  by (simp add: side_from_wire_def)

text \<open>A \<open>side\<close> is in normal form when it does not spell a listed enumerator as a raw byte.\<close>

definition side_ok :: "side \<Rightarrow> bool" where
  "side_ok s \<longleftrightarrow> (\<forall>c. s = RawSide c \<longrightarrow> c \<notin> {CHR ''B'', CHR ''S'', CHR ''T''})"

lemma side_from_wire_to_wire: "side_ok s \<Longrightarrow> side_from_wire (to_wire s) = s"
  by (cases s) (auto simp: side_from_wire_def side_ok_def)

lemma side_ok_from_wire [simp]: "side_ok (side_from_wire c)"
  by (simp add: side_ok_def side_from_wire_def)

datatype time_in_force = Day | ImmediateOrCancel | FillOrKill

fun tif_wire :: "time_in_force \<Rightarrow> u8" where
  "tif_wire Day = 0"
| "tif_wire ImmediateOrCancel = 3"
| "tif_wire FillOrKill = 4"

text \<open>\<open>ReplaceKeep\<close> is an alias of \<open>DefaultForAccount\<close>: both are 0.\<close>

datatype open_close = DefaultForAccount | Open | CloseNet | ReplaceDefault

abbreviation ReplaceKeep :: open_close where
  "ReplaceKeep \<equiv> DefaultForAccount"

fun open_close_wire :: "open_close \<Rightarrow> u8" where
  "open_close_wire DefaultForAccount = 0"
| "open_close_wire Open = 1"
| "open_close_wire CloseNet = 2"
| "open_close_wire ReplaceDefault = 4"

definition is_valid_open_close_for_enter :: "u8 \<Rightarrow> bool" where
  "is_valid_open_close_for_enter v \<longleftrightarrow> v = 0 \<or> v = 1 \<or> v = 2"

definition is_valid_open_close_for_replace :: "u8 \<Rightarrow> bool" where
  "is_valid_open_close_for_replace v \<longleftrightarrow> v = 0 \<or> v = 4"

datatype client_category =
  Client | House | Fund | InvestmentTrust | PrimaryDealerGovt | PrimaryDealerCorp | PortfolioMgmt

fun client_category_wire :: "client_category \<Rightarrow> u8" where
  "client_category_wire Client = 1"
| "client_category_wire House = 2"
| "client_category_wire Fund = 7"
| "client_category_wire InvestmentTrust = 9"
| "client_category_wire PrimaryDealerGovt = 10"
| "client_category_wire PrimaryDealerCorp = 11"
| "client_category_wire PortfolioMgmt = 12"

datatype order_state = OnBookState | NotOnBookState | PausedState | OuchOwnershipLost

fun order_state_wire :: "order_state \<Rightarrow> u8" where
  "order_state_wire OnBookState = 1"
| "order_state_wire NotOnBookState = 2"
| "order_state_wire PausedState = 98"
| "order_state_wire OuchOwnershipLost = 99"

datatype cancel_reason =
  CanceledByUser | Trade | Inactivate | ReplacedByUser | New | ConvertedBySystem
| CanceledBySystem | CodInactivate | MarketHalt

fun cancel_reason_wire :: "cancel_reason \<Rightarrow> u8" where
  "cancel_reason_wire CanceledByUser = 1"
| "cancel_reason_wire Trade = 3"
| "cancel_reason_wire Inactivate = 4"
| "cancel_reason_wire ReplacedByUser = 5"
| "cancel_reason_wire New = 6"
| "cancel_reason_wire ConvertedBySystem = 8"
| "cancel_reason_wire CanceledBySystem = 9"
| "cancel_reason_wire CodInactivate = 10"
| "cancel_reason_wire MarketHalt = 11"

definition cancel_reason_name :: "u8 \<Rightarrow> string" where
  "cancel_reason_name v =
     (if v = cancel_reason_wire CanceledByUser then ''canceled_by_user''
      else if v = cancel_reason_wire Trade then ''trade''
      else if v = cancel_reason_wire Inactivate then ''inactivate''
      else if v = cancel_reason_wire ReplacedByUser then ''replaced_by_user''
      else if v = cancel_reason_wire New then ''new''
      else if v = cancel_reason_wire ConvertedBySystem then ''converted_by_system''
      else if v = cancel_reason_wire CanceledBySystem then ''canceled_by_system''
      else if v = cancel_reason_wire CodInactivate then ''cod_inactivate''
      else if v = cancel_reason_wire MarketHalt then ''market_halt''
      else ''unknown'')"

datatype mass_quote_status =
  Accept | Updated | Canceled | UnsolicitedUpdate | UnsolicitedCancel | Traded

fun mass_quote_status_wire :: "mass_quote_status \<Rightarrow> u32" where
  "mass_quote_status_wire Accept = 0"
| "mass_quote_status_wire Updated = 1"
| "mass_quote_status_wire Canceled = 2"
| "mass_quote_status_wire UnsolicitedUpdate = 3"
| "mass_quote_status_wire UnsolicitedCancel = 4"
| "mass_quote_status_wire Traded = 5"

section \<open>Order tokens\<close>

text \<open>
  \<open>OrderToken\<close> holds exactly 14 characters. The type carries that invariant; the
  constructor pads or truncates, \<open>bytes()\<close> is the storage and \<open>view()\<close> the text without
  trailing blanks.
\<close>

definition kTokenSize :: nat where
  "kTokenSize = 14"

typedef order_token = "{s :: string. length s = kTokenSize}"
  morphisms token_bytes Abs_order_token
  by (rule exI [of _ "replicate kTokenSize CHR '' ''"]) simp

setup_lifting type_definition_order_token

lift_definition order_token_of :: "string \<Rightarrow> order_token" is "pad_field kTokenSize"
  by simp

lift_definition blank_token :: order_token is "replicate kTokenSize CHR '' ''"
  by simp

text \<open>\<open>token_get\<close> of \<open>codec.hpp\<close> overwrites the storage with 14 raw characters.\<close>

lift_definition token_of_raw :: "string \<Rightarrow> order_token" is
  "\<lambda>s. if length s = kTokenSize then s else replicate kTokenSize CHR '' ''"
  by simp

definition token_view :: "order_token \<Rightarrow> string" where
  "token_view t = trim_blanks (token_bytes t)"

instantiation order_token :: equal
begin

definition equal_order_token :: "order_token \<Rightarrow> order_token \<Rightarrow> bool" where
  "equal_order_token a b \<longleftrightarrow> token_bytes a = token_bytes b"

instance
  by standard (simp add: equal_order_token_def token_bytes_inject)

end

lemma length_token_bytes [simp, layout_simps]: "length (token_bytes t) = 14"
  using token_bytes [of t] by (simp add: kTokenSize_def)

lemma token_bytes_of [simp]: "token_bytes (order_token_of s) = pad_field 14 s"
  by transfer (simp add: kTokenSize_def)

lemma token_bytes_raw [simp]: "length s = 14 \<Longrightarrow> token_bytes (token_of_raw s) = s"
  by transfer (simp add: kTokenSize_def)

lemma token_eqI: "token_bytes a = token_bytes b \<Longrightarrow> a = b"
  by (simp add: token_bytes_inject)

lemma token_view_of: "token_view (order_token_of s) = trim_blanks (take 14 s)"
  by (simp add: token_view_def trim_pad_field)

lemma order_token_of_view [simp]: "order_token_of (token_view t) = t"
  by (rule token_eqI) (simp add: token_view_def pad_trim_field)

lemma token_view_inj: "token_view a = token_view b \<longleftrightarrow> a = b"
  by (metis order_token_of_view)

lemma length_token_view: "length (token_view t) \<le> 14"
  using length_rstrip_le [of "\<lambda>c. c = CHR '' ''" "token_bytes t"] by (simp add: token_view_def)

lemma order_token_of_eq_iff:
  "order_token_of s = order_token_of t \<longleftrightarrow> trim_blanks (take 14 s) = trim_blanks (take 14 t)"
  by (metis token_view_of token_view_inj)

section \<open>Results\<close>

datatype error_category =
  Ok | Io | Protocol | Validation | Reject | Timeout | Throttled | StateMismatch | Unsupported

record error =
  category :: error_category
  code :: int
  detail :: string

text \<open>\<open>Result<T>\<close> is the sum of an error and a value; \<open>Result<void>\<close> carries \<open>unit\<close>.\<close>

type_synonym 'a result = "error + 'a"

definition make_error_code :: "error_category \<Rightarrow> string \<Rightarrow> int \<Rightarrow> error" where
  "make_error_code cat d c = \<lparr>category = cat, code = c, detail = d\<rparr>"

abbreviation make_error :: "error_category \<Rightarrow> string \<Rightarrow> error" where
  "make_error cat d \<equiv> make_error_code cat d 0"

definition result_ok :: "'a result \<Rightarrow> bool" where
  "result_ok r = (case r of Inl _ \<Rightarrow> False | Inr _ \<Rightarrow> True)"

lemma result_ok_simps [simp]: "result_ok (Inr v)" "\<not> result_ok (Inl e)"
  by (simp_all add: result_ok_def)

lemma make_error_sel [simp]:
  "category (make_error_code c d n) = c" "detail (make_error_code c d n) = d"
  "code (make_error_code c d n) = n"
  by (simp_all add: make_error_code_def)

text \<open>An order token built from any text is the text cut to 14 characters, blank-padded;
  its view drops only trailing blanks, rebuilding a token from its view gives the same token,
  and two texts give the same token exactly when their first 14 characters agree up to
  trailing blanks.\<close>

lemma order_token_encoding:
  "length (token_bytes (order_token_of s)) = 14
   \<and> token_view (order_token_of s) = trim_blanks (take 14 s)
   \<and> order_token_of (token_view t) = t
   \<and> (order_token_of s = order_token_of s'
        \<longleftrightarrow> trim_blanks (take 14 s) = trim_blanks (take 14 s'))"
  by (simp add: token_view_of order_token_of_eq_iff)

end
