(* ===== verification/Messages.thy ===== *)
theory Messages
  imports Core_Types
begin

text \<open>
  \<open>include/bist/ouch/messages.hpp\<close>: the packed OUCH message structs. A message is a record
  of its field values; \<open>enc_<Struct>\<close> is its object representation (what
  \<open>reinterpret_cast<const uint8_t*>(&msg)\<close> points at) and \<open>dec_<Struct>\<close> reads a buffer
  field by field at the offsets the static assertions fix (what \<open>memcpy\<close> into the struct
  yields). A \<open>BigEndian<T>\<close> field holds its value, encoded most significant byte first
  (\<open>Endian\<close>); a \<open>char[N]\<close> field is a string of length \<open>N\<close>, a \<open>uint8_t[N]\<close> field a list
  of \<open>N\<close> bytes, which the well-formedness predicate \<open>wf_<Struct>\<close> states.

  The locale \<open>wire_msg\<close> is the contract between a struct and the code that sends and parses
  it; every struct is an instance.
\<close>

section \<open>Message type bytes and field sizes\<close>

definition kEnterOrder :: char where "kEnterOrder = CHR ''O''"
definition kReplaceOrder :: char where "kReplaceOrder = CHR ''U''"
definition kCancelOrder :: char where "kCancelOrder = CHR ''X''"
definition kCancelByOrderId :: char where "kCancelByOrderId = CHR ''Y''"
definition kMassQuote :: char where "kMassQuote = CHR ''Q''"
definition kOrderAccepted :: char where "kOrderAccepted = CHR ''A''"
definition kOrderRejected :: char where "kOrderRejected = CHR ''J''"
definition kOrderReplaced :: char where "kOrderReplaced = CHR ''U''"
definition kOrderCanceled :: char where "kOrderCanceled = CHR ''C''"
definition kOrderExecuted :: char where "kOrderExecuted = CHR ''E''"
definition kMassQuoteAck :: char where "kMassQuoteAck = CHR ''K''"
definition kMassQuoteRejection :: char where "kMassQuoteRejection = CHR ''R''"

lemmas msg_type_defs =
  kEnterOrder_def kReplaceOrder_def kCancelOrder_def kCancelByOrderId_def kMassQuote_def
  kOrderAccepted_def kOrderRejected_def kOrderReplaced_def kOrderCanceled_def
  kOrderExecuted_def kMassQuoteAck_def kMassQuoteRejection_def

definition kMassQuoteHdrLen :: nat where "kMassQuoteHdrLen = 50"
definition kQuoteEntryLen :: nat where "kQuoteEntryLen = 28"
definition kMaxQuoteEntries :: nat where "kMaxQuoteEntries = 5"

definition kPriceOutsideLimits :: i32 where "kPriceOutsideLimits = - 420131"
definition kTokenNotUnique :: i32 where "kTokenNotUnique = - 800002"

section \<open>The contract of a wire struct\<close>

locale wire_msg =
  fixes enc :: "'m \<Rightarrow> byte list"
    and dec :: "byte list \<Rightarrow> 'm"
    and wf :: "'m \<Rightarrow> bool"
    and sz :: nat
  assumes length_enc: "wf m \<Longrightarrow> length (enc m) = sz"
    and dec_enc: "wf m \<Longrightarrow> dec (enc m) = m"
    and enc_dec: "length bs = sz \<Longrightarrow> enc (dec bs) = bs"
    and wf_dec: "length bs = sz \<Longrightarrow> wf (dec bs)"
begin

lemma enc_inj: "wf m \<Longrightarrow> wf m' \<Longrightarrow> enc m = enc m' \<longleftrightarrow> m = m'"
  using dec_enc by metis

lemma dec_inj: "length bs = sz \<Longrightarrow> length bs' = sz \<Longrightarrow> dec bs = dec bs' \<longleftrightarrow> bs = bs'"
  using enc_dec by metis

text \<open>The struct occupies exactly the buffers of its size.\<close>

lemma enc_image: "enc ` {m. wf m} = {bs. length bs = sz}"
proof
  show "enc ` {m. wf m} \<subseteq> {bs. length bs = sz}" by (auto simp: length_enc)
  show "{bs. length bs = sz} \<subseteq> enc ` {m. wf m}"
  proof
    fix bs :: "byte list"
    assume "bs \<in> {bs. length bs = sz}"
    then have "wf (dec bs)" "bs = enc (dec bs)" by (simp_all add: wf_dec enc_dec)
    then show "bs \<in> enc ` {m. wf m}" by blast
  qed
qed

end

section \<open>Field codecs\<close>

definition enc_char :: "char \<Rightarrow> byte list" where "enc_char c = [byte_of_char c]"
definition dec_char :: "byte list \<Rightarrow> char" where "dec_char bs = char_of_byte (hd bs)"
definition enc_u8 :: "u8 \<Rightarrow> byte list" where "enc_u8 b = [b]"
definition dec_u8 :: "byte list \<Rightarrow> u8" where "dec_u8 bs = hd bs"

lemma length_enc_char [simp, layout_simps]: "length (enc_char c) = 1"
  and length_enc_u8 [simp, layout_simps]: "length (enc_u8 b) = 1"
  by (simp_all add: enc_char_def enc_u8_def)

lemma dec_enc_char [simp]: "dec_char (enc_char c) = c"
  and dec_enc_u8 [simp]: "dec_u8 (enc_u8 b) = b"
  by (simp_all add: enc_char_def dec_char_def enc_u8_def dec_u8_def)

lemma enc_dec_char: "length bs = 1 \<Longrightarrow> enc_char (dec_char bs) = bs"
  and enc_dec_u8: "length bs' = 1 \<Longrightarrow> enc_u8 (dec_u8 bs') = bs'"
  by (cases bs; cases bs'; simp add: enc_char_def dec_char_def enc_u8_def dec_u8_def)+

lemma enc_char_append: "enc_char c @ bs = byte_of_char c # bs"
  by (simp add: enc_char_def)

lemmas field_dec =
  dec_enc_char dec_enc_u8 of_be_bytes_be_bytes string_of_bytes_of_string

lemmas field_enc =
  enc_dec_char enc_dec_u8 be_bytes_of_be_bytes bytes_of_string_of_bytes

lemmas slice_join = slice_append_rest slice_append_last

section \<open>4.1.1 Enter Order\<close>

record EnterOrder =
  eo_message_type :: char
  eo_order_token :: string
  eo_order_book_id :: u32
  eo_side :: char
  eo_quantity :: u64
  eo_price :: i32
  eo_time_in_force :: u8
  eo_open_close :: u8
  eo_client_account :: string
  eo_customer_info :: string
  eo_exchange_info :: string
  eo_display_quantity :: u64
  eo_client_category :: u8
  eo_off_hours :: u8
  eo_smp_level :: u8
  eo_smp_method :: u8
  eo_smp_id :: string
  eo_reserved :: "byte list"

definition wf_EnterOrder :: "EnterOrder \<Rightarrow> bool" where
  "wf_EnterOrder m \<longleftrightarrow> length (eo_order_token m) = 14 \<and> length (eo_client_account m) = 16 \<and> length (eo_customer_info m) = 15 \<and> length (eo_exchange_info m) = 32 \<and> length (eo_smp_id m) = 3 \<and> length (eo_reserved m) = 2"

definition enc_EnterOrder :: "EnterOrder \<Rightarrow> byte list" where
  "enc_EnterOrder m =
     enc_char (eo_message_type m)
     @ bytes_of_string (eo_order_token m)
     @ be_bytes (eo_order_book_id m)
     @ enc_char (eo_side m)
     @ be_bytes (eo_quantity m)
     @ be_bytes (eo_price m)
     @ enc_u8 (eo_time_in_force m)
     @ enc_u8 (eo_open_close m)
     @ bytes_of_string (eo_client_account m)
     @ bytes_of_string (eo_customer_info m)
     @ bytes_of_string (eo_exchange_info m)
     @ be_bytes (eo_display_quantity m)
     @ enc_u8 (eo_client_category m)
     @ enc_u8 (eo_off_hours m)
     @ enc_u8 (eo_smp_level m)
     @ enc_u8 (eo_smp_method m)
     @ bytes_of_string (eo_smp_id m)
     @ eo_reserved m"

definition dec_EnterOrder :: "byte list \<Rightarrow> EnterOrder" where
  "dec_EnterOrder bs =
     \<lparr>eo_message_type = dec_char (slice_at 0 1 bs),
      eo_order_token = string_of_bytes (slice_at 1 14 bs),
      eo_order_book_id = of_be_bytes (slice_at 15 4 bs),
      eo_side = dec_char (slice_at 19 1 bs),
      eo_quantity = of_be_bytes (slice_at 20 8 bs),
      eo_price = of_be_bytes (slice_at 28 4 bs),
      eo_time_in_force = dec_u8 (slice_at 32 1 bs),
      eo_open_close = dec_u8 (slice_at 33 1 bs),
      eo_client_account = string_of_bytes (slice_at 34 16 bs),
      eo_customer_info = string_of_bytes (slice_at 50 15 bs),
      eo_exchange_info = string_of_bytes (slice_at 65 32 bs),
      eo_display_quantity = of_be_bytes (slice_at 97 8 bs),
      eo_client_category = dec_u8 (slice_at 105 1 bs),
      eo_off_hours = dec_u8 (slice_at 106 1 bs),
      eo_smp_level = dec_u8 (slice_at 107 1 bs),
      eo_smp_method = dec_u8 (slice_at 108 1 bs),
      eo_smp_id = string_of_bytes (slice_at 109 3 bs),
      eo_reserved = slice_at 112 2 bs\<rparr>"

definition zero_EnterOrder :: EnterOrder where
  "zero_EnterOrder =
     \<lparr>eo_message_type = CHR 0x00,
      eo_order_token = replicate 14 (CHR 0x00),
      eo_order_book_id = 0,
      eo_side = CHR 0x00,
      eo_quantity = 0,
      eo_price = 0,
      eo_time_in_force = 0,
      eo_open_close = 0,
      eo_client_account = replicate 16 (CHR 0x00),
      eo_customer_info = replicate 15 (CHR 0x00),
      eo_exchange_info = replicate 32 (CHR 0x00),
      eo_display_quantity = 0,
      eo_client_category = 0,
      eo_off_hours = 0,
      eo_smp_level = 0,
      eo_smp_method = 0,
      eo_smp_id = replicate 3 (CHR 0x00),
      eo_reserved = replicate 2 0\<rparr>"

lemma wf_zero_EnterOrder [simp]: "wf_EnterOrder zero_EnterOrder"
  by (simp add: wf_EnterOrder_def zero_EnterOrder_def)

interpretation eo: wire_msg enc_EnterOrder dec_EnterOrder wf_EnterOrder 114
proof
  fix m assume wf: "wf_EnterOrder m"
  show "length (enc_EnterOrder m) = 114"
    using wf by (simp add: enc_EnterOrder_def wf_EnterOrder_def)
  show "dec_EnterOrder (enc_EnterOrder m) = m"
    using wf by (simp add: enc_EnterOrder_def dec_EnterOrder_def wf_EnterOrder_def layout_simps)
next
  fix bs :: "byte list" assume len: "length bs = 114"
  show "enc_EnterOrder (dec_EnterOrder bs) = bs"
    using len by (simp add: enc_EnterOrder_def dec_EnterOrder_def layout_simps field_enc slice_join)
  show "wf_EnterOrder (dec_EnterOrder bs)"
    using len by (simp add: wf_EnterOrder_def dec_EnterOrder_def layout_simps)
qed

section \<open>4.1.2 Replace Order\<close>

record ReplaceOrder =
  ro_message_type :: char
  ro_existing_order_token :: string
  ro_replacement_order_token :: string
  ro_quantity :: u64
  ro_price :: i32
  ro_open_close :: u8
  ro_client_account :: string
  ro_customer_info :: string
  ro_exchange_info :: string
  ro_display_quantity :: u64
  ro_client_category :: u8
  ro_reserved :: "byte list"

definition wf_ReplaceOrder :: "ReplaceOrder \<Rightarrow> bool" where
  "wf_ReplaceOrder m \<longleftrightarrow> length (ro_existing_order_token m) = 14 \<and> length (ro_replacement_order_token m) = 14 \<and> length (ro_client_account m) = 16 \<and> length (ro_customer_info m) = 15 \<and> length (ro_exchange_info m) = 32 \<and> length (ro_reserved m) = 8"

definition enc_ReplaceOrder :: "ReplaceOrder \<Rightarrow> byte list" where
  "enc_ReplaceOrder m =
     enc_char (ro_message_type m)
     @ bytes_of_string (ro_existing_order_token m)
     @ bytes_of_string (ro_replacement_order_token m)
     @ be_bytes (ro_quantity m)
     @ be_bytes (ro_price m)
     @ enc_u8 (ro_open_close m)
     @ bytes_of_string (ro_client_account m)
     @ bytes_of_string (ro_customer_info m)
     @ bytes_of_string (ro_exchange_info m)
     @ be_bytes (ro_display_quantity m)
     @ enc_u8 (ro_client_category m)
     @ ro_reserved m"

definition dec_ReplaceOrder :: "byte list \<Rightarrow> ReplaceOrder" where
  "dec_ReplaceOrder bs =
     \<lparr>ro_message_type = dec_char (slice_at 0 1 bs),
      ro_existing_order_token = string_of_bytes (slice_at 1 14 bs),
      ro_replacement_order_token = string_of_bytes (slice_at 15 14 bs),
      ro_quantity = of_be_bytes (slice_at 29 8 bs),
      ro_price = of_be_bytes (slice_at 37 4 bs),
      ro_open_close = dec_u8 (slice_at 41 1 bs),
      ro_client_account = string_of_bytes (slice_at 42 16 bs),
      ro_customer_info = string_of_bytes (slice_at 58 15 bs),
      ro_exchange_info = string_of_bytes (slice_at 73 32 bs),
      ro_display_quantity = of_be_bytes (slice_at 105 8 bs),
      ro_client_category = dec_u8 (slice_at 113 1 bs),
      ro_reserved = slice_at 114 8 bs\<rparr>"

definition zero_ReplaceOrder :: ReplaceOrder where
  "zero_ReplaceOrder =
     \<lparr>ro_message_type = CHR 0x00,
      ro_existing_order_token = replicate 14 (CHR 0x00),
      ro_replacement_order_token = replicate 14 (CHR 0x00),
      ro_quantity = 0,
      ro_price = 0,
      ro_open_close = 0,
      ro_client_account = replicate 16 (CHR 0x00),
      ro_customer_info = replicate 15 (CHR 0x00),
      ro_exchange_info = replicate 32 (CHR 0x00),
      ro_display_quantity = 0,
      ro_client_category = 0,
      ro_reserved = replicate 8 0\<rparr>"

lemma wf_zero_ReplaceOrder [simp]: "wf_ReplaceOrder zero_ReplaceOrder"
  by (simp add: wf_ReplaceOrder_def zero_ReplaceOrder_def)

interpretation ro: wire_msg enc_ReplaceOrder dec_ReplaceOrder wf_ReplaceOrder 122
proof
  fix m assume wf: "wf_ReplaceOrder m"
  show "length (enc_ReplaceOrder m) = 122"
    using wf by (simp add: enc_ReplaceOrder_def wf_ReplaceOrder_def)
  show "dec_ReplaceOrder (enc_ReplaceOrder m) = m"
    using wf by (simp add: enc_ReplaceOrder_def dec_ReplaceOrder_def wf_ReplaceOrder_def layout_simps)
next
  fix bs :: "byte list" assume len: "length bs = 122"
  show "enc_ReplaceOrder (dec_ReplaceOrder bs) = bs"
    using len by (simp add: enc_ReplaceOrder_def dec_ReplaceOrder_def layout_simps field_enc slice_join)
  show "wf_ReplaceOrder (dec_ReplaceOrder bs)"
    using len by (simp add: wf_ReplaceOrder_def dec_ReplaceOrder_def layout_simps)
qed

section \<open>4.1.3 Cancel Order\<close>

record CancelOrder =
  co_message_type :: char
  co_order_token :: string

definition wf_CancelOrder :: "CancelOrder \<Rightarrow> bool" where
  "wf_CancelOrder m \<longleftrightarrow> length (co_order_token m) = 14"

definition enc_CancelOrder :: "CancelOrder \<Rightarrow> byte list" where
  "enc_CancelOrder m =
     enc_char (co_message_type m)
     @ bytes_of_string (co_order_token m)"

definition dec_CancelOrder :: "byte list \<Rightarrow> CancelOrder" where
  "dec_CancelOrder bs =
     \<lparr>co_message_type = dec_char (slice_at 0 1 bs),
      co_order_token = string_of_bytes (slice_at 1 14 bs)\<rparr>"

definition zero_CancelOrder :: CancelOrder where
  "zero_CancelOrder =
     \<lparr>co_message_type = CHR 0x00,
      co_order_token = replicate 14 (CHR 0x00)\<rparr>"

lemma wf_zero_CancelOrder [simp]: "wf_CancelOrder zero_CancelOrder"
  by (simp add: wf_CancelOrder_def zero_CancelOrder_def)

interpretation co: wire_msg enc_CancelOrder dec_CancelOrder wf_CancelOrder 15
proof
  fix m assume wf: "wf_CancelOrder m"
  show "length (enc_CancelOrder m) = 15"
    using wf by (simp add: enc_CancelOrder_def wf_CancelOrder_def)
  show "dec_CancelOrder (enc_CancelOrder m) = m"
    using wf by (simp add: enc_CancelOrder_def dec_CancelOrder_def wf_CancelOrder_def layout_simps)
next
  fix bs :: "byte list" assume len: "length bs = 15"
  show "enc_CancelOrder (dec_CancelOrder bs) = bs"
    using len by (simp add: enc_CancelOrder_def dec_CancelOrder_def layout_simps field_enc slice_join)
  show "wf_CancelOrder (dec_CancelOrder bs)"
    using len by (simp add: wf_CancelOrder_def dec_CancelOrder_def layout_simps)
qed

section \<open>4.1.4 Cancel By Order ID\<close>

record CancelByOrderId =
  cy_message_type :: char
  cy_order_book_id :: u32
  cy_side :: char
  cy_order_id :: u64

definition wf_CancelByOrderId :: "CancelByOrderId \<Rightarrow> bool" where
  "wf_CancelByOrderId m \<longleftrightarrow> True"

definition enc_CancelByOrderId :: "CancelByOrderId \<Rightarrow> byte list" where
  "enc_CancelByOrderId m =
     enc_char (cy_message_type m)
     @ be_bytes (cy_order_book_id m)
     @ enc_char (cy_side m)
     @ be_bytes (cy_order_id m)"

definition dec_CancelByOrderId :: "byte list \<Rightarrow> CancelByOrderId" where
  "dec_CancelByOrderId bs =
     \<lparr>cy_message_type = dec_char (slice_at 0 1 bs),
      cy_order_book_id = of_be_bytes (slice_at 1 4 bs),
      cy_side = dec_char (slice_at 5 1 bs),
      cy_order_id = of_be_bytes (slice_at 6 8 bs)\<rparr>"

definition zero_CancelByOrderId :: CancelByOrderId where
  "zero_CancelByOrderId =
     \<lparr>cy_message_type = CHR 0x00,
      cy_order_book_id = 0,
      cy_side = CHR 0x00,
      cy_order_id = 0\<rparr>"

lemma wf_zero_CancelByOrderId [simp]: "wf_CancelByOrderId zero_CancelByOrderId"
  by (simp add: wf_CancelByOrderId_def zero_CancelByOrderId_def)

interpretation cy: wire_msg enc_CancelByOrderId dec_CancelByOrderId wf_CancelByOrderId 14
proof
  fix m assume wf: "wf_CancelByOrderId m"
  show "length (enc_CancelByOrderId m) = 14"
    using wf by (simp add: enc_CancelByOrderId_def wf_CancelByOrderId_def)
  show "dec_CancelByOrderId (enc_CancelByOrderId m) = m"
    using wf by (simp add: enc_CancelByOrderId_def dec_CancelByOrderId_def wf_CancelByOrderId_def layout_simps)
next
  fix bs :: "byte list" assume len: "length bs = 14"
  show "enc_CancelByOrderId (dec_CancelByOrderId bs) = bs"
    using len by (simp add: enc_CancelByOrderId_def dec_CancelByOrderId_def layout_simps field_enc slice_join)
  show "wf_CancelByOrderId (dec_CancelByOrderId bs)"
    using len by (simp add: wf_CancelByOrderId_def dec_CancelByOrderId_def layout_simps)
qed

section \<open>4.1.5 Mass Quote, header\<close>

record MassQuoteHeader =
  mh_message_type :: char
  mh_order_token :: string
  mh_client_category :: u8
  mh_client_account :: string
  mh_exchange_info :: string
  mh_no_quote_entries :: u16

definition wf_MassQuoteHeader :: "MassQuoteHeader \<Rightarrow> bool" where
  "wf_MassQuoteHeader m \<longleftrightarrow> length (mh_order_token m) = 14 \<and> length (mh_client_account m) = 16 \<and> length (mh_exchange_info m) = 16"

definition enc_MassQuoteHeader :: "MassQuoteHeader \<Rightarrow> byte list" where
  "enc_MassQuoteHeader m =
     enc_char (mh_message_type m)
     @ bytes_of_string (mh_order_token m)
     @ enc_u8 (mh_client_category m)
     @ bytes_of_string (mh_client_account m)
     @ bytes_of_string (mh_exchange_info m)
     @ be_bytes (mh_no_quote_entries m)"

definition dec_MassQuoteHeader :: "byte list \<Rightarrow> MassQuoteHeader" where
  "dec_MassQuoteHeader bs =
     \<lparr>mh_message_type = dec_char (slice_at 0 1 bs),
      mh_order_token = string_of_bytes (slice_at 1 14 bs),
      mh_client_category = dec_u8 (slice_at 15 1 bs),
      mh_client_account = string_of_bytes (slice_at 16 16 bs),
      mh_exchange_info = string_of_bytes (slice_at 32 16 bs),
      mh_no_quote_entries = of_be_bytes (slice_at 48 2 bs)\<rparr>"

definition zero_MassQuoteHeader :: MassQuoteHeader where
  "zero_MassQuoteHeader =
     \<lparr>mh_message_type = CHR 0x00,
      mh_order_token = replicate 14 (CHR 0x00),
      mh_client_category = 0,
      mh_client_account = replicate 16 (CHR 0x00),
      mh_exchange_info = replicate 16 (CHR 0x00),
      mh_no_quote_entries = 0\<rparr>"

lemma wf_zero_MassQuoteHeader [simp]: "wf_MassQuoteHeader zero_MassQuoteHeader"
  by (simp add: wf_MassQuoteHeader_def zero_MassQuoteHeader_def)

interpretation mh: wire_msg enc_MassQuoteHeader dec_MassQuoteHeader wf_MassQuoteHeader 50
proof
  fix m assume wf: "wf_MassQuoteHeader m"
  show "length (enc_MassQuoteHeader m) = 50"
    using wf by (simp add: enc_MassQuoteHeader_def wf_MassQuoteHeader_def)
  show "dec_MassQuoteHeader (enc_MassQuoteHeader m) = m"
    using wf by (simp add: enc_MassQuoteHeader_def dec_MassQuoteHeader_def wf_MassQuoteHeader_def layout_simps)
next
  fix bs :: "byte list" assume len: "length bs = 50"
  show "enc_MassQuoteHeader (dec_MassQuoteHeader bs) = bs"
    using len by (simp add: enc_MassQuoteHeader_def dec_MassQuoteHeader_def layout_simps field_enc slice_join)
  show "wf_MassQuoteHeader (dec_MassQuoteHeader bs)"
    using len by (simp add: wf_MassQuoteHeader_def dec_MassQuoteHeader_def layout_simps)
qed

section \<open>4.1.5 Mass Quote, one quote entry\<close>

record QuoteEntry =
  qe_order_book_id :: u32
  qe_bid_price :: i32
  qe_offer_price :: i32
  qe_bid_size :: u64
  qe_offer_size :: u64

definition wf_QuoteEntry :: "QuoteEntry \<Rightarrow> bool" where
  "wf_QuoteEntry m \<longleftrightarrow> True"

definition enc_QuoteEntry :: "QuoteEntry \<Rightarrow> byte list" where
  "enc_QuoteEntry m =
     be_bytes (qe_order_book_id m)
     @ be_bytes (qe_bid_price m)
     @ be_bytes (qe_offer_price m)
     @ be_bytes (qe_bid_size m)
     @ be_bytes (qe_offer_size m)"

definition dec_QuoteEntry :: "byte list \<Rightarrow> QuoteEntry" where
  "dec_QuoteEntry bs =
     \<lparr>qe_order_book_id = of_be_bytes (slice_at 0 4 bs),
      qe_bid_price = of_be_bytes (slice_at 4 4 bs),
      qe_offer_price = of_be_bytes (slice_at 8 4 bs),
      qe_bid_size = of_be_bytes (slice_at 12 8 bs),
      qe_offer_size = of_be_bytes (slice_at 20 8 bs)\<rparr>"

definition zero_QuoteEntry :: QuoteEntry where
  "zero_QuoteEntry =
     \<lparr>qe_order_book_id = 0,
      qe_bid_price = 0,
      qe_offer_price = 0,
      qe_bid_size = 0,
      qe_offer_size = 0\<rparr>"

lemma wf_zero_QuoteEntry [simp]: "wf_QuoteEntry zero_QuoteEntry"
  by (simp add: wf_QuoteEntry_def zero_QuoteEntry_def)

interpretation qe: wire_msg enc_QuoteEntry dec_QuoteEntry wf_QuoteEntry 28
proof
  fix m assume wf: "wf_QuoteEntry m"
  show "length (enc_QuoteEntry m) = 28"
    using wf by (simp add: enc_QuoteEntry_def wf_QuoteEntry_def)
  show "dec_QuoteEntry (enc_QuoteEntry m) = m"
    using wf by (simp add: enc_QuoteEntry_def dec_QuoteEntry_def wf_QuoteEntry_def layout_simps)
next
  fix bs :: "byte list" assume len: "length bs = 28"
  show "enc_QuoteEntry (dec_QuoteEntry bs) = bs"
    using len by (simp add: enc_QuoteEntry_def dec_QuoteEntry_def layout_simps field_enc slice_join)
  show "wf_QuoteEntry (dec_QuoteEntry bs)"
    using len by (simp add: wf_QuoteEntry_def dec_QuoteEntry_def layout_simps)
qed

section \<open>4.2.1 Order Accepted\<close>

record OrderAccepted =
  oa_message_type :: char
  oa_timestamp_ns :: u64
  oa_order_token :: string
  oa_order_book_id :: u32
  oa_side :: char
  oa_order_id :: u64
  oa_quantity :: u64
  oa_price :: i32
  oa_time_in_force :: u8
  oa_open_close :: u8
  oa_client_account :: string
  oa_order_state :: u8
  oa_customer_info :: string
  oa_exchange_info :: string
  oa_pre_trade_quantity :: u64
  oa_display_quantity :: u64
  oa_client_category :: u8
  oa_off_hours :: u8
  oa_smp_level :: u8
  oa_smp_method :: u8
  oa_smp_id :: string

definition wf_OrderAccepted :: "OrderAccepted \<Rightarrow> bool" where
  "wf_OrderAccepted m \<longleftrightarrow> length (oa_order_token m) = 14 \<and> length (oa_client_account m) = 16 \<and> length (oa_customer_info m) = 15 \<and> length (oa_exchange_info m) = 32 \<and> length (oa_smp_id m) = 3"

definition enc_OrderAccepted :: "OrderAccepted \<Rightarrow> byte list" where
  "enc_OrderAccepted m =
     enc_char (oa_message_type m)
     @ be_bytes (oa_timestamp_ns m)
     @ bytes_of_string (oa_order_token m)
     @ be_bytes (oa_order_book_id m)
     @ enc_char (oa_side m)
     @ be_bytes (oa_order_id m)
     @ be_bytes (oa_quantity m)
     @ be_bytes (oa_price m)
     @ enc_u8 (oa_time_in_force m)
     @ enc_u8 (oa_open_close m)
     @ bytes_of_string (oa_client_account m)
     @ enc_u8 (oa_order_state m)
     @ bytes_of_string (oa_customer_info m)
     @ bytes_of_string (oa_exchange_info m)
     @ be_bytes (oa_pre_trade_quantity m)
     @ be_bytes (oa_display_quantity m)
     @ enc_u8 (oa_client_category m)
     @ enc_u8 (oa_off_hours m)
     @ enc_u8 (oa_smp_level m)
     @ enc_u8 (oa_smp_method m)
     @ bytes_of_string (oa_smp_id m)"

definition dec_OrderAccepted :: "byte list \<Rightarrow> OrderAccepted" where
  "dec_OrderAccepted bs =
     \<lparr>oa_message_type = dec_char (slice_at 0 1 bs),
      oa_timestamp_ns = of_be_bytes (slice_at 1 8 bs),
      oa_order_token = string_of_bytes (slice_at 9 14 bs),
      oa_order_book_id = of_be_bytes (slice_at 23 4 bs),
      oa_side = dec_char (slice_at 27 1 bs),
      oa_order_id = of_be_bytes (slice_at 28 8 bs),
      oa_quantity = of_be_bytes (slice_at 36 8 bs),
      oa_price = of_be_bytes (slice_at 44 4 bs),
      oa_time_in_force = dec_u8 (slice_at 48 1 bs),
      oa_open_close = dec_u8 (slice_at 49 1 bs),
      oa_client_account = string_of_bytes (slice_at 50 16 bs),
      oa_order_state = dec_u8 (slice_at 66 1 bs),
      oa_customer_info = string_of_bytes (slice_at 67 15 bs),
      oa_exchange_info = string_of_bytes (slice_at 82 32 bs),
      oa_pre_trade_quantity = of_be_bytes (slice_at 114 8 bs),
      oa_display_quantity = of_be_bytes (slice_at 122 8 bs),
      oa_client_category = dec_u8 (slice_at 130 1 bs),
      oa_off_hours = dec_u8 (slice_at 131 1 bs),
      oa_smp_level = dec_u8 (slice_at 132 1 bs),
      oa_smp_method = dec_u8 (slice_at 133 1 bs),
      oa_smp_id = string_of_bytes (slice_at 134 3 bs)\<rparr>"

definition zero_OrderAccepted :: OrderAccepted where
  "zero_OrderAccepted =
     \<lparr>oa_message_type = CHR 0x00,
      oa_timestamp_ns = 0,
      oa_order_token = replicate 14 (CHR 0x00),
      oa_order_book_id = 0,
      oa_side = CHR 0x00,
      oa_order_id = 0,
      oa_quantity = 0,
      oa_price = 0,
      oa_time_in_force = 0,
      oa_open_close = 0,
      oa_client_account = replicate 16 (CHR 0x00),
      oa_order_state = 0,
      oa_customer_info = replicate 15 (CHR 0x00),
      oa_exchange_info = replicate 32 (CHR 0x00),
      oa_pre_trade_quantity = 0,
      oa_display_quantity = 0,
      oa_client_category = 0,
      oa_off_hours = 0,
      oa_smp_level = 0,
      oa_smp_method = 0,
      oa_smp_id = replicate 3 (CHR 0x00)\<rparr>"

lemma wf_zero_OrderAccepted [simp]: "wf_OrderAccepted zero_OrderAccepted"
  by (simp add: wf_OrderAccepted_def zero_OrderAccepted_def)

interpretation oa: wire_msg enc_OrderAccepted dec_OrderAccepted wf_OrderAccepted 137
proof
  fix m assume wf: "wf_OrderAccepted m"
  show "length (enc_OrderAccepted m) = 137"
    using wf by (simp add: enc_OrderAccepted_def wf_OrderAccepted_def)
  show "dec_OrderAccepted (enc_OrderAccepted m) = m"
    using wf by (simp add: enc_OrderAccepted_def dec_OrderAccepted_def wf_OrderAccepted_def layout_simps)
next
  fix bs :: "byte list" assume len: "length bs = 137"
  show "enc_OrderAccepted (dec_OrderAccepted bs) = bs"
    using len by (simp add: enc_OrderAccepted_def dec_OrderAccepted_def layout_simps field_enc slice_join)
  show "wf_OrderAccepted (dec_OrderAccepted bs)"
    using len by (simp add: wf_OrderAccepted_def dec_OrderAccepted_def layout_simps)
qed

section \<open>4.2.2 Order Rejected\<close>

record OrderRejected =
  oj_message_type :: char
  oj_timestamp_ns :: u64
  oj_order_token :: string
  oj_reject_code :: i32

definition wf_OrderRejected :: "OrderRejected \<Rightarrow> bool" where
  "wf_OrderRejected m \<longleftrightarrow> length (oj_order_token m) = 14"

definition enc_OrderRejected :: "OrderRejected \<Rightarrow> byte list" where
  "enc_OrderRejected m =
     enc_char (oj_message_type m)
     @ be_bytes (oj_timestamp_ns m)
     @ bytes_of_string (oj_order_token m)
     @ be_bytes (oj_reject_code m)"

definition dec_OrderRejected :: "byte list \<Rightarrow> OrderRejected" where
  "dec_OrderRejected bs =
     \<lparr>oj_message_type = dec_char (slice_at 0 1 bs),
      oj_timestamp_ns = of_be_bytes (slice_at 1 8 bs),
      oj_order_token = string_of_bytes (slice_at 9 14 bs),
      oj_reject_code = of_be_bytes (slice_at 23 4 bs)\<rparr>"

definition zero_OrderRejected :: OrderRejected where
  "zero_OrderRejected =
     \<lparr>oj_message_type = CHR 0x00,
      oj_timestamp_ns = 0,
      oj_order_token = replicate 14 (CHR 0x00),
      oj_reject_code = 0\<rparr>"

lemma wf_zero_OrderRejected [simp]: "wf_OrderRejected zero_OrderRejected"
  by (simp add: wf_OrderRejected_def zero_OrderRejected_def)

interpretation oj: wire_msg enc_OrderRejected dec_OrderRejected wf_OrderRejected 27
proof
  fix m assume wf: "wf_OrderRejected m"
  show "length (enc_OrderRejected m) = 27"
    using wf by (simp add: enc_OrderRejected_def wf_OrderRejected_def)
  show "dec_OrderRejected (enc_OrderRejected m) = m"
    using wf by (simp add: enc_OrderRejected_def dec_OrderRejected_def wf_OrderRejected_def layout_simps)
next
  fix bs :: "byte list" assume len: "length bs = 27"
  show "enc_OrderRejected (dec_OrderRejected bs) = bs"
    using len by (simp add: enc_OrderRejected_def dec_OrderRejected_def layout_simps field_enc slice_join)
  show "wf_OrderRejected (dec_OrderRejected bs)"
    using len by (simp add: wf_OrderRejected_def dec_OrderRejected_def layout_simps)
qed

section \<open>4.2.3 Order Replaced\<close>

record OrderReplaced =
  rep_message_type :: char
  rep_timestamp_ns :: u64
  rep_replacement_order_token :: string
  rep_previous_order_token :: string
  rep_order_book_id :: u32
  rep_side :: char
  rep_order_id :: u64
  rep_quantity :: u64
  rep_price :: i32
  rep_time_in_force :: u8
  rep_open_close :: u8
  rep_client_account :: string
  rep_order_state :: u8
  rep_customer_info :: string
  rep_exchange_info :: string
  rep_pre_trade_quantity :: u64
  rep_display_quantity :: u64
  rep_client_category :: u8

definition wf_OrderReplaced :: "OrderReplaced \<Rightarrow> bool" where
  "wf_OrderReplaced m \<longleftrightarrow> length (rep_replacement_order_token m) = 14 \<and> length (rep_previous_order_token m) = 14 \<and> length (rep_client_account m) = 16 \<and> length (rep_customer_info m) = 15 \<and> length (rep_exchange_info m) = 32"

definition enc_OrderReplaced :: "OrderReplaced \<Rightarrow> byte list" where
  "enc_OrderReplaced m =
     enc_char (rep_message_type m)
     @ be_bytes (rep_timestamp_ns m)
     @ bytes_of_string (rep_replacement_order_token m)
     @ bytes_of_string (rep_previous_order_token m)
     @ be_bytes (rep_order_book_id m)
     @ enc_char (rep_side m)
     @ be_bytes (rep_order_id m)
     @ be_bytes (rep_quantity m)
     @ be_bytes (rep_price m)
     @ enc_u8 (rep_time_in_force m)
     @ enc_u8 (rep_open_close m)
     @ bytes_of_string (rep_client_account m)
     @ enc_u8 (rep_order_state m)
     @ bytes_of_string (rep_customer_info m)
     @ bytes_of_string (rep_exchange_info m)
     @ be_bytes (rep_pre_trade_quantity m)
     @ be_bytes (rep_display_quantity m)
     @ enc_u8 (rep_client_category m)"

definition dec_OrderReplaced :: "byte list \<Rightarrow> OrderReplaced" where
  "dec_OrderReplaced bs =
     \<lparr>rep_message_type = dec_char (slice_at 0 1 bs),
      rep_timestamp_ns = of_be_bytes (slice_at 1 8 bs),
      rep_replacement_order_token = string_of_bytes (slice_at 9 14 bs),
      rep_previous_order_token = string_of_bytes (slice_at 23 14 bs),
      rep_order_book_id = of_be_bytes (slice_at 37 4 bs),
      rep_side = dec_char (slice_at 41 1 bs),
      rep_order_id = of_be_bytes (slice_at 42 8 bs),
      rep_quantity = of_be_bytes (slice_at 50 8 bs),
      rep_price = of_be_bytes (slice_at 58 4 bs),
      rep_time_in_force = dec_u8 (slice_at 62 1 bs),
      rep_open_close = dec_u8 (slice_at 63 1 bs),
      rep_client_account = string_of_bytes (slice_at 64 16 bs),
      rep_order_state = dec_u8 (slice_at 80 1 bs),
      rep_customer_info = string_of_bytes (slice_at 81 15 bs),
      rep_exchange_info = string_of_bytes (slice_at 96 32 bs),
      rep_pre_trade_quantity = of_be_bytes (slice_at 128 8 bs),
      rep_display_quantity = of_be_bytes (slice_at 136 8 bs),
      rep_client_category = dec_u8 (slice_at 144 1 bs)\<rparr>"

definition zero_OrderReplaced :: OrderReplaced where
  "zero_OrderReplaced =
     \<lparr>rep_message_type = CHR 0x00,
      rep_timestamp_ns = 0,
      rep_replacement_order_token = replicate 14 (CHR 0x00),
      rep_previous_order_token = replicate 14 (CHR 0x00),
      rep_order_book_id = 0,
      rep_side = CHR 0x00,
      rep_order_id = 0,
      rep_quantity = 0,
      rep_price = 0,
      rep_time_in_force = 0,
      rep_open_close = 0,
      rep_client_account = replicate 16 (CHR 0x00),
      rep_order_state = 0,
      rep_customer_info = replicate 15 (CHR 0x00),
      rep_exchange_info = replicate 32 (CHR 0x00),
      rep_pre_trade_quantity = 0,
      rep_display_quantity = 0,
      rep_client_category = 0\<rparr>"

lemma wf_zero_OrderReplaced [simp]: "wf_OrderReplaced zero_OrderReplaced"
  by (simp add: wf_OrderReplaced_def zero_OrderReplaced_def)

interpretation rep: wire_msg enc_OrderReplaced dec_OrderReplaced wf_OrderReplaced 145
proof
  fix m assume wf: "wf_OrderReplaced m"
  show "length (enc_OrderReplaced m) = 145"
    using wf by (simp add: enc_OrderReplaced_def wf_OrderReplaced_def)
  show "dec_OrderReplaced (enc_OrderReplaced m) = m"
    using wf by (simp add: enc_OrderReplaced_def dec_OrderReplaced_def wf_OrderReplaced_def layout_simps)
next
  fix bs :: "byte list" assume len: "length bs = 145"
  show "enc_OrderReplaced (dec_OrderReplaced bs) = bs"
    using len by (simp add: enc_OrderReplaced_def dec_OrderReplaced_def layout_simps field_enc slice_join)
  show "wf_OrderReplaced (dec_OrderReplaced bs)"
    using len by (simp add: wf_OrderReplaced_def dec_OrderReplaced_def layout_simps)
qed

section \<open>4.2.4 Order Canceled\<close>

record OrderCanceled =
  oc_message_type :: char
  oc_timestamp_ns :: u64
  oc_order_token :: string
  oc_order_book_id :: u32
  oc_side :: char
  oc_order_id :: u64
  oc_reason :: u8

definition wf_OrderCanceled :: "OrderCanceled \<Rightarrow> bool" where
  "wf_OrderCanceled m \<longleftrightarrow> length (oc_order_token m) = 14"

definition enc_OrderCanceled :: "OrderCanceled \<Rightarrow> byte list" where
  "enc_OrderCanceled m =
     enc_char (oc_message_type m)
     @ be_bytes (oc_timestamp_ns m)
     @ bytes_of_string (oc_order_token m)
     @ be_bytes (oc_order_book_id m)
     @ enc_char (oc_side m)
     @ be_bytes (oc_order_id m)
     @ enc_u8 (oc_reason m)"

definition dec_OrderCanceled :: "byte list \<Rightarrow> OrderCanceled" where
  "dec_OrderCanceled bs =
     \<lparr>oc_message_type = dec_char (slice_at 0 1 bs),
      oc_timestamp_ns = of_be_bytes (slice_at 1 8 bs),
      oc_order_token = string_of_bytes (slice_at 9 14 bs),
      oc_order_book_id = of_be_bytes (slice_at 23 4 bs),
      oc_side = dec_char (slice_at 27 1 bs),
      oc_order_id = of_be_bytes (slice_at 28 8 bs),
      oc_reason = dec_u8 (slice_at 36 1 bs)\<rparr>"

definition zero_OrderCanceled :: OrderCanceled where
  "zero_OrderCanceled =
     \<lparr>oc_message_type = CHR 0x00,
      oc_timestamp_ns = 0,
      oc_order_token = replicate 14 (CHR 0x00),
      oc_order_book_id = 0,
      oc_side = CHR 0x00,
      oc_order_id = 0,
      oc_reason = 0\<rparr>"

lemma wf_zero_OrderCanceled [simp]: "wf_OrderCanceled zero_OrderCanceled"
  by (simp add: wf_OrderCanceled_def zero_OrderCanceled_def)

interpretation oc: wire_msg enc_OrderCanceled dec_OrderCanceled wf_OrderCanceled 37
proof
  fix m assume wf: "wf_OrderCanceled m"
  show "length (enc_OrderCanceled m) = 37"
    using wf by (simp add: enc_OrderCanceled_def wf_OrderCanceled_def)
  show "dec_OrderCanceled (enc_OrderCanceled m) = m"
    using wf by (simp add: enc_OrderCanceled_def dec_OrderCanceled_def wf_OrderCanceled_def layout_simps)
next
  fix bs :: "byte list" assume len: "length bs = 37"
  show "enc_OrderCanceled (dec_OrderCanceled bs) = bs"
    using len by (simp add: enc_OrderCanceled_def dec_OrderCanceled_def layout_simps field_enc slice_join)
  show "wf_OrderCanceled (dec_OrderCanceled bs)"
    using len by (simp add: wf_OrderCanceled_def dec_OrderCanceled_def layout_simps)
qed

section \<open>4.2.5 Order Executed\<close>

record OrderExecuted =
  oe_message_type :: char
  oe_timestamp_ns :: u64
  oe_order_token :: string
  oe_order_book_id :: u32
  oe_traded_quantity :: u64
  oe_trade_price :: i32
  oe_match_id :: "byte list"
  oe_client_category :: u8
  oe_reserved :: "byte list"

definition wf_OrderExecuted :: "OrderExecuted \<Rightarrow> bool" where
  "wf_OrderExecuted m \<longleftrightarrow> length (oe_order_token m) = 14 \<and> length (oe_match_id m) = 12 \<and> length (oe_reserved m) = 16"

definition enc_OrderExecuted :: "OrderExecuted \<Rightarrow> byte list" where
  "enc_OrderExecuted m =
     enc_char (oe_message_type m)
     @ be_bytes (oe_timestamp_ns m)
     @ bytes_of_string (oe_order_token m)
     @ be_bytes (oe_order_book_id m)
     @ be_bytes (oe_traded_quantity m)
     @ be_bytes (oe_trade_price m)
     @ oe_match_id m
     @ enc_u8 (oe_client_category m)
     @ oe_reserved m"

definition dec_OrderExecuted :: "byte list \<Rightarrow> OrderExecuted" where
  "dec_OrderExecuted bs =
     \<lparr>oe_message_type = dec_char (slice_at 0 1 bs),
      oe_timestamp_ns = of_be_bytes (slice_at 1 8 bs),
      oe_order_token = string_of_bytes (slice_at 9 14 bs),
      oe_order_book_id = of_be_bytes (slice_at 23 4 bs),
      oe_traded_quantity = of_be_bytes (slice_at 27 8 bs),
      oe_trade_price = of_be_bytes (slice_at 35 4 bs),
      oe_match_id = slice_at 39 12 bs,
      oe_client_category = dec_u8 (slice_at 51 1 bs),
      oe_reserved = slice_at 52 16 bs\<rparr>"

definition zero_OrderExecuted :: OrderExecuted where
  "zero_OrderExecuted =
     \<lparr>oe_message_type = CHR 0x00,
      oe_timestamp_ns = 0,
      oe_order_token = replicate 14 (CHR 0x00),
      oe_order_book_id = 0,
      oe_traded_quantity = 0,
      oe_trade_price = 0,
      oe_match_id = replicate 12 0,
      oe_client_category = 0,
      oe_reserved = replicate 16 0\<rparr>"

lemma wf_zero_OrderExecuted [simp]: "wf_OrderExecuted zero_OrderExecuted"
  by (simp add: wf_OrderExecuted_def zero_OrderExecuted_def)

interpretation oe: wire_msg enc_OrderExecuted dec_OrderExecuted wf_OrderExecuted 68
proof
  fix m assume wf: "wf_OrderExecuted m"
  show "length (enc_OrderExecuted m) = 68"
    using wf by (simp add: enc_OrderExecuted_def wf_OrderExecuted_def)
  show "dec_OrderExecuted (enc_OrderExecuted m) = m"
    using wf by (simp add: enc_OrderExecuted_def dec_OrderExecuted_def wf_OrderExecuted_def layout_simps)
next
  fix bs :: "byte list" assume len: "length bs = 68"
  show "enc_OrderExecuted (dec_OrderExecuted bs) = bs"
    using len by (simp add: enc_OrderExecuted_def dec_OrderExecuted_def layout_simps field_enc slice_join)
  show "wf_OrderExecuted (dec_OrderExecuted bs)"
    using len by (simp add: wf_OrderExecuted_def dec_OrderExecuted_def layout_simps)
qed

section \<open>4.2.6 Mass Quote Acknowledgement\<close>

record MassQuoteAck =
  mk_message_type :: char
  mk_timestamp_ns :: u64
  mk_order_token :: string
  mk_order_book_id :: u32
  mk_quantity :: u64
  mk_traded_quantity :: u64
  mk_price :: i32
  mk_side :: char
  mk_quote_status :: u32

definition wf_MassQuoteAck :: "MassQuoteAck \<Rightarrow> bool" where
  "wf_MassQuoteAck m \<longleftrightarrow> length (mk_order_token m) = 14"

definition enc_MassQuoteAck :: "MassQuoteAck \<Rightarrow> byte list" where
  "enc_MassQuoteAck m =
     enc_char (mk_message_type m)
     @ be_bytes (mk_timestamp_ns m)
     @ bytes_of_string (mk_order_token m)
     @ be_bytes (mk_order_book_id m)
     @ be_bytes (mk_quantity m)
     @ be_bytes (mk_traded_quantity m)
     @ be_bytes (mk_price m)
     @ enc_char (mk_side m)
     @ be_bytes (mk_quote_status m)"

definition dec_MassQuoteAck :: "byte list \<Rightarrow> MassQuoteAck" where
  "dec_MassQuoteAck bs =
     \<lparr>mk_message_type = dec_char (slice_at 0 1 bs),
      mk_timestamp_ns = of_be_bytes (slice_at 1 8 bs),
      mk_order_token = string_of_bytes (slice_at 9 14 bs),
      mk_order_book_id = of_be_bytes (slice_at 23 4 bs),
      mk_quantity = of_be_bytes (slice_at 27 8 bs),
      mk_traded_quantity = of_be_bytes (slice_at 35 8 bs),
      mk_price = of_be_bytes (slice_at 43 4 bs),
      mk_side = dec_char (slice_at 47 1 bs),
      mk_quote_status = of_be_bytes (slice_at 48 4 bs)\<rparr>"

definition zero_MassQuoteAck :: MassQuoteAck where
  "zero_MassQuoteAck =
     \<lparr>mk_message_type = CHR 0x00,
      mk_timestamp_ns = 0,
      mk_order_token = replicate 14 (CHR 0x00),
      mk_order_book_id = 0,
      mk_quantity = 0,
      mk_traded_quantity = 0,
      mk_price = 0,
      mk_side = CHR 0x00,
      mk_quote_status = 0\<rparr>"

lemma wf_zero_MassQuoteAck [simp]: "wf_MassQuoteAck zero_MassQuoteAck"
  by (simp add: wf_MassQuoteAck_def zero_MassQuoteAck_def)

interpretation mk: wire_msg enc_MassQuoteAck dec_MassQuoteAck wf_MassQuoteAck 52
proof
  fix m assume wf: "wf_MassQuoteAck m"
  show "length (enc_MassQuoteAck m) = 52"
    using wf by (simp add: enc_MassQuoteAck_def wf_MassQuoteAck_def)
  show "dec_MassQuoteAck (enc_MassQuoteAck m) = m"
    using wf by (simp add: enc_MassQuoteAck_def dec_MassQuoteAck_def wf_MassQuoteAck_def layout_simps)
next
  fix bs :: "byte list" assume len: "length bs = 52"
  show "enc_MassQuoteAck (dec_MassQuoteAck bs) = bs"
    using len by (simp add: enc_MassQuoteAck_def dec_MassQuoteAck_def layout_simps field_enc slice_join)
  show "wf_MassQuoteAck (dec_MassQuoteAck bs)"
    using len by (simp add: wf_MassQuoteAck_def dec_MassQuoteAck_def layout_simps)
qed

section \<open>4.2.7 Mass Quote Rejection\<close>

record MassQuoteRejection =
  mr_message_type :: char
  mr_timestamp_ns :: u64
  mr_order_token :: string
  mr_order_book_id :: u32
  mr_reject_code :: i32

definition wf_MassQuoteRejection :: "MassQuoteRejection \<Rightarrow> bool" where
  "wf_MassQuoteRejection m \<longleftrightarrow> length (mr_order_token m) = 14"

definition enc_MassQuoteRejection :: "MassQuoteRejection \<Rightarrow> byte list" where
  "enc_MassQuoteRejection m =
     enc_char (mr_message_type m)
     @ be_bytes (mr_timestamp_ns m)
     @ bytes_of_string (mr_order_token m)
     @ be_bytes (mr_order_book_id m)
     @ be_bytes (mr_reject_code m)"

definition dec_MassQuoteRejection :: "byte list \<Rightarrow> MassQuoteRejection" where
  "dec_MassQuoteRejection bs =
     \<lparr>mr_message_type = dec_char (slice_at 0 1 bs),
      mr_timestamp_ns = of_be_bytes (slice_at 1 8 bs),
      mr_order_token = string_of_bytes (slice_at 9 14 bs),
      mr_order_book_id = of_be_bytes (slice_at 23 4 bs),
      mr_reject_code = of_be_bytes (slice_at 27 4 bs)\<rparr>"

definition zero_MassQuoteRejection :: MassQuoteRejection where
  "zero_MassQuoteRejection =
     \<lparr>mr_message_type = CHR 0x00,
      mr_timestamp_ns = 0,
      mr_order_token = replicate 14 (CHR 0x00),
      mr_order_book_id = 0,
      mr_reject_code = 0\<rparr>"

lemma wf_zero_MassQuoteRejection [simp]: "wf_MassQuoteRejection zero_MassQuoteRejection"
  by (simp add: wf_MassQuoteRejection_def zero_MassQuoteRejection_def)

interpretation mr: wire_msg enc_MassQuoteRejection dec_MassQuoteRejection wf_MassQuoteRejection 31
proof
  fix m assume wf: "wf_MassQuoteRejection m"
  show "length (enc_MassQuoteRejection m) = 31"
    using wf by (simp add: enc_MassQuoteRejection_def wf_MassQuoteRejection_def)
  show "dec_MassQuoteRejection (enc_MassQuoteRejection m) = m"
    using wf by (simp add: enc_MassQuoteRejection_def dec_MassQuoteRejection_def wf_MassQuoteRejection_def layout_simps)
next
  fix bs :: "byte list" assume len: "length bs = 31"
  show "enc_MassQuoteRejection (dec_MassQuoteRejection bs) = bs"
    using len by (simp add: enc_MassQuoteRejection_def dec_MassQuoteRejection_def layout_simps field_enc slice_join)
  show "wf_MassQuoteRejection (dec_MassQuoteRejection bs)"
    using len by (simp add: wf_MassQuoteRejection_def dec_MassQuoteRejection_def layout_simps)
qed

section \<open>Layout\<close>

text \<open>Every OUCH struct has the wire size its static assertion states, decoding the bytes
  of a message gives the message back, and any buffer of that size is the encoding of the
  message decoded from it; for the five request and seven reply messages and the quote
  entry.\<close>

lemma wire_roundtrip:
  "(wf_EnterOrder eo \<longrightarrow> length (enc_EnterOrder eo) = 114 \<and> dec_EnterOrder (enc_EnterOrder eo) = eo)
   \<and> (length bs = 114 \<longrightarrow> enc_EnterOrder (dec_EnterOrder bs) = bs)
   \<and> (wf_ReplaceOrder ro \<longrightarrow> length (enc_ReplaceOrder ro) = 122 \<and> dec_ReplaceOrder (enc_ReplaceOrder ro) = ro)
   \<and> (length bs = 122 \<longrightarrow> enc_ReplaceOrder (dec_ReplaceOrder bs) = bs)
   \<and> (wf_CancelOrder co \<longrightarrow> length (enc_CancelOrder co) = 15 \<and> dec_CancelOrder (enc_CancelOrder co) = co)
   \<and> (length bs = 15 \<longrightarrow> enc_CancelOrder (dec_CancelOrder bs) = bs)
   \<and> (wf_CancelByOrderId cy \<longrightarrow> length (enc_CancelByOrderId cy) = 14 \<and> dec_CancelByOrderId (enc_CancelByOrderId cy) = cy)
   \<and> (length bs = 14 \<longrightarrow> enc_CancelByOrderId (dec_CancelByOrderId bs) = bs)
   \<and> (wf_MassQuoteHeader mh \<longrightarrow> length (enc_MassQuoteHeader mh) = 50 \<and> dec_MassQuoteHeader (enc_MassQuoteHeader mh) = mh)
   \<and> (length bs = 50 \<longrightarrow> enc_MassQuoteHeader (dec_MassQuoteHeader bs) = bs)
   \<and> (wf_QuoteEntry qe \<longrightarrow> length (enc_QuoteEntry qe) = 28 \<and> dec_QuoteEntry (enc_QuoteEntry qe) = qe)
   \<and> (length bs = 28 \<longrightarrow> enc_QuoteEntry (dec_QuoteEntry bs) = bs)
   \<and> (wf_OrderAccepted oa \<longrightarrow> length (enc_OrderAccepted oa) = 137 \<and> dec_OrderAccepted (enc_OrderAccepted oa) = oa)
   \<and> (length bs = 137 \<longrightarrow> enc_OrderAccepted (dec_OrderAccepted bs) = bs)
   \<and> (wf_OrderRejected oj \<longrightarrow> length (enc_OrderRejected oj) = 27 \<and> dec_OrderRejected (enc_OrderRejected oj) = oj)
   \<and> (length bs = 27 \<longrightarrow> enc_OrderRejected (dec_OrderRejected bs) = bs)
   \<and> (wf_OrderReplaced rep \<longrightarrow> length (enc_OrderReplaced rep) = 145 \<and> dec_OrderReplaced (enc_OrderReplaced rep) = rep)
   \<and> (length bs = 145 \<longrightarrow> enc_OrderReplaced (dec_OrderReplaced bs) = bs)
   \<and> (wf_OrderCanceled oc \<longrightarrow> length (enc_OrderCanceled oc) = 37 \<and> dec_OrderCanceled (enc_OrderCanceled oc) = oc)
   \<and> (length bs = 37 \<longrightarrow> enc_OrderCanceled (dec_OrderCanceled bs) = bs)
   \<and> (wf_OrderExecuted oe \<longrightarrow> length (enc_OrderExecuted oe) = 68 \<and> dec_OrderExecuted (enc_OrderExecuted oe) = oe)
   \<and> (length bs = 68 \<longrightarrow> enc_OrderExecuted (dec_OrderExecuted bs) = bs)
   \<and> (wf_MassQuoteAck mk \<longrightarrow> length (enc_MassQuoteAck mk) = 52 \<and> dec_MassQuoteAck (enc_MassQuoteAck mk) = mk)
   \<and> (length bs = 52 \<longrightarrow> enc_MassQuoteAck (dec_MassQuoteAck bs) = bs)
   \<and> (wf_MassQuoteRejection mr \<longrightarrow> length (enc_MassQuoteRejection mr) = 31 \<and> dec_MassQuoteRejection (enc_MassQuoteRejection mr) = mr)
   \<and> (length bs = 31 \<longrightarrow> enc_MassQuoteRejection (dec_MassQuoteRejection bs) = bs)"
  by (simp add: eo.length_enc eo.dec_enc eo.enc_dec ro.length_enc ro.dec_enc ro.enc_dec co.length_enc co.dec_enc co.enc_dec cy.length_enc cy.dec_enc cy.enc_dec mh.length_enc mh.dec_enc mh.enc_dec qe.length_enc qe.dec_enc qe.enc_dec oa.length_enc oa.dec_enc oa.enc_dec oj.length_enc oj.dec_enc oj.enc_dec rep.length_enc rep.dec_enc rep.enc_dec oc.length_enc oc.dec_enc oc.enc_dec oe.length_enc oe.dec_enc oe.enc_dec mk.length_enc mk.dec_enc mk.enc_dec mr.length_enc mr.dec_enc mr.enc_dec)

text \<open>The offsets the static assertions of the structs fix, as reads of the encoding.\<close>

lemma EnterOrder_offsets:
  assumes "wf_EnterOrder m"
  shows "slice_at 15 4 (enc_EnterOrder m) = be_bytes (eo_order_book_id m)"
    and "slice_at 20 8 (enc_EnterOrder m) = be_bytes (eo_quantity m)"
    and "slice_at 28 4 (enc_EnterOrder m) = be_bytes (eo_price m)"
    and "slice_at 97 8 (enc_EnterOrder m) = be_bytes (eo_display_quantity m)"
    and "slice_at 105 1 (enc_EnterOrder m) = enc_u8 (eo_client_category m)"
  using assms by (simp_all add: enc_EnterOrder_def wf_EnterOrder_def layout_simps)

lemma hd_enc_char: "hd (enc_char c @ bs) = byte_of_char c"
  by (simp add: enc_char_def)

lemma enc_nonempty [simp]: "enc_char c @ bs \<noteq> []"
  by (simp add: enc_char_def)

text \<open>The first byte of an encoding is the message type.\<close>

lemma hd_enc_EnterOrder [simp]: "hd (enc_EnterOrder m) = byte_of_char (eo_message_type m)"
  by (simp add: enc_EnterOrder_def hd_enc_char)

lemma hd_enc_ReplaceOrder [simp]: "hd (enc_ReplaceOrder m) = byte_of_char (ro_message_type m)"
  by (simp add: enc_ReplaceOrder_def hd_enc_char)

lemma hd_enc_CancelOrder [simp]: "hd (enc_CancelOrder m) = byte_of_char (co_message_type m)"
  by (simp add: enc_CancelOrder_def hd_enc_char)

lemma hd_enc_CancelByOrderId [simp]: "hd (enc_CancelByOrderId m) = byte_of_char (cy_message_type m)"
  by (simp add: enc_CancelByOrderId_def hd_enc_char)

lemma hd_enc_MassQuoteHeader [simp]: "hd (enc_MassQuoteHeader m) = byte_of_char (mh_message_type m)"
  by (simp add: enc_MassQuoteHeader_def hd_enc_char)

lemma hd_enc_OrderAccepted [simp]: "hd (enc_OrderAccepted m) = byte_of_char (oa_message_type m)"
  by (simp add: enc_OrderAccepted_def hd_enc_char)

lemma hd_enc_OrderRejected [simp]: "hd (enc_OrderRejected m) = byte_of_char (oj_message_type m)"
  by (simp add: enc_OrderRejected_def hd_enc_char)

lemma hd_enc_OrderReplaced [simp]: "hd (enc_OrderReplaced m) = byte_of_char (rep_message_type m)"
  by (simp add: enc_OrderReplaced_def hd_enc_char)

lemma hd_enc_OrderCanceled [simp]: "hd (enc_OrderCanceled m) = byte_of_char (oc_message_type m)"
  by (simp add: enc_OrderCanceled_def hd_enc_char)

lemma hd_enc_OrderExecuted [simp]: "hd (enc_OrderExecuted m) = byte_of_char (oe_message_type m)"
  by (simp add: enc_OrderExecuted_def hd_enc_char)

lemma hd_enc_MassQuoteAck [simp]: "hd (enc_MassQuoteAck m) = byte_of_char (mk_message_type m)"
  by (simp add: enc_MassQuoteAck_def hd_enc_char)

lemma hd_enc_MassQuoteRejection [simp]: "hd (enc_MassQuoteRejection m) = byte_of_char (mr_message_type m)"
  by (simp add: enc_MassQuoteRejection_def hd_enc_char)

end
