(* ===== verification/Codec.thy ===== *)
theory Codec
  imports Messages
begin

text \<open>
  \<open>include/bist/ouch/codec.hpp\<close> (alpha fields, tokens on the wire, the hex dump of the audit
  log, the quote builders) and the hex reader of \<open>apps/tools/ouch_decode.cpp\<close>, its inverse.
\<close>

unbundle bit_operations_syntax

section \<open>Alpha fields and tokens\<close>

text \<open>The two loops of \<open>alpha_set\<close> over a \<open>char[N]\<close>, and the scan of \<open>alpha_get\<close>.\<close>

definition alpha_set :: "nat \<Rightarrow> string \<Rightarrow> string" where
  "alpha_set N src = (let n = min (length src) N in take n src @ replicate (N - n) CHR '' '')"

fun alpha_len :: "string \<Rightarrow> nat \<Rightarrow> nat" where
  "alpha_len src 0 = 0"
| "alpha_len src (Suc n) = (if src ! n = CHR '' '' then alpha_len src n else Suc n)"

definition alpha_get :: "string \<Rightarrow> string" where
  "alpha_get src = take (alpha_len src (length src)) src"

definition token_set :: "order_token \<Rightarrow> string" where
  "token_set tok = token_bytes tok"

definition token_get :: "string \<Rightarrow> order_token" where
  "token_get src = token_of_raw src"

lemma alpha_set_pad_field: "alpha_set N src = pad_field N src"
  by (simp add: alpha_set_def pad_field_def Let_def min_def)

lemma length_alpha_set [simp, layout_simps]: "length (alpha_set N s) = N"
  by (simp add: alpha_set_pad_field)

lemma take_alpha_len: "n \<le> length s \<Longrightarrow> take (alpha_len s n) s = trim_blanks (take n s)"
  by (induction n) (simp_all add: take_Suc_conv_app_nth rstrip_snoc)

lemma alpha_get_trim: "alpha_get s = trim_blanks s"
  by (simp add: alpha_get_def take_alpha_len)

lemma length_token_set [simp, layout_simps]: "length (token_set t) = 14"
  by (simp add: token_set_def)

lemma token_get_set [simp]: "token_get (token_set t) = t"
  by (rule token_eqI) (simp add: token_get_def token_set_def)

text \<open>What an alpha field gives back is the text that was put in, cut to the field width,
  without its trailing blanks: nothing else is lost, a text that fits and does not end in a
  blank is returned as it was, and a token written to a message is read back from it.\<close>

lemma alpha_roundtrip:
  "alpha_get (alpha_set N s) = trim_blanks (take N s)
   \<and> (length s \<le> N \<and> (s = [] \<or> last s \<noteq> CHR '' '') \<longrightarrow> alpha_get (alpha_set N s) = s)
   \<and> (length f = N \<longrightarrow> alpha_set N (alpha_get f) = f)
   \<and> token_get (token_set t) = t"
  by (simp add: alpha_get_trim alpha_set_pad_field trim_pad_field pad_trim_field rstrip_id)

section \<open>Hex dump\<close>

definition kDigits :: string where
  "kDigits = ''0123456789abcdef''"

definition hex_dump :: "byte list \<Rightarrow> string" where
  "hex_dump bs =
     concat (map (\<lambda>b. [kDigits ! unat (drop_bit 4 b AND 0x0F), kDigits ! unat (b AND 0x0F)]) bs)"

datatype hex_error = InvalidHex char | OddDigits

definition hex_nibble :: "char \<Rightarrow> u8 option" where
  "hex_nibble c =
     (let v = (of_char c :: nat)
      in if 48 \<le> v \<and> v \<le> 57 then Some (word_of_nat (v - 48))
         else if 97 \<le> v \<and> v \<le> 102 then Some (word_of_nat (v - 97 + 10))
         else if 65 \<le> v \<and> v \<le> 70 then Some (word_of_nat (v - 65 + 10))
         else None)"

text \<open>The reader's loop; \<open>std::exit(EXIT_FAILURE)\<close> is the error value.\<close>

fun hex_loop :: "string \<Rightarrow> u8 \<Rightarrow> bool \<Rightarrow> byte list \<Rightarrow> hex_error + byte list" where
  "hex_loop [] cur high out = (if \<not> high then Inl OddDigits else Inr out)"
| "hex_loop (c # cs) cur high out =
     (if is_space c then hex_loop cs cur high out
      else case hex_nibble c of
        None \<Rightarrow> Inl (InvalidHex c)
      | Some nibble \<Rightarrow>
          if high then hex_loop cs (push_bit 4 nibble) False out
          else hex_loop cs (cur OR nibble) True (out @ [cur OR nibble]))"

definition hex_to_bytes :: "string \<Rightarrow> hex_error + byte list" where
  "hex_to_bytes hex = hex_loop hex 0 True []"

lemma hex_nibble_digit_upto:
  "list_all (\<lambda>i. hex_nibble (kDigits ! i) = Some (word_of_nat i) \<and> \<not> is_space (kDigits ! i)) [0..<16]"
  by (simp add: upt_conv_Cons kDigits_def hex_nibble_def is_space_def)

lemma hex_nibble_digit:
  "i < 16 \<Longrightarrow> hex_nibble (kDigits ! i) = Some (word_of_nat i) \<and> \<not> is_space (kDigits ! i)"
  using hex_nibble_digit_upto by (simp add: list_all_iff)

lemma nibble_bound: "unat (b AND 0x0F :: byte) < 16"
proof -
  have "b AND 0x0F = take_bit 4 b" by (simp add: take_bit_eq_mask mask_eq_exp_minus_1)
  then have "unat (b AND 0x0F) = take_bit 4 (unat b)" by (simp only: unsigned_take_bit_eq)
  then show ?thesis by (simp add: take_bit_eq_mod)
qed

lemma nibbles_join: "push_bit 4 (drop_bit 4 b AND 0x0F) OR (b AND 0x0F) = (b :: byte)"
proof -
  have m: "x AND 0x0F = take_bit 4 x" for x :: byte
    by (simp add: take_bit_eq_mask mask_eq_exp_minus_1)
  show ?thesis
    unfolding m by (rule bit_eqI) (auto simp: bit_simps)
qed

lemma hex_loop_dump:
  "hex_loop (hex_dump bs @ cs) cur True out = hex_loop cs (if bs = [] then cur else last bs) True (out @ bs)"
proof (induction bs arbitrary: cur out)
  case Nil
  then show ?case by (simp add: hex_dump_def)
next
  case (Cons b bs)
  have "hex_loop (hex_dump (b # bs) @ cs) cur True out
      = hex_loop (hex_dump bs @ cs) b True (out @ [b])"
    using nibble_bound [of "drop_bit 4 b"] nibble_bound [of b] nibbles_join [of b, simplified] by (simp add: hex_dump_def hex_nibble_digit)
  then show ?case using Cons by simp
qed

text \<open>the hex dump the audit log writes for a packet has two characters per byte and is
  read back by the decoder tool as exactly those bytes.\<close>

lemma hex_roundtrip:
  "hex_to_bytes (hex_dump bs) = Inr bs \<and> length (hex_dump bs) = 2 * length bs"
proof -
  have "length (hex_dump bs) = 2 * length bs"
    by (induction bs) (simp_all add: hex_dump_def)
  moreover have "hex_to_bytes (hex_dump bs) = Inr bs"
    using hex_loop_dump [of bs "[]" 0 "[]"] by (simp add: hex_to_bytes_def)
  ultimately show ?thesis by blast
qed

section \<open>Quote matrix builders\<close>

definition quote_new_two_sided ::
  "QuoteEntry \<Rightarrow> order_book_id \<Rightarrow> price_int \<Rightarrow> quantity \<Rightarrow> price_int \<Rightarrow> quantity \<Rightarrow> QuoteEntry" where
  "quote_new_two_sided e book bid_px bid_size offer_px offer_size =
     e\<lparr>qe_order_book_id := book, qe_bid_price := bid_px, qe_bid_size := bid_size,
       qe_offer_price := offer_px, qe_offer_size := offer_size\<rparr>"

definition quote_cancel_two_sided :: "QuoteEntry \<Rightarrow> order_book_id \<Rightarrow> QuoteEntry" where
  "quote_cancel_two_sided e book =
     e\<lparr>qe_order_book_id := book, qe_bid_price := 0, qe_bid_size := 0,
       qe_offer_price := 0, qe_offer_size := 0\<rparr>"

definition quote_cancel_bid ::
  "QuoteEntry \<Rightarrow> order_book_id \<Rightarrow> price_int \<Rightarrow> quantity \<Rightarrow> QuoteEntry" where
  "quote_cancel_bid e book offer_px offer_size =
     e\<lparr>qe_order_book_id := book, qe_bid_price := 0, qe_bid_size := 0,
       qe_offer_price := offer_px, qe_offer_size := offer_size\<rparr>"

definition quote_cancel_offer ::
  "QuoteEntry \<Rightarrow> order_book_id \<Rightarrow> price_int \<Rightarrow> quantity \<Rightarrow> QuoteEntry" where
  "quote_cancel_offer e book bid_px bid_size =
     e\<lparr>qe_order_book_id := book, qe_bid_price := bid_px, qe_bid_size := bid_size,
       qe_offer_price := 0, qe_offer_size := 0\<rparr>"

lemma quote_cancel_as_new:
  "quote_cancel_two_sided e b = quote_new_two_sided e b 0 0 0 0"
  "quote_cancel_bid e b p q = quote_new_two_sided e b 0 0 p q"
  "quote_cancel_offer e b p q = quote_new_two_sided e b p q 0 0"
  by (simp_all add: quote_cancel_two_sided_def quote_cancel_bid_def quote_cancel_offer_def
      quote_new_two_sided_def)

end
