(* ===== verification/Soup.thy ===== *)
theory Soup
  imports Codec
begin

text \<open>
  \<open>include/bist/net/soupbintcp.hpp\<close>: the SoupBinTCP framing. A packet is a 16-bit length
  that covers the type byte and the payload, the type byte, and the payload.
\<close>

section \<open>Packet types and widths\<close>

definition kClientHeartbeat :: char where "kClientHeartbeat = CHR ''R''"
definition kServerHeartbeat :: char where "kServerHeartbeat = CHR ''H''"
definition kLoginRequest :: char where "kLoginRequest = CHR ''L''"
definition kLoginAccepted :: char where "kLoginAccepted = CHR ''A''"
definition kLoginRejected :: char where "kLoginRejected = CHR ''J''"
definition kSequencedData :: char where "kSequencedData = CHR ''S''"
definition kUnsequencedData :: char where "kUnsequencedData = CHR ''U''"
definition kLogoutRequest :: char where "kLogoutRequest = CHR ''O''"
definition kEndOfSession :: char where "kEndOfSession = CHR ''Z''"
definition kDebug :: char where "kDebug = CHR ''+''"

lemmas pkt_defs =
  kClientHeartbeat_def kServerHeartbeat_def kLoginRequest_def kLoginAccepted_def
  kLoginRejected_def kSequencedData_def kUnsequencedData_def kLogoutRequest_def
  kEndOfSession_def kDebug_def

definition kUsernameLen :: nat where "kUsernameLen = 6"
definition kPasswordLen :: nat where "kPasswordLen = 10"
definition kSessionLen :: nat where "kSessionLen = 10"
definition kSequenceLen :: nat where "kSequenceLen = 20"

lemmas soup_len_defs = kUsernameLen_def kPasswordLen_def kSessionLen_def kSequenceLen_def

definition kHeartbeatSendNs :: u32 where "kHeartbeatSendNs = 800000000"
definition kHeartbeatTimeoutNs :: u32 where "kHeartbeatTimeoutNs = 2500000000"

section \<open>Packet structs\<close>

record Header =
  hd_length :: u16
  hd_packet_type :: char

definition enc_Header :: "Header \<Rightarrow> byte list" where
  "enc_Header h = be_bytes (hd_length h) @ enc_char (hd_packet_type h)"

definition dec_Header :: "byte list \<Rightarrow> Header" where
  "dec_Header bs =
     \<lparr>hd_length = of_be_bytes (slice_at 0 2 bs), hd_packet_type = dec_char (slice_at 2 1 bs)\<rparr>"

definition wf_Header :: "Header \<Rightarrow> bool" where
  "wf_Header h \<longleftrightarrow> True"

interpretation hdr: wire_msg enc_Header dec_Header wf_Header 3
proof
  fix m assume "wf_Header m"
  show "length (enc_Header m) = 3" by (simp add: enc_Header_def)
  show "dec_Header (enc_Header m) = m"
    by (simp add: enc_Header_def dec_Header_def layout_simps)
next
  fix bs :: "byte list" assume len: "length bs = 3"
  show "enc_Header (dec_Header bs) = bs"
    using len by (simp add: enc_Header_def dec_Header_def layout_simps field_enc slice_join)
  show "wf_Header (dec_Header bs)" by (simp add: wf_Header_def)
qed

lemma length_enc_Header [simp, layout_simps]: "length (enc_Header h) = 3"
  by (simp add: enc_Header_def)

lemma dec_Header_append [simp]: "dec_Header (enc_Header h @ bs) = h"
  by (simp add: enc_Header_def dec_Header_def layout_simps)

record LoginRequest =
  lr_header :: Header
  lr_username :: string
  lr_password :: string
  lr_requested_session :: string
  lr_requested_sequence_number :: string

definition enc_LoginRequest :: "LoginRequest \<Rightarrow> byte list" where
  "enc_LoginRequest r =
     enc_Header (lr_header r) @ bytes_of_string (lr_username r)
     @ bytes_of_string (lr_password r) @ bytes_of_string (lr_requested_session r)
     @ bytes_of_string (lr_requested_sequence_number r)"

record LoginAccepted =
  la_header :: Header
  la_session :: string
  la_sequence_number :: string

definition enc_LoginAccepted :: "LoginAccepted \<Rightarrow> byte list" where
  "enc_LoginAccepted r =
     enc_Header (la_header r) @ bytes_of_string (la_session r)
     @ bytes_of_string (la_sequence_number r)"

record LoginRejected =
  lj_header :: Header
  lj_reject_reason_code :: char

definition enc_LoginRejected :: "LoginRejected \<Rightarrow> byte list" where
  "enc_LoginRejected r = enc_Header (lj_header r) @ enc_char (lj_reject_reason_code r)"

text \<open>Logout requests, heartbeats and end-of-session packets are a bare header.\<close>

section \<open>Header helpers\<close>

definition make_header :: "char \<Rightarrow> u16 \<Rightarrow> Header" where
  "make_header packet_type inner_len =
     \<lparr>hd_length = inner_len + 1, hd_packet_type = packet_type\<rparr>"

definition total_packet_size :: "Header \<Rightarrow> u16" where
  "total_packet_size h = hd_length h + 2"

text \<open>A framed packet.\<close>

definition frame :: "char \<Rightarrow> byte list \<Rightarrow> byte list" where
  "frame t payload = enc_Header (make_header t (word_of_nat (length payload))) @ payload"

lemma length_frame [simp, layout_simps]: "length (frame t p) = 3 + length p"
  by (simp add: frame_def)

text \<open>The first byte of a short packet is the high byte of its length.\<close>

lemma hd_frame:
  assumes "length p < 255"
  shows "hd (frame ty p) = 0"
proof -
  have "unat (word_of_nat (length p) + 1 :: u16) = length p + 1"
    using assms by (simp add: unat_word_ariths unat_of_nat)
  then have "(word_of_nat (length p) + 1 :: u16) div 256 = 0"
    using assms by (simp add: word_unat_eq_iff unat_div_distrib)
  then show ?thesis
    by (simp add: frame_def enc_Header_def make_header_def be_bytes_def word_bytes_def numeral_2_eq_2 drop_bit_eq_div)
qed

lemma unat_make_header:
  "length p < 65535 \<Longrightarrow> unat (hd_length (make_header t (word_of_nat (length p)))) = length p + 1"
  by (simp add: make_header_def unat_word_ariths unat_of_nat)

lemma hd_packet_type_make_header [simp]: "hd_packet_type (make_header t n) = t"
  by (simp add: make_header_def)

lemma total_packet_size_frame:
  "length p < 65533 \<Longrightarrow> unat (total_packet_size (make_header t (word_of_nat (length p))))
     = length (frame t p)"
  by (simp add: total_packet_size_def make_header_def unat_word_ariths unat_of_nat)

end
