(* ===== verification/Tcp_Socket.thy ===== *)
theory Tcp_Socket
  imports Core_Types
begin

text \<open>
  \<open>include/bist/net/tcp_socket.hpp\<close> and \<open>include/bist/core/time.hpp\<close>: the non-blocking
  stream socket and the clocks. The kernel is the environment: a socket carries the answers
  the kernel will give to the coming \<open>::send\<close> and \<open>::recv\<close> calls, in order, and the bytes it
  has taken so far. When the prepared answers run out, \<open>::send\<close> takes everything and \<open>::recv\<close>
  has nothing more. A theorem that quantifies over the socket thus covers every behaviour of
  the kernel: partial writes, full buffers, errors, arbitrary chunking, end of file.
\<close>

section \<open>The clock\<close>

record clock =
  ck_now :: u64
  ck_later :: "u64 list"

text \<open>\<open>monotonic_ns()\<close> and \<open>wall_ns()\<close>: one reading; the last one repeats.\<close>

definition read_clock :: "clock \<Rightarrow> u64 \<times> clock" where
  "read_clock c =
     (ck_now c, (case ck_later c of [] \<Rightarrow> c | t # ts \<Rightarrow> \<lparr>ck_now = t, ck_later = ts\<rparr>))"

lemma fst_read_clock [simp]: "fst (read_clock c) = ck_now c"
  by (simp add: read_clock_def)

section \<open>The socket\<close>

text \<open>What \<open>::send\<close> and \<open>::recv\<close> may answer: a count of bytes, \<open>EAGAIN\<close>, or another
  \<open>errno\<close> (its \<open>strerror\<close> text). A read of no bytes is the end of the stream.\<close>

datatype send_answer = Wrote nat | SendAgain | SendFails string
datatype recv_answer = Received "byte list" | RecvAgain | RecvFails string

record tcp_socket =
  sk_open :: bool
  sk_sends :: "send_answer list"
  sk_recvs :: "recv_answer list"
  sk_wire :: "byte list"

definition socket_send :: "byte list \<Rightarrow> tcp_socket \<Rightarrow> nat result \<times> tcp_socket" where
  "socket_send buf k =
     (if \<not> sk_open k then (Inl (make_error Io ''send on closed socket''), k)
      else case sk_sends k of
        [] \<Rightarrow> (Inr (length buf), k\<lparr>sk_wire := sk_wire k @ buf\<rparr>)
      | Wrote n # as \<Rightarrow>
          (Inr (min n (length buf)), k\<lparr>sk_sends := as, sk_wire := sk_wire k @ take n buf\<rparr>)
      | SendAgain # as \<Rightarrow> (Inr 0, k\<lparr>sk_sends := as\<rparr>)
      | SendFails e # as \<Rightarrow> (Inl (make_error Io (''send: '' @ e)), k\<lparr>sk_sends := as\<rparr>))"

text \<open>A chunk longer than the caller's buffer stays in the kernel for the next call.\<close>

definition socket_recv :: "nat \<Rightarrow> tcp_socket \<Rightarrow> byte list result \<times> tcp_socket" where
  "socket_recv len k =
     (if \<not> sk_open k then (Inl (make_error Io ''recv on closed socket''), k)
      else case sk_recvs k of
        [] \<Rightarrow> (Inr [], k)
      | Received [] # as \<Rightarrow> (Inl (make_error Io ''eof''), k)
      | Received (b # bs) # as \<Rightarrow>
          (Inr (take len (b # bs)),
           k\<lparr>sk_recvs := (case drop len (b # bs) of [] \<Rightarrow> as | rest \<Rightarrow> Received rest # as)\<rparr>)
      | RecvAgain # as \<Rightarrow> (Inr [], k\<lparr>sk_recvs := as\<rparr>)
      | RecvFails e # as \<Rightarrow> (Inl (make_error Io (''recv: '' @ e)), k\<lparr>sk_recvs := as\<rparr>))"

definition socket_close :: "tcp_socket \<Rightarrow> tcp_socket" where
  "socket_close k = k\<lparr>sk_open := False\<rparr>"

section \<open>What a send and a receive do\<close>

definition recv_load :: "tcp_socket \<Rightarrow> nat" where
  "recv_load k = sum_list (map (\<lambda>a. case a of Received bs \<Rightarrow> 1 + length bs | _ \<Rightarrow> 1) (sk_recvs k))"

lemma socket_send_wire:
  "sk_wire (snd (socket_send buf k)) =
     sk_wire k @ (case fst (socket_send buf k) of Inl _ \<Rightarrow> [] | Inr n \<Rightarrow> take n buf)"
  by (auto simp: socket_send_def min_def split: list.splits send_answer.splits)

lemma socket_send_le: "fst (socket_send buf k) = Inr n \<Longrightarrow> n \<le> length buf"
  by (auto simp: socket_send_def split: list.splits send_answer.splits if_splits)

lemma socket_send_frame [simp]:
  "sk_open (snd (socket_send buf k)) = sk_open k" "sk_recvs (snd (socket_send buf k)) = sk_recvs k"
  by (simp_all add: socket_send_def split: list.splits send_answer.splits)

lemma socket_recv_frame [simp]:
  "sk_open (snd (socket_recv n k)) = sk_open k" "sk_wire (snd (socket_recv n k)) = sk_wire k"
  "sk_sends (snd (socket_recv n k)) = sk_sends k"
  by (simp_all add: socket_recv_def split: list.splits recv_answer.splits)

lemma socket_recv_load:
  assumes "fst (socket_recv n k) = Inr bs" "bs \<noteq> []"
  shows "recv_load (snd (socket_recv n k)) < recv_load k"
proof -
  have len: "length (drop n (c # cs)) < length (c # cs)" if "n \<noteq> 0" for c :: byte and cs
    using that by simp
  from assms obtain c cs as where sk: "sk_open k" "sk_recvs k = Received (c # cs) # as" "n \<noteq> 0"
    by (auto simp: socket_recv_def split: list.splits recv_answer.splits if_splits)
  show ?thesis
    using sk len [OF sk(3), of c cs]
    by (cases "drop n (c # cs)") (simp_all add: socket_recv_def recv_load_def)
qed

end
