(* ===== verification/Session.thy ===== *)
theory Session
  imports Soup Tcp_Socket
begin

text \<open>
  \<open>include/bist/ouch/session.hpp\<close>: the OUCH/SoupBinTCP session. A session is one record of
  its fields, its socket, its clock and the log of the callbacks it made; every member
  function is a state transformer. A callback is recorded and does not re-enter the session.
  Parsing returns \<open>None\<close> where the C++ code reads outside the received bytes.
\<close>

section \<open>State\<close>

datatype session_state = Disconnected | Connecting | LoggingIn | Active | Disconnecting | Failed

record login_params =
  lp_username :: string
  lp_password :: string
  lp_requested_session :: string
  lp_requested_sequence :: u64

text \<open>Which callbacks are installed.\<close>

record handlers =
  on_accepted :: bool
  on_rejected :: bool
  on_replaced :: bool
  on_canceled :: bool
  on_executed :: bool
  on_mass_quote_ack :: bool
  on_mass_quote_reject :: bool
  on_state_change :: bool
  on_audit_sent :: bool
  on_audit_recv :: bool

text \<open>The audit callbacks carry what their handlers read of the session as well: the packets sent so
  far; the assigned session and the next sequence number.\<close>

datatype event =
  Accepted OrderAccepted
| RejectedEv OrderRejected
| Replaced OrderReplaced
| CanceledEv OrderCanceled
| Executed OrderExecuted
| QuoteAck MassQuoteAck
| QuoteRejected MassQuoteRejection
| StateChange session_state string
| AuditSent "byte list" u64
| AuditRecv "byte list" string u64

record ouch_session =
  ss_socket :: tcp_socket
  ss_handlers :: handlers
  ss_login :: login_params
  ss_heartbeat_send_ns :: u32
  ss_heartbeat_timeout_ns :: u32
  ss_state :: session_state
  ss_in_buffer :: "byte list"
  ss_out_pending :: "byte list"
  ss_last_send_ns :: u64
  ss_last_recv_ns :: u64
  ss_assigned_session :: string
  ss_next_inbound_seq :: u64
  ss_last_login_reject_reason :: char
  ss_msgs_sent :: u64
  ss_msgs_recv :: u64
  ss_clock :: clock
  ss_events :: "event list"

definition session_init ::
  "tcp_socket \<Rightarrow> handlers \<Rightarrow> login_params \<Rightarrow> u32 \<Rightarrow> u32 \<Rightarrow> clock \<Rightarrow> ouch_session" where
  "session_init sock h lp send_ns timeout_ns ck =
     \<lparr>ss_socket = sock, ss_handlers = h, ss_login = lp,
      ss_heartbeat_send_ns = send_ns, ss_heartbeat_timeout_ns = timeout_ns,
      ss_state = Disconnected, ss_in_buffer = [], ss_out_pending = [],
      ss_last_send_ns = 0, ss_last_recv_ns = 0, ss_assigned_session = [],
      ss_next_inbound_seq = 0, ss_last_login_reject_reason = CHR 0x00,
      ss_msgs_sent = 0, ss_msgs_recv = 0, ss_clock = ck, ss_events = []\<rparr>"

section \<open>Helpers\<close>

text \<open>A callback, made when its handler is installed.\<close>

definition emit :: "(handlers \<Rightarrow> bool) \<Rightarrow> event \<Rightarrow> ouch_session \<Rightarrow> ouch_session" where
  "emit h ev s = (if h (ss_handlers s) then s\<lparr>ss_events := ss_events s @ [ev]\<rparr> else s)"

definition set_state :: "session_state \<Rightarrow> string \<Rightarrow> ouch_session \<Rightarrow> ouch_session" where
  "set_state st d s = emit on_state_change (StateChange st d) (s\<lparr>ss_state := st\<rparr>)"

definition monotonic_ns :: "ouch_session \<Rightarrow> u64 \<times> ouch_session" where
  "monotonic_ns s = (let (t, c) = read_clock (ss_clock s) in (t, s\<lparr>ss_clock := c\<rparr>))"

text \<open>The send loop: what is left of the buffer after each partial write. The result says
  whether the whole buffer went out; on \<open>EAGAIN\<close> the rest is stashed.\<close>

function send_loop :: "byte list \<Rightarrow> ouch_session \<Rightarrow> bool result \<times> ouch_session" where
  "send_loop rest s =
     (if rest = [] then (Inr True, s)
      else case socket_send rest (ss_socket s) of
        (Inl e, k) \<Rightarrow> (Inl e, s\<lparr>ss_socket := k\<rparr>)
      | (Inr n, k) \<Rightarrow>
          (if n = 0 then (Inr False, s\<lparr>ss_socket := k, ss_out_pending := ss_out_pending s @ rest\<rparr>)
           else send_loop (drop n rest) (s\<lparr>ss_socket := k\<rparr>)))"
  by pat_completeness auto
termination by (relation "measure (\<lambda>(rest, s). length rest)") auto

declare send_loop.simps [simp del]

definition write_bytes :: "byte list \<Rightarrow> ouch_session \<Rightarrow> unit result \<times> ouch_session" where
  "write_bytes buf s =
     (case send_loop buf s of
        (Inl e, s1) \<Rightarrow> (Inl e, s1)
      | (Inr False, s1) \<Rightarrow> (Inr (), s1)
      | (Inr True, s1) \<Rightarrow>
          (let (t, s2) = monotonic_ns s1;
               s3 = emit on_audit_sent (AuditSent buf (ss_msgs_sent s)) (s2\<lparr>ss_last_send_ns := t\<rparr>)
           in (Inr (), s3\<lparr>ss_msgs_sent := ss_msgs_sent s3 + 1\<rparr>)))"

definition send_unsequenced :: "byte list \<Rightarrow> ouch_session \<Rightarrow> unit result \<times> ouch_session" where
  "send_unsequenced payload s =
     (if ss_state s \<noteq> Active then (Inl (make_error StateMismatch ''session not Active''), s)
      else case write_bytes (enc_Header (make_header kUnsequencedData (word_of_nat (length payload)))) s of
        (Inl e, s1) \<Rightarrow> (Inl e, s1)
      | (Inr _, s1) \<Rightarrow> write_bytes payload s1)"

section \<open>The public send operations\<close>

text \<open>\<open>snprintf\<close> into \<open>char seq[20]\<close>: 19 characters and the terminating NUL.\<close>

definition login_sequence_field :: "u64 \<Rightarrow> string" where
  "login_sequence_field n = take (kSequenceLen - 1) (dec_pad 20 (unat n)) @ [CHR 0x00]"

definition login_request :: "login_params \<Rightarrow> LoginRequest" where
  "login_request lp =
     \<lparr>lr_header = make_header kLoginRequest 46,
      lr_username = pad_field kUsernameLen (lp_username lp),
      lr_password = pad_field kPasswordLen (lp_password lp),
      lr_requested_session = pad_field kSessionLen (lp_requested_session lp),
      lr_requested_sequence_number = login_sequence_field (lp_requested_sequence lp)\<rparr>"

definition begin_login :: "ouch_session \<Rightarrow> unit result \<times> ouch_session" where
  "begin_login s =
     (if \<not> sk_open (ss_socket s) then (Inl (make_error Io ''socket not connected''), s)
      else write_bytes (enc_LoginRequest (login_request (ss_login s)))
        (set_state LoggingIn ''sending LoginRequest'' s))"

definition send_enter_order :: "EnterOrder \<Rightarrow> ouch_session \<Rightarrow> unit result \<times> ouch_session" where
  "send_enter_order msg = send_unsequenced (enc_EnterOrder msg)"

definition send_replace_order :: "ReplaceOrder \<Rightarrow> ouch_session \<Rightarrow> unit result \<times> ouch_session" where
  "send_replace_order msg = send_unsequenced (enc_ReplaceOrder msg)"

definition send_cancel :: "CancelOrder \<Rightarrow> ouch_session \<Rightarrow> unit result \<times> ouch_session" where
  "send_cancel msg = send_unsequenced (enc_CancelOrder msg)"

definition send_cancel_by_id :: "CancelByOrderId \<Rightarrow> ouch_session \<Rightarrow> unit result \<times> ouch_session" where
  "send_cancel_by_id msg = send_unsequenced (enc_CancelByOrderId msg)"

definition send_mass_quote :: "byte list \<Rightarrow> ouch_session \<Rightarrow> unit result \<times> ouch_session" where
  "send_mass_quote blob = send_unsequenced blob"

definition request_logout :: "ouch_session \<Rightarrow> unit result \<times> ouch_session" where
  "request_logout s =
     write_bytes (enc_Header (make_header kLogoutRequest 0))
       (set_state Disconnecting ''sending LogoutRequest'' s)"

section \<open>Reading\<close>

lemma socket_recv_load':
  "(Inr bs, k) = socket_recv n k0 \<Longrightarrow> bs \<noteq> [] \<Longrightarrow> recv_load k < recv_load k0"
  using socket_recv_load [of n k0 bs] by (metis fst_conv snd_conv)

text \<open>The read loop ends: each pass that goes on takes bytes from the kernel.\<close>

function read_some :: "ouch_session \<Rightarrow> unit result \<times> ouch_session" where
  "read_some s =
     (if \<not> sk_open (ss_socket s) then (Inl (make_error Io ''read on closed socket''), s)
      else case socket_recv 8192 (ss_socket s) of
        (Inl e, k) \<Rightarrow>
          (let s1 = s\<lparr>ss_socket := k\<rparr>
           in if category e = Io \<and> detail e = ''eof''
              then (Inl e, set_state Disconnected ''peer closed'' s1)
              else (Inl e, s1))
      | (Inr bs, k) \<Rightarrow>
          (if bs = [] then (Inr (), s\<lparr>ss_socket := k\<rparr>)
           else let (t, s1) = monotonic_ns (s\<lparr>ss_socket := k, ss_in_buffer := ss_in_buffer s @ bs\<rparr>)
                in read_some (s1\<lparr>ss_last_recv_ns := t\<rparr>)))"
  by pat_completeness auto
termination
  by (relation "measure (\<lambda>s. recv_load (ss_socket s))")
    (auto simp: monotonic_ns_def Let_def split: prod.splits dest: socket_recv_load')

declare read_some.simps [simp del]

section \<open>Dispatch\<close>

text \<open>\<open>peek off n bs\<close>: the \<open>n\<close> bytes at \<open>off\<close>, when the buffer holds them. The payload
  pointer comes with a separate length, which the code trusts.\<close>

definition peek :: "nat \<Rightarrow> nat \<Rightarrow> byte list \<Rightarrow> byte list option" where
  "peek off n bs = (if off + n \<le> length bs then Some (slice_at off n bs) else None)"

definition dispatch_msg :: "nat \<Rightarrow> (handlers \<Rightarrow> bool) \<Rightarrow> (byte list \<Rightarrow> event) \<Rightarrow> char \<Rightarrow>
    byte list \<Rightarrow> nat \<Rightarrow> ouch_session \<Rightarrow> (unit result \<times> ouch_session) option" where
  "dispatch_msg sz h ev ty payload payload_len s =
     (if payload_len \<noteq> sz
      then Some (Inl (make_error Protocol (''OUCH '' @ [ty] @ '' size mismatch'')), s)
      else if h (ss_handlers s)
        then map_option (\<lambda>m. (Inr (), emit h (ev m) s)) (peek 0 sz payload)
        else Some (Inr (), s))"

definition dispatch_ouch ::
  "byte list \<Rightarrow> nat \<Rightarrow> ouch_session \<Rightarrow> (unit result \<times> ouch_session) option" where
  "dispatch_ouch payload payload_len s =
     (if payload_len = 0 then Some (Inl (make_error Protocol ''empty OUCH payload''), s)
      else case peek 0 1 payload of
        None \<Rightarrow> None
      | Some tb \<Rightarrow>
        let ty = dec_char tb in
        if ty = kOrderAccepted then
          dispatch_msg 137 on_accepted (\<lambda>m. Accepted (dec_OrderAccepted m)) ty payload payload_len s
        else if ty = kOrderRejected then
          dispatch_msg 27 on_rejected (\<lambda>m. RejectedEv (dec_OrderRejected m)) ty payload payload_len s
        else if ty = kOrderReplaced then
          dispatch_msg 145 on_replaced (\<lambda>m. Replaced (dec_OrderReplaced m)) ty payload payload_len s
        else if ty = kOrderCanceled then
          dispatch_msg 37 on_canceled (\<lambda>m. CanceledEv (dec_OrderCanceled m)) ty payload payload_len s
        else if ty = kOrderExecuted then
          dispatch_msg 68 on_executed (\<lambda>m. Executed (dec_OrderExecuted m)) ty payload payload_len s
        else if ty = kMassQuoteAck then
          dispatch_msg 52 on_mass_quote_ack (\<lambda>m. QuoteAck (dec_MassQuoteAck m)) ty payload payload_len s
        else if ty = kMassQuoteRejection then
          dispatch_msg 31 on_mass_quote_reject (\<lambda>m. QuoteRejected (dec_MassQuoteRejection m)) ty payload payload_len s
        else Some (Inl (make_error Protocol (''unknown OUCH type: '' @ [ty])), s))"

definition login_accepted ::
  "byte list \<Rightarrow> ouch_session \<Rightarrow> (unit result \<times> ouch_session) option" where
  "login_accepted payload s =
     (case (peek 0 kSessionLen payload, peek kSessionLen kSequenceLen payload) of
        (Some sess, Some sq) \<Rightarrow>
          Some (Inr (), set_state Active ''LoginAccepted''
            (s\<lparr>ss_assigned_session := string_of_bytes sess,
               ss_next_inbound_seq := strtoull (takeWhile (\<lambda>c. c \<noteq> CHR 0x00) (string_of_bytes sq)),
               ss_last_login_reject_reason := CHR 0x00\<rparr>))
      | _ \<Rightarrow> None)"

definition login_rejected ::
  "byte list \<Rightarrow> nat \<Rightarrow> ouch_session \<Rightarrow> (unit result \<times> ouch_session) option" where
  "login_rejected payload payload_len s =
     (if payload_len \<ge> 1
      then map_option (\<lambda>b. (Inr (),
             set_state Failed (''LoginRejected(reason='' @ [CHR 0x27] @ [dec_char b] @ [CHR 0x27] @ '')'')
               (s\<lparr>ss_last_login_reject_reason := dec_char b\<rparr>))) (peek 0 1 payload)
      else Some (Inr (), set_state Failed ''LoginRejected''
             (s\<lparr>ss_last_login_reject_reason := CHR 0x00\<rparr>)))"

definition dispatch_packet ::
  "char \<Rightarrow> byte list \<Rightarrow> nat \<Rightarrow> ouch_session \<Rightarrow> (unit result \<times> ouch_session) option" where
  "dispatch_packet ty payload payload_len s0 =
     (let s = s0\<lparr>ss_msgs_recv := ss_msgs_recv s0 + 1\<rparr>
      in if ty = kLoginAccepted then
           (if payload_len < kSessionLen + kSequenceLen
            then Some (Inl (make_error Protocol ''short LoginAccepted''), s)
            else login_accepted payload s)
         else if ty = kLoginRejected then login_rejected payload payload_len s
         else if ty = kServerHeartbeat then Some (Inr (), s)
         else if ty = kEndOfSession then Some (Inr (), set_state Disconnected ''EndOfSession'' s)
         else if ty = kSequencedData then
           dispatch_ouch payload payload_len (s\<lparr>ss_next_inbound_seq := ss_next_inbound_seq s + 1\<rparr>)
         else if ty = kDebug then Some (Inr (), s)
         else Some (Inl (make_error Protocol (''unknown SoupBinTCP type: '' @ [ty])), s))"

text \<open>What dispatching leaves alone; it neither reads nor writes the receive buffer.\<close>

lemma emit_simps [simp]:
  "ss_in_buffer (emit h ev s) = ss_in_buffer s" "ss_socket (emit h ev s) = ss_socket s"
  "ss_out_pending (emit h ev s) = ss_out_pending s" "ss_state (emit h ev s) = ss_state s"
  "ss_handlers (emit h ev s) = ss_handlers s" "ss_clock (emit h ev s) = ss_clock s"
  "ss_last_send_ns (emit h ev s) = ss_last_send_ns s" "ss_last_recv_ns (emit h ev s) = ss_last_recv_ns s"
  "ss_msgs_sent (emit h ev s) = ss_msgs_sent s" "ss_msgs_recv (emit h ev s) = ss_msgs_recv s"
  "ss_assigned_session (emit h ev s) = ss_assigned_session s"
  "ss_next_inbound_seq (emit h ev s) = ss_next_inbound_seq s"
  "ss_login (emit h ev s) = ss_login s"
  "ss_heartbeat_send_ns (emit h ev s) = ss_heartbeat_send_ns s"
  "ss_heartbeat_timeout_ns (emit h ev s) = ss_heartbeat_timeout_ns s"
  by (simp_all add: emit_def)

lemma set_state_simps [simp]:
  "ss_in_buffer (set_state st d s) = ss_in_buffer s" "ss_socket (set_state st d s) = ss_socket s"
  "ss_out_pending (set_state st d s) = ss_out_pending s" "ss_state (set_state st d s) = st"
  "ss_handlers (set_state st d s) = ss_handlers s" "ss_clock (set_state st d s) = ss_clock s"
  "ss_last_send_ns (set_state st d s) = ss_last_send_ns s"
  "ss_last_recv_ns (set_state st d s) = ss_last_recv_ns s"
  "ss_msgs_sent (set_state st d s) = ss_msgs_sent s" "ss_msgs_recv (set_state st d s) = ss_msgs_recv s"
  "ss_assigned_session (set_state st d s) = ss_assigned_session s"
  "ss_next_inbound_seq (set_state st d s) = ss_next_inbound_seq s"
  "ss_login (set_state st d s) = ss_login s"
  "ss_heartbeat_send_ns (set_state st d s) = ss_heartbeat_send_ns s"
  "ss_heartbeat_timeout_ns (set_state st d s) = ss_heartbeat_timeout_ns s"
  by (simp_all add: set_state_def)

definition with_buffer :: "byte list \<Rightarrow> ouch_session \<Rightarrow> ouch_session" where
  "with_buffer b s = s\<lparr>ss_in_buffer := b\<rparr>"

lemma with_buffer_simps [simp]:
  "ss_in_buffer (with_buffer b s) = b" "with_buffer b (with_buffer b' s) = with_buffer b s"
  "with_buffer (ss_in_buffer s) s = s" "ss_handlers (with_buffer b s) = ss_handlers s"
  "ss_state (with_buffer b s) = ss_state s" "ss_assigned_session (with_buffer b s) = ss_assigned_session s"
  "ss_next_inbound_seq (with_buffer b s) = ss_next_inbound_seq s"
  by (simp_all add: with_buffer_def)

named_theorems buffer_blind \<comment> \<open>operations that commute with replacing the receive buffer\<close>

lemma emit_buffer [buffer_blind]: "emit h ev (with_buffer b s) = with_buffer b (emit h ev s)"
  by (simp add: emit_def with_buffer_def)

lemma set_state_buffer [buffer_blind]: "set_state st d (with_buffer b s) = with_buffer b (set_state st d s)"
  by (simp add: set_state_def with_buffer_def emit_def)

definition blind :: "byte list \<Rightarrow> 'r \<times> ouch_session \<Rightarrow> 'r \<times> ouch_session" where
  "blind b rs = (fst rs, with_buffer b (snd rs))"

lemma blind_simps [simp]: "blind b (r, s) = (r, with_buffer b s)"
  by (simp add: blind_def)

lemma dispatch_msg_buffer [buffer_blind]:
  "dispatch_msg sz h ev ty p n (with_buffer b s) = map_option (blind b) (dispatch_msg sz h ev ty p n s)"
  by (simp add: dispatch_msg_def option.map_comp comp_def emit_buffer)

lemma dispatch_ouch_buffer [buffer_blind]:
  "dispatch_ouch p n (with_buffer b s) = map_option (blind b) (dispatch_ouch p n s)"
  unfolding dispatch_ouch_def by (simp add: dispatch_msg_buffer Let_def split: option.split)

lemma dispatch_packet_buffer [buffer_blind]:
  "dispatch_packet ty p n (with_buffer b s) = map_option (blind b) (dispatch_packet ty p n s)"
proof -
  have upd: "with_buffer b s\<lparr>ss_msgs_recv := v\<rparr> = with_buffer b (s\<lparr>ss_msgs_recv := v\<rparr>)"
    "with_buffer b s\<lparr>ss_next_inbound_seq := q\<rparr> = with_buffer b (s\<lparr>ss_next_inbound_seq := q\<rparr>)"
    "with_buffer b s\<lparr>ss_last_login_reject_reason := c\<rparr> = with_buffer b (s\<lparr>ss_last_login_reject_reason := c\<rparr>)"
    "with_buffer b s\<lparr>ss_assigned_session := a, ss_next_inbound_seq := q, ss_last_login_reject_reason := c\<rparr>
      = with_buffer b (s\<lparr>ss_assigned_session := a, ss_next_inbound_seq := q, ss_last_login_reject_reason := c\<rparr>)"
    "ss_msgs_recv (with_buffer b s) = ss_msgs_recv s"
    "ss_next_inbound_seq (with_buffer b s) = ss_next_inbound_seq s" for s v q c a
    by (simp_all add: with_buffer_def)
  show ?thesis
    unfolding dispatch_packet_def login_accepted_def login_rejected_def
    by (simp add: Let_def upd set_state_buffer dispatch_ouch_buffer option.map_comp comp_def
        split: option.split)
qed

text \<open>Bytes past the declared payload length are never looked at when the length is honest.\<close>

lemma peek_append: "off + n \<le> length p \<Longrightarrow> peek off n (p @ rest) = peek off n p"
  by (simp add: peek_def slice_at_def)

lemma dispatch_msg_append:
  "dispatch_msg sz h ev ty (p @ rest) (length p) s = dispatch_msg sz h ev ty p (length p) s"
  by (simp add: dispatch_msg_def peek_append)

lemma dispatch_ouch_append:
  "dispatch_ouch (p @ rest) (length p) s = dispatch_ouch p (length p) s"
proof (cases "length p = 0")
  case True
  then show ?thesis by (simp add: dispatch_ouch_def)
next
  case False
  then have pk: "peek 0 1 (p @ rest) = peek 0 1 p" by (intro peek_append) (cases p; simp)
  show ?thesis unfolding dispatch_ouch_def pk dispatch_msg_append ..
qed

lemma dispatch_packet_append:
  "dispatch_packet ty (p @ rest) (length p) s = dispatch_packet ty p (length p) s"
  unfolding dispatch_packet_def login_accepted_def login_rejected_def
  by (simp add: Let_def peek_append dispatch_ouch_append soup_len_defs)

text \<open>An honest length is also enough for every read: dispatching is then never undefined.\<close>

lemma peek_Some: "off + n \<le> length p \<Longrightarrow> peek off n p = Some (slice_at off n p)"
  by (simp add: peek_def)

lemma dispatch_msg_defined: "dispatch_msg sz h ev ty p (length p) s \<noteq> None"
  by (simp add: dispatch_msg_def peek_def)

lemma dispatch_packet_defined: "dispatch_packet ty p (length p) s \<noteq> None"
proof -
  have "dispatch_ouch p (length p) s \<noteq> None" for s
  proof (cases "length p = 0")
    case False
    then have "peek 0 1 p = Some (slice_at 0 1 p)" by (intro peek_Some) (cases p; simp)
    then show ?thesis unfolding dispatch_ouch_def
      by (simp add: Let_def dispatch_msg_defined del: not_None_eq One_nat_def)
  qed (simp add: dispatch_ouch_def)
  then show ?thesis
    unfolding dispatch_packet_def login_accepted_def login_rejected_def
    by (simp add: Let_def peek_Some soup_len_defs del: not_None_eq)
qed

end
