(* ===== verification/Session_Parse.thy ===== *)
theory Session_Parse
  imports Session
begin

text \<open>
  The receive side of \<open>include/bist/ouch/session.hpp\<close>: cutting the byte stream into packets,
  the timers, and \<open>poll_io\<close>. The reference for the parser is dispatching whole packets one
  by one; the theorems say that the parser does this for every way the stream is chunked,
  never reads outside it while every length field counts the type byte, and does read outside
  it on a zero length field.
\<close>

section \<open>Cutting packets\<close>

text \<open>\<open>pkt_size - sizeof(Header)\<close> in \<open>size_t\<close> arithmetic.\<close>

definition payload_size :: "nat \<Rightarrow> nat" where
  "payload_size pkt_size = unat (word_of_nat pkt_size - 3 :: u64)"

lemma payload_size_ge: "3 \<le> n \<Longrightarrow> n < 2 ^ 64 \<Longrightarrow> payload_size n = n - 3"
  by (simp add: payload_size_def unat_sub word_le_nat_alt unat_of_nat)

lemma payload_size_2: "payload_size 2 = 2 ^ 64 - 1"
  by (simp add: payload_size_def unsigned_minus_1_eq_mask mask_eq_exp_minus_1)

lemma dispatch_in_buffer:
  assumes "dispatch_packet ty p n s = Some (r, s')"
  shows "ss_in_buffer s' = ss_in_buffer s"
proof -
  have "dispatch_packet ty p n (with_buffer (ss_in_buffer s) s) =
      map_option (blind (ss_in_buffer s)) (dispatch_packet ty p n s)"
    by (rule dispatch_packet_buffer)
  then have "s' = with_buffer (ss_in_buffer s) s'" using assms by simp
  then show ?thesis by (metis with_buffer_simps(1))
qed

text \<open>\<open>front_header\<close> is the header copied from the front of the buffer, \<open>front_size\<close> the
  \<open>pkt_size\<close> it declares.\<close>

definition front_header :: "byte list \<Rightarrow> Header" where
  "front_header b = dec_Header (take 3 b)"

definition front_size :: "byte list \<Rightarrow> nat" where
  "front_size b = unat (hd_length (front_header b)) + 2"

lemma front_size_ge: "2 \<le> front_size b"
  by (simp add: front_size_def)

lemma drop_front_less: "\<not> length b < 3 \<Longrightarrow> length b - front_size b < length b"
  using front_size_ge [of b] by linarith

function parse_pending :: "ouch_session \<Rightarrow> (unit result \<times> ouch_session) option" where
  "parse_pending s =
     (if length (ss_in_buffer s) < 3 then Some (Inr (), s)
      else
        let h = front_header (ss_in_buffer s);
            pkt_size = front_size (ss_in_buffer s)
        in if length (ss_in_buffer s) < pkt_size then Some (Inr (), s)
           else
             case dispatch_packet (hd_packet_type h) (drop 3 (ss_in_buffer s)) (payload_size pkt_size)
                 (emit on_audit_recv (AuditRecv (take pkt_size (ss_in_buffer s)) (ss_assigned_session s) (ss_next_inbound_seq s)) s) of
               None \<Rightarrow> None
             | Some (Inl e, s1) \<Rightarrow> Some (Inl e, with_buffer (drop pkt_size (ss_in_buffer s1)) s1)
             | Some (Inr _, s1) \<Rightarrow> parse_pending (with_buffer (drop pkt_size (ss_in_buffer s1)) s1))"
  by pat_completeness auto
termination
  by (relation "measure (\<lambda>s. length (ss_in_buffer s))")
    (auto dest!: dispatch_in_buffer simp: drop_front_less)

declare parse_pending.simps [simp del]

lemma parse_pending_short:
  "length (ss_in_buffer s) < 3 \<or> length (ss_in_buffer s) < front_size (ss_in_buffer s) \<Longrightarrow>
     parse_pending s = Some (Inr (), s)"
  by (subst parse_pending.simps) (auto simp: Let_def)

lemma parse_pending_packet:
  assumes "3 \<le> length (ss_in_buffer s)" "front_size (ss_in_buffer s) \<le> length (ss_in_buffer s)"
  shows "parse_pending s =
    (case dispatch_packet (hd_packet_type (front_header (ss_in_buffer s))) (drop 3 (ss_in_buffer s))
        (payload_size (front_size (ss_in_buffer s)))
        (emit on_audit_recv (AuditRecv (take (front_size (ss_in_buffer s)) (ss_in_buffer s)) (ss_assigned_session s) (ss_next_inbound_seq s)) s) of
       None \<Rightarrow> None
     | Some (Inl e, s1) \<Rightarrow> Some (Inl e, with_buffer (drop (front_size (ss_in_buffer s)) (ss_in_buffer s)) s1)
     | Some (Inr _, s1) \<Rightarrow> parse_pending (with_buffer (drop (front_size (ss_in_buffer s)) (ss_in_buffer s)) s1))"
  using assms by (subst parse_pending.simps)
    (auto simp: Let_def not_less dest: dispatch_in_buffer split: option.split sum.split)

section \<open>Timers and polling\<close>

function flush_pending :: "ouch_session \<Rightarrow> ouch_session" where
  "flush_pending s =
     (if ss_out_pending s = [] then s
      else case socket_send (ss_out_pending s) (ss_socket s) of
        (Inl e, k) \<Rightarrow> s\<lparr>ss_socket := k\<rparr>
      | (Inr n, k) \<Rightarrow>
          (if n = 0 then s\<lparr>ss_socket := k\<rparr>
           else flush_pending (s\<lparr>ss_socket := k, ss_out_pending := drop n (ss_out_pending s)\<rparr>)))"
  by pat_completeness auto
termination by (relation "measure (\<lambda>s. length (ss_out_pending s))") auto

declare flush_pending.simps [simp del]

definition watchdog :: "u64 \<Rightarrow> ouch_session \<Rightarrow> unit result \<times> ouch_session" where
  "watchdog now s =
     (if ss_last_recv_ns s \<noteq> 0 \<and> now - ss_last_recv_ns s \<ge> ucast (ss_heartbeat_timeout_ns s)
      then (Inl (make_error Timeout ''heartbeat watchdog tripped''),
            set_state Failed ''peer heartbeat timeout'' s)
      else (Inr (), s))"

definition tick_timers :: "ouch_session \<Rightarrow> unit result \<times> ouch_session" where
  "tick_timers s0 =
     (let s = flush_pending s0
      in if ss_state s \<noteq> Active then (Inr (), s)
         else let (now, s1) = monotonic_ns s
              in if now - ss_last_send_ns s1 \<ge> ucast (ss_heartbeat_send_ns s1)
                 then case write_bytes (enc_Header (make_header kClientHeartbeat 0)) s1 of
                        (Inl e, s2) \<Rightarrow> (Inl e, s2)
                      | (Inr _, s2) \<Rightarrow> watchdog now s2
                 else watchdog now s1)"

definition poll_io :: "ouch_session \<Rightarrow> (unit result \<times> ouch_session) option" where
  "poll_io s =
     (case read_some s of
        (Inl e, s1) \<Rightarrow> Some (Inl e, s1)
      | (Inr _, s1) \<Rightarrow>
          (case parse_pending s1 of
             None \<Rightarrow> None
           | Some (Inl e, s2) \<Rightarrow> Some (Inl e, s2)
           | Some (Inr _, s2) \<Rightarrow> Some (tick_timers s2)))"

section \<open>The reference: packets one by one\<close>

definition dispatch_frame :: "char \<times> byte list \<Rightarrow> ouch_session \<Rightarrow> (unit result \<times> ouch_session) option" where
  "dispatch_frame pk s =
     dispatch_packet (fst pk) (snd pk) (length (snd pk))
       (emit on_audit_recv (AuditRecv (frame (fst pk) (snd pk)) (ss_assigned_session s) (ss_next_inbound_seq s)) s)"

fun dispatch_all :: "(char \<times> byte list) list \<Rightarrow> ouch_session \<Rightarrow> (unit result \<times> ouch_session) option" where
  "dispatch_all [] s = Some (Inr (), s)"
| "dispatch_all (pk # pks) s =
     (case dispatch_frame pk s of
        None \<Rightarrow> None
      | Some (Inl e, s1) \<Rightarrow> Some (Inl e, s1)
      | Some (Inr _, s1) \<Rightarrow> dispatch_all pks s1)"

definition frames :: "(char \<times> byte list) list \<Rightarrow> byte list" where
  "frames pks = concat (map (\<lambda>(t, p). frame t p) pks)"

text \<open>A packet whose length field is what \<open>make_header\<close> can express.\<close>

definition framed :: "char \<times> byte list \<Rightarrow> bool" where
  "framed pk \<longleftrightarrow> length (snd pk) < 65535"

lemma frames_simps [simp]: "frames [] = []" "frames ((t, p) # pks) = frame t p @ frames pks"
  by (simp_all add: frames_def)

text \<open>Feeding the parser a chunk, as \<open>read_some\<close> followed by \<open>parse_pending\<close> does.\<close>

definition feed :: "byte list \<Rightarrow> ouch_session \<Rightarrow> (unit result \<times> ouch_session) option" where
  "feed bs s = parse_pending (with_buffer (ss_in_buffer s @ bs) s)"

fun feed_all :: "byte list list \<Rightarrow> ouch_session \<Rightarrow> (unit result \<times> ouch_session) option" where
  "feed_all [] s = Some (Inr (), s)"
| "feed_all (c # cs) s =
     (case feed c s of
        None \<Rightarrow> None
      | Some (Inl e, s1) \<Rightarrow> Some (Inl e, s1)
      | Some (Inr _, s1) \<Rightarrow> feed_all cs s1)"

lemma dispatch_frame_buffer:
  "dispatch_frame pk (with_buffer b s) = map_option (blind b) (dispatch_frame pk s)"
  by (simp add: dispatch_frame_def emit_buffer dispatch_packet_buffer)

lemma dispatch_all_buffer:
  "dispatch_all pks (with_buffer b s) = map_option (blind b) (dispatch_all pks s)"
  by (induction pks arbitrary: s)
    (auto simp: dispatch_frame_buffer blind_def split: option.splits sum.splits)

text \<open>One packet at the front of the buffer.\<close>

lemma parse_frame:
  assumes "framed (t, p)" "ss_in_buffer s = frame t p @ rest"
  shows "parse_pending s =
    (case dispatch_frame (t, p) s of
       None \<Rightarrow> None
     | Some (Inl e, s1) \<Rightarrow> Some (Inl e, with_buffer rest s1)
     | Some (Inr _, s1) \<Rightarrow> parse_pending (with_buffer rest s1))"
proof -
  have len: "length p < 65535" using assms(1) by (simp add: framed_def)
  have h: "front_header (ss_in_buffer s) = make_header t (word_of_nat (length p))"
    unfolding assms(2) frame_def front_header_def by (simp add: hdr.dec_enc wf_Header_def)
  have sz: "front_size (ss_in_buffer s) = length (frame t p)"
    using unat_make_header [OF len] by (simp add: front_size_def h)
  have pay: "payload_size (length (frame t p)) = length p"
    using len by (simp add: payload_size_ge)
  have buf: "take (length (frame t p)) (ss_in_buffer s) = frame t p"
    "drop (length (frame t p)) (ss_in_buffer s) = rest" "drop 3 (ss_in_buffer s) = p @ rest"
    "3 \<le> length (ss_in_buffer s)" "length (frame t p) \<le> length (ss_in_buffer s)"
    unfolding assms(2) frame_def by simp_all
  show ?thesis
    using parse_pending_packet [of s] buf(4,5)
    unfolding sz h hd_packet_type_make_header pay buf(1-3) dispatch_packet_append
      dispatch_frame_def fst_conv snd_conv by simp
qed

text \<open>A buffer that holds no complete packet is left for later.\<close>

lemma parse_partial:
  assumes "framed (t, p)" "b @ rest = frame t p" "rest \<noteq> []" "ss_in_buffer s = b"
  shows "parse_pending s = Some (Inr (), s)"
proof (cases "length b < 3")
  case True
  then show ?thesis using assms(4) by (intro parse_pending_short) simp
next
  case False
  have len: "length p < 65535" using assms(1) by (simp add: framed_def)
  have "take 3 b = enc_Header (make_header t (word_of_nat (length p)))"
    using False arg_cong [OF assms(2), of "take 3"] by (simp add: frame_def)
  moreover have "length b < length p + 3"
    using arg_cong [OF assms(2), of length] assms(3) by (cases rest) auto
  ultimately show ?thesis
    using assms(4) unat_make_header [OF len, of t]
    by (intro parse_pending_short) (simp add: front_size_def front_header_def hdr.dec_enc wf_Header_def)
qed

lemma dispatch_all_in_buffer:
  "dispatch_all pks s = Some (r, s') \<Longrightarrow> ss_in_buffer s' = ss_in_buffer s"
  using dispatch_all_buffer [of pks "ss_in_buffer s" s] by simp (metis with_buffer_simps(1))

lemma dispatch_all_Cons:
  assumes "dispatch_all (pk # pks) s = Some (Inr (), s')"
  obtains s1 where "dispatch_frame pk s = Some (Inr (), s1)" "dispatch_all pks s1 = Some (Inr (), s')"
  using assms by (auto split: option.splits sum.splits)

lemma frame_nonempty [simp]: "frame t p \<noteq> []"
  using length_frame [of t p] by (metis list.size(3) add_is_0 zero_neq_numeral)

lemma frames_empty_iff: "frames pks = [] \<longleftrightarrow> pks = []"
  by (cases pks) auto

text \<open>One chunk: the parser dispatches the packets it completes and keeps the rest.\<close>

lemma parse_step:
  assumes "\<forall>pk \<in> set pks. framed pk" "ss_in_buffer s @ rest = frames pks"
    "dispatch_all pks s = Some (Inr (), s')"
  shows "\<exists>s1 qs. parse_pending s = Some (Inr (), s1) \<and> set qs \<subseteq> set pks
    \<and> ss_in_buffer s1 @ rest = frames qs \<and> (rest = [] \<longrightarrow> qs = [])
    \<and> dispatch_all qs s1 = Some (Inr (), with_buffer (ss_in_buffer s1) s')"
  using assms
proof (induction pks arbitrary: s s')
  case Nil
  then show ?case
    by (intro exI [of _ s] exI [of _ "[]"]) (auto simp: parse_pending_short with_buffer_def)
next
  case (Cons pk pks)
  obtain t p where pk: "pk = (t, p)" by (cases pk)
  obtain s1 where d: "dispatch_frame pk s = Some (Inr (), s1)" "dispatch_all pks s1 = Some (Inr (), s')"
    by (rule dispatch_all_Cons [OF Cons.prems(3)])
  show ?case
  proof (cases "length (frame t p) \<le> length (ss_in_buffer s)")
    case True
    have "take (length (frame t p)) (ss_in_buffer s @ rest) = frame t p"
      "drop (length (frame t p)) (ss_in_buffer s @ rest) = frames pks"
      unfolding Cons.prems(2) pk by simp_all
    then have tk: "take (length (frame t p)) (ss_in_buffer s) = frame t p"
      and dr: "drop (length (frame t p)) (ss_in_buffer s) @ rest = frames pks"
      using True by (simp_all del: length_frame)
    define b where "b = drop (length (frame t p)) (ss_in_buffer s)"
    have split: "frame t p @ b = ss_in_buffer s"
      using append_take_drop_id [of "length (frame t p)" "ss_in_buffer s"] unfolding tk b_def .
    have b: "ss_in_buffer s = frame t p @ b" by (rule split [symmetric])
    have b_rest: "b @ rest = frames pks" unfolding b_def by (rule dr)
    let ?s1 = "with_buffer b s1"
    have "dispatch_all pks ?s1 = Some (Inr (), with_buffer b s')"
      using d(2) by (simp add: dispatch_all_buffer)
    then obtain s2 qs where st: "parse_pending ?s1 = Some (Inr (), s2)" "set qs \<subseteq> set pks"
      "ss_in_buffer s2 @ rest = frames qs" "rest = [] \<longrightarrow> qs = []"
      "dispatch_all qs s2 = Some (Inr (), with_buffer (ss_in_buffer s2) s')"
      using Cons.IH [of ?s1 "with_buffer b s'"] Cons.prems(1) b_rest by auto
    have "parse_pending s = parse_pending ?s1"
      using parse_frame [OF _ b] Cons.prems(1) d(1) pk by simp
    then show ?thesis using st by (intro exI [of _ s2] exI [of _ qs]) (simp add: subset_insertI2)
  next
    case False
    have "ss_in_buffer s @ rest = frame t p @ frames pks" using Cons.prems(2) pk by simp
    then obtain r where "ss_in_buffer s = frame t p @ r \<and> r @ rest = frames pks
        \<or> ss_in_buffer s @ r = frame t p \<and> rest = r @ frames pks"
      unfolding append_eq_append_conv2 by blast
    with False have r: "frame t p = ss_in_buffer s @ r" "rest = r @ frames pks" by auto
    have "r \<noteq> []" using False r(1) by (metis append_Nil2 order_refl)
    note r = r this
    have "parse_pending s = Some (Inr (), s)"
      using parse_partial [of t p "ss_in_buffer s" r s] Cons.prems(1) pk r by simp
    moreover have "s' = with_buffer (ss_in_buffer s) s'"
      using dispatch_all_in_buffer [OF Cons.prems(3)] by (metis with_buffer_simps(3))
    ultimately show ?thesis
      using Cons.prems r(2,3) by (intro exI [of _ s] exI [of _ "pk # pks"]) auto
  qed
qed

lemma feed_all_frames:
  assumes "\<forall>pk \<in> set pks. framed pk" "ss_in_buffer s @ concat cs = frames pks"
    "dispatch_all pks s = Some (Inr (), s')" "concat cs = [] \<longrightarrow> pks = []"
  shows "feed_all cs s = Some (Inr (), with_buffer [] s')"
  using assms
proof (induction cs arbitrary: s s' pks)
  case Nil
  then have "pks = []" "ss_in_buffer s = []" by simp_all
  then show ?case using Nil(3) by (simp add: with_buffer_def)
next
  case (Cons c cs)
  let ?s = "with_buffer (ss_in_buffer s @ c) s"
  have "dispatch_all pks ?s = Some (Inr (), with_buffer (ss_in_buffer s @ c) s')"
    using Cons.prems(3) by (simp add: dispatch_all_buffer)
  then obtain s1 qs where st: "parse_pending ?s = Some (Inr (), s1)" "set qs \<subseteq> set pks"
    "ss_in_buffer s1 @ concat cs = frames qs" "concat cs = [] \<longrightarrow> qs = []"
    "dispatch_all qs s1 = Some (Inr (), with_buffer (ss_in_buffer s1) s')"
    using parse_step [of pks ?s "concat cs"] Cons.prems(1,2) by auto
  have "feed_all cs s1 = Some (Inr (), with_buffer [] s')"
    using Cons.IH [OF _ st(3,5,4)] st(2) Cons.prems(1) by (auto simp del: concat_eq_Nil_conv)
  then show ?case using st(1) by (simp add: feed_def)
qed

section \<open>Reading within the received bytes\<close>

text \<open>Every length field met when cutting the buffer counts at least the type byte.\<close>

function honest :: "byte list \<Rightarrow> bool" where
  "honest bs \<longleftrightarrow>
     (if length bs < 3 then True
      else 1 \<le> unat (hd_length (front_header bs))
        \<and> (if length bs < front_size bs then True else honest (drop (front_size bs) bs)))"
  by pat_completeness auto
termination by (relation "measure length") (auto simp: drop_front_less)

declare honest.simps [simp del]

lemma dispatch_packet_within:
  assumes "n \<le> length p"
  shows "dispatch_packet ty p n s \<noteq> None"
proof -
  have "dispatch_packet ty (take n p @ drop n p) (length (take n p)) s \<noteq> None"
    unfolding dispatch_packet_append by (rule dispatch_packet_defined)
  then show ?thesis using assms by simp
qed

lemma parse_pending_defined: "honest (ss_in_buffer s) \<Longrightarrow> parse_pending s \<noteq> None"
proof (induction "length (ss_in_buffer s)" arbitrary: s rule: less_induct)
  case less
  let ?b = "ss_in_buffer s" and ?n = "front_size (ss_in_buffer s)"
  let ?s = "emit on_audit_recv (AuditRecv (take ?n ?b) (ss_assigned_session s) (ss_next_inbound_seq s)) s"
  show ?case
  proof (cases "length ?b < 3 \<or> length ?b < ?n")
    case True
    then show ?thesis by (simp add: parse_pending_short)
  next
    case False
    have h: "3 \<le> ?n" "honest (drop ?n ?b)"
      using less.prems False honest.simps [of ?b] by (auto simp: front_size_def)
    have "?n < 2 ^ 64" using unat_bound_16 [of "hd_length (front_header ?b)"] by (simp add: front_size_def)
    then have pay: "payload_size ?n = ?n - 3" using h(1) by (intro payload_size_ge)
    let ?d = "dispatch_packet (hd_packet_type (front_header ?b)) (drop 3 ?b) (payload_size ?n) ?s"
    have "?d \<noteq> None"
      unfolding pay using False by (intro dispatch_packet_within) (simp add: diff_le_mono)
    then obtain r s1 where d: "?d = Some (r, s1)" by auto
    have "parse_pending (with_buffer (drop ?n ?b) s1) \<noteq> None"
      using h False by (intro less.hyps) auto
    then show ?thesis
      using parse_pending_packet [of s] False d by (cases r) simp_all
  qed
qed

section \<open>Properties\<close>

text \<open>
  C3: Chunking independence. Let a byte stream be a sequence of packets that the handlers
  accept one by one. However the kernel cuts the stream into chunks, feeding the chunks to the
  parser makes the same callbacks and leaves the same session as dispatching the packets one
  by one, with nothing left in the receive buffer.
\<close>

theorem chunked_parsing:
  assumes "\<forall>pk \<in> set pks. framed pk" "ss_in_buffer s = []" "concat cs = frames pks"
    "dispatch_all pks s = Some (Inr (), s')"
  shows "feed_all cs s = Some (Inr (), s')"
proof -
  have "ss_in_buffer s' = []" using dispatch_all_in_buffer [OF assms(4)] assms(2) by simp
  then have "with_buffer [] s' = s'" by (metis with_buffer_simps(3))
  moreover have "concat cs = [] \<longrightarrow> pks = []" using assms(3) frames_empty_iff by metis
  ultimately show ?thesis using feed_all_frames [of pks s cs s'] assms by simp
qed

text \<open>
  C7: The parser stays within the received bytes as long as every length field counts the
  type byte, whatever the packet types and payloads are.
\<close>

theorem parse_within_buffer:
  assumes "honest (ss_in_buffer s)"
  shows "\<exists>r s'. parse_pending s = Some (r, s')"
  using parse_pending_defined [OF assms] by auto

text \<open>
  C33: A zero length field breaks it: on the three bytes of a login answer or of a data packet
  with length 0 the payload length wraps around, the size checks pass, and the parser reads
  bytes that were never received.
\<close>

theorem zero_length_packet_overread:
  assumes "ss_in_buffer s = [0, 0, byte_of_char ty]" "ty \<in> {kLoginAccepted, kLoginRejected, kSequencedData}"
  shows "parse_pending s = None"
proof -
  have h: "front_header (ss_in_buffer s) = \<lparr>hd_length = 0, hd_packet_type = ty\<rparr>"
    unfolding assms(1) by (simp add: front_header_def dec_Header_def slice_at_def dec_char_def of_be_bytes_def)
  have sz: "front_size (ss_in_buffer s) = 2" by (simp add: front_size_def h)
  have big: "\<not> (2 :: nat) ^ 64 - 1 < 30" "(2 :: nat) ^ 64 - 1 \<noteq> 0" "1 \<le> (2 :: nat) ^ 64 - 1" by simp_all
  have "dispatch_packet ty [] (2 ^ 64 - 1) s1 = None" for s1
    using assms(2) big
    by (auto simp: dispatch_packet_def login_accepted_def login_rejected_def dispatch_ouch_def
        peek_def soup_len_defs pkt_defs Let_def)
  moreover have "drop 3 (ss_in_buffer s) = []" unfolding assms(1) by simp
  moreover have "length (ss_in_buffer s) = 3" unfolding assms(1) by simp
  ultimately show ?thesis
    using parse_pending_packet [of s] unfolding sz h payload_size_2 by simp
qed

text \<open>A session with every callback installed, on an open socket.\<close>

definition all_handlers :: handlers where
  "all_handlers =
     \<lparr>on_accepted = True, on_rejected = True, on_replaced = True, on_canceled = True,
      on_executed = True, on_mass_quote_ack = True, on_mass_quote_reject = True,
      on_state_change = True, on_audit_sent = True, on_audit_recv = True\<rparr>"

definition sample_session :: ouch_session where
  "sample_session =
     session_init \<lparr>sk_open = True, sk_sends = [], sk_recvs = [], sk_wire = []\<rparr> all_handlers
       \<lparr>lp_username = ''MEM1'', lp_password = ''secret'', lp_requested_session = [],
        lp_requested_sequence = 12\<rparr>
       kHeartbeatSendNs kHeartbeatTimeoutNs \<lparr>ck_now = 5, ck_later = []\<rparr>"

theorem chunked_parsing_witness:
  "feed_all [[0], [1, 72, 0, 1], [72]] sample_session =
   Some (Inr (), sample_session\<lparr>ss_msgs_recv := 2,
     ss_events := [AuditRecv [0, 1, 72] [] 0, AuditRecv [0, 1, 72] [] 0]\<rparr>)"
proof (rule chunked_parsing [of "[(kServerHeartbeat, []), (kServerHeartbeat, [])]"])
  have f: "frame kServerHeartbeat [] = [0, 1, 72]" by code_simp
  show "concat [[0], [1, 72, 0, 1], [72]] = frames [(kServerHeartbeat, []), (kServerHeartbeat, [])]"
    by (simp add: f)
  show "dispatch_all [(kServerHeartbeat, []), (kServerHeartbeat, [])] sample_session =
      Some (Inr (), sample_session\<lparr>ss_msgs_recv := 2,
        ss_events := [AuditRecv [0, 1, 72] [] 0, AuditRecv [0, 1, 72] [] 0]\<rparr>)"
    by (simp add: dispatch_frame_def f [unfolded pkt_defs] dispatch_packet_def pkt_defs Let_def
        emit_def sample_session_def session_init_def all_handlers_def)
qed (simp_all add: framed_def sample_session_def session_init_def)

theorem parse_within_buffer_witness:
  "\<exists>r s'. parse_pending (with_buffer [0, 1, 72, 0, 9] sample_session) = Some (r, s')"
proof (rule parse_within_buffer)
  have "honest [0, 1, 72, 0, 9]" by code_simp
  then show "honest (ss_in_buffer (with_buffer [0, 1, 72, 0, 9] sample_session))" by simp
qed

theorem zero_length_packet_overread_witness:
  "parse_pending (with_buffer [0, 0, 65] sample_session) = None"
proof (rule zero_length_packet_overread)
  have "byte_of_char kLoginAccepted = 65" by code_simp
  then show "ss_in_buffer (with_buffer [0, 0, 65] sample_session) = [0, 0, byte_of_char kLoginAccepted]"
    by simp
qed simp

end
