(* ===== verification/Session_Contract.thy ===== *)
theory Session_Contract
  imports Session_Parse
begin

text \<open>
  What the session promises its callers: where the bytes of a write go, what each send
  operation puts on the wire, what the login request really asks for, when the timers fire,
  and how the states follow each other. Every statement quantifies over the socket, so over
  every sequence of answers the kernel may give.
\<close>

section \<open>Where the bytes go\<close>

text \<open>Everything but the socket and the stash is untouched by the send loop.\<close>

definition sent_part :: "byte list \<Rightarrow> ouch_session \<Rightarrow> bool result \<Rightarrow> ouch_session \<Rightarrow> bool" where
  "sent_part rest s r s' \<longleftrightarrow>
     (\<exists>k \<le> length rest. sk_wire (ss_socket s') = sk_wire (ss_socket s) @ take k rest
       \<and> (r = Inr True \<longrightarrow> k = length rest)
       \<and> ss_out_pending s' = ss_out_pending s @ (if r = Inr False then drop k rest else [])
       \<and> s' = s\<lparr>ss_socket := ss_socket s', ss_out_pending := ss_out_pending s'\<rparr>
       \<and> sk_open (ss_socket s') = sk_open (ss_socket s))"

lemma send_loop_account: "send_loop rest s = (r, s') \<Longrightarrow> sent_part rest s r s'"
proof (induction rest s arbitrary: r s' rule: send_loop.induct)
  case (1 rest s)
  show ?case
  proof (cases "rest = []")
    case True
    then show ?thesis using "1.prems" by (auto simp: send_loop.simps sent_part_def)
  next
    case False
    obtain x k where snd: "socket_send rest (ss_socket s) = (x, k)" by (cases "socket_send rest (ss_socket s)")
    have wire: "sk_wire k = sk_wire (ss_socket s) @ (case x of Inl _ \<Rightarrow> [] | Inr n \<Rightarrow> take n rest)"
      using socket_send_wire [of rest "ss_socket s"] snd by simp
    have opn: "sk_open k = sk_open (ss_socket s)"
      using socket_send_frame(1) [of rest "ss_socket s"] snd by simp
    show ?thesis
    proof (cases x)
      case (Inl e)
      then show ?thesis using False snd wire opn "1.prems"
        unfolding sent_part_def by (intro exI [of _ 0]) (auto simp: send_loop.simps [of rest])
    next
      case (Inr n)
      show ?thesis
      proof (cases "n = 0")
        case True
        then show ?thesis using False Inr snd wire opn "1.prems"
          unfolding sent_part_def by (intro exI [of _ 0]) (auto simp: send_loop.simps [of rest])
      next
        case n: False
        let ?s = "s\<lparr>ss_socket := k\<rparr>"
        have step: "send_loop (drop n rest) ?s = (r, s')"
          using False Inr snd n "1.prems" by (simp add: send_loop.simps [of rest])
        have "sent_part (drop n rest) ?s r s'" by (rule "1.IH" [OF False snd [symmetric] Inr n step])
        then obtain m where m: "m \<le> length (drop n rest)"
          "sk_wire (ss_socket s') = sk_wire (ss_socket ?s) @ take m (drop n rest)"
          "r = Inr True \<longrightarrow> m = length (drop n rest)"
          "ss_out_pending s' = ss_out_pending ?s @ (if r = Inr False then drop m (drop n rest) else [])"
          "s' = ?s\<lparr>ss_socket := ss_socket s', ss_out_pending := ss_out_pending s'\<rparr>"
          "sk_open (ss_socket s') = sk_open (ss_socket ?s)"
          unfolding sent_part_def by blast
        have le: "n \<le> length rest" using socket_send_le [of rest "ss_socket s" n] snd Inr by simp
        have "take n rest @ take m (drop n rest) = take (n + m) rest" by (simp add: take_add)
        then show ?thesis
          unfolding sent_part_def using m le Inr wire opn
          by (intro exI [of _ "n + m"]) (auto simp: add.commute)
      qed
    qed
  qed
qed

text \<open>A write that reports success has put a prefix on the wire and stashed the rest, which is
  empty unless the kernel answered \<open>EAGAIN\<close>.\<close>

lemma write_bytes_account:
  assumes "write_bytes buf s = (Inr (), s')"
  shows "\<exists>k \<le> length buf. sk_wire (ss_socket s') = sk_wire (ss_socket s) @ take k buf
    \<and> ss_out_pending s' = ss_out_pending s @ drop k buf
    \<and> ss_state s' = ss_state s \<and> sk_open (ss_socket s') = sk_open (ss_socket s)"
proof -
  obtain x s1 where l: "send_loop buf s = (x, s1)" by (cases "send_loop buf s")
  obtain b where b: "x = Inr b" using assms l by (auto simp: write_bytes_def split: sum.splits)
  obtain k where k: "k \<le> length buf" "sk_wire (ss_socket s1) = sk_wire (ss_socket s) @ take k buf"
    "x = Inr True \<longrightarrow> k = length buf"
    "ss_out_pending s1 = ss_out_pending s @ (if x = Inr False then drop k buf else [])"
    "s1 = s\<lparr>ss_socket := ss_socket s1, ss_out_pending := ss_out_pending s1\<rparr>"
    "sk_open (ss_socket s1) = sk_open (ss_socket s)"
    using send_loop_account [OF l] unfolding sent_part_def by blast
  have st: "ss_state s1 = ss_state s" by (subst k(5)) simp
  have "ss_socket s' = ss_socket s1 \<and> ss_out_pending s' = ss_out_pending s1 \<and> ss_state s' = ss_state s1"
    using assms l b by (cases b) (auto simp: write_bytes_def monotonic_ns_def Let_def split: prod.splits)
  then show ?thesis using k b st by (intro exI [of _ k]) (cases b; auto)
qed

lemma flush_account:
  "sk_wire (ss_socket (flush_pending s)) @ ss_out_pending (flush_pending s)
     = sk_wire (ss_socket s) @ ss_out_pending s"
proof (induction s rule: flush_pending.induct)
  case (1 s)
  show ?case
  proof (cases "ss_out_pending s = []")
    case True
    then show ?thesis by (simp add: flush_pending.simps)
  next
    case False
    obtain x k where snd: "socket_send (ss_out_pending s) (ss_socket s) = (x, k)"
      by (cases "socket_send (ss_out_pending s) (ss_socket s)")
    have wire: "sk_wire k = sk_wire (ss_socket s) @ (case x of Inl _ \<Rightarrow> [] | Inr n \<Rightarrow> take n (ss_out_pending s))"
      using socket_send_wire [of "ss_out_pending s" "ss_socket s"] snd by simp
    show ?thesis
    proof (cases x)
      case (Inl e)
      then show ?thesis using False snd wire by (simp add: flush_pending.simps [of s])
    next
      case (Inr n)
      show ?thesis
      proof (cases "n = 0")
        case True
        then show ?thesis using False Inr snd wire by (simp add: flush_pending.simps [of s])
      next
        case n: False
        show ?thesis
          using "1.IH" [OF False snd [symmetric] Inr n] False Inr snd wire n
          by (simp add: flush_pending.simps [of s])
      qed
    qed
  qed
qed

lemma flush_all:
  "sk_open (ss_socket s) \<Longrightarrow> sk_sends (ss_socket s) = [] \<Longrightarrow> ss_out_pending (flush_pending s) = []"
  by (subst flush_pending.simps) (simp add: socket_send_def flush_pending.simps)

text \<open>A kernel that takes everything.\<close>

lemma write_bytes_ready:
  assumes "sk_open (ss_socket s)" "sk_sends (ss_socket s) = []"
  shows "write_bytes buf s = (Inr (),
    (let s1 = (if buf = [] then s else s\<lparr>ss_socket := (ss_socket s)\<lparr>sk_wire := sk_wire (ss_socket s) @ buf\<rparr>\<rparr>);
         (t, s2) = monotonic_ns s1;
         s3 = emit on_audit_sent (AuditSent buf (ss_msgs_sent s)) (s2\<lparr>ss_last_send_ns := t\<rparr>)
     in s3\<lparr>ss_msgs_sent := ss_msgs_sent s3 + 1\<rparr>))"
proof -
  have "send_loop buf s = (Inr True,
      if buf = [] then s else s\<lparr>ss_socket := (ss_socket s)\<lparr>sk_wire := sk_wire (ss_socket s) @ buf\<rparr>\<rparr>)"
    using assms by (simp add: send_loop.simps [of buf] send_loop.simps [of "[]"] socket_send_def)
  then show ?thesis by (simp add: write_bytes_def Let_def split: prod.split)
qed

section \<open>The login request\<close>

lemma length_login_sequence_field [simp]: "length (login_sequence_field n) = 20"
  using length_dec_pad_ge [of 20 "unat n"] by (simp add: login_sequence_field_def kSequenceLen_def)

lemma login_sequence_field_value:
  "takeWhile (\<lambda>c. c \<noteq> CHR 0x00) (login_sequence_field n) = take 19 (dec_pad 20 (unat n))
   \<and> dec_val (take 19 (dec_pad 20 (unat n))) = unat n div 10"
proof -
  have n: "unat n < 10 ^ 20" using unat_bound_64 [of n] by simp
  have len: "length (dec_pad 20 (unat n)) = 20" using length_dec_pad [OF n] by simp
  have tk: "take 19 (dec_pad 20 (unat n)) = butlast (dec_pad 20 (unat n))"
    by (simp add: butlast_conv_take len)
  have dig: "list_all is_digit (take 19 (dec_pad 20 (unat n)))"
    using dec_pad_digits [of 20 "unat n"] by (auto simp: list_all_iff dest: in_set_takeD)
  then have "c \<noteq> CHR 0x00" if "c \<in> set (take 19 (dec_pad 20 (unat n)))" for c
    using that by (auto simp: list_all_iff is_digit_def)
  then have "takeWhile (\<lambda>c. c \<noteq> CHR 0x00) (login_sequence_field n) = take 19 (dec_pad 20 (unat n))"
    unfolding login_sequence_field_def kSequenceLen_def
    by (subst takeWhile_append2) simp_all
  moreover have "dec_val (take 19 (dec_pad 20 (unat n))) = unat n div 10"
    unfolding tk by (simp add: dec_val_butlast dec_pad_digits)
  ultimately show ?thesis ..
qed

lemma length_enc_LoginRequest [simp]: "length (enc_LoginRequest (login_request lp)) = 49"
  by (simp add: enc_LoginRequest_def login_request_def soup_len_defs)

text \<open>Offset 29, length 20: the field a server reads the requested sequence number from.\<close>

lemma login_request_sequence_bytes:
  "slice_at 29 20 (enc_LoginRequest (login_request lp))
     = bytes_of_string (login_sequence_field (lp_requested_sequence lp))"
  by (simp add: enc_LoginRequest_def login_request_def soup_len_defs layout_simps)

section \<open>The state machine\<close>

text \<open>The state a log of callbacks shows.\<close>

definition shown_state :: "event list \<Rightarrow> session_state" where
  "shown_state evs =
     foldl (\<lambda>st ev. case ev of StateChange st' _ \<Rightarrow> st' | _ \<Rightarrow> st) Disconnected evs"

definition session_inv :: "ouch_session \<Rightarrow> bool" where
  "session_inv s \<longleftrightarrow>
     (on_state_change (ss_handlers s) \<longrightarrow> shown_state (ss_events s) = ss_state s)
     \<and> (ss_state s = Active \<longrightarrow> length (ss_assigned_session s) = 10)"

text \<open>The calls an application may make, in any order, with the kernel and the clock free to
  change between them.\<close>

inductive session_step :: "ouch_session \<Rightarrow> ouch_session \<Rightarrow> bool" where
  login: "session_step s (snd (begin_login s))"
| send: "session_step s (snd (send_unsequenced payload s))"
| poll: "poll_io s = Some (r, s') \<Longrightarrow> session_step s s'"
| logout: "session_step s (snd (request_logout s))"
| environment: "session_step s (s\<lparr>ss_socket := k, ss_clock := c\<rparr>)"

inductive session_reach :: "ouch_session \<Rightarrow> ouch_session \<Rightarrow> bool" for s0 where
  start: "session_reach s0 s0"
| step: "session_reach s0 s \<Longrightarrow> session_step s s' \<Longrightarrow> session_reach s0 s'"

lemma shown_state_snoc [simp]:
  "shown_state (evs @ [ev]) = (case ev of StateChange st _ \<Rightarrow> st | _ \<Rightarrow> shown_state evs)"
  by (cases ev) (simp_all add: shown_state_def)

lemma session_inv_emit [simp]:
  "(\<And>st d. ev \<noteq> StateChange st d) \<Longrightarrow> session_inv (emit h ev s) \<longleftrightarrow> session_inv s"
  by (auto simp: session_inv_def emit_def split: event.splits)

lemma session_inv_set_state [simp]:
  "session_inv (set_state st d s) \<longleftrightarrow> (st = Active \<longrightarrow> length (ss_assigned_session s) = 10)"
  by (simp add: session_inv_def set_state_def emit_def)

lemma session_inv_fields [simp]:
  "session_inv (s\<lparr>ss_socket := k\<rparr>) \<longleftrightarrow> session_inv s"
  "session_inv (s\<lparr>ss_out_pending := p\<rparr>) \<longleftrightarrow> session_inv s"
  "session_inv (s\<lparr>ss_clock := c\<rparr>) \<longleftrightarrow> session_inv s"
  "session_inv (s\<lparr>ss_last_send_ns := t\<rparr>) \<longleftrightarrow> session_inv s"
  "session_inv (s\<lparr>ss_last_recv_ns := t\<rparr>) \<longleftrightarrow> session_inv s"
  "session_inv (s\<lparr>ss_msgs_sent := n\<rparr>) \<longleftrightarrow> session_inv s"
  "session_inv (s\<lparr>ss_msgs_recv := n\<rparr>) \<longleftrightarrow> session_inv s"
  "session_inv (s\<lparr>ss_next_inbound_seq := n\<rparr>) \<longleftrightarrow> session_inv s"
  "session_inv (s\<lparr>ss_last_login_reject_reason := r\<rparr>) \<longleftrightarrow> session_inv s"
  "session_inv (s\<lparr>ss_in_buffer := b\<rparr>) \<longleftrightarrow> session_inv s"
  "session_inv (with_buffer b s) \<longleftrightarrow> session_inv s"
  by (simp_all add: session_inv_def with_buffer_def)

lemma session_inv_monotonic [simp]: "session_inv (snd (monotonic_ns s)) \<longleftrightarrow> session_inv s"
  by (simp add: monotonic_ns_def Let_def case_prod_beta)

lemma session_inv_send_loop [simp]: "session_inv (snd (send_loop rest s)) \<longleftrightarrow> session_inv s"
proof -
  have "sent_part rest s (fst (send_loop rest s)) (snd (send_loop rest s))"
    by (rule send_loop_account) simp
  then obtain k p where s': "snd (send_loop rest s) = s\<lparr>ss_socket := k, ss_out_pending := p\<rparr>"
    unfolding sent_part_def by blast
  show ?thesis unfolding s' by simp
qed

lemma session_inv_write [simp]: "session_inv (snd (write_bytes buf s)) \<longleftrightarrow> session_inv s"
proof -
  have "session_inv (snd (write_bytes buf s)) \<longleftrightarrow> session_inv (snd (send_loop buf s))"
    by (simp add: write_bytes_def Let_def case_prod_beta split: sum.split bool.split)
  then show ?thesis by simp
qed

lemma session_inv_send [simp]: "session_inv (snd (send_unsequenced p s)) \<longleftrightarrow> session_inv s"
  by (auto simp: send_unsequenced_def case_prod_beta split: sum.split)

lemma session_inv_flush [simp]: "session_inv (flush_pending s) \<longleftrightarrow> session_inv s"
proof (induction s rule: flush_pending.induct)
  case (1 s)
  then show ?case by (subst flush_pending.simps) (simp split: prod.split sum.split)
qed

lemma session_inv_read: "session_inv s \<Longrightarrow> session_inv (snd (read_some s))"
proof (induction s rule: read_some.induct)
  case (1 s)
  obtain x k where r: "socket_recv 8192 (ss_socket s) = (x, k)" by (cases "socket_recv 8192 (ss_socket s)")
  show ?case
  proof (cases "sk_open (ss_socket s)")
    case False
    then show ?thesis using "1.prems" by (simp add: read_some.simps [of s])
  next
    case True
    show ?thesis
    proof (cases x)
      case (Inl e)
      then show ?thesis using True r "1.prems" by (simp add: read_some.simps [of s] Let_def)
    next
      case (Inr bs)
      let ?m = "monotonic_ns (s\<lparr>ss_socket := k, ss_in_buffer := ss_in_buffer s @ bs\<rparr>)"
      have "session_inv (snd ?m)" using "1.prems" by simp
      then have "bs \<noteq> [] \<Longrightarrow> session_inv (snd (read_some (snd ?m\<lparr>ss_last_recv_ns := fst ?m\<rparr>)))"
        using "1.IH" [OF _ r [symmetric] Inr _ prod.collapse] True by simp
      then show ?thesis using True r Inr "1.prems"
        by (simp add: read_some.simps [of s] Let_def case_prod_beta)
    qed
  qed
qed

lemma session_inv_dispatch:
  assumes "session_inv s" "dispatch_packet ty p n s = Some (r, s')"
  shows "session_inv s'"
proof -
  have msg: "session_inv s'" if "dispatch_msg sz h ev t p n s0 = Some (r, s')" "session_inv s0"
    "\<And>m st d. ev m \<noteq> StateChange st d" for sz h ev t s0
    using that by (auto simp: dispatch_msg_def split: if_splits)
  have ouch: "session_inv s'" if "dispatch_ouch p n s0 = Some (r, s')" "session_inv s0" for s0
    using that unfolding dispatch_ouch_def
    by (auto simp: Let_def split: if_splits option.splits dest: msg)
  have acc: "session_inv s'" if "login_accepted p s0 = Some (r, s')" for s0
    using that by (auto simp: login_accepted_def peek_def slice_at_def soup_len_defs split: option.splits if_splits)
  have rej: "session_inv s'" if "login_rejected p n s0 = Some (r, s')" for s0
    using that by (auto simp: login_rejected_def split: if_splits)
  show ?thesis
    using assms unfolding dispatch_packet_def
    by (auto simp: Let_def split: if_splits dest: ouch acc rej)
qed

lemma session_inv_parse: "session_inv s \<Longrightarrow> parse_pending s = Some (r, s') \<Longrightarrow> session_inv s'"
proof (induction "length (ss_in_buffer s)" arbitrary: s rule: less_induct)
  case less
  let ?b = "ss_in_buffer s" and ?n = "front_size (ss_in_buffer s)"
  let ?s = "emit on_audit_recv (AuditRecv (take ?n ?b) (ss_assigned_session s) (ss_next_inbound_seq s)) s"
  show ?case
  proof (cases "length ?b < 3 \<or> length ?b < ?n")
    case True
    then show ?thesis using less.prems by (simp add: parse_pending_short)
  next
    case False
    let ?d = "dispatch_packet (hd_packet_type (front_header ?b)) (drop 3 ?b) (payload_size ?n) ?s"
    obtain x s1 where d: "?d = Some (x, s1)"
      using parse_pending_packet [of s] False less.prems(2) by (cases ?d) auto
    have "session_inv s1" using less.prems(1) by (intro session_inv_dispatch [OF _ d]) simp
    then show ?thesis
      using parse_pending_packet [of s] False less.prems(2) d drop_front_less [of ?b]
        less.hyps [of "with_buffer (drop ?n ?b) s1"] by (cases x) auto
  qed
qed

lemma session_inv_tick: "session_inv s \<Longrightarrow> session_inv (snd (tick_timers s))"
  by (auto simp: tick_timers_def watchdog_def Let_def case_prod_beta split: sum.split)

lemma session_inv_step: "session_step s s' \<Longrightarrow> session_inv s \<Longrightarrow> session_inv s'"
proof (induction rule: session_step.induct)
  case (login s)
  then show ?case by (simp add: begin_login_def)
next
  case (poll s r s')
  have "session_inv (snd (read_some s))" by (rule session_inv_read [OF poll.prems])
  with poll.hyps show ?case
    by (auto simp: poll_io_def split: prod.splits sum.splits option.splits
        dest: session_inv_parse intro: session_inv_tick dest!: sym [of "tick_timers _"])
      (metis session_inv_parse session_inv_tick snd_conv)+
next
  case (logout s)
  then show ?case by (simp add: request_logout_def)
qed simp_all

lemma session_reach_inv: "session_reach s0 s \<Longrightarrow> session_inv s0 \<Longrightarrow> session_inv s"
  by (induction rule: session_reach.induct) (auto intro: session_inv_step)

section \<open>Counters\<close>

lemma dispatch_msg_counters:
  "dispatch_msg sz h ev t p n s = Some (r, s') \<Longrightarrow>
     ss_next_inbound_seq s' = ss_next_inbound_seq s \<and> ss_msgs_recv s' = ss_msgs_recv s"
  by (auto simp: dispatch_msg_def split: if_splits)

lemma dispatch_ouch_counters:
  "dispatch_ouch p n s = Some (r, s') \<Longrightarrow>
     ss_next_inbound_seq s' = ss_next_inbound_seq s \<and> ss_msgs_recv s' = ss_msgs_recv s"
  unfolding dispatch_ouch_def
  by (auto simp: Let_def split: if_splits option.splits dest: dispatch_msg_counters)

lemma dispatch_packet_counters:
  assumes "dispatch_packet t p n s = Some (r, s')" "t \<noteq> kLoginAccepted"
  shows "ss_next_inbound_seq s' = ss_next_inbound_seq s + (if t = kSequencedData then 1 else 0)
    \<and> ss_msgs_recv s' = ss_msgs_recv s + 1"
  using assms unfolding dispatch_packet_def login_rejected_def
  by (auto simp: Let_def pkt_defs split: if_splits dest!: dispatch_ouch_counters)

lemma dispatch_all_counters:
  "dispatch_all pks s = Some (Inr (), s') \<Longrightarrow> kLoginAccepted \<notin> fst ` set pks \<Longrightarrow>
     ss_next_inbound_seq s' = ss_next_inbound_seq s + word_of_nat (length (filter (\<lambda>pk. fst pk = kSequencedData) pks))
     \<and> ss_msgs_recv s' = ss_msgs_recv s + word_of_nat (length pks)"
proof (induction pks arbitrary: s)
  case Nil
  then show ?case by simp
next
  case (Cons pk pks)
  obtain s1 where s1: "dispatch_frame pk s = Some (Inr (), s1)" "dispatch_all pks s1 = Some (Inr (), s')"
    by (rule dispatch_all_Cons [OF Cons.prems(1)])
  have "ss_next_inbound_seq s1 = ss_next_inbound_seq s + (if fst pk = kSequencedData then 1 else 0)
    \<and> ss_msgs_recv s1 = ss_msgs_recv s + 1"
    using dispatch_packet_counters [OF s1(1) [unfolded dispatch_frame_def]] Cons.prems(2) by auto
  then show ?case using Cons.IH [OF s1(2)] Cons.prems(2) by (auto simp: algebra_simps)
qed

section \<open>Properties\<close>

text \<open>
  A message sent on an active session whose kernel takes all bytes appears on the wire as
  one unsequenced data packet holding exactly the message, after what was sent before; the
  send counter advances by two, since it counts writes. On a session in any other state the
  same call changes nothing.
\<close>

lemma send_delivers_frame:
  assumes "sk_open (ss_socket s)" "sk_sends (ss_socket s) = []" "payload \<noteq> []"
  shows "if ss_state s = Active
    then fst (send_unsequenced payload s) = Inr ()
      \<and> sk_wire (ss_socket (snd (send_unsequenced payload s)))
          = sk_wire (ss_socket s) @ frame kUnsequencedData payload
      \<and> ss_msgs_sent (snd (send_unsequenced payload s)) = ss_msgs_sent s + 2
    else send_unsequenced payload s = (Inl (make_error StateMismatch ''session not Active''), s)"
  using assms
  by (auto simp: send_unsequenced_def write_bytes_ready monotonic_ns_def Let_def case_prod_beta frame_def)

text \<open>
  C30: Writes lose nothing. If nothing is stashed, a write that reports success leaves exactly
  the bytes of the buffer split between the wire and the stash, whatever the kernel answered;
  and flushing the stash, whatever the kernel answers then, keeps the stream.
\<close>

theorem write_keeps_stream:
  assumes "ss_out_pending s = []" "write_bytes buf s = (Inr (), s')"
  shows "sk_wire (ss_socket s') @ ss_out_pending s' = sk_wire (ss_socket s) @ buf
    \<and> sk_wire (ss_socket (flush_pending s')) @ ss_out_pending (flush_pending s') = sk_wire (ss_socket s) @ buf"
  using write_bytes_account [OF assms(2)] assms(1) by (auto simp: flush_account)

text \<open>
  C34: Writes do not wait for the stash. When the kernel answers \<open>EAGAIN\<close> to the packet header
  and has room again for the payload, the payload goes out first: the header is stashed, the
  call reports success, and flushing then delivers the packet's bytes in the wrong order.
\<close>

theorem eagain_reorders_packet:
  assumes "ss_state s = Active" "sk_open (ss_socket s)" "sk_sends (ss_socket s) = [SendAgain]"
    "ss_out_pending s = []" "payload \<noteq> []"
  shows "\<exists>s'. send_unsequenced payload s = (Inr (), s')
    \<and> ss_out_pending s' = enc_Header (make_header kUnsequencedData (word_of_nat (length payload)))
    \<and> sk_wire (ss_socket (flush_pending s')) = sk_wire (ss_socket s) @ payload
        @ enc_Header (make_header kUnsequencedData (word_of_nat (length payload)))"
proof -
  let ?h = "enc_Header (make_header kUnsequencedData (word_of_nat (length payload)))"
  let ?s = "s\<lparr>ss_socket := (ss_socket s)\<lparr>sk_sends := []\<rparr>, ss_out_pending := ?h\<rparr>"
  have ne: "?h \<noteq> []" using length_enc_Header by (metis list.size(3) zero_neq_numeral)
  have "send_loop ?h s = (Inr False, ?s)"
    using assms ne by (simp add: send_loop.simps [of ?h] socket_send_def)
  then have h: "write_bytes ?h s = (Inr (), ?s)" by (simp add: write_bytes_def)
  have p: "write_bytes payload ?s = (Inr (), snd (write_bytes payload ?s))"
    "sk_wire (ss_socket (snd (write_bytes payload ?s))) = sk_wire (ss_socket s) @ payload"
    "ss_out_pending (snd (write_bytes payload ?s)) = ?h"
    "sk_open (ss_socket (snd (write_bytes payload ?s)))"
    "sk_sends (ss_socket (snd (write_bytes payload ?s))) = []"
    using assms write_bytes_ready [of ?s payload] by (simp_all add: monotonic_ns_def Let_def case_prod_beta)
  have "send_unsequenced payload s = write_bytes payload ?s"
    using assms(1) by (simp add: send_unsequenced_def h)
  then show ?thesis
    using p flush_account [of "snd (write_bytes payload ?s)"] flush_all [OF p(4,5)]
    by (intro exI [of _ "snd (write_bytes payload ?s)"]) simp
qed

text \<open>
  The login request asks for the wrong sequence number: the 20-byte field of the packet
  holds 19 digits and a NUL, and the number a reader of the field finds is a tenth of the
  configured one.
\<close>

lemma login_requests_a_tenth:
  assumes "sk_open (ss_socket s)" "sk_sends (ss_socket s) = []"
  shows "\<exists>s' field. begin_login s = (Inr (), s') \<and> ss_state s' = LoggingIn
    \<and> slice_at (length (sk_wire (ss_socket s)) + 29) 20 (sk_wire (ss_socket s')) = bytes_of_string field
    \<and> last field = CHR 0x00
    \<and> dec_val (takeWhile (\<lambda>c. c \<noteq> CHR 0x00) field) = unat (lp_requested_sequence (ss_login s)) div 10"
proof -
  let ?q = "enc_LoginRequest (login_request (ss_login s))"
  let ?s = "set_state LoggingIn ''sending LoginRequest'' s"
  have ne: "?q \<noteq> []" using length_enc_LoginRequest by (metis list.size(3) zero_neq_numeral)
  have w: "fst (begin_login s) = Inr ()" "ss_state (snd (begin_login s)) = LoggingIn"
    "sk_wire (ss_socket (snd (begin_login s))) = sk_wire (ss_socket s) @ ?q"
    using assms ne write_bytes_ready [of ?s ?q]
    by (simp_all add: begin_login_def monotonic_ns_def Let_def case_prod_beta)
  have "slice_at (length (sk_wire (ss_socket s)) + 29) 20 (sk_wire (ss_socket s) @ ?q) = slice_at 29 20 ?q"
    by (simp add: slice_at_def)
  then show ?thesis
    using w login_request_sequence_bytes login_sequence_field_value [of "lp_requested_sequence (ss_login s)"]
    by (intro exI [of _ "snd (begin_login s)"] exI [of _ "login_sequence_field (lp_requested_sequence (ss_login s))"])
      (simp add: prod_eq_iff login_sequence_field_def)
qed

text \<open>
  The timers of an active session with an empty stash and a kernel that takes all bytes.
  At clock reading \<open>now\<close> a heartbeat packet goes out iff nothing was sent for the configured
  interval, and the session fails with a timeout iff it has received something before and
  nothing for the configured timeout; otherwise it stays active.
\<close>

lemma timers_fire:
  assumes "ss_state s = Active" "ss_out_pending s = []" "sk_open (ss_socket s)" "sk_sends (ss_socket s) = []"
    "now = ck_now (ss_clock s)"
  shows "sk_wire (ss_socket (snd (tick_timers s))) = sk_wire (ss_socket s)
      @ (if now - ss_last_send_ns s \<ge> ucast (ss_heartbeat_send_ns s)
         then enc_Header (make_header kClientHeartbeat 0) else [])
    \<and> (if ss_last_recv_ns s \<noteq> 0 \<and> now - ss_last_recv_ns s \<ge> ucast (ss_heartbeat_timeout_ns s)
       then ss_state (snd (tick_timers s)) = Failed
         \<and> fst (tick_timers s) = Inl (make_error Timeout ''heartbeat watchdog tripped'')
       else ss_state (snd (tick_timers s)) = Active \<and> fst (tick_timers s) = Inr ())"
  using assms
  by (simp add: tick_timers_def flush_pending.simps [of s] watchdog_def monotonic_ns_def Let_def
      case_prod_beta write_bytes_ready read_clock_def)

text \<open>
  C6: Along any run of calls, with the kernel and the clock free to change at every step, the
  last state reported to \<open>on_state_change\<close> is the session's state, and an active session holds
  the ten-character session id its server assigned.
\<close>

theorem session_states:
  assumes "session_reach (session_init k h lp snd_ns tmo_ns ck) s"
  shows "(on_state_change (ss_handlers s) \<longrightarrow> shown_state (ss_events s) = ss_state s)
    \<and> (ss_state s = Active \<longrightarrow> length (ss_assigned_session s) = 10)"
proof -
  have "session_inv (session_init k h lp snd_ns tmo_ns ck)"
    by (simp add: session_inv_def session_init_def shown_state_def)
  from session_reach_inv [OF assms this] show ?thesis by (simp add: session_inv_def)
qed

text \<open>
  The inbound sequence number counts the sequenced packets since the login answer, and
  the receive counter all packets.
\<close>

lemma inbound_sequence_counts:
  assumes "dispatch_all pks s = Some (Inr (), s')" "kLoginAccepted \<notin> fst ` set pks"
  shows "ss_next_inbound_seq s' = ss_next_inbound_seq s
      + word_of_nat (length (filter (\<lambda>pk. fst pk = kSequencedData) pks))
    \<and> ss_msgs_recv s' = ss_msgs_recv s + word_of_nat (length pks)"
  by (rule dispatch_all_counters [OF assms])

section \<open>Witnesses\<close>

lemma sample_simps [simp]:
  "sk_open (ss_socket sample_session)" "sk_sends (ss_socket sample_session) = []"
  "sk_wire (ss_socket sample_session) = []" "ss_out_pending sample_session = []"
  "ss_clock sample_session = \<lparr>ck_now = 5, ck_later = []\<rparr>"
  "ss_last_recv_ns sample_session = 0" "ss_last_send_ns sample_session = 0"
  "ss_heartbeat_send_ns sample_session = kHeartbeatSendNs"
  "lp_requested_sequence (ss_login sample_session) = 12" "ss_msgs_recv sample_session = 0"
  "ss_last_recv_ns (sample_session\<lparr>ss_state := st, ss_last_recv_ns := 7\<rparr>) = 7"
  "ss_heartbeat_timeout_ns sample_session = kHeartbeatTimeoutNs"
  by (simp_all add: sample_session_def session_init_def)

theorem write_keeps_stream_witness:
  "\<exists>s'. write_bytes [1, 2, 3] (sample_session\<lparr>ss_socket := (ss_socket sample_session)\<lparr>sk_sends := [Wrote 2, SendAgain]\<rparr>\<rparr>)
      = (Inr (), s') \<and> sk_wire (ss_socket s') @ ss_out_pending s' = [1, 2, 3]"
proof -
  let ?s = "sample_session\<lparr>ss_socket := (ss_socket sample_session)\<lparr>sk_sends := [Wrote 2, SendAgain]\<rparr>\<rparr>"
  have "fst (write_bytes [1, 2, 3] ?s) = Inr ()"
    by (simp add: write_bytes_def send_loop.simps socket_send_def)
  then have w: "write_bytes [1, 2, 3] ?s = (Inr (), snd (write_bytes [1, 2, 3] ?s))" by (simp add: prod_eq_iff)
  show ?thesis using write_keeps_stream [OF _ w] w by (intro exI [of _ "snd (write_bytes [1, 2, 3] ?s)"]) simp
qed

theorem eagain_reorders_packet_witness:
  "\<exists>s'. send_unsequenced [88] (sample_session\<lparr>ss_state := Active,
       ss_socket := (ss_socket sample_session)\<lparr>sk_sends := [SendAgain]\<rparr>\<rparr>) = (Inr (), s')
     \<and> sk_wire (ss_socket (flush_pending s')) = [88, 0, 2, 85]"
proof -
  have h: "enc_Header (make_header kUnsequencedData 1) = [0, 2, 85]" by code_simp
  show ?thesis
    using eagain_reorders_packet [of "sample_session\<lparr>ss_state := Active,
       ss_socket := (ss_socket sample_session)\<lparr>sk_sends := [SendAgain]\<rparr>\<rparr>" "[88]"] h
    by auto
qed

theorem session_states_witness:
  "shown_state (ss_events (snd (request_logout (snd (begin_login sample_session))))) =
   ss_state (snd (request_logout (snd (begin_login sample_session))))"
proof -
  let ?s1 = "snd (begin_login sample_session)" and ?s2 = "snd (request_logout (snd (begin_login sample_session)))"
  have "session_reach sample_session ?s2"
    by (blast intro: session_reach.intros session_step.intros)
  then have r: "(on_state_change (ss_handlers ?s2) \<longrightarrow> shown_state (ss_events ?s2) = ss_state ?s2)
      \<and> (ss_state ?s2 = Active \<longrightarrow> length (ss_assigned_session ?s2) = 10)"
    unfolding sample_session_def by (rule session_states)
  have "on_state_change (ss_handlers ?s2)"
    by (simp add: request_logout_def begin_login_def write_bytes_ready monotonic_ns_def Let_def
        case_prod_beta) (simp add: sample_session_def session_init_def all_handlers_def)
  then show ?thesis using r by blast
qed

end
