(* ===== verification/Keyed_Store.thy ===== *)
theory Keyed_Store
  imports Prelude
begin

text \<open>
  What the hash maps of the domain classes promise their callers: a lookup returns what was
  last stored under its key, where \<open>view\<close> says what a store makes of the value it is given (the
  order book, for one, resets the leaves of an order it inserts). The token registry, the
  order book, the instrument cache and the mock gateway's tables are interpretations.
\<close>

locale keyed_store =
  fixes put :: "'k \<Rightarrow> 'u \<Rightarrow> 's \<Rightarrow> 's"
    and get :: "'s \<Rightarrow> 'k \<Rightarrow> 'v option"
    and view :: "'k \<Rightarrow> 'u \<Rightarrow> 'v"
  assumes get_put: "get (put k v s) j = (if j = k then Some (view k v) else get s j)"
begin

lemma get_put_same: "get (put k v s) k = Some (view k v)"
  by (simp add: get_put)

lemma get_put_other: "j \<noteq> k \<Longrightarrow> get (put k v s) j = get s j"
  by (simp add: get_put)

text \<open>A run of stores, first to last: each key shows its last value.\<close>

lemma get_puts:
  "get (fold (\<lambda>(k, v). put k v) kvs s) j =
     (case map_of (rev kvs) j of Some v \<Rightarrow> Some (view j v) | None \<Rightarrow> get s j)"
proof (induction kvs arbitrary: s)
  case Nil
  then show ?case by simp
next
  case (Cons kv kvs)
  then show ?case
    by (cases kv) (auto simp: get_put map_add_def split: option.splits)
qed

lemma get_puts_distinct:
  "distinct (map fst kvs) \<Longrightarrow> (k, v) \<in> set kvs \<Longrightarrow>
     get (fold (\<lambda>(k, v). put k v) kvs s) k = Some (view k v)"
  by (simp add: get_puts rev_map [symmetric])

lemma get_puts_other:
  "k \<notin> set (map fst kvs) \<Longrightarrow> get (fold (\<lambda>(k, v). put k v) kvs s) k = get s k"
  by (simp add: get_puts map_of_eq_None_iff [THEN iffD2] split: option.splits)

end

end
