(* ===== verification/Token_Registry.thy ===== *)
theory Token_Registry
  imports Core_Types Keyed_Store
begin

text \<open>
  \<open>include/bist/domain/token_registry.hpp\<close>: allocation of order tokens from a prefix and a
  counter, the record of the tokens handed out or named by a scenario, and the order id the
  exchange gave each. The uniqueness the registry exists for is stated exactly: which prefixes
  keep allocated tokens apart, and which do not.
\<close>

section \<open>The code\<close>

record token_registry =
  tr_prefix :: string
  tr_sequence :: u64
  tr_seen :: "string set"
  token_to_orderid :: "string \<rightharpoonup> u64"

definition token_registry_init :: "string \<Rightarrow> token_registry" where
  "token_registry_init prefix =
     \<lparr>tr_prefix = prefix, tr_sequence = 0, tr_seen = {}, token_to_orderid = Map.empty\<rparr>"

text \<open>What a \<open>%s\<close> conversion sees of a string: the characters before the first NUL.\<close>

definition c_str :: "string \<Rightarrow> string" where
  "c_str s = takeWhile (\<lambda>c. c \<noteq> CHR 0x00) s"

text \<open>\<open>snprintf\<close> into the 15-byte buffer keeps 14 characters.\<close>

definition token_text :: "string \<Rightarrow> u64 \<Rightarrow> string" where
  "token_text prefix seq = take kTokenSize (c_str prefix @ dec_pad 11 (unat seq))"

definition allocate :: "token_registry \<Rightarrow> order_token \<times> token_registry" where
  "allocate r =
     (let seq = tr_sequence r + 1;
          tok = order_token_of (token_text (tr_prefix r) seq)
      in (tok, r\<lparr>tr_sequence := seq, tr_seen := insert (token_view tok) (tr_seen r)\<rparr>))"

definition register_external :: "string \<Rightarrow> token_registry \<Rightarrow> bool \<times> token_registry" where
  "register_external tok r = (tok \<notin> tr_seen r, r\<lparr>tr_seen := insert tok (tr_seen r)\<rparr>)"

definition map_to_order_id :: "string \<Rightarrow> u64 \<Rightarrow> token_registry \<Rightarrow> token_registry" where
  "map_to_order_id tok oid r = r\<lparr>token_to_orderid := (token_to_orderid r)(tok \<mapsto> oid)\<rparr>"

definition order_id_of :: "token_registry \<Rightarrow> string \<Rightarrow> u64" where
  "order_id_of r tok = (case token_to_orderid r tok of Some oid \<Rightarrow> oid | None \<Rightarrow> 0)"

definition registry_size :: "token_registry \<Rightarrow> nat" where
  "registry_size r = card (tr_seen r)"

interpretation token_ids: keyed_store map_to_order_id token_to_orderid "\<lambda>_ oid. oid"
  by unfold_locales (simp add: map_to_order_id_def)

text \<open>Allocating \<open>n\<close> tokens in a row.\<close>

primrec allocate_n :: "nat \<Rightarrow> token_registry \<Rightarrow> order_token list \<times> token_registry" where
  "allocate_n 0 r = ([], r)"
| "allocate_n (Suc n) r =
     (let (tok, r1) = allocate r; (toks, r2) = allocate_n n r1 in (tok # toks, r2))"

section \<open>Decimal prefixes\<close>

lemma digit_val_inj: "is_digit c \<Longrightarrow> is_digit d \<Longrightarrow> digit_val c = digit_val d \<Longrightarrow> c = d"
proof -
  assume "is_digit c" "is_digit d" "digit_val c = digit_val d"
  then have "(of_char c :: nat) = of_char d"
    unfolding is_digit_def digit_val_def by linarith
  then show "c = d" by simp
qed

lemma digits_unique:
  "length s = length t \<Longrightarrow> list_all is_digit s \<Longrightarrow> list_all is_digit t \<Longrightarrow>
     dec_val s = dec_val t \<Longrightarrow> s = t"
proof (induction s arbitrary: t rule: rev_induct)
  case Nil
  then show ?case by simp
next
  case (snoc c s)
  from snoc.prems(1) obtain d t' where t: "t = t' @ [d]" by (cases t rule: rev_cases) auto
  have dc: "digit_val c < 10" "digit_val d < 10"
    using snoc.prems(2,3) t by (auto simp: is_digit_def digit_val_def)
  have "10 * dec_val s + digit_val c = 10 * dec_val t' + digit_val d"
    using snoc.prems(4) t by (simp add: dec_val_snoc)
  with dc have "dec_val s = dec_val t'" "digit_val c = digit_val d" by presburger+
  moreover have "c = d"
    using snoc.prems(2,3) t calculation(2) by (auto intro: digit_val_inj)
  moreover have "s = t'"
    using snoc.prems t calculation(1) by (intro snoc.IH) auto
  ultimately show ?case using t by simp
qed

lemma take_dec_pad:
  assumes "n < 10 ^ w" "k \<le> w" "0 < w"
  shows "dec_val (take k (dec_pad w n)) = n div 10 ^ (w - k)"
  using assms(2)
proof (induction "w - k" arbitrary: k)
  case 0
  then show ?case using length_dec_pad [OF assms(1,3)] by simp
next
  case (Suc m)
  have len: "length (dec_pad w n) = w" using length_dec_pad [OF assms(1,3)] .
  have k: "Suc k \<le> w" using Suc.hyps(2) by simp
  have "take k (dec_pad w n) = butlast (take (Suc k) (dec_pad w n))"
    using k len by (simp add: butlast_take)
  moreover have "list_all is_digit (take (Suc k) (dec_pad w n))"
    using dec_pad_digits [of w n] by (auto simp: list_all_iff dest: in_set_takeD)
  ultimately have "dec_val (take k (dec_pad w n)) = n div 10 ^ (w - Suc k) div 10"
    using Suc.hyps(1) [of "Suc k"] Suc.hyps(2) k by (simp add: dec_val_butlast)
  also have "\<dots> = n div 10 ^ (w - k)"
  proof -
    have "(10 :: nat) ^ (w - k) = 10 ^ (w - Suc k) * 10"
      using k by (simp add: power_Suc2 [symmetric] Suc_diff_Suc del: power_Suc)
    then show ?thesis by (simp only: div_mult2_eq)
  qed
  finally show ?case .
qed

lemma take_dec_pad_eq_iff:
  assumes "a < 10 ^ w" "b < 10 ^ w" "k \<le> w" "0 < w"
  shows "take k (dec_pad w a) = take k (dec_pad w b) \<longleftrightarrow> a div 10 ^ (w - k) = b div 10 ^ (w - k)"
proof
  assume "take k (dec_pad w a) = take k (dec_pad w b)"
  then show "a div 10 ^ (w - k) = b div 10 ^ (w - k)"
    using take_dec_pad [OF assms(1,3,4)] take_dec_pad [OF assms(2,3,4)] by simp
next
  assume "a div 10 ^ (w - k) = b div 10 ^ (w - k)"
  then show "take k (dec_pad w a) = take k (dec_pad w b)"
    using take_dec_pad [OF assms(1,3,4)] take_dec_pad [OF assms(2,3,4)]
      length_dec_pad [OF assms(1,4)] length_dec_pad [OF assms(2,4)]
      dec_pad_digits [of w a] dec_pad_digits [of w b]
    by (intro digits_unique) (auto simp: list_all_iff dest: in_set_takeD)
qed

section \<open>Allocated tokens\<close>

lemma length_c_str: "length (c_str s) \<le> length s"
  by (simp add: c_str_def length_takeWhile_le)

lemma token_text_split:
  "length (c_str p) \<le> 14 \<Longrightarrow>
     token_text p q = c_str p @ take (14 - length (c_str p)) (dec_pad 11 (unat q))"
  by (simp add: token_text_def kTokenSize_def)

lemma length_token_text: "length (token_text p q) \<le> 14"
  by (simp add: token_text_def kTokenSize_def)

text \<open>A digit ends the text as long as the prefix leaves room for one, so the padding of the
  token loses nothing.\<close>

lemma trim_token_text:
  assumes "length (c_str p) < 14"
  shows "trim_blanks (token_text p q) = token_text p q"
proof -
  let ?d = "take (14 - length (c_str p)) (dec_pad 11 (unat q))"
  have "length ?d \<noteq> 0"
    unfolding length_take using assms length_dec_pad_ge [of 11 "unat q"] by linarith
  then have ne: "?d \<noteq> []" by (rule contrapos_nn) (simp only: list.size)
  have "last (token_text p q) = last ?d"
    unfolding token_text_split [OF less_imp_le [OF assms]] by (rule last_appendR [OF ne])
  moreover have "last ?d \<in> set (dec_pad 11 (unat q))"
    by (rule in_set_takeD [OF last_in_set [OF ne]])
  ultimately have "last (token_text p q) \<in> set (dec_pad 11 (unat q))" by simp
  then have "last (token_text p q) \<noteq> CHR '' ''"
    using dec_pad_digits [of 11 "unat q"] by (auto simp: list_all_iff is_digit_def)
  then show ?thesis by (simp add: rstrip_id)
qed

lemma order_token_text_eq_iff:
  assumes "length (c_str p) < 14"
  shows "order_token_of (token_text p a) = order_token_of (token_text p b)
    \<longleftrightarrow> token_text p a = token_text p b"
  unfolding order_token_of_eq_iff take_all [OF length_token_text] trim_token_text [OF assms] ..

lemma token_text_eq_iff:
  assumes "length (c_str p) < 14" "unat a < 10 ^ 11" "unat b < 10 ^ 11"
  shows "token_text p a = token_text p b
    \<longleftrightarrow> unat a div 10 ^ (length (c_str p) - 3) = unat b div 10 ^ (length (c_str p) - 3)"
proof -
  let ?k = "min 11 (14 - length (c_str p))"
  have len: "length (dec_pad 11 (unat x)) = 11" if "unat x < 10 ^ 11" for x :: u64
    using that by (intro length_dec_pad) simp_all
  have "take (14 - length (c_str p)) (dec_pad 11 (unat x)) = take ?k (dec_pad 11 (unat x))"
    if "unat x < 10 ^ 11" for x :: u64
    using len [OF that] by (auto simp: min_def)
  moreover have "11 - ?k = length (c_str p) - 3" using assms(1) by linarith
  ultimately show ?thesis
    using assms take_dec_pad_eq_iff [of "unat a" 11 "unat b" ?k] by (simp add: token_text_split)
qed

lemma allocate_simps [simp]:
  "fst (allocate r) = order_token_of (token_text (tr_prefix r) (tr_sequence r + 1))"
  "tr_prefix (snd (allocate r)) = tr_prefix r"
  "tr_sequence (snd (allocate r)) = tr_sequence r + 1"
  "token_to_orderid (snd (allocate r)) = token_to_orderid r"
  by (simp_all add: allocate_def Let_def)

lemma allocate_n_tokens:
  "fst (allocate_n n r) =
     map (\<lambda>i. order_token_of (token_text (tr_prefix r) (tr_sequence r + 1 + word_of_nat i))) [0..<n]"
proof (induction n arbitrary: r)
  case 0
  then show ?case by simp
next
  case (Suc n)
  have "fst (allocate_n (Suc n) r) = fst (allocate r) # fst (allocate_n n (snd (allocate r)))"
    by (simp add: Let_def case_prod_beta)
  also have "\<dots> = map (\<lambda>i. order_token_of (token_text (tr_prefix r) (tr_sequence r + 1 + word_of_nat i)))
      (0 # map Suc [0..<n])"
    by (simp add: Suc.IH add_ac)
  also have "0 # map Suc [0..<n] = [0..<Suc n]"
    by (simp add: map_Suc_upt upt_conv_Cons del: upt_Suc)
  finally show ?case .
qed

lemma allocate_n_seen: "token_view ` set (fst (allocate_n n r)) \<subseteq> tr_seen (snd (allocate_n n r))
    \<and> tr_seen r \<subseteq> tr_seen (snd (allocate_n n r))"
proof (induction n arbitrary: r)
  case 0
  then show ?case by simp
next
  case (Suc n)
  have "insert (token_view (fst (allocate r))) (tr_seen r) = tr_seen (snd (allocate r))"
    by (simp add: allocate_def Let_def)
  with Suc [of "snd (allocate r)"] show ?case
    by (auto simp: Let_def case_prod_beta simp del: allocate_simps)
qed

section \<open>Properties\<close>

text \<open>
  With a prefix of at most three characters, as the default \<open>"C-"\<close>, tokens allocated in a
  row are pairwise distinct until the counter reaches \<open>10^11\<close>, and every one of them is
  recorded as seen.
\<close>

lemma allocated_tokens_distinct:
  assumes "length (c_str (tr_prefix r)) \<le> 3" "unat (tr_sequence r) + n < 10 ^ 11"
  shows "distinct (fst (allocate_n n r))
    \<and> token_view ` set (fst (allocate_n n r)) \<subseteq> tr_seen (snd (allocate_n n r))"
proof -
  let ?q = "\<lambda>i. tr_sequence r + 1 + word_of_nat i"
  have q: "unat (?q i) = unat (tr_sequence r) + 1 + i" if "i < n" for i
  proof -
    have "?q i = word_of_nat (unat (tr_sequence r) + 1 + i)" by simp
    moreover have "unat (tr_sequence r) + 1 + i < 2 ^ 64" using assms(2) that by simp
    ultimately show ?thesis by (simp only: unat_of_nat) simp
  qed
  have "inj_on (\<lambda>i. order_token_of (token_text (tr_prefix r) (?q i))) {0..<n}"
  proof (rule inj_onI)
    fix i j assume ij: "i \<in> {0..<n}" "j \<in> {0..<n}"
      and "order_token_of (token_text (tr_prefix r) (?q i)) = order_token_of (token_text (tr_prefix r) (?q j))"
    then have "token_text (tr_prefix r) (?q i) = token_text (tr_prefix r) (?q j)"
      using assms(1) by (simp add: order_token_text_eq_iff)
    then show "i = j"
      using token_text_eq_iff [of "tr_prefix r" "?q i" "?q j"] assms q [of i] q [of j] ij by simp
  qed
  then show ?thesis
    using allocate_n_seen [of n r] by (simp add: allocate_n_tokens distinct_map)
qed

text \<open>
  With a longer prefix the 14-byte buffer cuts the low digits of the counter off: two
  registries with the same prefix of \<open>p \<le> 13\<close> characters allocate the same token exactly
  when their next counters agree up to the last \<open>p - 3\<close> digits. Only prefixes of at most three
  characters keep all tokens apart.
\<close>

lemma allocated_token_eq_iff:
  assumes "tr_prefix r = p" "tr_prefix r' = p" "length (c_str p) < 14"
    "unat (tr_sequence r) + 1 < 10 ^ 11" "unat (tr_sequence r') + 1 < 10 ^ 11"
  shows "fst (allocate r) = fst (allocate r') \<longleftrightarrow>
    (unat (tr_sequence r) + 1) div 10 ^ (length (c_str p) - 3) =
    (unat (tr_sequence r') + 1) div 10 ^ (length (c_str p) - 3)"
proof -
  have "unat (q + 1) = unat q + 1" if "unat q + 1 < 10 ^ 11" for q :: u64
    using that unat_add_lem [of q 1] by simp
  then show ?thesis
    using assms token_text_eq_iff [of p "tr_sequence r + 1" "tr_sequence r' + 1"]
    by (simp add: order_token_text_eq_iff)
qed

text \<open>
  A token a scenario names is not kept from being allocated: whenever the token's text is
  new to the registry, \<open>register_external\<close> accepts the very token \<open>allocate\<close> returns next, and
  the registry then counts one token for the two orders.
\<close>

lemma external_token_reallocated:
  assumes "token_view (fst (allocate r)) \<notin> tr_seen r"
  shows "fst (register_external (token_view (fst (allocate r))) r)
    \<and> fst (allocate (snd (register_external (token_view (fst (allocate r))) r))) = fst (allocate r)
    \<and> registry_size (snd (allocate (snd (register_external (token_view (fst (allocate r))) r))))
      = registry_size (snd (register_external (token_view (fst (allocate r))) r))"
  using assms by (simp add: register_external_def registry_size_def allocate_def Let_def)

end
