(* ===== verification/Throttler.thy ===== *)
theory Throttler
  imports Core_Types
begin

text \<open>
  \<open>include/bist/domain/throttler.hpp\<close>: the rolling-window rate limiter. Ten slots hold the
  counts of ten 100 ms windows; a request is accepted while the counts of the current and the
  nine previous windows stay below the limit.

  The locale \<open>window_limiter\<close> is what a caller may rely on: each decision is the one a limiter
  with an unbounded log of accepted requests would take. Runs of requests are studied there,
  and the slot array is shown to be an instance.
\<close>

section \<open>The code\<close>

record slot =
  slot_window_id :: u64
  slot_count :: u64

record throttler =
  th_limit :: u64
  th_slots :: "slot list"

definition kWindowNs :: u64 where "kWindowNs = 100000000"
definition kWindowCount :: u64 where "kWindowCount = 10"
definition kNoWindow :: u64 where "kNoWindow = - 1"

definition empty_slot :: slot where
  "empty_slot = \<lparr>slot_window_id = kNoWindow, slot_count = 0\<rparr>"

definition throttler_init :: "u64 \<Rightarrow> u64 \<Rightarrow> throttler" where
  "throttler_init capacity tokens_per_sec =
     \<lparr>th_limit = (if tokens_per_sec = 0 then 0
                else if capacity < tokens_per_sec then capacity else tokens_per_sec),
      th_slots = replicate (unat kWindowCount) empty_slot\<rparr>"

definition window_id :: "u64 \<Rightarrow> u64" where
  "window_id now_ns = now_ns div kWindowNs"

definition used_in_rolling_second :: "throttler \<Rightarrow> u64 \<Rightarrow> u64" where
  "used_in_rolling_second t current =
     foldl (\<lambda>total s.
         if slot_window_id s = kNoWindow then total
         else if slot_window_id s > current then total
         else if current - slot_window_id s \<ge> kWindowCount then total
         else total + slot_count s) 0 (th_slots t)"

text \<open>\<open>mono_ns\<close> is the reading of \<open>monotonic_ns()\<close>, taken when the caller passes 0.\<close>

definition try_acquire :: "throttler \<Rightarrow> u64 \<Rightarrow> u64 \<Rightarrow> bool \<times> throttler" where
  "try_acquire t now_ns mono_ns =
     (if th_limit t = 0 then (False, t)
      else
        let current = window_id (if now_ns \<noteq> 0 then now_ns else mono_ns);
            i = unat (current mod kWindowCount);
            t1 = (if slot_window_id (th_slots t ! i) \<noteq> current
                  then t\<lparr>th_slots := (th_slots t)[i := \<lparr>slot_window_id = current, slot_count = 0\<rparr>]\<rparr>
                  else t)
        in if used_in_rolling_second t1 current \<ge> th_limit t1 then (False, t1)
           else (True, t1\<lparr>th_slots := (th_slots t1)
                   [i := (th_slots t1 ! i)\<lparr>slot_count := slot_count (th_slots t1 ! i) + 1\<rparr>]\<rparr>))"

definition reset :: "throttler \<Rightarrow> throttler" where
  "reset t = t\<lparr>th_slots := map (\<lambda>_. empty_slot) (th_slots t)\<rparr>"

definition available :: "throttler \<Rightarrow> u64 \<Rightarrow> u64 \<Rightarrow> u64" where
  "available t now_ns mono_ns =
     (if th_limit t = 0 then 0
      else let current = window_id (if now_ns \<noteq> 0 then now_ns else mono_ns);
               used = used_in_rolling_second t current
           in if used \<ge> th_limit t then 0 else th_limit t - used)"

definition capacity :: "throttler \<Rightarrow> u64" where
  "capacity t = th_limit t"

section \<open>The contract of a window limiter\<close>

text \<open>\<open>recent w v\<close>: an acceptance in window \<open>v\<close> still counts for a request in window \<open>w\<close>.\<close>

definition recent :: "nat \<Rightarrow> nat \<Rightarrow> bool" where
  "recent w v \<longleftrightarrow> v \<le> w \<and> w < v + 10"

text \<open>The reference limiter: it keeps the windows of all the requests it accepted.\<close>

fun limiter_spec :: "nat \<Rightarrow> nat list \<Rightarrow> nat list \<Rightarrow> bool list" where
  "limiter_spec L acc [] = []"
| "limiter_spec L acc (w # ws) =
     (let ok = (length (filter (recent w) acc) < L)
      in ok # limiter_spec L (if ok then w # acc else acc) ws)"

definition in_span :: "nat \<Rightarrow> nat \<Rightarrow> bool" where
  "in_span w v \<longleftrightarrow> w \<le> v \<and> v < w + 10"

definition accepted_in :: "nat \<Rightarrow> nat list \<Rightarrow> bool list \<Rightarrow> nat" where
  "accepted_in w ws oks = length (filter (\<lambda>(v, ok). ok \<and> in_span w v) (zip ws oks))"

lemma length_limiter_spec [simp]: "length (limiter_spec L acc ws) = length ws"
  by (induction L acc ws rule: limiter_spec.induct) (simp_all add: Let_def)

text \<open>Accepting a request keeps every ten-window span within the limit, because the request's
  own window is the latest: whatever the span sees, the request saw.\<close>

lemma span_step:
  assumes "\<forall>v \<in> set acc. v \<le> c" "\<forall>w. length (filter (in_span w) acc) \<le> L"
    "length (filter (recent c) acc) < L"
  shows "length (filter (in_span w) (c # acc)) \<le> L"
proof (cases "in_span w c")
  case True
  have "filter (in_span w) acc = filter (\<lambda>v. in_span w v \<and> recent c v) acc"
    using assms(1) True by (intro filter_cong) (auto simp: in_span_def recent_def)
  also have "length \<dots> \<le> length (filter (recent c) acc)"
    by (induction acc) auto
  finally show ?thesis using assms(3) True by simp
next
  case False
  then show ?thesis using assms(2) by simp
qed

lemma limiter_spec_bound:
  assumes "sorted ws" "\<forall>v \<in> set acc. \<forall>u \<in> set ws. v \<le> u"
    "\<forall>w. length (filter (in_span w) acc) \<le> L"
  shows "length (filter (in_span w) acc) + accepted_in w ws (limiter_spec L acc ws) \<le> L"
  using assms
proof (induction L acc ws rule: limiter_spec.induct)
  case (1 L acc)
  then show ?case by (simp add: accepted_in_def)
next
  case (2 L acc c ws)
  show ?case
  proof (cases "length (filter (recent c) acc) < L")
    case True
    have "\<forall>u. length (filter (in_span u) (c # acc)) \<le> L"
      using span_step [OF _ "2.prems"(3) True] "2.prems"(2) by simp
    with 2 True show ?thesis
      by (fastforce simp: accepted_in_def Let_def)
  next
    case False
    with 2 show ?thesis by (simp add: accepted_in_def Let_def)
  qed
qed

lemma accepted_in_mono:
  "list_all2 (\<longrightarrow>) ds oks \<Longrightarrow> accepted_in w ws ds \<le> accepted_in w ws oks"
proof (induction arbitrary: ws rule: list_all2_induct)
  case Nil
  then show ?case by simp
next
  case (Cons d ds x oks)
  then show ?case
    by (cases ws) (auto simp: accepted_in_def intro: le_SucI)
qed

text \<open>A run of requests, at the given clock readings.\<close>

primrec run :: "('s \<Rightarrow> u64 \<Rightarrow> bool \<times> 's) \<Rightarrow> 's \<Rightarrow> u64 list \<Rightarrow> bool list \<times> 's" where
  "run step s [] = ([], s)"
| "run step s (now # ts) =
     (let r = step s now; q = run step (snd r) ts in (fst r # fst q, snd q))"

locale window_limiter =
  fixes step :: "'s \<Rightarrow> u64 \<Rightarrow> bool \<times> 's"
    and win :: "u64 \<Rightarrow> nat"
    and lim :: "'s \<Rightarrow> nat"
    and rel :: "'s \<Rightarrow> nat list \<Rightarrow> nat \<Rightarrow> bool"
  assumes step_decides: "rel s acc c \<Longrightarrow> c \<le> win now \<Longrightarrow>
      fst (step s now) = (length (filter (recent (win now)) acc) < lim s)"
    and step_rel: "rel s acc c \<Longrightarrow> c \<le> win now \<Longrightarrow>
      rel (snd (step s now)) (if fst (step s now) then win now # acc else acc) (win now)"
    and step_lim: "lim (snd (step s now)) = lim s"
begin

lemma run_spec:
  "rel s acc c \<Longrightarrow> sorted (c # map win ts) \<Longrightarrow>
     fst (run step s ts) = limiter_spec (lim s) acc (map win ts)"
proof (induction ts arbitrary: s acc c)
  case Nil
  then show ?case by simp
next
  case (Cons now ts)
  have c: "c \<le> win now" using Cons.prems(2) by simp
  have "fst (run step (snd (step s now)) ts) =
      limiter_spec (lim s) (if fst (step s now) then win now # acc else acc) (map win ts)"
    using Cons.IH [OF step_rel [OF Cons.prems(1) c]] Cons.prems(2) by (simp add: step_lim)
  then show ?case
    using step_decides [OF Cons.prems(1) c] by (simp add: Let_def)
qed

lemma run_bound:
  assumes "rel s [] c" "sorted (c # map win ts)"
  shows "accepted_in w (map win ts) (fst (run step s ts)) \<le> lim s"
  using limiter_spec_bound [of "map win ts" "[]" "lim s" w] run_spec [OF assms] assms(2) by simp

text \<open>Work done only when a request is granted is bounded with the grants.\<close>

lemma guarded_bound:
  assumes "rel s [] c" "sorted (c # map win ts)" "list_all2 (\<longrightarrow>) ds (fst (run step s ts))"
  shows "accepted_in w (map win ts) ds \<le> lim s"
  using accepted_in_mono [OF assms(3), of w "map win ts"] run_bound [OF assms(1,2), of w]
  by linarith

end

section \<open>The slot array implements it\<close>

definition win :: "u64 \<Rightarrow> nat" where
  "win now = unat now div 100000000"

lemma unat_window_id: "unat (window_id now) = win now"
  by (simp add: window_id_def kWindowNs_def win_def unat_div)

lemma win_bound: "win now < 2 ^ 64 - 1"
  using unat_bound_64 [of now] by (simp add: win_def)

text \<open>Slot \<open>i\<close> agrees with the log: unused, or the exact count of its window.\<close>

definition slot_rel :: "nat list \<Rightarrow> nat \<Rightarrow> nat \<Rightarrow> slot \<Rightarrow> bool" where
  "slot_rel acc c i s \<longleftrightarrow>
     slot_window_id s = kNoWindow
     \<or> (unat (slot_window_id s) \<le> c \<and> unat (slot_window_id s) mod 10 = i
        \<and> unat (slot_count s) = count_list acc (unat (slot_window_id s)))"

definition throttler_rel :: "throttler \<Rightarrow> nat list \<Rightarrow> nat \<Rightarrow> bool" where
  "throttler_rel t acc c \<longleftrightarrow>
     length (th_slots t) = 10 \<and> c < 2 ^ 64 - 1
     \<and> (\<forall>i < 10. slot_rel acc c i (th_slots t ! i))
     \<and> (\<forall>v \<in> set acc. v \<le> c \<and> (c < v + 10 \<longrightarrow> unat (slot_window_id (th_slots t ! (v mod 10))) = v))
     \<and> (\<forall>w. length (filter (in_span w) acc) \<le> unat (th_limit t))"

lemma throttler_rel_init: "throttler_rel (throttler_init cap tps) [] 0"
  by (simp add: throttler_rel_def throttler_init_def kWindowCount_def slot_rel_def empty_slot_def)

text \<open>A slot's contribution to the count, on naturals.\<close>

definition contrib :: "u64 \<Rightarrow> slot \<Rightarrow> nat" where
  "contrib current s =
     (if slot_window_id s = kNoWindow \<or> slot_window_id s > current
         \<or> current - slot_window_id s \<ge> kWindowCount then 0 else unat (slot_count s))"

lemma used_of_nat:
  "used_in_rolling_second t current = word_of_nat (sum_list (map (contrib current) (th_slots t)))"
proof -
  have "foldl (\<lambda>total s.
         if slot_window_id s = kNoWindow then total
         else if slot_window_id s > current then total
         else if current - slot_window_id s \<ge> kWindowCount then total
         else total + slot_count s) (word_of_nat a) ss
      = word_of_nat (a + sum_list (map (contrib current) ss))" for a ss
  proof (induction ss arbitrary: a)
    case Nil
    then show ?case by simp
  next
    case (Cons s ss)
    have "word_of_nat a + slot_count s = (word_of_nat (a + unat (slot_count s)) :: u64)"
      by simp
    with Cons [of "a + contrib current s"] show ?case
      by (auto simp: contrib_def add.assoc)
  qed
  from this [of 0] show ?thesis by (simp add: used_in_rolling_second_def)
qed

lemma contrib_nat:
  assumes "unat current < 2 ^ 64 - 1"
  shows "contrib current s =
    (if slot_window_id s \<noteq> kNoWindow \<and> recent (unat current) (unat (slot_window_id s))
     then unat (slot_count s) else 0)"
proof -
  have "(current - w \<ge> kWindowCount) \<longleftrightarrow> unat w + 10 \<le> unat current" if "\<not> w > current" for w
  proof -
    have "unat (current - w) = unat current - unat w"
      using that by (intro unat_sub) (simp add: not_less)
    moreover have "unat w \<le> unat current" using that by (simp add: not_less word_le_nat_alt)
    ultimately show ?thesis by (auto simp: kWindowCount_def word_le_nat_alt)
  qed
  then show ?thesis
    by (auto simp: contrib_def recent_def word_less_nat_alt not_less)
qed

lemma length_filter_recent:
  "length (filter (recent c) acc) = (\<Sum>v \<in> {v. recent c v}. count_list acc v)"
proof -
  have fin: "finite {v. recent c v}"
    by (rule finite_subset [of _ "{..c}"]) (auto simp: recent_def)
  show ?thesis
  proof (induction acc)
    case Nil
    then show ?case by simp
  next
    case (Cons a acc)
    have "(\<Sum>v \<in> {v. recent c v}. count_list (a # acc) v)
        = (\<Sum>v \<in> {v. recent c v}. (if v = a then 1 else 0) + count_list acc v)"
      by (rule sum.cong) auto
    also have "\<dots> = (if recent c a then 1 else 0) + (\<Sum>v \<in> {v. recent c v}. count_list acc v)"
      using fin by (simp add: sum.distrib sum.delta)
    finally show ?case using Cons by simp
  qed
qed

lemma recent_mod_inj: "recent c v \<Longrightarrow> recent c u \<Longrightarrow> v mod 10 = u mod 10 \<Longrightarrow> v = u"
proof (induction v u rule: linorder_wlog)
  case (le v u)
  then have "10 dvd u - v" by (metis mod_eq_dvd_iff_nat)
  moreover have "u - v < 10" using le by (simp add: recent_def)
  ultimately have "u - v = 0" using nat_dvd_not_less by blast
  with le show ?case by simp
qed auto

lemma slot_contrib:
  assumes rel: "slot_rel acc c i s" and c: "unat current = c" "c < 2 ^ 64 - 1"
    and log: "\<And>v. v \<in> set acc \<Longrightarrow> recent c v \<Longrightarrow> v mod 10 = i \<Longrightarrow> unat (slot_window_id s) = v"
  shows "contrib current s = (\<Sum>v \<in> {v. v \<in> {v. recent c v} \<and> v mod 10 = i}. count_list acc v)"
proof (cases "slot_window_id s \<noteq> kNoWindow \<and> recent c (unat (slot_window_id s))")
  case True
  let ?u = "unat (slot_window_id s)"
  from True rel have u: "?u mod 10 = i" "unat (slot_count s) = count_list acc ?u"
    by (auto simp: slot_rel_def)
  have "{v. v \<in> {v. recent c v} \<and> v mod 10 = i} = {?u}"
    using True u(1) recent_mod_inj [of c _ ?u] by auto
  then show ?thesis using True u c by (simp add: contrib_nat)
next
  case False
  have "unat kNoWindow = 2 ^ 64 - 1" by (simp add: kNoWindow_def unsigned_minus_1_eq_mask mask_eq_exp_minus_1)
  then have "count_list acc v = 0" if "recent c v" "v mod 10 = i" for v
    using False log [OF _ that] that c(2) by (fastforce simp: count_list_0_iff recent_def)
  then show ?thesis using False c by (auto simp: contrib_nat)
qed

lemma used_exact:
  assumes len: "length (th_slots t) = 10" and c: "unat current = c" "c < 2 ^ 64 - 1"
    and slots: "\<And>i. i < 10 \<Longrightarrow> slot_rel acc c i (th_slots t ! i)"
    and log: "\<And>v. v \<in> set acc \<Longrightarrow> recent c v \<Longrightarrow> unat (slot_window_id (th_slots t ! (v mod 10))) = v"
    and bound: "length (filter (recent c) acc) < 2 ^ 64"
  shows "unat (used_in_rolling_second t current) = length (filter (recent c) acc)"
proof -
  have fin: "finite {v. recent c v}"
    by (rule finite_subset [of _ "{..c}"]) (auto simp: recent_def)
  have "sum_list (map (contrib current) (th_slots t)) = (\<Sum>i \<in> {0..<10}. contrib current (th_slots t ! i))"
    by (simp add: sum_list_sum_nth len)
  also have "\<dots> = (\<Sum>i \<in> {0..<10}. \<Sum>v \<in> {v. v \<in> {v. recent c v} \<and> v mod 10 = i}. count_list acc v)"
    using slots log c by (intro sum.cong refl slot_contrib) auto
  also have "\<dots> = (\<Sum>v \<in> {v. recent c v}. count_list acc v)"
    using fin by (intro sum.group) auto
  finally have "sum_list (map (contrib current) (th_slots t)) = length (filter (recent c) acc)"
    by (simp add: length_filter_recent)
  then show ?thesis using bound by (simp add: used_of_nat unat_of_nat)
qed

section \<open>One request\<close>

text \<open>The caller's clock wins over the monotonic one; below, only the reading matters.\<close>

lemma try_acquire_clock:
  "try_acquire t now_ns mono_ns = try_acquire t 0 (if now_ns \<noteq> 0 then now_ns else mono_ns)"
  by (simp add: try_acquire_def)

lemma try_acquire_limit [simp]: "th_limit (snd (try_acquire t now_ns mono_ns)) = th_limit t"
  by (simp add: try_acquire_def Let_def)

definition claim_slot :: "throttler \<Rightarrow> u64 \<Rightarrow> throttler" where
  "claim_slot t current =
     (let i = unat (current mod kWindowCount)
      in if slot_window_id (th_slots t ! i) \<noteq> current
         then t\<lparr>th_slots := (th_slots t)[i := \<lparr>slot_window_id = current, slot_count = 0\<rparr>]\<rparr>
         else t)"

definition count_slot :: "throttler \<Rightarrow> u64 \<Rightarrow> throttler" where
  "count_slot t current =
     (let i = unat (current mod kWindowCount)
      in t\<lparr>th_slots := (th_slots t)
            [i := (th_slots t ! i)\<lparr>slot_count := slot_count (th_slots t ! i) + 1\<rparr>]\<rparr>)"

lemma try_acquire_split:
  "try_acquire t 0 now =
     (if th_limit t = 0 then (False, t)
      else let t1 = claim_slot t (window_id now)
           in if used_in_rolling_second t1 (window_id now) \<ge> th_limit t1 then (False, t1)
              else (True, count_slot t1 (window_id now)))"
  by (simp add: try_acquire_def claim_slot_def count_slot_def Let_def)

lemma throttler_rel_advance:
  "throttler_rel t acc c \<Longrightarrow> c \<le> c' \<Longrightarrow> c' < 2 ^ 64 - 1 \<Longrightarrow> throttler_rel t acc c'"
  by (force simp: throttler_rel_def slot_rel_def)

lemma unat_window_slot: "unat (current mod kWindowCount) = unat current mod 10"
  by (simp add: kWindowCount_def unat_mod)

lemma claim_slot_limit [simp]: "th_limit (claim_slot t current) = th_limit t"
  by (simp add: claim_slot_def Let_def)

lemma claim_slot_window:
  "length (th_slots t) = 10 \<Longrightarrow>
     slot_window_id (th_slots (claim_slot t current) ! (unat current mod 10)) = current"
  by (simp add: claim_slot_def Let_def unat_window_slot)

lemma claim_slot_rel:
  assumes "throttler_rel t acc (unat current)"
  shows "throttler_rel (claim_slot t current) acc (unat current)"
proof (cases "slot_window_id (th_slots t ! (unat current mod 10)) = current")
  case True
  then show ?thesis using assms by (simp add: claim_slot_def unat_window_slot)
next
  case False
  let ?c = "unat current"
  have log: "unat (slot_window_id (th_slots t ! (v mod 10))) = v" if "v \<in> set acc" "recent ?c v" for v
    using assms that by (auto simp: throttler_rel_def recent_def)
  have "v mod 10 \<noteq> ?c mod 10" if "v \<in> set acc" "recent ?c v" for v
  proof
    assume m: "v mod 10 = ?c mod 10"
    then have "v = ?c" using recent_mod_inj [OF that(2) _ m] by (simp add: recent_def)
    with log [OF that] False show False by (simp add: word_unat_eq_iff)
  qed
  moreover have "count_list acc ?c = 0"
    using calculation [of ?c] by (auto simp: count_list_0_iff recent_def)
  ultimately show ?thesis
    using assms False
    by (auto simp: claim_slot_def Let_def unat_window_slot throttler_rel_def slot_rel_def
        nth_list_update recent_def) blast
qed

lemma count_slot_rel:
  assumes rel: "throttler_rel t acc (unat current)"
    and own: "slot_window_id (th_slots t ! (unat current mod 10)) = current"
    and room: "length (filter (recent (unat current)) acc) < unat (th_limit t)"
  shows "throttler_rel (count_slot t current) (unat current # acc) (unat current)"
proof -
  let ?c = "unat current" and ?s = "th_slots t ! (unat current mod 10)"
  have c: "?c < 2 ^ 64 - 1" and len: "length (th_slots t) = 10"
    and slots: "\<And>i. i < 10 \<Longrightarrow> slot_rel acc ?c i (th_slots t ! i)"
    and log: "\<And>v. v \<in> set acc \<Longrightarrow> v \<le> ?c \<and> (?c < v + 10 \<longrightarrow>
        unat (slot_window_id (th_slots t ! (v mod 10))) = v)"
    and bnd: "\<forall>w. length (filter (in_span w) acc) \<le> unat (th_limit t)"
    using rel by (auto simp: throttler_rel_def)
  have "current \<noteq> kNoWindow"
    using c by (auto simp: kNoWindow_def unsigned_minus_1_eq_mask mask_eq_exp_minus_1)
  then have cnt: "unat (slot_count ?s) = count_list acc ?c"
    using slots [of "?c mod 10"] own by (auto simp: slot_rel_def)
  have "count_list acc ?c \<le> length (filter (recent ?c) acc)"
    by (induction acc) (auto simp: recent_def)
  then have "unat (slot_count ?s) + 1 < 2 ^ 64"
    using cnt room unat_bound_64 [of "th_limit t"] by linarith
  then have inc: "unat (slot_count ?s + 1) = count_list acc ?c + 1"
    using cnt unat_add_lem [of "slot_count ?s" 1] by simp
  have slots': "slot_rel (?c # acc) ?c i (th_slots (count_slot t current) ! i)" if "i < 10" for i
  proof (cases "i = ?c mod 10")
    case True
    then show ?thesis using inc own len
      by (simp add: slot_rel_def count_slot_def Let_def unat_window_slot)
  next
    case False
    then have "unat (slot_window_id (th_slots t ! i)) \<noteq> ?c"
      if "slot_window_id (th_slots t ! i) \<noteq> kNoWindow"
      using slots [OF \<open>i < 10\<close>] that by (auto simp: slot_rel_def)
    then show ?thesis using slots [OF \<open>i < 10\<close>] False
      by (auto simp: slot_rel_def count_slot_def Let_def unat_window_slot)
  qed
  have win': "slot_window_id (th_slots (count_slot t current) ! i) = slot_window_id (th_slots t ! i)"
    if "i < 10" for i
    using len that by (simp add: count_slot_def Let_def unat_window_slot nth_list_update)
  have bnd': "\<forall>w. length (filter (in_span w) (?c # acc)) \<le> unat (th_limit t)"
    using span_step [OF _ bnd room] log by blast
  have th: "th_limit (count_slot t current) = th_limit t"
    "length (th_slots (count_slot t current)) = 10"
    using len by (simp_all add: count_slot_def Let_def)
  show ?thesis
    unfolding throttler_rel_def th using slots' log own c bnd' by (simp add: win')
qed

lemma throttler_rel_used:
  assumes "throttler_rel t acc (unat current)"
  shows "unat (used_in_rolling_second t current) = length (filter (recent (unat current)) acc)"
proof (rule used_exact)
  let ?c = "unat current"
  have "filter (recent ?c) acc = filter (in_span (?c - 9)) (filter (recent ?c) acc)"
    unfolding filter_filter by (rule filter_cong) (auto simp: recent_def in_span_def)
  also have "length \<dots> \<le> length (filter (in_span (?c - 9)) acc)"
    by (induction acc) auto
  also have "\<dots> \<le> unat (th_limit t)" using assms by (simp add: throttler_rel_def)
  finally show "length (filter (recent ?c) acc) < 2 ^ 64" using unat_bound_64 [of "th_limit t"] by linarith
qed (use assms in \<open>auto simp: throttler_rel_def recent_def\<close>)

interpretation lim: window_limiter
  "\<lambda>t now. try_acquire t 0 now" win "\<lambda>t. unat (th_limit t)" throttler_rel
proof unfold_locales
  fix t acc c and now :: u64
  assume rel: "throttler_rel t acc c" and c: "c \<le> win now"
  have r0: "throttler_rel t acc (win now)"
    using throttler_rel_advance [OF rel c win_bound] .
  let ?w = "window_id now"
  have r1: "throttler_rel (claim_slot t ?w) acc (win now)"
    using claim_slot_rel [of t acc ?w] r0 by (simp add: unat_window_id)
  have used: "unat (used_in_rolling_second (claim_slot t ?w) ?w) = length (filter (recent (win now)) acc)"
    using throttler_rel_used [of "claim_slot t ?w" acc ?w] r1 by (simp add: unat_window_id)
  show dec: "fst (try_acquire t 0 now) = (length (filter (recent (win now)) acc) < unat (th_limit t))"
    using used by (auto simp: try_acquire_split Let_def word_le_nat_alt)
  have own: "slot_window_id (th_slots (claim_slot t ?w) ! (unat ?w mod 10)) = ?w"
    using rel by (intro claim_slot_window) (simp add: throttler_rel_def)
  show "throttler_rel (snd (try_acquire t 0 now))
      (if fst (try_acquire t 0 now) then win now # acc else acc) (win now)"
    using count_slot_rel [of "claim_slot t ?w" acc ?w] own r0 r1 used
    by (auto simp: try_acquire_split Let_def word_le_nat_alt unat_window_id)
qed simp_all

section \<open>Properties\<close>

lemma sorted_windows: "sorted ts \<Longrightarrow> sorted (map win ts)"
  by (intro sorted_map_mono) (auto simp: mono_on_def win_def word_le_nat_alt div_le_mono)

text \<open>
  C2: For a monotonic sequence of clock readings, a throttler takes exactly the decisions of a
  limiter that remembers every accepted request: request \<open>n\<close> passes iff fewer than
  \<open>min capacity tokens_per_sec\<close> accepted requests lie in its own and the nine previous 100 ms
  windows. The ten reused slots lose nothing, and no 64-bit count overflows.
\<close>

theorem throttler_exact:
  assumes "sorted ts"
  shows "fst (run (\<lambda>t now. try_acquire t 0 now) (throttler_init cap tps) ts) =
    limiter_spec (min (unat cap) (unat tps)) [] (map win ts)"
proof -
  have "sorted (map win ts)"
    by (rule sorted_windows [OF assms])
  moreover have "unat (th_limit (throttler_init cap tps)) = min (unat cap) (unat tps)"
    by (auto simp: throttler_init_def min_def word_less_nat_alt)
  ultimately show ?thesis
    using lim.run_spec [OF throttler_rel_init [of cap tps], of ts] by simp
qed

text \<open>
  Rate bound: whatever the pattern of requests (clock readings in order), any ten consecutive
  100 ms windows contain at most \<open>min capacity tokens_per_sec\<close> accepted requests.
\<close>

lemma throttler_rate_bound:
  assumes "sorted ts"
  shows "accepted_in w (map win ts)
      (fst (run (\<lambda>t now. try_acquire t 0 now) (throttler_init cap tps) ts))
    \<le> min (unat cap) (unat tps)"
  using lim.run_bound [OF throttler_rel_init [of cap tps], of ts w] sorted_windows [OF assms]
  by (simp add: throttler_init_def min_def word_less_nat_alt split: if_splits)

theorem throttler_exact_witness:
  "fst (run (\<lambda>t now. try_acquire t 0 now) (throttler_init 2 5) [50, 60, 70, 1000000001]) =
   limiter_spec 2 [] [0, 0, 0, 10]
   \<and> limiter_spec 2 [] [0, 0, 0, 10] = [True, True, False, True]"
  using throttler_exact [of "[50, 60, 70, 1000000001]" 2 5]
  by (simp add: win_def recent_def Let_def)

end
