(* ===== verification/Order_Book.thy ===== *)
theory Order_Book
  imports Core_Types Keyed_Store
begin

text \<open>
  \<open>include/bist/domain/order_book.hpp\<close>: the client's own view of the orders it entered.
  Quantities are 64-bit signed; an addition or subtraction that leaves their range is undefined
  behaviour in C++ and \<open>None\<close> here. The abstract view of an order is the pair of its original
  quantity and what has been executed of it.
\<close>

section \<open>The code\<close>

datatype order_status = Pending | OnBook | Replacing | Canceling | NotOnBook | Rejected

record order_state_rec =
  os_symbol :: string
  os_side :: side
  os_original_qty :: quantity
  os_leaves :: quantity
  os_executed :: quantity
  os_price :: price_int
  os_tif :: time_in_force
  os_order_id :: order_id
  os_status :: order_status

definition order_state_default :: order_state_rec where
  "order_state_default =
     \<lparr>os_symbol = [], os_side = Buy, os_original_qty = 0, os_leaves = 0, os_executed = 0,
      os_price = 0, os_tif = Day, os_order_id = 0, os_status = Pending\<rparr>"

type_synonym order_book = "string \<rightharpoonup> order_state_rec"

definition book_insert :: "string \<Rightarrow> order_state_rec \<Rightarrow> order_book \<Rightarrow> order_book" where
  "book_insert token st b = b(token \<mapsto> st\<lparr>os_leaves := os_original_qty st\<rparr>)"

definition book_find :: "order_book \<Rightarrow> string \<Rightarrow> order_state_rec option" where
  "book_find b token = b token"

text \<open>\<open>find_mut\<close> followed by an update of the order, when there is one.\<close>

definition with_order ::
  "string \<Rightarrow> (order_state_rec \<Rightarrow> order_state_rec option) \<Rightarrow> order_book \<Rightarrow> order_book option" where
  "with_order token f b =
     (case b token of
        None \<Rightarrow> Some b
      | Some s \<Rightarrow> map_option (\<lambda>s'. b(token \<mapsto> s')) (f s))"

definition book_on_accepted :: "string \<Rightarrow> order_id \<Rightarrow> quantity \<Rightarrow> order_book \<Rightarrow> order_book option" where
  "book_on_accepted token oid open_qty =
     with_order token (\<lambda>s. Some (s\<lparr>os_order_id := oid, os_leaves := open_qty, os_status := OnBook\<rparr>))"

definition order_executed :: "quantity \<Rightarrow> order_state_rec \<Rightarrow> order_state_rec option" where
  "order_executed traded s =
     (case (i64_of (sint (os_executed s) + sint traded), i64_of (sint (os_leaves s) - sint traded)) of
        (Some ex, Some diff) \<Rightarrow>
          (let lv = (if 0 <s diff then diff else 0);
               s1 = s\<lparr>os_executed := ex, os_leaves := lv\<rparr>
           in Some (if lv = 0 then s1\<lparr>os_status := NotOnBook\<rparr> else s1))
      | _ \<Rightarrow> None)"

definition book_on_executed :: "string \<Rightarrow> quantity \<Rightarrow> order_book \<Rightarrow> order_book option" where
  "book_on_executed token traded = with_order token (order_executed traded)"

definition book_on_canceled :: "string \<Rightarrow> order_book \<Rightarrow> order_book option" where
  "book_on_canceled token =
     with_order token (\<lambda>s. Some (s\<lparr>os_leaves := 0, os_status := NotOnBook\<rparr>))"

definition expected_leaves :: "quantity \<Rightarrow> quantity \<Rightarrow> quantity option" where
  "expected_leaves new_total_qty already_executed =
     map_option (\<lambda>diff. if diff <s 0 then 0 else diff)
       (i64_of (sint new_total_qty - sint already_executed))"

definition book_size :: "order_book \<Rightarrow> nat" where
  "book_size b = card (dom b)"

interpretation book: keyed_store book_insert book_find
  "\<lambda>_ st. st\<lparr>os_leaves := os_original_qty st\<rparr>"
  by unfold_locales (simp add: book_insert_def book_find_def)

text \<open>The trades of one order, in the order they arrive.\<close>

primrec book_executions :: "string \<Rightarrow> quantity list \<Rightarrow> order_book \<Rightarrow> order_book option" where
  "book_executions token [] b = Some b"
| "book_executions token (q # qs) b =
     Option.bind (book_on_executed token q b) (book_executions token qs)"

section \<open>Orders\<close>

lemma with_order_None [simp]: "b token = None \<Longrightarrow> with_order token f b = Some b"
  by (simp add: with_order_def)

lemma with_order_other: "with_order token f b = Some b' \<Longrightarrow> j \<noteq> token \<Longrightarrow> b' j = b j"
  by (auto simp: with_order_def split: option.splits)

lemma sint_eqI: "sint (v :: i64) = sint w \<Longrightarrow> v = w"
  by (rule signed_word_eqI)

lemma sint_zero_iff: "sint (w :: i64) = 0 \<longleftrightarrow> w = 0"
  by (metis signed_word_eqI sint_0)

text \<open>\<open>traded_to s qs s'\<close>: the order \<open>s\<close> became \<open>s'\<close> by the trades \<open>qs\<close>.\<close>

definition traded_to :: "order_state_rec \<Rightarrow> quantity list \<Rightarrow> order_state_rec \<Rightarrow> bool" where
  "traded_to s qs s' \<longleftrightarrow>
     sint (os_executed s') = sint (os_executed s) + sum_list (map sint qs)
     \<and> sint (os_leaves s') = max 0 (sint (os_leaves s) - sum_list (map sint qs))
     \<and> os_status s' = (if qs \<noteq> [] \<and> sint (os_leaves s) \<le> sum_list (map sint qs)
          then NotOnBook else os_status s)
     \<and> os_original_qty s' = os_original_qty s \<and> os_order_id s' = os_order_id s"

lemma traded_to_Nil: "0 \<le> sint (os_leaves s) \<Longrightarrow> traded_to s [] s"
  by (simp add: traded_to_def)

lemma traded_to_Cons:
  assumes "traded_to s [q] s1" "traded_to s1 qs s2" "0 \<le> sint q" "\<forall>q \<in> set qs. 0 \<le> sint q"
  shows "traded_to s (q # qs) s2"
proof -
  have pos: "0 \<le> sum_list (map sint qs)"
    using assms(4) by (intro sum_list_nonneg) auto
  have lv: "sint (os_leaves s2) = max 0 (sint (os_leaves s) - sum_list (map sint (q # qs)))"
    using assms pos by (simp add: traded_to_def max_def)
  have "os_status s2 = (if sint (os_leaves s) \<le> sum_list (map sint (q # qs))
      then NotOnBook else os_status s)"
  proof (cases "sint (os_leaves s) \<le> sint q")
    case True
    then show ?thesis using assms(1,2) pos by (simp add: traded_to_def)
  next
    case False
    then show ?thesis using assms(1,2) by (cases qs) (simp_all add: traded_to_def algebra_simps)
  qed
  with lv assms(1,2) show ?thesis by (simp add: traded_to_def)
qed

text \<open>One trade on an order whose counters stay within 63 bits.\<close>

lemma order_executed_ok:
  assumes "0 \<le> sint q" "0 \<le> sint (os_leaves s)" "0 \<le> sint (os_executed s)"
    "sint (os_executed s) + sint q < 2 ^ 63"
  obtains s' where "order_executed q s = Some s'" "traded_to s [q] s'"
proof -
  have lb: "sint (os_leaves s) < 2 ^ 63" "sint q < 2 ^ 63"
    using i64_ok_sint [of "os_leaves s"] i64_ok_sint [of q] by (auto simp: i64_ok_def)
  let ?x = "sint (os_executed s) + sint q" and ?y = "sint (os_leaves s) - sint q"
  obtain x where x: "i64_of ?x = Some x" "sint x = ?x"
    using assms by (auto simp: i64_ok_def intro: i64_of_ok [of ?x])
  obtain y where y: "i64_of ?y = Some y" "sint y = ?y"
    using assms lb by (auto simp: i64_ok_def intro: i64_of_ok [of ?y])
  have "y = 0 \<longleftrightarrow> sint y = 0" by (simp add: sint_zero_iff)
  then show ?thesis
    using x y
    by (intro that [of "the (order_executed q s)"])
      (auto simp: order_executed_def i64_sless Let_def traded_to_def)
qed

text \<open>A run of trades: the executed quantity is their sum, the leaves what is left of it.\<close>

lemma book_executions_ok:
  assumes "b token = Some s" "\<forall>q \<in> set qs. 0 \<le> sint q" "0 \<le> sint (os_leaves s)" "0 \<le> sint (os_executed s)"
    "sint (os_executed s) + sum_list (map sint qs) < 2 ^ 63"
  shows "\<exists>s'. book_executions token qs b = Some (b(token \<mapsto> s')) \<and> traded_to s qs s'"
  using assms
proof (induction qs arbitrary: b s)
  case Nil
  then show ?case by (auto simp: traded_to_Nil intro!: exI [of _ s])
next
  case (Cons q qs)
  have pos: "0 \<le> sum_list (map sint qs)"
    using Cons.prems(2) by (intro sum_list_nonneg) auto
  obtain s1 where s1: "order_executed q s = Some s1" "traded_to s [q] s1"
    using order_executed_ok [of q s] Cons.prems pos by force
  have step: "book_on_executed token q b = Some (b(token \<mapsto> s1))"
    using Cons.prems(1) s1(1) by (simp add: book_on_executed_def with_order_def)
  have "\<exists>s'. book_executions token qs (b(token \<mapsto> s1)) = Some ((b(token \<mapsto> s1))(token \<mapsto> s'))
      \<and> traded_to s1 qs s'"
    using Cons.prems s1(2) by (intro Cons.IH) (auto simp: traded_to_def)
  then show ?case
    using step traded_to_Cons [OF s1(2)] Cons.prems(2) by (auto simp del: fun_upd_apply)
qed

section \<open>Properties\<close>

text \<open>
  C29: The life of an order in the local book. After \<open>insert\<close> and \<open>on_accepted\<close> with an
  open quantity, any run of non-negative trades whose total fits 63 bits is processed without
  overflow: \<open>executed\<close> is the total traded, \<open>leaves\<close> is what \<open>expected_leaves\<close>
  predicts for the open quantity, the order leaves the book exactly when nothing is left, and
  no other order is touched.
\<close>

theorem order_lifecycle:
  assumes "os_executed st = 0" "0 \<le> sint open_qty" "\<forall>q \<in> set qs. 0 \<le> sint q"
    "sum_list (map sint qs) < 2 ^ 63" "qs \<noteq> []"
  shows "\<exists>b1 b2 s. book_on_accepted token oid open_qty (book_insert token st b) = Some b1
    \<and> book_executions token qs b1 = Some b2 \<and> book_find b2 token = Some s
    \<and> sint (os_executed s) = sum_list (map sint qs)
    \<and> expected_leaves open_qty (os_executed s) = Some (os_leaves s)
    \<and> (os_status s = NotOnBook \<longleftrightarrow> os_leaves s = 0) \<and> os_status s \<in> {OnBook, NotOnBook}
    \<and> os_order_id s = oid \<and> os_original_qty s = os_original_qty st
    \<and> (\<forall>j. j \<noteq> token \<longrightarrow> book_find b2 j = book_find b j)"
proof -
  let ?s0 = "st\<lparr>os_order_id := oid, os_leaves := open_qty, os_status := OnBook\<rparr>"
  have acc: "book_on_accepted token oid open_qty (book_insert token st b) = Some (b(token \<mapsto> ?s0))"
    by (simp add: book_on_accepted_def book_insert_def with_order_def)
  have pos: "0 \<le> sum_list (map sint qs)"
    using assms(3) by (intro sum_list_nonneg) auto
  obtain s where run: "book_executions token qs (b(token \<mapsto> ?s0)) = Some (b(token \<mapsto> s))"
    "traded_to ?s0 qs s"
    using book_executions_ok [of "b(token \<mapsto> ?s0)" token ?s0 qs] assms by auto
  have ex: "sint (os_executed s) = sum_list (map sint qs)"
    and lv: "sint (os_leaves s) = max 0 (sint open_qty - sum_list (map sint qs))"
    using run(2) assms(1) by (simp_all add: traded_to_def)
  have "i64_ok (sint open_qty - sint (os_executed s))"
    using ex pos assms(2,4) i64_ok_sint [of open_qty] by (simp add: i64_ok_def)
  then obtain d where d: "i64_of (sint open_qty - sint (os_executed s)) = Some d"
    "sint d = sint open_qty - sint (os_executed s)" by (rule i64_of_ok)
  have "(if d <s 0 then 0 else d) = os_leaves s"
    using d(2) ex lv by (intro sint_eqI) (simp add: i64_sless max_def)
  then have exp: "expected_leaves open_qty (os_executed s) = Some (os_leaves s)"
    by (simp add: expected_leaves_def d)
  have zero: "os_leaves s = 0 \<longleftrightarrow> sint open_qty \<le> sum_list (map sint qs)"
    using lv sint_zero_iff [of "os_leaves s"] by (auto simp: max_def split: if_splits)
  show ?thesis
    using acc run ex exp zero assms(5)
    by (intro exI [of _ "b(token \<mapsto> ?s0)"] exI [of _ "b(token \<mapsto> s)"] exI [of _ s])
      (auto simp: book_find_def traded_to_def)
qed

theorem order_lifecycle_witness:
  "\<exists>b1 b2 s. book_on_accepted ''T1'' 7 100 (book_insert ''T1''
        (order_state_default\<lparr>os_original_qty := 100\<rparr>) Map.empty) = Some b1
    \<and> book_executions ''T1'' [40, 60] b1 = Some b2 \<and> book_find b2 ''T1'' = Some s
    \<and> sint (os_executed s) = 100 \<and> os_order_id s = 7"
  using order_lifecycle [of "order_state_default\<lparr>os_original_qty := 100\<rparr>" 100 "[40, 60]" "''T1''" 7 Map.empty]
  by (auto simp: order_state_default_def)

end
