(* ===== verification/Client.thy ===== *)
theory Client
  imports Session_Contract Token_Registry Throttler Order_Book
begin

text \<open>
  \<open>include/bist/ouch/client.hpp\<close>: the trading API over a session. The client's state is the
  session, the token registry, the throttler and the local order book it holds references to;
  each operation is the member function, call for call, in the code's order.
\<close>

section \<open>Arguments\<close>

record place_args =
  pa_symbol :: string
  pa_order_book_id :: order_book_id
  pa_side :: side
  pa_quantity :: quantity
  pa_price :: price_int
  pa_tif :: time_in_force
  pa_open_close :: open_close
  pa_category :: client_category
  pa_display_quantity :: quantity
  pa_client_account :: string
  pa_customer_info :: string
  pa_exchange_info :: string
  pa_explicit_token :: string
  pa_off_hours :: u8

record replace_args =
  ra_existing_token :: string
  ra_new_token :: string
  ra_new_total_quantity :: quantity
  ra_new_price :: price_int
  ra_open_close :: open_close
  ra_category :: client_category
  ra_display_quantity :: quantity
  ra_client_account :: string
  ra_customer_info :: string
  ra_exchange_info :: string

record quote_entry_args =
  qa_order_book_id :: order_book_id
  qa_bid_price :: price_int
  qa_bid_size :: quantity
  qa_offer_price :: price_int
  qa_offer_size :: quantity

record mass_quote_args =
  ma_token :: string
  ma_category :: client_category
  ma_client_account :: string
  ma_exchange_info :: string
  ma_entries :: "quote_entry_args list"

record ouch_client =
  oc_session :: ouch_session
  oc_tokens :: token_registry
  oc_throttler :: throttler
  oc_book :: order_book

section \<open>Steps the operations share\<close>

text \<open>\<open>throttler_.try_acquire()\<close>: the clock is read unless the limit is zero.\<close>

definition acquire :: "ouch_client \<Rightarrow> bool \<times> ouch_client" where
  "acquire c =
     (if th_limit (oc_throttler c) = 0 then (False, c)
      else let (now, s1) = monotonic_ns (oc_session c);
               (ok, th1) = try_acquire (oc_throttler c) 0 now
           in (ok, c\<lparr>oc_session := s1, oc_throttler := th1\<rparr>))"

text \<open>An explicit token is registered as given and must be new; otherwise the registry
  allocates one.\<close>

definition take_token :: "string \<Rightarrow> string \<Rightarrow> ouch_client \<Rightarrow> order_token result \<times> ouch_client" where
  "take_token explicit complaint c =
     (if explicit \<noteq> [] then
        (let (fresh, r1) = register_external explicit (oc_tokens c);
             c1 = c\<lparr>oc_tokens := r1\<rparr>
         in if \<not> fresh then (Inl (make_error Validation (complaint @ explicit)), c1)
            else (Inr (order_token_of explicit), c1))
      else let (tok, r1) = allocate (oc_tokens c) in (Inr tok, c\<lparr>oc_tokens := r1\<rparr>))"

text \<open>A session call, and what it makes of the client.\<close>

definition via_session ::
  "(ouch_session \<Rightarrow> unit result \<times> ouch_session) \<Rightarrow> 'a \<Rightarrow> ouch_client \<Rightarrow> 'a result \<times> ouch_client" where
  "via_session f v c =
     (let (r, s1) = f (oc_session c)
      in (case r of Inl e \<Rightarrow> Inl e | Inr _ \<Rightarrow> Inr v, c\<lparr>oc_session := s1\<rparr>))"

definition mark_order :: "string \<Rightarrow> order_status \<Rightarrow> ouch_client \<Rightarrow> ouch_client" where
  "mark_order token st c =
     c\<lparr>oc_book := the (with_order token (\<lambda>s. Some (s\<lparr>os_status := st\<rparr>)) (oc_book c))\<rparr>"

section \<open>Enter order\<close>

definition enter_order_msg :: "place_args \<Rightarrow> order_token \<Rightarrow> EnterOrder" where
  "enter_order_msg args tok =
     zero_EnterOrder\<lparr>
       eo_message_type := kEnterOrder,
       eo_order_token := token_set tok,
       eo_order_book_id := pa_order_book_id args,
       eo_side := to_wire (pa_side args),
       eo_quantity := pa_quantity args,
       eo_price := pa_price args,
       eo_time_in_force := tif_wire (pa_tif args),
       eo_open_close := open_close_wire (pa_open_close args),
       eo_client_account := alpha_set 16 (pa_client_account args),
       eo_customer_info := alpha_set 15 (pa_customer_info args),
       eo_exchange_info := alpha_set 32 (pa_exchange_info args),
       eo_display_quantity := pa_display_quantity args,
       eo_client_category := client_category_wire (pa_category args),
       eo_off_hours := pa_off_hours args\<rparr>"

definition pending_order :: "place_args \<Rightarrow> order_state_rec" where
  "pending_order args =
     order_state_default\<lparr>
       os_symbol := pa_symbol args,
       os_side := pa_side args,
       os_original_qty := pa_quantity args,
       os_price := pa_price args,
       os_tif := pa_tif args,
       os_status := Pending\<rparr>"

definition place :: "place_args \<Rightarrow> ouch_client \<Rightarrow> order_token result \<times> ouch_client" where
  "place args c =
     (case acquire c of
        (False, c1) \<Rightarrow> (Inl (make_error Throttled ''throttler bucket empty (>= rate)''), c1)
      | (True, c1) \<Rightarrow>
          (case take_token (pa_explicit_token args) ''token already used: '' c1 of
             (Inl e, c2) \<Rightarrow> (Inl e, c2)
           | (Inr tok, c2) \<Rightarrow>
               via_session (send_enter_order (enter_order_msg args tok)) tok
                 (c2\<lparr>oc_book := book_insert (token_view tok) (pending_order args) (oc_book c2)\<rparr>)))"

section \<open>Replace order\<close>

definition replace_order_msg :: "replace_args \<Rightarrow> order_token \<Rightarrow> ReplaceOrder" where
  "replace_order_msg args nxt =
     zero_ReplaceOrder\<lparr>
       ro_message_type := kReplaceOrder,
       ro_existing_order_token := token_set (order_token_of (ra_existing_token args)),
       ro_replacement_order_token := token_set nxt,
       ro_quantity := ra_new_total_quantity args,
       ro_price := ra_new_price args,
       ro_open_close := open_close_wire (ra_open_close args),
       ro_client_account := alpha_set 16 (ra_client_account args),
       ro_customer_info := alpha_set 15 (ra_customer_info args),
       ro_exchange_info := alpha_set 32 (ra_exchange_info args),
       ro_display_quantity := ra_display_quantity args,
       ro_client_category := client_category_wire (ra_category args)\<rparr>"

definition replace :: "replace_args \<Rightarrow> ouch_client \<Rightarrow> order_token result \<times> ouch_client" where
  "replace args c =
     (if \<not> is_valid_open_close_for_replace (open_close_wire (ra_open_close args))
      then (Inl (make_error Validation
             (''OpenClose value illegal in Replace per Spec 4.1.2.2 ''
              @ ''(allowed: ReplaceKeep=0, ReplaceDefault=4)'')), c)
      else case acquire c of
        (False, c1) \<Rightarrow> (Inl (make_error Throttled ''throttler empty''), c1)
      | (True, c1) \<Rightarrow>
          (if ra_existing_token args = []
           then (Inl (make_error Validation ''existing_token required''), c1)
           else case take_token (ra_new_token args) ''new_token already used: '' c1 of
             (Inl e, c2) \<Rightarrow> (Inl e, c2)
           | (Inr nxt, c2) \<Rightarrow>
               via_session (send_replace_order (replace_order_msg args nxt)) nxt
                 (mark_order (ra_existing_token args) Replacing c2)))"

section \<open>Cancel\<close>

definition cancel_order_msg :: "string \<Rightarrow> CancelOrder" where
  "cancel_order_msg token =
     zero_CancelOrder\<lparr>co_message_type := kCancelOrder,
       co_order_token := token_set (order_token_of token)\<rparr>"

definition cancel_by_token :: "string \<Rightarrow> ouch_client \<Rightarrow> unit result \<times> ouch_client" where
  "cancel_by_token token c =
     (case acquire c of
        (False, c1) \<Rightarrow> (Inl (make_error Throttled ''throttler empty''), c1)
      | (True, c1) \<Rightarrow>
          via_session (send_cancel (cancel_order_msg token)) () (mark_order token Canceling c1))"

definition cancel_by_id_msg :: "order_book_id \<Rightarrow> side \<Rightarrow> order_id \<Rightarrow> CancelByOrderId" where
  "cancel_by_id_msg bk sd oid =
     zero_CancelByOrderId\<lparr>cy_message_type := kCancelByOrderId, cy_order_book_id := bk,
       cy_side := to_wire sd, cy_order_id := oid\<rparr>"

definition cancel_by_order_id ::
  "order_book_id \<Rightarrow> side \<Rightarrow> order_id \<Rightarrow> ouch_client \<Rightarrow> unit result \<times> ouch_client" where
  "cancel_by_order_id bk sd oid c =
     (case acquire c of
        (False, c1) \<Rightarrow> (Inl (make_error Throttled ''throttler empty''), c1)
      | (True, c1) \<Rightarrow> via_session (send_cancel_by_id (cancel_by_id_msg bk sd oid)) () c1)"

section \<open>Mass quote\<close>

definition quote_header :: "mass_quote_args \<Rightarrow> order_token \<Rightarrow> MassQuoteHeader" where
  "quote_header args tok =
     zero_MassQuoteHeader\<lparr>
       mh_message_type := kMassQuote,
       mh_order_token := token_set tok,
       mh_client_category := client_category_wire (ma_category args),
       mh_client_account := alpha_set 16 (ma_client_account args),
       mh_exchange_info := alpha_set 16 (ma_exchange_info args),
       mh_no_quote_entries := word_of_nat (length (ma_entries args))\<rparr>"

definition quote_entry :: "quote_entry_args \<Rightarrow> QuoteEntry" where
  "quote_entry a =
     \<lparr>qe_order_book_id = qa_order_book_id a, qe_bid_price = qa_bid_price a,
      qe_offer_price = qa_offer_price a, qe_bid_size = qa_bid_size a,
      qe_offer_size = qa_offer_size a\<rparr>"

definition quote_blob :: "mass_quote_args \<Rightarrow> order_token \<Rightarrow> byte list" where
  "quote_blob args tok =
     enc_MassQuoteHeader (quote_header args tok)
     @ concat (map (\<lambda>a. enc_QuoteEntry (quote_entry a)) (ma_entries args))"

definition mass_quote :: "mass_quote_args \<Rightarrow> ouch_client \<Rightarrow> order_token result \<times> ouch_client" where
  "mass_quote args c =
     (if ma_entries args = [] \<or> length (ma_entries args) > kMaxQuoteEntries
      then (Inl (make_error Validation ''MassQuote requires 1..5 entries''), c)
      else case acquire c of
        (False, c1) \<Rightarrow> (Inl (make_error Throttled ''throttler empty''), c1)
      | (True, c1) \<Rightarrow>
          (case take_token (ma_token args) ''MassQuote token already used: '' c1 of
             (Inl e, c2) \<Rightarrow> (Inl e, c2)
           | (Inr tok, c2) \<Rightarrow> via_session (send_mass_quote (quote_blob args tok)) tok c2))"

section \<open>No order without a grant\<close>

text \<open>What has left the session, or waits to leave it.\<close>

definition output_of :: "ouch_client \<Rightarrow> byte list \<times> byte list" where
  "output_of c = (sk_wire (ss_socket (oc_session c)), ss_out_pending (oc_session c))"

datatype client_call =
  CallPlace place_args | CallReplace replace_args | CallCancel string
| CallCancelId order_book_id side order_id | CallQuote mass_quote_args

fun do_call :: "client_call \<Rightarrow> ouch_client \<Rightarrow> ouch_client" where
  "do_call (CallPlace a) c = snd (place a c)"
| "do_call (CallReplace a) c = snd (replace a c)"
| "do_call (CallCancel t) c = snd (cancel_by_token t c)"
| "do_call (CallCancelId b sd i) c = snd (cancel_by_order_id b sd i c)"
| "do_call (CallQuote a) c = snd (mass_quote a c)"

text \<open>The log of a run of calls: the clock reading each call found, and whether it produced
  output.\<close>

fun client_log :: "client_call list \<Rightarrow> ouch_client \<Rightarrow> (u64 \<times> bool) list" where
  "client_log [] c = []"
| "client_log (a # as) c =
     (let c1 = do_call a c
      in (ck_now (ss_clock (oc_session c)), output_of c1 \<noteq> output_of c) # client_log as c1)"

text \<open>A call either leaves throttler and output alone, or consults the throttler once and
  produces output only when granted.\<close>

definition guarded :: "ouch_client \<Rightarrow> ouch_client \<Rightarrow> bool" where
  "guarded c c' \<longleftrightarrow>
     (oc_throttler c' = oc_throttler c \<and> output_of c' = output_of c)
     \<or> (\<exists>now. now = ck_now (ss_clock (oc_session c))
        \<and> oc_throttler c' = snd (try_acquire (oc_throttler c) 0 now)
        \<and> (output_of c' \<noteq> output_of c \<longrightarrow> fst (try_acquire (oc_throttler c) 0 now)))"

lemma acquire_simps:
  "fst (acquire c) = fst (try_acquire (oc_throttler c) 0 (ck_now (ss_clock (oc_session c))))"
  "oc_throttler (snd (acquire c)) = snd (try_acquire (oc_throttler c) 0 (ck_now (ss_clock (oc_session c))))"
  "output_of (snd (acquire c)) = output_of c" "oc_book (snd (acquire c)) = oc_book c"
  "oc_tokens (snd (acquire c)) = oc_tokens c"
  by (simp_all add: acquire_def try_acquire_def monotonic_ns_def output_of_def Let_def case_prod_beta)

lemma acquire_granted:
  assumes "fst (try_acquire (oc_throttler c) 0 (ck_now (ss_clock (oc_session c))))"
  obtains c1 where "acquire c = (True, c1)" "oc_tokens c1 = oc_tokens c" "oc_book c1 = oc_book c"
    "ss_state (oc_session c1) = ss_state (oc_session c)" "ss_socket (oc_session c1) = ss_socket (oc_session c)"
    "output_of c1 = output_of c" "ss_in_buffer (oc_session c1) = ss_in_buffer (oc_session c)"
    "ss_handlers (oc_session c1) = ss_handlers (oc_session c)"
proof (rule that [of "snd (acquire c)"])
  show "acquire c = (True, snd (acquire c))"
    using assms acquire_simps(1) [of c] by (simp add: prod_eq_iff)
qed (simp_all add: acquire_def monotonic_ns_def Let_def case_prod_beta output_of_def)

lemma take_allocated:
  "take_token [] m c = (Inr (fst (allocate (oc_tokens c))), c\<lparr>oc_tokens := snd (allocate (oc_tokens c))\<rparr>)"
  by (simp add: take_token_def case_prod_beta)

lemma take_token_frame:
  "oc_throttler (snd (take_token x m c)) = oc_throttler c" "output_of (snd (take_token x m c)) = output_of c"
  "oc_session (snd (take_token x m c)) = oc_session c" "oc_book (snd (take_token x m c)) = oc_book c"
  by (simp_all add: take_token_def output_of_def Let_def case_prod_beta)

lemma via_session_throttler [simp]: "oc_throttler (snd (via_session f v c)) = oc_throttler c"
  by (simp add: via_session_def case_prod_beta)

lemma guardedI_denied: "\<not> fst (acquire c) \<Longrightarrow> guarded c (snd (acquire c))"
  by (auto simp: guarded_def acquire_simps)

lemma guardedI_granted:
  "fst (acquire c) \<Longrightarrow> oc_throttler c' = oc_throttler (snd (acquire c)) \<Longrightarrow> guarded c c'"
  by (auto simp: guarded_def acquire_simps)

lemma do_call_guarded: "guarded c (do_call a c)"
proof (cases a)
  case (CallPlace args)
  then show ?thesis
    by (cases "fst (acquire c)")
      (auto simp: place_def take_token_frame case_prod_beta guardedI_denied
        split: sum.split intro!: guardedI_granted)
next
  case (CallReplace args)
  have same: "guarded c c" by (simp add: guarded_def)
  show ?thesis
    by (cases "fst (acquire c)")
      (auto simp: CallReplace replace_def take_token_frame mark_order_def case_prod_beta guardedI_denied same
        split: sum.split intro!: guardedI_granted)
next
  case (CallCancel t)
  then show ?thesis
    by (cases "fst (acquire c)")
      (auto simp: cancel_by_token_def mark_order_def case_prod_beta guardedI_denied intro!: guardedI_granted)
next
  case (CallCancelId b sd i)
  then show ?thesis
    by (cases "fst (acquire c)")
      (auto simp: cancel_by_order_id_def case_prod_beta guardedI_denied intro!: guardedI_granted)
next
  case (CallQuote args)
  have same: "guarded c c" by (simp add: guarded_def)
  show ?thesis
    by (cases "fst (acquire c)")
      (auto simp: CallQuote mass_quote_def take_token_frame case_prod_beta guardedI_denied same
        split: sum.split intro!: guardedI_granted)
qed

lemma accepted_in_Cons [simp]:
  "accepted_in w (v # vs) (b # bs) = (if b \<and> in_span w v then 1 else 0) + accepted_in w vs bs"
  by (simp add: accepted_in_def)

lemma client_log_rate:
  "throttler_rel (oc_throttler c) acc cw \<Longrightarrow> sorted (cw # map (\<lambda>x. win (fst x)) (client_log as c)) \<Longrightarrow>
     length (filter (in_span w) acc)
       + accepted_in w (map (\<lambda>x. win (fst x)) (client_log as c)) (map snd (client_log as c))
     \<le> unat (th_limit (oc_throttler c))"
proof (induction as arbitrary: c acc cw)
  case Nil
  then show ?case by (simp add: throttler_rel_def accepted_in_def)
next
  case (Cons a as)
  let ?c1 = "do_call a c" and ?now = "ck_now (ss_clock (oc_session c))"
  let ?rest = "client_log as (do_call a c)"
  have st: "cw \<le> win ?now" "sorted (win ?now # map (\<lambda>x. win (fst x)) ?rest)" "sorted (cw # map (\<lambda>x. win (fst x)) ?rest)"
    using Cons.prems(2) by (auto simp: Let_def comp_def)
  consider (same) "oc_throttler ?c1 = oc_throttler c" "output_of ?c1 = output_of c"
    | (asked) "oc_throttler ?c1 = snd (try_acquire (oc_throttler c) 0 ?now)"
        "output_of ?c1 \<noteq> output_of c \<longrightarrow> fst (try_acquire (oc_throttler c) 0 ?now)"
    using do_call_guarded [of c a] by (auto simp: guarded_def)
  then show ?case
  proof cases
    case same
    then show ?thesis
      using Cons.IH [of ?c1 acc cw] Cons.prems(1) st(3) by (simp add: Let_def comp_def)
  next
    case asked
    let ?ok = "fst (try_acquire (oc_throttler c) 0 ?now)"
    have "throttler_rel (oc_throttler ?c1) (if ?ok then win ?now # acc else acc) (win ?now)"
      using lim.step_rel [OF Cons.prems(1) st(1)] asked(1) by simp
    then have "length (filter (in_span w) (if ?ok then win ?now # acc else acc))
        + accepted_in w (map (\<lambda>x. win (fst x)) ?rest) (map snd ?rest) \<le> unat (th_limit (oc_throttler ?c1))"
      using st(2) by (rule Cons.IH)
    then show ?thesis using asked by (auto simp: Let_def split: if_splits)
  qed
qed

section \<open>Messages on the wire\<close>

lemma wf_enter_order_msg [simp]: "wf_EnterOrder (enter_order_msg args tok)"
  using wf_zero_EnterOrder by (simp add: wf_EnterOrder_def enter_order_msg_def)

lemma wf_replace_order_msg [simp]: "wf_ReplaceOrder (replace_order_msg args tok)"
  using wf_zero_ReplaceOrder by (simp add: wf_ReplaceOrder_def replace_order_msg_def)

lemma wf_quote_header [simp]: "wf_MassQuoteHeader (quote_header args tok)"
  using wf_zero_MassQuoteHeader by (simp add: wf_MassQuoteHeader_def quote_header_def)

lemma send_unsequenced_ready:
  assumes "ss_state s = Active" "sk_open (ss_socket s)" "sk_sends (ss_socket s) = []" "p \<noteq> []"
  shows "fst (send_unsequenced p s) = Inr ()
    \<and> sk_wire (ss_socket (snd (send_unsequenced p s))) = sk_wire (ss_socket s) @ frame kUnsequencedData p
    \<and> ss_in_buffer (snd (send_unsequenced p s)) = ss_in_buffer s
    \<and> ss_handlers (snd (send_unsequenced p s)) = ss_handlers s"
  using assms
  by (simp add: send_unsequenced_def write_bytes_ready monotonic_ns_def Let_def case_prod_beta frame_def)

lemma wf_quote_entry [simp]: "wf_QuoteEntry (quote_entry a)"
  by (simp add: wf_QuoteEntry_def)

lemma quote_entries_slice:
  "i < length as \<Longrightarrow>
     slice_at (28 * i) 28 (concat (map (\<lambda>a. enc_QuoteEntry (quote_entry a)) as)) = enc_QuoteEntry (quote_entry (as ! i))"
proof (induction as arbitrary: i)
  case Nil
  then show ?case by simp
next
  case (Cons a as)
  have len: "length (enc_QuoteEntry (quote_entry a)) = 28" by (simp add: qe.length_enc)
  then show ?case
    using Cons by (cases i) (simp_all add: slice_here slice_skip)
qed

lemma quote_blob_length: "length (quote_blob args tok) = kMassQuoteHdrLen + kQuoteEntryLen * length (ma_entries args)"
  by (simp add: quote_blob_def mh.length_enc qe.length_enc length_concat comp_def sum_list_triv
      kMassQuoteHdrLen_def kQuoteEntryLen_def)

lemma quote_blob_entry:
  "i < length (ma_entries args) \<Longrightarrow>
     dec_QuoteEntry (slice_at (50 + 28 * i) 28 (quote_blob args tok)) = quote_entry (ma_entries args ! i)"
  by (simp add: quote_blob_def slice_skip mh.length_enc quote_entries_slice qe.dec_enc)

lemma enter_order_msg_fields:
  "eo_order_token (enter_order_msg args tok) = token_bytes tok"
  "eo_quantity (enter_order_msg args tok) = pa_quantity args"
  "eo_price (enter_order_msg args tok) = pa_price args"
  "eo_side (enter_order_msg args tok) = to_wire (pa_side args)"
  "eo_order_book_id (enter_order_msg args tok) = pa_order_book_id args"
  "alpha_get (eo_client_account (enter_order_msg args tok)) = trim_blanks (take 16 (pa_client_account args))"
  "eo_message_type (enter_order_msg args tok) = kEnterOrder"
  by (simp_all add: enter_order_msg_def token_set_def alpha_get_trim alpha_set_pad_field trim_pad_field)

lemma place_ready:
  assumes "fst (try_acquire (oc_throttler c) 0 (ck_now (ss_clock (oc_session c))))"
    "ss_state (oc_session c) = Active" "sk_open (ss_socket (oc_session c))"
    "sk_sends (ss_socket (oc_session c)) = []" "pa_explicit_token args = []"
  shows "\<exists>c'. place args c = (Inr (fst (allocate (oc_tokens c))), c')
    \<and> sk_wire (ss_socket (oc_session c')) = sk_wire (ss_socket (oc_session c))
        @ frame kUnsequencedData (enc_EnterOrder (enter_order_msg args (fst (allocate (oc_tokens c)))))
    \<and> ss_in_buffer (oc_session c') = ss_in_buffer (oc_session c)
    \<and> ss_handlers (oc_session c') = ss_handlers (oc_session c)
    \<and> book_find (oc_book c') (token_view (fst (allocate (oc_tokens c)))) =
        Some (pending_order args\<lparr>os_leaves := os_original_qty (pending_order args)\<rparr>)"
proof -
  obtain c1 where c1: "acquire c = (True, c1)" "oc_tokens c1 = oc_tokens c" "oc_book c1 = oc_book c"
    "ss_state (oc_session c1) = ss_state (oc_session c)" "ss_socket (oc_session c1) = ss_socket (oc_session c)"
    "ss_in_buffer (oc_session c1) = ss_in_buffer (oc_session c)"
    "ss_handlers (oc_session c1) = ss_handlers (oc_session c)"
    using acquire_granted [OF assms(1)] by metis
  let ?tok = "fst (allocate (oc_tokens c))"
  let ?p = "enc_EnterOrder (enter_order_msg args ?tok)"
  have ne: "?p \<noteq> []" by (simp add: enc_EnterOrder_def enc_char_def)
  have sent: "fst (send_unsequenced ?p (oc_session c1)) = Inr ()"
    "sk_wire (ss_socket (snd (send_unsequenced ?p (oc_session c1))))
      = sk_wire (ss_socket (oc_session c)) @ frame kUnsequencedData ?p"
    "ss_in_buffer (snd (send_unsequenced ?p (oc_session c1))) = ss_in_buffer (oc_session c)"
    "ss_handlers (snd (send_unsequenced ?p (oc_session c1))) = ss_handlers (oc_session c)"
    using send_unsequenced_ready [OF _ _ _ ne, of "oc_session c1"] assms(2-4) c1 by simp_all
  let ?c2 = "c1\<lparr>oc_tokens := snd (allocate (oc_tokens c)),
    oc_book := book_insert (token_view ?tok) (pending_order args) (oc_book c)\<rparr>"
  have "place args c = via_session (send_unsequenced ?p) ?tok ?c2"
    by (simp add: place_def c1 assms(5) take_allocated send_enter_order_def)
  then have pl: "place args c = (Inr ?tok, ?c2\<lparr>oc_session := snd (send_unsequenced ?p (oc_session c1))\<rparr>)"
    using sent(1) by (simp add: via_session_def case_prod_beta)
  have "book_find (oc_book ?c2) (token_view ?tok) =
      Some (pending_order args\<lparr>os_leaves := os_original_qty (pending_order args)\<rparr>)"
    by (simp add: book.get_put_same)
  then show ?thesis
    using sent(2-4) by (intro exI [of _ "?c2\<lparr>oc_session := snd (send_unsequenced ?p (oc_session c1))\<rparr>"])
      (simp add: pl)
qed

section \<open>Properties\<close>

text \<open>
  C8: No output without a grant. Whatever sequence of calls the application makes (orders,
  replaces, cancels, quotes, valid or not), as long as the clock does not run backwards, at
  most \<open>min capacity tokens_per_sec\<close> of the calls in any ten consecutive 100 ms windows put a
  byte on the wire or in the stash.
\<close>

theorem client_output_rate:
  assumes "oc_throttler c = throttler_init cap tps" "sorted (map fst (client_log calls c))"
  shows "accepted_in w (map (\<lambda>x. win (fst x)) (client_log calls c)) (map snd (client_log calls c))
    \<le> min (unat cap) (unat tps)"
proof -
  have "sorted (map (\<lambda>x. win (fst x)) (client_log calls c))"
    using sorted_windows [OF assms(2)] by (simp add: comp_def)
  then have "accepted_in w (map (\<lambda>x. win (fst x)) (client_log calls c)) (map snd (client_log calls c))
      \<le> unat (th_limit (oc_throttler c))"
    using client_log_rate [of c "[]" 0 calls w] throttler_rel_init assms(1) by simp
  then show ?thesis
    by (simp add: assms(1) throttler_init_def min_def word_less_nat_alt split: if_splits)
qed

text \<open>
  A placed order. With a throttler grant, an active session, a kernel that takes all bytes
  and no explicit token, \<open>place\<close> returns the token the registry allocates, puts on the wire one
  packet whose payload decodes to the order asked for under that token, and enters the order
  in the local book as pending with all its quantity open.
\<close>

lemma place_sends_the_order:
  assumes "fst (try_acquire (oc_throttler c) 0 (ck_now (ss_clock (oc_session c))))"
    "ss_state (oc_session c) = Active" "sk_open (ss_socket (oc_session c))"
    "sk_sends (ss_socket (oc_session c)) = []" "pa_explicit_token args = []"
  shows "\<exists>tok c' payload eo. place args c = (Inr tok, c')
    \<and> tok = fst (allocate (oc_tokens c))
    \<and> sk_wire (ss_socket (oc_session c')) = sk_wire (ss_socket (oc_session c)) @ frame kUnsequencedData payload
    \<and> dec_EnterOrder payload = eo \<and> eo_order_token eo = token_bytes tok
    \<and> eo_quantity eo = pa_quantity args \<and> eo_price eo = pa_price args
    \<and> eo_side eo = to_wire (pa_side args) \<and> eo_order_book_id eo = pa_order_book_id args
    \<and> alpha_get (eo_client_account eo) = trim_blanks (take 16 (pa_client_account args))
    \<and> map_option os_status (book_find (oc_book c') (token_view tok)) = Some Pending
    \<and> map_option os_leaves (book_find (oc_book c') (token_view tok)) = Some (pa_quantity args)"
proof -
  let ?tok = "fst (allocate (oc_tokens c))"
  let ?eo = "enter_order_msg args ?tok"
  obtain c' where c': "place args c = (Inr ?tok, c')"
    "sk_wire (ss_socket (oc_session c')) = sk_wire (ss_socket (oc_session c))
      @ frame kUnsequencedData (enc_EnterOrder ?eo)"
    "book_find (oc_book c') (token_view ?tok) =
      Some (pending_order args\<lparr>os_leaves := os_original_qty (pending_order args)\<rparr>)"
    using place_ready [OF assms] by blast
  have st: "map_option os_status (book_find (oc_book c') (token_view ?tok)) = Some Pending"
    "map_option os_leaves (book_find (oc_book c') (token_view ?tok)) = Some (pa_quantity args)"
    unfolding c'(3) by (simp_all add: pending_order_def)
  have dec: "dec_EnterOrder (enc_EnterOrder ?eo) = ?eo" by (intro eo.dec_enc) simp
  show ?thesis
    by (intro exI conjI) (rule c'(1,2) refl dec enter_order_msg_fields st)+
qed

text \<open>
  An order refused by the session is not undone: on an inactive session \<open>place\<close> fails with
  the session's error and sends nothing, but the token stays used and the local book keeps a
  pending order that never existed.
\<close>

lemma failed_place_leaves_order:
  assumes "fst (try_acquire (oc_throttler c) 0 (ck_now (ss_clock (oc_session c))))"
    "ss_state (oc_session c) \<noteq> Active" "pa_explicit_token args = []"
  shows "fst (place args c) = Inl (make_error StateMismatch ''session not Active'')
    \<and> output_of (snd (place args c)) = output_of c
    \<and> token_view (fst (allocate (oc_tokens c))) \<in> tr_seen (oc_tokens (snd (place args c)))
    \<and> map_option os_status (book_find (oc_book (snd (place args c))) (token_view (fst (allocate (oc_tokens c)))))
        = Some Pending"
proof -
  obtain c1 where c1: "acquire c = (True, c1)" "oc_tokens c1 = oc_tokens c" "oc_book c1 = oc_book c"
    "ss_state (oc_session c1) = ss_state (oc_session c)" "output_of c1 = output_of c"
    using acquire_granted [OF assms(1)] by metis
  let ?tok = "fst (allocate (oc_tokens c))"
  let ?c2 = "c1\<lparr>oc_tokens := snd (allocate (oc_tokens c)),
    oc_book := book_insert (token_view ?tok) (pending_order args) (oc_book c)\<rparr>"
  have "place args c = via_session (send_enter_order (enter_order_msg args ?tok)) ?tok ?c2"
    by (simp add: place_def c1 assms(3) take_allocated)
  then have pl: "place args c = (Inl (make_error StateMismatch ''session not Active''), ?c2)"
    using assms(2) c1(4) by (simp add: via_session_def send_enter_order_def send_unsequenced_def)
  have "output_of ?c2 = output_of c" using c1(5) by (simp add: output_of_def)
  moreover have "token_view ?tok \<in> tr_seen (oc_tokens ?c2)" by (simp add: allocate_def Let_def)
  moreover have "map_option os_status (book_find (oc_book ?c2) (token_view ?tok)) = Some Pending"
    by (simp add: book.get_put_same pending_order_def)
  ultimately show ?thesis unfolding pl fst_conv snd_conv by (intro conjI refl)
qed

text \<open>
  A replace whose open/close value the exchange does not allow there is refused before
  anything is used up, and so is a quote without one to five entries: the client is unchanged.
\<close>

lemma illegal_requests_change_nothing:
  assumes "ra_open_close rargs \<in> {Open, CloseNet}" "length (ma_entries margs) \<notin> {1..5}"
  shows "\<exists>e e'. replace rargs c = (Inl e, c) \<and> category e = Validation
    \<and> mass_quote margs c = (Inl e', c) \<and> category e' = Validation"
  using assms
  by (cases "ma_entries margs")
    (auto simp: replace_def is_valid_open_close_for_replace_def mass_quote_def kMaxQuoteEntries_def)

text \<open>
  A mass quote on the wire: with a grant, an active session, a ready kernel and no explicit
  token, one packet goes out whose payload is a header that announces the number of entries,
  followed by the entries in order, each decoding to the quote asked for.
\<close>

lemma mass_quote_sends_the_quotes:
  assumes "fst (try_acquire (oc_throttler c) 0 (ck_now (ss_clock (oc_session c))))"
    "ss_state (oc_session c) = Active" "sk_open (ss_socket (oc_session c))"
    "sk_sends (ss_socket (oc_session c)) = []" "ma_token args = []"
    "length (ma_entries args) \<in> {1..5}"
  shows "\<exists>tok c' payload. mass_quote args c = (Inr tok, c')
    \<and> sk_wire (ss_socket (oc_session c')) = sk_wire (ss_socket (oc_session c)) @ frame kUnsequencedData payload
    \<and> length payload = kMassQuoteHdrLen + kQuoteEntryLen * length (ma_entries args)
    \<and> unat (mh_no_quote_entries (dec_MassQuoteHeader (take 50 payload))) = length (ma_entries args)
    \<and> mh_order_token (dec_MassQuoteHeader (take 50 payload)) = token_bytes tok
    \<and> (\<forall>i < length (ma_entries args).
        dec_QuoteEntry (slice_at (50 + 28 * i) 28 payload) = quote_entry (ma_entries args ! i))"
proof -
  obtain c1 where c1: "acquire c = (True, c1)" "oc_tokens c1 = oc_tokens c"
    "ss_state (oc_session c1) = ss_state (oc_session c)" "ss_socket (oc_session c1) = ss_socket (oc_session c)"
    using acquire_granted [OF assms(1)] by metis
  let ?tok = "fst (allocate (oc_tokens c))"
  let ?p = "quote_blob args ?tok"
  have ne: "?p \<noteq> []" by (simp add: quote_blob_def enc_MassQuoteHeader_def enc_char_def)
  have sent: "fst (send_unsequenced ?p (oc_session c1)) = Inr ()"
    "sk_wire (ss_socket (snd (send_unsequenced ?p (oc_session c1))))
      = sk_wire (ss_socket (oc_session c)) @ frame kUnsequencedData ?p"
    using send_unsequenced_ready [OF _ _ _ ne, of "oc_session c1"] assms(2-4) c1 by simp_all
  have valid: "\<not> (ma_entries args = [] \<or> length (ma_entries args) > kMaxQuoteEntries)"
    using assms(6) by (auto simp: kMaxQuoteEntries_def)
  have pl: "mass_quote args c = (Inr ?tok, snd (mass_quote args c))"
    using sent(1) valid by (simp add: prod_eq_iff mass_quote_def c1 assms(5) take_allocated via_session_def
        send_mass_quote_def case_prod_beta)
  have wire: "sk_wire (ss_socket (oc_session (snd (mass_quote args c)))) =
      sk_wire (ss_socket (oc_session c)) @ frame kUnsequencedData ?p"
    using sent(2) valid by (simp add: mass_quote_def c1 assms(5) take_allocated via_session_def
        send_mass_quote_def case_prod_beta)
  have lh: "length (enc_MassQuoteHeader (quote_header args ?tok)) = 50" by (simp add: mh.length_enc)
  have hdr: "dec_MassQuoteHeader (take 50 ?p) = quote_header args ?tok"
    using lh by (simp add: quote_blob_def mh.dec_enc)
  have cnt: "unat (mh_no_quote_entries (dec_MassQuoteHeader (take 50 ?p))) = length (ma_entries args)"
    and htok: "mh_order_token (dec_MassQuoteHeader (take 50 ?p)) = token_bytes ?tok"
    unfolding hdr using assms(6) by (simp_all add: quote_header_def token_set_def unat_of_nat)
  show ?thesis
    by (intro exI conjI allI impI) (rule pl wire quote_blob_length cnt htok | erule quote_blob_entry)+
qed

section \<open>Witnesses\<close>

definition sample_client :: ouch_client where
  "sample_client =
     \<lparr>oc_session = sample_session\<lparr>ss_state := Active\<rparr>, oc_tokens = token_registry_init ''C-'',
      oc_throttler = throttler_init 2 5, oc_book = Map.empty\<rparr>"

definition sample_place :: place_args where
  "sample_place =
     \<lparr>pa_symbol = ''GARAN.E'', pa_order_book_id = 74196, pa_side = Buy, pa_quantity = 100,
      pa_price = 6200, pa_tif = Day, pa_open_close = DefaultForAccount, pa_category = Client,
      pa_display_quantity = 0, pa_client_account = ''PYM'', pa_customer_info = [],
      pa_exchange_info = [], pa_explicit_token = [], pa_off_hours = 0\<rparr>"

definition sample_quotes :: mass_quote_args where
  "sample_quotes =
     \<lparr>ma_token = [], ma_category = Client, ma_client_account = ''PYM'', ma_exchange_info = [],
      ma_entries = [\<lparr>qa_order_book_id = 74196, qa_bid_price = 6190, qa_bid_size = 10,
        qa_offer_price = 6210, qa_offer_size = 10\<rparr>]\<rparr>"

lemma sample_client_simps [simp]:
  "oc_session sample_client = sample_session\<lparr>ss_state := Active\<rparr>"
  "oc_tokens sample_client = token_registry_init ''C-''"
  "oc_throttler sample_client = throttler_init 2 5" "oc_book sample_client = Map.empty"
  by (simp_all add: sample_client_def)

lemma sample_grant: "fst (try_acquire (throttler_init 2 5) 0 5)"
  using lim.step_decides [OF throttler_rel_init [of 2 5], of 5] by (simp add: throttler_init_def)

theorem client_output_rate_witness:
  "accepted_in 0 (map (\<lambda>x. win (fst x)) (client_log [CallPlace sample_place] sample_client))
     (map snd (client_log [CallPlace sample_place] sample_client)) \<le> 2"
  using client_output_rate [of sample_client 2 5 "[CallPlace sample_place]" 0] by (simp add: Let_def)

end
