(* ===== verification/Gateway.thy ===== *)
theory Gateway
  imports Session_Parse Keyed_Store
begin

text \<open>
  The mock OUCH gateway, \<open>include/bist/mock/ouch_gateway.hpp\<close> and \<open>src/mock/ouch_gateway.cpp\<close>,
  the counterpart the client is certified against. The gateway's state is one record; what it
  sends is the list of its packets, whose bytes on the descriptor are \<open>frames\<close> of the list. A
  handler is \<open>None\<close> where the code reads past the payload or dies of an exception.

  The threads are not modelled: the mutex-protected sections are atomic steps here, and the
  runner-driven calls interleave with the packets as separate steps of a run.
\<close>

section \<open>State\<close>

record resting_order =
  rs_order_book_id :: u32
  rs_side :: char
  rs_order_id :: u64

record gateway =
  gw_connected :: bool
  gw_order_id_seq :: u64
  gw_accepted_password :: string
  gw_arm_duplicate_reject :: bool
  gw_seen_tokens :: "string list"
  gw_resting :: "string \<rightharpoonup> resting_order"
  gw_quote_active :: "string \<rightharpoonup> bool"
  gw_wall :: clock
  gw_mono :: clock
  gw_sent :: "(char \<times> byte list) list"

definition gateway_init :: "clock \<Rightarrow> clock \<Rightarrow> gateway" where
  "gateway_init wall mono_ck =
     \<lparr>gw_connected = True, gw_order_id_seq = 1, gw_accepted_password = ''123456'',
      gw_arm_duplicate_reject = False, gw_seen_tokens = [], gw_resting = Map.empty,
      gw_quote_active = Map.empty, gw_wall = wall, gw_mono = mono_ck, gw_sent = []\<rparr>"

definition set_accepted_password :: "string \<Rightarrow> gateway \<Rightarrow> gateway" where
  "set_accepted_password pw g = g\<lparr>gw_accepted_password := pw\<rparr>"

definition arm_duplicate_login_reject :: "gateway \<Rightarrow> gateway" where
  "arm_duplicate_login_reject g = g\<lparr>gw_arm_duplicate_reject := True\<rparr>"

section \<open>Sending\<close>

text \<open>\<open>write_all\<close> of a complete packet.\<close>

definition send_packet :: "char \<Rightarrow> byte list \<Rightarrow> gateway \<Rightarrow> gateway" where
  "send_packet t payload g = g\<lparr>gw_sent := gw_sent g @ [(t, payload)]\<rparr>"

definition send_sequenced :: "byte list \<Rightarrow> gateway \<Rightarrow> gateway" where
  "send_sequenced msg = send_packet kSequencedData msg"

definition send_heartbeat :: "gateway \<Rightarrow> gateway" where
  "send_heartbeat = send_packet kServerHeartbeat []"

definition send_login_accepted :: "gateway \<Rightarrow> gateway" where
  "send_login_accepted =
     send_packet kLoginAccepted (bytes_of_string (''MOCKSESS01'' @ replicate (kSequenceLen - 1) CHR ''0'' @ ''1''))"

definition send_login_rejected :: "char \<Rightarrow> gateway \<Rightarrow> gateway" where
  "send_login_rejected reason = send_packet kLoginRejected (enc_char reason)"

definition wall_ns :: "gateway \<Rightarrow> u64 \<times> gateway" where
  "wall_ns g = (let (t, c) = read_clock (gw_wall g) in (t, g\<lparr>gw_wall := c\<rparr>))"

section \<open>Login\<close>

definition handle_login :: "byte list \<Rightarrow> gateway \<Rightarrow> gateway" where
  "handle_login payload g =
     (if length payload < kUsernameLen + kPasswordLen then send_login_rejected CHR ''A'' g
      else if gw_arm_duplicate_reject g
        then send_login_rejected CHR ''S'' (g\<lparr>gw_arm_duplicate_reject := False\<rparr>)
      else if trim_blanks (string_of_bytes (slice_at kUsernameLen kPasswordLen payload)) \<noteq> gw_accepted_password g
        then send_login_rejected CHR ''A'' g
      else send_login_accepted g)"

section \<open>Order messages\<close>

definition order_rejected_msg :: "EnterOrder \<Rightarrow> i32 \<Rightarrow> u64 \<Rightarrow> OrderRejected" where
  "order_rejected_msg eo rcode now =
     zero_OrderRejected\<lparr>oj_message_type := kOrderRejected, oj_timestamp_ns := now,
       oj_order_token := eo_order_token eo, oj_reject_code := rcode\<rparr>"

definition reject_order :: "EnterOrder \<Rightarrow> i32 \<Rightarrow> gateway \<Rightarrow> gateway" where
  "reject_order eo rcode g =
     (let (now, g1) = wall_ns g in send_sequenced (enc_OrderRejected (order_rejected_msg eo rcode now)) g1)"

definition order_accepted_msg :: "EnterOrder \<Rightarrow> u64 \<Rightarrow> u64 \<Rightarrow> OrderAccepted" where
  "order_accepted_msg eo oid now =
     zero_OrderAccepted\<lparr>
       oa_message_type := kOrderAccepted,
       oa_timestamp_ns := now,
       oa_order_token := eo_order_token eo,
       oa_order_book_id := eo_order_book_id eo,
       oa_side := eo_side eo,
       oa_order_id := oid,
       oa_quantity := eo_quantity eo,
       oa_price := eo_price eo,
       oa_time_in_force := eo_time_in_force eo,
       oa_open_close := eo_open_close eo,
       oa_client_account := eo_client_account eo,
       oa_order_state := order_state_wire OnBookState,
       oa_customer_info := eo_customer_info eo,
       oa_exchange_info := eo_exchange_info eo,
       oa_pre_trade_quantity := eo_quantity eo,
       oa_display_quantity := eo_display_quantity eo,
       oa_client_category := eo_client_category eo,
       oa_off_hours := eo_off_hours eo\<rparr>"

definition on_enter_order :: "EnterOrder \<Rightarrow> gateway \<Rightarrow> gateway" where
  "on_enter_order eo g =
     (let tok = eo_order_token eo
      in if tok \<in> set (gw_seen_tokens g) then reject_order eo kTokenNotUnique g
         else let g1 = g\<lparr>gw_seen_tokens := gw_seen_tokens g @ [tok]\<rparr>
              in if 9000 <s eo_price eo then reject_order eo kPriceOutsideLimits g1
                 else let oid = gw_order_id_seq g1;
                          (now, g2) = wall_ns (g1\<lparr>gw_order_id_seq := oid + 1\<rparr>);
                          g3 = send_sequenced (enc_OrderAccepted (order_accepted_msg eo oid now)) g2
                      in if eo_time_in_force eo = 0
                         then g3\<lparr>gw_resting := (gw_resting g3)(tok \<mapsto>
                               \<lparr>rs_order_book_id = eo_order_book_id eo, rs_side = eo_side eo, rs_order_id = oid\<rparr>)\<rparr>
                         else g3)"

definition order_canceled_msg :: "string \<Rightarrow> resting_order \<Rightarrow> u8 \<Rightarrow> u64 \<Rightarrow> OrderCanceled" where
  "order_canceled_msg tok r reason now =
     zero_OrderCanceled\<lparr>oc_message_type := kOrderCanceled, oc_timestamp_ns := now,
       oc_order_token := take 14 (tok @ replicate 14 (CHR 0x00)), oc_order_book_id := rs_order_book_id r, oc_side := rs_side r,
       oc_order_id := rs_order_id r, oc_reason := reason\<rparr>"

definition no_order :: resting_order where
  "no_order = \<lparr>rs_order_book_id = 0, rs_side = CHR 0x00, rs_order_id = 0\<rparr>"

definition on_cancel_order :: "CancelOrder \<Rightarrow> gateway \<Rightarrow> gateway" where
  "on_cancel_order co g =
     (let tok = co_order_token co;
          (now, g1) = wall_ns g
      in case gw_resting g1 tok of
           Some r \<Rightarrow> send_sequenced (enc_OrderCanceled (order_canceled_msg tok r 1 now))
                      (g1\<lparr>gw_resting := (gw_resting g1)(tok := None)\<rparr>)
         | None \<Rightarrow> send_sequenced (enc_OrderCanceled (order_canceled_msg tok no_order 1 now)) g1)"

definition on_cancel_by_id :: "CancelByOrderId \<Rightarrow> gateway \<Rightarrow> gateway" where
  "on_cancel_by_id cy g =
     (let (now, g1) = wall_ns g
      in send_sequenced (enc_OrderCanceled (order_canceled_msg []
           \<lparr>rs_order_book_id = cy_order_book_id cy, rs_side = cy_side cy, rs_order_id = cy_order_id cy\<rparr> 1 now)) g1)"

definition order_replaced_msg :: "ReplaceOrder \<Rightarrow> resting_order \<Rightarrow> u64 \<Rightarrow> u64 \<Rightarrow> OrderReplaced" where
  "order_replaced_msg ro r oid now =
     zero_OrderReplaced\<lparr>
       rep_message_type := kOrderReplaced,
       rep_timestamp_ns := now,
       rep_replacement_order_token := ro_replacement_order_token ro,
       rep_previous_order_token := ro_existing_order_token ro,
       rep_order_book_id := rs_order_book_id r,
       rep_side := rs_side r,
       rep_order_id := oid,
       rep_quantity := ro_quantity ro,
       rep_price := ro_price ro,
       rep_open_close := ro_open_close ro,
       rep_client_account := ro_client_account ro,
       rep_order_state := order_state_wire OnBookState,
       rep_customer_info := ro_customer_info ro,
       rep_exchange_info := ro_exchange_info ro,
       rep_pre_trade_quantity := ro_quantity ro,
       rep_display_quantity := ro_display_quantity ro,
       rep_client_category := ro_client_category ro\<rparr>"

definition on_replace_order :: "ReplaceOrder \<Rightarrow> gateway \<Rightarrow> gateway" where
  "on_replace_order ro g =
     (let old_tok = ro_existing_order_token ro;
          new_tok = ro_replacement_order_token ro;
          oid = gw_order_id_seq g;
          (now, g1) = wall_ns (g\<lparr>gw_order_id_seq := oid + 1\<rparr>);
          r = (case gw_resting g1 old_tok of Some r \<Rightarrow> r | None \<Rightarrow> no_order);
          g2 = g1\<lparr>gw_resting := ((gw_resting g1)(old_tok := None))(new_tok \<mapsto> r\<lparr>rs_order_id := oid\<rparr>)\<rparr>
      in send_sequenced (enc_OrderReplaced (order_replaced_msg ro r oid now)) g2)"

section \<open>Mass quotes\<close>

definition bid_active :: "QuoteEntry \<Rightarrow> bool" where
  "bid_active e \<longleftrightarrow> qe_bid_size e > 0 \<and> 0 <s qe_bid_price e"

definition offer_active :: "QuoteEntry \<Rightarrow> bool" where
  "offer_active e \<longleftrightarrow> qe_offer_size e > 0 \<and> 0 <s qe_offer_price e"

definition crossed :: "QuoteEntry \<Rightarrow> bool" where
  "crossed e \<longleftrightarrow> bid_active e \<and> offer_active e \<and> qe_offer_price e \<le>s qe_bid_price e"

definition quote_rejection_msg :: "MassQuoteHeader \<Rightarrow> QuoteEntry \<Rightarrow> u64 \<Rightarrow> MassQuoteRejection" where
  "quote_rejection_msg hdr e now =
     zero_MassQuoteRejection\<lparr>mr_message_type := kMassQuoteRejection, mr_timestamp_ns := now,
       mr_order_token := mh_order_token hdr, mr_order_book_id := qe_order_book_id e,
       mr_reject_code := - 420131\<rparr>"

definition quote_key :: "u32 \<Rightarrow> char \<Rightarrow> string" where
  "quote_key bk sd = dec (unat bk) @ '':'' @ [sd]"

definition status_for_side :: "u32 \<Rightarrow> char \<Rightarrow> bool \<Rightarrow> gateway \<Rightarrow> mass_quote_status \<times> gateway" where
  "status_for_side bk sd active_now g =
     (let k = quote_key bk sd;
          was_active = (gw_quote_active g k = Some True)
      in (if active_now then (if was_active then Updated else Accept) else Canceled,
          g\<lparr>gw_quote_active := (gw_quote_active g)(k \<mapsto> active_now)\<rparr>))"

definition quote_ack_msg ::
  "MassQuoteHeader \<Rightarrow> QuoteEntry \<Rightarrow> char \<Rightarrow> mass_quote_status \<Rightarrow> u64 \<Rightarrow> MassQuoteAck" where
  "quote_ack_msg hdr e sd st now =
     zero_MassQuoteAck\<lparr>mk_message_type := kMassQuoteAck, mk_timestamp_ns := now,
       mk_order_token := mh_order_token hdr, mk_order_book_id := qe_order_book_id e,
       mk_side := sd, mk_quote_status := mass_quote_status_wire st,
       mk_quantity := (if sd = CHR ''B'' then qe_bid_size e else qe_offer_size e),
       mk_price := (if sd = CHR ''B'' then qe_bid_price e else qe_offer_price e)\<rparr>"

definition ack_side :: "MassQuoteHeader \<Rightarrow> QuoteEntry \<Rightarrow> char \<Rightarrow> gateway \<Rightarrow> gateway" where
  "ack_side hdr e sd g =
     (let (now, g1) = wall_ns g;
          (st, g2) = status_for_side (qe_order_book_id e) sd
            (if sd = CHR ''B'' then bid_active e else offer_active e) g1
      in send_sequenced (enc_MassQuoteAck (quote_ack_msg hdr e sd st now)) g2)"

definition on_quote_entry :: "MassQuoteHeader \<Rightarrow> QuoteEntry \<Rightarrow> gateway \<Rightarrow> gateway" where
  "on_quote_entry hdr e g =
     (if crossed e then
        (let (now, g1) = wall_ns g
         in send_sequenced (enc_MassQuoteRejection (quote_rejection_msg hdr e now)) g1)
      else ack_side hdr e CHR ''S'' (ack_side hdr e CHR ''B'' g))"

text \<open>The entry loop trusts the announced count: entry \<open>i\<close> lies at \<open>50 + 28 i\<close>, inside the
  payload or not.\<close>

fun quote_loop :: "MassQuoteHeader \<Rightarrow> byte list \<Rightarrow> nat \<Rightarrow> nat \<Rightarrow> gateway \<Rightarrow> gateway option" where
  "quote_loop hdr payload i 0 g = Some g"
| "quote_loop hdr payload i (Suc n) g =
     (case peek (kMassQuoteHdrLen + kQuoteEntryLen * i) kQuoteEntryLen payload of
        None \<Rightarrow> None
      | Some bs \<Rightarrow> quote_loop hdr payload (Suc i) n (on_quote_entry hdr (dec_QuoteEntry bs) g))"

definition on_mass_quote :: "byte list \<Rightarrow> gateway \<Rightarrow> gateway option" where
  "on_mass_quote payload g =
     (if length payload < kMassQuoteHdrLen + kQuoteEntryLen then Some g
      else let hdr = dec_MassQuoteHeader (take kMassQuoteHdrLen payload)
           in quote_loop hdr payload 0 (unat (mh_no_quote_entries hdr)) g)"

section \<open>Dispatch and the packet loop\<close>

definition handle_unsequenced_payload :: "byte list \<Rightarrow> gateway \<Rightarrow> gateway option" where
  "handle_unsequenced_payload payload g =
     (if payload = [] then Some g
      else let ty = dec_char (take 1 payload)
      in if ty = kEnterOrder then
           Some (if length payload = 114 then on_enter_order (dec_EnterOrder payload) g else g)
         else if ty = kCancelOrder then
           Some (if length payload = 15 then on_cancel_order (dec_CancelOrder payload) g else g)
         else if ty = kCancelByOrderId then
           Some (if length payload = 14 then on_cancel_by_id (dec_CancelByOrderId payload) g else g)
         else if ty = kReplaceOrder then
           Some (if length payload = 122 then on_replace_order (dec_ReplaceOrder payload) g else g)
         else if ty = kMassQuote then on_mass_quote payload g
         else Some g)"

text \<open>\<open>inactivate_all_resting\<close>: the hash map's iteration order is not specified, so the order
  of the snapshot is an argument.\<close>

definition emit_canceled :: "string \<Rightarrow> resting_order \<Rightarrow> u8 \<Rightarrow> gateway \<Rightarrow> gateway" where
  "emit_canceled tok r reason g =
     (let (now, g1) = wall_ns g
      in send_sequenced (enc_OrderCanceled (order_canceled_msg tok r reason now)) g1)"

definition inactivate_all_resting :: "(string \<times> resting_order) list \<Rightarrow> gateway \<Rightarrow> nat \<times> gateway" where
  "inactivate_all_resting snapshot g =
     (if \<not> gw_connected g then (0, g)
      else (length snapshot,
        fold (\<lambda>(tok, r). emit_canceled tok r 4) snapshot (g\<lparr>gw_resting := Map.empty\<rparr>)))"

text \<open>One packet read from the descriptor: its header's length and type, then \<open>length - 1\<close>
  bytes. A length of 0 asks for \<open>SIZE_MAX\<close> bytes, which the vector refuses by an exception
  nobody catches. \<open>ReadFails\<close> is a peer that closes in between.\<close>

datatype packet_read = ReadFails | PacketRead char "byte list" "byte list" | Dies

definition read_packet :: "byte list \<Rightarrow> packet_read" where
  "read_packet inp =
     (if length inp < 3 then ReadFails
      else let h = dec_Header (take 3 inp); n = unat (hd_length h)
           in if n = 0 then Dies
              else if length (drop 3 inp) < n - 1 then ReadFails
              else PacketRead (hd_packet_type h) (take (n - 1) (drop 3 inp)) (drop (n - 1) (drop 3 inp)))"

definition heartbeat_due :: "u64 \<Rightarrow> gateway \<Rightarrow> u64 \<times> gateway" where
  "heartbeat_due last_send g =
     (let (now, c) = read_clock (gw_mono g); g1 = g\<lparr>gw_mono := c\<rparr>
      in if now - last_send \<ge> 1000000000 then (now, send_heartbeat g1) else (last_send, g1))"

definition mono_ns :: "gateway \<Rightarrow> u64 \<times> gateway" where
  "mono_ns g = (let (t, c) = read_clock (gw_mono g) in (t, g\<lparr>gw_mono := c\<rparr>))"

text \<open>The main loop, one \<open>poll\<close> answer per turn: readable or timed out; the list ends when
  \<open>running_\<close> is cleared or \<open>poll\<close> fails.\<close>

fun packet_loop :: "bool list \<Rightarrow> byte list \<Rightarrow> u64 \<Rightarrow> gateway \<Rightarrow> gateway option" where
  "packet_loop [] inp last_send g = Some g"
| "packet_loop (False # polls) inp last_send g =
     (let (ls, g1) = heartbeat_due last_send g in packet_loop polls inp ls g1)"
| "packet_loop (True # polls) inp last_send g =
     (case read_packet inp of
        ReadFails \<Rightarrow> Some g
      | Dies \<Rightarrow> None
      | PacketRead ty payload rest \<Rightarrow>
          (if ty = kLogoutRequest then Some (snd (mono_ns (send_packet kEndOfSession [] g)))
           else if ty = kUnsequencedData then
             (case handle_unsequenced_payload payload g of
                None \<Rightarrow> None
              | Some g1 \<Rightarrow>
                  (let (t, g2) = mono_ns g1; (ls, g3) = heartbeat_due t g2
                   in packet_loop polls rest ls g3))
           else (let (ls, g1) = heartbeat_due last_send g in packet_loop polls rest ls g1)))"

definition run_loop :: "bool list \<Rightarrow> byte list \<Rightarrow> gateway \<Rightarrow> gateway option" where
  "run_loop polls inp g =
     (case read_packet inp of
        ReadFails \<Rightarrow> Some g
      | Dies \<Rightarrow> None
      | PacketRead ty payload rest \<Rightarrow>
          (let g1 = (if ty = kLoginRequest then handle_login payload g else g);
               (t, g2) = mono_ns g1
           in packet_loop polls rest t g2))"

section \<open>What the gateway has accepted\<close>

text \<open>Of the seven inbound structs only \<open>OrderAccepted\<close> has 137 bytes.\<close>

definition accepted_orders :: "gateway \<Rightarrow> OrderAccepted list" where
  "accepted_orders g =
     map (dec_OrderAccepted \<circ> snd)
       (filter (\<lambda>(t, p). t = kSequencedData \<and> length p = 137) (gw_sent g))"

lemma wall_ns_simps [simp]:
  "fst (wall_ns g) = ck_now (gw_wall g)" "gw_sent (snd (wall_ns g)) = gw_sent g"
  "gw_order_id_seq (snd (wall_ns g)) = gw_order_id_seq g" "gw_seen_tokens (snd (wall_ns g)) = gw_seen_tokens g"
  "gw_resting (snd (wall_ns g)) = gw_resting g" "gw_quote_active (snd (wall_ns g)) = gw_quote_active g"
  "gw_mono (snd (wall_ns g)) = gw_mono g"
  by (simp_all add: wall_ns_def Let_def case_prod_beta)

lemma send_sequenced_simps [simp]:
  "gw_sent (send_sequenced m g) = gw_sent g @ [(kSequencedData, m)]"
  "gw_order_id_seq (send_sequenced m g) = gw_order_id_seq g"
  "gw_seen_tokens (send_sequenced m g) = gw_seen_tokens g" "gw_resting (send_sequenced m g) = gw_resting g"
  "gw_quote_active (send_sequenced m g) = gw_quote_active g" "gw_wall (send_sequenced m g) = gw_wall g"
  by (simp_all add: send_sequenced_def send_packet_def)

lemma accepted_orders_cong: "gw_sent g = gw_sent g' \<Longrightarrow> accepted_orders g = accepted_orders g'"
  by (simp add: accepted_orders_def)

lemma accepted_orders_snoc:
  "gw_sent g' = gw_sent g @ [(kSequencedData, p)] \<Longrightarrow>
     accepted_orders g' = accepted_orders g @ (if length p = 137 then [dec_OrderAccepted p] else [])"
  by (simp add: accepted_orders_def)

text \<open>Every reply of the gateway is well-formed.\<close>

lemma wf_order_accepted_msg: "wf_EnterOrder eo \<Longrightarrow> wf_OrderAccepted (order_accepted_msg eo oid now)"
  using wf_zero_OrderAccepted by (simp add: wf_OrderAccepted_def wf_EnterOrder_def order_accepted_msg_def)

lemma wf_order_rejected_msg: "wf_EnterOrder eo \<Longrightarrow> wf_OrderRejected (order_rejected_msg eo c now)"
  using wf_zero_OrderRejected by (simp add: wf_OrderRejected_def wf_EnterOrder_def order_rejected_msg_def)

lemma wf_order_canceled_msg: "wf_OrderCanceled (order_canceled_msg tok r reason now)"
  using wf_zero_OrderCanceled by (simp add: wf_OrderCanceled_def order_canceled_msg_def)

lemma wf_order_replaced_msg: "wf_ReplaceOrder ro \<Longrightarrow> wf_OrderReplaced (order_replaced_msg ro r oid now)"
  using wf_zero_OrderReplaced by (simp add: wf_OrderReplaced_def wf_ReplaceOrder_def order_replaced_msg_def)

lemma wf_quote_rejection_msg: "wf_MassQuoteHeader h \<Longrightarrow> wf_MassQuoteRejection (quote_rejection_msg h e now)"
  using wf_zero_MassQuoteRejection
  by (simp add: wf_MassQuoteRejection_def wf_MassQuoteHeader_def quote_rejection_msg_def)

lemma wf_quote_ack_msg: "wf_MassQuoteHeader h \<Longrightarrow> wf_MassQuoteAck (quote_ack_msg h e sd st now)"
  using wf_zero_MassQuoteAck by (simp add: wf_MassQuoteAck_def wf_MassQuoteHeader_def quote_ack_msg_def)

lemmas reply_lengths =
  oa.length_enc [OF wf_order_accepted_msg] oj.length_enc [OF wf_order_rejected_msg]
  oc.length_enc [OF wf_order_canceled_msg] rep.length_enc [OF wf_order_replaced_msg]
  mr.length_enc [OF wf_quote_rejection_msg] mk.length_enc [OF wf_quote_ack_msg]

text \<open>The three outcomes of an order entry.\<close>

lemma on_enter_duplicate:
  "eo_order_token eo \<in> set (gw_seen_tokens g) \<Longrightarrow> on_enter_order eo g = reject_order eo kTokenNotUnique g"
  by (simp add: on_enter_order_def)

lemma reject_order_simps [simp]:
  "gw_sent (reject_order eo c g) = gw_sent g @ [(kSequencedData, enc_OrderRejected (order_rejected_msg eo c (ck_now (gw_wall g))))]"
  "gw_seen_tokens (reject_order eo c g) = gw_seen_tokens g" "gw_resting (reject_order eo c g) = gw_resting g"
  "gw_order_id_seq (reject_order eo c g) = gw_order_id_seq g"
  by (simp_all add: reject_order_def case_prod_beta)

lemma on_enter_accepted:
  assumes "eo_order_token eo \<notin> set (gw_seen_tokens g)" "\<not> 9000 <s eo_price eo"
  shows "gw_sent (on_enter_order eo g) = gw_sent g
      @ [(kSequencedData, enc_OrderAccepted (order_accepted_msg eo (gw_order_id_seq g) (ck_now (gw_wall g))))]
    \<and> gw_seen_tokens (on_enter_order eo g) = gw_seen_tokens g @ [eo_order_token eo]
    \<and> gw_order_id_seq (on_enter_order eo g) = gw_order_id_seq g + 1
    \<and> gw_resting (on_enter_order eo g) = (if eo_time_in_force eo = 0
        then (gw_resting g)(eo_order_token eo \<mapsto> \<lparr>rs_order_book_id = eo_order_book_id eo,
          rs_side = eo_side eo, rs_order_id = gw_order_id_seq g\<rparr>)
        else gw_resting g)"
  using assms by (simp add: on_enter_order_def Let_def case_prod_beta)

section \<open>Unique tokens, fresh order ids\<close>

definition gateway_inv :: "nat \<Rightarrow> gateway \<Rightarrow> bool" where
  "gateway_inv n g \<longleftrightarrow>
     distinct (map oa_order_token (accepted_orders g))
     \<and> oa_order_token ` set (accepted_orders g) \<subseteq> set (gw_seen_tokens g)
     \<and> sorted_wrt (<) (map (\<lambda>m. unat (oa_order_id m)) (accepted_orders g))
     \<and> (\<forall>m \<in> set (accepted_orders g). unat (oa_order_id m) < unat (gw_order_id_seq g))
     \<and> unat (gw_order_id_seq g) \<le> n"

lemma gateway_inv_quiet:
  assumes "gateway_inv n g" "accepted_orders g' = accepted_orders g"
    "gw_seen_tokens g' = gw_seen_tokens g" "gw_order_id_seq g' = gw_order_id_seq g"
  shows "gateway_inv (Suc n) g'"
  using assms by (simp add: gateway_inv_def)

lemma unat_seq_Suc: "unat (g :: u64) \<le> n \<Longrightarrow> Suc n < 2 ^ 64 \<Longrightarrow> unat (g + 1) = unat g + 1"
  using unat_add_lem [of g 1] by simp

lemma gateway_inv_enter:
  assumes "gateway_inv n g" "wf_EnterOrder eo" "Suc n < 2 ^ 64"
  shows "gateway_inv (Suc n) (on_enter_order eo g)"
proof (cases "eo_order_token eo \<in> set (gw_seen_tokens g)")
  case True
  then show ?thesis using assms(2)
    by (intro gateway_inv_quiet [OF assms(1)])
      (simp_all add: on_enter_duplicate accepted_orders_snoc reply_lengths)
next
  case new: False
  show ?thesis
  proof (cases "9000 <s eo_price eo")
    case True
    let ?g = "g\<lparr>gw_seen_tokens := gw_seen_tokens g @ [eo_order_token eo]\<rparr>"
    have r: "on_enter_order eo g = reject_order eo kPriceOutsideLimits ?g"
      using new True by (simp add: on_enter_order_def)
    have "accepted_orders (on_enter_order eo g) = accepted_orders g"
      using assms(2) accepted_orders_snoc [of "on_enter_order eo g" g] by (simp add: r reply_lengths)
    then show ?thesis using assms(1) by (auto simp: gateway_inv_def r)
  next
    case False
    note acc = on_enter_accepted [OF new False]
    let ?m = "order_accepted_msg eo (gw_order_id_seq g) (ck_now (gw_wall g))"
    have "accepted_orders (on_enter_order eo g) = accepted_orders g @ [?m]"
      using acc accepted_orders_snoc [of "on_enter_order eo g" g] assms(2)
      by (simp add: reply_lengths oa.dec_enc wf_order_accepted_msg)
    moreover have "unat (gw_order_id_seq g + 1) = unat (gw_order_id_seq g) + 1"
      using assms(1,3) by (intro unat_seq_Suc) (auto simp: gateway_inv_def)
    ultimately show ?thesis
      using assms(1) new acc
      by (auto simp: gateway_inv_def order_accepted_msg_def sorted_wrt_append less_Suc_eq)
  qed
qed

text \<open>The other handlers accept nothing.\<close>

lemma ack_side_quiet:
  "wf_MassQuoteHeader h \<Longrightarrow> accepted_orders (ack_side h e sd g) = accepted_orders g
     \<and> gw_seen_tokens (ack_side h e sd g) = gw_seen_tokens g
     \<and> gw_order_id_seq (ack_side h e sd g) = gw_order_id_seq g"
  by (simp add: ack_side_def status_for_side_def case_prod_beta Let_def accepted_orders_def reply_lengths)

lemma on_quote_entry_quiet:
  "wf_MassQuoteHeader h \<Longrightarrow> accepted_orders (on_quote_entry h e g) = accepted_orders g
     \<and> gw_seen_tokens (on_quote_entry h e g) = gw_seen_tokens g
     \<and> gw_order_id_seq (on_quote_entry h e g) = gw_order_id_seq g"
  using ack_side_quiet [of h e]
  by (simp add: on_quote_entry_def case_prod_beta accepted_orders_def reply_lengths)

lemma quote_loop_quiet:
  "wf_MassQuoteHeader h \<Longrightarrow> quote_loop h p i n g = Some g' \<Longrightarrow> accepted_orders g' = accepted_orders g
     \<and> gw_seen_tokens g' = gw_seen_tokens g \<and> gw_order_id_seq g' = gw_order_id_seq g"
  by (induction h p i n g rule: quote_loop.induct)
    (auto simp: on_quote_entry_quiet split: option.splits)

lemma on_cancel_quiet:
  "accepted_orders (on_cancel_order co g) = accepted_orders g
     \<and> gw_seen_tokens (on_cancel_order co g) = gw_seen_tokens g
     \<and> gw_order_id_seq (on_cancel_order co g) = gw_order_id_seq g"
  "accepted_orders (on_cancel_by_id cy g) = accepted_orders g
     \<and> gw_seen_tokens (on_cancel_by_id cy g) = gw_seen_tokens g
     \<and> gw_order_id_seq (on_cancel_by_id cy g) = gw_order_id_seq g"
  by (simp_all add: on_cancel_order_def on_cancel_by_id_def Let_def case_prod_beta accepted_orders_def
      reply_lengths split: option.split)

lemma gateway_inv_replace:
  assumes "gateway_inv n g" "wf_ReplaceOrder ro" "Suc n < 2 ^ 64"
  shows "gateway_inv (Suc n) (on_replace_order ro g)"
proof -
  have "accepted_orders (on_replace_order ro g) = accepted_orders g"
    "gw_seen_tokens (on_replace_order ro g) = gw_seen_tokens g"
    "gw_order_id_seq (on_replace_order ro g) = gw_order_id_seq g + 1"
    using assms(2) by (simp_all add: on_replace_order_def Let_def case_prod_beta accepted_orders_def reply_lengths)
  moreover have "unat (gw_order_id_seq g + 1) = unat (gw_order_id_seq g) + 1"
    using assms(1,3) by (intro unat_seq_Suc) (auto simp: gateway_inv_def)
  ultimately show ?thesis using assms(1) by (auto simp: gateway_inv_def)
qed

lemma gateway_inv_handle:
  assumes "gateway_inv n g" "handle_unsequenced_payload p g = Some g'" "Suc n < 2 ^ 64"
  shows "gateway_inv (Suc n) g'"
proof -
  have same: "gateway_inv (Suc n) g" using assms(1) by (simp add: gateway_inv_def)
  have quote: "gateway_inv (Suc n) g'" if "on_mass_quote p g = Some g'"
  proof (cases "length p < kMassQuoteHdrLen + kQuoteEntryLen")
    case True
    then show ?thesis using that same by (simp add: on_mass_quote_def)
  next
    case False
    let ?h = "dec_MassQuoteHeader (take kMassQuoteHdrLen p)"
    have "wf_MassQuoteHeader ?h"
      using False by (intro mh.wf_dec) (simp add: kMassQuoteHdrLen_def kQuoteEntryLen_def)
    then show ?thesis
      using quote_loop_quiet [of ?h p 0] that False gateway_inv_quiet [OF assms(1)]
      by (auto simp: on_mass_quote_def Let_def)
  qed
  show ?thesis
    using assms(2) same gateway_inv_enter [OF assms(1) eo.wf_dec assms(3), of p]
      gateway_inv_replace [OF assms(1) ro.wf_dec assms(3), of p]
      gateway_inv_quiet [OF assms(1)] on_cancel_quiet quote
    by (auto simp: handle_unsequenced_payload_def Let_def split: if_splits)
qed

text \<open>A run of payloads.\<close>

fun gateway_run :: "byte list list \<Rightarrow> gateway \<Rightarrow> gateway option" where
  "gateway_run [] g = Some g"
| "gateway_run (p # ps) g = Option.bind (handle_unsequenced_payload p g) (gateway_run ps)"

lemma gateway_inv_run:
  "gateway_run ps g = Some g' \<Longrightarrow> gateway_inv n g \<Longrightarrow> n + length ps < 2 ^ 64 \<Longrightarrow>
     gateway_inv (n + length ps) g'"
proof (induction ps arbitrary: n g)
  case Nil
  then show ?case by simp
next
  case (Cons p ps)
  then obtain g1 where g1: "handle_unsequenced_payload p g = Some g1" "gateway_run ps g1 = Some g'"
    by (auto split: Option.bind_splits)
  have "gateway_inv (Suc n) g1" using gateway_inv_handle [OF Cons.prems(2) g1(1)] Cons.prems(3) by simp
  then show ?case using Cons.IH [OF g1(2), of "Suc n"] Cons.prems(3) by simp
qed

lemma enter_order_handled:
  assumes "wf_EnterOrder eo" "eo_message_type eo = kEnterOrder"
  shows "handle_unsequenced_payload (enc_EnterOrder eo) g = Some (on_enter_order eo g)"
proof -
  have "dec_char (take 1 (enc_EnterOrder eo)) = kEnterOrder" "enc_EnterOrder eo \<noteq> []"
    using assms(2) by (simp_all add: enc_EnterOrder_def enc_char_def dec_char_def)
  then show ?thesis
    using assms(1) by (simp add: handle_unsequenced_payload_def eo.dec_enc eo.length_enc)
qed

section \<open>Mass quotes stay inside an honest payload\<close>

lemma quote_loop_defined:
  "kMassQuoteHdrLen + kQuoteEntryLen * (i + n) \<le> length p \<Longrightarrow> quote_loop h p i n g \<noteq> None"
proof (induction n arbitrary: i g)
  case 0
  then show ?case by simp
next
  case (Suc n)
  have "kMassQuoteHdrLen + kQuoteEntryLen * i + kQuoteEntryLen \<le> length p"
    using Suc.prems by (simp add: kQuoteEntryLen_def)
  moreover have "quote_loop h p (Suc i) n g' \<noteq> None" for g'
    using Suc.prems by (intro Suc.IH) simp
  ultimately show ?case by (simp add: peek_Some del: not_None_eq)
qed

lemma quote_loop_overread:
  "length p < kMassQuoteHdrLen + kQuoteEntryLen * (i + n) \<Longrightarrow> 0 < n \<Longrightarrow> quote_loop h p i n g = None"
proof (induction n arbitrary: i g)
  case 0
  then show ?case by simp
next
  case (Suc n)
  show ?case
  proof (cases "n = 0")
    case True
    then show ?thesis using Suc.prems by (simp add: peek_def kQuoteEntryLen_def)
  next
    case False
    then show ?thesis using Suc by (simp split: option.split)
  qed
qed

section \<open>Resting orders\<close>

lemma emit_canceled_simps [simp]:
  "gw_sent (emit_canceled tok r c g) = gw_sent g
     @ [(kSequencedData, enc_OrderCanceled (order_canceled_msg tok r c (ck_now (gw_wall g))))]"
  "gw_resting (emit_canceled tok r c g) = gw_resting g"
  by (simp_all add: emit_canceled_def case_prod_beta)

lemma fold_emit_canceled:
  "\<exists>ms. gw_sent (fold (\<lambda>(tok, r). emit_canceled tok r c) snap g) = gw_sent g @ map (Pair kSequencedData) ms
     \<and> gw_resting (fold (\<lambda>(tok, r). emit_canceled tok r c) snap g) = gw_resting g
     \<and> list_all2 (\<lambda>(tok, r) m. \<exists>now. m = enc_OrderCanceled (order_canceled_msg tok r c now)) snap ms"
proof (induction snap arbitrary: g)
  case Nil
  then show ?case by simp
next
  case (Cons x snap)
  obtain tok r where x: "x = (tok, r)" by (cases x)
  obtain ms where ms: "gw_sent (fold (\<lambda>(tok, r). emit_canceled tok r c) snap (emit_canceled tok r c g))
      = gw_sent (emit_canceled tok r c g) @ map (Pair kSequencedData) ms"
    "gw_resting (fold (\<lambda>(tok, r). emit_canceled tok r c) snap (emit_canceled tok r c g)) = gw_resting g"
    "list_all2 (\<lambda>(tok, r) m. \<exists>now. m = enc_OrderCanceled (order_canceled_msg tok r c now)) snap ms"
    using Cons.IH [of "emit_canceled tok r c g"] by auto
  then show ?case
    by (intro exI [of _ "enc_OrderCanceled (order_canceled_msg tok r c (ck_now (gw_wall g))) # ms"])
      (auto simp: x)
qed

interpretation resting: keyed_store
  "\<lambda>tok r g. g\<lparr>gw_resting := (gw_resting g)(tok \<mapsto> r)\<rparr>" gw_resting "\<lambda>_ r. r"
  by unfold_locales simp

section \<open>Properties\<close>

text \<open>
  The gateway accepts no token twice and reuses no order id: in any run of payloads from
  start-up, well-formed or not, the tokens of its acceptances are pairwise distinct and the
  order ids in them strictly increase.
\<close>

lemma gateway_accepts_once:
  assumes "gateway_run ps (gateway_init wall mono_ck) = Some g" "length ps < 2 ^ 64 - 1"
  shows "distinct (map oa_order_token (accepted_orders g))
    \<and> sorted_wrt (<) (map (\<lambda>m. unat (oa_order_id m)) (accepted_orders g))"
proof -
  have "gateway_inv 1 (gateway_init wall mono_ck)"
    by (simp add: gateway_inv_def gateway_init_def accepted_orders_def)
  moreover have "1 + length ps < 2 ^ 64" using assms(2) by simp
  ultimately have "gateway_inv (1 + length ps) g" using gateway_inv_run [OF assms(1)] by blast
  then show ?thesis by (simp add: gateway_inv_def)
qed

text \<open>
  Every well-formed order entry gets exactly one reply under its own token: a used token is
  rejected with code -800002, otherwise a price above 9000 with -420131, otherwise the order is
  accepted with the fields it asked for and the next order id. A day order then rests under
  its token; nothing else does.
\<close>

lemma order_entry_outcome:
  assumes "wf_EnterOrder eo" "eo_message_type eo = kEnterOrder"
  shows "\<exists>g' reply. handle_unsequenced_payload (enc_EnterOrder eo) g = Some g'
    \<and> gw_sent g' = gw_sent g @ [(kSequencedData, reply)]
    \<and> (if eo_order_token eo \<in> set (gw_seen_tokens g)
       then oj_reject_code (dec_OrderRejected reply) = kTokenNotUnique
         \<and> oj_order_token (dec_OrderRejected reply) = eo_order_token eo \<and> gw_resting g' = gw_resting g
       else if 9000 <s eo_price eo
       then oj_reject_code (dec_OrderRejected reply) = kPriceOutsideLimits
         \<and> oj_order_token (dec_OrderRejected reply) = eo_order_token eo \<and> gw_resting g' = gw_resting g
       else oa_order_token (dec_OrderAccepted reply) = eo_order_token eo
         \<and> oa_quantity (dec_OrderAccepted reply) = eo_quantity eo
         \<and> oa_price (dec_OrderAccepted reply) = eo_price eo
         \<and> oa_order_id (dec_OrderAccepted reply) = gw_order_id_seq g
         \<and> map_option rs_order_id (gw_resting g' (eo_order_token eo))
           = (if eo_time_in_force eo = 0 then Some (gw_order_id_seq g)
              else map_option rs_order_id (gw_resting g (eo_order_token eo)))
         \<and> (\<forall>t. t \<noteq> eo_order_token eo \<longrightarrow> gw_resting g' t = gw_resting g t))"
proof -
  have h: "handle_unsequenced_payload (enc_EnterOrder eo) g = Some (on_enter_order eo g)"
    by (rule enter_order_handled [OF assms])
  show ?thesis
  proof (cases "eo_order_token eo \<in> set (gw_seen_tokens g) \<or> 9000 <s eo_price eo")
    case True
    let ?c = "if eo_order_token eo \<in> set (gw_seen_tokens g) then kTokenNotUnique else kPriceOutsideLimits"
    let ?g0 = "if eo_order_token eo \<in> set (gw_seen_tokens g) then g
      else g\<lparr>gw_seen_tokens := gw_seen_tokens g @ [eo_order_token eo]\<rparr>"
    have g0: "on_enter_order eo g = reject_order eo ?c ?g0" "gw_sent ?g0 = gw_sent g"
      "gw_resting ?g0 = gw_resting g"
      using True by (auto simp: on_enter_order_def Let_def)
    have "oj_reject_code (order_rejected_msg eo ?c now) = ?c
        \<and> oj_order_token (order_rejected_msg eo ?c now) = eo_order_token eo" for now
      by (simp add: order_rejected_msg_def)
    then show ?thesis
      using h g0 True wf_order_rejected_msg [OF assms(1)]
      by (intro exI [of _ "on_enter_order eo g"]) (auto simp: oj.dec_enc)
  next
    case False
    then have acc: "eo_order_token eo \<notin> set (gw_seen_tokens g)" "\<not> 9000 <s eo_price eo" by auto
    let ?m = "order_accepted_msg eo (gw_order_id_seq g) (ck_now (gw_wall g))"
    have dec: "dec_OrderAccepted (enc_OrderAccepted ?m) = ?m"
      by (rule oa.dec_enc [OF wf_order_accepted_msg [OF assms(1)]])
    have fields: "oa_order_token ?m = eo_order_token eo" "oa_quantity ?m = eo_quantity eo"
      "oa_price ?m = eo_price eo" "oa_order_id ?m = gw_order_id_seq g"
      by (simp_all add: order_accepted_msg_def)
    show ?thesis
      using h acc on_enter_accepted [OF acc]
      by (intro exI [of _ "on_enter_order eo g"] exI [of _ "enc_OrderAccepted ?m"]) (simp add: dec fields)
  qed
qed

text \<open>
  A mass quote whose header announces more entries than the payload holds makes the gateway
  read past the payload; with an honest count it never does.
\<close>

lemma quote_count_overread:
  assumes "length payload \<ge> kMassQuoteHdrLen + kQuoteEntryLen" "dec_char (take 1 payload) = kMassQuote"
    "n = unat (mh_no_quote_entries (dec_MassQuoteHeader (take kMassQuoteHdrLen payload)))"
  shows "handle_unsequenced_payload payload g = None
    \<longleftrightarrow> length payload < kMassQuoteHdrLen + kQuoteEntryLen * n"
proof -
  let ?h = "dec_MassQuoteHeader (take kMassQuoteHdrLen payload)"
  have "payload \<noteq> []" using assms(1) by (auto simp: kMassQuoteHdrLen_def)
  then have h: "handle_unsequenced_payload payload g = quote_loop ?h payload 0 n g"
    using assms by (simp add: handle_unsequenced_payload_def on_mass_quote_def msg_type_defs Let_def)
  show ?thesis
  proof (cases "length payload < kMassQuoteHdrLen + kQuoteEntryLen * n")
    case True
    then have "0 < n" using assms(1) by (cases n) auto
    then show ?thesis using True h quote_loop_overread [of payload 0 n ?h g] by simp
  next
    case False
    then show ?thesis using h quote_loop_defined [of 0 n payload ?h g] by simp
  qed
qed

text \<open>
  Inactivation: given any listing of the resting orders, the gateway cancels each of them
  with reason 4 under its own token and order id, one packet per order in that order, and no
  order rests afterwards.
\<close>

lemma inactivation_cancels_all:
  assumes "gw_connected g" "map_of snapshot = gw_resting g" "distinct (map fst snapshot)"
    "\<forall>tok \<in> dom (gw_resting g). length tok = 14"
  shows "\<exists>ms. gw_sent (snd (inactivate_all_resting snapshot g)) = gw_sent g @ map (Pair kSequencedData) ms
    \<and> fst (inactivate_all_resting snapshot g) = card (dom (gw_resting g))
    \<and> map (\<lambda>m. (oc_order_token (dec_OrderCanceled m), oc_order_id (dec_OrderCanceled m),
              oc_reason (dec_OrderCanceled m))) ms
        = map (\<lambda>(tok, r). (tok, rs_order_id r, 4)) snapshot
    \<and> gw_resting (snd (inactivate_all_resting snapshot g)) = Map.empty"
proof -
  obtain ms where ms: "gw_sent (fold (\<lambda>(tok, r). emit_canceled tok r 4) snapshot (g\<lparr>gw_resting := Map.empty\<rparr>))
      = gw_sent g @ map (Pair kSequencedData) ms"
    "gw_resting (fold (\<lambda>(tok, r). emit_canceled tok r 4) snapshot (g\<lparr>gw_resting := Map.empty\<rparr>)) = Map.empty"
    "list_all2 (\<lambda>(tok, r) m. \<exists>now. m = enc_OrderCanceled (order_canceled_msg tok r 4 now)) snapshot ms"
    using fold_emit_canceled [of 4 snapshot "g\<lparr>gw_resting := Map.empty\<rparr>"] by auto
  have len: "\<forall>x \<in> set snapshot. length (fst x) = 14"
    using assms(4) unfolding assms(2) [symmetric] dom_map_of_conv_image_fst by auto
  have fields: "oc_order_token (dec_OrderCanceled (enc_OrderCanceled (order_canceled_msg tok r 4 now))) = tok"
    "oc_order_id (dec_OrderCanceled (enc_OrderCanceled (order_canceled_msg tok r 4 now))) = rs_order_id r"
    "oc_reason (dec_OrderCanceled (enc_OrderCanceled (order_canceled_msg tok r 4 now))) = 4"
    if "length tok = 14" for tok r now
    unfolding oc.dec_enc [OF wf_order_canceled_msg] using that by (simp_all add: order_canceled_msg_def)
  have "map (\<lambda>m. (oc_order_token (dec_OrderCanceled m), oc_order_id (dec_OrderCanceled m),
        oc_reason (dec_OrderCanceled m))) ms = map (\<lambda>(tok, r). (tok, rs_order_id r, 4)) snapshot"
    using ms(3) len by (induction rule: list_all2_induct) (auto simp: fields)
  moreover have "length snapshot = card (dom (gw_resting g))"
    using assms(2,3) by (simp add: dom_map_of_conv_image_fst distinct_card flip: assms(2) set_map)
  ultimately show ?thesis
    using ms assms(1) by (intro exI [of _ ms]) (simp add: inactivate_all_resting_def)
qed

text \<open>
  A packet whose length field is zero takes the gateway down, before and after the login.
\<close>

lemma zero_length_kills_gateway:
  assumes "inp = 0 # 0 # b # rest"
  shows "run_loop polls inp g = None \<and> packet_loop (True # polls) inp t g = None"
proof -
  have "read_packet inp = Dies"
    unfolding assms by (simp add: read_packet_def dec_Header_def slice_at_def of_be_bytes_def)
  then show ?thesis by (simp add: run_loop_def)
qed

section \<open>Witnesses\<close>

definition sample_gateway :: gateway where
  "sample_gateway =
     gateway_init \<lparr>ck_now = 1000, ck_later = []\<rparr> \<lparr>ck_now = 5, ck_later = []\<rparr>"

definition sample_order :: EnterOrder where
  "sample_order = zero_EnterOrder\<lparr>eo_message_type := kEnterOrder, eo_quantity := 100, eo_price := 6200\<rparr>"

lemma sample_order_simps [simp]:
  "wf_EnterOrder sample_order" "eo_message_type sample_order = kEnterOrder" "eo_price sample_order = 6200"
  "eo_time_in_force sample_order = 0" "eo_order_token sample_order = replicate 14 (CHR 0x00)"
  using wf_zero_EnterOrder by (simp_all add: sample_order_def wf_EnterOrder_def zero_EnterOrder_def)

definition sample_quote_payload :: "nat \<Rightarrow> byte list" where
  "sample_quote_payload n =
     enc_MassQuoteHeader (zero_MassQuoteHeader\<lparr>mh_message_type := kMassQuote, mh_no_quote_entries := word_of_nat n\<rparr>)
     @ replicate 28 0"

end
