(* ===== verification/Order_Flow.thy ===== *)
theory Order_Flow
  imports Client Gateway
begin

text \<open>
  The parts put together: an order placed by the client, carried by the session to the mock
  gateway, its reply cut into arbitrary chunks on the way back and delivered to the callbacks.
\<close>

lemma length_frame_reply: "framed (kSequencedData, enc_OrderAccepted m)" if "wf_OrderAccepted m"
  using that by (simp add: framed_def oa.length_enc)

lemma dec_type_enc_OrderAccepted:
  "dec_char (slice_at 0 1 (enc_OrderAccepted m)) = oa_message_type m"
  by (simp add: enc_OrderAccepted_def enc_char_def dec_char_def slice_at_def)

text \<open>A sequenced packet with an order acceptance reaches \<open>on_accepted\<close> as that acceptance.\<close>

lemma dispatch_frame_acceptance:
  assumes "wf_OrderAccepted m" "oa_message_type m = kOrderAccepted" "on_accepted (ss_handlers s)"
  shows "dispatch_frame (kSequencedData, enc_OrderAccepted m) s = Some (Inr (), emit on_accepted (Accepted m)
    ((emit on_audit_recv (AuditRecv (frame kSequencedData (enc_OrderAccepted m)) (ss_assigned_session s) (ss_next_inbound_seq s)) s)
      \<lparr>ss_msgs_recv := ss_msgs_recv s + 1, ss_next_inbound_seq := ss_next_inbound_seq s + 1\<rparr>))"
proof -
  let ?p = "enc_OrderAccepted m"
  have len: "length ?p = 137" by (rule oa.length_enc [OF assms(1)])
  have pk: "peek 0 1 ?p = Some (slice_at 0 1 ?p)" "peek 0 137 ?p = Some ?p"
    using len by (simp_all add: peek_def slice_at_def)
  have msg: "dispatch_ouch ?p (length ?p) s0 = Some (Inr (), emit on_accepted (Accepted m) s0)"
    if "on_accepted (ss_handlers s0)" for s0
    using that assms(2) pk unfolding dispatch_ouch_def
    by (simp add: len dec_type_enc_OrderAccepted dispatch_msg_def oa.dec_enc [OF assms(1)] del: One_nat_def)
  let ?s1 = "emit on_audit_recv (AuditRecv (frame kSequencedData ?p) (ss_assigned_session s) (ss_next_inbound_seq s)) s"
  let ?s2 = "?s1\<lparr>ss_msgs_recv := ss_msgs_recv ?s1 + 1, ss_next_inbound_seq := ss_next_inbound_seq ?s1 + 1\<rparr>"
  have "dispatch_packet kSequencedData ?p (length ?p) ?s1 = Some (Inr (), emit on_accepted (Accepted m) ?s2)"
    using assms(3) msg [of ?s2] by (simp add: dispatch_packet_def pkt_defs Let_def)
  then show ?thesis by (simp add: dispatch_frame_def)
qed

lemma dispatch_acceptance:
  assumes "wf_OrderAccepted m" "oa_message_type m = kOrderAccepted" "on_accepted (ss_handlers s)"
  shows "\<exists>s'. dispatch_all [(kSequencedData, enc_OrderAccepted m)] s = Some (Inr (), s')
    \<and> last (ss_events s') = Accepted m \<and> ss_events s' \<noteq> []
    \<and> ss_next_inbound_seq s' = ss_next_inbound_seq s + 1"
  using dispatch_frame_acceptance [OF assms] assms(3) by (simp add: emit_def)

section \<open>Properties\<close>

text \<open>
  C1: A day in the life of an order. A client with a throttler grant, an active session and a
  kernel that takes all bytes places an order within the price limit whose token the gateway
  has not seen. Then one packet goes out; the gateway, given its payload, answers with one
  packet and rests a day order under the token; and however the answer is cut into chunks on
  its way back, the client's \<open>on_accepted\<close> fires last with an acceptance that carries the
  token \<open>place\<close> returned, the side, quantity and price of the order, and the order id the
  gateway drew.
\<close>

theorem order_round_trip:
  assumes "fst (try_acquire (oc_throttler c) 0 (ck_now (ss_clock (oc_session c))))"
    "ss_state (oc_session c) = Active" "sk_open (ss_socket (oc_session c))"
    "sk_sends (ss_socket (oc_session c)) = []" "pa_explicit_token args = []"
    "ss_in_buffer (oc_session c) = []" "on_accepted (ss_handlers (oc_session c))"
    "token_bytes (fst (allocate (oc_tokens c))) \<notin> set (gw_seen_tokens g)" "\<not> 9000 <s pa_price args"
  shows "\<exists>tok c' payload g' reply. place args c = (Inr tok, c')
    \<and> sk_wire (ss_socket (oc_session c')) = sk_wire (ss_socket (oc_session c)) @ frame kUnsequencedData payload
    \<and> handle_unsequenced_payload payload g = Some g'
    \<and> gw_sent g' = gw_sent g @ [(kSequencedData, reply)]
    \<and> (pa_tif args = Day \<longrightarrow> map_option rs_order_id (gw_resting g' (token_bytes tok)) = Some (gw_order_id_seq g))
    \<and> (\<forall>chunks. concat chunks = frames [(kSequencedData, reply)] \<longrightarrow>
        (\<exists>s' m. feed_all chunks (oc_session c') = Some (Inr (), s') \<and> last (ss_events s') = Accepted m
          \<and> oa_order_token m = token_bytes tok \<and> oa_side m = to_wire (pa_side args)
          \<and> oa_quantity m = pa_quantity args \<and> oa_price m = pa_price args
          \<and> oa_order_id m = gw_order_id_seq g))"
proof -
  let ?tok = "fst (allocate (oc_tokens c))"
  let ?eo = "enter_order_msg args ?tok"
  let ?m = "order_accepted_msg ?eo (gw_order_id_seq g) (ck_now (gw_wall g))"
  let ?reply = "enc_OrderAccepted ?m"
  obtain c' where c': "place args c = (Inr ?tok, c')"
    "sk_wire (ss_socket (oc_session c')) = sk_wire (ss_socket (oc_session c))
      @ frame kUnsequencedData (enc_EnterOrder ?eo)"
    "ss_in_buffer (oc_session c') = []" "on_accepted (ss_handlers (oc_session c'))"
    using place_ready [OF assms(1-5)] assms(6,7) by auto
  have h: "handle_unsequenced_payload (enc_EnterOrder ?eo) g = Some (on_enter_order ?eo g)"
    by (rule enter_order_handled) (simp_all add: enter_order_msg_fields)
  have acc: "gw_sent (on_enter_order ?eo g) = gw_sent g @ [(kSequencedData, ?reply)]"
    "gw_resting (on_enter_order ?eo g) = (if eo_time_in_force ?eo = 0
        then (gw_resting g)(eo_order_token ?eo \<mapsto> \<lparr>rs_order_book_id = eo_order_book_id ?eo,
          rs_side = eo_side ?eo, rs_order_id = gw_order_id_seq g\<rparr>)
        else gw_resting g)"
    using on_enter_accepted [of ?eo g] assms(8,9) by (simp_all add: enter_order_msg_fields)
  have rest: "pa_tif args = Day \<longrightarrow>
      map_option rs_order_id (gw_resting (on_enter_order ?eo g) (token_bytes ?tok)) = Some (gw_order_id_seq g)"
    unfolding acc(2) enter_order_msg_fields by (simp add: enter_order_msg_def)
  have wf: "wf_OrderAccepted ?m" by (rule wf_order_accepted_msg) simp
  have ty: "oa_message_type ?m = kOrderAccepted" by (simp add: order_accepted_msg_def)
  obtain s' where s': "dispatch_all [(kSequencedData, ?reply)] (oc_session c') = Some (Inr (), s')"
    "last (ss_events s') = Accepted ?m"
    using dispatch_acceptance [OF wf ty c'(4)] by blast
  have fields: "oa_order_token ?m = token_bytes ?tok" "oa_side ?m = to_wire (pa_side args)"
    "oa_quantity ?m = pa_quantity args" "oa_price ?m = pa_price args" "oa_order_id ?m = gw_order_id_seq g"
    by (simp_all add: order_accepted_msg_def enter_order_msg_fields)
  have delivered: "\<forall>chunks. concat chunks = frames [(kSequencedData, ?reply)] \<longrightarrow> (\<exists>s' m. feed_all chunks (oc_session c') = Some (Inr (), s') \<and> last (ss_events s') = Accepted m
      \<and> oa_order_token m = token_bytes ?tok \<and> oa_side m = to_wire (pa_side args)
      \<and> oa_quantity m = pa_quantity args \<and> oa_price m = pa_price args \<and> oa_order_id m = gw_order_id_seq g)"
  proof (intro allI impI)
    fix chunks
    assume that: "concat chunks = frames [(kSequencedData, ?reply)]"
    have "feed_all chunks (oc_session c') = Some (Inr (), with_buffer [] s')"
      using s'(1) length_frame_reply [OF wf] c'(3) that
      by (intro feed_all_frames [of "[(kSequencedData, ?reply)]"]) simp_all
    moreover have "last (ss_events (with_buffer [] s')) = Accepted ?m"
      using s'(2) by (simp add: with_buffer_def)
    ultimately show "\<exists>s' m. feed_all chunks (oc_session c') = Some (Inr (), s') \<and> last (ss_events s') = Accepted m
      \<and> oa_order_token m = token_bytes ?tok \<and> oa_side m = to_wire (pa_side args)
      \<and> oa_quantity m = pa_quantity args \<and> oa_price m = pa_price args \<and> oa_order_id m = gw_order_id_seq g"
      using fields by blast
  qed
  show ?thesis
    by (intro exI conjI) (rule c'(1) c'(2) h acc(1) rest delivered)+
qed

text \<open>
  The quotes the client sends are always within what the gateway can read: any mass quote
  of one to five entries that the client accepts is answered without reading past it, with one
  packet for each crossed entry and two for each other.
\<close>

lemma client_quotes_are_answered:
  assumes "length (ma_entries args) \<in> {1..5}"
  shows "\<exists>g'. handle_unsequenced_payload (quote_blob args tok) g = Some g'
    \<and> length (gw_sent g') = length (gw_sent g)
        + sum_list (map (\<lambda>a. if crossed (quote_entry a) then 1 else 2) (ma_entries args))"
proof -
  let ?p = "quote_blob args tok" and ?h = "quote_header args tok"
  have len: "length ?p = 50 + 28 * length (ma_entries args)"
    by (simp add: quote_blob_length kMassQuoteHdrLen_def kQuoteEntryLen_def)
  have hdr: "dec_MassQuoteHeader (take 50 ?p) = ?h"
    by (simp add: quote_blob_def mh.length_enc mh.dec_enc)
  have n: "unat (mh_no_quote_entries ?h) = length (ma_entries args)"
    using assms by (simp add: quote_header_def unat_of_nat)
  have "dec_char (take 1 ?p) = kMassQuote" "?p \<noteq> []"
    by (simp_all add: quote_blob_def enc_MassQuoteHeader_def enc_char_def dec_char_def quote_header_def)
  then have h: "handle_unsequenced_payload ?p g = quote_loop ?h ?p 0 (length (ma_entries args)) g"
    using assms len hdr n
    by (auto simp: handle_unsequenced_payload_def on_mass_quote_def msg_type_defs Let_def
        kMassQuoteHdrLen_def kQuoteEntryLen_def)
  have sent: "length (gw_sent (on_quote_entry ?h e g)) = length (gw_sent g) + (if crossed e then 1 else 2)" for e g
    by (simp add: on_quote_entry_def ack_side_def status_for_side_def case_prod_beta Let_def)
  have loop: "quote_loop ?h ?p i k g = Some g' \<Longrightarrow> i + k \<le> length (ma_entries args) \<Longrightarrow>
      length (gw_sent g') = length (gw_sent g)
        + sum_list (map (\<lambda>a. if crossed (quote_entry a) then 1 else 2) (take k (drop i (ma_entries args))))"
    for i k g g'
  proof (induction k arbitrary: i g)
    case 0
    then show ?case by simp
  next
    case (Suc k)
    have i: "i < length (ma_entries args)" using Suc.prems(2) by simp
    have "dec_QuoteEntry (slice_at (kMassQuoteHdrLen + kQuoteEntryLen * i) kQuoteEntryLen ?p)
        = quote_entry (ma_entries args ! i)"
      using quote_blob_entry [OF i] by (simp add: kMassQuoteHdrLen_def kQuoteEntryLen_def)
    then have "quote_loop ?h ?p (Suc i) k (on_quote_entry ?h (quote_entry (ma_entries args ! i)) g) = Some g'"
      using Suc.prems(1) by (simp add: peek_def split: if_splits)
    from Suc.IH [OF this] show ?case
      using Suc.prems(2) sent i by (simp add: Cons_nth_drop_Suc [OF i, symmetric])
  qed
  have "quote_loop ?h ?p 0 (length (ma_entries args)) g \<noteq> None"
    using len by (intro quote_loop_defined) (simp add: kMassQuoteHdrLen_def kQuoteEntryLen_def)
  then obtain g' where "quote_loop ?h ?p 0 (length (ma_entries args)) g = Some g'" by auto
  then show ?thesis using h loop [of 0 "length (ma_entries args)" g g'] by simp
qed

theorem order_round_trip_witness:
  "\<exists>tok c' payload g' reply. place sample_place sample_client = (Inr tok, c')
    \<and> handle_unsequenced_payload payload sample_gateway = Some g'
    \<and> gw_sent g' = gw_sent sample_gateway @ [(kSequencedData, reply)]
    \<and> map_option rs_order_id (gw_resting g' (token_bytes tok)) = Some 1"
proof -
  have a: "pa_explicit_token sample_place = []" "pa_price sample_place = 6200" "pa_tif sample_place = Day"
    by (simp_all add: sample_place_def)
  have b: "ss_in_buffer sample_session = []" "on_accepted (ss_handlers sample_session)"
    by (simp_all add: sample_session_def session_init_def all_handlers_def)
  have g: "gw_seen_tokens sample_gateway = []" "gw_order_id_seq sample_gateway = 1"
    by (simp_all add: sample_gateway_def gateway_init_def)
  have "\<not> (9000 :: i32) <s 6200" by (simp add: word_sless_alt)
  then show ?thesis
    using order_round_trip [of sample_client sample_place sample_gateway] sample_grant a b g by auto
qed

end
