(* ===== verification/Reconnect.thy ===== *)
theory Reconnect
  imports Tcp_Socket
begin

text \<open>
  \<open>include/bist/app/reconnect_policy.hpp\<close>: the reconnect loop that must end before the
  exchange inactivates the orders of a lost session. The connect callable is an argument, as
  in the code; it is given the attempt number and works on a state of its own.
\<close>

section \<open>Policy and state\<close>

record reconnect_policy =
  rp_deadline_ms :: u32
  rp_initial_backoff_ms :: u32
  rp_max_backoff_ms :: u32

definition default_policy :: reconnect_policy where
  "default_policy = \<lparr>rp_deadline_ms = 30000, rp_initial_backoff_ms = 500, rp_max_backoff_ms = 15000\<rparr>"

record reconnect_state =
  rc_started_ns :: u64
  rc_attempts :: u32
  rc_cod_risk :: bool

text \<open>Milliseconds as nanoseconds in 64 bits.\<close>

definition ms_to_ns :: "u32 \<Rightarrow> u64" where
  "ms_to_ns ms = ucast ms * 1000000"

section \<open>The loop\<close>

text \<open>The busy wait: readings are taken until one reaches \<open>wake_at\<close>; on a clock that never
  does, the wait does not end and the result is \<open>None\<close>.\<close>

fun spin :: "u64 \<Rightarrow> u64 \<Rightarrow> u64 list \<Rightarrow> clock option" where
  "spin wake_at t [] = (if t < wake_at then None else Some \<lparr>ck_now = t, ck_later = []\<rparr>)"
| "spin wake_at t (u # us) =
     (if t < wake_at then spin wake_at u us else Some \<lparr>ck_now = u, ck_later = us\<rparr>)"

definition sleep_before_retry :: "u32 \<Rightarrow> u64 \<Rightarrow> u64 \<Rightarrow> clock \<Rightarrow> clock option" where
  "sleep_before_retry backoff now_ns deadline_ns c =
     (let remaining_ns = deadline_ns - now_ns;
          step_ns = ms_to_ns backoff;
          sleep_ns = (if step_ns < remaining_ns then step_ns else remaining_ns)
      in if sleep_ns > 0 then spin (now_ns + sleep_ns) (ck_now c) (ck_later c) else Some c)"

definition next_backoff :: "reconnect_policy \<Rightarrow> u32 \<Rightarrow> u32" where
  "next_backoff p backoff =
     (let b = backoff * 2 in if b > rp_max_backoff_ms p then rp_max_backoff_ms p else b)"

definition deadline_error :: "u32 \<Rightarrow> error \<Rightarrow> error" where
  "deadline_error n last_err =
     make_error Timeout
       (''CoD reconnect deadline elapsed after '' @ dec (unat n) @ '' attempt(s); last: '' @ detail last_err)"

partial_function (option) attempt_loop ::
  "(u32 \<Rightarrow> 'w \<Rightarrow> unit result \<times> 'w) \<Rightarrow> reconnect_policy \<Rightarrow> u64 \<Rightarrow> u32 \<Rightarrow> reconnect_state \<Rightarrow> 'w \<Rightarrow> clock
    \<Rightarrow> (unit result \<times> reconnect_state \<times> 'w \<times> clock) option" where
  "attempt_loop try_connect p deadline_ns backoff st w c =
     (let st1 = st\<lparr>rc_attempts := rc_attempts st + 1\<rparr>;
          (r, w1) = try_connect (rc_attempts st1) w
      in case r of
           Inr _ \<Rightarrow> Some (Inr (), st1, w1, c)
         | Inl last_err \<Rightarrow>
             (let (now_ns, c1) = read_clock c
              in if now_ns \<ge> deadline_ns
                 then Some (Inl (deadline_error (rc_attempts st1) last_err),
                            st1\<lparr>rc_cod_risk := True\<rparr>, w1, c1)
                 else case sleep_before_retry backoff now_ns deadline_ns c1 of
                        None \<Rightarrow> None
                      | Some c2 \<Rightarrow>
                          attempt_loop try_connect p deadline_ns (next_backoff p backoff) st1 w1 c2))"

definition reconnect_with_deadline ::
  "(u32 \<Rightarrow> 'w \<Rightarrow> unit result \<times> 'w) \<Rightarrow> reconnect_policy \<Rightarrow> 'w \<Rightarrow> clock
    \<Rightarrow> (unit result \<times> reconnect_state \<times> 'w \<times> clock) option" where
  "reconnect_with_deadline try_connect p w c =
     (let (started, c1) = read_clock c;
          st = \<lparr>rc_started_ns = started, rc_attempts = 0, rc_cod_risk = False\<rparr>
      in attempt_loop try_connect p (started + ms_to_ns (rp_deadline_ms p)) (rp_initial_backoff_ms p) st w c1)"

section \<open>What the attempts answered\<close>

fun attempt_results :: "(u32 \<Rightarrow> 'w \<Rightarrow> unit result \<times> 'w) \<Rightarrow> nat \<Rightarrow> u32 \<Rightarrow> 'w \<Rightarrow> unit result list" where
  "attempt_results try_connect 0 a w = []"
| "attempt_results try_connect (Suc n) a w =
     fst (try_connect a w) # attempt_results try_connect n (a + 1) (snd (try_connect a w))"

lemma length_attempt_results [simp]: "length (attempt_results f n a w) = n"
  by (induction n arbitrary: a w) simp_all

abbreviation last_reading :: "clock \<Rightarrow> u64" where
  "last_reading c \<equiv> last (ck_now c # ck_later c)"

lemma spin_ends:
  assumes "wake \<le> last (t # ts)"
  obtains c where "spin wake t ts = Some c" "last_reading c = last (t # ts)" "length (ck_later c) \<le> length ts"
proof -
  have "spin wake t ts \<noteq> None
      \<and> (\<forall>c. spin wake t ts = Some c \<longrightarrow> last_reading c = last (t # ts) \<and> length (ck_later c) \<le> length ts)"
    using assms by (induction wake t ts rule: spin.induct) auto
  then show ?thesis using that by auto
qed

lemma wake_within_deadline:
  assumes "(now :: u64) < dl"
  shows "now + (if s < dl - now then s else dl - now) \<le> dl"
proof (cases "s < dl - now")
  case True
  then have "unat now + unat s < unat dl"
    using assms by (simp add: word_less_nat_alt unat_sub_if' split: if_splits)
  moreover have "unat dl < 2 ^ 64" using unsigned_less [of dl] by simp
  ultimately show ?thesis using True by (simp add: word_le_nat_alt unat_word_ariths)
qed simp

lemma sleep_ends:
  assumes "now < dl" "dl \<le> last_reading c"
  obtains c' where "sleep_before_retry b now dl c = Some c'" "last_reading c' = last_reading c"
    "length (ck_later c') \<le> length (ck_later c)"
proof -
  let ?sleep = "if ms_to_ns b < dl - now then ms_to_ns b else dl - now"
  have "now + ?sleep \<le> last (ck_now c # ck_later c)"
    using wake_within_deadline [OF assms(1)] assms(2) by (rule order.trans)
  from spin_ends [OF this] obtain c1 where
    c1: "spin (now + ?sleep) (ck_now c) (ck_later c) = Some c1" "last_reading c1 = last_reading c"
      "length (ck_later c1) \<le> length (ck_later c)" .
  show ?thesis
  proof (cases "?sleep > 0")
    case True
    then show ?thesis using that [of c1] c1 by (simp only: sleep_before_retry_def Let_def if_True)
  next
    case False
    then show ?thesis using that [of c] by (simp only: sleep_before_retry_def Let_def if_False)
  qed
qed

text \<open>What the loop has done when it returns.\<close>

definition loop_outcome ::
  "(u32 \<Rightarrow> 'w \<Rightarrow> unit result \<times> 'w) \<Rightarrow> reconnect_state \<Rightarrow> 'w \<Rightarrow> nat \<Rightarrow> unit result \<Rightarrow> reconnect_state \<Rightarrow> bool" where
  "loop_outcome try_connect st w n r st' \<longleftrightarrow>
     (let rs = attempt_results try_connect n (rc_attempts st + 1) w
      in n \<noteq> 0 \<and> rc_attempts st' = rc_attempts st + word_of_nat n \<and> rc_started_ns st' = rc_started_ns st
         \<and> (\<forall>x \<in> set (butlast rs). \<not> result_ok x)
         \<and> (case last rs of
              Inr _ \<Rightarrow> r = Inr () \<and> rc_cod_risk st' = rc_cod_risk st
            | Inl e \<Rightarrow> r = Inl (deadline_error (rc_attempts st') e) \<and> rc_cod_risk st'))"

lemma loop_outcome_step:
  assumes "loop_outcome f (st\<lparr>rc_attempts := rc_attempts st + 1\<rparr>) w1 n r st'"
    "f (rc_attempts st + 1) w = (Inl e, w1)"
  shows "loop_outcome f st w (Suc n) r st'"
proof -
  have ne: "attempt_results f n (rc_attempts st + 1 + 1) w1 \<noteq> []"
    using assms(1) by (cases n) (auto simp: loop_outcome_def)
  show ?thesis
    using assms ne by (auto simp: loop_outcome_def Let_def add.assoc split: sum.splits)
qed

lemma attempt_loop_ends:
  assumes "dl \<le> last_reading c"
  shows "\<exists>n r st' w' c'. attempt_loop f p dl b st w c = Some (r, st', w', c')
    \<and> n \<le> Suc (length (ck_later c)) \<and> loop_outcome f st w n r st'"
  using assms
proof (induction "length (ck_later c)" arbitrary: c b st w rule: less_induct)
  case less
  obtain r1 w1 where f: "f (rc_attempts st + 1) w = (r1, w1)" by fastforce
  let ?st1 = "st\<lparr>rc_attempts := rc_attempts st + 1\<rparr>"
  show ?case
  proof (cases "result_ok r1 \<or> dl \<le> ck_now c")
    case True
    then show ?thesis
      using f by (intro exI [of _ 1])
        (auto simp: attempt_loop.simps [of f p dl b st] loop_outcome_def result_ok_def Let_def
          read_clock_def split: sum.splits)
  next
    case False
    then obtain e where e: "r1 = Inl e" by (auto simp: result_ok_def split: sum.splits)
    have nle: "\<not> dl \<le> ck_now c" using False by simp
    then have now: "ck_now c < dl" by simp
    then obtain t ts where later: "ck_later c = t # ts"
      using less.prems by (cases "ck_later c") auto
    let ?c1 = "\<lparr>ck_now = t, ck_later = ts\<rparr>"
    have "dl \<le> last_reading ?c1" using less.prems later by simp
    from sleep_ends [OF now this, of b] obtain c2 where
      c2: "sleep_before_retry b (ck_now c) dl ?c1 = Some c2" "last_reading c2 = last_reading ?c1"
        "length (ck_later c2) \<le> length (ck_later ?c1)" .
    have step: "attempt_loop f p dl b st w c = attempt_loop f p dl (next_backoff p b) ?st1 w1 c2"
      using f e c2(1) nle by (auto simp: attempt_loop.simps [of f p dl b st] read_clock_def later Let_def)
    have "length (ck_later c2) < length (ck_later c)" "dl \<le> last_reading c2"
      using c2(2,3) less.prems later by simp_all
    from less.hyps [OF this, of "next_backoff p b" ?st1 w1] obtain n r st' w' c' where
      ih: "attempt_loop f p dl (next_backoff p b) ?st1 w1 c2 = Some (r, st', w', c')"
        "n \<le> Suc (length (ck_later c2))" "loop_outcome f ?st1 w1 n r st'" by blast
    show ?thesis
      using step ih loop_outcome_step [OF ih(3) f [unfolded e]] c2(3) later
      by (intro exI [of _ "Suc n"]) auto
  qed
qed

section \<open>Properties\<close>

text \<open>
  C21: The reconnect loop ends, whatever the callable answers and however the clock jumps, once
  the clock has reached the deadline: it makes at most one attempt per reading and stops at the
  first success, reporting it. Otherwise every attempt has failed, the error is a \<open>Timeout\<close>
  that quotes the last failure, never that failure itself, and the risk flag is raised. The
  flag is raised in no other case.
\<close>

theorem reconnect_ends:
  assumes "ck_now c + ms_to_ns (rp_deadline_ms p) \<le> last_reading (snd (read_clock c))"
  shows "\<exists>n r st w' c'. reconnect_with_deadline f p w c = Some (r, st, w', c')
    \<and> 0 < n \<and> n \<le> Suc (length (ck_later c)) \<and> rc_attempts st = word_of_nat n
    \<and> (\<forall>x \<in> set (butlast (attempt_results f n 1 w)). \<not> result_ok x)
    \<and> (rc_cod_risk st \<longleftrightarrow> \<not> result_ok (last (attempt_results f n 1 w)))
    \<and> (case last (attempt_results f n 1 w) of
         Inr _ \<Rightarrow> r = Inr ()
       | Inl e \<Rightarrow> r = Inl (deadline_error (word_of_nat n) e))"
proof -
  let ?st = "\<lparr>rc_started_ns = ck_now c, rc_attempts = 0, rc_cod_risk = False\<rparr>"
  have len: "length (ck_later (snd (read_clock c))) \<le> length (ck_later c)"
    by (simp add: read_clock_def split: list.split)
  obtain n r st w' c' where "reconnect_with_deadline f p w c = Some (r, st, w', c')"
    "n \<le> Suc (length (ck_later (snd (read_clock c))))" "loop_outcome f ?st w n r st"
    using attempt_loop_ends [OF assms, of f p "rp_initial_backoff_ms p" ?st w]
    by (auto simp: reconnect_with_deadline_def case_prod_beta Let_def)
  then show ?thesis
    using len by (intro exI [of _ n] exI [of _ r] exI [of _ st] exI [of _ w'] exI [of _ c'])
      (auto simp: loop_outcome_def Let_def result_ok_def split: sum.splits)
qed

text \<open>
  The doubling is done in 32 bits before the cap: a backoff of \<open>2 ^ 31\<close> ms becomes zero, and
  the loop then retries without any pause.
\<close>

lemma backoff_wraps_to_zero: "next_backoff (default_policy\<lparr>rp_max_backoff_ms := - 1\<rparr>) 0x80000000 = 0"
  by (simp add: next_backoff_def Let_def)

lemma backoff_below_wrap:
  assumes "unat b < 2 ^ 31"
  shows "unat (next_backoff p b) = min (2 * unat b) (unat (rp_max_backoff_ms p))"
proof -
  have "unat (b * 2) = 2 * unat b" using assms by (simp add: unat_word_ariths)
  then show ?thesis by (simp add: next_backoff_def Let_def word_less_nat_alt min_def)
qed

section \<open>Witness\<close>

theorem reconnect_ends_witness:
  "\<exists>r st w' c'. reconnect_with_deadline (\<lambda>a w. (if a = 2 then Inr () else Inl (make_error Io ''refused''), w))
      default_policy () \<lparr>ck_now = 0, ck_later = [5, 600000000, 40000000000]\<rparr> = Some (r, st, w', c')"
  using reconnect_ends [of "\<lparr>ck_now = 0, ck_later = [5, 600000000, 40000000000]\<rparr>" default_policy
      "\<lambda>a w. (if a = 2 then Inr () else Inl (make_error Io ''refused''), w)" "()"]
  by (auto simp: read_clock_def default_policy_def ms_to_ns_def)

end
