(* ===== verification/Sequence_Store.thy ===== *)
theory Sequence_Store
  imports Tcp_Socket
begin

text \<open>
  \<open>include/bist/observability/sequence_store.hpp\<close>: the cursor (session id and next inbound
  sequence number) a client keeps on disk to resume its session. The disk is the contents of
  the file and of its \<open>.tmp\<close> sibling; how the coming saves fare is a list of answers of the
  file system, as for the socket. The states the disk passes through during a save are the
  ones a crash can leave behind.
\<close>

section \<open>The disk\<close>

record disk =
  dk_file :: "string option"
  dk_tmp :: "string option"

definition open_trunc :: "disk \<Rightarrow> disk" where
  "open_trunc d = d\<lparr>dk_tmp := Some []\<rparr>"

definition write_tmp :: "nat \<Rightarrow> string \<Rightarrow> disk \<Rightarrow> disk" where
  "write_tmp k txt d = d\<lparr>dk_tmp := Some (take k txt)\<rparr>"

definition rename_tmp :: "disk \<Rightarrow> disk" where
  "rename_tmp d = \<lparr>dk_file = dk_tmp d, dk_tmp = None\<rparr>"

text \<open>What happens to a save: an \<open>open\<close> that fails, a write that stops after some characters,
  a \<open>rename\<close> that fails, or nothing.\<close>

datatype save_fate = OpenFails string | WriteStops nat | RenameFails string | Succeeds

record sequence_store =
  sq_path :: string
  sq_last_saved_seq :: u64
  sq_last_save_ns :: u64
  sq_disk :: disk
  sq_fates :: "save_fate list"
  sq_clock :: clock

definition store_init :: "string \<Rightarrow> disk \<Rightarrow> save_fate list \<Rightarrow> clock \<Rightarrow> sequence_store" where
  "store_init path d fates ck =
     \<lparr>sq_path = path, sq_last_saved_seq = 0, sq_last_save_ns = 0, sq_disk = d, sq_fates = fates,
      sq_clock = ck\<rparr>"

section \<open>Parsing\<close>

text \<open>\<open>std::stoull\<close>: as \<open>strtoull\<close>, but no digits and a value beyond 64 bits throw; the
  \<open>what()\<close> of both exceptions is the function's name.\<close>

definition split_sign :: "string \<Rightarrow> bool \<times> string" where
  "split_sign s =
     (case s of
        [] \<Rightarrow> (False, [])
      | c # cs \<Rightarrow> if c = CHR ''-'' then (True, cs) else if c = CHR ''+'' then (False, cs) else (False, s))"

definition stoull :: "string \<Rightarrow> u64 option" where
  "stoull s =
     (let (neg, rest) = split_sign (dropWhile is_space s);
          digits = takeWhile is_digit rest;
          v = dec_val digits
      in if digits = [] \<or> v \<ge> 2 ^ 64 then None
         else Some (if neg then - word_of_nat v else word_of_nat v))"

text \<open>\<open>std::getline\<close> of the first line, and \<open>substr\<close> around the first colon.\<close>

definition first_line :: "string \<Rightarrow> string" where
  "first_line txt = takeWhile (\<lambda>c. c \<noteq> CHR 0x0A) txt"

text \<open>\<open>load\<close> fills its two reference arguments; they are results here. The first argument is
  the failure of opening the file, if it fails.\<close>

definition load_cursor :: "string option \<Rightarrow> sequence_store \<Rightarrow> unit result \<times> string \<times> u64" where
  "load_cursor open_err s =
     (case dk_file (sq_disk s) of
        None \<Rightarrow> (Inr (), [], 0)
      | Some txt \<Rightarrow>
          (case open_err of
             Some e \<Rightarrow> (Inl (make_error Io (''open '' @ sq_path s @ '': '' @ e)), [], 0)
           | None \<Rightarrow>
               (let line = first_line txt
                in if CHR '':'' \<notin> set line
                   then (Inl (make_error Validation (''sequence file malformed (missing '' @ [CHR 0x27, CHR 0x3A, CHR 0x27] @ '')'')), [], 0)
                   else let session = takeWhile (\<lambda>c. c \<noteq> CHR '':'') line;
                            rest = drop (length session + 1) line
                        in case stoull rest of
                             None \<Rightarrow> (Inl (make_error Validation ''sequence file malformed: stoull''), session, 0)
                           | Some seq \<Rightarrow> (Inr (), session, seq))))"

section \<open>Saving\<close>

definition cursor_text :: "string \<Rightarrow> u64 \<Rightarrow> string" where
  "cursor_text session seq = session @ '':'' @ dec (unat seq) @ [CHR 0x0A]"

definition next_fate :: "sequence_store \<Rightarrow> save_fate \<times> sequence_store" where
  "next_fate s =
     (case sq_fates s of [] \<Rightarrow> (Succeeds, s) | f # fs \<Rightarrow> (f, s\<lparr>sq_fates := fs\<rparr>))"

definition remember_saved :: "u64 \<Rightarrow> sequence_store \<Rightarrow> sequence_store" where
  "remember_saved seq s =
     (let (now, ck) = read_clock (sq_clock s)
      in s\<lparr>sq_last_saved_seq := seq, sq_last_save_ns := now, sq_clock := ck\<rparr>)"

definition save :: "string \<Rightarrow> u64 \<Rightarrow> sequence_store \<Rightarrow> unit result \<times> sequence_store" where
  "save session seq s0 =
     (let (fate, s) = next_fate s0;
          txt = cursor_text session seq;
          tmp = sq_path s @ ''.tmp''
      in case fate of
           OpenFails e \<Rightarrow> (Inl (make_error Io (''open '' @ tmp @ '': '' @ e)), s)
         | _ \<Rightarrow>
             (let k = (case fate of WriteStops n \<Rightarrow> n | _ \<Rightarrow> length txt);
                  d = write_tmp k txt (open_trunc (sq_disk s));
                  s1 = s\<lparr>sq_disk := d\<rparr>
              in if k < length txt then (Inl (make_error Io (''write '' @ tmp @ '' failed'')), s1)
                 else case fate of
                   RenameFails e \<Rightarrow>
                     (Inl (make_error Io (''rename '' @ tmp @ '' -> '' @ sq_path s @ '': '' @ e)), s1)
                 | _ \<Rightarrow> (Inr (), remember_saved seq (s1\<lparr>sq_disk := rename_tmp d\<rparr>))))"

definition save_if_due ::
  "string \<Rightarrow> u64 \<Rightarrow> u64 \<Rightarrow> u32 \<Rightarrow> sequence_store \<Rightarrow> unit result \<times> sequence_store" where
  "save_if_due session seq min_seq_delta min_interval_ms s =
     (if seq = sq_last_saved_seq s then (Inr (), s)
      else let (now, ck) = read_clock (sq_clock s);
               s1 = s\<lparr>sq_clock := ck\<rparr>;
               interval_ns = ucast min_interval_ms * 1000000;
               seq_due = (seq - sq_last_saved_seq s \<ge> min_seq_delta);
               time_due = (sq_last_save_ns s = 0 \<or> now - sq_last_save_ns s \<ge> interval_ns)
           in if \<not> seq_due \<and> \<not> time_due then (Inr (), s1) else save session seq s1)"

definition flush_cursor :: "string \<Rightarrow> u64 \<Rightarrow> sequence_store \<Rightarrow> unit result \<times> sequence_store" where
  "flush_cursor session seq s =
     (if seq = sq_last_saved_seq s then (Inr (), s) else save session seq s)"

section \<open>Crashes\<close>

text \<open>The states the disk passes through during a save of a given fate, the last one being the
  one the save leaves.\<close>

fun save_states :: "save_fate \<Rightarrow> string \<Rightarrow> disk \<Rightarrow> disk list" where
  "save_states (OpenFails e) txt d = [d]"
| "save_states (WriteStops n) txt d =
     d # map (\<lambda>k. write_tmp k txt (open_trunc d)) [0..<Suc (min n (length txt))]
       @ (if n < length txt then [] else [rename_tmp (write_tmp n txt (open_trunc d))])"
| "save_states (RenameFails e) txt d = d # map (\<lambda>k. write_tmp k txt (open_trunc d)) [0..<Suc (length txt)]"
| "save_states Succeeds txt d =
     d # map (\<lambda>k. write_tmp k txt (open_trunc d)) [0..<Suc (length txt)]
       @ [rename_tmp (write_tmp (length txt) txt (open_trunc d))]"

lemma save_disk:
  "sq_disk (snd (save session seq s))
     = last (save_states (fst (next_fate s)) (cursor_text session seq) (sq_disk s))"
  by (cases "fst (next_fate s)"; cases "sq_fates s")
    (simp_all add: save_def next_fate_def remember_saved_def Let_def case_prod_beta write_tmp_def min_def)

lemma save_states_file:
  "d' \<in> set (save_states fate txt d) \<Longrightarrow> dk_file d' = dk_file d \<or> dk_file d' = Some txt"
  by (cases fate) (auto simp: write_tmp_def open_trunc_def rename_tmp_def split: if_splits)

datatype store_call = Save string u64 | SaveIfDue string u64 u64 u32 | Flush string u64

fun store_step :: "store_call \<Rightarrow> sequence_store \<Rightarrow> sequence_store" where
  "store_step (Save session seq) s = snd (save session seq s)"
| "store_step (SaveIfDue session seq delta interval) s = snd (save_if_due session seq delta interval s)"
| "store_step (Flush session seq) s = snd (flush_cursor session seq s)"

fun requested :: "store_call \<Rightarrow> string" where
  "requested (Save session seq) = cursor_text session seq"
| "requested (SaveIfDue session seq _ _) = cursor_text session seq"
| "requested (Flush session seq) = cursor_text session seq"

text \<open>The states a crash during a call may leave: of the save when the call makes one.\<close>

definition crash_states :: "store_call \<Rightarrow> sequence_store \<Rightarrow> disk set" where
  "crash_states a s =
     (if sq_disk (store_step a s) = sq_disk s then {sq_disk s} else {})
     \<union> set (save_states (fst (next_fate s)) (requested a) (sq_disk s))"

lemma save_file: "dk_file (sq_disk (snd (save session seq s))) = dk_file (sq_disk s)
    \<or> dk_file (sq_disk (snd (save session seq s))) = Some (cursor_text session seq)"
  unfolding save_disk
  by (rule save_states_file [of _ "fst (next_fate s)"], rule last_in_set) (cases "fst (next_fate s)"; simp)

lemma step_file:
  "dk_file (sq_disk (store_step a s)) = dk_file (sq_disk s)
    \<or> dk_file (sq_disk (store_step a s)) = Some (requested a)"
proof (cases a)
  case (SaveIfDue session seq delta interval)
  then show ?thesis
    using save_file [of session seq "s\<lparr>sq_clock := snd (read_clock (sq_clock s))\<rparr>"]
    by (simp add: save_if_due_def case_prod_beta Let_def)
qed (use save_file in \<open>simp_all add: flush_cursor_def\<close>)

lemma crash_file:
  "d \<in> crash_states a s \<Longrightarrow> dk_file d = dk_file (sq_disk s) \<or> dk_file d = Some (requested a)"
  using save_states_file by (auto simp: crash_states_def split: if_splits)

lemma run_file:
  "dk_file (sq_disk (fold store_step as s)) = dk_file (sq_disk s)
    \<or> dk_file (sq_disk (fold store_step as s)) \<in> Some ` requested ` set as"
proof (induction as rule: rev_induct)
  case (snoc a as)
  then show ?case using step_file [of a "fold store_step as s"] by auto
qed simp

section \<open>Reading back\<close>

lemma split_sign_dec: "split_sign (dec n) = (False, dec n)"
  using dec_digits [of n] is_digit_not_space by (cases "dec n") (auto simp: split_sign_def)

lemma stoull_dec: "stoull (dec (unat w)) = Some w"
proof -
  have ws: "dropWhile is_space (dec (unat w)) = dec (unat w)"
    using dec_digits [of "unat w"] is_digit_not_space by (cases "dec (unat w)") auto
  have "unat w < 2 ^ 64" using unsigned_less [of w] by simp
  then show ?thesis
    by (simp add: stoull_def ws split_sign_dec takeWhile_digits dec_digits Let_def)
qed

lemma load_cursor_text:
  assumes "dk_file (sq_disk s) = Some (cursor_text session seq)"
    "CHR '':'' \<notin> set session" "CHR 0x0A \<notin> set session"
  shows "load_cursor None s = (Inr (), session, seq)"
proof -
  have digits: "CHR '':'' \<notin> set (dec n)" "CHR 0x0A \<notin> set (dec n)" for n
    using dec_digits [of n] by (auto simp: list_all_iff is_digit_def)
  have line: "first_line (cursor_text session seq) = session @ '':'' @ dec (unat seq)"
    using digits assms(3) unfolding cursor_text_def first_line_def
    by (subst append_assoc [symmetric], subst append_assoc [symmetric], subst takeWhile_append2) auto
  have "takeWhile (\<lambda>c. c \<noteq> CHR '':'') (session @ '':'' @ dec (unat seq)) = session"
    using assms(2) by (subst takeWhile_append2) auto
  then show ?thesis
    using assms(1) by (simp add: load_cursor_def line Let_def stoull_dec)
qed

section \<open>Properties\<close>

text \<open>
  C10: The cursor survives crashes: whatever calls were made on the store, however the file
  system treated them, and wherever the process dies in the middle of a last call, the file
  afterwards loads without error, and yields either what it held at the start or the session
  and sequence number of one of the calls. No half-written cursor is ever read.
\<close>

theorem cursor_survives_crashes:
  assumes "\<forall>a \<in> set (as @ [a]). \<exists>session seq. requested a = cursor_text session seq
      \<and> CHR '':'' \<notin> set session \<and> CHR 0x0A \<notin> set session"
    "d \<in> crash_states a (fold store_step as s)"
  shows "dk_file d = dk_file (sq_disk s)
    \<or> (\<exists>session seq. cursor_text session seq \<in> requested ` set (as @ [a])
        \<and> load_cursor None (s\<lparr>sq_disk := d\<rparr>) = (Inr (), session, seq))"
proof -
  have "dk_file d = dk_file (sq_disk s) \<or> dk_file d \<in> Some ` requested ` set (as @ [a])"
    using crash_file [OF assms(2)] run_file [of as s] by auto
  then show ?thesis
  proof
    assume "dk_file d \<in> Some ` requested ` set (as @ [a])"
    then obtain b where b: "b \<in> set (as @ [a])" "dk_file d = Some (requested b)" by blast
    then obtain session seq where c: "requested b = cursor_text session seq"
      "CHR '':'' \<notin> set session" "CHR 0x0A \<notin> set session" using assms(1) by blast
    have "load_cursor None (s\<lparr>sq_disk := d\<rparr>) = (Inr (), session, seq)"
      using b(2) c by (intro load_cursor_text) simp_all
    moreover have "cursor_text session seq \<in> requested ` set (as @ [a])"
      using b(1) c(1) by (metis imageI)
    ultimately show ?thesis by blast
  qed simp
qed

text \<open>
  A save that reports success can be loaded: the session and sequence number come back as
  given, for every session id without colon or newline.
\<close>

lemma saved_cursor_loads:
  assumes "save session seq s = (Inr (), s')" "CHR '':'' \<notin> set session" "CHR 0x0A \<notin> set session"
  shows "load_cursor None s' = (Inr (), session, seq)"
proof (rule load_cursor_text [OF _ assms(2,3)])
  show "dk_file (sq_disk s') = Some (cursor_text session seq)"
    using assms(1)
    by (cases "fst (next_fate s)")
      (auto simp: save_def Let_def case_prod_beta remember_saved_def rename_tmp_def write_tmp_def
        split: if_splits)
qed

text \<open>
  A session id that changes without the sequence number changing is not written, not even by
  the final flush: the file keeps the old session.
\<close>

lemma flush_skips_new_session:
  assumes "save old seq s = (Inr (), s')"
  shows "flush_cursor new seq s' = (Inr (), s')" "save_if_due new seq delta interval s' = (Inr (), s')"
proof -
  have "sq_last_saved_seq s' = seq"
    using assms by (cases "fst (next_fate s)")
      (auto simp: save_def Let_def case_prod_beta remember_saved_def split: if_splits)
  then show "flush_cursor new seq s' = (Inr (), s')" "save_if_due new seq delta interval s' = (Inr (), s')"
    by (simp_all add: flush_cursor_def save_if_due_def)
qed

section \<open>Witnesses\<close>

definition sample_store :: sequence_store where
  "sample_store = store_init ''cursor'' \<lparr>dk_file = None, dk_tmp = None\<rparr> [Succeeds, WriteStops 3] \<lparr>ck_now = 7, ck_later = []\<rparr>"

theorem cursor_survives_crashes_witness:
  "\<exists>session seq. cursor_text session seq = cursor_text ''S1'' 42
    \<and> load_cursor None (sample_store\<lparr>sq_disk := sq_disk (snd (save ''S1'' 42 sample_store))\<rparr>)
      = (Inr (), session, seq)"
proof -
  let ?d = "sq_disk (snd (save ''S1'' 42 sample_store))"
  have "?d \<in> crash_states (Flush ''S1'' 42) (fold store_step [] sample_store)"
    unfolding save_disk by (simp add: crash_states_def sample_store_def store_init_def next_fate_def)
  moreover have "dk_file ?d \<noteq> dk_file (sq_disk sample_store)"
    by (simp add: save_def sample_store_def store_init_def next_fate_def Let_def remember_saved_def
        rename_tmp_def write_tmp_def read_clock_def)
  moreover have "\<forall>a \<in> set ([] @ [Flush ''S1'' 42]). \<exists>session seq. requested a = cursor_text session seq
      \<and> CHR '':'' \<notin> set session \<and> CHR 0x0A \<notin> set session"
    by (auto intro!: exI [of _ "''S1''"])
  ultimately show ?thesis
    using cursor_survives_crashes [of "[]" "Flush ''S1'' 42" ?d sample_store] by auto
qed

end
