(* ===== verification/Ptrm.thy ===== *)
theory Ptrm
  imports Core_Types
begin

text \<open>
  \<open>include/bist/risk/ptrm.hpp\<close> and \<open>src/risk/ptrm.cpp\<close>: the pre-trade risk gate. The abstract
  class \<open>IPtrmGate\<close> is a locale with the one method; its implementations are interpretations.
\<close>

section \<open>Data\<close>

datatype ptrm_mode = Disabled | LogOnly | Enforce

datatype rx_category =
  RxNone | RxPositionLimit | RxOrderRateLimit | RxOrderQuantityLimit | RxOrderValueLimit
| RxLossLimit | RxMarginCallExceeded | RxRestrictedInstrument | RxAccountSuspended
| RxPriceCollar | RxKillSwitch | RxOther

fun rx_code :: "rx_category \<Rightarrow> u8" where
  "rx_code RxNone = 0"
| "rx_code RxPositionLimit = 115"
| "rx_code RxOrderRateLimit = 116"
| "rx_code RxOrderQuantityLimit = 117"
| "rx_code RxOrderValueLimit = 118"
| "rx_code RxLossLimit = 119"
| "rx_code RxMarginCallExceeded = 120"
| "rx_code RxRestrictedInstrument = 121"
| "rx_code RxAccountSuspended = 122"
| "rx_code RxPriceCollar = 123"
| "rx_code RxKillSwitch = 124"
| "rx_code RxOther = 125"

fun rx_name :: "rx_category \<Rightarrow> string" where
  "rx_name RxNone = ''ok''"
| "rx_name RxPositionLimit = ''position_limit''"
| "rx_name RxOrderRateLimit = ''order_rate_limit''"
| "rx_name RxOrderQuantityLimit = ''order_qty_limit''"
| "rx_name RxOrderValueLimit = ''order_value_limit''"
| "rx_name RxLossLimit = ''loss_limit''"
| "rx_name RxMarginCallExceeded = ''margin_call''"
| "rx_name RxRestrictedInstrument = ''restricted_instrument''"
| "rx_name RxAccountSuspended = ''account_suspended''"
| "rx_name RxPriceCollar = ''price_collar''"
| "rx_name RxKillSwitch = ''kill_switch''"
| "rx_name RxOther = ''rx_other''"

record pre_trade_order =
  pt_symbol :: string
  pt_order_book_id :: u32
  pt_side :: side
  pt_quantity :: quantity
  pt_price :: price_int
  pt_price_decimals :: "8 word"
  pt_account :: string

record ptrm_decision =
  pd_allow :: bool
  pd_rx :: rx_category
  pd_detail :: string

definition permissive :: ptrm_decision where
  "permissive = \<lparr>pd_allow = True, pd_rx = RxNone, pd_detail = []\<rparr>"

section \<open>Evaluation by mode\<close>

definition evaluate :: "(pre_trade_order \<Rightarrow> ptrm_decision) \<Rightarrow> ptrm_mode \<Rightarrow> pre_trade_order \<Rightarrow> ptrm_decision" where
  "evaluate check mode o1 =
     (if mode = Disabled then permissive
      else let d = check o1
           in if mode = LogOnly \<and> \<not> pd_allow d
              then d\<lparr>pd_allow := True, pd_detail := ''[log_only] '' @ pd_detail d\<rparr> else d)"

section \<open>Gates\<close>

definition always_accept :: "pre_trade_order \<Rightarrow> ptrm_decision" where
  "always_accept o1 = permissive"

definition always_reject :: "rx_category \<Rightarrow> string \<Rightarrow> pre_trade_order \<Rightarrow> ptrm_decision" where
  "always_reject rx txt o1 = \<lparr>pd_allow = False, pd_rx = rx, pd_detail = txt\<rparr>"

record rest_config =
  rt_base_url :: string
  rt_member_id :: string
  rt_api_key :: string
  rt_timeout_ms :: int
  rt_mode :: ptrm_mode

definition rest_check :: "rest_config \<Rightarrow> pre_trade_order \<Rightarrow> ptrm_decision" where
  "rest_check cfg o1 =
     (if rt_mode cfg = Disabled then permissive
      else \<lparr>pd_allow = False, pd_rx = RxOther,
             pd_detail = ''PtrmRestClient stub: enable real REST integration before ''
               @ ''production deploy (see spec_ptrm.md)''\<rparr>)"

text \<open>The contract of a gate: a refusal says why, an acceptance claims no reason.\<close>

locale ptrm_gate =
  fixes check :: "pre_trade_order \<Rightarrow> ptrm_decision"
  assumes refusal_has_reason: "pd_allow (check o1) \<longleftrightarrow> pd_rx (check o1) = RxNone"
begin

lemma allowed_iff:
  "pd_allow (evaluate check mode o1) \<longleftrightarrow> mode \<noteq> Enforce \<or> pd_allow (check o1)"
  by (cases mode) (simp_all add: evaluate_def Let_def permissive_def)

lemma enforced: "evaluate check Enforce o1 = check o1"
  by (simp add: evaluate_def Let_def)

text \<open>Log-only mode keeps the reason, so the refusal can be recognised in the log.\<close>

lemma log_only_keeps_reason:
  "pd_rx (evaluate check LogOnly o1) = pd_rx (check o1)"
  "pd_rx (evaluate check LogOnly o1) = RxNone \<Longrightarrow> evaluate check LogOnly o1 = check o1"
  using refusal_has_reason [of o1] by (simp_all add: evaluate_def Let_def split: if_splits)

end

interpretation accept_gate: ptrm_gate always_accept
  by unfold_locales (simp add: always_accept_def permissive_def)

interpretation rest_gate: ptrm_gate "rest_check cfg" for cfg
  by unfold_locales (simp add: rest_check_def permissive_def)

lemma reject_gate: "rx \<noteq> RxNone \<Longrightarrow> ptrm_gate (always_reject rx txt)"
  by unfold_locales (simp add: always_reject_def)

lemma rx_name_inj: "rx_name a = rx_name b \<longleftrightarrow> a = b"
  by (cases a; cases b) simp_all

text \<open>
  The shipped REST gate, a stub, never lets an order through where its verdict is followed:
  evaluated in \<open>Enforce\<close> mode it refuses every order with the cancel reason 125 unless it was
  itself configured \<open>Disabled\<close>, and in every other mode of evaluation every order passes,
  under \<open>LogOnly\<close> with the refusal kept in the record.
\<close>

lemma rest_gate_decides:
  "pd_allow (evaluate (rest_check cfg) mode o1) \<longleftrightarrow> mode \<noteq> Enforce \<or> rt_mode cfg = Disabled"
  "rx_code (pd_rx (evaluate (rest_check cfg) mode o1))
     = (if mode = Disabled \<or> rt_mode cfg = Disabled then 0 else 125)"
  unfolding rest_gate.allowed_iff
  by (simp_all add: rest_check_def evaluate_def permissive_def Let_def)

end
