(* ===== verification/Config.thy ===== *)
theory Config
  imports Complex_Main Core_Types
begin

text \<open>
  \<open>include/bist/config/config.hpp\<close> and \<open>src/config/config.cpp\<close>: the typed configuration and
  its TOML loader. The TOML library is the record \<open>toml_api\<close> of the functions the code calls
  on a node: a definition takes it as its first argument and relies on nothing else about it.
\<close>

section \<open>The configuration\<close>

record environment_cfg =
  ev_name :: string
  ev_description :: string
  ev_weekend :: bool

record uea_cfg =
  ua_host :: string
  ua_ports :: "u16 list"

record ouch_cfg =
  ou_host_primary :: string
  ou_host_secondary :: string
  ou_ports :: "u16 list"
  ou_heartbeat_ms :: u32
  ou_username :: string
  ou_password :: string
  ou_session :: string
  ou_sequence :: u64
  ou_cod_reconnect_deadline_ms :: u32
  ou_uea :: uea_cfg

record fix_password_cfg =
  fw_current :: string
  fw_next :: string

record fix_channel_cfg =
  fc_sender_comp_id :: string
  fc_target_comp_id :: string
  fc_username :: string

record fix_cfg =
  fx_host_primary :: string
  fx_host_colo :: string
  fx_oe_port :: u16
  fx_rd_port :: u16
  fx_dc_port :: u16
  fx_sender_comp_id :: string
  fx_target_comp_id :: string
  fx_username :: string
  fx_data_dictionary :: string
  fx_transport_dictionary :: string
  fx_heartbeat_secs :: u32
  fx_session_storage :: string
  fx_password :: fix_password_cfg
  fx_oe :: fix_channel_cfg
  fx_rd :: fix_channel_cfg
  fx_dc :: fix_channel_cfg

record throttler_cfg =
  tc_orders_per_sec :: u32

record risk_cfg =
  rk_max_qty_per_order :: u64
  rk_max_open_orders :: u64
  rk_allowed_price_min_tl :: real
  rk_allowed_price_max_tl :: real

record runner_cfg =
  rr_default_timeout_ms :: u32
  rr_abort_on_failure :: bool

record logging_cfg =
  lg_level :: string
  lg_directory :: string
  lg_audit_dir :: string
  lg_rotate_at_size_mb :: u32
  lg_keep_files :: u32

record reactor_cfg =
  rea_hot_cpu_pin :: i32
  rea_busy_poll :: bool
  rea_tcp_nodelay :: bool
  rea_recv_buf_bytes :: u32
  rea_send_buf_bytes :: u32

record config =
  cg_environment :: environment_cfg
  cg_ouch :: ouch_cfg
  cg_fix :: fix_cfg
  cg_throttler :: throttler_cfg
  cg_risk :: risk_cfg
  cg_runner :: runner_cfg
  cg_logging :: logging_cfg
  cg_reactor :: reactor_cfg

definition ouch_cfg_default :: ouch_cfg where
  "ouch_cfg_default =
     \<lparr>ou_host_primary = [], ou_host_secondary = [], ou_ports = [], ou_heartbeat_ms = 800,
      ou_username = [], ou_password = [], ou_session = [], ou_sequence = 0,
      ou_cod_reconnect_deadline_ms = 30000, ou_uea = \<lparr>ua_host = [], ua_ports = []\<rparr>\<rparr>"

definition fix_channel_default :: fix_channel_cfg where
  "fix_channel_default = \<lparr>fc_sender_comp_id = [], fc_target_comp_id = [], fc_username = []\<rparr>"

definition fix_cfg_default :: fix_cfg where
  "fix_cfg_default =
     \<lparr>fx_host_primary = [], fx_host_colo = [], fx_oe_port = 0, fx_rd_port = 0, fx_dc_port = 0,
      fx_sender_comp_id = [], fx_target_comp_id = [], fx_username = [], fx_data_dictionary = [],
      fx_transport_dictionary = [], fx_heartbeat_secs = 30, fx_session_storage = [],
      fx_password = \<lparr>fw_current = [], fw_next = []\<rparr>, fx_oe = fix_channel_default,
      fx_rd = fix_channel_default, fx_dc = fix_channel_default\<rparr>"

definition config_default :: config where
  "config_default =
     \<lparr>cg_environment = \<lparr>ev_name = [], ev_description = [], ev_weekend = False\<rparr>,
      cg_ouch = ouch_cfg_default, cg_fix = fix_cfg_default,
      cg_throttler = \<lparr>tc_orders_per_sec = 100\<rparr>,
      cg_risk = \<lparr>rk_max_qty_per_order = 0, rk_max_open_orders = 0, rk_allowed_price_min_tl = 0,
        rk_allowed_price_max_tl = 0\<rparr>,
      cg_runner = \<lparr>rr_default_timeout_ms = 5000, rr_abort_on_failure = True\<rparr>,
      cg_logging = \<lparr>lg_level = ''info'', lg_directory = [], lg_audit_dir = [],
        lg_rotate_at_size_mb = 256, lg_keep_files = 30\<rparr>,
      cg_reactor = \<lparr>rea_hot_cpu_pin = - 1, rea_busy_poll = False, rea_tcp_nodelay = True,
        rea_recv_buf_bytes = 1048576, rea_send_buf_bytes = 1048576\<rparr>\<rparr>"

section \<open>TOML nodes\<close>

text \<open>\<open>t[key]\<close>, \<open>is_table\<close>, \<open>as_array\<close> and \<open>value<T>()\<close> for the types the loader asks for. A
  view of a missing node is \<open>None\<close>.\<close>

record 'n toml_api =
  tm_sub :: "'n \<Rightarrow> string \<Rightarrow> 'n option"
  tm_is_table :: "'n \<Rightarrow> bool"
  tm_array :: "'n \<Rightarrow> 'n list option"
  tm_string :: "'n \<Rightarrow> string option"
  tm_bool :: "'n \<Rightarrow> bool option"
  tm_u32 :: "'n \<Rightarrow> u32 option"
  tm_u64 :: "'n \<Rightarrow> u64 option"
  tm_i64 :: "'n \<Rightarrow> i64 option"
  tm_double :: "'n \<Rightarrow> real option"

definition set_if_present :: "('n \<Rightarrow> 'a option) \<Rightarrow> 'n option \<Rightarrow> 'a \<Rightarrow> 'a" where
  "set_if_present get n dst =
     (case n of None \<Rightarrow> dst | Some x \<Rightarrow> (case get x of None \<Rightarrow> dst | Some v \<Rightarrow> v))"

definition set_if_nonempty :: "'n toml_api \<Rightarrow> 'n option \<Rightarrow> string \<Rightarrow> string" where
  "set_if_nonempty A n dst =
     (case n of
        None \<Rightarrow> dst
      | Some x \<Rightarrow> (case tm_string A x of None \<Rightarrow> dst | Some v \<Rightarrow> if v = [] then dst else v))"

definition port_of :: "'n toml_api \<Rightarrow> 'n \<Rightarrow> u16 option" where
  "port_of A el =
     (case tm_i64 A el of
        None \<Rightarrow> None
      | Some v \<Rightarrow> if 0 \<le>s v \<and> v \<le>s 0xFFFF then Some (ucast v) else None)"

definition load_ports :: "'n toml_api \<Rightarrow> 'n option \<Rightarrow> u16 list \<Rightarrow> u16 list" where
  "load_ports A n out =
     (case n of
        None \<Rightarrow> out
      | Some x \<Rightarrow> (case tm_array A x of None \<Rightarrow> out | Some els \<Rightarrow> List.map_filter (port_of A) els))"

text \<open>\<open>if (auto p = n.value<int64_t>(); p) dst = static_cast<uint16_t>(*p)\<close>.\<close>

definition set_port :: "'n toml_api \<Rightarrow> 'n option \<Rightarrow> u16 \<Rightarrow> u16" where
  "set_port A n = set_if_present (\<lambda>x. map_option ucast (tm_i64 A x)) n"

text \<open>\<open>if (auto s = t[key]; s.is_table())\<close>.\<close>

definition in_table :: "'n toml_api \<Rightarrow> 'n option \<Rightarrow> ('n \<Rightarrow> 'c \<Rightarrow> 'c) \<Rightarrow> 'c \<Rightarrow> 'c" where
  "in_table A n f c = (case n of None \<Rightarrow> c | Some x \<Rightarrow> if tm_is_table A x then f x c else c)"

section \<open>The sections\<close>

definition apply_environment :: "'n toml_api \<Rightarrow> 'n \<Rightarrow> environment_cfg \<Rightarrow> environment_cfg" where
  "apply_environment A env c =
     \<lparr>ev_name = set_if_nonempty A (tm_sub A env ''name'') (ev_name c),
      ev_description = set_if_nonempty A (tm_sub A env ''description'') (ev_description c),
      ev_weekend = set_if_present (tm_bool A) (tm_sub A env ''weekend'') (ev_weekend c)\<rparr>"

definition apply_uea :: "'n toml_api \<Rightarrow> 'n \<Rightarrow> uea_cfg \<Rightarrow> uea_cfg" where
  "apply_uea A uea c =
     \<lparr>ua_host = set_if_nonempty A (tm_sub A uea ''host'') (ua_host c),
      ua_ports = load_ports A (tm_sub A uea ''ports'') (ua_ports c)\<rparr>"

definition apply_ouch :: "'n toml_api \<Rightarrow> 'n \<Rightarrow> ouch_cfg \<Rightarrow> ouch_cfg" where
  "apply_ouch A ou c =
     \<lparr>ou_host_primary = set_if_nonempty A (tm_sub A ou ''host_primary'') (ou_host_primary c),
      ou_host_secondary = set_if_nonempty A (tm_sub A ou ''host_secondary'') (ou_host_secondary c),
      ou_ports = load_ports A (tm_sub A ou ''ports'') (ou_ports c),
      ou_heartbeat_ms = set_if_present (tm_u32 A) (tm_sub A ou ''heartbeat_ms'') (ou_heartbeat_ms c),
      ou_username = set_if_nonempty A (tm_sub A ou ''username'') (ou_username c),
      ou_password = set_if_nonempty A (tm_sub A ou ''password'') (ou_password c),
      ou_session = set_if_nonempty A (tm_sub A ou ''session'') (ou_session c),
      ou_sequence = set_if_present (tm_u64 A) (tm_sub A ou ''sequence'') (ou_sequence c),
      ou_cod_reconnect_deadline_ms =
        set_if_present (tm_u32 A) (tm_sub A ou ''cod_reconnect_deadline_ms'') (ou_cod_reconnect_deadline_ms c),
      ou_uea = in_table A (tm_sub A ou ''uea'') (apply_uea A) (ou_uea c)\<rparr>"

definition load_channel :: "'n toml_api \<Rightarrow> 'n \<Rightarrow> fix_channel_cfg \<Rightarrow> fix_channel_cfg" where
  "load_channel A node dst =
     \<lparr>fc_sender_comp_id = set_if_nonempty A (tm_sub A node ''sender_comp_id'') (fc_sender_comp_id dst),
      fc_target_comp_id = set_if_nonempty A (tm_sub A node ''target_comp_id'') (fc_target_comp_id dst),
      fc_username = set_if_nonempty A (tm_sub A node ''username'') (fc_username dst)\<rparr>"

definition apply_fix_password :: "'n toml_api \<Rightarrow> 'n \<Rightarrow> fix_password_cfg \<Rightarrow> fix_password_cfg" where
  "apply_fix_password A pw c =
     \<lparr>fw_current = set_if_nonempty A (tm_sub A pw ''current'') (fw_current c),
      fw_next = set_if_nonempty A (tm_sub A pw ''next'') (fw_next c)\<rparr>"

definition apply_fix :: "'n toml_api \<Rightarrow> 'n \<Rightarrow> fix_cfg \<Rightarrow> fix_cfg" where
  "apply_fix A fx c =
     \<lparr>fx_host_primary = set_if_nonempty A (tm_sub A fx ''host_primary'') (fx_host_primary c),
      fx_host_colo = set_if_nonempty A (tm_sub A fx ''host_colo'') (fx_host_colo c),
      fx_oe_port = set_port A (tm_sub A fx ''oe_port'') (fx_oe_port c),
      fx_rd_port = set_port A (tm_sub A fx ''rd_port'') (fx_rd_port c),
      fx_dc_port = set_port A (tm_sub A fx ''dc_port'') (fx_dc_port c),
      fx_sender_comp_id = set_if_nonempty A (tm_sub A fx ''sender_comp_id'') (fx_sender_comp_id c),
      fx_target_comp_id = set_if_nonempty A (tm_sub A fx ''target_comp_id'') (fx_target_comp_id c),
      fx_username = set_if_nonempty A (tm_sub A fx ''username'') (fx_username c),
      fx_data_dictionary = set_if_nonempty A (tm_sub A fx ''data_dictionary'') (fx_data_dictionary c),
      fx_transport_dictionary =
        set_if_nonempty A (tm_sub A fx ''transport_dictionary'') (fx_transport_dictionary c),
      fx_heartbeat_secs = set_if_present (tm_u32 A) (tm_sub A fx ''heartbeat_secs'') (fx_heartbeat_secs c),
      fx_session_storage = set_if_nonempty A (tm_sub A fx ''session_storage'') (fx_session_storage c),
      fx_password = in_table A (tm_sub A fx ''password'') (apply_fix_password A) (fx_password c),
      fx_oe = in_table A (tm_sub A fx ''oe'') (load_channel A) (fx_oe c),
      fx_rd = in_table A (tm_sub A fx ''rd'') (load_channel A) (fx_rd c),
      fx_dc = in_table A (tm_sub A fx ''dc'') (load_channel A) (fx_dc c)\<rparr>"

definition apply_throttler :: "'n toml_api \<Rightarrow> 'n \<Rightarrow> throttler_cfg \<Rightarrow> throttler_cfg" where
  "apply_throttler A th c =
     \<lparr>tc_orders_per_sec = set_if_present (tm_u32 A) (tm_sub A th ''orders_per_sec'') (tc_orders_per_sec c)\<rparr>"

definition apply_risk :: "'n toml_api \<Rightarrow> 'n \<Rightarrow> risk_cfg \<Rightarrow> risk_cfg" where
  "apply_risk A rk c =
     \<lparr>rk_max_qty_per_order =
        set_if_present (tm_u64 A) (tm_sub A rk ''max_qty_per_order'') (rk_max_qty_per_order c),
      rk_max_open_orders = set_if_present (tm_u64 A) (tm_sub A rk ''max_open_orders'') (rk_max_open_orders c),
      rk_allowed_price_min_tl =
        set_if_present (tm_double A) (tm_sub A rk ''allowed_price_min_tl'') (rk_allowed_price_min_tl c),
      rk_allowed_price_max_tl =
        set_if_present (tm_double A) (tm_sub A rk ''allowed_price_max_tl'') (rk_allowed_price_max_tl c)\<rparr>"

definition apply_runner :: "'n toml_api \<Rightarrow> 'n \<Rightarrow> runner_cfg \<Rightarrow> runner_cfg" where
  "apply_runner A rn c =
     \<lparr>rr_default_timeout_ms =
        set_if_present (tm_u32 A) (tm_sub A rn ''default_timeout_ms'') (rr_default_timeout_ms c),
      rr_abort_on_failure =
        set_if_present (tm_bool A) (tm_sub A rn ''abort_on_failure'') (rr_abort_on_failure c)\<rparr>"

definition apply_logging :: "'n toml_api \<Rightarrow> 'n \<Rightarrow> logging_cfg \<Rightarrow> logging_cfg" where
  "apply_logging A lg c =
     \<lparr>lg_level = set_if_nonempty A (tm_sub A lg ''level'') (lg_level c),
      lg_directory = set_if_nonempty A (tm_sub A lg ''directory'') (lg_directory c),
      lg_audit_dir = set_if_nonempty A (tm_sub A lg ''audit_dir'') (lg_audit_dir c),
      lg_rotate_at_size_mb =
        set_if_present (tm_u32 A) (tm_sub A lg ''rotate_at_size_mb'') (lg_rotate_at_size_mb c),
      lg_keep_files = set_if_present (tm_u32 A) (tm_sub A lg ''keep_files'') (lg_keep_files c)\<rparr>"

definition apply_reactor :: "'n toml_api \<Rightarrow> 'n \<Rightarrow> reactor_cfg \<Rightarrow> reactor_cfg" where
  "apply_reactor A re c =
     \<lparr>rea_hot_cpu_pin =
        set_if_present (\<lambda>x. map_option ucast (tm_i64 A x)) (tm_sub A re ''hot_cpu_pin'') (rea_hot_cpu_pin c),
      rea_busy_poll = set_if_present (tm_bool A) (tm_sub A re ''busy_poll'') (rea_busy_poll c),
      rea_tcp_nodelay = set_if_present (tm_bool A) (tm_sub A re ''tcp_nodelay'') (rea_tcp_nodelay c),
      rea_recv_buf_bytes = set_if_present (tm_u32 A) (tm_sub A re ''recv_buf_bytes'') (rea_recv_buf_bytes c),
      rea_send_buf_bytes = set_if_present (tm_u32 A) (tm_sub A re ''send_buf_bytes'') (rea_send_buf_bytes c)\<rparr>"

definition apply_toml :: "'n toml_api \<Rightarrow> 'n \<Rightarrow> config \<Rightarrow> config" where
  "apply_toml A t c =
     \<lparr>cg_environment = in_table A (tm_sub A t ''environment'') (apply_environment A) (cg_environment c),
      cg_ouch = in_table A (tm_sub A t ''ouch'') (apply_ouch A) (cg_ouch c),
      cg_fix = in_table A (tm_sub A t ''fix'') (apply_fix A) (cg_fix c),
      cg_throttler = in_table A (tm_sub A t ''throttler'') (apply_throttler A) (cg_throttler c),
      cg_risk = in_table A (tm_sub A t ''risk'') (apply_risk A) (cg_risk c),
      cg_runner = in_table A (tm_sub A t ''runner'') (apply_runner A) (cg_runner c),
      cg_logging = in_table A (tm_sub A t ''logging'') (apply_logging A) (cg_logging c),
      cg_reactor = in_table A (tm_sub A t ''reactor'') (apply_reactor A) (cg_reactor c)\<rparr>"

section \<open>Validation and loading\<close>

definition validate_config :: "config \<Rightarrow> unit result" where
  "validate_config c =
     (if ev_name (cg_environment c) = []
      then Inl (make_error Validation ''config: [environment].name is empty'')
      else if ou_host_primary (cg_ouch c) = []
      then Inl (make_error Validation ''config: [ouch].host_primary is empty'')
      else if ou_ports (cg_ouch c) = []
      then Inl (make_error Validation ''config: [ouch].ports is empty'')
      else if ou_username (cg_ouch c) = []
      then Inl (make_error Validation ''config: [ouch].username is empty (set in *.local.toml)'')
      else if ou_password (cg_ouch c) = []
      then Inl (make_error Validation ''config: [ouch].password is empty (set in *.local.toml)'')
      else if tc_orders_per_sec (cg_throttler c) = 0
      then Inl (make_error Validation ''config: [throttler].orders_per_sec must be > 0'')
      else Inr ())"

text \<open>The pieces of a POSIX path that \<open>std::filesystem\<close> gives.\<close>

definition path_stem :: "string \<Rightarrow> string" where
  "path_stem p =
     (let f = path_filename p;
          ext = takeWhile (\<lambda>ch. ch \<noteq> CHR ''.'') (rev f)
      in if CHR ''.'' \<notin> set f \<or> f = ''..'' \<or> length ext + 1 = length f then f
         else take (length f - (length ext + 1)) f)"

definition path_parent :: "string \<Rightarrow> string" where
  "path_parent p =
     (let d = take (length p - length (path_filename p)) p
      in if list_all (\<lambda>ch. ch = CHR ''/'') d then take 1 d else rstrip (\<lambda>ch. ch = CHR ''/'') d)"

definition path_join :: "string \<Rightarrow> string \<Rightarrow> string" where
  "path_join d f = (if d = [] then f else if last d = CHR ''/'' then d @ f else d @ ''/'' @ f)"

definition local_path :: "string \<Rightarrow> string" where
  "local_path path = path_join (path_parent path) (path_stem path @ ''.local.toml'')"

text \<open>What \<open>toml::parse_file\<close> may do: deliver a table, throw its own \<open>parse_error\<close>, or throw
  anything else. \<open>std::filesystem::exists\<close> may throw (\<open>None\<close>). The file system and the parser
  are arguments; the result is \<open>None\<close> when an exception leaves \<open>load_config\<close>.\<close>

datatype 'n toml_parse = Parsed 'n | ParseError string | OtherException string

definition load_config ::
  "'n toml_api \<Rightarrow> (string \<Rightarrow> 'n toml_parse) \<Rightarrow> (string \<Rightarrow> bool option) \<Rightarrow> string \<Rightarrow> config result option" where
  "load_config A parse_file path_exists path =
     (case parse_file path of
        ParseError e \<Rightarrow> Some (Inl (make_error Validation (''toml parse failed for '' @ path @ '': '' @ e)))
      | OtherException e \<Rightarrow> Some (Inl (make_error Io (''failed to read '' @ path @ '': '' @ e)))
      | Parsed base \<Rightarrow>
          (let cfg = apply_toml A base config_default;
               lp = local_path path;
               finish = (\<lambda>cfg. case validate_config cfg of Inl e \<Rightarrow> Inl e | Inr _ \<Rightarrow> Inr cfg)
           in case path_exists lp of
                None \<Rightarrow> None
              | Some False \<Rightarrow> Some (finish cfg)
              | Some True \<Rightarrow>
                  (case parse_file lp of
                     Parsed loc \<Rightarrow> Some (finish (apply_toml A loc cfg))
                   | ParseError e \<Rightarrow>
                       Some (Inl (make_error Validation (''toml parse failed for '' @ lp @ '': '' @ e)))
                   | OtherException e \<Rightarrow> None)))"

record resolved_endpoint =
  re_host :: string
  re_port :: u16

definition resolve_ouch_endpoint :: "ouch_cfg \<Rightarrow> int \<Rightarrow> bool \<Rightarrow> resolved_endpoint result" where
  "resolve_ouch_endpoint cfg part secondary =
     (if part < 1 \<or> part > int (length (ou_ports cfg))
      then Inl (make_error Validation ''partition out of range for [ouch].ports'')
      else Inr \<lparr>re_host = (if secondary \<and> ou_host_secondary cfg \<noteq> []
                           then ou_host_secondary cfg else ou_host_primary cfg),
                re_port = ou_ports cfg ! nat (part - 1)\<rparr>)"

section \<open>Overlays\<close>

text \<open>What a table says about a key of a section: the converted value, if the section is a
  table, the key is there and the conversion succeeds.\<close>

definition setting :: "'n toml_api \<Rightarrow> ('n \<Rightarrow> 'a option) \<Rightarrow> 'n \<Rightarrow> string \<Rightarrow> string \<Rightarrow> 'a option" where
  "setting A get t sect key =
     (case tm_sub A t sect of
        None \<Rightarrow> None
      | Some s \<Rightarrow> if tm_is_table A s then Option.bind (tm_sub A s key) get else None)"

definition filled :: "'n toml_api \<Rightarrow> 'n \<Rightarrow> string option" where
  "filled A x = (case tm_string A x of None \<Rightarrow> None | Some v \<Rightarrow> if v = [] then None else Some v)"

definition or_else :: "'a option \<Rightarrow> 'a \<Rightarrow> 'a" where
  "or_else x d = (case x of None \<Rightarrow> d | Some v \<Rightarrow> v)"

lemma set_if_nonempty_or_else: "set_if_nonempty A n d = or_else (Option.bind n (filled A)) d"
  by (simp add: set_if_nonempty_def or_else_def filled_def split: option.split)

lemma set_if_present_or_else: "set_if_present get n d = or_else (Option.bind n get) d"
  by (simp add: set_if_present_def or_else_def split: option.split)

lemma load_ports_or_else:
  "load_ports A n d = or_else (Option.bind n (\<lambda>x. map_option (List.map_filter (port_of A)) (tm_array A x))) d"
  by (simp add: load_ports_def or_else_def split: option.split)

text \<open>One application of a table to a few of the fields.\<close>

lemma apply_toml_fields:
  "ou_host_primary (cg_ouch (apply_toml A t c))
     = or_else (setting A (filled A) t ''ouch'' ''host_primary'') (ou_host_primary (cg_ouch c))"
  "ou_username (cg_ouch (apply_toml A t c))
     = or_else (setting A (filled A) t ''ouch'' ''username'') (ou_username (cg_ouch c))"
  "ou_password (cg_ouch (apply_toml A t c))
     = or_else (setting A (filled A) t ''ouch'' ''password'') (ou_password (cg_ouch c))"
  "ou_sequence (cg_ouch (apply_toml A t c))
     = or_else (setting A (tm_u64 A) t ''ouch'' ''sequence'') (ou_sequence (cg_ouch c))"
  "ou_ports (cg_ouch (apply_toml A t c))
     = or_else (setting A (\<lambda>x. map_option (List.map_filter (port_of A)) (tm_array A x)) t ''ouch'' ''ports'')
         (ou_ports (cg_ouch c))"
  "tc_orders_per_sec (cg_throttler (apply_toml A t c))
     = or_else (setting A (tm_u32 A) t ''throttler'' ''orders_per_sec'') (tc_orders_per_sec (cg_throttler c))"
  by (simp_all add: apply_toml_def in_table_def apply_ouch_def apply_throttler_def setting_def
      set_if_nonempty_or_else set_if_present_or_else load_ports_or_else or_else_def split: option.split)

lemma load_config_Inr:
  assumes "load_config A parse_file path_exists path = Some (Inr cfg)"
  obtains base where "parse_file path = Parsed base" "validate_config cfg = Inr ()"
    "path_exists (local_path path) = Some False \<and> cfg = apply_toml A base config_default
     \<or> (\<exists>loc. path_exists (local_path path) = Some True \<and> parse_file (local_path path) = Parsed loc
          \<and> cfg = apply_toml A loc (apply_toml A base config_default))"
  using assms that
  by (auto simp: load_config_def Let_def split: toml_parse.splits option.splits bool.splits sum.splits)

lemma validate_config_ok:
  "validate_config c = Inr () \<longleftrightarrow>
     ev_name (cg_environment c) \<noteq> [] \<and> ou_host_primary (cg_ouch c) \<noteq> [] \<and> ou_ports (cg_ouch c) \<noteq> []
     \<and> ou_username (cg_ouch c) \<noteq> [] \<and> ou_password (cg_ouch c) \<noteq> []
     \<and> tc_orders_per_sec (cg_throttler c) \<noteq> 0"
  by (simp add: validate_config_def)

text \<open>A port of the FIX section is narrowed without a check, unlike those of the OUCH section.\<close>

lemma fix_port_wraps:
  assumes "tm_i64 A x = Some 65979"
  shows "set_port A (Some x) p = 443" "port_of A x = None"
  using assms by (simp_all add: set_port_def set_if_present_def port_of_def word_sle_eq)

section \<open>Properties\<close>

text \<open>
  C25: A configuration that loads is usable: credentials, primary host and environment name are
  there, the order rate is not zero, and exactly the partitions from 1 to the number of ports
  resolve, each to its port, on the secondary host when that is asked for and configured.
\<close>

theorem loaded_config_usable:
  assumes "load_config A parse_file path_exists path = Some (Inr cfg)"
  shows "ev_name (cg_environment cfg) \<noteq> [] \<and> ou_username (cg_ouch cfg) \<noteq> [] \<and> ou_password (cg_ouch cfg) \<noteq> []
    \<and> 0 < tc_orders_per_sec (cg_throttler cfg)
    \<and> result_ok (resolve_ouch_endpoint (cg_ouch cfg) 1 secondary)
    \<and> (result_ok (resolve_ouch_endpoint (cg_ouch cfg) k secondary)
        \<longleftrightarrow> 1 \<le> k \<and> k \<le> int (length (ou_ports (cg_ouch cfg))))
    \<and> (\<forall>e. resolve_ouch_endpoint (cg_ouch cfg) k secondary = Inr e \<longrightarrow>
        re_port e = ou_ports (cg_ouch cfg) ! nat (k - 1) \<and> re_host e \<noteq> []
        \<and> (\<not> secondary \<longrightarrow> re_host e = ou_host_primary (cg_ouch cfg)))"
proof -
  obtain base where "validate_config cfg = Inr ()" using load_config_Inr [OF assms] by metis
  then have v: "ev_name (cg_environment cfg) \<noteq> []" "ou_host_primary (cg_ouch cfg) \<noteq> []"
    "ou_ports (cg_ouch cfg) \<noteq> []" "ou_username (cg_ouch cfg) \<noteq> []" "ou_password (cg_ouch cfg) \<noteq> []"
    "tc_orders_per_sec (cg_throttler cfg) \<noteq> 0"
    unfolding validate_config_ok by blast+
  then have "1 \<le> length (ou_ports (cg_ouch cfg))" by (cases "ou_ports (cg_ouch cfg)") auto
  then show ?thesis
    using v by (auto simp: resolve_ouch_endpoint_def word_gt_0 split: if_splits)
qed

text \<open>
  The local file overrides the main one key by key: text counts as given when it is not
  empty, numbers and port lists whenever they are there and have the right type; what neither
  file gives keeps its default.
\<close>

lemma local_file_overrides:
  assumes "load_config A parse_file path_exists path = Some (Inr cfg)"
    "parse_file path = Parsed base" "path_exists (local_path path) = Some True"
    "parse_file (local_path path) = Parsed loc"
  shows "ou_username (cg_ouch cfg) = or_else (setting A (filled A) loc ''ouch'' ''username'')
        (or_else (setting A (filled A) base ''ouch'' ''username'') [])
    \<and> ou_password (cg_ouch cfg) = or_else (setting A (filled A) loc ''ouch'' ''password'')
        (or_else (setting A (filled A) base ''ouch'' ''password'') [])
    \<and> ou_host_primary (cg_ouch cfg) = or_else (setting A (filled A) loc ''ouch'' ''host_primary'')
        (or_else (setting A (filled A) base ''ouch'' ''host_primary'') [])
    \<and> ou_sequence (cg_ouch cfg) = or_else (setting A (tm_u64 A) loc ''ouch'' ''sequence'')
        (or_else (setting A (tm_u64 A) base ''ouch'' ''sequence'') 0)
    \<and> tc_orders_per_sec (cg_throttler cfg) = or_else (setting A (tm_u32 A) loc ''throttler'' ''orders_per_sec'')
        (or_else (setting A (tm_u32 A) base ''throttler'' ''orders_per_sec'') 100)"
proof -
  have "cfg = apply_toml A loc (apply_toml A base config_default)"
    using assms by (elim load_config_Inr) auto
  then show ?thesis
    by (simp add: apply_toml_fields config_default_def ouch_cfg_default_def)
qed

text \<open>
  A listed port that is no number between 0 and 65535 is dropped without an error, and the
  later ports move up: the partition of the dropped entry is served by the first usable port
  that follows it.
\<close>

lemma dropped_port_shifts_partitions:
  assumes "tm_array A x = Some (as @ b # c # cs)" "\<forall>a \<in> set as. port_of A a \<noteq> None"
    "port_of A b = None" "port_of A c = Some q"
  shows "resolve_ouch_endpoint (cfg\<lparr>ou_ports := load_ports A (Some x) p\<rparr>) (int (length as) + 1) False
    = Inr \<lparr>re_host = ou_host_primary cfg, re_port = q\<rparr>"
proof -
  have "List.map_filter (port_of A) as = map (\<lambda>a. the (port_of A a)) as"
    using assms(2) by (induction as) (auto simp: List.map_filter_simps)
  then have "load_ports A (Some x) p
      = map (\<lambda>a. the (port_of A a)) as @ q # List.map_filter (port_of A) cs"
    using assms by (simp add: load_ports_def List.map_filter_def)
  then show ?thesis by (simp add: resolve_ouch_endpoint_def nth_append)
qed

section \<open>Witnesses\<close>

datatype toml_node = TInt i64 | TText string | TList "toml_node list" | TTable "(string \<times> toml_node) list"

definition sample_api :: "toml_node toml_api" where
  "sample_api =
     \<lparr>tm_sub = \<lambda>n k. case n of TTable kvs \<Rightarrow> map_of kvs k | _ \<Rightarrow> None,
      tm_is_table = \<lambda>n. case n of TTable _ \<Rightarrow> True | _ \<Rightarrow> False,
      tm_array = \<lambda>n. case n of TList xs \<Rightarrow> Some xs | _ \<Rightarrow> None,
      tm_string = \<lambda>n. case n of TText s \<Rightarrow> Some s | _ \<Rightarrow> None,
      tm_bool = \<lambda>n. None, tm_u32 = \<lambda>n. None, tm_u64 = \<lambda>n. None,
      tm_i64 = \<lambda>n. case n of TInt v \<Rightarrow> Some v | _ \<Rightarrow> None, tm_double = \<lambda>n. None\<rparr>"

definition sample_toml :: toml_node where
  "sample_toml = TTable
     [(''environment'', TTable [(''name'', TText ''pre'')]),
      (''ouch'', TTable [(''host_primary'', TText ''10.0.0.1''), (''ports'', TList [TInt 70000, TInt 21501]),
        (''username'', TText ''u''), (''password'', TText [])])]"

definition sample_local :: toml_node where
  "sample_local = TTable [(''ouch'', TTable [(''password'', TText ''secret'')])]"

definition sample_files :: "string \<Rightarrow> toml_node toml_parse" where
  "sample_files p = (if p = ''cfg/pre.toml'' then Parsed sample_toml else Parsed sample_local)"

lemma sample_load:
  "load_config sample_api sample_files (\<lambda>_. Some True) ''cfg/pre.toml''
     = Some (Inr (apply_toml sample_api sample_local (apply_toml sample_api sample_toml config_default)))"
  "sample_files (local_path ''cfg/pre.toml'') = Parsed sample_local"
proof -
  show l: "sample_files (local_path ''cfg/pre.toml'') = Parsed sample_local"
    by (simp add: sample_files_def local_path_def path_join_def path_parent_def path_stem_def
        path_filename_def rstrip_def Let_def)
  have "ev_name (cg_environment (apply_toml sample_api sample_local (apply_toml sample_api sample_toml config_default))) = ''pre''"
    by (simp add: apply_toml_def in_table_def sample_api_def sample_toml_def sample_local_def
        apply_environment_def set_if_nonempty_def)
  then show "load_config sample_api sample_files (\<lambda>_. Some True) ''cfg/pre.toml''
     = Some (Inr (apply_toml sample_api sample_local (apply_toml sample_api sample_toml config_default)))"
    using l by (simp add: load_config_def sample_files_def validate_config_def apply_toml_fields Let_def
        setting_def sample_api_def sample_toml_def sample_local_def filled_def or_else_def port_of_def
        word_sle_eq List.map_filter_simps config_default_def)
qed

theorem loaded_config_usable_witness:
  "result_ok (resolve_ouch_endpoint
     (cg_ouch (apply_toml sample_api sample_local (apply_toml sample_api sample_toml config_default))) 1 True)"
  using loaded_config_usable [OF sample_load(1)] by blast

end
