(* ===== verification/Scenario.thy ===== *)
theory Scenario
  imports Core_Types "HOL-Library.List_Lexorder" "HOL-Library.Char_ord"
begin

text \<open>
  \<open>include/bist/runner/scenario.hpp\<close>: a certification scenario in memory. The argument
  structures of the actions are records, \<open>StepArgs\<close> is the datatype of the variant, and an
  \<open>int\<close> of the code is a 32-bit word. A \<open>std::map\<close> is the list of its entries in key order.
\<close>

section \<open>Arguments of the OUCH actions\<close>

record login_args =
  la_session :: string
  la_sequence :: u64
  la_password :: string

record wait_heartbeat_args =
  wh_from :: string
  wh_count :: i32
  wh_timeout_ms :: i32

record sc_place_args =
  sp_symbol :: string
  sp_side :: side
  sp_quantity :: quantity
  sp_price_str :: string
  sp_tif :: time_in_force
  sp_category :: client_category
  sp_client_account :: string
  sp_customer_info :: string
  sp_exchange_info :: string
  sp_token :: string
  sp_display_quantity :: quantity

record sc_replace_args =
  sr_existing_token :: string
  sr_new_token :: string
  sr_quantity :: quantity
  sr_price_str :: string
  sr_category :: client_category
  sr_client_account :: string
  sr_display_quantity :: quantity

record quote_entry_spec =
  qs_symbol :: string
  qs_bid_px :: string
  qs_bid_size :: quantity
  qs_offer_px :: string
  qs_offer_size :: quantity

record sc_mass_quote_args =
  sq_token :: string
  sq_category :: client_category
  sq_afk :: string
  sq_exchange_info :: string
  sq_entries :: "quote_entry_spec list"

record burst_pattern_entry =
  bp_symbol :: string
  bp_side :: side
  bp_quantity :: quantity
  bp_price_str :: string
  bp_token_prefix :: string
  bp_tif :: time_in_force
  bp_category :: client_category

record burst_place_args =
  bu_count :: u32
  bu_rate_per_sec :: u32
  bu_pattern :: "burst_pattern_entry list"

section \<open>Arguments of the FIX actions\<close>

record fix_logon_args =
  fl_password :: string
  fl_new_password :: string
  fl_sequence_reset :: bool
  fl_heartbeat_secs :: u32

record fix_wait_args =
  fh_from :: string
  fh_count :: i32
  fh_timeout_ms :: i32

record fix_place_args =
  fp_cl_ord_id :: string
  fp_symbol :: string
  fp_side :: side
  fp_quantity :: quantity
  fp_price_str :: string
  fp_tif :: time_in_force
  fp_ord_type :: string
  fp_category :: client_category
  fp_account :: string
  fp_afk :: string
  fp_display_quantity :: quantity

record fix_cancel_args =
  fk_cl_ord_id :: string
  fk_orig_cl_ord_id :: string
  fk_symbol :: string
  fk_side :: side
  fk_quantity :: quantity

record fix_replace_args =
  fr_cl_ord_id :: string
  fr_orig_cl_ord_id :: string
  fr_symbol :: string
  fr_side :: side
  fr_new_quantity :: quantity
  fr_price_str :: string
  fr_ord_type :: string

section \<open>Steps and scenarios\<close>

record expect =
  ex_msg :: string
  ex_fields :: "(string \<times> string) list"
  ex_occurrences :: i32
  ex_timeout_ms :: i32

definition expect_default :: expect where
  "expect_default = \<lparr>ex_msg = [], ex_fields = [], ex_occurrences = 1, ex_timeout_ms = 0\<rparr>"

text \<open>\<open>cancel_by_token\<close> has a token, \<open>cancel_by_order_id\<close> a token reference,
  \<open>switch_gateway\<close> a tag and \<open>fix_amr_subscribe\<close> a request id as their only field.\<close>

datatype step_args =
  NoArgs
| LoginArgs login_args
| WaitHeartbeatArgs wait_heartbeat_args
| PlaceArgs sc_place_args
| CancelByTokenArgs string
| CancelByOrderIdArgs string
| ReplaceArgs sc_replace_args
| MassQuoteArgs sc_mass_quote_args
| LogoutArgs
| TriggerOpeningMatchArgs
| InactivateAllArgs
| SwitchGatewayArgs string
| BurstPlaceArgs burst_place_args
| FixLogonArgs fix_logon_args
| FixLogoutArgs
| FixAmrSubscribeArgs string
| FixWaitHeartbeatArgs fix_wait_args
| FixPlaceArgs fix_place_args
| FixCancelArgs fix_cancel_args
| FixReplaceArgs fix_replace_args
| FixTriggerMatchArgs

record step =
  st_id :: i32
  st_action :: string
  st_args :: step_args
  st_expect :: "expect option"

record scenario =
  sc_name :: string
  sc_description :: string
  sc_preconditions :: "string \<rightharpoonup> string"
  sc_default_timeout_ms :: i32
  sc_mock_skip :: bool
  sc_steps :: "step list"
  sc_source_path :: string

section \<open>Default-constructed arguments\<close>

definition login_args_default :: login_args where
  "login_args_default = \<lparr>la_session = [], la_sequence = 0, la_password = []\<rparr>"

definition sc_place_args_default :: sc_place_args where
  "sc_place_args_default =
     \<lparr>sp_symbol = [], sp_side = Buy, sp_quantity = 0, sp_price_str = [], sp_tif = Day,
      sp_category = Client, sp_client_account = [], sp_customer_info = [], sp_exchange_info = [],
      sp_token = [], sp_display_quantity = 0\<rparr>"

definition sc_replace_args_default :: sc_replace_args where
  "sc_replace_args_default =
     \<lparr>sr_existing_token = [], sr_new_token = [], sr_quantity = 0, sr_price_str = [],
      sr_category = Client, sr_client_account = [], sr_display_quantity = 0\<rparr>"

definition sc_mass_quote_args_default :: sc_mass_quote_args where
  "sc_mass_quote_args_default =
     \<lparr>sq_token = [], sq_category = Client, sq_afk = [], sq_exchange_info = [], sq_entries = []\<rparr>"

definition burst_place_args_default :: burst_place_args where
  "burst_place_args_default = \<lparr>bu_count = 0, bu_rate_per_sec = 100, bu_pattern = []\<rparr>"

section \<open>Sorted maps\<close>

text \<open>\<open>m[key] = value\<close> on a \<open>std::map\<close>.\<close>

fun map_put :: "string \<Rightarrow> string \<Rightarrow> (string \<times> string) list \<Rightarrow> (string \<times> string) list" where
  "map_put k v [] = [(k, v)]"
| "map_put k v ((k', v') # m) =
     (if k = k' then (k, v) # m else if k < k' then (k, v) # (k', v') # m else (k', v') # map_put k v m)"

lemma map_of_map_put: "map_of (map_put k v m) = (map_of m)(k \<mapsto> v)"
  by (induction m) auto

lemma fst_map_put: "set (map fst (map_put k v m)) = insert k (set (map fst m))"
proof (induction m)
  case (Cons e m)
  then show ?case by (cases e) (simp del: set_map, blast)
qed simp

lemma sorted_map_put:
  "sorted_wrt (<) (map fst m) \<Longrightarrow> sorted_wrt (<) (map fst (map_put k v m))"
proof (induction m)
  case (Cons e m)
  obtain k' v' where e: "e = (k', v')" by fastforce
  consider "k = k'" | "k < k'" | "k' < k" "k \<noteq> k'" "\<not> k < k'" by fastforce
  then show ?case
  proof cases
    case 1
    then show ?thesis using Cons.prems by (simp add: e)
  next
    case 2
    then show ?thesis using Cons.prems by (auto simp: e)
  next
    case 3
    then show ?thesis using Cons by (simp add: e fst_map_put del: set_map)
  qed
qed simp

end
