(* ===== verification/Scenario_Loader.thy ===== *)
theory Scenario_Loader
  imports Scenario "HOL-Library.Monad_Syntax"
begin

text \<open>
  \<open>src/runner/scenario_loader.cpp\<close>: YAML to \<open>Scenario\<close>. The YAML library is the record
  \<open>yaml_api\<close> of the operations the code uses on a node; the definitions take it as their first
  argument. A parser is \<open>None\<close> where an exception of the library leaves it.
\<close>

section \<open>Nodes\<close>

text \<open>\<open>n[key]\<close> throws on a scalar (\<open>None\<close>) and otherwise gives a node or an undefined one;
  \<open>as<T>()\<close> gives a value or throws.\<close>

record 'n yaml_api =
  ym_get :: "'n \<Rightarrow> string \<Rightarrow> 'n option option"
  ym_is_scalar :: "'n \<Rightarrow> bool"
  ym_is_map :: "'n \<Rightarrow> bool"
  ym_is_seq :: "'n \<Rightarrow> bool"
  ym_text :: "'n \<Rightarrow> string option"
  ym_int :: "'n \<Rightarrow> i32 option"
  ym_i64 :: "'n \<Rightarrow> i64 option"
  ym_u32 :: "'n \<Rightarrow> u32 option"
  ym_u64 :: "'n \<Rightarrow> u64 option"
  ym_bool :: "'n \<Rightarrow> bool option"
  ym_pairs :: "'n \<Rightarrow> ('n \<times> 'n) list"
  ym_items :: "'n \<Rightarrow> 'n list"

definition opt_as :: "('n \<Rightarrow> 'a option) \<Rightarrow> 'n option \<Rightarrow> 'a option" where
  "opt_as get n = Option.bind n get"

definition scalar :: "'n yaml_api \<Rightarrow> 'n option \<Rightarrow> string \<Rightarrow> string option" where
  "scalar Y n fallback =
     (case n of
        None \<Rightarrow> Some fallback
      | Some x \<Rightarrow> if ym_is_scalar Y x then ym_text Y x else Some fallback)"

text \<open>\<open>scalar(a[key], fallback)\<close>, and \<open>if (auto v = opt_as<T>(a[key])) out.field = *v\<close>.\<close>

definition text_at :: "'n yaml_api \<Rightarrow> 'n \<Rightarrow> string \<Rightarrow> string \<Rightarrow> string option" where
  "text_at Y a key fallback = do { n \<leftarrow> ym_get Y a key; scalar Y n fallback }"

definition value_at :: "'n yaml_api \<Rightarrow> ('n \<Rightarrow> 'a option) \<Rightarrow> 'n \<Rightarrow> string \<Rightarrow> 'a \<Rightarrow> 'a option" where
  "value_at Y get a key d =
     do { n \<leftarrow> ym_get Y a key; Some (case opt_as get n of None \<Rightarrow> d | Some v \<Rightarrow> v) }"

text \<open>A loop over nodes that collects what the body makes of them.\<close>

fun map_opt :: "('a \<Rightarrow> 'b option) \<Rightarrow> 'a list \<Rightarrow> 'b list option" where
  "map_opt f [] = Some []"
| "map_opt f (x # xs) = do { y \<leftarrow> f x; ys \<leftarrow> map_opt f xs; Some (y # ys) }"

definition items_at :: "'n yaml_api \<Rightarrow> ('n \<Rightarrow> 'b option) \<Rightarrow> 'n \<Rightarrow> string \<Rightarrow> 'b list option" where
  "items_at Y f a key =
     do { n \<leftarrow> ym_get Y a key;
          case n of
            None \<Rightarrow> Some []
          | Some x \<Rightarrow> if ym_is_seq Y x then map_opt f (ym_items Y x) else Some [] }"

text \<open>The pairs of a map node with scalar values as text; other values read as empty.\<close>

definition text_pair :: "'n yaml_api \<Rightarrow> 'n \<times> 'n \<Rightarrow> (string \<times> string) option" where
  "text_pair Y kv =
     do { k \<leftarrow> ym_text Y (fst kv);
          v \<leftarrow> (if ym_is_scalar Y (snd kv) then ym_text Y (snd kv) else Some []);
          Some (k, v) }"

definition pairs_at :: "'n yaml_api \<Rightarrow> 'n \<Rightarrow> string \<Rightarrow> (string \<times> string) list option" where
  "pairs_at Y a key =
     do { n \<leftarrow> ym_get Y a key;
          case n of
            None \<Rightarrow> Some []
          | Some x \<Rightarrow> if ym_is_map Y x then map_opt (text_pair Y) (ym_pairs Y x) else Some [] }"

section \<open>Enumerations\<close>

definition side_from :: "string \<Rightarrow> side" where
  "side_from s =
     (if s \<in> {''BUY'', ''B'', ''buy''} then Buy
      else if s \<in> {''SELL'', ''S'', ''sell''} then Sell
      else if s \<in> {''SHORT'', ''T''} then ShortSell
      else Buy)"

definition tif_from :: "string \<Rightarrow> time_in_force" where
  "tif_from s =
     (if s \<in> {''DAY'', ''Day'', ''day''} then Day
      else if s \<in> {''IOC'', ''FAK''} then ImmediateOrCancel
      else if s = ''FOK'' then FillOrKill
      else Day)"

definition category_from :: "string \<Rightarrow> client_category" where
  "category_from s =
     (if s = ''CLIENT'' then Client
      else if s = ''HOUSE'' then House
      else if s = ''FUND'' then Fund
      else if s \<in> {''PORTFOLIO'', ''MGMT''} then PortfolioMgmt
      else Client)"

section \<open>Parsers\<close>

definition parse_expect :: "'n yaml_api \<Rightarrow> 'n \<Rightarrow> expect option" where
  "parse_expect Y n =
     (if ym_is_scalar Y n then do { m \<leftarrow> ym_text Y n; Some (expect_default\<lparr>ex_msg := m\<rparr>) }
      else if \<not> ym_is_map Y n then Some expect_default
      else do {
        m \<leftarrow> text_at Y n ''msg'' [];
        occ \<leftarrow> value_at Y (ym_int Y) n ''occurrences'' 1;
        t \<leftarrow> value_at Y (ym_int Y) n ''timeout_ms'' 0;
        fields \<leftarrow> pairs_at Y n ''fields'';
        Some \<lparr>ex_msg = m, ex_fields = fold (\<lambda>(k, v). map_put k v) fields [],
              ex_occurrences = occ, ex_timeout_ms = t\<rparr> })"

definition parse_login_args :: "'n yaml_api \<Rightarrow> 'n \<Rightarrow> login_args option" where
  "parse_login_args Y a =
     do { session \<leftarrow> text_at Y a ''session'' [];
          password \<leftarrow> text_at Y a ''password'' [];
          seq \<leftarrow> value_at Y (ym_u64 Y) a ''sequence'' 0;
          Some \<lparr>la_session = session, la_sequence = seq, la_password = password\<rparr> }"

definition parse_wait_args :: "'n yaml_api \<Rightarrow> 'n \<Rightarrow> wait_heartbeat_args option" where
  "parse_wait_args Y a =
     do { src \<leftarrow> text_at Y a ''from'' ''server'';
          count \<leftarrow> value_at Y (ym_int Y) a ''count'' 1;
          t \<leftarrow> value_at Y (ym_int Y) a ''timeout_ms'' 1500;
          Some \<lparr>wh_from = src, wh_count = count, wh_timeout_ms = t\<rparr> }"

definition parse_place_args :: "'n yaml_api \<Rightarrow> 'n \<Rightarrow> sc_place_args option" where
  "parse_place_args Y a =
     do { symbol \<leftarrow> text_at Y a ''symbol'' [];
          sd \<leftarrow> text_at Y a ''side'' ''BUY'';
          qty \<leftarrow> value_at Y (ym_i64 Y) a ''qty'' 0;
          price \<leftarrow> text_at Y a ''price'' [];
          tif \<leftarrow> text_at Y a ''tif'' ''DAY'';
          cat \<leftarrow> text_at Y a ''category'' ''CLIENT'';
          afk \<leftarrow> text_at Y a ''afk'' [];
          customer \<leftarrow> text_at Y a ''customer_info'' [];
          exchange \<leftarrow> text_at Y a ''exchange_info'' [];
          token \<leftarrow> text_at Y a ''token'' [];
          display \<leftarrow> value_at Y (ym_i64 Y) a ''display_qty'' 0;
          Some \<lparr>sp_symbol = symbol, sp_side = side_from sd, sp_quantity = qty, sp_price_str = price,
                sp_tif = tif_from tif, sp_category = category_from cat, sp_client_account = afk,
                sp_customer_info = customer, sp_exchange_info = exchange, sp_token = token,
                sp_display_quantity = display\<rparr> }"

definition parse_cancel_token_args :: "'n yaml_api \<Rightarrow> 'n \<Rightarrow> string option" where
  "parse_cancel_token_args Y a = text_at Y a ''token'' []"

definition parse_cancel_id_args :: "'n yaml_api \<Rightarrow> 'n \<Rightarrow> string option" where
  "parse_cancel_id_args Y a = text_at Y a ''token_ref'' []"

definition parse_replace_args :: "'n yaml_api \<Rightarrow> 'n \<Rightarrow> sc_replace_args option" where
  "parse_replace_args Y a =
     do { existing \<leftarrow> text_at Y a ''existing_token'' [];
          new \<leftarrow> text_at Y a ''new_token'' [];
          qty \<leftarrow> value_at Y (ym_i64 Y) a ''qty'' 0;
          price \<leftarrow> text_at Y a ''price'' [];
          cat \<leftarrow> text_at Y a ''category'' ''CLIENT'';
          afk \<leftarrow> text_at Y a ''afk'' [];
          display \<leftarrow> value_at Y (ym_i64 Y) a ''display_qty'' 0;
          Some \<lparr>sr_existing_token = existing, sr_new_token = new, sr_quantity = qty,
                sr_price_str = price, sr_category = category_from cat, sr_client_account = afk,
                sr_display_quantity = display\<rparr> }"

definition parse_quote_entry :: "'n yaml_api \<Rightarrow> 'n \<Rightarrow> quote_entry_spec option" where
  "parse_quote_entry Y e =
     do { symbol \<leftarrow> text_at Y e ''symbol'' [];
          bid \<leftarrow> text_at Y e ''bid_px'' [];
          offer \<leftarrow> text_at Y e ''offer_px'' [];
          bid_size \<leftarrow> value_at Y (ym_i64 Y) e ''bid_size'' 0;
          offer_size \<leftarrow> value_at Y (ym_i64 Y) e ''offer_size'' 0;
          Some \<lparr>qs_symbol = symbol, qs_bid_px = bid, qs_bid_size = bid_size, qs_offer_px = offer,
                qs_offer_size = offer_size\<rparr> }"

definition parse_mass_quote_args :: "'n yaml_api \<Rightarrow> 'n \<Rightarrow> sc_mass_quote_args option" where
  "parse_mass_quote_args Y a =
     do { token \<leftarrow> text_at Y a ''token'' [];
          cat \<leftarrow> text_at Y a ''category'' ''CLIENT'';
          afk \<leftarrow> text_at Y a ''afk'' [];
          exchange \<leftarrow> text_at Y a ''exchange_info'' [];
          entries \<leftarrow> items_at Y (parse_quote_entry Y) a ''entries'';
          Some \<lparr>sq_token = token, sq_category = category_from cat, sq_afk = afk,
                sq_exchange_info = exchange, sq_entries = entries\<rparr> }"

definition parse_fix_logon_args :: "'n yaml_api \<Rightarrow> 'n \<Rightarrow> fix_logon_args option" where
  "parse_fix_logon_args Y a =
     do { password \<leftarrow> text_at Y a ''password'' [];
          new \<leftarrow> text_at Y a ''new_password'' [];
          sr \<leftarrow> value_at Y (ym_bool Y) a ''sequence_reset'' False;
          hb \<leftarrow> value_at Y (ym_u32 Y) a ''heartbeat_secs'' 30;
          Some \<lparr>fl_password = password, fl_new_password = new, fl_sequence_reset = sr,
                fl_heartbeat_secs = hb\<rparr> }"

definition parse_fix_amr_args :: "'n yaml_api \<Rightarrow> 'n \<Rightarrow> string option" where
  "parse_fix_amr_args Y a = text_at Y a ''appl_req_id'' []"

definition parse_fix_wait_args :: "'n yaml_api \<Rightarrow> 'n \<Rightarrow> fix_wait_args option" where
  "parse_fix_wait_args Y a =
     do { src \<leftarrow> text_at Y a ''from'' ''server'';
          count \<leftarrow> value_at Y (ym_int Y) a ''count'' 1;
          t \<leftarrow> value_at Y (ym_int Y) a ''timeout_ms'' 32000;
          Some \<lparr>fh_from = src, fh_count = count, fh_timeout_ms = t\<rparr> }"

definition parse_fix_place_args :: "'n yaml_api \<Rightarrow> 'n \<Rightarrow> fix_place_args option" where
  "parse_fix_place_args Y a =
     do { tok \<leftarrow> text_at Y a ''token'' [];
          cl \<leftarrow> text_at Y a ''cl_ord_id'' tok;
          symbol \<leftarrow> text_at Y a ''symbol'' [];
          sd \<leftarrow> text_at Y a ''side'' ''BUY'';
          qty \<leftarrow> value_at Y (ym_i64 Y) a ''qty'' 0;
          price \<leftarrow> text_at Y a ''price'' [];
          tif \<leftarrow> text_at Y a ''tif'' ''DAY'';
          ot \<leftarrow> text_at Y a ''ord_type'' ''LIMIT'';
          cat \<leftarrow> text_at Y a ''category'' ''CLIENT'';
          account \<leftarrow> text_at Y a ''account'' [];
          afk \<leftarrow> text_at Y a ''afk'' [];
          display \<leftarrow> value_at Y (ym_i64 Y) a ''display_qty'' 0;
          Some \<lparr>fp_cl_ord_id = cl, fp_symbol = symbol, fp_side = side_from sd, fp_quantity = qty,
                fp_price_str = price, fp_tif = tif_from tif, fp_ord_type = ot,
                fp_category = category_from cat, fp_account = account, fp_afk = afk,
                fp_display_quantity = display\<rparr> }"

definition parse_fix_cancel_args :: "'n yaml_api \<Rightarrow> 'n \<Rightarrow> fix_cancel_args option" where
  "parse_fix_cancel_args Y a =
     do { new \<leftarrow> text_at Y a ''new_token'' [];
          cl \<leftarrow> text_at Y a ''cl_ord_id'' new;
          tok \<leftarrow> text_at Y a ''token'' [];
          ref \<leftarrow> text_at Y a ''token_ref'' tok;
          orig \<leftarrow> text_at Y a ''orig_cl_ord_id'' ref;
          symbol \<leftarrow> text_at Y a ''symbol'' [];
          sd \<leftarrow> text_at Y a ''side'' ''BUY'';
          qty \<leftarrow> value_at Y (ym_i64 Y) a ''qty'' 0;
          Some \<lparr>fk_cl_ord_id = cl, fk_orig_cl_ord_id = orig, fk_symbol = symbol,
                fk_side = side_from sd, fk_quantity = qty\<rparr> }"

definition parse_fix_replace_args :: "'n yaml_api \<Rightarrow> 'n \<Rightarrow> fix_replace_args option" where
  "parse_fix_replace_args Y a =
     do { new \<leftarrow> text_at Y a ''new_token'' [];
          cl \<leftarrow> text_at Y a ''cl_ord_id'' new;
          existing \<leftarrow> text_at Y a ''existing_token'' [];
          orig \<leftarrow> text_at Y a ''orig_cl_ord_id'' existing;
          symbol \<leftarrow> text_at Y a ''symbol'' [];
          sd \<leftarrow> text_at Y a ''side'' ''BUY'';
          qty \<leftarrow> value_at Y (ym_i64 Y) a ''qty'' 0;
          price \<leftarrow> text_at Y a ''price'' [];
          ot \<leftarrow> text_at Y a ''ord_type'' ''LIMIT'';
          Some \<lparr>fr_cl_ord_id = cl, fr_orig_cl_ord_id = orig, fr_symbol = symbol,
                fr_side = side_from sd, fr_new_quantity = qty, fr_price_str = price,
                fr_ord_type = ot\<rparr> }"

definition parse_pattern_entry :: "'n yaml_api \<Rightarrow> 'n \<Rightarrow> burst_pattern_entry option" where
  "parse_pattern_entry Y en =
     do { symbol \<leftarrow> text_at Y en ''symbol'' [];
          sd \<leftarrow> text_at Y en ''side'' ''BUY'';
          qty \<leftarrow> value_at Y (ym_i64 Y) en ''qty'' 0;
          price \<leftarrow> text_at Y en ''price'' [];
          prefix \<leftarrow> text_at Y en ''token_prefix'' [];
          tif \<leftarrow> text_at Y en ''tif'' ''DAY'';
          cat \<leftarrow> text_at Y en ''category'' ''CLIENT'';
          Some \<lparr>bp_symbol = symbol, bp_side = side_from sd, bp_quantity = qty, bp_price_str = price,
                bp_token_prefix = prefix, bp_tif = tif_from tif, bp_category = category_from cat\<rparr> }"

definition parse_burst_args :: "'n yaml_api \<Rightarrow> 'n \<Rightarrow> burst_place_args option" where
  "parse_burst_args Y a =
     do { count \<leftarrow> value_at Y (ym_u32 Y) a ''count'' 0;
          rate \<leftarrow> value_at Y (ym_u32 Y) a ''rate_per_sec'' 100;
          pattern \<leftarrow> items_at Y (parse_pattern_entry Y) a ''pattern'';
          Some \<lparr>bu_count = count, bu_rate_per_sec = rate, bu_pattern = pattern\<rparr> }"

section \<open>Steps and the file\<close>

definition parse_step_args :: "'n yaml_api \<Rightarrow> bool \<Rightarrow> string \<Rightarrow> 'n \<Rightarrow> step_args option" where
  "parse_step_args Y is_fix action a =
     (if action = ''ouch_login'' then map_option LoginArgs (parse_login_args Y a)
      else if action = ''wait_heartbeat'' then
        (if is_fix then map_option FixWaitHeartbeatArgs (parse_fix_wait_args Y a)
         else map_option WaitHeartbeatArgs (parse_wait_args Y a))
      else if action = ''place'' then
        (if is_fix then map_option FixPlaceArgs (parse_fix_place_args Y a)
         else map_option PlaceArgs (parse_place_args Y a))
      else if action = ''cancel_by_token'' then
        (if is_fix then map_option FixCancelArgs (parse_fix_cancel_args Y a)
         else map_option CancelByTokenArgs (parse_cancel_token_args Y a))
      else if action = ''cancel_by_order_id'' then
        (if is_fix then map_option FixCancelArgs (parse_fix_cancel_args Y a)
         else map_option CancelByOrderIdArgs (parse_cancel_id_args Y a))
      else if action = ''replace'' then
        (if is_fix then map_option FixReplaceArgs (parse_fix_replace_args Y a)
         else map_option ReplaceArgs (parse_replace_args Y a))
      else if action = ''mass_quote'' then map_option MassQuoteArgs (parse_mass_quote_args Y a)
      else if action = ''switch_gateway'' then map_option SwitchGatewayArgs (text_at Y a ''tag'' ''secondary'')
      else if action = ''inactivate_all'' then Some InactivateAllArgs
      else if action = ''burst_place'' then map_option BurstPlaceArgs (parse_burst_args Y a)
      else if action = ''fix_logon'' then map_option FixLogonArgs (parse_fix_logon_args Y a)
      else if action \<in> {''fix_amr_subscribe'', ''fix_amr''} then
        map_option FixAmrSubscribeArgs (parse_fix_amr_args Y a)
      else if action = ''fix_wait_heartbeat'' then map_option FixWaitHeartbeatArgs (parse_fix_wait_args Y a)
      else if action = ''fix_place'' then map_option FixPlaceArgs (parse_fix_place_args Y a)
      else if action = ''fix_cancel'' then map_option FixCancelArgs (parse_fix_cancel_args Y a)
      else if action = ''fix_replace'' then map_option FixReplaceArgs (parse_fix_replace_args Y a)
      else Some NoArgs)"

definition parse_step :: "'n yaml_api \<Rightarrow> bool \<Rightarrow> 'n \<Rightarrow> step option" where
  "parse_step Y is_fix sn =
     do { id \<leftarrow> value_at Y (ym_int Y) sn ''id'' 0;
          action \<leftarrow> text_at Y sn ''action'' [];
          a \<leftarrow> ym_get Y sn ''args'';
          args \<leftarrow> (case a of None \<Rightarrow> Some NoArgs | Some n \<Rightarrow> parse_step_args Y is_fix action n);
          e \<leftarrow> ym_get Y sn ''expect'';
          ex \<leftarrow> (case e of None \<Rightarrow> Some None | Some n \<Rightarrow> map_option Some (parse_expect Y n));
          Some \<lparr>st_id = id, st_action = action, st_args = args, st_expect = ex\<rparr> }"

text \<open>What leaves \<open>load_scenario\<close>: an exception or a scenario. The parser and the file are the
  argument \<open>load_file\<close>.\<close>

datatype load_exn = YamlParse string | MissingSteps | YamlAccess

definition load_scenario :: "'n yaml_api \<Rightarrow> (string \<Rightarrow> string + 'n) \<Rightarrow> string \<Rightarrow> load_exn + scenario" where
  "load_scenario Y load_file path =
     (case load_file path of
        Inl e \<Rightarrow> Inl (YamlParse (''yaml parse: '' @ path @ '': '' @ e))
      | Inr root \<Rightarrow>
          (case do { name \<leftarrow> text_at Y root ''name'' [];
                     desc \<leftarrow> text_at Y root ''description'' [];
                     pre \<leftarrow> pairs_at Y root ''preconditions'';
                     t \<leftarrow> value_at Y (ym_int Y) root ''default_timeout_ms'' 5000;
                     m \<leftarrow> value_at Y (ym_bool Y) root ''mock_skip'' False;
                     steps \<leftarrow> ym_get Y root ''steps'';
                     Some (\<lparr>sc_name = name, sc_description = desc,
                            sc_preconditions = map_of (rev pre), sc_default_timeout_ms = t,
                            sc_mock_skip = m, sc_steps = [], sc_source_path = path\<rparr>, steps) } of
             None \<Rightarrow> Inl YamlAccess
           | Some (s, steps) \<Rightarrow>
               (let is_fix = (sc_preconditions s ''protocol'' \<in> {Some ''fix_oe'', Some ''fix_rd''})
                in case steps of
                     None \<Rightarrow> Inl MissingSteps
                   | Some sq \<Rightarrow>
                       if \<not> ym_is_seq Y sq then Inl MissingSteps
                       else case map_opt (parse_step Y is_fix) (ym_items Y sq) of
                              None \<Rightarrow> Inl YamlAccess
                            | Some sts \<Rightarrow> Inr (s\<lparr>sc_steps := sts\<rparr>))))"

section \<open>The arguments of a step fit its action\<close>

text \<open>Which arguments the runners look for under an action: of the OUCH runner when the
  scenario is not a FIX one, of the FIX runner when it is.\<close>

fun fits :: "bool \<Rightarrow> string \<Rightarrow> step_args \<Rightarrow> bool" where
  "fits is_fix action NoArgs = True"
| "fits is_fix action (LoginArgs _) = (action = ''ouch_login'')"
| "fits is_fix action (WaitHeartbeatArgs _) = (action = ''wait_heartbeat'' \<and> \<not> is_fix)"
| "fits is_fix action (PlaceArgs _) = (action = ''place'' \<and> \<not> is_fix)"
| "fits is_fix action (CancelByTokenArgs _) = (action = ''cancel_by_token'' \<and> \<not> is_fix)"
| "fits is_fix action (CancelByOrderIdArgs _) = (action = ''cancel_by_order_id'' \<and> \<not> is_fix)"
| "fits is_fix action (ReplaceArgs _) = (action = ''replace'' \<and> \<not> is_fix)"
| "fits is_fix action (MassQuoteArgs _) = (action = ''mass_quote'')"
| "fits is_fix action (SwitchGatewayArgs _) = (action = ''switch_gateway'')"
| "fits is_fix action InactivateAllArgs = (action = ''inactivate_all'')"
| "fits is_fix action (BurstPlaceArgs _) = (action = ''burst_place'')"
| "fits is_fix action (FixLogonArgs _) = (action = ''fix_logon'')"
| "fits is_fix action (FixAmrSubscribeArgs _) = (action \<in> {''fix_amr_subscribe'', ''fix_amr''})"
| "fits is_fix action (FixWaitHeartbeatArgs _) =
     (action = ''fix_wait_heartbeat'' \<or> action = ''wait_heartbeat'' \<and> is_fix)"
| "fits is_fix action (FixPlaceArgs _) = (action = ''fix_place'' \<or> action = ''place'' \<and> is_fix)"
| "fits is_fix action (FixCancelArgs _) =
     (action = ''fix_cancel'' \<or> action \<in> {''cancel_by_token'', ''cancel_by_order_id''} \<and> is_fix)"
| "fits is_fix action (FixReplaceArgs _) = (action = ''fix_replace'' \<or> action = ''replace'' \<and> is_fix)"
| "fits is_fix action _ = False"

lemma parse_step_args_fit:
  assumes "parse_step_args Y is_fix action a = Some args"
  shows "fits is_fix action args"
  using assms unfolding parse_step_args_def by (elim if_SomeE; clarsimp)

lemma map_opt_Some:
  "map_opt f xs = Some ys \<longleftrightarrow> length xs = length ys \<and> (\<forall>i < length xs. f (xs ! i) = Some (ys ! i))"
proof (induction xs arbitrary: ys)
  case (Cons x xs)
  show ?case
  proof (cases ys)
    case (Cons y ys')
    then show ?thesis using Cons.IH [of ys'] by (auto simp: bind_eq_Some_conv All_less_Suc2)
  qed (auto simp: bind_eq_Some_conv)
qed auto

lemma load_scenario_Inr:
  assumes "load_scenario Y load_file path = Inr s"
  obtains root sq where "load_file path = Inr root" "ym_get Y root ''steps'' = Some (Some sq)"
    "ym_is_seq Y sq" "sc_source_path s = path"
    "map_opt (parse_step Y (sc_preconditions s ''protocol'' \<in> {Some ''fix_oe'', Some ''fix_rd''}))
       (ym_items Y sq) = Some (sc_steps s)"
  using assms that
  by (auto simp: load_scenario_def Let_def bind_eq_Some_conv split: sum.splits option.splits if_splits)

section \<open>Properties\<close>

text \<open>
  C26: A scenario that loads has one step for each item of the file, in the file's order, with
  the item's action, and arguments of the kind its runner looks for under that action: the
  FIX kinds when the protocol precondition is \<open>fix_oe\<close> or \<open>fix_rd\<close>, else the OUCH kinds.
\<close>

theorem loaded_steps_fit:
  assumes "load_scenario Y load_file path = Inr s"
  shows "\<exists>root sq. load_file path = Inr root \<and> ym_get Y root ''steps'' = Some (Some sq)
    \<and> length (sc_steps s) = length (ym_items Y sq)
    \<and> (\<forall>i < length (sc_steps s).
        text_at Y (ym_items Y sq ! i) ''action'' [] = Some (st_action (sc_steps s ! i))
        \<and> fits (sc_preconditions s ''protocol'' \<in> {Some ''fix_oe'', Some ''fix_rd''})
            (st_action (sc_steps s ! i)) (st_args (sc_steps s ! i)))"
proof -
  let ?fix = "sc_preconditions s ''protocol'' \<in> {Some ''fix_oe'', Some ''fix_rd''}"
  obtain root sq where r: "load_file path = Inr root" "ym_get Y root ''steps'' = Some (Some sq)"
    "map_opt (parse_step Y ?fix) (ym_items Y sq) = Some (sc_steps s)"
    using load_scenario_Inr [OF assms] by metis
  have step: "text_at Y n ''action'' [] = Some (st_action st) \<and> fits ?fix (st_action st) (st_args st)"
    if "parse_step Y ?fix n = Some st" for n st
    using that parse_step_args_fit
    by (auto simp: parse_step_def bind_eq_Some_conv split: option.splits)
  have len: "length (sc_steps s) = length (ym_items Y sq)"
    and parsed: "\<forall>i < length (sc_steps s). parse_step Y ?fix (ym_items Y sq ! i) = Some (sc_steps s ! i)"
    using r(3) unfolding map_opt_Some by auto
  show ?thesis
  proof (intro exI conjI allI impI)
    fix i
    assume "i < length (sc_steps s)"
    then show "text_at Y (ym_items Y sq ! i) ''action'' [] = Some (st_action (sc_steps s ! i))"
      "fits ?fix (st_action (sc_steps s ! i)) (st_args (sc_steps s ! i))"
      using step parsed by blast+
  qed (rule r(1) r(2) len)+
qed

text \<open>An unknown word for a side is a buy, without an error.\<close>

lemma side_from_unknown:
  "s \<notin> {''SELL'', ''S'', ''sell'', ''SHORT'', ''T''} \<Longrightarrow> side_from s = Buy"
  by (simp add: side_from_def)

section \<open>Witness\<close>

datatype yaml_node = YText string | YSeq "yaml_node list" | YMap "(string \<times> yaml_node) list"

definition sample_yaml :: "yaml_node yaml_api" where
  "sample_yaml =
     \<lparr>ym_get = \<lambda>n k. case n of YMap m \<Rightarrow> Some (map_of m k) | YSeq _ \<Rightarrow> Some None | YText _ \<Rightarrow> None,
      ym_is_scalar = \<lambda>n. case n of YText _ \<Rightarrow> True | _ \<Rightarrow> False,
      ym_is_map = \<lambda>n. case n of YMap _ \<Rightarrow> True | _ \<Rightarrow> False,
      ym_is_seq = \<lambda>n. case n of YSeq _ \<Rightarrow> True | _ \<Rightarrow> False,
      ym_text = \<lambda>n. case n of YText t \<Rightarrow> Some t | _ \<Rightarrow> None,
      ym_int = \<lambda>n. None, ym_i64 = \<lambda>n. None, ym_u32 = \<lambda>n. None, ym_u64 = \<lambda>n. None, ym_bool = \<lambda>n. None,
      ym_pairs = \<lambda>n. case n of YMap m \<Rightarrow> map (\<lambda>(k, v). (YText k, v)) m | _ \<Rightarrow> [],
      ym_items = \<lambda>n. case n of YSeq xs \<Rightarrow> xs | _ \<Rightarrow> []\<rparr>"

definition sample_root :: yaml_node where
  "sample_root = YMap
     [(''name'', YText ''s1''), (''preconditions'', YMap [(''protocol'', YText ''fix_oe'')]),
      (''steps'', YSeq [YMap [(''action'', YText ''cancel_by_token''), (''args'', YMap [(''token'', YText ''7'')])]])]"

definition sample_step :: step where
  "sample_step = \<lparr>st_id = 0, st_action = ''cancel_by_token'',
     st_args = FixCancelArgs \<lparr>fk_cl_ord_id = [], fk_orig_cl_ord_id = ''7'', fk_symbol = [], fk_side = Buy,
       fk_quantity = 0\<rparr>, st_expect = None\<rparr>"

lemma sample_scenario:
  "load_scenario sample_yaml (\<lambda>_. Inr sample_root) ''s.yaml''
     = Inr \<lparr>sc_name = ''s1'', sc_description = [], sc_preconditions = [''protocol'' \<mapsto> ''fix_oe''],
            sc_default_timeout_ms = 5000, sc_mock_skip = False, sc_steps = [sample_step],
            sc_source_path = ''s.yaml''\<rparr>"
  by (simp add: load_scenario_def sample_yaml_def sample_root_def text_at_def scalar_def value_at_def
      opt_as_def pairs_at_def text_pair_def parse_step_def parse_step_args_def parse_fix_cancel_args_def
      side_from_def sample_step_def Let_def)

theorem loaded_steps_fit_witness:
  "fits True ''cancel_by_token'' (st_args sample_step)"
  using loaded_steps_fit [OF sample_scenario] by (auto simp: sample_step_def)

end
