(* ===== verification/Runner_Events.thy ===== *)
theory Runner_Events
  imports Session_Contract Scenario
begin

text \<open>
  \<open>include/bist/runner/replay.hpp\<close>, first half: the captured inbound events, the fields a
  scenario can ask of them, and the matching of an event against an expectation. The order of
  checks is the key order of the \<open>std::map\<close>, so the first failing key decides the message.
\<close>

section \<open>Events\<close>

datatype session_event =
  EvAccepted OrderAccepted
| EvRejected OrderRejected
| EvReplaced OrderReplaced
| EvCanceled OrderCanceled
| EvExecuted OrderExecuted
| EvQuoteAck MassQuoteAck
| EvQuoteRejection MassQuoteRejection

text \<open>The handlers push the seven message callbacks into the runner's queue and nothing else.\<close>

fun captured :: "event \<Rightarrow> session_event option" where
  "captured (Accepted m) = Some (EvAccepted m)"
| "captured (RejectedEv m) = Some (EvRejected m)"
| "captured (Replaced m) = Some (EvReplaced m)"
| "captured (CanceledEv m) = Some (EvCanceled m)"
| "captured (Executed m) = Some (EvExecuted m)"
| "captured (QuoteAck m) = Some (EvQuoteAck m)"
| "captured (QuoteRejected m) = Some (EvQuoteRejection m)"
| "captured _ = None"

definition trim_fixed_alpha :: "string \<Rightarrow> string" where
  "trim_fixed_alpha buf = rstrip (\<lambda>c. c = CHR '' '' \<or> c = CHR 0x00) buf"

definition side_field :: "char \<Rightarrow> string" where
  "side_field c = [c]"

abbreviation num :: "'a::len word \<Rightarrow> string" where
  "num w \<equiv> dec (unat w)"

fun ouch_event_name :: "session_event \<Rightarrow> string" where
  "ouch_event_name (EvAccepted m) = ''order_accepted''"
| "ouch_event_name (EvRejected m) = ''order_rejected''"
| "ouch_event_name (EvReplaced m) = ''order_replaced''"
| "ouch_event_name (EvCanceled m) = ''order_canceled''"
| "ouch_event_name (EvExecuted m) = ''order_executed''"
| "ouch_event_name (EvQuoteAck m) = ''mass_quote_ack''"
| "ouch_event_name (EvQuoteRejection m) = ''mass_quote_rejection''"

section \<open>Fields\<close>

definition accepted_field :: "OrderAccepted \<Rightarrow> string \<Rightarrow> string option" where
  "accepted_field m key =
     (if key = ''token'' then Some (trim_fixed_alpha (oa_order_token m))
      else if key = ''order_book_id'' then Some (num (oa_order_book_id m))
      else if key = ''side'' then Some (side_field (oa_side m))
      else if key = ''order_id'' then Some (num (oa_order_id m))
      else if key = ''quantity'' \<or> key = ''leaves_quantity'' then Some (num (oa_quantity m))
      else if key = ''price'' then Some (dec_int (sint (oa_price m)))
      else if key = ''time_in_force'' then Some (num (oa_time_in_force m))
      else if key = ''open_close'' then Some (num (oa_open_close m))
      else if key = ''order_state'' then Some (num (oa_order_state m))
      else if key = ''pre_trade_quantity'' then Some (num (oa_pre_trade_quantity m))
      else if key = ''display_quantity'' then Some (num (oa_display_quantity m))
      else if key = ''client_category'' then Some (num (oa_client_category m))
      else if key = ''off_hours'' then Some (num (oa_off_hours m))
      else if key = ''smp_level'' then Some (num (oa_smp_level m))
      else if key = ''smp_method'' then Some (num (oa_smp_method m))
      else if key = ''smp_id'' then Some (trim_fixed_alpha (oa_smp_id m))
      else None)"

definition replaced_field :: "OrderReplaced \<Rightarrow> string \<Rightarrow> string option" where
  "replaced_field m key =
     (if key \<in> {''token'', ''replacement_token'', ''replacement_order_token''}
      then Some (trim_fixed_alpha (rep_replacement_order_token m))
      else if key \<in> {''previous_token'', ''previous_order_token''}
      then Some (trim_fixed_alpha (rep_previous_order_token m))
      else if key = ''order_book_id'' then Some (num (rep_order_book_id m))
      else if key = ''side'' then Some (side_field (rep_side m))
      else if key = ''order_id'' then Some (num (rep_order_id m))
      else if key = ''quantity'' \<or> key = ''leaves_quantity'' then Some (num (rep_quantity m))
      else if key = ''price'' then Some (dec_int (sint (rep_price m)))
      else if key = ''time_in_force'' then Some (num (rep_time_in_force m))
      else if key = ''open_close'' then Some (num (rep_open_close m))
      else if key = ''order_state'' then Some (num (rep_order_state m))
      else if key = ''pre_trade_quantity'' then Some (num (rep_pre_trade_quantity m))
      else if key = ''display_quantity'' then Some (num (rep_display_quantity m))
      else if key = ''client_category'' then Some (num (rep_client_category m))
      else None)"

definition canceled_field :: "OrderCanceled \<Rightarrow> string \<Rightarrow> string option" where
  "canceled_field m key =
     (if key = ''token'' then Some (trim_fixed_alpha (oc_order_token m))
      else if key = ''order_book_id'' then Some (num (oc_order_book_id m))
      else if key = ''side'' then Some (side_field (oc_side m))
      else if key = ''order_id'' then Some (num (oc_order_id m))
      else if key = ''reason'' then Some (num (oc_reason m))
      else if key = ''cancel_reason_name'' then Some (cancel_reason_name (oc_reason m))
      else None)"

definition executed_field :: "OrderExecuted \<Rightarrow> string \<Rightarrow> string option" where
  "executed_field m key =
     (if key = ''token'' then Some (trim_fixed_alpha (oe_order_token m))
      else if key = ''order_book_id'' then Some (num (oe_order_book_id m))
      else if key = ''traded_quantity'' \<or> key = ''quantity'' then Some (num (oe_traded_quantity m))
      else if key = ''trade_price'' \<or> key = ''price'' then Some (dec_int (sint (oe_trade_price m)))
      else if key = ''client_category'' then Some (num (oe_client_category m))
      else None)"

definition quote_ack_field :: "MassQuoteAck \<Rightarrow> string \<Rightarrow> string option" where
  "quote_ack_field m key =
     (if key = ''token'' then Some (trim_fixed_alpha (mk_order_token m))
      else if key = ''order_book_id'' then Some (num (mk_order_book_id m))
      else if key = ''quantity'' \<or> key = ''leaves_quantity'' then Some (num (mk_quantity m))
      else if key = ''traded_quantity'' then Some (num (mk_traded_quantity m))
      else if key = ''price'' then Some (dec_int (sint (mk_price m)))
      else if key = ''side'' then Some (side_field (mk_side m))
      else if key = ''quote_status'' then Some (num (mk_quote_status m))
      else None)"

fun ouch_event_field :: "session_event \<Rightarrow> string \<Rightarrow> string option" where
  "ouch_event_field (EvAccepted m) key = accepted_field m key"
| "ouch_event_field (EvRejected m) key =
     (if key = ''token'' then Some (trim_fixed_alpha (oj_order_token m))
      else if key = ''reject_code'' then Some (dec_int (sint (oj_reject_code m)))
      else None)"
| "ouch_event_field (EvReplaced m) key = replaced_field m key"
| "ouch_event_field (EvCanceled m) key = canceled_field m key"
| "ouch_event_field (EvExecuted m) key = executed_field m key"
| "ouch_event_field (EvQuoteAck m) key = quote_ack_field m key"
| "ouch_event_field (EvQuoteRejection m) key =
     (if key = ''token'' then Some (trim_fixed_alpha (mr_order_token m))
      else if key = ''order_book_id'' then Some (num (mr_order_book_id m))
      else if key = ''reject_code'' then Some (dec_int (sint (mr_reject_code m)))
      else None)"

section \<open>Matching\<close>

definition quoted :: "string \<Rightarrow> string" where
  "quoted s = CHR 0x27 # s @ [CHR 0x27]"

text \<open>The verdict, and the reason of a refusal (empty when there is none).\<close>

fun expected_fields_match :: "(string \<times> string) list \<Rightarrow> (string \<Rightarrow> string option) \<Rightarrow> bool \<times> string" where
  "expected_fields_match [] lookup = (True, [])"
| "expected_fields_match ((key, expected) # fs) lookup =
     (case lookup key of
        None \<Rightarrow> (False, ''event has no expected field '' @ quoted key)
      | Some actual \<Rightarrow>
          if actual \<noteq> expected
          then (False, ''field mismatch for '' @ quoted key @ '': expected '' @ quoted expected
                  @ '', got '' @ quoted actual)
          else expected_fields_match fs lookup)"

definition ouch_event_matches :: "expect \<Rightarrow> session_event \<Rightarrow> bool \<times> string" where
  "ouch_event_matches exp ev =
     (let actual = ouch_event_name ev
      in if actual \<noteq> ex_msg exp \<and> ex_msg exp \<noteq> ''any''
         then (False, ''expected '' @ ex_msg exp @ '', got '' @ actual)
         else expected_fields_match (ex_fields exp) (ouch_event_field ev))"

lemma fields_match_iff:
  "fst (expected_fields_match fs lookup) \<longleftrightarrow> (\<forall>(key, v) \<in> set fs. lookup key = Some v)"
  by (induction fs lookup rule: expected_fields_match.induct) (auto split: option.split)

definition satisfies :: "expect \<Rightarrow> session_event \<Rightarrow> bool" where
  "satisfies exp ev \<longleftrightarrow>
     (ex_msg exp = ''any'' \<or> ex_msg exp = ouch_event_name ev)
     \<and> (\<forall>(key, v) \<in> set (ex_fields exp). ouch_event_field ev key = Some v)"

lemma event_matches_iff: "fst (ouch_event_matches exp ev) \<longleftrightarrow> satisfies exp ev"
  by (auto simp: ouch_event_matches_def satisfies_def fields_match_iff Let_def)

end
