(* ===== verification/Instrument.thy ===== *)
theory Instrument
  imports Core_Types Keyed_Store
begin

text \<open>
  \<open>include/bist/domain/instrument.hpp\<close>: the symbol and order book id tables and the exact
  conversion of a price text to the wire integer. \<open>None\<close> marks signed overflow, which is
  undefined behaviour in C++; the final narrowing to 32 bits keeps the low bits.
\<close>

section \<open>The cache\<close>

type_synonym i8 = "8 word"

record instrument =
  in_symbol :: string
  in_order_book_id :: order_book_id
  in_price_decimals :: i8
  in_partition :: i32
  in_base_price :: price_int

record instrument_cache =
  by_symbol :: "string \<rightharpoonup> instrument"
  by_book_id :: "order_book_id \<rightharpoonup> instrument"

definition cache_empty :: instrument_cache where
  "cache_empty = \<lparr>by_symbol = Map.empty, by_book_id = Map.empty\<rparr>"

definition cache_put :: "instrument \<Rightarrow> instrument_cache \<Rightarrow> bool \<times> instrument_cache" where
  "cache_put inst c =
     (by_symbol c (in_symbol inst) = None,
      c\<lparr>by_symbol := (by_symbol c)(in_symbol inst \<mapsto> inst),
        by_book_id := (by_book_id c)(in_order_book_id inst \<mapsto> inst)\<rparr>)"

definition find_by_symbol :: "instrument_cache \<Rightarrow> string \<Rightarrow> instrument option" where
  "find_by_symbol c s = by_symbol c s"

definition find_by_book_id :: "instrument_cache \<Rightarrow> order_book_id \<Rightarrow> instrument option" where
  "find_by_book_id c oid = by_book_id c oid"

definition resolve :: "instrument_cache \<Rightarrow> string \<Rightarrow> order_book_id option" where
  "resolve c symbol =
     (case find_by_symbol c symbol of Some i \<Rightarrow> Some (in_order_book_id i) | None \<Rightarrow> None)"

definition cache_size :: "instrument_cache \<Rightarrow> nat" where
  "cache_size c = card (dom (by_symbol c))"

interpretation symbols: keyed_store
  "\<lambda>s i c. snd (cache_put (i\<lparr>in_symbol := s\<rparr>) c)" find_by_symbol "\<lambda>s i. i\<lparr>in_symbol := s\<rparr>"
  by unfold_locales (simp add: cache_put_def find_by_symbol_def)

interpretation books: keyed_store
  "\<lambda>b i c. snd (cache_put (i\<lparr>in_order_book_id := b\<rparr>) c)" find_by_book_id
  "\<lambda>b i. i\<lparr>in_order_book_id := b\<rparr>"
  by unfold_locales (simp add: cache_put_def find_by_book_id_def)

text \<open>Seeding the cache: the instruments of the configuration, first to last.\<close>

definition cache_seed :: "instrument list \<Rightarrow> instrument_cache \<Rightarrow> instrument_cache" where
  "cache_seed insts c = fold (\<lambda>i c. snd (cache_put i c)) insts c"

lemma cache_seed_by_symbol:
  "cache_seed insts c = fold (\<lambda>(s, i) c. snd (cache_put (i\<lparr>in_symbol := s\<rparr>) c))
     (map (\<lambda>i. (in_symbol i, i)) insts) c"
  by (induction insts arbitrary: c) (simp_all add: cache_seed_def)

lemma cache_seed_by_book_id:
  "cache_seed insts c = fold (\<lambda>(b, i) c. snd (cache_put (i\<lparr>in_order_book_id := b\<rparr>) c))
     (map (\<lambda>i. (in_order_book_id i, i)) insts) c"
  by (induction insts arbitrary: c) (simp_all add: cache_seed_def)

section \<open>Prices\<close>

text \<open>The loop over the integer part. A character that is neither a digit nor a separator
  makes the function return 0 at once: \<open>Some None\<close>.\<close>

fun whole_loop :: "string \<Rightarrow> int \<Rightarrow> (int \<times> string) option option" where
  "whole_loop [] whole = Some (Some (whole, []))"
| "whole_loop (c # cs) whole =
     (if c = CHR ''.'' \<or> c = CHR '','' then Some (Some (whole, c # cs))
      else if \<not> is_digit c then Some None
      else if i64_ok (whole * 10) \<and> i64_ok (whole * 10 + int (digit_val c))
        then whole_loop cs (whole * 10 + int (digit_val c))
      else None)"

text \<open>The loop over at most \<open>room\<close> fractional digits; it stops at the first other character.
  The first component of the result is the number of places left.\<close>

fun frac_loop :: "nat \<Rightarrow> string \<Rightarrow> int \<Rightarrow> (nat \<times> int) option" where
  "frac_loop 0 cs frac = Some (0, frac)"
| "frac_loop (Suc room) [] frac = Some (Suc room, frac)"
| "frac_loop (Suc room) (c # cs) frac =
     (if \<not> is_digit c then Some (Suc room, frac)
      else if i64_ok (frac * 10) \<and> i64_ok (frac * 10 + int (digit_val c))
        then frac_loop room cs (frac * 10 + int (digit_val c))
      else None)"

text \<open>\<open>x *= 10\<close>, \<open>n\<close> times.\<close>

fun times_ten :: "nat \<Rightarrow> int \<Rightarrow> int option" where
  "times_ten 0 x = Some x"
| "times_ten (Suc n) x = (if i64_ok (x * 10) then times_ten n (x * 10) else None)"

definition price_value :: "bool \<Rightarrow> nat \<Rightarrow> int \<Rightarrow> string \<Rightarrow> price_int option" where
  "price_value negative places whole rest =
     Option.bind
       (case rest of [] \<Rightarrow> Some (places, 0) | c # cs \<Rightarrow> frac_loop places cs 0)
       (\<lambda>(room, frac0). Option.bind (times_ten room frac0)
       (\<lambda>frac. Option.bind (times_ten places 1)
       (\<lambda>scale. if i64_ok (whole * scale) \<and> i64_ok (whole * scale + frac)
          then let v = whole * scale + frac
               in Some (word_of_int (if negative then - v else v))
          else None)))"

definition to_wire_price :: "string \<Rightarrow> i8 \<Rightarrow> price_int option" where
  "to_wire_price txt decimals =
     (let signed = (txt \<noteq> [] \<and> (hd txt = CHR ''+'' \<or> hd txt = CHR ''-''));
          negative = (signed \<and> hd txt = CHR ''-'')
      in case whole_loop (if signed then tl txt else txt) 0 of
           None \<Rightarrow> None
         | Some None \<Rightarrow> Some 0
         | Some (Some (whole, rest)) \<Rightarrow> price_value negative (nat (sint decimals)) whole rest)"

section \<open>Exactness\<close>

lemma digit_not_sep: "is_digit c \<Longrightarrow> c \<noteq> CHR ''.'' \<and> c \<noteq> CHR '',''"
  by (auto simp: is_digit_def)

lemma whole_loop_digits:
  assumes "list_all is_digit ds" "0 \<le> w" "w * 10 ^ length ds + int (dec_val ds) < 2 ^ 63"
    "rest = [] \<or> hd rest \<in> {CHR ''.'', CHR '',''}"
  shows "whole_loop (ds @ rest) w = Some (Some (w * 10 ^ length ds + int (dec_val ds), rest))"
  using assms
proof (induction ds arbitrary: w)
  case Nil
  then show ?case by (cases rest) auto
next
  case (Cons d ds)
  let ?w = "w * 10 + int (digit_val d)"
  have eq: "w * 10 ^ length (d # ds) + int (dec_val (d # ds)) = ?w * 10 ^ length ds + int (dec_val ds)"
    by (simp add: dec_val_Cons algebra_simps)
  have "?w \<le> ?w * 10 ^ length ds" using Cons.prems(2) by (simp add: mult_le_cancel_left1)
  then have "?w < 2 ^ 63" using Cons.prems(3) unfolding eq by linarith
  then have "i64_ok (w * 10)" "i64_ok ?w" using Cons.prems(2) by (auto simp: i64_ok_def)
  then show ?case
    using Cons.IH [of ?w] Cons.prems eq digit_not_sep [of d] by simp
qed

lemma frac_loop_digits:
  assumes "list_all is_digit ds" "length ds \<le> room" "0 \<le> f"
    "f * 10 ^ length ds + int (dec_val ds) < 2 ^ 63"
  shows "frac_loop room ds f = Some (room - length ds, f * 10 ^ length ds + int (dec_val ds))"
  using assms
proof (induction room ds f rule: frac_loop.induct)
  case (1 cs frac)
  then show ?case by simp
next
  case (2 room frac)
  then show ?case by simp
next
  case (3 room c cs frac)
  let ?f = "frac * 10 + int (digit_val c)"
  have eq: "frac * 10 ^ length (c # cs) + int (dec_val (c # cs)) = ?f * 10 ^ length cs + int (dec_val cs)"
    by (simp add: dec_val_Cons algebra_simps)
  have "?f \<le> ?f * 10 ^ length cs" using "3.prems"(3) by (simp add: mult_le_cancel_left1)
  then have "?f < 2 ^ 63" using "3.prems"(4) unfolding eq by linarith
  then have "i64_ok (frac * 10)" "i64_ok ?f" using "3.prems"(3) by (auto simp: i64_ok_def)
  then show ?case using 3 eq by simp
qed

lemma times_ten_ok: "0 \<le> x \<Longrightarrow> x * 10 ^ n < 2 ^ 63 \<Longrightarrow> times_ten n x = Some (x * 10 ^ n)"
proof (induction n arbitrary: x)
  case 0
  then show ?case by simp
next
  case (Suc n)
  have "x * 10 \<le> x * 10 * 10 ^ n" using Suc.prems(1) by (simp add: mult_le_cancel_left1)
  then have "i64_ok (x * 10)" using Suc.prems by (simp add: i64_ok_def mult.assoc)
  then show ?case using Suc by (simp add: mult.assoc)
qed

text \<open>The decimal text of the wire price \<open>v\<close> at \<open>d\<close> decimals, as a person writes it.\<close>

definition price_text :: "nat \<Rightarrow> int \<Rightarrow> string" where
  "price_text d v =
     (if v < 0 then ''-'' else []) @ dec (nat \<bar>v\<bar> div 10 ^ d) @ ''.'' @ dec_pad d (nat \<bar>v\<bar> mod 10 ^ d)"

lemma price_value_exact:
  assumes "list_all is_digit fs" "length fs \<le> d" "d \<le> 18" "0 \<le> w"
    "w * 10 ^ d + int (dec_val fs) * 10 ^ (d - length fs) < 2 ^ 63"
  shows "price_value neg d w (CHR ''.'' # fs) =
    Some (word_of_int ((if neg then -1 else 1) * (w * 10 ^ d + int (dec_val fs) * 10 ^ (d - length fs))))"
proof -
  let ?f = "int (dec_val fs)" and ?k = "d - length fs"
  have w0: "0 \<le> w * 10 ^ d" using assms(4) by simp
  have f: "?f * 10 ^ ?k < 2 ^ 63" using assms(5) w0 by linarith
  have "?f \<le> ?f * 10 ^ ?k" by (simp add: mult_le_cancel_left1)
  then have "frac_loop d fs 0 = Some (?k, ?f)"
    using frac_loop_digits [OF assms(1,2), of 0] f by simp
  moreover have "times_ten ?k ?f = Some (?f * 10 ^ ?k)"
    using f by (intro times_ten_ok) simp_all
  moreover have "times_ten d 1 = Some (10 ^ d)"
  proof -
    have "(10 :: int) ^ d \<le> 10 ^ 18" using assms(3) by (intro power_increasing) simp_all
    then show ?thesis using times_ten_ok [of 1 d] by simp
  qed
  moreover have "i64_ok (w * 10 ^ d)" "i64_ok (w * 10 ^ d + ?f * 10 ^ ?k)"
  proof -
    have "0 \<le> ?f * 10 ^ ?k" by simp
    then show "i64_ok (w * 10 ^ d)" "i64_ok (w * 10 ^ d + ?f * 10 ^ ?k)"
      unfolding i64_ok_def using w0 assms(5) by linarith+
  qed
  ultimately show ?thesis by (simp add: price_value_def Let_def)
qed

lemma dec_head_digit: "\<exists>c cs. dec n = c # cs \<and> is_digit c"
  using dec_digits [of n] by (cases "dec n") auto

lemma to_wire_price_text:
  assumes "1 \<le> sint d" "sint d \<le> 18" "- (2 ^ 62) \<le> v" "v \<le> 2 ^ 62"
  shows "to_wire_price (price_text (nat (sint d)) v) d = Some (word_of_int v)"
proof -
  let ?d = "nat (sint d)" and ?a = "nat \<bar>v\<bar>"
  let ?w = "?a div 10 ^ ?d" and ?fs = "dec_pad ?d (?a mod 10 ^ ?d)"
  have fs: "list_all is_digit ?fs" "length ?fs = ?d"
    using assms(1) by (simp_all add: dec_pad_digits length_dec_pad)
  obtain c cs where c: "dec ?w = c # cs" "is_digit c" using dec_head_digit by blast
  have sum: "int ?w * 10 ^ ?d + int (?a mod 10 ^ ?d) = \<bar>v\<bar>"
  proof -
    have "int ?w * 10 ^ ?d + int (?a mod 10 ^ ?d) = int (?w * 10 ^ ?d + ?a mod 10 ^ ?d)" by simp
    also have "\<dots> = int ?a" by (simp only: div_mult_mod_eq)
    finally show ?thesis by simp
  qed
  have "?w \<le> ?a" by (rule div_le_dividend)
  then have "int ?w \<le> int ?a" by (simp only: of_nat_le_iff)
  moreover have "int ?a \<le> 2 ^ 62" using assms(3,4) by linarith
  moreover have "(2 :: int) ^ 62 < 2 ^ 63" by simp
  ultimately have "int ?w < 2 ^ 63" by linarith
  then have whole: "whole_loop (dec ?w @ CHR ''.'' # ?fs) 0 = Some (Some (int ?w, CHR ''.'' # ?fs))"
    using whole_loop_digits [of "dec ?w" 0 "CHR ''.'' # ?fs"] by (simp add: dec_digits)
  have "?d \<le> 18" using assms(1,2) by linarith
  moreover have "\<bar>v\<bar> < 2 ^ 63" using assms(3,4) by (simp add: abs_less_iff)
  ultimately have val: "price_value neg ?d (int ?w) (CHR ''.'' # ?fs)
      = Some (word_of_int ((if neg then -1 else 1) * \<bar>v\<bar>))" for neg
    using price_value_exact [of ?fs ?d "int ?w" neg] fs sum by (simp only:) simp
  show ?thesis
    using whole val [of True] val [of False] c is_digit_not_space [OF c(2)]
    by (auto simp: to_wire_price_def price_text_def Let_def simp del: whole_loop.simps)
qed

lemma cache_seed_symbol:
  "distinct (map in_symbol insts) \<Longrightarrow> i \<in> set insts \<Longrightarrow>
     find_by_symbol (cache_seed insts c) (in_symbol i) = Some i"
  using symbols.get_puts_distinct [of "map (\<lambda>i. (in_symbol i, i)) insts" "in_symbol i" i c]
  by (force simp: cache_seed_by_symbol comp_def)

lemma cache_seed_book:
  "distinct (map in_order_book_id insts) \<Longrightarrow> i \<in> set insts \<Longrightarrow>
     find_by_book_id (cache_seed insts c) (in_order_book_id i) = Some i"
  using books.get_puts_distinct [of "map (\<lambda>i. (in_order_book_id i, i)) insts" "in_order_book_id i" i c]
  by (force simp: cache_seed_by_book_id comp_def)

section \<open>Properties\<close>

text \<open>
  Prices are exact. For 1 to 18 decimals the decimal text of any 32-bit wire price is
  parsed back to that price, without overflow; and a price beyond 32 bits is not
  rejected but loses its high bits: at three decimals \<open>"4294967.297"\<close> gives 1.
\<close>

lemma price_roundtrip:
  assumes "1 \<le> sint d" "sint d \<le> 18"
  shows "to_wire_price (price_text (nat (sint d)) (sint (p :: price_int))) d = Some p
    \<and> to_wire_price ''4294967.297'' 3 = Some 1"
proof -
  have "- (2 ^ 31) \<le> sint p" "sint p < 2 ^ 31"
    using sint_ge [of p] sint_lt [of p] by simp_all
  then have "to_wire_price (price_text (nat (sint d)) (sint p)) d = Some p"
    using to_wire_price_text [OF assms, of "sint p"] by simp
  moreover have "to_wire_price ''4294967.297'' 3 = Some 1"
    by code_simp
  ultimately show ?thesis ..
qed

text \<open>
  Seeding the cache with instruments of distinct symbols and distinct book ids makes
  both lookups answer with the instrument given, and \<open>resolve\<close> with its book id.
\<close>

lemma cache_seed_lookup:
  assumes "distinct (map in_symbol insts)" "distinct (map in_order_book_id insts)" "i \<in> set insts"
  shows "find_by_symbol (cache_seed insts c) (in_symbol i) = Some i
    \<and> find_by_book_id (cache_seed insts c) (in_order_book_id i) = Some i
    \<and> resolve (cache_seed insts c) (in_symbol i) = Some (in_order_book_id i)"
  using cache_seed_symbol [OF assms(1,3)] cache_seed_book [OF assms(2,3)] by (simp add: resolve_def)

text \<open>
  Re-registering a symbol under another book id leaves the old id behind: it still
  resolves to the replaced instrument, which the symbol no longer does.
\<close>

lemma cache_stale_book_id:
  assumes "in_symbol j = in_symbol i" "in_order_book_id j \<noteq> in_order_book_id i"
  shows "\<exists>c'. cache_seed [i, j] c = c' \<and> find_by_symbol c' (in_symbol i) = Some j
    \<and> find_by_book_id c' (in_order_book_id i) = Some i
    \<and> resolve c' (in_symbol i) \<noteq> Some (in_order_book_id i)"
  using assms by (auto simp: cache_seed_def cache_put_def find_by_symbol_def find_by_book_id_def resolve_def)

definition garan :: instrument where
  "garan = \<lparr>in_symbol = ''GARAN.E'', in_order_book_id = 74196, in_price_decimals = 3,
     in_partition = 1, in_base_price = 0\<rparr>"

end
