(* ===== verification/Runner.thy ===== *)
theory Runner
  imports Runner_Events Client Instrument Sequence_Store
begin

text \<open>
  \<open>include/bist/runner/replay.hpp\<close>, second half: \<open>ScenarioRunner\<close> executes a scenario against
  the client. The transport control and the end-of-day trigger are objects the application
  supplies; they are fields of the state: a function on the client, and an object whose calls
  give its next state. A step is \<open>None\<close> where
  the code does not return or leaves defined behaviour.
\<close>

section \<open>State\<close>

text \<open>A call on the transport control gives its result, the client over the session now in the
  slot the runner's references point to (no client when the slot is left empty), the events
  delivered meanwhile, and the transport control afterwards. What the program reads when the run is
  over is the cursor store, as the audit handler of the given session has left it.\<close>

codatatype transport = Transport
  (tr_reconnect: "string \<Rightarrow> string \<Rightarrow> u64 \<Rightarrow> ouch_client
    \<Rightarrow> (unit result \<times> ouch_client option \<times> session_event list \<times> transport) option")
  (tr_switch: "bool \<Rightarrow> string \<Rightarrow> u64 \<Rightarrow> ouch_client
    \<Rightarrow> (unit result \<times> ouch_client option \<times> session_event list \<times> transport) option")
  (tr_store: "ouch_session \<Rightarrow> sequence_store option")

record runner =
  rn_client :: ouch_client
  rn_instruments :: instrument_cache
  rn_transport :: "transport option"
  rn_eod :: "(ouch_client \<Rightarrow> ouch_client) option"
  rn_events :: "session_event list"
  rn_token_by_step :: "i32 \<rightharpoonup> string"
  rn_token_index :: "string \<rightharpoonup> order_id \<times> order_book_id \<times> side"
  rn_wall :: clock

record step_result =
  res_id :: i32
  res_action :: string
  res_passed :: bool
  res_detail :: string
  res_elapsed_ns :: i64

definition runner_init ::
  "ouch_client \<Rightarrow> instrument_cache \<Rightarrow> transport option \<Rightarrow> clock \<Rightarrow> runner" where
  "runner_init c insts tr wall =
     \<lparr>rn_client = c, rn_instruments = insts, rn_transport = tr, rn_eod = None, rn_events = [],
      rn_token_by_step = Map.empty, rn_token_index = Map.empty, rn_wall = wall\<rparr>"

definition set_eod_trigger :: "(ouch_client \<Rightarrow> ouch_client) \<Rightarrow> runner \<Rightarrow> runner" where
  "set_eod_trigger t r = r\<lparr>rn_eod := Some t\<rparr>"

definition push_event :: "session_event \<Rightarrow> runner \<Rightarrow> runner" where
  "push_event ev r = r\<lparr>rn_events := rn_events r @ [ev]\<rparr>"

text \<open>A step result with the id and action of its step.\<close>

definition outcome :: "step \<Rightarrow> bool \<Rightarrow> string \<Rightarrow> step_result" where
  "outcome s passed txt =
     \<lparr>res_id = st_id s, res_action = st_action s, res_passed = passed, res_detail = txt,
      res_elapsed_ns = 0\<rparr>"

abbreviation rn_session :: "runner \<Rightarrow> ouch_session" where
  "rn_session r \<equiv> oc_session (rn_client r)"

definition with_session :: "ouch_session \<Rightarrow> runner \<Rightarrow> runner" where
  "with_session s r = r\<lparr>rn_client := (rn_client r)\<lparr>oc_session := s\<rparr>\<rparr>"

definition runner_now :: "runner \<Rightarrow> u64 \<times> runner" where
  "runner_now r = (let (t, s) = monotonic_ns (rn_session r) in (t, with_session s r))"

text \<open>A poll of the session; the callbacks it makes reach the queue through \<open>push_event\<close>.\<close>

definition new_events :: "ouch_session \<Rightarrow> ouch_session \<Rightarrow> session_event list" where
  "new_events s s1 = List.map_filter captured (drop (length (ss_events s)) (ss_events s1))"

definition poll :: "runner \<Rightarrow> (unit result \<times> runner) option" where
  "poll r =
     (case poll_io (rn_session r) of
        None \<Rightarrow> None
      | Some (res, s1) \<Rightarrow> Some (res, fold push_event (new_events (rn_session r) s1) (with_session s1 r)))"

section \<open>Waiting for events\<close>

definition update_indices :: "session_event \<Rightarrow> runner \<Rightarrow> runner" where
  "update_indices ev r =
     (case ev of
        EvAccepted m \<Rightarrow> r\<lparr>rn_token_index := (rn_token_index r)(trim_blanks (oa_order_token m) \<mapsto>
            (oa_order_id m, oa_order_book_id m, side_from_wire (oa_side m)))\<rparr>
      | EvReplaced m \<Rightarrow> r\<lparr>rn_token_index := (rn_token_index r)(trim_blanks (rep_replacement_order_token m) \<mapsto>
            (rep_order_id m, rep_order_book_id m, side_from_wire (rep_side m)))\<rparr>
      | _ \<Rightarrow> r)"

partial_function (option) wait_loop :: "u64 \<Rightarrow> runner \<Rightarrow> (bool \<times> runner) option" where
  "wait_loop deadline r =
     (if rn_events r \<noteq> [] then Some (True, r)
      else case poll r of
        None \<Rightarrow> None
      | Some (res, r1) \<Rightarrow>
          (if \<not> result_ok res then Some (False, r1)
           else let (now, r2) = runner_now r1
                in if now > deadline then Some (False, r2) else wait_loop deadline r2))"

definition wait_for_event :: "i32 \<Rightarrow> runner \<Rightarrow> (session_event option \<times> runner) option" where
  "wait_for_event timeout_ms r =
     (let (now, r1) = runner_now r;
          deadline = now + scast timeout_ms * 1000000
      in case wait_loop deadline r1 of
           None \<Rightarrow> None
         | Some (arrived, r2) \<Rightarrow>
             (case rn_events r2 of
                ev # evs \<Rightarrow> if arrived then Some (Some ev, update_indices ev (r2\<lparr>rn_events := evs\<rparr>))
                            else Some (None, r2)
              | [] \<Rightarrow> Some (None, r2)))"

section \<open>The steps\<close>

partial_function (option) login_loop :: "u64 \<Rightarrow> runner \<Rightarrow> (string option \<times> runner) option" where
  "login_loop deadline r =
     (if ss_state (rn_session r) \<noteq> LoggingIn then Some (None, r)
      else case poll r of
        None \<Rightarrow> None
      | Some (res, r1) \<Rightarrow>
          (case res of
             Inl e \<Rightarrow> Some (Some (detail e), r1)
           | Inr _ \<Rightarrow>
               (let (now, r2) = runner_now r1
                in if now > deadline then Some (Some ''login timeout'', r2) else login_loop deadline r2)))"

definition after_login :: "step \<Rightarrow> runner \<Rightarrow> step_result \<times> runner" where
  "after_login s r =
     (if ss_state (rn_session r) = Active then (outcome s True [], r)
      else (outcome s False ''login finished in non-Active state'', r))"

text \<open>What a call on the transport leaves; its result is \<open>None\<close> where the runner then looks at the
  session of an empty slot.\<close>

definition adopt :: "transport \<Rightarrow> ouch_client \<Rightarrow> session_event list \<Rightarrow> runner \<Rightarrow> runner" where
  "adopt tr c evs r = fold push_event evs (r\<lparr>rn_client := c, rn_transport := Some tr\<rparr>)"

text \<open>A loop that an error or the deadline ends gives the reason; the final check is made only
  when the state has changed.\<close>

definition run_login :: "step \<Rightarrow> login_args \<Rightarrow> runner \<Rightarrow> (step_result \<times> runner) option" where
  "run_login s a r =
     (if ss_state (rn_session r) = Active \<and> la_password a = []
      then Some (outcome s True ''session already Active (login driven by main)'', r)
      else case rn_transport r of
        Some tr \<Rightarrow>
          (case tr_reconnect tr (la_password a) (la_session a) (la_sequence a) (rn_client r) of
             Some (rr, Some c1, evs, tr1) \<Rightarrow>
               (let r1 = adopt tr1 c1 evs r
                in case rr of
                     Inl e \<Rightarrow> Some (outcome s (ss_state (rn_session r1) = Failed) (detail e), r1)
                   | Inr _ \<Rightarrow> Some (after_login s r1))
           | _ \<Rightarrow> None)
      | None \<Rightarrow>
          (let (rr, s1) = begin_login (rn_session r);
               r1 = with_session s1 r
           in case rr of
                Inl e \<Rightarrow> Some (outcome s False (''begin_login failed: '' @ detail e), r1)
              | Inr _ \<Rightarrow>
                  (let (now, r2) = runner_now r1
                   in case login_loop (now + 2000000000) r2 of
                        None \<Rightarrow> None
                      | Some (Some why, r3) \<Rightarrow> Some (outcome s False why, r3)
                      | Some (None, r3) \<Rightarrow> Some (after_login s r3))))"

definition run_logout :: "step \<Rightarrow> runner \<Rightarrow> (step_result \<times> runner) option" where
  "run_logout s r =
     (let (rr, s1) = request_logout (rn_session r)
      in Some (case rr of Inl e \<Rightarrow> outcome s False (detail e) | Inr _ \<Rightarrow> outcome s True [], with_session s1 r))"

definition place_request :: "instrument \<Rightarrow> price_int \<Rightarrow> sc_place_args \<Rightarrow> place_args" where
  "place_request inst price a =
     \<lparr>pa_symbol = sp_symbol a, pa_order_book_id = in_order_book_id inst, pa_side = sp_side a,
      pa_quantity = sp_quantity a, pa_price = price, pa_tif = sp_tif a,
      pa_open_close = DefaultForAccount, pa_category = sp_category a,
      pa_display_quantity = sp_display_quantity a, pa_client_account = sp_client_account a,
      pa_customer_info = sp_customer_info a, pa_exchange_info = sp_exchange_info a,
      pa_explicit_token = sp_token a, pa_off_hours = 0\<rparr>"

text \<open>The reject the runner makes up for a duplicate token.\<close>

definition fake_reject :: "string \<Rightarrow> u64 \<Rightarrow> OrderRejected" where
  "fake_reject token now =
     zero_OrderRejected\<lparr>oj_message_type := kOrderRejected, oj_timestamp_ns := now,
       oj_order_token := token_set (order_token_of token), oj_reject_code := kTokenNotUnique\<rparr>"

definition run_place :: "step \<Rightarrow> sc_place_args \<Rightarrow> runner \<Rightarrow> (step_result \<times> runner) option" where
  "run_place s a r =
     (case find_by_symbol (rn_instruments r) (sp_symbol a) of
        None \<Rightarrow> Some (outcome s False (''unknown symbol: '' @ sp_symbol a), r)
      | Some inst \<Rightarrow>
          (case to_wire_price (sp_price_str a) (in_price_decimals inst) of
             None \<Rightarrow> None
           | Some price \<Rightarrow>
               (let (pr, c1) = place (place_request inst price a) (rn_client r);
                    r1 = r\<lparr>rn_client := c1\<rparr>
                in case pr of
                     Inl e \<Rightarrow>
                       (if map_option ex_msg (st_expect s) = Some ''order_rejected'' \<and> category e = Validation
                        then let (now, w) = read_clock (rn_wall r1)
                             in Some (outcome s True ''synthesized -800002 reject (duplicate token caught locally)'',
                                      push_event (EvRejected (fake_reject (sp_token a) now)) (r1\<lparr>rn_wall := w\<rparr>))
                        else Some (outcome s False (''place failed: '' @ detail e), r1))
                   | Inr _ \<Rightarrow>
                       Some (outcome s True [],
                             if sp_token a \<noteq> []
                             then r1\<lparr>rn_token_by_step := (rn_token_by_step r1)(st_id s \<mapsto> sp_token a)\<rparr>
                             else r1))))"

text \<open>What a client call's result makes of a step.\<close>

definition client_step ::
  "step \<Rightarrow> (ouch_client \<Rightarrow> 'a result \<times> ouch_client) \<Rightarrow> runner \<Rightarrow> step_result \<times> runner" where
  "client_step s f r =
     (let (rr, c1) = f (rn_client r)
      in (case rr of Inl e \<Rightarrow> outcome s False (detail e) | Inr _ \<Rightarrow> outcome s True [], r\<lparr>rn_client := c1\<rparr>))"

definition run_cancel_t :: "step \<Rightarrow> string \<Rightarrow> runner \<Rightarrow> (step_result \<times> runner) option" where
  "run_cancel_t s token r = Some (client_step s (cancel_by_token token) r)"

text \<open>The draining loop of \<open>run_cancel_id\<close>: each event is indexed and moved to the back of the
  queue, which therefore never gets empty.\<close>

partial_function (option) drain_loop :: "runner \<Rightarrow> runner option" where
  "drain_loop r =
     (if rn_events r = [] then Some r
      else let ev = hd (rn_events r);
               r1 = (update_indices ev r)\<lparr>rn_events := tl (rn_events r) @ [ev]\<rparr>
           in if length (rn_events r1) > 1024 then Some r1 else drain_loop r1)"

definition run_cancel_id :: "step \<Rightarrow> string \<Rightarrow> runner \<Rightarrow> (step_result \<times> runner) option" where
  "run_cancel_id s token_ref r =
     (case drain_loop r of
        None \<Rightarrow> None
      | Some r1 \<Rightarrow>
          (case rn_token_index r1 token_ref of
             None \<Rightarrow> Some (outcome s False (''token_ref '' @ token_ref @ '' unknown to runner''), r1)
           | Some (oid, bk, sd) \<Rightarrow> Some (client_step s (cancel_by_order_id bk sd oid) r1)))"

definition replace_request :: "price_int \<Rightarrow> sc_replace_args \<Rightarrow> replace_args" where
  "replace_request price a =
     \<lparr>ra_existing_token = sr_existing_token a, ra_new_token = sr_new_token a,
      ra_new_total_quantity = sr_quantity a, ra_new_price = price, ra_open_close = ReplaceKeep,
      ra_category = sr_category a, ra_display_quantity = sr_display_quantity a,
      ra_client_account = sr_client_account a, ra_customer_info = [], ra_exchange_info = []\<rparr>"

text \<open>The decimals come from the instrument with the empty symbol, else they are three.\<close>

definition replace_decimals :: "sc_replace_args \<Rightarrow> runner \<Rightarrow> i8" where
  "replace_decimals a r =
     (if sr_existing_token a = [] then 3
      else case find_by_symbol (rn_instruments r) [] of None \<Rightarrow> 3 | Some inst \<Rightarrow> in_price_decimals inst)"

definition run_replace :: "step \<Rightarrow> sc_replace_args \<Rightarrow> runner \<Rightarrow> (step_result \<times> runner) option" where
  "run_replace s a r =
     (case to_wire_price (sr_price_str a) (replace_decimals a r) of
        None \<Rightarrow> None
      | Some price \<Rightarrow> Some (client_step s (replace (replace_request price a)) r))"

fun quote_requests :: "instrument_cache \<Rightarrow> quote_entry_spec list \<Rightarrow> (string + quote_entry_args list) option" where
  "quote_requests insts [] = Some (Inr [])"
| "quote_requests insts (e # es) =
     (case find_by_symbol insts (qs_symbol e) of
        None \<Rightarrow> Some (Inl (''unknown symbol in MassQuote: '' @ qs_symbol e))
      | Some inst \<Rightarrow>
          (case to_wire_price (qs_bid_px e) (in_price_decimals inst) of
             None \<Rightarrow> None
           | Some bid \<Rightarrow>
               (case to_wire_price (qs_offer_px e) (in_price_decimals inst) of
                  None \<Rightarrow> None
                | Some offer \<Rightarrow>
                    (case quote_requests insts es of
                       None \<Rightarrow> None
                     | Some (Inl m) \<Rightarrow> Some (Inl m)
                     | Some (Inr qs) \<Rightarrow>
                         Some (Inr (\<lparr>qa_order_book_id = in_order_book_id inst, qa_bid_price = bid,
                           qa_bid_size = qs_bid_size e, qa_offer_price = offer,
                           qa_offer_size = qs_offer_size e\<rparr> # qs))))))"

definition run_quote :: "step \<Rightarrow> sc_mass_quote_args \<Rightarrow> runner \<Rightarrow> (step_result \<times> runner) option" where
  "run_quote s a r =
     (case quote_requests (rn_instruments r) (sq_entries a) of
        None \<Rightarrow> None
      | Some (Inl m) \<Rightarrow> Some (outcome s False m, r)
      | Some (Inr qs) \<Rightarrow>
          Some (client_step s
            (mass_quote \<lparr>ma_token = sq_token a, ma_category = sq_category a,
               ma_client_account = sq_afk a, ma_exchange_info = sq_exchange_info a, ma_entries = qs\<rparr>) r))"

section \<open>Bursts\<close>

definition burst_request :: "instrument \<Rightarrow> price_int \<Rightarrow> burst_pattern_entry \<Rightarrow> u64 \<Rightarrow> place_args" where
  "burst_request inst price pat this_seq =
     \<lparr>pa_symbol = bp_symbol pat, pa_order_book_id = in_order_book_id inst, pa_side = bp_side pat,
      pa_quantity = bp_quantity pat, pa_price = price, pa_tif = bp_tif pat,
      pa_open_close = DefaultForAccount, pa_category = bp_category pat, pa_display_quantity = 0,
      pa_client_account = [], pa_customer_info = [], pa_exchange_info = [],
      pa_explicit_token = dec (unat this_seq), pa_off_hours = 0\<rparr>"

text \<open>Up to so many tries while the throttler refuses, polling in between; the verdict and the
  last error.\<close>

fun burst_attempts :: "nat \<Rightarrow> place_args \<Rightarrow> runner \<Rightarrow> ((bool \<times> string) \<times> runner) option" where
  "burst_attempts 0 pa r = Some ((False, []), r)"
| "burst_attempts (Suc n) pa r =
     (let (pr, c1) = place pa (rn_client r);
          r1 = r\<lparr>rn_client := c1\<rparr>
      in case pr of
           Inr _ \<Rightarrow> Some ((True, []), r1)
         | Inl e \<Rightarrow>
             (if category e \<noteq> Throttled then Some ((False, detail e), r1)
              else case poll r1 of None \<Rightarrow> None | Some (_, r2) \<Rightarrow> burst_attempts n pa r2))"

text \<open>The loop over the orders: so many left, the index of the next, the token counters. The
  pacing sleep only reads the clock.\<close>

fun burst_loop ::
  "burst_place_args \<Rightarrow> step \<Rightarrow> nat \<Rightarrow> nat \<Rightarrow> u64 list \<Rightarrow> runner \<Rightarrow> (step_result \<times> runner) option" where
  "burst_loop a s 0 i seqs r =
     Some (outcome s True (''sent '' @ dec i @ '' orders @ ~'' @ dec (unat (bu_rate_per_sec a)) @ ''/s''), r)"
| "burst_loop a s (Suc left) i seqs r =
     (let k = i mod length (bu_pattern a);
          pat = bu_pattern a ! k
      in case find_by_symbol (rn_instruments r) (bp_symbol pat) of
           None \<Rightarrow> Some (outcome s False (''unknown symbol in burst_place: '' @ bp_symbol pat), r)
         | Some inst \<Rightarrow>
             (case to_wire_price (bp_price_str pat) (in_price_decimals inst) of
                None \<Rightarrow> None
              | Some price \<Rightarrow>
                  (let this_seq = strtoull (c_str (bp_token_prefix pat)) + seqs ! k
                   in case burst_attempts 1000 (burst_request inst price pat this_seq) r of
                        None \<Rightarrow> None
                      | Some ((ok_send, last_err), r1) \<Rightarrow>
                          (if \<not> ok_send
                           then Some (outcome s False (''burst_place send #'' @ dec (i + 1) @ '' failed: ''
                                  @ (if last_err = [] then ''throttle retry exhausted'' else last_err)), r1)
                           else burst_loop a s left (Suc i) (seqs[k := seqs ! k + 1]) (snd (runner_now r1))))))"

definition run_burst_place :: "step \<Rightarrow> burst_place_args \<Rightarrow> runner \<Rightarrow> (step_result \<times> runner) option" where
  "run_burst_place s a r =
     (if bu_count a = 0 \<or> bu_pattern a = []
      then Some (outcome s False ''burst_place needs count > 0 and a non-empty pattern'', r)
      else if bu_rate_per_sec a = 0
      then Some (outcome s False ''burst_place needs rate_per_sec > 0'', r)
      else burst_loop a s (unat (bu_count a)) 0 (replicate (length (bu_pattern a)) 0) (snd (runner_now r)))"

section \<open>Gateway switch\<close>

definition run_switch_gateway :: "step \<Rightarrow> string \<Rightarrow> runner \<Rightarrow> (step_result \<times> runner) option" where
  "run_switch_gateway s tag r =
     (case rn_transport r of
        None \<Rightarrow> Some (outcome s False ''switch_gateway requires a transport (live mode only)'', r)
      | Some tr \<Rightarrow>
          (case tr_switch tr (tag \<in> {''secondary'', ''yedek'', []})
                  (ss_assigned_session (rn_session r)) (ss_next_inbound_seq (rn_session r)) (rn_client r) of
             Some (rr, Some c1, evs, tr1) \<Rightarrow>
               (let r1 = adopt tr1 c1 evs r
                in case rr of
                     Inl e \<Rightarrow> Some (outcome s (ss_state (rn_session r1) = Failed) (detail e), r1)
                   | Inr _ \<Rightarrow>
                       (if ss_state (rn_session r1) = Active then Some (outcome s True [], r1)
                        else Some (outcome s False ''post-switch login finished in non-Active state'', r1)))
           | _ \<Rightarrow> None))"

section \<open>Expectations\<close>

definition login_field :: "ouch_session \<Rightarrow> string \<Rightarrow> string option" where
  "login_field s key =
     (if key = ''session'' then Some (ss_assigned_session s)
      else if key = ''next_sequence'' \<or> key = ''sequence'' then Some (dec (unat (ss_next_inbound_seq s)))
      else None)"

definition login_reject_field :: "ouch_session \<Rightarrow> string \<Rightarrow> string option" where
  "login_reject_field s key =
     (if key = ''reason_code''
      then (if ss_last_login_reject_reason s = CHR 0x00 then Some [] else Some [ss_last_login_reject_reason s])
      else None)"

fun match_loop :: "nat \<Rightarrow> expect \<Rightarrow> i32 \<Rightarrow> runner \<Rightarrow> ((bool \<times> string) \<times> runner) option" where
  "match_loop 0 exp timeout_ms r = Some ((True, []), r)"
| "match_loop (Suc needed) exp timeout_ms r =
     (case wait_for_event timeout_ms r of
        None \<Rightarrow> None
      | Some (None, r1) \<Rightarrow> Some ((False, ''timeout waiting for '' @ ex_msg exp), r1)
      | Some (Some ev, r1) \<Rightarrow>
          (if fst (ouch_event_matches exp ev) then match_loop needed exp timeout_ms r1
           else Some ((False, snd (ouch_event_matches exp ev)), r1)))"

definition match_expectation :: "expect \<Rightarrow> i32 \<Rightarrow> runner \<Rightarrow> ((bool \<times> string) \<times> runner) option" where
  "match_expectation exp timeout_ms r =
     (let s = rn_session r
      in if ex_msg exp = ''login_accepted'' then
           Some (if ss_state s = Active then expected_fields_match (ex_fields exp) (login_field s) else (False, []), r)
         else if ex_msg exp = ''login_rejected'' then
           Some (if ss_state s = Failed then expected_fields_match (ex_fields exp) (login_reject_field s)
                 else (False, []), r)
         else if ex_msg exp = ''socket_closed'' then
           Some ((ss_state s = Disconnected \<or> ss_state s = Disconnecting, []), r)
         else if ex_msg exp = ''server_heartbeat'' then Some ((True, []), r)
         else match_loop (nat (max 1 (sint (ex_occurrences exp)))) exp timeout_ms r)"

section \<open>The scenario\<close>

definition run_action :: "step \<Rightarrow> runner \<Rightarrow> (step_result \<times> runner) option" where
  "run_action s r =
     (if st_action s = ''ouch_login'' then
        run_login s (case st_args s of LoginArgs a \<Rightarrow> a | _ \<Rightarrow> login_args_default) r
      else if st_action s = ''ouch_logout'' then run_logout s r
      else if st_action s = ''place'' then
        run_place s (case st_args s of PlaceArgs a \<Rightarrow> a | _ \<Rightarrow> sc_place_args_default) r
      else if st_action s = ''cancel_by_token'' then
        run_cancel_t s (case st_args s of CancelByTokenArgs t \<Rightarrow> t | _ \<Rightarrow> []) r
      else if st_action s = ''cancel_by_order_id'' then
        run_cancel_id s (case st_args s of CancelByOrderIdArgs t \<Rightarrow> t | _ \<Rightarrow> []) r
      else if st_action s = ''replace'' then
        run_replace s (case st_args s of ReplaceArgs a \<Rightarrow> a | _ \<Rightarrow> sc_replace_args_default) r
      else if st_action s = ''mass_quote'' then
        run_quote s (case st_args s of MassQuoteArgs a \<Rightarrow> a | _ \<Rightarrow> sc_mass_quote_args_default) r
      else if st_action s = ''switch_gateway'' then
        run_switch_gateway s (case st_args s of SwitchGatewayArgs t \<Rightarrow> t | _ \<Rightarrow> []) r
      else if st_action s = ''burst_place'' then
        run_burst_place s (case st_args s of BurstPlaceArgs a \<Rightarrow> a | _ \<Rightarrow> burst_place_args_default) r
      else if st_action s = ''inactivate_all'' then
        Some (outcome s True [], case rn_eod r of None \<Rightarrow> r | Some t \<Rightarrow> r\<lparr>rn_client := t (rn_client r)\<rparr>)
      else if st_action s \<in> {''expect'', ''wait_heartbeat'', ''trigger_opening_match''} then
        Some (outcome s True [], r)
      else Some (outcome s False (''unsupported action: '' @ st_action s), r))"

definition check_expectation :: "i32 \<Rightarrow> step \<Rightarrow> step_result \<Rightarrow> runner \<Rightarrow> (step_result \<times> runner) option" where
  "check_expectation default_timeout s res r =
     (case st_expect s of
        None \<Rightarrow> Some (res, r)
      | Some exp \<Rightarrow>
          if \<not> res_passed res then Some (res, r)
          else case match_expectation exp (if ex_timeout_ms exp \<noteq> 0 then ex_timeout_ms exp else default_timeout) r of
                 None \<Rightarrow> None
               | Some ((ok, why), r1) \<Rightarrow>
                   Some (if ok then res else res\<lparr>res_passed := False, res_detail := why\<rparr>, r1))"

definition run_step :: "i32 \<Rightarrow> step \<Rightarrow> runner \<Rightarrow> (step_result \<times> runner) option" where
  "run_step default_timeout s r =
     (let (t0, r0) = runner_now r
      in case run_action s r0 of
           None \<Rightarrow> None
         | Some (res, r1) \<Rightarrow>
             (case check_expectation default_timeout s res r1 of
                None \<Rightarrow> None
              | Some (res2, r2) \<Rightarrow>
                  (let (t1, r3) = runner_now r2 in Some (res2\<lparr>res_elapsed_ns := t1 - t0\<rparr>, r3))))"

fun run_steps :: "i32 \<Rightarrow> step list \<Rightarrow> runner \<Rightarrow> (step_result list \<times> runner) option" where
  "run_steps t [] r = Some ([], r)"
| "run_steps t (s # ss) r =
     (case run_step t s r of
        None \<Rightarrow> None
      | Some (res, r1) \<Rightarrow>
          (case run_steps t ss r1 of None \<Rightarrow> None | Some (rs, r2) \<Rightarrow> Some (res # rs, r2)))"

definition run_scenario :: "scenario \<Rightarrow> runner \<Rightarrow> (step_result list \<times> runner) option" where
  "run_scenario sc r = run_steps (sc_default_timeout_ms sc) (sc_steps sc) r"

section \<open>What the loops do\<close>

lemma update_indices_simps [simp]:
  "rn_events (update_indices ev r) = rn_events r" "rn_client (update_indices ev r) = rn_client r"
  "rn_instruments (update_indices ev r) = rn_instruments r"
  by (simp_all add: update_indices_def split: session_event.split)

lemma runner_now_simps [simp]:
  "rn_events (snd (runner_now r)) = rn_events r" "rn_token_index (snd (runner_now r)) = rn_token_index r"
  "ss_events (rn_session (snd (runner_now r))) = ss_events (rn_session r)"
  "rn_instruments (snd (runner_now r)) = rn_instruments r"
  by (simp_all add: runner_now_def monotonic_ns_def with_session_def Let_def case_prod_beta)

text \<open>An event that is already in the queue is taken without touching the network.\<close>

lemma wait_for_event_queued:
  assumes "rn_events r = ev # evs"
  shows "wait_for_event t r = Some (Some ev, update_indices ev ((snd (runner_now r))\<lparr>rn_events := evs\<rparr>))"
  using assms by (simp add: wait_for_event_def wait_loop.simps case_prod_beta Let_def)

lemma drain_loop_rotates:
  assumes "drain_loop r = Some r'"
  shows "rn_events r = [] \<or> 1024 < length (rn_events r)"
proof (rule drain_loop.raw_induct [where P = "\<lambda>r _. rn_events r = [] \<or> 1024 < length (rn_events r)", OF _ assms])
  fix drain :: "runner \<Rightarrow> runner option" and x y
  assume ih: "\<And>x y. drain x = Some y \<Longrightarrow> rn_events x = [] \<or> 1024 < length (rn_events x)"
    and body: "(if rn_events x = [] then Some x
      else let ev = hd (rn_events x); r1 = (update_indices ev x)\<lparr>rn_events := tl (rn_events x) @ [ev]\<rparr>
           in if length (rn_events r1) > 1024 then Some r1 else drain r1) = Some y"
  then show "rn_events x = [] \<or> 1024 < length (rn_events x)"
    by (auto simp: Let_def split: if_splits dest: ih)
qed

lemma drain_loop_returns:
  "rn_events r = [] \<Longrightarrow> drain_loop r = Some r"
  "1024 < length (rn_events r) \<Longrightarrow> drain_loop r \<noteq> None"
  by (simp_all add: drain_loop.simps [of r] Let_def)

lemma match_loop_queued:
  assumes "n \<le> length (rn_events r)"
  shows "\<exists>why r'. match_loop n exp t r = Some ((\<forall>ev \<in> set (take n (rn_events r)). satisfies exp ev, why), r')
    \<and> rn_events r' = drop (min n (Suc (length (takeWhile (satisfies exp) (rn_events r))))) (rn_events r)
    \<and> ss_events (rn_session r') = ss_events (rn_session r)"
  using assms
proof (induction n arbitrary: r)
  case (Suc n)
  then obtain ev evs where q: "rn_events r = ev # evs" by (cases "rn_events r") auto
  let ?r1 = "update_indices ev ((snd (runner_now r))\<lparr>rn_events := evs\<rparr>)"
  have r1: "rn_events ?r1 = evs" "ss_events (rn_session ?r1) = ss_events (rn_session r)"
    by (simp_all add: runner_now_def monotonic_ns_def with_session_def Let_def case_prod_beta)
  show ?case
  proof (cases "satisfies exp ev")
    case True
    then have "match_loop (Suc n) exp t r = match_loop n exp t ?r1"
      by (simp add: wait_for_event_queued [OF q] event_matches_iff)
    moreover have "n \<le> length (rn_events ?r1)" using Suc.prems q r1 by simp
    ultimately show ?thesis using Suc.IH [of ?r1] True q r1 by auto
  next
    case False
    then show ?thesis by (simp add: wait_for_event_queued [OF q] event_matches_iff q r1)
  qed
qed simp

section \<open>Properties\<close>

text \<open>
  C40: A cancel by order id does not return when events are waiting: the loop that drains the
  queue first puts every event back, so it ends only on an empty queue or, by its bound, on one
  of more than 1024 events.
\<close>

theorem cancel_by_id_returns_iff:
  "run_cancel_id s token_ref r = None \<longleftrightarrow> rn_events r \<noteq> [] \<and> length (rn_events r) \<le> 1024"
proof
  assume "run_cancel_id s token_ref r = None"
  then have "drain_loop r = None" by (auto simp: run_cancel_id_def split: option.splits)
  then show "rn_events r \<noteq> [] \<and> length (rn_events r) \<le> 1024"
    using drain_loop_returns [of r] by (metis linorder_not_le option.distinct(1))
next
  assume "rn_events r \<noteq> [] \<and> length (rn_events r) \<le> 1024"
  then have "drain_loop r = None" using drain_loop_rotates [of r] by (cases "drain_loop r") auto
  then show "run_cancel_id s token_ref r = None" by (simp add: run_cancel_id_def)
qed

text \<open>
  An expectation on message events, when enough events are queued, passes exactly when each
  of the next \<open>occurrences\<close> events (at least one) has the expected type and every expected
  field. It consumes those events, or up to the first that does not match, and reads nothing
  from the network.
\<close>

lemma expectation_checks_queue:
  assumes "ex_msg exp \<notin> {''login_accepted'', ''login_rejected'', ''socket_closed'', ''server_heartbeat''}"
    "n = nat (max 1 (sint (ex_occurrences exp)))" "n \<le> length (rn_events r)"
  shows "\<exists>why r'. match_expectation exp t r
      = Some ((\<forall>ev \<in> set (take n (rn_events r)). satisfies exp ev, why), r')
    \<and> rn_events r' = drop (min n (Suc (length (takeWhile (satisfies exp) (rn_events r))))) (rn_events r)
    \<and> ss_events (rn_session r') = ss_events (rn_session r)"
  using match_loop_queued [OF assms(3), of exp t] assms(1,2)
  by (simp add: match_expectation_def Let_def)

text \<open>
  The order id a scenario cancels by token reference is the one of the acceptance it has just
  checked: after an expectation that consumed the acceptance, with nothing else queued, the
  cancel goes out for that acceptance's book, side and order id.
\<close>

lemma cancel_follows_acceptance:
  assumes "rn_events r = [EvAccepted m]" "satisfies exp (EvAccepted m)" "sint (ex_occurrences exp) \<le> 1"
    "ex_msg exp = ''order_accepted''"
  shows "\<exists>r1. match_expectation exp t r = Some ((True, []), r1)
    \<and> run_cancel_id s (trim_blanks (oa_order_token m)) r1
      = Some (client_step s (cancel_by_order_id (oa_order_book_id m) (side_from_wire (oa_side m)) (oa_order_id m)) r1)"
proof -
  let ?r1 = "update_indices (EvAccepted m) ((snd (runner_now r))\<lparr>rn_events := []\<rparr>)"
  have "nat (max 1 (sint (ex_occurrences exp))) = Suc 0" using assms(3) by simp
  then have "match_expectation exp t r = Some ((True, []), ?r1)"
    using assms by (simp add: match_expectation_def wait_for_event_queued event_matches_iff Let_def)
  moreover have "run_cancel_id s (trim_blanks (oa_order_token m)) ?r1
      = Some (client_step s (cancel_by_order_id (oa_order_book_id m) (side_from_wire (oa_side m)) (oa_order_id m)) ?r1)"
    by (simp add: run_cancel_id_def drain_loop_returns(1) update_indices_def)
  ultimately show ?thesis by blast
qed

text \<open>A replace is priced with three decimals whatever the instrument: the same text gives ten
  times the price it gave when the order was placed, if the instrument has two.\<close>

lemma replace_assumes_three_decimals:
  "find_by_symbol (rn_instruments r) [] = None \<Longrightarrow> replace_decimals a r = 3"
  "to_wire_price ''61.50'' 2 = Some 6150" "to_wire_price ''61.50'' 3 = Some 61500"
  by (simp add: replace_decimals_def, code_simp, code_simp)

text \<open>An expected server heartbeat is never looked for.\<close>

lemma heartbeat_always_expected:
  "ex_msg exp = ''server_heartbeat'' \<Longrightarrow> match_expectation exp t r = Some ((True, []), r)"
  by (simp add: match_expectation_def Let_def)

section \<open>Witnesses\<close>

definition sample_acceptance :: OrderAccepted where
  "sample_acceptance = zero_OrderAccepted\<lparr>oa_order_token := token_set (order_token_of ''7''), oa_side := CHR ''B'',
     oa_order_id := 99\<rparr>"

definition sample_runner :: runner where
  "sample_runner = (runner_init sample_client cache_empty None \<lparr>ck_now = 1, ck_later = []\<rparr>)
     \<lparr>rn_events := [EvAccepted sample_acceptance]\<rparr>"

definition sample_expect :: expect where
  "sample_expect = expect_default\<lparr>ex_msg := ''order_accepted'', ex_fields := [(''order_id'', ''99'')]\<rparr>"

lemma sample_satisfied: "satisfies sample_expect (EvAccepted sample_acceptance)"
proof -
  have "dec (unat (99 :: u64)) = ''99''" by code_simp
  then show ?thesis
    by (simp add: satisfies_def sample_expect_def expect_default_def accepted_field_def sample_acceptance_def)
qed

lemma sample_runner_simps:
  "ex_msg sample_expect = ''order_accepted''" "ex_occurrences sample_expect = 1"
  "rn_events sample_runner = [EvAccepted sample_acceptance]"
  by (simp_all add: sample_expect_def expect_default_def sample_runner_def)

definition sample_cancel :: step where
  "sample_cancel = \<lparr>st_id = 2, st_action = ''cancel_by_order_id'', st_args = CancelByOrderIdArgs ''7'', st_expect = None\<rparr>"

lemma sample_acceptance_simps:
  "trim_blanks (oa_order_token sample_acceptance) = ''7''" "oa_order_id sample_acceptance = 99"
  by (code_simp, simp add: sample_acceptance_def)

end
