(* ===== verification/Transport_Control.thy ===== *)
theory Transport_Control
  imports Runner Reconnect Sequence_Store
begin

text \<open>
  \<open>apps/bist_colo.cpp\<close>, the transport: dialling with retries, the login handshake, and the two
  transport controls that rebuild socket, session and client in the slots the runner's references
  point to. \<open>TcpSocket::connect\<close> is here too. The network is a script of what \<open>getaddrinfo\<close> and
  \<open>connect\<close> will answer; an answered connect brings the socket and the clock readings of the
  session built over it. Terminal output is left out.
\<close>

section \<open>Connecting\<close>

text \<open>What happens to one resolved address, with the \<open>strerror\<close> text of a failure.\<close>

datatype addr_answer = NoSocket string | Refused string | Connects tcp_socket clock

record net =
  nt_answers :: "(string + addr_answer list) list"
  nt_dialed :: "(string \<times> u16) list"

fun first_connected :: "string \<Rightarrow> addr_answer list \<Rightarrow> string + (tcp_socket \<times> clock)" where
  "first_connected errno_text [] = Inl errno_text"
| "first_connected errno_text (NoSocket e # as) = first_connected e as"
| "first_connected errno_text (Refused e # as) = first_connected e as"
| "first_connected errno_text (Connects k ck # as) = Inr (k, ck)"

text \<open>\<open>TcpSocket::connect\<close>; when the script is used up, names no longer resolve.\<close>

definition socket_connect :: "string \<Rightarrow> u16 \<Rightarrow> net \<Rightarrow> (tcp_socket \<times> clock) result \<times> net" where
  "socket_connect host port w =
     (let w1 = w\<lparr>nt_dialed := nt_dialed w @ [(host, port)]\<rparr>
      in case nt_answers w of
           [] \<Rightarrow> (Inl (make_error Io ''getaddrinfo: ''), w1)
         | Inl e # rest \<Rightarrow> (Inl (make_error Io (''getaddrinfo: '' @ e)), w1\<lparr>nt_answers := rest\<rparr>)
         | Inr as # rest \<Rightarrow>
             (case first_connected [] as of
                Inl e \<Rightarrow> Inl (make_error Io (''connect failed: '' @ e))
              | Inr kc \<Rightarrow> Inr kc, w1\<lparr>nt_answers := rest\<rparr>))"

text \<open>\<open>connect_with_retry\<close>: the attempt keeps the socket it connected.\<close>

definition connect_attempt ::
  "string \<Rightarrow> u16 \<Rightarrow> u32 \<Rightarrow> net \<times> (tcp_socket \<times> clock) option
    \<Rightarrow> unit result \<times> net \<times> (tcp_socket \<times> clock) option" where
  "connect_attempt host port attempt w =
     (case socket_connect host port (fst w) of
        (Inr kc, n1) \<Rightarrow> (Inr (), n1, Some kc)
      | (Inl e, n1) \<Rightarrow> (Inl e, n1, snd w))"

definition connect_with_retry ::
  "string \<Rightarrow> u16 \<Rightarrow> reconnect_policy \<Rightarrow> net \<Rightarrow> clock
    \<Rightarrow> ((tcp_socket \<times> clock) result \<times> reconnect_state \<times> net \<times> clock) option" where
  "connect_with_retry host port policy w ck =
     (case reconnect_with_deadline (connect_attempt host port) policy (w, None) ck of
        None \<Rightarrow> None
      | Some (Inl e, st, w1, ck1) \<Rightarrow> Some (Inl e, st, fst w1, ck1)
      | Some (Inr _, st, w1, ck1) \<Rightarrow> map_option (\<lambda>kc. (Inr kc, st, fst w1, ck1)) (snd w1))"

section \<open>The login handshake\<close>

partial_function (option) drive_loop :: "u64 \<Rightarrow> ouch_session \<Rightarrow> (unit result \<times> ouch_session) option" where
  "drive_loop deadline s =
     (if ss_state s \<noteq> LoggingIn then Some (Inr (), s)
      else case poll_io s of
        None \<Rightarrow> None
      | Some (res, s1) \<Rightarrow>
          (case res of
             Inl e \<Rightarrow> Some (Inl e, s1)
           | Inr _ \<Rightarrow>
               (let (now, s2) = monotonic_ns s1
                in if now > deadline then Some (Inl (make_error Timeout ''login timeout''), s2)
                   else drive_loop deadline s2)))"

definition drive_login :: "u64 \<Rightarrow> ouch_session \<Rightarrow> (unit result \<times> ouch_session) option" where
  "drive_login timeout_ns s =
     (case begin_login s of
        (Inl e, s1) \<Rightarrow> Some (Inl e, s1)
      | (Inr _, s1) \<Rightarrow>
          (let (now, s2) = monotonic_ns s1
           in case drive_loop (now + timeout_ns) s2 of
                None \<Rightarrow> None
              | Some (Inl e, s3) \<Rightarrow> Some (Inl e, s3)
              | Some (Inr _, s3) \<Rightarrow>
                  (if ss_state s3 \<noteq> Active then Some (Inl (make_error Reject ''login rejected''), s3)
                   else Some (Inr (), s3))))"

definition login_timeout_ns :: u64 where
  "login_timeout_ns = 5000000000"

section \<open>What survives a rebuild\<close>

record order_desk =
  od_tokens :: token_registry
  od_throttler :: throttler
  od_book :: order_book

definition desk_of :: "ouch_client \<Rightarrow> order_desk" where
  "desk_of c = \<lparr>od_tokens = oc_tokens c, od_throttler = oc_throttler c, od_book = oc_book c\<rparr>"

definition client_at :: "order_desk \<Rightarrow> ouch_session \<Rightarrow> ouch_client" where
  "client_at d s =
     \<lparr>oc_session = s, oc_tokens = od_tokens d, oc_throttler = od_throttler d, oc_book = od_book d\<rparr>"

definition override_login :: "login_params \<Rightarrow> string \<Rightarrow> string \<Rightarrow> u64 \<Rightarrow> login_params" where
  "override_login base password session sequence =
     \<lparr>lp_username = lp_username base,
      lp_password = (if password \<noteq> [] then password else lp_password base),
      lp_requested_session = (if session \<noteq> [] then session else lp_requested_session base),
      lp_requested_sequence = (if sequence \<noteq> 0 then sequence else lp_requested_sequence base)\<rparr>"

text \<open>The session events the handlers hand to the runner.\<close>

definition delivered :: "ouch_session \<Rightarrow> session_event list" where
  "delivered s = List.map_filter captured (ss_events s)"

text \<open>What the audit handler of the live program does with the cursor on every packet received, before
  the packet is dispatched: a throttled save of what it then reads of the session.\<close>

fun persist :: "event \<Rightarrow> sequence_store \<Rightarrow> sequence_store" where
  "persist (AuditRecv bytes session seq) st = snd (save_if_due session seq 100 100 st)"
| "persist _ st = st"

definition persist_all :: "event list \<Rightarrow> sequence_store \<Rightarrow> sequence_store" where
  "persist_all evs st = fold persist evs st"

section \<open>The mock transport\<close>

record mock_control =
  mc_port_primary :: u16
  mc_port_secondary :: u16
  mc_on_secondary :: bool
  mc_base_lp :: login_params
  mc_handlers :: handlers
  mc_net :: net

definition mc_active_port :: "mock_control \<Rightarrow> u16" where
  "mc_active_port m = (if mc_on_secondary m then mc_port_secondary m else mc_port_primary m)"

text \<open>The rebuild empties the slots first. The session it puts there is \<open>None\<close> while the slot is
  empty.\<close>

definition mock_rebuild ::
  "u16 \<Rightarrow> string \<Rightarrow> string \<Rightarrow> u64 \<Rightarrow> mock_control \<Rightarrow> (unit result \<times> ouch_session option \<times> mock_control) option" where
  "mock_rebuild port password session sequence m =
     (let (r, w1) = socket_connect ''127.0.0.1'' port (mc_net m);
          m1 = m\<lparr>mc_net := w1\<rparr>
      in case r of
           Inl e \<Rightarrow> Some (Inl e, None, m1)
         | Inr (k, ck) \<Rightarrow>
             map_option (\<lambda>(r2, s). (r2, Some s, m1))
               (drive_login login_timeout_ns
                 (session_init k (mc_handlers m) (override_login (mc_base_lp m) password session sequence)
                    kHeartbeatSendNs kHeartbeatTimeoutNs ck)))"

definition mock_reconnect_and_login ::
  "string \<Rightarrow> string \<Rightarrow> u64 \<Rightarrow> mock_control \<Rightarrow> (unit result \<times> ouch_session option \<times> mock_control) option" where
  "mock_reconnect_and_login password session sequence m =
     mock_rebuild (mc_active_port m) password session sequence m"

text \<open>The switch is refused, with the slots as they are, when there is no port: the session is then
  the one given.\<close>

definition mock_switch_to_secondary ::
  "bool \<Rightarrow> string \<Rightarrow> u64 \<Rightarrow> ouch_session option \<Rightarrow> mock_control
    \<Rightarrow> (unit result \<times> ouch_session option \<times> bool \<times> mock_control) option" where
  "mock_switch_to_secondary secondary session sequence slot m =
     (let m1 = m\<lparr>mc_on_secondary := secondary\<rparr>
      in if mc_active_port m1 = 0
         then Some (Inl (make_error Validation ''mock transport: no secondary port configured''), slot, False, m1)
         else map_option (\<lambda>(r, s, m2). (r, s, True, m2)) (mock_rebuild (mc_active_port m1) [] session sequence m1))"

definition mock_hard_disconnect :: "mock_control \<Rightarrow> unit result \<times> ouch_session option \<times> mock_control" where
  "mock_hard_disconnect m = (Inr (), None, m)"

section \<open>The live transport\<close>

text \<open>\<open>lc_handled\<close> counts the events of the session in the slot whose handlers have run on the store.\<close>

record live_control =
  lc_host_primary :: string
  lc_host_secondary :: string
  lc_port :: u16
  lc_on_secondary :: bool
  lc_base_lp :: login_params
  lc_hb_send_ns :: u32
  lc_handlers :: handlers
  lc_store :: sequence_store
  lc_handled :: nat
  lc_policy :: reconnect_policy
  lc_last_state :: reconnect_state
  lc_net :: net
  lc_clock :: clock

definition last_reconnect_was_cod_risk :: "live_control \<Rightarrow> bool" where
  "last_reconnect_was_cod_risk lc = rc_cod_risk (lc_last_state lc)"

definition last_reconnect_attempts :: "live_control \<Rightarrow> u32" where
  "last_reconnect_attempts lc = rc_attempts (lc_last_state lc)"

definition lc_active_host :: "live_control \<Rightarrow> string" where
  "lc_active_host lc = (if lc_on_secondary lc then lc_host_secondary lc else lc_host_primary lc)"

definition absorb :: "ouch_session \<Rightarrow> live_control \<Rightarrow> live_control" where
  "absorb s lc =
     lc\<lparr>lc_store := persist_all (drop (lc_handled lc) (ss_events s)) (lc_store lc),
        lc_handled := length (ss_events s)\<rparr>"

text \<open>The login's own packets reach the handler of the new session.\<close>

definition live_rebuild ::
  "string \<Rightarrow> string \<Rightarrow> string \<Rightarrow> u64 \<Rightarrow> live_control \<Rightarrow> (unit result \<times> ouch_session option \<times> live_control) option" where
  "live_rebuild host password session sequence lc =
     (case connect_with_retry host (lc_port lc) (lc_policy lc) (lc_net lc) (lc_clock lc) of
        None \<Rightarrow> None
      | Some (r, st, w1, ck1) \<Rightarrow>
          (let lc1 = lc\<lparr>lc_last_state := st, lc_net := w1, lc_clock := ck1\<rparr>
           in case r of
                Inl e \<Rightarrow> Some (Inl e, None, lc1)
              | Inr (k, ck) \<Rightarrow>
                  (case drive_login login_timeout_ns
                          (session_init k (lc_handlers lc)
                             (override_login (lc_base_lp lc) password session sequence)
                             (lc_hb_send_ns lc) kHeartbeatTimeoutNs ck) of
                     None \<Rightarrow> None
                   | Some (Inl e, s) \<Rightarrow> Some (Inl e, Some s, absorb s (lc1\<lparr>lc_handled := 0\<rparr>))
                   | Some (Inr _, s) \<Rightarrow>
                       (let lc2 = absorb s (lc1\<lparr>lc_handled := 0\<rparr>)
                        in Some (Inr (), Some s, lc2\<lparr>lc_store :=
                             snd (save (ss_assigned_session s) (ss_next_inbound_seq s) (lc_store lc2))\<rparr>)))))"

definition live_reconnect_and_login ::
  "string \<Rightarrow> string \<Rightarrow> u64 \<Rightarrow> live_control \<Rightarrow> (unit result \<times> ouch_session option \<times> live_control) option" where
  "live_reconnect_and_login password session sequence lc =
     live_rebuild (lc_active_host lc) password session sequence lc"

definition live_switch_to_secondary ::
  "bool \<Rightarrow> string \<Rightarrow> u64 \<Rightarrow> ouch_session option \<Rightarrow> live_control
    \<Rightarrow> (unit result \<times> ouch_session option \<times> bool \<times> live_control) option" where
  "live_switch_to_secondary secondary session sequence slot lc =
     (let lc1 = lc\<lparr>lc_on_secondary := secondary\<rparr>
      in if lc_active_host lc1 = []
         then Some (Inl (make_error Validation
                (''switch_to_secondary: '' @ (if secondary then ''host_secondary'' else ''host_primary'')
                 @ '' is empty in [ouch] config'')), slot, False, lc1)
         else map_option (\<lambda>(r, s, lc2). (r, s, True, lc2)) (live_rebuild (lc_active_host lc1) [] session sequence lc1))"

definition live_hard_disconnect :: "live_control \<Rightarrow> unit result \<times> ouch_session option \<times> live_control" where
  "live_hard_disconnect lc = (Inr (), None, lc)"

section \<open>As the runner sees them\<close>

text \<open>The client after a rebuild is built over the new session and what survived; the events of the
  login reach the runner's queue. A call that leaves the slots alone delivers nothing.\<close>

definition over_desk ::
  "ouch_client \<Rightarrow> unit result \<times> ouch_session option \<times> 's \<Rightarrow> unit result \<times> ouch_client option \<times> session_event list \<times> 's" where
  "over_desk c res =
     (case res of (r, slot, m) \<Rightarrow>
        (r, map_option (client_at (desk_of c)) slot, (case slot of None \<Rightarrow> [] | Some s \<Rightarrow> delivered s), m))"

definition over_switch ::
  "ouch_client \<Rightarrow> unit result \<times> ouch_session option \<times> bool \<times> 's
    \<Rightarrow> unit result \<times> ouch_client option \<times> session_event list \<times> 's" where
  "over_switch c res =
     (case res of (r, slot, rebuilt, m) \<Rightarrow>
        (if rebuilt then over_desk c (r, slot, m) else (r, Some c, [], m)))"

primcorec mock_transport :: "mock_control \<Rightarrow> transport" where
  "mock_transport m = Transport
     (\<lambda>password session sequence c.
        map_option (map_prod id (map_prod id (map_prod id mock_transport)))
          (map_option (over_desk c) (mock_reconnect_and_login password session sequence m)))
     (\<lambda>secondary session sequence c.
        map_option (map_prod id (map_prod id (map_prod id mock_transport)))
          (map_option (over_switch c)
            (mock_switch_to_secondary secondary session sequence (Some (oc_session c)) m)))
     (\<lambda>s. None)"

primcorec live_transport :: "live_control \<Rightarrow> transport" where
  "live_transport lc = Transport
     (\<lambda>password session sequence c.
        map_option (map_prod id (map_prod id (map_prod id live_transport)))
          (map_option (over_desk c)
            (live_reconnect_and_login password session sequence (absorb (oc_session c) lc))))
     (\<lambda>secondary session sequence c.
        map_option (map_prod id (map_prod id (map_prod id live_transport)))
          (map_option (over_switch c)
            (live_switch_to_secondary secondary session sequence (Some (oc_session c)) (absorb (oc_session c) lc))))
     (\<lambda>s. Some (lc_store (absorb s lc)))"

end
