(* ===== verification/Transport_Laws.thy ===== *)
theory Transport_Laws
  imports Transport_Control
begin

text \<open>
  What the transport of \<open>apps/bist_colo.cpp\<close> does: the handshake ends, a rebuild that succeeds puts
  an active session with the requested login into the slot, and one that cannot connect leaves the
  slot empty under a runner that looks at it.
\<close>

section \<open>A session's settings stay, its clock goes on\<close>

definition tick :: "clock \<Rightarrow> clock" where
  "tick c = snd (read_clock c)"

definition goes_on :: "ouch_session \<Rightarrow> ouch_session \<Rightarrow> bool" where
  "goes_on s s' \<longleftrightarrow>
     ss_login s' = ss_login s \<and> ss_handlers s' = ss_handlers s
     \<and> ss_heartbeat_send_ns s' = ss_heartbeat_send_ns s
     \<and> ss_heartbeat_timeout_ns s' = ss_heartbeat_timeout_ns s
     \<and> (\<exists>n. ss_clock s' = (tick ^^ n) (ss_clock s)) \<and> (\<exists>new. ss_events s' = ss_events s @ new)"

named_theorems goes_on

lemma goes_on_refl [simp, goes_on]: "goes_on s s"
  unfolding goes_on_def by (intro conjI exI [of _ "0 :: nat"] exI [of _ "[] :: event list"]) simp_all

lemma goes_on_trans:
  assumes "goes_on s s1" "goes_on s1 s2"
  shows "goes_on s s2"
proof -
  obtain n m where "ss_clock s1 = (tick ^^ n) (ss_clock s)" "ss_clock s2 = (tick ^^ m) (ss_clock s1)"
    using assms unfolding goes_on_def by blast
  then have "ss_clock s2 = (tick ^^ (m + n)) (ss_clock s)" by (simp add: funpow_add)
  moreover obtain new new' where "ss_events s1 = ss_events s @ new" "ss_events s2 = ss_events s1 @ new'"
    using assms unfolding goes_on_def by blast
  ultimately show ?thesis using assms unfolding goes_on_def
    by (intro conjI exI [of _ "m + n"] exI [of _ "new @ new'"]) simp_all
qed

lemma goes_on_fields [goes_on]:
  "goes_on s s1 \<Longrightarrow> goes_on s (s1\<lparr>ss_socket := k\<rparr>)"
  "goes_on s s1 \<Longrightarrow> goes_on s (s1\<lparr>ss_out_pending := p\<rparr>)"
  "goes_on s s1 \<Longrightarrow> goes_on s (s1\<lparr>ss_in_buffer := p\<rparr>)"
  "goes_on s s1 \<Longrightarrow> goes_on s (s1\<lparr>ss_state := st\<rparr>)"
  "goes_on s s1 \<Longrightarrow> goes_on s (s1\<lparr>ss_last_send_ns := t\<rparr>)"
  "goes_on s s1 \<Longrightarrow> goes_on s (s1\<lparr>ss_last_recv_ns := t\<rparr>)"
  "goes_on s s1 \<Longrightarrow> goes_on s (s1\<lparr>ss_msgs_sent := n\<rparr>)"
  "goes_on s s1 \<Longrightarrow> goes_on s (s1\<lparr>ss_msgs_recv := n\<rparr>)"
  "goes_on s s1 \<Longrightarrow> goes_on s (s1\<lparr>ss_next_inbound_seq := n\<rparr>)"
  "goes_on s s1 \<Longrightarrow> goes_on s (s1\<lparr>ss_assigned_session := a\<rparr>)"
  "goes_on s s1 \<Longrightarrow> goes_on s (s1\<lparr>ss_last_login_reject_reason := r\<rparr>)"
  "goes_on s s1 \<Longrightarrow> goes_on s (with_buffer b s1)"
  "goes_on s s1 \<Longrightarrow> goes_on s (emit h ev s1)"
  "goes_on s s1 \<Longrightarrow> goes_on s (set_state st d s1)"
  by (auto simp: goes_on_def with_buffer_def emit_def set_state_def)

lemma goes_on_monotonic: "goes_on s (snd (monotonic_ns s))"
  unfolding goes_on_def monotonic_ns_def
  by (intro conjI exI [of _ 1]) (simp_all add: case_prod_beta Let_def tick_def)

lemma goes_on_monotonic' [goes_on]: "goes_on s s1 \<Longrightarrow> goes_on s (snd (monotonic_ns s1))"
  using goes_on_trans goes_on_monotonic by blast

lemma goes_on_send_loop: "goes_on s (snd (send_loop rest s))"
proof -
  have "sent_part rest s (fst (send_loop rest s)) (snd (send_loop rest s))"
    by (rule send_loop_account) simp
  then obtain k p where s': "snd (send_loop rest s) = s\<lparr>ss_socket := k, ss_out_pending := p\<rparr>"
    unfolding sent_part_def by blast
  show ?thesis unfolding s' by (intro goes_on)
qed

lemma goes_on_write: "goes_on s (snd (write_bytes buf s))"
proof -
  have "snd (write_bytes buf s) = snd (send_loop buf s)
      \<or> (\<exists>t. snd (write_bytes buf s) =
          (let s3 = emit on_audit_sent (AuditSent buf (ss_msgs_sent s)) ((snd (monotonic_ns (snd (send_loop buf s))))\<lparr>ss_last_send_ns := t\<rparr>)
           in s3\<lparr>ss_msgs_sent := ss_msgs_sent s3 + 1\<rparr>))"
    by (auto simp: write_bytes_def Let_def case_prod_beta split: sum.split bool.split)
  then show ?thesis using goes_on_send_loop by (auto simp: Let_def intro!: goes_on)
qed

lemma goes_on_begin_login: "goes_on s (snd (begin_login s))"
  using goes_on_trans [OF goes_on_fields(14) [OF goes_on_refl] goes_on_write] by (simp add: begin_login_def)

lemma goes_on_read_some: "goes_on s (snd (read_some s))"
proof (induction s rule: read_some.induct)
  case (1 s)
  show ?case
  proof (cases "sk_open (ss_socket s)")
    case True
    obtain r k where recv: "socket_recv 8192 (ss_socket s) = (r, k)" by fastforce
    show ?thesis
    proof (cases r)
      case (Inl e)
      then show ?thesis using True recv by (auto simp: read_some.simps [of s] Let_def intro!: goes_on)
    next
      case (Inr bs)
      show ?thesis
      proof (cases "bs = []")
        case True
        then show ?thesis using Inr \<open>sk_open (ss_socket s)\<close> recv
          by (auto simp: read_some.simps [of s] intro!: goes_on)
      next
        case False
        let ?m = "monotonic_ns (s\<lparr>ss_socket := k, ss_in_buffer := ss_in_buffer s @ bs\<rparr>)"
        let ?s1 = "(snd ?m)\<lparr>ss_last_recv_ns := fst ?m\<rparr>"
        have rest: "goes_on ?s1 (snd (read_some ?s1))"
          using "1.IH" [OF _ recv [symmetric] Inr False refl] True by (simp add: case_prod_beta)
        have first: "goes_on s ?s1" by (intro goes_on goes_on_refl)
        have eq: "read_some s = read_some ?s1"
          using True recv Inr False by (simp add: read_some.simps [of s] case_prod_beta Let_def)
        show ?thesis unfolding eq by (rule goes_on_trans [OF first rest])
      qed
    qed
  qed (simp add: read_some.simps [of s])
qed

lemma goes_on_dispatch_msg:
  "dispatch_msg sz h ev ty p n s = Some (r, s') \<Longrightarrow> goes_on s s'"
  by (auto simp: dispatch_msg_def split: if_splits intro: goes_on)

lemma goes_on_dispatch_ouch:
  assumes "dispatch_ouch p n s = Some (r, s')"
  shows "goes_on s s'"
  using assms unfolding dispatch_ouch_def Let_def
  by (elim if_SomeE) (auto split: option.splits elim!: if_SomeE dest: goes_on_dispatch_msg)

lemma goes_on_dispatch:
  assumes "dispatch_packet ty p n s = Some (r, s')"
  shows "goes_on s s'"
proof -
  let ?s = "s\<lparr>ss_msgs_recv := ss_msgs_recv s + 1\<rparr>"
  have ouch: "goes_on s s'" if "dispatch_ouch p n (?s\<lparr>ss_next_inbound_seq := q\<rparr>) = Some (r, s')" for q
    by (rule goes_on_trans [OF _ goes_on_dispatch_ouch [OF that]]) (intro goes_on goes_on_refl)
  have acc: "goes_on s s'" if "login_accepted p ?s = Some (r, s')"
    using that by (auto simp: login_accepted_def split: option.splits intro!: goes_on)
  have rej: "goes_on s s'" if "login_rejected p n ?s = Some (r, s')"
    using that by (auto simp: login_rejected_def split: if_splits intro!: goes_on)
  show ?thesis using assms ouch acc rej
    unfolding dispatch_packet_def Let_def by (auto split: if_splits intro!: goes_on)
qed

lemma goes_on_parse_pending:
  "parse_pending s = Some (r, s') \<Longrightarrow> goes_on s s'"
proof (induction s rule: parse_pending.induct)
  case (1 s)
  let ?b = "ss_in_buffer s"
  show ?case
  proof (cases "length ?b < 3 \<or> length ?b < front_size ?b")
    case True
    then show ?thesis using "1.prems" by (simp add: parse_pending_short)
  next
    case False
    then have short: "\<not> length ?b < 3" "\<not> length ?b < front_size ?b" by auto
    let ?s = "emit on_audit_recv (AuditRecv (take (front_size ?b) ?b) (ss_assigned_session s) (ss_next_inbound_seq s)) s"
    obtain res s1 where d: "dispatch_packet (hd_packet_type (front_header ?b)) (drop 3 ?b)
        (payload_size (front_size ?b)) ?s = Some (res, s1)"
      using "1.prems" short by (auto simp: parse_pending.simps [of s] Let_def split: option.splits)
    have first: "goes_on s s1"
      by (rule goes_on_trans [OF goes_on_fields(13) [OF goes_on_refl] goes_on_dispatch [OF d]])
    show ?thesis
    proof (cases res)
      case (Inl e)
      then show ?thesis using "1.prems" short d first
        by (auto simp: parse_pending.simps [of s] Let_def intro: goes_on)
    next
      case (Inr u)
      let ?s2 = "with_buffer (drop (front_size ?b) (ss_in_buffer s1)) s1"
      have next_one: "parse_pending ?s2 = Some (r, s')"
        using "1.prems" short d Inr by (simp add: parse_pending.simps [of s] Let_def)
      have "goes_on ?s2 s'"
        using "1.IH" [OF short(1) refl refl short(2) d _ _ next_one] Inr by simp
      then show ?thesis using goes_on_trans [OF goes_on_fields(12) [OF first]] by blast
    qed
  qed
qed

lemma goes_on_flush: "goes_on s (flush_pending s)"
proof (induction s rule: flush_pending.induct)
  case (1 s)
  obtain r k where send: "socket_send (ss_out_pending s) (ss_socket s) = (r, k)" by fastforce
  show ?case
  proof (cases "ss_out_pending s = [] \<or> \<not> result_ok r \<or> r = Inr 0")
    case True
    then show ?thesis using send
      by (auto simp: flush_pending.simps [of s] result_ok_def split: sum.splits intro: goes_on)
  next
    case False
    then obtain n where n: "r = Inr n" "n \<noteq> 0" "ss_out_pending s \<noteq> []"
      by (auto simp: result_ok_def split: sum.splits)
    let ?s1 = "s\<lparr>ss_socket := k, ss_out_pending := drop n (ss_out_pending s)\<rparr>"
    have eq: "flush_pending s = flush_pending ?s1" using send n by (simp add: flush_pending.simps [of s])
    have first: "goes_on s ?s1" by (intro goes_on goes_on_refl)
    have rest: "goes_on ?s1 (flush_pending ?s1)"
      using "1.IH" [OF n(3) send [symmetric] n(1,2)] by simp
    show ?thesis unfolding eq by (rule goes_on_trans [OF first rest])
  qed
qed

lemma goes_on_tick_timers: "goes_on s (snd (tick_timers s))"
proof -
  have dog: "goes_on a (snd (watchdog now b))" if "goes_on a b" for a b now
    using that by (auto simp: watchdog_def intro: goes_on)
  let ?f = "flush_pending s"
  have "goes_on s (snd (monotonic_ns ?f))"
    by (rule goes_on_trans [OF goes_on_flush goes_on_monotonic])
  moreover from goes_on_trans [OF this goes_on_write]
  have "goes_on s (snd (write_bytes b (snd (monotonic_ns ?f))))" for b .
  ultimately show ?thesis using goes_on_flush [of s] dog
    by (auto simp: tick_timers_def Let_def case_prod_beta split: sum.splits)
qed

lemma goes_on_poll:
  assumes "poll_io s = Some (r, s')"
  shows "goes_on s s'"
proof -
  obtain r1 s1 where read: "read_some s = (r1, s1)" by fastforce
  then have first: "goes_on s s1" using goes_on_read_some [of s] by simp
  show ?thesis
  proof (cases r1)
    case (Inl e)
    then show ?thesis using assms read first by (simp add: poll_io_def)
  next
    case (Inr u)
    then obtain r2 s2 where parse: "parse_pending s1 = Some (r2, s2)"
      and res: "(case r2 of Inl e \<Rightarrow> (Inl e, s2) | Inr _ \<Rightarrow> tick_timers s2) = (r, s')"
      using assms read by (auto simp: poll_io_def split: option.splits sum.splits)
    note second = goes_on_trans [OF first goes_on_parse_pending [OF parse]]
    have "goes_on s s'" if "tick_timers s2 = (r, s')"
      using goes_on_trans [OF second goes_on_tick_timers] that by simp
    then show ?thesis using res second by (cases r2) auto
  qed
qed

section \<open>The handshake\<close>

lemma tick_last: "last_reading (tick c) = last_reading c"
  by (simp add: tick_def read_clock_def split: list.split)

lemma tick_later: "ck_later (tick c) = tl (ck_later c)"
  by (simp add: tick_def read_clock_def split: list.split)

lemma ticks_last: "last_reading ((tick ^^ n) c) = last_reading c"
  by (induction n) (simp_all only: funpow.simps comp_apply tick_last id_apply)

lemma ticks_later: "length (ck_later ((tick ^^ n) c)) \<le> length (ck_later c)"
  by (induction n) (auto simp: tick_later)

lemma goes_on_clock:
  assumes "goes_on s s'"
  shows "last_reading (ss_clock s') = last_reading (ss_clock s)"
    "length (ck_later (ss_clock s')) \<le> length (ck_later (ss_clock s))"
  using assms ticks_last ticks_later unfolding goes_on_def by metis+

lemma session_reach_trans: "session_reach b c \<Longrightarrow> session_reach a b \<Longrightarrow> session_reach a c"
  by (induction rule: session_reach.induct) (auto intro: session_reach.intros)

lemma reach_poll: "poll_io s = Some (r, s1) \<Longrightarrow> session_reach s s1"
  by (auto intro: session_reach.intros session_step.intros)

lemma reach_clock: "session_reach s (snd (monotonic_ns s))"
proof -
  have "snd (monotonic_ns s) = s\<lparr>ss_socket := ss_socket s, ss_clock := snd (read_clock (ss_clock s))\<rparr>"
    by (simp add: monotonic_ns_def case_prod_beta Let_def)
  then show ?thesis by (metis session_reach.intros session_step.environment)
qed

lemma drive_loop_ends:
  assumes "deadline < last_reading (ss_clock s)"
  shows "drive_loop deadline s \<noteq> None \<or> (\<exists>s'. session_reach s s' \<and> poll_io s' = None)"
  using assms
proof (induction "length (ck_later (ss_clock s))" arbitrary: s rule: less_induct)
  case less
  show ?case
  proof (cases "poll_io s")
    case None
    then show ?thesis by (auto intro: session_reach.intros)
  next
    case (Some res)
    obtain r s1 where poll: "poll_io s = Some (r, s1)" using Some by (cases res) simp
    obtain now s2 where clock: "monotonic_ns s1 = (now, s2)" by fastforce
    note on = goes_on_clock [OF goes_on_poll [OF poll]]
    show ?thesis
    proof (cases "ss_state s = LoggingIn \<and> result_ok r \<and> \<not> now > deadline")
      case False
      then show ?thesis using poll clock
        by (auto simp: drive_loop.simps [of deadline s] result_ok_def split: sum.splits)
    next
      case True
      have eq: "drive_loop deadline s = drive_loop deadline s2"
        using True poll clock by (auto simp: drive_loop.simps [of deadline s] result_ok_def split: sum.splits)
      have now: "now = ck_now (ss_clock s1)" and s2: "ss_clock s2 = tick (ss_clock s1)"
        using clock by (auto simp: monotonic_ns_def case_prod_beta Let_def tick_def)
      have later: "ck_later (ss_clock s1) \<noteq> []"
      proof
        assume "ck_later (ss_clock s1) = []"
        then have "now = last_reading (ss_clock s1)" using now by simp
        then show False using True on(1) less.prems by simp
      qed
      have less1: "length (ck_later (ss_clock s2)) < length (ck_later (ss_clock s))"
        using later on(2) unfolding s2 tick_later by (cases "ck_later (ss_clock s1)") auto
      have "deadline < last_reading (ss_clock s2)"
        unfolding s2 tick_last using on(1) less.prems by simp
      from less.hyps [OF less1 this]
      show ?thesis
      proof
        assume "\<exists>s'. session_reach s2 s' \<and> poll_io s' = None"
        then obtain s' where "session_reach s2 s'" "poll_io s' = None" by blast
        moreover have "session_reach s s2"
          using session_reach_trans [OF reach_clock reach_poll [OF poll]] clock by simp
        ultimately show ?thesis using session_reach_trans by blast
      qed (simp add: eq)
    qed
  qed
qed

text \<open>What a loop that ends has done.\<close>

lemma drive_loop_result:
  assumes "drive_loop deadline s = Some (r, s')"
  shows "goes_on s s' \<and> (r = Inr () \<longrightarrow> ss_state s' \<noteq> LoggingIn)"
proof -
  have "case (r, s') of (r, s') \<Rightarrow> goes_on s s' \<and> (r = Inr () \<longrightarrow> ss_state s' \<noteq> LoggingIn)"
  proof (rule drive_loop.raw_induct [where P = "\<lambda>_ s res. case res of (r, s') \<Rightarrow>
        goes_on s s' \<and> (r = Inr () \<longrightarrow> ss_state s' \<noteq> LoggingIn)", OF _ assms])
    fix drive :: "u64 \<Rightarrow> ouch_session \<Rightarrow> (unit result \<times> ouch_session) option" and d s res
    assume ih: "\<And>d x y. drive d x = Some y \<Longrightarrow>
        (case y of (r, s') \<Rightarrow> goes_on x s' \<and> (r = Inr () \<longrightarrow> ss_state s' \<noteq> LoggingIn))"
      and body: "(if ss_state s \<noteq> LoggingIn then Some (Inr (), s)
      else case poll_io s of
        None \<Rightarrow> None
      | Some (res, s1) \<Rightarrow>
          (case res of
             Inl e \<Rightarrow> Some (Inl e, s1)
           | Inr _ \<Rightarrow>
               (let (now, s2) = monotonic_ns s1
                in if now > d then Some (Inl (make_error Timeout ''login timeout''), s2)
                   else drive d s2))) = Some res"
    have clock: "goes_on s (snd (monotonic_ns s1))" if "poll_io s = Some (x, s1)" for x s1
      by (rule goes_on_trans [OF goes_on_poll [OF that] goes_on_monotonic])
    have again: "case res of (r, s') \<Rightarrow> goes_on s s' \<and> (r = Inr () \<longrightarrow> ss_state s' \<noteq> LoggingIn)"
      if "poll_io s = Some (x, s1)" "drive d (snd (monotonic_ns s1)) = Some res" for x s1
      using ih [OF that(2)] goes_on_trans [OF clock [OF that(1)]] by (cases res) auto
    show "case res of (r, s') \<Rightarrow> goes_on s s' \<and> (r = Inr () \<longrightarrow> ss_state s' \<noteq> LoggingIn)"
      using body clock again
      by (auto simp: case_prod_beta Let_def dest: goes_on_poll
          split: if_splits option.splits sum.splits)
  qed
  then show ?thesis by simp
qed

lemma drive_login_result:
  assumes "drive_login t s = Some (r, s')"
  shows "goes_on s s' \<and> (r = Inr () \<longrightarrow> ss_state s' = Active)"
proof -
  obtain rb sb where begin_res: "begin_login s = (rb, sb)" by fastforce
  have first: "goes_on s sb" using goes_on_begin_login [of s] begin_res by simp
  show ?thesis
  proof (cases rb)
    case (Inl e)
    then show ?thesis using assms begin_res first by (auto simp: drive_login_def)
  next
    case (Inr u)
    then obtain rl sl where loop: "drive_loop (fst (monotonic_ns sb) + t) (snd (monotonic_ns sb)) = Some (rl, sl)"
      and res: "(case rl of Inl e \<Rightarrow> (Inl e, sl)
        | Inr _ \<Rightarrow> if ss_state sl \<noteq> Active then (Inl (make_error Reject ''login rejected''), sl) else (Inr (), sl)) = (r, s')"
      using assms begin_res
      by (auto simp: drive_login_def case_prod_beta Let_def split: option.splits sum.splits if_splits)
    have "goes_on s sl"
      using goes_on_trans [OF first goes_on_trans [OF goes_on_monotonic]] drive_loop_result [OF loop] by blast
    then show ?thesis using res by (auto split: sum.splits if_splits)
  qed
qed

section \<open>Dialling\<close>

lemma attempt_loop_world:
  assumes "attempt_loop f p dl b st w c = Some (r, st', w', c')"
    "\<And>w. R w w" "\<And>a w w'. R (snd (f a w)) w' \<Longrightarrow> R w w'"
  shows "R w w'"
proof -
  have "f = f \<longrightarrow> (case (r, st', w', c') of (r, st', w', c') \<Rightarrow> R w w')"
  proof (rule attempt_loop.raw_induct [where P = "\<lambda>f' p dl b st w c res. f' = f \<longrightarrow>
        (case res of (r, st', w', c') \<Rightarrow> R w w')", OF _ assms(1)], rule impI)
    fix loop :: "(u32 \<Rightarrow> 'a \<Rightarrow> unit result \<times> 'a) \<Rightarrow> reconnect_policy \<Rightarrow> u64 \<Rightarrow> u32 \<Rightarrow> reconnect_state \<Rightarrow> 'a \<Rightarrow> clock
      \<Rightarrow> (unit result \<times> reconnect_state \<times> 'a \<times> clock) option"
      and f' p dl b st w c res
    assume ih: "\<And>f' p dl b st w c y. loop f' p dl b st w c = Some y \<Longrightarrow>
        f' = f \<longrightarrow> (case y of (r, st', w', c') \<Rightarrow> R w w')"
      and body: "(let st1 = st\<lparr>rc_attempts := rc_attempts st + 1\<rparr>; (r, w1) = f' (rc_attempts st1) w
      in case r of
           Inr _ \<Rightarrow> Some (Inr (), st1, w1, c)
         | Inl last_err \<Rightarrow>
             (let (now_ns, c1) = read_clock c
              in if now_ns \<ge> dl
                 then Some (Inl (deadline_error (rc_attempts st1) last_err),
                            st1\<lparr>rc_cod_risk := True\<rparr>, w1, c1)
                 else case sleep_before_retry b now_ns dl c1 of
                        None \<Rightarrow> None
                      | Some c2 \<Rightarrow> loop f' p dl (next_backoff p b) st1 w1 c2)) = Some res"
      and "f' = f"
    have one: "R w (snd (f a w))" for a using assms(2,3) by blast
    have more: "case res of (r, st', w', c') \<Rightarrow> R w w'" if "loop f' p dl b' st1 (snd (f a w)) c2 = Some res" for b' st1 a c2
      using ih [OF that] \<open>f' = f\<close> assms(3) by (cases res) auto
    show "case res of (r, st', w', c') \<Rightarrow> R w w'"
      using body one more \<open>f' = f\<close>
      by (auto simp: case_prod_beta Let_def split: sum.splits if_splits option.splits)
  qed
  then show ?thesis by simp
qed

lemma socket_connect_log: "nt_dialed (snd (socket_connect host port w)) = nt_dialed w @ [(host, port)]"
  by (simp add: socket_connect_def Let_def split: list.split sum.split)

lemma connect_attempt_log:
  "nt_dialed (fst (snd (connect_attempt host port a w))) = nt_dialed (fst w) @ [(host, port)]"
  using socket_connect_log [of host port "fst w"] by (auto simp: connect_attempt_def split: prod.split sum.split)

lemma connect_with_retry_log:
  assumes "connect_with_retry host port policy w ck = Some (r, st, w', ck')"
  shows "\<exists>n. nt_dialed w' = nt_dialed w @ replicate n (host, port)"
proof -
  obtain rl wl where loop: "reconnect_with_deadline (connect_attempt host port) policy (w, None) ck = Some (rl, st, wl, ck')"
    and w': "w' = fst wl"
    using assms by (auto simp: connect_with_retry_def split: option.splits sum.splits)
  let ?R = "\<lambda>(w :: net \<times> (tcp_socket \<times> clock) option) (w' :: net \<times> (tcp_socket \<times> clock) option). \<exists>n. nt_dialed (fst w') = nt_dialed (fst w) @ replicate n (host, port)"
  have "?R (w, None) wl"
  proof (rule attempt_loop_world [where R = ?R])
    show "attempt_loop (connect_attempt host port) policy (ck_now ck + ms_to_ns (rp_deadline_ms policy))
        (rp_initial_backoff_ms policy) \<lparr>rc_started_ns = ck_now ck, rc_attempts = 0, rc_cod_risk = False\<rparr>
        (w, None) (snd (read_clock ck)) = Some (rl, st, wl, ck')"
      using loop by (simp add: reconnect_with_deadline_def case_prod_beta Let_def)
    show "?R w w" for w by (intro exI [of _ 0]) simp
    show "?R w w'" if step: "?R (snd (connect_attempt host port a w)) w'" for a w w'
    proof -
      obtain n where "nt_dialed (fst w') = nt_dialed (fst (snd (connect_attempt host port a w))) @ replicate n (host, port)"
        using step by blast
      then have "nt_dialed (fst w') = nt_dialed (fst w) @ replicate (Suc n) (host, port)"
        by (simp add: connect_attempt_log)
      then show ?thesis by blast
    qed
  qed
  then show ?thesis by (simp add: w')
qed

text \<open>No address ever accepts a connection.\<close>

definition never_connects :: "net \<Rightarrow> bool" where
  "never_connects w \<longleftrightarrow>
     (\<forall>as. Inr as \<in> set (nt_answers w) \<longrightarrow> (\<forall>a \<in> set as. \<forall>k ck. a \<noteq> Connects k ck))"

lemma first_connected_none:
  "(\<forall>a \<in> set as. \<forall>k ck. a \<noteq> Connects k ck) \<Longrightarrow> \<exists>e. first_connected err as = Inl e"
proof (induction as arbitrary: err)
  case (Cons a as)
  then show ?case by (cases a) auto
qed simp

lemma never_connects_attempt:
  assumes "never_connects (fst w)"
  shows "\<not> result_ok (fst (connect_attempt host port a w))"
    "never_connects (fst (snd (connect_attempt host port a w)))"
proof -
  have "\<exists>e. fst (socket_connect host port (fst w)) = Inl e \<and> never_connects (snd (socket_connect host port (fst w)))"
  proof (cases "nt_answers (fst w)")
    case Nil
    then show ?thesis using assms by (simp add: socket_connect_def never_connects_def)
  next
    case (Cons ans rest)
    have rest: "\<forall>as. Inr as \<in> set rest \<longrightarrow> (\<forall>a \<in> set as. \<forall>k ck. a \<noteq> Connects k ck)"
      using assms Cons by (simp add: never_connects_def)
    show ?thesis
    proof (cases ans)
      case (Inl e)
      then show ?thesis using Cons rest by (simp add: socket_connect_def never_connects_def)
    next
      case (Inr as)
      then obtain e where "first_connected [] as = Inl e"
        using assms Cons first_connected_none [of as "[]"] by (auto simp: never_connects_def)
      then show ?thesis using Cons Inr rest by (simp add: socket_connect_def never_connects_def)
    qed
  qed
  then show "\<not> result_ok (fst (connect_attempt host port a w))"
    "never_connects (fst (snd (connect_attempt host port a w)))"
    by (auto simp: connect_attempt_def case_prod_beta result_ok_def split: sum.split)
qed

lemma never_connects_results:
  "never_connects (fst w) \<Longrightarrow> x \<in> set (attempt_results (connect_attempt host port) n a w) \<Longrightarrow> \<not> result_ok x"
proof (induction n arbitrary: a w)
  case (Suc n)
  note now = never_connects_attempt [OF Suc.prems(1), of host port a]
  show ?case using Suc.prems(2) now(1) Suc.IH [OF now(2), of "a + 1"] by auto
qed simp

lemma never_connects_fails:
  assumes "never_connects w" "ck_now ck + ms_to_ns (rp_deadline_ms policy) \<le> last_reading (snd (read_clock ck))"
  shows "\<exists>e st w' ck'. connect_with_retry host port policy w ck = Some (Inl e, st, w', ck')
    \<and> category e = Timeout \<and> rc_cod_risk st"
proof -
  let ?f = "connect_attempt host port" and ?w = "(w, None) :: net \<times> (tcp_socket \<times> clock) option"
  let ?st = "\<lparr>rc_started_ns = ck_now ck, rc_attempts = 0, rc_cod_risk = False\<rparr>"
  obtain n r st w' ck' where loop: "attempt_loop ?f policy (ck_now ck + ms_to_ns (rp_deadline_ms policy))
        (rp_initial_backoff_ms policy) ?st ?w (snd (read_clock ck)) = Some (r, st, w', ck')"
    and out: "loop_outcome ?f ?st ?w n r st"
    using attempt_loop_ends [OF assms(2), of ?f policy "rp_initial_backoff_ms policy" ?st ?w] by blast
  let ?rs = "attempt_results ?f n 1 ?w"
  have "n \<noteq> 0" using out by (simp add: loop_outcome_def Let_def)
  then have "?rs \<noteq> []" by (metis length_attempt_results length_0_conv)
  then have "\<not> result_ok (last ?rs)" using never_connects_results [of ?w] assms(1) last_in_set by (metis fst_conv)
  then obtain e where "last ?rs = Inl e" by (auto simp: result_ok_def split: sum.splits)
  then have "r = Inl (deadline_error (rc_attempts st) e)" "rc_cod_risk st"
    using out by (simp_all add: loop_outcome_def Let_def)
  moreover have "connect_with_retry host port policy w ck = Some (Inl x, st, fst w', ck')" if "r = Inl x" for x
    using loop that
    by (auto simp: connect_with_retry_def reconnect_with_deadline_def case_prod_beta Let_def)
  ultimately show ?thesis by (auto simp: deadline_error_def)
qed

section \<open>A login against the mock gateway\<close>

lemma read_one_chunk:
  assumes "sk_open (ss_socket s)" "sk_recvs (ss_socket s) = [Received bs]" "bs \<noteq> []" "length bs \<le> 8192"
    "ss_clock s = \<lparr>ck_now = t, ck_later = []\<rparr>"
  shows "read_some s = (Inr (), s\<lparr>ss_socket := (ss_socket s)\<lparr>sk_recvs := []\<rparr>,
    ss_in_buffer := ss_in_buffer s @ bs, ss_last_recv_ns := t\<rparr>)"
proof -
  obtain b cs where bs: "bs = b # cs" using assms(3) by (cases bs) auto
  have recv: "socket_recv 8192 (ss_socket s) = (Inr bs, (ss_socket s)\<lparr>sk_recvs := []\<rparr>)"
    using assms(1,2,4) unfolding bs by (simp add: socket_recv_def)
  let ?s1 = "s\<lparr>ss_socket := (ss_socket s)\<lparr>sk_recvs := []\<rparr>,
    ss_in_buffer := ss_in_buffer s @ bs, ss_last_recv_ns := t\<rparr>"
  have clock: "monotonic_ns (s\<lparr>ss_socket := (ss_socket s)\<lparr>sk_recvs := []\<rparr>, ss_in_buffer := ss_in_buffer s @ bs\<rparr>)
      = (t, s\<lparr>ss_socket := (ss_socket s)\<lparr>sk_recvs := []\<rparr>, ss_in_buffer := ss_in_buffer s @ bs\<rparr>)"
    using assms(5) by (simp add: monotonic_ns_def read_clock_def)
  have "read_some s = read_some ?s1"
    using assms(1,3) recv clock by (simp add: read_some.simps [of s])
  also have "\<dots> = (Inr (), ?s1)"
    using assms(1) by (simp add: read_some.simps [of ?s1] socket_recv_def)
  finally show ?thesis .
qed

text \<open>Timers of a session with nothing to flush and no time passed.\<close>

lemma timers_at_rest:
  assumes "ss_out_pending s = []" "ss_clock s = \<lparr>ck_now = t, ck_later = []\<rparr>" "ss_last_send_ns s = t"
    "ss_last_recv_ns s = t" "ss_heartbeat_send_ns s \<noteq> 0" "ss_heartbeat_timeout_ns s \<noteq> 0"
  shows "tick_timers s = (Inr (), s)"
proof -
  have ne: "(ucast x :: u64) \<noteq> 0" if "x \<noteq> 0" for x :: u32
    using that unat_bound_32 [of x]
    by (simp add: unsigned_ucast_eq word_unat_eq_iff take_bit_nat_eq_self)
  have "flush_pending s = s" using assms(1) by (simp add: flush_pending.simps)
  then show ?thesis using assms ne
    by (auto simp: tick_timers_def watchdog_def monotonic_ns_def read_clock_def)
qed

lemma absorb_simps [simp]:
  "lc_active_host (absorb s lc) = lc_active_host lc" "lc_port (absorb s lc) = lc_port lc"
  "lc_policy (absorb s lc) = lc_policy lc" "lc_net (absorb s lc) = lc_net lc" "lc_clock (absorb s lc) = lc_clock lc"
  by (simp_all add: absorb_def lc_active_host_def)

section \<open>Properties\<close>

text \<open>
  The login handshake ends: once the clock has passed the deadline, \<open>drive_login\<close> returns, with
  success only for an active session, or some poll on the way read outside the received bytes.
\<close>

lemma login_handshake_ends:
  assumes "ck_now (ss_clock (snd (begin_login s))) + t < last_reading (ss_clock s)"
  shows "(\<exists>r s'. drive_login t s = Some (r, s') \<and> (r = Inr () \<longrightarrow> ss_state s' = Active))
    \<or> (\<exists>s'. session_reach s s' \<and> poll_io s' = None)"
proof -
  obtain rb sb where begin_res: "begin_login s = (rb, sb)" by fastforce
  have first: "goes_on s sb" and reach: "session_reach s sb"
    using goes_on_begin_login [of s] begin_res
    by (auto intro: session_reach.intros session_step.login [of s, unfolded begin_res snd_conv])
  let ?d = "fst (monotonic_ns sb) + t" and ?s1 = "snd (monotonic_ns sb)"
  have "?d < last_reading (ss_clock ?s1)"
    using assms goes_on_clock(1) [OF first] goes_on_clock(1) [OF goes_on_monotonic [of sb]] begin_res
    by (simp add: monotonic_ns_def case_prod_beta Let_def)
  from drive_loop_ends [OF this] show ?thesis
  proof
    assume "drive_loop ?d ?s1 \<noteq> None"
    then have "drive_login t s \<noteq> None"
      using begin_res by (auto simp: drive_login_def case_prod_beta Let_def split: sum.splits option.splits)
    then show ?thesis using drive_login_result by fastforce
  next
    assume "\<exists>s'. session_reach ?s1 s' \<and> poll_io s' = None"
    then show ?thesis using session_reach_trans [OF _ session_reach_trans [OF reach_clock reach]] by blast
  qed
qed

text \<open>
  What the live transport's \<open>reconnect_and_login\<close> leaves: only the active host and port were
  dialled; a session in the slot has the configured heartbeat and the base login with the
  non-empty overrides; a success means it is active. The cursor store sees nothing without a session,
  else what the handler saved on each packet of the login and, after a success, the new cursor.
\<close>

lemma live_reconnect_outcome:
  assumes "live_reconnect_and_login password session sequence lc = Some (r, slot, lc')"
  shows "(\<exists>n. nt_dialed (lc_net lc') = nt_dialed (lc_net lc) @ replicate n (lc_active_host lc, lc_port lc))
    \<and> (slot = None \<longrightarrow> r \<noteq> Inr ())
    \<and> (\<forall>s. slot = Some s \<longrightarrow>
         ss_login s = override_login (lc_base_lp lc) password session sequence
         \<and> ss_heartbeat_send_ns s = lc_hb_send_ns lc
         \<and> (r = Inr () \<longrightarrow> ss_state s = Active)
         \<and> lc_store lc' = (let st = persist_all (ss_events s) (lc_store lc)
              in if r = Inr () then snd (save (ss_assigned_session s) (ss_next_inbound_seq s) st) else st))
    \<and> (slot = None \<longrightarrow> lc_store lc' = lc_store lc)"
proof -
  obtain rc st w1 ck1 where conn: "connect_with_retry (lc_active_host lc) (lc_port lc) (lc_policy lc) (lc_net lc)
      (lc_clock lc) = Some (rc, st, w1, ck1)"
    using assms by (auto simp: live_reconnect_and_login_def live_rebuild_def split: option.splits)
  note log = connect_with_retry_log [OF conn]
  show ?thesis
  proof (cases rc)
    case (Inl e)
    then show ?thesis using assms conn log
      by (auto simp: live_reconnect_and_login_def live_rebuild_def Let_def)
  next
    case (Inr kc)
    let ?s0 = "session_init (fst kc) (lc_handlers lc) (override_login (lc_base_lp lc) password session sequence)
        (lc_hb_send_ns lc) kHeartbeatTimeoutNs (snd kc)"
    obtain rl sl where login: "drive_login login_timeout_ns ?s0 = Some (rl, sl)"
      using assms conn Inr
      by (auto simp: live_reconnect_and_login_def live_rebuild_def Let_def case_prod_beta split: option.splits)
    from drive_login_result [OF login] have "goes_on ?s0 sl" "rl = Inr () \<longrightarrow> ss_state sl = Active" by blast+
    then show ?thesis using assms conn Inr login log
      by (auto simp: live_reconnect_and_login_def live_rebuild_def Let_def case_prod_beta goes_on_def session_init_def
          absorb_def split: sum.splits)
  qed
qed

text \<open>
  C35: When no address accepts a connection before the reconnect deadline, the live transport reports a
  \<open>Timeout\<close> and leaves the session slot empty. The runner's login step then looks at the state of
  the session that was there: it has no defined behaviour.
\<close>

theorem failed_reconnect_leaves_no_session:
  assumes "never_connects (lc_net lc)"
    "ck_now (lc_clock lc) + ms_to_ns (rp_deadline_ms (lc_policy lc)) \<le> last_reading (snd (read_clock (lc_clock lc)))"
    "rn_transport r = Some (live_transport lc)"
    "ss_state (rn_session r) \<noteq> Active \<or> la_password a \<noteq> []"
  shows "(\<exists>e lc'. live_reconnect_and_login (la_password a) (la_session a) (la_sequence a) (absorb (rn_session r) lc)
        = Some (Inl e, None, lc')
      \<and> category e = Timeout \<and> last_reconnect_was_cod_risk lc')
    \<and> run_login s a r = None"
proof -
  obtain e st w' ck' where conn: "connect_with_retry (lc_active_host lc) (lc_port lc) (lc_policy lc) (lc_net lc)
      (lc_clock lc) = Some (Inl e, st, w', ck')" and e: "category e = Timeout" "rc_cod_risk st"
    using never_connects_fails [OF assms(1,2)] by blast
  let ?base = "absorb (rn_session r) lc"
  let ?lc = "?base\<lparr>lc_last_state := st, lc_net := w', lc_clock := ck'\<rparr>"
  have rec: "live_reconnect_and_login (la_password a) (la_session a) (la_sequence a) ?base = Some (Inl e, None, ?lc)"
    using conn by (simp add: live_reconnect_and_login_def live_rebuild_def Let_def)
  have "run_login s a r = None"
    using assms(3,4) rec by (auto simp: run_login_def over_desk_def live_transport.sel)
  with rec e show ?thesis by (auto simp: last_reconnect_was_cod_risk_def)
qed

section \<open>Witnesses\<close>

definition live_sample :: "(string + addr_answer list) list \<Rightarrow> live_control" where
  "live_sample answers =
     \<lparr>lc_host_primary = ''gw1'', lc_host_secondary = [], lc_port = 5000, lc_on_secondary = False,
      lc_base_lp = \<lparr>lp_username = ''U'', lp_password = ''P'', lp_requested_session = [], lp_requested_sequence = 0\<rparr>,
      lc_hb_send_ns = 800000000, lc_handlers = ss_handlers sample_session,
      lc_store = store_init ''s.seq'' \<lparr>dk_file = None, dk_tmp = None\<rparr> [] \<lparr>ck_now = 1, ck_later = []\<rparr>,
      lc_handled = 0,
      lc_policy = default_policy, lc_last_state = \<lparr>rc_started_ns = 0, rc_attempts = 0, rc_cod_risk = False\<rparr>,
      lc_net = \<lparr>nt_answers = answers, nt_dialed = []\<rparr>,
      lc_clock = \<lparr>ck_now = 0, ck_later = [40000000000]\<rparr>\<rparr>"

theorem failed_reconnect_leaves_no_session_witness:
  "run_login sample_cancel \<lparr>la_session = [], la_sequence = 0, la_password = ''new''\<rparr>
     (sample_runner\<lparr>rn_transport := Some (live_transport (live_sample []))\<rparr>) = None"
  using failed_reconnect_leaves_no_session [of "live_sample []" "sample_runner\<lparr>rn_transport := Some (live_transport (live_sample []))\<rparr>"
      "\<lparr>la_session = [], la_sequence = 0, la_password = ''new''\<rparr>" sample_cancel]
  by (simp add: live_sample_def never_connects_def read_clock_def default_policy_def ms_to_ns_def)

end
