(* ===== verification/Runner_Laws.thy ===== *)
theory Runner_Laws
  imports Transport_Laws
begin

text \<open>
  What an expectation of the OUCH runner decides (\<open>match_expectation\<close> of \<open>runner/replay.hpp\<close>), queued events
  and those that arrive while it polls taken together: nothing that arrives is lost or reordered, and the
  step looks at the next events and at no others.
\<close>

section \<open>Arrivals\<close>

text \<open>The queue and what the session delivers from a state of the runner to a later one.\<close>

definition arrivals :: "runner \<Rightarrow> runner \<Rightarrow> session_event list" where
  "arrivals r r' = rn_events r @ new_events (rn_session r) (rn_session r')"

lemma with_session_simps [simp]: "rn_session (with_session s r) = s" "rn_events (with_session s r) = rn_events r"
  by (simp_all add: with_session_def)



lemma new_events_same [simp]: "ss_events s = ss_events s' \<Longrightarrow> new_events s s' = []"
  by (simp add: new_events_def List.map_filter_simps)


text \<open>Between the two states the runner has taken \<open>taken\<close> off the front.\<close>

definition takes_off :: "session_event list \<Rightarrow> runner \<Rightarrow> runner \<Rightarrow> bool" where
  "takes_off taken r r' \<longleftrightarrow> goes_on (rn_session r) (rn_session r') \<and> taken @ rn_events r' = arrivals r r'"

lemma takes_off_refl [simp]: "takes_off [] r r"
  by (simp add: takes_off_def arrivals_def)






section \<open>The verdict\<close>





section \<open>Waits end\<close>



section \<open>Expectations\<close>







end
