(* ===== verification/Fix_Facade.thy ===== *)
theory Fix_Facade
  imports Instrument
begin

text \<open>
  \<open>include/bist/fix/facade.hpp\<close> and \<open>src/fix/facade_stub.cpp\<close>: the argument and event
  structures of the FIX side, and its clients as the rest of the program sees them. A client
  object is a record of its member functions; the objects they share with the engine's own
  thread are the world, of an arbitrary type \<open>'w\<close>. A call gives its result, the events whose
  callbacks were made before it returned, and the world afterwards; \<open>None\<close> when it leaves
  defined behaviour.
\<close>

section \<open>Configuration and order arguments\<close>

record initiator_config =
  ic_sender_comp_id :: string
  ic_target_comp_id :: string
  ic_host :: string
  ic_port :: u16
  ic_username :: string
  ic_password :: string
  ic_new_password :: string
  ic_heartbeat_secs :: i32
  ic_store_path :: string
  ic_log_path :: string
  ic_app_data_dictionary :: string
  ic_transport_data_dictionary :: string

definition initiator_config_default :: initiator_config where
  "initiator_config_default =
     \<lparr>ic_sender_comp_id = [], ic_target_comp_id = [], ic_host = [], ic_port = 0, ic_username = [],
      ic_password = [], ic_new_password = [], ic_heartbeat_secs = 30, ic_store_path = ''state/fix'',
      ic_log_path = ''log/fix'', ic_app_data_dictionary = [], ic_transport_data_dictionary = []\<rparr>"

datatype ord_type = Limit | Market | MarketToLimit | Imbalance | MidpointLimit | MidpointMarket

datatype fix_category = FixClient | FixHouse | FixFund | FixPortfolio

record oe_place_args =
  xp_cl_ord_id :: string
  xp_symbol :: string
  xp_side :: side
  xp_quantity :: quantity
  xp_price :: price_int
  xp_price_decimals :: i8
  xp_ord_type :: ord_type
  xp_tif :: time_in_force
  xp_category :: fix_category
  xp_account :: string
  xp_afk :: string
  xp_display_quantity :: quantity

definition oe_place_args_default :: oe_place_args where
  "oe_place_args_default =
     \<lparr>xp_cl_ord_id = [], xp_symbol = [], xp_side = Buy, xp_quantity = 0, xp_price = 0,
      xp_price_decimals = 3, xp_ord_type = Limit, xp_tif = Day, xp_category = FixClient,
      xp_account = [], xp_afk = [], xp_display_quantity = 0\<rparr>"

record oe_cancel_args =
  xc_cl_ord_id :: string
  xc_orig_cl_ord_id :: string
  xc_symbol :: string
  xc_side :: side
  xc_quantity :: quantity

record oe_replace_args =
  xr_cl_ord_id :: string
  xr_orig_cl_ord_id :: string
  xr_symbol :: string
  xr_side :: side
  xr_new_quantity :: quantity
  xr_new_price :: price_int
  xr_price_decimals :: i8
  xr_ord_type :: ord_type

record trade_report_args =
  xt_trade_report_id :: string
  xt_trade_report_ref_id :: string
  xt_symbol :: string
  xt_side :: side
  xt_quantity :: quantity
  xt_price :: price_int
  xt_price_decimals :: i8
  xt_counterparty_id :: string
  xt_two_party_internal :: bool

section \<open>Events\<close>

record execution_report_event =
  xe_cl_ord_id :: string
  xe_orig_cl_ord_id :: string
  xe_exec_id :: string
  xe_order_id :: string
  xe_symbol :: string
  xe_side :: side
  xe_exec_type :: char
  xe_ord_status :: char
  xe_leaves_qty :: quantity
  xe_cum_qty :: quantity
  xe_last_qty :: quantity
  xe_last_price :: price_int
  xe_price_decimals :: i8
  xe_text :: string

definition execution_report_default :: execution_report_event where
  "execution_report_default =
     \<lparr>xe_cl_ord_id = [], xe_orig_cl_ord_id = [], xe_exec_id = [], xe_order_id = [], xe_symbol = [],
      xe_side = Buy, xe_exec_type = CHR 0x00, xe_ord_status = CHR 0x00, xe_leaves_qty = 0,
      xe_cum_qty = 0, xe_last_qty = 0, xe_last_price = 0, xe_price_decimals = 3, xe_text = []\<rparr>"

record cancel_reject_event =
  cj_cl_ord_id :: string
  cj_orig_cl_ord_id :: string
  cj_text :: string

record trade_report_event =
  xv_trade_report_id :: string
  xv_trade_report_ref_id :: string
  xv_symbol :: string
  xv_side :: side
  xv_quantity :: quantity
  xv_price :: price_int
  xv_price_decimals :: i8
  xv_counterparty_id :: string

definition trade_report_default :: trade_report_event where
  "trade_report_default =
     \<lparr>xv_trade_report_id = [], xv_trade_report_ref_id = [], xv_symbol = [], xv_side = Buy,
      xv_quantity = 0, xv_price = 0, xv_price_decimals = 3, xv_counterparty_id = []\<rparr>"

record quote_status_event =
  xq_quote_id :: string
  xq_symbol :: string
  xq_side :: side
  xq_quote_status :: u32
  xq_leaves_qty :: quantity
  xq_price :: price_int
  xq_price_decimals :: i8

definition quote_status_default :: quote_status_event where
  "quote_status_default =
     \<lparr>xq_quote_id = [], xq_symbol = [], xq_side = Buy, xq_quote_status = 0, xq_leaves_qty = 0,
      xq_price = 0, xq_price_decimals = 3\<rparr>"

datatype fix_session_state =
  FixDisconnected | FixLoggingIn | FixActive | FixPasswordExpired | FixPasswordChanged
| FixLoggedOut | FixFailed

fun fix_session_state_code :: "fix_session_state \<Rightarrow> nat" where
  "fix_session_state_code FixDisconnected = 0"
| "fix_session_state_code FixLoggingIn = 1"
| "fix_session_state_code FixActive = 2"
| "fix_session_state_code FixPasswordExpired = 3"
| "fix_session_state_code FixPasswordChanged = 4"
| "fix_session_state_code FixLoggedOut = 5"
| "fix_session_state_code FixFailed = 6"

record logon_result =
  lr_state :: fix_session_state
  lr_session_status :: i32
  lr_detail :: string

text \<open>The acknowledgement of a reference data request is declared by the runner.\<close>

record amr_ack =
  am_ok :: bool
  am_detail :: string

datatype fix_event =
  FixSessionEv logon_result
| FixExecEv execution_report_event
| FixCancelRejectEv cancel_reject_event
| FixTradeEv trade_report_event
| FixQuoteEv quote_status_event
| FixAmrEv amr_ack

section \<open>Clients\<close>

type_synonym ('a, 'w) fix_call = "'w \<Rightarrow> ('a result \<times> fix_event list \<times> 'w) option"

record 'w oe_client =
  oe_place :: "oe_place_args \<Rightarrow> (string, 'w) fix_call"
  oe_cancel :: "oe_cancel_args \<Rightarrow> (string, 'w) fix_call"
  oe_replace :: "oe_replace_args \<Rightarrow> (string, 'w) fix_call"
  oe_trade_report :: "trade_report_args \<Rightarrow> (string, 'w) fix_call"
  oe_logout :: "(unit, 'w) fix_call"
  oe_login :: "(unit, 'w) fix_call"
  oe_state :: "'w \<Rightarrow> fix_session_state"

record 'w rd_client =
  rd_subscribe_all :: "string \<Rightarrow> (string, 'w) fix_call"
  rd_logout :: "(unit, 'w) fix_call"
  rd_login :: "(unit, 'w) fix_call"
  rd_state :: "'w \<Rightarrow> fix_session_state"

record 'w dc_client =
  dc_logout :: "(unit, 'w) fix_call"
  dc_login :: "(unit, 'w) fix_call"
  dc_state :: "'w \<Rightarrow> fix_session_state"

text \<open>The clients of a build without the FIX engine refuse everything; creating one is refused
  as well.\<close>

definition fix_disabled :: error where
  "fix_disabled = make_error Unsupported ''FIX disabled: rebuild with BIST_BUILD_FIX=ON''"

definition stub_call :: "('a, 'w) fix_call" where
  "stub_call w = Some (Inl fix_disabled, [], w)"

definition stub_oe :: "'w oe_client" where
  "stub_oe = \<lparr>oe_place = (\<lambda>_. stub_call), oe_cancel = (\<lambda>_. stub_call), oe_replace = (\<lambda>_. stub_call),
     oe_trade_report = (\<lambda>_. stub_call), oe_logout = stub_call, oe_login = stub_call,
     oe_state = (\<lambda>_. FixDisconnected)\<rparr>"

definition stub_rd :: "'w rd_client" where
  "stub_rd = \<lparr>rd_subscribe_all = (\<lambda>_. stub_call), rd_logout = stub_call, rd_login = stub_call,
     rd_state = (\<lambda>_. FixDisconnected)\<rparr>"

definition stub_dc :: "'w dc_client" where
  "stub_dc = \<lparr>dc_logout = stub_call, dc_login = stub_call, dc_state = (\<lambda>_. FixDisconnected)\<rparr>"

definition stub_create :: "'c result" where
  "stub_create = Inl fix_disabled"

end
