(* ===== verification/Fix_Fields.thy ===== *)
theory Fix_Fields
  imports Core_Types
begin

text \<open>
  The constants of \<open>include/bist/fix/fields.hpp\<close>: the tags of the fields the certification uses and the
  values BIST gives them. The engine's own field classes have the further tags of Fix_Message. The
  values of \<open>Side\<close> are with their conversions in Fix_Convert.
\<close>

section \<open>Constants\<close>

text \<open>Tags.\<close>

abbreviation (input) tag_Account :: int where "tag_Account \<equiv> 1"
abbreviation (input) tag_ClOrdID :: int where "tag_ClOrdID \<equiv> 11"
abbreviation (input) tag_HandlInst :: int where "tag_HandlInst \<equiv> 21"
abbreviation (input) tag_SecurityIDSource :: int where "tag_SecurityIDSource \<equiv> 22"
abbreviation (input) tag_MsgType :: int where "tag_MsgType \<equiv> 35"
abbreviation (input) tag_OrderID :: int where "tag_OrderID \<equiv> 37"
abbreviation (input) tag_OrderQty :: int where "tag_OrderQty \<equiv> 38"
abbreviation (input) tag_OrdStatus :: int where "tag_OrdStatus \<equiv> 39"
abbreviation (input) tag_OrdType :: int where "tag_OrdType \<equiv> 40"
abbreviation (input) tag_OrigClOrdID :: int where "tag_OrigClOrdID \<equiv> 41"
abbreviation (input) tag_Price :: int where "tag_Price \<equiv> 44"
abbreviation (input) tag_SecurityID :: int where "tag_SecurityID \<equiv> 48"
abbreviation (input) tag_Side :: int where "tag_Side \<equiv> 54"
abbreviation (input) tag_Symbol :: int where "tag_Symbol \<equiv> 55"
abbreviation (input) tag_TimeInForce :: int where "tag_TimeInForce \<equiv> 59"
abbreviation (input) tag_TransactTime :: int where "tag_TransactTime \<equiv> 60"
abbreviation (input) tag_SettlmntTyp :: int where "tag_SettlmntTyp \<equiv> 63"
abbreviation (input) tag_ExecType :: int where "tag_ExecType \<equiv> 150"
abbreviation (input) tag_LeavesQty :: int where "tag_LeavesQty \<equiv> 151"
abbreviation (input) tag_MaxFloor :: int where "tag_MaxFloor \<equiv> 111"
abbreviation (input) tag_DisplayQty :: int where "tag_DisplayQty \<equiv> 1138"
abbreviation (input) tag_NoPartyIDs :: int where "tag_NoPartyIDs \<equiv> 453"
abbreviation (input) tag_PartyID :: int where "tag_PartyID \<equiv> 448"
abbreviation (input) tag_PartyIDSource :: int where "tag_PartyIDSource \<equiv> 447"
abbreviation (input) tag_PartyRole :: int where "tag_PartyRole \<equiv> 452"
abbreviation (input) tag_Username :: int where "tag_Username \<equiv> 553"
abbreviation (input) tag_Password :: int where "tag_Password \<equiv> 554"
abbreviation (input) tag_NewPassword :: int where "tag_NewPassword \<equiv> 925"
abbreviation (input) tag_SessionStatus :: int where "tag_SessionStatus \<equiv> 1409"
abbreviation (input) tag_ApplReqID :: int where "tag_ApplReqID \<equiv> 1346"
abbreviation (input) tag_ApplReqType :: int where "tag_ApplReqType \<equiv> 1347"
abbreviation (input) tag_ApplResponseError :: int where "tag_ApplResponseError \<equiv> 1354"
abbreviation (input) tag_TradeReportID :: int where "tag_TradeReportID \<equiv> 571"
abbreviation (input) tag_TradeReportRefID :: int where "tag_TradeReportRefID \<equiv> 572"
abbreviation (input) tag_TrdType :: int where "tag_TrdType \<equiv> 828"

text \<open>\<open>OrdType\<close>.\<close>

abbreviation (input) ord_Market :: char where "ord_Market \<equiv> CHR ''1''"
abbreviation (input) ord_Limit :: char where "ord_Limit \<equiv> CHR ''2''"
abbreviation (input) ord_Stop :: char where "ord_Stop \<equiv> CHR ''3''"
abbreviation (input) ord_StopLimit :: char where "ord_StopLimit \<equiv> CHR ''4''"
abbreviation (input) ord_MarketWithLeftover :: char where "ord_MarketWithLeftover \<equiv> CHR ''K''"
abbreviation (input) ord_Imbalance :: char where "ord_Imbalance \<equiv> CHR ''M''"
abbreviation (input) ord_MidpointLimit :: char where "ord_MidpointLimit \<equiv> CHR ''P''"
abbreviation (input) ord_MidpointMarket :: char where "ord_MidpointMarket \<equiv> CHR ''Q''"

text \<open>\<open>TimeInForce\<close>.\<close>

abbreviation (input) tif_Day :: char where "tif_Day \<equiv> CHR ''0''"
abbreviation (input) tif_GoodTillCancel :: char where "tif_GoodTillCancel \<equiv> CHR ''1''"
abbreviation (input) tif_ImmediateOrCancel :: char where "tif_ImmediateOrCancel \<equiv> CHR ''3''"
abbreviation (input) tif_FillOrKill :: char where "tif_FillOrKill \<equiv> CHR ''4''"

text \<open>\<open>SessionStatus\<close>.\<close>

abbreviation (input) status_Active :: int where "status_Active \<equiv> 0"
abbreviation (input) status_PasswordChanged :: int where "status_PasswordChanged \<equiv> 1"
abbreviation (input) status_PasswordExpiring :: int where "status_PasswordExpiring \<equiv> 2"
abbreviation (input) status_NewSessionPasswordDoesNotComply :: int where "status_NewSessionPasswordDoesNotComply \<equiv> 3"
abbreviation (input) status_LogoutComplete :: int where "status_LogoutComplete \<equiv> 4"
abbreviation (input) status_InvalidUsernameOrPassword :: int where "status_InvalidUsernameOrPassword \<equiv> 5"
abbreviation (input) status_AccountLocked :: int where "status_AccountLocked \<equiv> 6"
abbreviation (input) status_LogonsNotAllowedAtThisTime :: int where "status_LogonsNotAllowedAtThisTime \<equiv> 7"
abbreviation (input) status_PasswordExpired :: int where "status_PasswordExpired \<equiv> 8"

text \<open>\<open>PartyRole\<close>; 76 carries the agency or fund code.\<close>

abbreviation (input) role_ExecutingFirm :: int where "role_ExecutingFirm \<equiv> 1"
abbreviation (input) role_OrderOriginationTrader :: int where "role_OrderOriginationTrader \<equiv> 11"
abbreviation (input) role_DeskID :: int where "role_DeskID \<equiv> 76"

text \<open>\<open>PartyIDSource\<close>.\<close>

abbreviation (input) party_Proprietary :: char where "party_Proprietary \<equiv> CHR ''D''"

text \<open>Agency and fund codes.\<close>

abbreviation (input) afk_Fund :: string where "afk_Fund \<equiv> ''XRM''"
abbreviation (input) afk_MmClient :: string where "afk_MmClient \<equiv> ''PYM''"
abbreviation (input) afk_MmHouse :: string where "afk_MmHouse \<equiv> ''PYP''"

text \<open>\<open>ApplReqType\<close>.\<close>

abbreviation (input) request_Subscribe :: int where "request_Subscribe \<equiv> 0"
abbreviation (input) request_Unsubscribe :: int where "request_Unsubscribe \<equiv> 1"
abbreviation (input) request_RetransmitMessages :: int where "request_RetransmitMessages \<equiv> 2"
abbreviation (input) request_RequestAndSubscribe :: int where "request_RequestAndSubscribe \<equiv> 3"

text \<open>\<open>core/types.hpp\<close> has the codes again, for the fields of OUCH.\<close>

abbreviation (input) ouch_afk_Fund :: string where "ouch_afk_Fund \<equiv> ''XRM''"
abbreviation (input) ouch_afk_MmClient :: string where "ouch_afk_MmClient \<equiv> ''PYM''"
abbreviation (input) ouch_afk_MmHouse :: string where "ouch_afk_MmHouse \<equiv> ''PYP''"

lemma afk_codes_agree:
  "ouch_afk_Fund = afk_Fund" "ouch_afk_MmClient = afk_MmClient" "ouch_afk_MmHouse = afk_MmHouse"
  by simp_all

section \<open>No two of a kind agree\<close>

lemma tags_distinct:
  "distinct [tag_Account, tag_ClOrdID, tag_HandlInst, tag_SecurityIDSource, tag_MsgType, tag_OrderID,
    tag_OrderQty, tag_OrdStatus, tag_OrdType, tag_OrigClOrdID, tag_Price, tag_SecurityID, tag_Side, tag_Symbol,
    tag_TimeInForce, tag_TransactTime, tag_SettlmntTyp, tag_ExecType, tag_LeavesQty, tag_MaxFloor, tag_DisplayQty,
    tag_NoPartyIDs, tag_PartyID, tag_PartyIDSource, tag_PartyRole, tag_Username, tag_Password, tag_NewPassword,
    tag_SessionStatus, tag_ApplReqID, tag_ApplReqType, tag_ApplResponseError, tag_TradeReportID,
    tag_TradeReportRefID, tag_TrdType]"
  by simp

lemma status_values_distinct:
  "distinct [ord_Market, ord_Limit, ord_Stop, ord_StopLimit, ord_MarketWithLeftover, ord_Imbalance,
    ord_MidpointLimit, ord_MidpointMarket]"
  "distinct [status_Active, status_PasswordChanged, status_PasswordExpiring,
    status_NewSessionPasswordDoesNotComply, status_LogoutComplete, status_InvalidUsernameOrPassword,
    status_AccountLocked, status_LogonsNotAllowedAtThisTime, status_PasswordExpired]"
  by simp_all

end
