(* ===== verification/Fix_Convert.thy ===== *)
theory Fix_Convert
  imports Fix_Facade Fix_Fields Complex_Main "HOL-Library.Log_Nat"
begin

text \<open>
  \<open>src/fix/internal/converters.hpp\<close> with the values of \<open>Side\<close> in \<open>include/bist/fix/fields.hpp\<close>.
  A \<open>double\<close> is the rational number it stands for; an operation on doubles is the exact one
  followed by rounding to 53 significant bits, ties to even. The numbers here stay far from the
  ends of the exponent range. A conversion to an integer type that does not hold the value is
  undefined: \<open>None\<close>.
\<close>

section \<open>Doubles\<close>

definition half_even :: "rat \<Rightarrow> int" where
  "half_even y =
     (let f = \<lfloor>y\<rfloor>; r = y - of_int f
      in if r < 1/2 then f else if r > 1/2 then f + 1 else if even f then f else f + 1)"

text \<open>The exponent of the last of the 53 bits.\<close>

definition last_bit :: "rat \<Rightarrow> int" where
  "last_bit x =
     (let (n, d) = quotient_of \<bar>x\<bar>; k = bitlen n - bitlen d
      in if \<bar>x\<bar> < 2 powi k then k - 53 else k - 52)"

definition to_double :: "rat \<Rightarrow> rat" where
  "to_double x =
     (if x = 0 then 0
      else let e = last_bit x in of_int (half_even (x / 2 powi e)) * 2 powi e)"

definition trunc_rat :: "rat \<Rightarrow> int" where
  "trunc_rat x = (if x < 0 then \<lceil>x\<rceil> else \<lfloor>x\<rfloor>)"

lemma half_even_error: "\<bar>of_int (half_even y) - y\<bar> \<le> 1/2"
proof -
  have "of_int \<lfloor>y\<rfloor> \<le> y" "y < of_int \<lfloor>y\<rfloor> + 1" by linarith+
  then show ?thesis by (auto simp: half_even_def Let_def)
qed

lemma half_even_of_int: "half_even (of_int n) = n"
  by (simp add: half_even_def)

lemma powi_split: "(2 :: rat) powi (i + int n) = 2 powi i * 2 ^ n"
  by (simp add: power_int_add)

lemma bitlen_rat_bounds:
  assumes "0 < n"
  shows "2 powi (bitlen n - 1) \<le> (of_int n :: rat)" "(of_int n :: rat) < 2 powi bitlen n"
proof -
  have b: "1 \<le> bitlen n" using assms by (simp add: bitlen_ge_iff_power)
  from bitlen_bounds [OF assms]
  have "2 ^ nat (bitlen n - 1) \<le> n" "n < 2 ^ nat (bitlen n)" by simp_all
  then have "(of_int (2 ^ nat (bitlen n - 1)) :: rat) \<le> of_int n" "(of_int n :: rat) < of_int (2 ^ nat (bitlen n))"
    by (simp_all only: of_int_le_iff of_int_less_iff)
  with b show "2 powi (bitlen n - 1) \<le> (of_int n :: rat)" "(of_int n :: rat) < 2 powi bitlen n"
    by (simp_all add: power_int_def)
qed

lemma last_bit_bound:
  assumes "x \<noteq> 0"
  shows "2 powi last_bit x * 2 ^ 52 \<le> \<bar>x\<bar>"
proof -
  obtain n d where q: "quotient_of \<bar>x\<bar> = (n, d)" by fastforce
  have d: "0 < d" using quotient_of_denom_pos [OF q] .
  have x: "\<bar>x\<bar> = of_int n / of_int d" using quotient_of_div [OF q] .
  have "0 < \<bar>x\<bar>" using assms by simp
  then have "0 < of_int n / (of_int d :: rat)" by (simp only: x)
  then have n: "0 < n" using d by (auto simp: zero_less_divide_iff)
  let ?k = "bitlen n - bitlen d"
  show ?thesis
  proof (cases "\<bar>x\<bar> < 2 powi ?k")
    case True
    then have e: "last_bit x = ?k - 53" by (simp add: last_bit_def q)
    have "2 powi last_bit x * 2 ^ 52 * 2 powi bitlen d = (2 :: rat) powi (bitlen n - 1)"
    proof -
      have "(2 :: rat) powi (?k - 53) * 2 ^ 52 = 2 powi (?k - 1)"
        using powi_split [of "?k - 53" 52] by simp
      then show ?thesis by (simp add: e power_int_add [symmetric])
    qed
    also have "\<dots> \<le> of_int n" by (rule bitlen_rat_bounds(1) [OF n])
    also have "\<dots> = \<bar>x\<bar> * of_int d" using d by (simp add: x)
    also have "\<dots> \<le> \<bar>x\<bar> * 2 powi bitlen d"
      using bitlen_rat_bounds(2) [OF d] by (intro mult_left_mono) simp_all
    finally show ?thesis by simp
  next
    case False
    then have "last_bit x = ?k - 52" by (simp add: last_bit_def q)
    then show ?thesis using False powi_split [of "?k - 52" 52] by simp
  qed
qed

lemma to_double_error: "\<bar>to_double x - x\<bar> \<le> \<bar>x\<bar> / 2 ^ 53"
proof (cases "x = 0")
  case False
  let ?u = "2 powi last_bit x :: rat"
  have u: "0 < ?u" by simp
  have "to_double x - x = (of_int (half_even (x / ?u)) - x / ?u) * ?u"
    using False by (simp add: to_double_def Let_def left_diff_distrib)
  then have "\<bar>to_double x - x\<bar> = \<bar>of_int (half_even (x / ?u)) - x / ?u\<bar> * ?u"
    by (simp add: abs_mult)
  also have "\<dots> \<le> 1/2 * ?u"
    using half_even_error u by (intro mult_right_mono) simp_all
  also have "\<dots> \<le> \<bar>x\<bar> / 2 ^ 53"
    using last_bit_bound [OF False] by simp
  finally show ?thesis .
qed (simp add: to_double_def)

text \<open>Integers of up to 53 bits are doubles.\<close>

lemma to_double_of_int:
  assumes "\<bar>n\<bar> \<le> 2 ^ 53"
  shows "to_double (of_int n) = of_int n"
proof (cases "n = 0")
  case False
  let ?x = "of_int n :: rat" and ?e = "last_bit (of_int n)"
  have x: "?x \<noteq> 0" using False by simp
  have exact: "to_double ?x = ?x" if "?x / 2 powi ?e = of_int m" for m
  proof -
    have "to_double ?x = of_int (half_even (of_int m)) * 2 powi ?e"
      using x that by (simp add: to_double_def Let_def)
    also have "\<dots> = ?x / 2 powi ?e * 2 powi ?e" by (simp add: half_even_of_int that)
    finally show ?thesis by simp
  qed
  show ?thesis
  proof (cases "?e \<le> 0")
    case True
    then obtain k where "?e = - int k" by (metis nonpos_int_cases)
    then have "?x / 2 powi ?e = of_int (n * 2 ^ k)" by (simp add: power_int_minus divide_inverse)
    then show ?thesis by (rule exact)
  next
    case False
    then have "(2 :: rat) powi 1 \<le> 2 powi ?e" by (intro power_int_increasing) simp_all
    then have "(2 :: rat) ^ 53 \<le> 2 powi ?e * 2 ^ 52" by simp
    also have "\<dots> \<le> \<bar>?x\<bar>" using last_bit_bound [OF x] .
    finally have "(of_int (2 ^ 53) :: rat) \<le> of_int \<bar>n\<bar>" by simp
    then have n: "\<bar>n\<bar> = 2 ^ 53" using assms by (simp only: of_int_le_iff)
    have e: "?e = 1"
    proof (rule ccontr)
      assume "?e \<noteq> 1"
      then have "(2 :: rat) powi 2 \<le> 2 powi ?e" using False by (intro power_int_increasing) simp_all
      then have "(2 :: rat) ^ 54 \<le> 2 powi ?e * 2 ^ 52" by simp
      also have "\<dots> \<le> of_int \<bar>n\<bar>" using last_bit_bound [OF x] by simp
      finally show False by (simp add: n)
    qed
    have "n = 2 ^ 53 \<or> n = - (2 ^ 53)" using n by linarith
    then have "?x / 2 powi ?e = of_int (2 ^ 52) \<or> ?x / 2 powi ?e = of_int (- (2 ^ 52))"
      unfolding e by auto
    then show ?thesis using exact by blast
  qed
qed (simp add: to_double_def)

section \<open>Enumerations\<close>

definition fix_buy :: char where "fix_buy = CHR ''1''"
definition fix_sell :: char where "fix_sell = CHR ''2''"
definition fix_sell_short :: char where "fix_sell_short = CHR ''5''"

fun fix_side :: "side \<Rightarrow> char" where
  "fix_side Buy = fix_buy"
| "fix_side Sell = fix_sell"
| "fix_side ShortSell = fix_sell_short"
| "fix_side (RawSide c) = fix_buy"

definition bist_side :: "char \<Rightarrow> side" where
  "bist_side c =
     (if c = fix_buy then Buy else if c = fix_sell then Sell
      else if c = fix_sell_short then ShortSell else Buy)"

fun fix_ord_type :: "ord_type \<Rightarrow> char" where
  "fix_ord_type Limit = ord_Limit"
| "fix_ord_type Market = ord_Market"
| "fix_ord_type MarketToLimit = ord_MarketWithLeftover"
| "fix_ord_type Imbalance = ord_Imbalance"
| "fix_ord_type MidpointLimit = ord_MidpointLimit"
| "fix_ord_type MidpointMarket = ord_MidpointMarket"

fun fix_tif :: "time_in_force \<Rightarrow> char" where
  "fix_tif Day = tif_Day"
| "fix_tif ImmediateOrCancel = tif_ImmediateOrCancel"
| "fix_tif FillOrKill = tif_FillOrKill"

lemma bist_side_fix_side: "s \<in> {Buy, Sell, ShortSell} \<Longrightarrow> bist_side (fix_side s) = s"
  by (auto simp: bist_side_def fix_buy_def fix_sell_def fix_sell_short_def)

lemma fix_ord_type_inj: "fix_ord_type s = fix_ord_type t \<longleftrightarrow> s = t"
  by (cases s; cases t) simp_all

section \<open>Prices\<close>

text \<open>\<open>scale *= 10.0\<close>, \<open>n\<close> times.\<close>

fun double_scale :: "nat \<Rightarrow> rat \<Rightarrow> rat" where
  "double_scale 0 s = s"
| "double_scale (Suc n) s = double_scale n (to_double (s * 10))"

definition to_fix_price :: "price_int \<Rightarrow> i8 \<Rightarrow> rat" where
  "to_fix_price v decimals = to_double (to_double (of_int (sint v)) / double_scale (nat (sint decimals)) 1)"

definition from_fix_price :: "rat \<Rightarrow> i8 \<Rightarrow> price_int option" where
  "from_fix_price v decimals =
     (let y = to_double (v * double_scale (nat (sint decimals)) 1);
          t = trunc_rat (to_double (y + (if 0 \<le> v then 1/2 else - 1/2)))
      in if - (2 ^ 31) \<le> t \<and> t < 2 ^ 31 then Some (word_of_int t) else None)"

text \<open>\<open>static_cast<double>(quantity)\<close> and \<open>static_cast<Quantity>(double)\<close>.\<close>

definition qty_to_double :: "quantity \<Rightarrow> rat" where
  "qty_to_double q = to_double (of_int (sint q))"

definition double_to_qty :: "rat \<Rightarrow> quantity option" where
  "double_to_qty x =
     (let t = trunc_rat x in if - (2 ^ 63) \<le> t \<and> t < 2 ^ 63 then Some (word_of_int t) else None)"

lemma double_scale_exact: "k + n \<le> 15 \<Longrightarrow> double_scale n (10 ^ k) = 10 ^ (k + n)"
proof (induction n arbitrary: k)
  case (Suc n)
  have "(10 :: int) ^ Suc k \<le> 10 ^ 15" using Suc.prems by (intro power_increasing) simp_all
  then have "to_double (of_int (10 ^ Suc k)) = of_int (10 ^ Suc k)"
    by (intro to_double_of_int) simp
  then have "to_double (10 ^ k * 10) = 10 ^ Suc k" by (simp add: mult.commute)
  then show ?case using Suc.IH [of "Suc k"] Suc.prems by simp
qed simp

lemma sint_i32: "- (2 ^ 31) \<le> sint (v :: price_int)" "sint v < 2 ^ 31"
  using sint_ge [of v] sint_lt [of v] by simp_all

lemma trunc_near:
  assumes "0 \<le> v" "\<bar>z - (of_int v + 1/2)\<bar> < 1/2"
  shows "trunc_rat z = v"
proof -
  have "of_int v < z" "z < of_int v + 1" using assms(2) unfolding abs_less_iff by linarith+
  moreover have "0 \<le> (of_int v :: rat)" using assms(1) by simp
  ultimately show ?thesis by (auto simp: trunc_rat_def intro!: floor_unique)
qed

lemma trunc_rat_minus: "trunc_rat (- z) = - trunc_rat z"
  by (auto simp: trunc_rat_def ceiling_minus floor_minus)

lemma to_double_minus: "to_double (- x) = - to_double x"
proof -
  have he: "half_even (- y) = - half_even y" for y
  proof -
    consider n where "y = of_int n" | "y \<notin> \<int>" by (auto elim: Ints_cases)
    then show ?thesis
    proof cases
      case 1
      then show ?thesis using half_even_of_int [of "- n"] half_even_of_int [of n] by simp
    next
      case 2
      then have "y \<noteq> of_int \<lfloor>y\<rfloor>" by (metis Ints_of_int)
      then have fl: "\<lfloor>- y\<rfloor> = - \<lfloor>y\<rfloor> - 1" by (simp add: floor_minus ceiling_altdef)
      show ?thesis by (auto simp: half_even_def Let_def fl)
    qed
  qed
  show ?thesis by (simp add: to_double_def last_bit_def he Let_def)
qed

lemma price_digits_near:
  assumes "0 \<le> x" "\<bar>x - of_int v\<bar> \<le> 1/4" "\<bar>v\<bar> \<le> 2 ^ 31"
  shows "trunc_rat (to_double (to_double x + 1/2)) = v"
proof -
  let ?v = "of_int v :: rat" and ?y = "to_double x"
  have v: "0 \<le> v"
  proof (rule ccontr)
    assume "\<not> 0 \<le> v"
    then have "?v \<le> - 1" by simp
    then show False using assms(1,2) by (simp add: abs_le_iff)
  qed
  have "(of_int \<bar>v\<bar> :: rat) \<le> of_int (2 ^ 31)" using assms(3) by (simp only: of_int_le_iff)
  then have v31: "?v \<le> 2 ^ 31" using v by simp
  have x: "x \<le> 2 ^ 31 + 1" using assms(2) v31 by linarith
  have y: "\<bar>?y - x\<bar> \<le> 1/16"
  proof -
    have "\<bar>x\<bar> / 2 ^ 53 \<le> 1/16" using x assms(1) by simp
    then show ?thesis using to_double_error [of x] by linarith
  qed
  let ?z = "to_double (?y + 1/2)"
  have z: "\<bar>?z - (?y + 1/2)\<bar> \<le> 1/16"
  proof -
    have "\<bar>?y + 1/2\<bar> \<le> 2 ^ 31 + 2" using y x assms(1) by linarith
    then have "\<bar>?y + 1/2\<bar> / 2 ^ 53 \<le> 1/16" by simp
    then show ?thesis using to_double_error [of "?y + 1/2"] by linarith
  qed
  show ?thesis using v y z assms(2) by (intro trunc_near) (assumption, linarith)
qed

text \<open>A received price decodes to the wire price it is a quarter of a tick or less away from.\<close>

lemma from_fix_price_near:
  assumes "0 \<le> sint d" "sint d \<le> 15" "\<bar>x * 10 ^ nat (sint d) - of_int (sint (v :: price_int))\<bar> \<le> 1/4"
  shows "from_fix_price x d = Some v"
proof -
  let ?s = "10 ^ nat (sint d) :: rat"
  have s: "double_scale (nat (sint d)) 1 = ?s"
    using double_scale_exact [of 0 "nat (sint d)"] assms(1,2) by simp
  have v: "\<bar>sint v\<bar> \<le> 2 ^ 31" using sint_i32 [of v] by linarith
  have "trunc_rat (to_double (to_double (x * ?s) + (if 0 \<le> x then 1/2 else - 1/2))) = sint v"
  proof (cases "0 \<le> x")
    case True
    then show ?thesis using price_digits_near [of "x * ?s"] assms(3) v by simp
  next
    case False
    let ?y = "to_double (- x * ?s)"
    have neg: "to_double (x * ?s) + - 1/2 = - (?y + 1/2)"
      using to_double_minus [of "x * ?s"] by simp
    have "- x * ?s - of_int (- sint v) = - (x * ?s - of_int (sint v))" by simp
    then have near: "\<bar>- x * ?s - of_int (- sint v)\<bar> \<le> 1/4" using assms(3) by (simp only: abs_minus_cancel)
    have "0 \<le> - x * ?s" using False by (simp add: mult_le_0_iff)
    moreover have "\<bar>- sint v\<bar> \<le> 2 ^ 31" using v by simp
    ultimately have "trunc_rat (to_double (?y + 1/2)) = - sint v" using price_digits_near near by blast
    then show ?thesis using False
      by (simp only: if_False neg to_double_minus trunc_rat_minus minus_minus)
  qed
  then show ?thesis using sint_i32 [of v] by (simp add: from_fix_price_def Let_def s)
qed

lemma to_fix_price_error:
  assumes "0 \<le> sint d" "sint d \<le> 15"
  shows "\<bar>to_fix_price v d * 10 ^ nat (sint d) - of_int (sint v)\<bar> \<le> 1 / 2 ^ 22"
proof -
  let ?s = "10 ^ nat (sint d) :: rat" and ?v = "of_int (sint v) :: rat"
  have "\<bar>sint v\<bar> \<le> 2 ^ 53" using sint_i32 [of v] by (simp add: abs_le_iff)
  then have p: "to_fix_price v d = to_double (?v / ?s)"
    using double_scale_exact [of 0 "nat (sint d)"] assms
    by (simp only: to_fix_price_def to_double_of_int) simp
  have "to_double (?v / ?s) * ?s - ?v = (to_double (?v / ?s) - ?v / ?s) * ?s"
    by (simp add: left_diff_distrib)
  then have "\<bar>to_double (?v / ?s) * ?s - ?v\<bar> = \<bar>to_double (?v / ?s) - ?v / ?s\<bar> * ?s"
    by (simp add: abs_mult)
  also have "\<dots> \<le> \<bar>?v / ?s\<bar> / 2 ^ 53 * ?s"
    by (intro mult_right_mono to_double_error) simp
  also have "\<dots> = \<bar>?v\<bar> / 2 ^ 53" by simp
  also have "\<dots> \<le> 1 / 2 ^ 22"
  proof -
    have "\<bar>sint v\<bar> \<le> 2 ^ 31" using sint_i32 [of v] by linarith
    then have "(of_int \<bar>sint v\<bar> :: rat) \<le> of_int (2 ^ 31)" by (simp only: of_int_le_iff)
    then show ?thesis by simp
  qed
  finally show ?thesis using p by simp
qed

end
