(* ===== verification/Fix_Message.thy ===== *)
theory Fix_Message
  imports Fix_Convert
begin

text \<open>
  What the FIX applications use of the engine: messages, the field conversions and the sessions.
  A message maps tags to the text of the field; the members of repeating groups are apart. The
  tags are those of \<open>include/bist/fix/fields.hpp\<close> and of the engine's field classes. The engine is
  a third-party library: its conversions of numbers and its session calls are functions of a
  record, on a state of an arbitrary type.
\<close>

section \<open>Messages\<close>

record fix_message =
  fm_type :: "string option"
  fm_fields :: "int \<rightharpoonup> string"
  fm_groups :: "(int \<times> (int \<rightharpoonup> string)) list"

definition new_message :: "string \<Rightarrow> fix_message" where
  "new_message t = \<lparr>fm_type = Some t, fm_fields = Map.empty, fm_groups = []\<rparr>"

definition put :: "int \<Rightarrow> string \<Rightarrow> fix_message \<Rightarrow> fix_message" where
  "put t v m = m\<lparr>fm_fields := (fm_fields m)(t \<mapsto> v)\<rparr>"

definition put_if :: "bool \<Rightarrow> int \<Rightarrow> string \<Rightarrow> fix_message \<Rightarrow> fix_message" where
  "put_if c t v m = (if c then put t v m else m)"

definition add_group :: "int \<Rightarrow> (int \<rightharpoonup> string) \<Rightarrow> fix_message \<Rightarrow> fix_message" where
  "add_group t g m = m\<lparr>fm_groups := fm_groups m @ [(t, g)]\<rparr>"

text \<open>The tags the applications name by the field classes of the engine.\<close>

abbreviation (input) tag_AvgPx :: int where "tag_AvgPx \<equiv> 6"
abbreviation (input) tag_CumQty :: int where "tag_CumQty \<equiv> 14"
abbreviation (input) tag_ExecID :: int where "tag_ExecID \<equiv> 17"
abbreviation (input) tag_LastPx :: int where "tag_LastPx \<equiv> 31"
abbreviation (input) tag_LastQty :: int where "tag_LastQty \<equiv> 32"
abbreviation (input) tag_Text :: int where "tag_Text \<equiv> 58"
abbreviation (input) tag_QuoteID :: int where "tag_QuoteID \<equiv> 117"
abbreviation (input) tag_NoSides :: int where "tag_NoSides \<equiv> 552"
abbreviation (input) tag_TrdRptStatus :: int where "tag_TrdRptStatus \<equiv> 939"
abbreviation (input) tag_ApplResponseType :: int where "tag_ApplResponseType \<equiv> 1348"
abbreviation (input) tag_ApplResponseID :: int where "tag_ApplResponseID \<equiv> 1353"

section \<open>Conversions of the engine\<close>

record fix_codec =
  fc_double_text :: "rat \<Rightarrow> string"
  fc_double_of :: "string \<Rightarrow> rat option"
  fc_int_of :: "string \<Rightarrow> int option"
  fc_now :: string

text \<open>Reading a field of a kind throws when the field is missing or does not convert: \<open>None\<close>.\<close>

definition get_text :: "fix_message \<Rightarrow> int \<Rightarrow> string option" where
  "get_text m t = fm_fields m t"

definition get_char :: "fix_message \<Rightarrow> int \<Rightarrow> char option" where
  "get_char m t = (case fm_fields m t of Some [c] \<Rightarrow> Some c | _ \<Rightarrow> None)"

definition get_double :: "fix_codec \<Rightarrow> fix_message \<Rightarrow> int \<Rightarrow> rat option" where
  "get_double c m t = Option.bind (fm_fields m t) (fc_double_of c)"

definition get_int :: "fix_codec \<Rightarrow> fix_message \<Rightarrow> int \<Rightarrow> int option" where
  "get_int c m t = Option.bind (fm_fields m t) (fc_int_of c)"

text \<open>The engine writes a number so that it reads it back: an integer exactly, a \<open>double\<close> with 15
  significant digits.\<close>

definition codec_ok :: "fix_codec \<Rightarrow> bool" where
  "codec_ok c \<longleftrightarrow>
     (\<forall>n. fc_int_of c (dec_int n) = Some n)
     \<and> (\<forall>x. \<exists>y. fc_double_of c (fc_double_text c x) = Some y
          \<and> \<bar>y - x\<bar> * 10 ^ 14 \<le> \<bar>x\<bar> \<and> (x \<in> \<int> \<and> \<bar>x\<bar> < 10 ^ 15 \<longrightarrow> y = x))"

section \<open>Sessions of the engine\<close>

record 'e fix_engine =
  en_codec :: fix_codec
  en_known :: "string \<Rightarrow> 'e \<Rightarrow> bool"
  en_send :: "fix_message \<Rightarrow> string \<Rightarrow> 'e \<Rightarrow> 'e"
  en_logout :: "string \<Rightarrow> 'e \<Rightarrow> 'e"
  en_logon :: "string \<Rightarrow> 'e \<Rightarrow> 'e"

section \<open>Lemmas\<close>

lemma put_simps [simp]:
  "fm_fields (put t v m) = (fm_fields m)(t \<mapsto> v)" "fm_type (put t v m) = fm_type m"
  "fm_groups (put t v m) = fm_groups m"
  "fm_fields (put_if c t v m) = (if c then (fm_fields m)(t \<mapsto> v) else fm_fields m)"
  "fm_type (put_if c t v m) = fm_type m" "fm_groups (put_if c t v m) = fm_groups m"
  "fm_fields (add_group t g m) = fm_fields m" "fm_type (add_group t g m) = fm_type m"
  "fm_groups (add_group t g m) = fm_groups m @ [(t, g)]"
  "fm_fields (new_message ty) = Map.empty" "fm_type (new_message ty) = Some ty"
  "fm_groups (new_message ty) = []"
  by (simp_all add: put_def put_if_def add_group_def new_message_def)

lemma codec_int [simp]: "codec_ok c \<Longrightarrow> fc_int_of c (dec_int n) = Some n"
  by (simp add: codec_ok_def)

lemma codec_double:
  assumes "codec_ok c"
  obtains y where "fc_double_of c (fc_double_text c x) = Some y" "\<bar>y - x\<bar> * 10 ^ 14 \<le> \<bar>x\<bar>"
  using assms by (auto simp: codec_ok_def)

lemma codec_integer:
  assumes "codec_ok c" "\<bar>n\<bar> < 10 ^ 15"
  shows "fc_double_of c (fc_double_text c (of_int n)) = Some (of_int n)"
proof -
  have "(of_int \<bar>n\<bar> :: rat) < of_int (10 ^ 15)" using assms(2) by (simp only: of_int_less_iff)
  then have "\<bar>of_int n :: rat\<bar> < 10 ^ 15" by simp
  moreover have "(of_int n :: rat) \<in> \<int>" by simp
  ultimately show ?thesis using assms(1) unfolding codec_ok_def by metis
qed

text \<open>A quantity of up to 14 digits arrives as it was sent.\<close>

lemma quantity_arrives:
  assumes "codec_ok c" "\<bar>sint q\<bar> < 10 ^ 15"
  shows "\<exists>y. fc_double_of c (fc_double_text c (qty_to_double q)) = Some y \<and> double_to_qty y = Some q"
proof -
  have "\<bar>sint q\<bar> \<le> 2 ^ 53" using assms(2) by simp
  then have d: "qty_to_double q = of_int (sint q)"
    unfolding qty_to_double_def by (rule to_double_of_int)
  have "trunc_rat (of_int n) = n" for n by (simp add: trunc_rat_def)
  then have "trunc_rat (of_int (sint q)) = sint q" .
  moreover have "- (2 ^ 63) \<le> sint q" "sint q < 2 ^ 63" using sint_ge [of q] sint_lt [of q] by simp_all
  ultimately have "double_to_qty (of_int (sint q)) = Some q"
    by (simp only: double_to_qty_def Let_def simp_thms if_True) simp
  with codec_integer [OF assms] d show ?thesis by simp
qed

text \<open>A price arrives as the wire price it was sent for, whatever the engine's rounding.\<close>

lemma price_arrives:
  assumes "codec_ok c" "0 \<le> sint d" "sint d \<le> 15"
  shows "\<exists>y. fc_double_of c (fc_double_text c (to_fix_price v d)) = Some y \<and> from_fix_price y d = Some v"
proof -
  let ?x = "to_fix_price v d" and ?s = "10 ^ nat (sint d) :: rat"
  obtain y where y: "fc_double_of c (fc_double_text c ?x) = Some y" "\<bar>y - ?x\<bar> * 10 ^ 14 \<le> \<bar>?x\<bar>"
    using codec_double [OF assms(1)] .
  have "1 / 2 ^ 22 \<le> (1/16 :: rat)" by simp
  then have x: "\<bar>?x * ?s - of_int (sint v)\<bar> \<le> 1/16"
    using to_fix_price_error [OF assms(2,3), of v] by (rule order_trans [rotated])
  have v: "\<bar>of_int (sint v) :: rat\<bar> \<le> 2 ^ 31"
  proof -
    have "\<bar>sint v\<bar> \<le> 2 ^ 31" using sint_i32 [of v] by (simp add: abs_le_iff)
    then have "(of_int \<bar>sint v\<bar> :: rat) \<le> of_int (2 ^ 31)" by (simp only: of_int_le_iff)
    then show ?thesis by simp
  qed
  have xs: "\<bar>?x * ?s\<bar> \<le> 2 ^ 31 + 1"
  proof -
    have "\<bar>a\<bar> \<le> m + 1" if "\<bar>a - b\<bar> \<le> 1/16" "\<bar>b\<bar> \<le> m" for a b m :: rat
      using that by linarith
    then show ?thesis using x v by blast
  qed
  have "\<bar>y * ?s - ?x * ?s\<bar> * 10 ^ 14 = \<bar>y - ?x\<bar> * 10 ^ 14 * ?s"
    by (simp add: left_diff_distrib [symmetric] abs_mult)
  also have "\<dots> \<le> \<bar>?x\<bar> * ?s" using y(2) by (intro mult_right_mono) simp_all
  also have "\<dots> = \<bar>?x * ?s\<bar>" by (simp add: abs_mult)
  finally have "\<bar>y * ?s - ?x * ?s\<bar> * 10 ^ 14 \<le> 2 ^ 31 + 1" using xs by linarith
  then have "\<bar>y * ?s - ?x * ?s\<bar> \<le> 1/8" by simp
  then have "\<bar>y * ?s - of_int (sint v)\<bar> \<le> 1/4" using x by linarith
  then have "from_fix_price y d = Some v" by (rule from_fix_price_near [OF assms(2,3)])
  with y(1) show ?thesis by blast
qed

section \<open>A concrete codec\<close>

text \<open>Decimal integers, and fractions as numerator and denominator.\<close>

definition int_of_text :: "string \<Rightarrow> int" where
  "int_of_text s = (if s \<noteq> [] \<and> hd s = CHR ''-'' then - int (dec_val (tl s)) else int (dec_val s))"

definition exact_codec :: fix_codec where
  "exact_codec = \<lparr>fc_double_text = (\<lambda>x. let (n, d) = quotient_of x in dec_int n @ ''/'' @ dec (nat d)),
     fc_double_of = (\<lambda>s. Some (of_int (int_of_text (takeWhile (\<lambda>c. c \<noteq> CHR ''/'') s))
       / of_nat (dec_val (tl (dropWhile (\<lambda>c. c \<noteq> CHR ''/'') s))))),
     fc_int_of = (\<lambda>s. Some (int_of_text s)), fc_now = ''20250101-00:00:00.000''\<rparr>"

lemma int_of_dec_int: "int_of_text (dec_int n) = n"
proof -
  obtain c cs where c: "dec (nat n) = c # cs" "is_digit c" using dec_head_digit by blast
  then have "c \<noteq> CHR ''-''" using is_digit_not_space by blast
  then show ?thesis using c dec_val_dec [of "nat n"] by (simp add: int_of_text_def dec_int_def)
qed

lemma dec_int_no_slash: "CHR ''/'' \<notin> set (dec_int n)"
proof -
  have "CHR ''/'' \<notin> set (dec k)" for k
    using dec_digits [of k] by (auto simp: list_all_iff is_digit_def)
  then show ?thesis by (simp add: dec_int_def)
qed

lemma exact_codec_ok: "codec_ok exact_codec"
proof -
  have "fc_double_of exact_codec (fc_double_text exact_codec x) = Some x" for x
  proof -
    obtain n d where q: "quotient_of x = (n, d)" by fastforce
    have d: "0 < d" using quotient_of_denom_pos [OF q] .
    let ?p = "\<lambda>c. c \<noteq> CHR ''/''"
    have "\<forall>c \<in> set (dec_int n). ?p c" using dec_int_no_slash by metis
    then have "takeWhile ?p (dec_int n @ ''/'' @ dec (nat d)) = dec_int n"
      "dropWhile ?p (dec_int n @ ''/'' @ dec (nat d)) = ''/'' @ dec (nat d)"
      by (simp_all add: takeWhile_append2 dropWhile_append2)
    moreover have "of_int n / of_nat (nat d) = x" using quotient_of_div [OF q] d by simp
    ultimately show ?thesis by (simp add: exact_codec_def q int_of_dec_int)
  qed
  then show ?thesis by (simp add: codec_ok_def) (simp add: exact_codec_def int_of_dec_int)
qed

end
