(* ===== verification/Fix_Apps.thy ===== *)
theory Fix_Apps
  imports Fix_Message "HOL-Library.Sublist"
begin

text \<open>
  \<open>src/fix/internal/oe_app.hpp\<close>, \<open>rd_app.hpp\<close> and \<open>dc_app.hpp\<close>: the three applications the FIX
  engine calls back. A callback gives the events it fires and the application afterwards, a call
  of the program its result and the states of application and engine; the empty callbacks
  (\<open>onCreate\<close>, \<open>toApp\<close>) are left out. \<open>None\<close> where the code leaves defined behaviour: a number that
  does not fit its integer type, or a call through the null pointer of an unknown session.
\<close>

section \<open>Common state\<close>

record fix_app =
  ap_session_id :: string
  ap_bound :: bool
  ap_state :: fix_session_state
  ap_password :: string
  ap_new_password :: string

definition fix_app_init :: fix_app where
  "fix_app_init = \<lparr>ap_session_id = [], ap_bound = False, ap_state = FixDisconnected,
     ap_password = [], ap_new_password = []\<rparr>"

text \<open>What the cracker makes of an application message: a type without an overload is reported to
  the engine as unsupported.\<close>

datatype 'ev cracked = UnsupportedMessage | Handled "'ev list"

definition session_result :: "fix_session_state \<Rightarrow> int \<Rightarrow> string \<Rightarrow> logon_result" where
  "session_result s status txt = \<lparr>lr_state = s, lr_session_status = word_of_int status, lr_detail = txt\<rparr>"

definition bind_session :: "string \<Rightarrow> fix_app \<Rightarrow> fix_app" where
  "bind_session s app = app\<lparr>ap_session_id := s, ap_bound := True, ap_state := FixActive\<rparr>"

section \<open>Fields of received messages\<close>

text \<open>\<open>try { getField } catch (...) {}\<close>: the member keeps its initial value when the field cannot be
  read.\<close>

definition text_of :: "fix_message \<Rightarrow> int \<Rightarrow> string" where
  "text_of m t = (case get_text m t of None \<Rightarrow> [] | Some v \<Rightarrow> v)"

definition char_of_field :: "fix_message \<Rightarrow> int \<Rightarrow> char" where
  "char_of_field m t = (case get_char m t of None \<Rightarrow> CHR 0x00 | Some c \<Rightarrow> c)"

definition side_of :: "fix_message \<Rightarrow> side" where
  "side_of m = (case get_char m tag_Side of None \<Rightarrow> Buy | Some c \<Rightarrow> bist_side c)"

definition qty_of :: "fix_codec \<Rightarrow> fix_message \<Rightarrow> int \<Rightarrow> quantity option" where
  "qty_of c m t = (case get_double c m t of None \<Rightarrow> Some 0 | Some x \<Rightarrow> double_to_qty x)"

definition price_of :: "fix_codec \<Rightarrow> fix_message \<Rightarrow> int \<Rightarrow> price_int option" where
  "price_of c m t = (case get_double c m t of None \<Rightarrow> Some 0 | Some x \<Rightarrow> from_fix_price x 3)"

section \<open>Order entry\<close>

record oe_callbacks =
  cb_execution :: bool
  cb_cancel_reject :: bool
  cb_trade_report :: bool
  cb_session :: bool

text \<open>A callback that is not set is not called.\<close>

definition fire_session :: "bool \<Rightarrow> fix_session_state \<Rightarrow> int \<Rightarrow> string \<Rightarrow> fix_event list" where
  "fire_session has_cb s status txt =
     (if has_cb then [FixSessionEv (session_result s status txt)] else [])"

definition oe_on_logon :: "oe_callbacks \<Rightarrow> string \<Rightarrow> fix_app \<Rightarrow> fix_event list \<times> fix_app" where
  "oe_on_logon cb s app = (fire_session (cb_session cb) FixActive 0 ''Active'', bind_session s app)"

definition oe_on_logout :: "oe_callbacks \<Rightarrow> fix_app \<Rightarrow> fix_event list \<times> fix_app" where
  "oe_on_logout cb app =
     (fire_session (cb_session cb) FixLoggedOut (- 1) ''LoggedOut'', app\<lparr>ap_state := FixLoggedOut\<rparr>)"

definition oe_to_admin :: "fix_app \<Rightarrow> fix_message \<Rightarrow> fix_message" where
  "oe_to_admin app m =
     (if fm_type m = Some ''A''
      then put_if (ap_new_password app \<noteq> []) tag_NewPassword (ap_new_password app)
             (put_if (ap_password app \<noteq> []) tag_Password (ap_password app) m)
      else m)"

definition oe_from_admin ::
  "fix_codec \<Rightarrow> oe_callbacks \<Rightarrow> fix_message \<Rightarrow> fix_app \<Rightarrow> fix_event list \<times> fix_app" where
  "oe_from_admin c cb m app =
     (if fm_type m = Some ''A'' then
        let status = (case get_int c m tag_SessionStatus of None \<Rightarrow> - 1 | Some n \<Rightarrow> n)
        in if status = status_PasswordExpired
           then (fire_session (cb_session cb) FixPasswordExpired status ''PasswordExpired'',
                 app\<lparr>ap_state := FixPasswordExpired\<rparr>)
           else if status = status_PasswordChanged
           then (fire_session (cb_session cb) FixPasswordChanged status ''Session password changed'',
                 app\<lparr>ap_state := FixPasswordChanged\<rparr>)
           else ([], app)
      else ([], app))"

definition oe_execution :: "fix_codec \<Rightarrow> fix_message \<Rightarrow> execution_report_event option" where
  "oe_execution c m =
     Option.bind (qty_of c m tag_LeavesQty)
     (\<lambda>leaves. Option.bind (qty_of c m tag_CumQty)
     (\<lambda>cum. Option.bind (qty_of c m tag_LastQty)
     (\<lambda>last. Option.bind (price_of c m tag_LastPx)
     (\<lambda>px. Some (execution_report_default
        \<lparr>xe_cl_ord_id := text_of m tag_ClOrdID, xe_orig_cl_ord_id := text_of m tag_OrigClOrdID,
         xe_exec_id := text_of m tag_ExecID, xe_order_id := text_of m tag_OrderID,
         xe_symbol := text_of m tag_Symbol, xe_side := side_of m,
         xe_exec_type := char_of_field m tag_ExecType, xe_ord_status := char_of_field m tag_OrdStatus,
         xe_leaves_qty := leaves, xe_cum_qty := cum, xe_last_qty := last, xe_last_price := px,
         xe_text := text_of m tag_Text\<rparr>)))))"

definition oe_cancel_reject :: "fix_message \<Rightarrow> cancel_reject_event" where
  "oe_cancel_reject m = \<lparr>cj_cl_ord_id = text_of m tag_ClOrdID, cj_orig_cl_ord_id = text_of m tag_OrigClOrdID,
     cj_text = text_of m tag_Text\<rparr>"

definition oe_trade_event :: "fix_codec \<Rightarrow> fix_message \<Rightarrow> trade_report_event option" where
  "oe_trade_event c m =
     Option.bind (qty_of c m tag_LastQty)
     (\<lambda>q. Option.bind (price_of c m tag_LastPx)
     (\<lambda>px. Some (trade_report_default
        \<lparr>xv_trade_report_id := text_of m tag_TradeReportID,
         xv_trade_report_ref_id := text_of m tag_TradeReportRefID, xv_symbol := text_of m tag_Symbol,
         xv_side := side_of m, xv_quantity := q, xv_price := px\<rparr>)))"

text \<open>\<open>fromApp\<close>: execution reports, cancel rejects, trade reports and their acknowledgements.\<close>

definition oe_from_app :: "fix_codec \<Rightarrow> oe_callbacks \<Rightarrow> fix_message \<Rightarrow> fix_event cracked option" where
  "oe_from_app c cb m =
     (if fm_type m = Some ''8'' then
        (if \<not> cb_execution cb then Some (Handled [])
         else map_option (\<lambda>ev. Handled [FixExecEv ev]) (oe_execution c m))
      else if fm_type m = Some ''9'' then
        Some (Handled (if cb_cancel_reject cb then [FixCancelRejectEv (oe_cancel_reject m)] else []))
      else if fm_type m = Some ''AE'' then
        (if \<not> cb_trade_report cb then Some (Handled [])
         else map_option (\<lambda>ev. Handled [FixTradeEv ev]) (oe_trade_event c m))
      else if fm_type m = Some ''AR'' then Some (Handled [])
      else Some UnsupportedMessage)"

section \<open>Sending orders\<close>

definition party_group :: "string \<Rightarrow> int \<Rightarrow> int \<rightharpoonup> string" where
  "party_group pid role =
     [tag_PartyID \<mapsto> pid, tag_PartyIDSource \<mapsto> [party_Proprietary], tag_PartyRole \<mapsto> dec_int role]"

definition apply_afk :: "string \<Rightarrow> fix_message \<Rightarrow> fix_message" where
  "apply_afk afk m = (if afk = [] then m else add_group tag_NoPartyIDs (party_group afk role_DeskID) m)"

definition new_order :: "fix_codec \<Rightarrow> oe_place_args \<Rightarrow> fix_message" where
  "new_order c a =
     apply_afk (xp_afk a)
     (put_if (0 <s xp_display_quantity a) tag_MaxFloor (fc_double_text c (qty_to_double (xp_display_quantity a)))
     (put_if (xp_account a \<noteq> []) tag_Account (xp_account a)
     (put tag_TransactTime (fc_now c)
     (put tag_TimeInForce [fix_tif (xp_tif a)]
     (put_if (xp_ord_type a \<noteq> Market \<and> xp_ord_type a \<noteq> MarketToLimit) tag_Price
        (fc_double_text c (to_fix_price (xp_price a) (xp_price_decimals a)))
     (put tag_OrdType [fix_ord_type (xp_ord_type a)]
     (put tag_OrderQty (fc_double_text c (qty_to_double (xp_quantity a)))
     (put tag_Side [fix_side (xp_side a)]
     (put tag_Symbol (xp_symbol a)
     (put tag_ClOrdID (xp_cl_ord_id a) (new_message ''D'')))))))))))"

definition cancel_request :: "fix_codec \<Rightarrow> oe_cancel_args \<Rightarrow> fix_message" where
  "cancel_request c a =
     put tag_TransactTime (fc_now c)
     (put tag_OrderQty (fc_double_text c (qty_to_double (xc_quantity a)))
     (put tag_Side [fix_side (xc_side a)]
     (put tag_Symbol (xc_symbol a)
     (put tag_OrigClOrdID (xc_orig_cl_ord_id a)
     (put tag_ClOrdID (xc_cl_ord_id a) (new_message ''F''))))))"

definition replace_order :: "fix_codec \<Rightarrow> oe_replace_args \<Rightarrow> fix_message" where
  "replace_order c a =
     put tag_TransactTime (fc_now c)
     (put_if (xr_ord_type a \<noteq> Market) tag_Price
        (fc_double_text c (to_fix_price (xr_new_price a) (xr_price_decimals a)))
     (put tag_OrdType [fix_ord_type (xr_ord_type a)]
     (put tag_OrderQty (fc_double_text c (qty_to_double (xr_new_quantity a)))
     (put tag_Side [fix_side (xr_side a)]
     (put tag_Symbol (xr_symbol a)
     (put tag_OrigClOrdID (xr_orig_cl_ord_id a)
     (put tag_ClOrdID (xr_cl_ord_id a) (new_message ''G''))))))))"

text \<open>The side of a trade report goes into a member of the group \<open>NoSides\<close>.\<close>

definition trade_report :: "fix_codec \<Rightarrow> trade_report_args \<Rightarrow> fix_message" where
  "trade_report c a =
     (let m = put tag_LastPx (fc_double_text c (to_fix_price (xt_price a) (xt_price_decimals a)))
            (put tag_LastQty (fc_double_text c (qty_to_double (xt_quantity a)))
            (put tag_Symbol (xt_symbol a)
            (put_if (xt_trade_report_ref_id a \<noteq> []) tag_TradeReportRefID (xt_trade_report_ref_id a)
            (put tag_TradeReportID (xt_trade_report_id a) (new_message ''AE'')))));
          m1 = add_group tag_NoSides [tag_Side \<mapsto> [fix_side (xt_side a)]] m
      in if xt_counterparty_id a \<noteq> []
         then add_group tag_NoPartyIDs (party_group (xt_counterparty_id a) role_ExecutingFirm) m1
         else m1)"

definition send_or_error ::
  "'e fix_engine \<Rightarrow> fix_message \<Rightarrow> string \<Rightarrow> fix_app \<Rightarrow> 'e \<Rightarrow> string result \<times> 'e" where
  "send_or_error eng m i app e =
     (if en_known eng (ap_session_id app) e then (Inr i, en_send eng m (ap_session_id app) e)
      else (Inl (make_error StateMismatch ''FIX session not found''), e))"

text \<open>A sending call of an application that has had no session yet is refused.\<close>

definition send_bound ::
  "string \<Rightarrow> 'e fix_engine \<Rightarrow> fix_message \<Rightarrow> string \<Rightarrow> fix_app \<Rightarrow> 'e \<Rightarrow> string result \<times> 'e" where
  "send_bound name eng m i app e =
     (if \<not> ap_bound app then (Inl (make_error StateMismatch (''FIX '' @ name @ '' not bound'')), e)
      else send_or_error eng m i app e)"

definition oe_app_place :: "'e fix_engine \<Rightarrow> oe_place_args \<Rightarrow> fix_app \<Rightarrow> 'e \<Rightarrow> string result \<times> 'e" where
  "oe_app_place eng a = send_bound ''OE'' eng (new_order (en_codec eng) a) (xp_cl_ord_id a)"

definition oe_app_cancel :: "'e fix_engine \<Rightarrow> oe_cancel_args \<Rightarrow> fix_app \<Rightarrow> 'e \<Rightarrow> string result \<times> 'e" where
  "oe_app_cancel eng a = send_bound ''OE'' eng (cancel_request (en_codec eng) a) (xc_cl_ord_id a)"

definition oe_app_replace :: "'e fix_engine \<Rightarrow> oe_replace_args \<Rightarrow> fix_app \<Rightarrow> 'e \<Rightarrow> string result \<times> 'e" where
  "oe_app_replace eng a = send_bound ''OE'' eng (replace_order (en_codec eng) a) (xr_cl_ord_id a)"

definition oe_app_trade_report :: "'e fix_engine \<Rightarrow> trade_report_args \<Rightarrow> fix_app \<Rightarrow> 'e \<Rightarrow> string result \<times> 'e" where
  "oe_app_trade_report eng a = send_bound ''OE'' eng (trade_report (en_codec eng) a) (xt_trade_report_id a)"

section \<open>Session calls\<close>

text \<open>\<open>logout\<close> calls through the pointer of the session lookup without a check, \<open>login\<close> checks it.\<close>

definition app_logout :: "'e fix_engine \<Rightarrow> fix_app \<Rightarrow> 'e \<Rightarrow> (unit result \<times> 'e) option" where
  "app_logout eng app e =
     (if \<not> ap_bound app then Some (Inr (), e)
      else if en_known eng (ap_session_id app) e
      then Some (Inr (), en_logout eng (ap_session_id app) e)
      else None)"

definition app_login :: "string \<Rightarrow> 'e fix_engine \<Rightarrow> fix_app \<Rightarrow> 'e \<Rightarrow> unit result \<times> fix_app \<times> 'e" where
  "app_login name eng app e =
     (if \<not> ap_bound app then (Inl (make_error StateMismatch (name @ '' session not bound'')), app, e)
      else (Inr (), app\<lparr>ap_state := FixLoggingIn\<rparr>,
            if en_known eng (ap_session_id app) e then en_logon eng (ap_session_id app) e else e))"

definition oe_set_password :: "string \<Rightarrow> string \<Rightarrow> fix_app \<Rightarrow> fix_app" where
  "oe_set_password pwd new_pwd app = app\<lparr>ap_password := pwd, ap_new_password := new_pwd\<rparr>"

text \<open>The applications of reference data and of drop copies repeat the two.\<close>

definition rd_app_logout :: "'e fix_engine \<Rightarrow> fix_app \<Rightarrow> 'e \<Rightarrow> (unit result \<times> 'e) option" where
  "rd_app_logout eng app e = app_logout eng app e"

definition rd_app_login :: "'e fix_engine \<Rightarrow> fix_app \<Rightarrow> 'e \<Rightarrow> unit result \<times> fix_app \<times> 'e" where
  "rd_app_login eng app e = app_login ''RD'' eng app e"

definition dc_app_logout :: "'e fix_engine \<Rightarrow> fix_app \<Rightarrow> 'e \<Rightarrow> (unit result \<times> 'e) option" where
  "dc_app_logout eng app e = app_logout eng app e"

definition dc_app_login :: "'e fix_engine \<Rightarrow> fix_app \<Rightarrow> 'e \<Rightarrow> unit result \<times> fix_app \<times> 'e" where
  "dc_app_login eng app e = app_login ''DC'' eng app e"

section \<open>Reference data\<close>

record rd_callbacks =
  cb_security_def :: bool
  cb_security_status :: bool
  cb_rd_session :: bool
  cb_amr_ack :: bool

datatype rd_event =
  RdSession logon_result
| RdAmrAck bool string
| RdSecurityDef string
| RdSecurityStatus string

definition rd_fire_session :: "bool \<Rightarrow> fix_session_state \<Rightarrow> int \<Rightarrow> string \<Rightarrow> rd_event list" where
  "rd_fire_session has_cb s status txt = (if has_cb then [RdSession (session_result s status txt)] else [])"

definition rd_on_logon :: "rd_callbacks \<Rightarrow> string \<Rightarrow> fix_app \<Rightarrow> rd_event list \<times> fix_app" where
  "rd_on_logon cb s app = (rd_fire_session (cb_rd_session cb) FixActive 0 ''Active'', bind_session s app)"

definition rd_on_logout :: "rd_callbacks \<Rightarrow> fix_app \<Rightarrow> rd_event list \<times> fix_app" where
  "rd_on_logout cb app =
     (rd_fire_session (cb_rd_session cb) FixLoggedOut (- 1) ''LoggedOut'', app\<lparr>ap_state := FixLoggedOut\<rparr>)"

definition rd_to_admin :: "fix_app \<Rightarrow> fix_message \<Rightarrow> fix_message" where
  "rd_to_admin app m =
     (if fm_type m = Some ''A'' then put_if (ap_password app \<noteq> []) tag_Password (ap_password app) m else m)"

definition handle_amr_ack :: "rd_callbacks \<Rightarrow> fix_message \<Rightarrow> rd_event list" where
  "handle_amr_ack cb m =
     (if \<not> cb_amr_ack cb then []
      else let txt = text_of m tag_Text in [RdAmrAck (\<not> sublist ''Duplicate'' txt) txt])"

definition rd_from_app :: "rd_callbacks \<Rightarrow> fix_message \<Rightarrow> rd_event cracked" where
  "rd_from_app cb m =
     (if fm_type m = Some ''BX'' then Handled (handle_amr_ack cb m)
      else if fm_type m = Some ''d'' then
        Handled (if cb_security_def cb then [RdSecurityDef (text_of m tag_Symbol)] else [])
      else if fm_type m = Some ''f'' then
        Handled (if cb_security_status cb then [RdSecurityStatus (text_of m tag_Symbol)] else [])
      else if fm_type m = Some ''BJ'' then Handled []
      else UnsupportedMessage)"

definition rd_set_password :: "string \<Rightarrow> fix_app \<Rightarrow> fix_app" where
  "rd_set_password pwd app = app\<lparr>ap_password := pwd\<rparr>"

definition subscription :: "string \<Rightarrow> fix_message" where
  "subscription appl_req_id =
     put tag_ApplReqType (dec_int request_RequestAndSubscribe) (put tag_ApplReqID appl_req_id (new_message ''BW''))"

definition rd_app_subscribe_all :: "'e fix_engine \<Rightarrow> string \<Rightarrow> fix_app \<Rightarrow> 'e \<Rightarrow> string result \<times> 'e" where
  "rd_app_subscribe_all eng appl_req_id = send_bound ''RD'' eng (subscription appl_req_id) appl_req_id"

section \<open>Drop copy\<close>

record dc_callbacks =
  cb_dc_execution :: bool
  cb_dc_trade_report :: bool
  cb_quote_status :: bool
  cb_dc_session :: bool

definition dc_on_logon :: "dc_callbacks \<Rightarrow> string \<Rightarrow> fix_app \<Rightarrow> fix_event list \<times> fix_app" where
  "dc_on_logon cb s app = (fire_session (cb_dc_session cb) FixActive 0 ''DC Active'', bind_session s app)"

definition dc_on_logout :: "dc_callbacks \<Rightarrow> fix_app \<Rightarrow> fix_event list \<times> fix_app" where
  "dc_on_logout cb app =
     (fire_session (cb_dc_session cb) FixLoggedOut (- 1) ''DC LoggedOut'', app\<lparr>ap_state := FixLoggedOut\<rparr>)"

definition dc_execution :: "fix_codec \<Rightarrow> fix_message \<Rightarrow> execution_report_event option" where
  "dc_execution c m =
     Option.bind (qty_of c m tag_LeavesQty)
     (\<lambda>leaves. Option.bind (qty_of c m tag_LastQty)
     (\<lambda>last. Option.bind (price_of c m tag_LastPx)
     (\<lambda>px. Some (execution_report_default
        \<lparr>xe_cl_ord_id := text_of m tag_ClOrdID, xe_order_id := text_of m tag_OrderID,
         xe_symbol := text_of m tag_Symbol, xe_side := side_of m,
         xe_exec_type := char_of_field m tag_ExecType, xe_ord_status := char_of_field m tag_OrdStatus,
         xe_leaves_qty := leaves, xe_last_qty := last, xe_last_price := px\<rparr>))))"

definition dc_trade_event :: "fix_codec \<Rightarrow> fix_message \<Rightarrow> trade_report_event option" where
  "dc_trade_event c m =
     Option.bind (qty_of c m tag_LastQty)
     (\<lambda>q. Option.bind (price_of c m tag_LastPx)
     (\<lambda>px. Some (trade_report_default
        \<lparr>xv_trade_report_id := text_of m tag_TradeReportID, xv_symbol := text_of m tag_Symbol,
         xv_side := side_of m, xv_quantity := q, xv_price := px\<rparr>)))"

definition dc_quote_status :: "fix_message \<Rightarrow> quote_status_event" where
  "dc_quote_status m = quote_status_default
     \<lparr>xq_quote_id := text_of m tag_QuoteID, xq_symbol := text_of m tag_Symbol, xq_side := side_of m\<rparr>"

definition dc_from_app :: "fix_codec \<Rightarrow> dc_callbacks \<Rightarrow> fix_message \<Rightarrow> fix_event cracked option" where
  "dc_from_app c cb m =
     (if fm_type m = Some ''8'' then
        (if \<not> cb_dc_execution cb then Some (Handled [])
         else map_option (\<lambda>ev. Handled [FixExecEv ev]) (dc_execution c m))
      else if fm_type m = Some ''AE'' then
        (if \<not> cb_dc_trade_report cb then Some (Handled [])
         else map_option (\<lambda>ev. Handled [FixTradeEv ev]) (dc_trade_event c m))
      else if fm_type m = Some ''AI'' then
        Some (Handled (if cb_quote_status cb then [FixQuoteEv (dc_quote_status m)] else []))
      else Some UnsupportedMessage)"

end
