(* ===== verification/Fix_Initiator.thy ===== *)
theory Fix_Initiator
  imports Fix_Apps
begin

text \<open>
  \<open>src/fix/internal/initiator.hpp\<close> and \<open>src/fix/facade_quickfix.cpp\<close>: the settings text an
  initiator is started with, and the clients built from an application and an engine. Starting
  the engine from a settings text is a parameter that gives the exception it throws, if any.
\<close>

section \<open>Settings\<close>

definition newline :: string where
  "newline = [CHR 0x0A]"

definition setting_line :: "string \<Rightarrow> string \<Rightarrow> string" where
  "setting_line key v = key @ ''='' @ v @ newline"

definition render_session_settings :: "initiator_config \<Rightarrow> string" where
  "render_session_settings c =
     ''[DEFAULT]'' @ newline
     @ setting_line ''ConnectionType'' ''initiator''
     @ setting_line ''ReconnectInterval'' ''1''
     @ setting_line ''FileStorePath'' (ic_store_path c)
     @ setting_line ''FileLogPath'' (ic_log_path c)
     @ setting_line ''StartTime'' ''00:00:00''
     @ setting_line ''EndTime'' ''23:59:59''
     @ setting_line ''HeartBtInt'' (dec_int (sint (ic_heartbeat_secs c)))
     @ setting_line ''TransportDataDictionary'' (ic_transport_data_dictionary c)
     @ setting_line ''AppDataDictionary'' (ic_app_data_dictionary c)
     @ setting_line ''UseDataDictionary'' ''N''
     @ setting_line ''ResetOnLogon'' ''Y''
     @ setting_line ''ValidateUserDefinedFields'' ''N''
     @ setting_line ''ValidateIncomingMessage'' ''N''
     @ setting_line ''ValidateFieldsOutOfOrder'' ''N''
     @ setting_line ''ValidateFieldsHaveValues'' ''N''
     @ setting_line ''RejectInvalidMessage'' ''N''
     @ setting_line ''AllowUnknownMsgFields'' ''Y''
     @ ''[SESSION]'' @ newline
     @ setting_line ''BeginString'' ''FIXT.1.1''
     @ setting_line ''DefaultApplVerID'' ''FIX.5.0SP2''
     @ setting_line ''SenderCompID'' (ic_sender_comp_id c)
     @ setting_line ''TargetCompID'' (ic_target_comp_id c)
     @ setting_line ''SocketConnectHost'' (ic_host c)
     @ setting_line ''SocketConnectPort'' (dec (unat (ic_port c)))"

section \<open>Starting\<close>

datatype start_failure = ConfigError string | RuntimeError string | OtherException string

fun start_error :: "string \<Rightarrow> string \<Rightarrow> start_failure \<Rightarrow> error" where
  "start_error cfg rt (ConfigError w) = make_error Validation (cfg @ w)"
| "start_error cfg rt (RuntimeError w) = make_error Io (rt @ w)"
| "start_error cfg rt (OtherException w) = make_error Io w"

definition initiator_start :: "(string \<Rightarrow> start_failure option) \<Rightarrow> initiator_config \<Rightarrow> unit result" where
  "initiator_start engine cfg =
     (case engine (render_session_settings cfg) of
        None \<Rightarrow> Inr ()
      | Some f \<Rightarrow> Inl (start_error ''FIX config: '' ''FIX runtime: '' f))"

definition oe_create :: "(string \<Rightarrow> start_failure option) \<Rightarrow> initiator_config \<Rightarrow> fix_app result" where
  "oe_create engine cfg =
     (case initiator_start engine cfg of
        Inl e \<Rightarrow> Inl e
      | Inr _ \<Rightarrow> Inr (oe_set_password (ic_password cfg) (ic_new_password cfg) fix_app_init))"

definition rd_create :: "(string \<Rightarrow> start_failure option) \<Rightarrow> initiator_config \<Rightarrow> fix_app result" where
  "rd_create engine cfg =
     (case initiator_start engine cfg of
        Inl e \<Rightarrow> Inl e
      | Inr _ \<Rightarrow> Inr (rd_set_password (ic_password cfg) fix_app_init))"

definition dc_create :: "(string \<Rightarrow> start_failure option) \<Rightarrow> initiator_config \<Rightarrow> fix_app result" where
  "dc_create engine cfg =
     (case initiator_start engine cfg of Inl e \<Rightarrow> Inl e | Inr _ \<Rightarrow> Inr fix_app_init)"

section \<open>Clients\<close>

text \<open>A client delegates to its application. In the world the clients share, an application is
  found by a selector and replaced by an update, and so is the engine.\<close>

record ('w, 'a) world_slot =
  sl_get :: "'w \<Rightarrow> 'a"
  sl_set :: "'a \<Rightarrow> 'w \<Rightarrow> 'w"

definition app_send ::
  "(fix_app \<Rightarrow> 'e \<Rightarrow> string result \<times> 'e) \<Rightarrow> ('w, fix_app) world_slot \<Rightarrow> ('w, 'e) world_slot \<Rightarrow> (string, 'w) fix_call" where
  "app_send f app eng w =
     (let (res, e) = f (sl_get app w) (sl_get eng w) in Some (res, [], sl_set eng e w))"

definition client_logout ::
  "(fix_app \<Rightarrow> 'e \<Rightarrow> (unit result \<times> 'e) option) \<Rightarrow> ('w, fix_app) world_slot \<Rightarrow> ('w, 'e) world_slot \<Rightarrow> (unit, 'w) fix_call" where
  "client_logout f app eng w =
     (case f (sl_get app w) (sl_get eng w) of
        None \<Rightarrow> None
      | Some (res, e) \<Rightarrow> Some (res, [], sl_set eng e w))"

definition client_login ::
  "(fix_app \<Rightarrow> 'e \<Rightarrow> unit result \<times> fix_app \<times> 'e) \<Rightarrow> ('w, fix_app) world_slot \<Rightarrow> ('w, 'e) world_slot \<Rightarrow> (unit, 'w) fix_call" where
  "client_login f app eng w =
     (let (res, a, e) = f (sl_get app w) (sl_get eng w)
      in Some (res, [], sl_set eng e (sl_set app a w)))"

definition quickfix_oe ::
  "'e fix_engine \<Rightarrow> ('w, fix_app) world_slot \<Rightarrow> ('w, 'e) world_slot \<Rightarrow> 'w oe_client" where
  "quickfix_oe en app eng =
     \<lparr>oe_place = (\<lambda>a. app_send (oe_app_place en a) app eng),
      oe_cancel = (\<lambda>a. app_send (oe_app_cancel en a) app eng),
      oe_replace = (\<lambda>a. app_send (oe_app_replace en a) app eng),
      oe_trade_report = (\<lambda>a. app_send (oe_app_trade_report en a) app eng),
      oe_logout = client_logout (app_logout en) app eng, oe_login = client_login (app_login ''OE'' en) app eng,
      oe_state = (\<lambda>w. ap_state (sl_get app w))\<rparr>"

definition quickfix_rd ::
  "'e fix_engine \<Rightarrow> ('w, fix_app) world_slot \<Rightarrow> ('w, 'e) world_slot \<Rightarrow> 'w rd_client" where
  "quickfix_rd en app eng =
     \<lparr>rd_subscribe_all = (\<lambda>i. app_send (rd_app_subscribe_all en i) app eng),
      rd_logout = client_logout (rd_app_logout en) app eng, rd_login = client_login (rd_app_login en) app eng,
      rd_state = (\<lambda>w. ap_state (sl_get app w))\<rparr>"

definition quickfix_dc ::
  "'e fix_engine \<Rightarrow> ('w, fix_app) world_slot \<Rightarrow> ('w, 'e) world_slot \<Rightarrow> 'w dc_client" where
  "quickfix_dc en app eng =
     \<lparr>dc_logout = client_logout (dc_app_logout en) app eng, dc_login = client_login (dc_app_login en) app eng,
      dc_state = (\<lambda>w. ap_state (sl_get app w))\<rparr>"

end
