(* ===== verification/Fix_Acceptor.thy ===== *)
theory Fix_Acceptor
  imports Fix_Initiator
begin

text \<open>
  \<open>src/fix/internal/acceptor_mock.hpp\<close>, \<open>src/fix/acceptor_mock.cpp\<close> and
  \<open>include/bist/fix/acceptor_mock.hpp\<close>: the counterpart the FIX clients are certified against. A
  handler gives the reply it sends, if any; a reply the engine cannot send is dropped.
\<close>

section \<open>State\<close>

record acceptor =
  ac_sessions :: "string set"
  ac_appl_req_ids :: "string set"
  ac_subscribed :: "string set"
  ac_id_counter :: u64
  ac_pending_status :: int

definition acceptor_init :: acceptor where
  "acceptor_init = \<lparr>ac_sessions = {}, ac_appl_req_ids = {}, ac_subscribed = {}, ac_id_counter = 0,
     ac_pending_status = status_Active\<rparr>"

section \<open>Sessions\<close>

definition acc_on_logon :: "string \<Rightarrow> acceptor \<Rightarrow> acceptor" where
  "acc_on_logon s ac = ac\<lparr>ac_sessions := insert s (ac_sessions ac)\<rparr>"

definition acc_on_logout :: "string \<Rightarrow> acceptor \<Rightarrow> acceptor" where
  "acc_on_logout s ac = ac\<lparr>ac_sessions := ac_sessions ac - {s}\<rparr>"

definition acc_to_admin :: "fix_message \<Rightarrow> acceptor \<Rightarrow> fix_message \<times> acceptor" where
  "acc_to_admin m ac =
     (if fm_type m = Some ''A''
      then (put tag_SessionStatus (dec_int (ac_pending_status ac)) m, ac\<lparr>ac_pending_status := status_Active\<rparr>)
      else (m, ac))"

definition acc_from_admin :: "fix_message \<Rightarrow> acceptor \<Rightarrow> acceptor" where
  "acc_from_admin m ac =
     (if fm_type m \<noteq> Some ''A'' then ac
      else let has_pwd = (case get_text m tag_Password of None \<Rightarrow> False | Some v \<Rightarrow> v \<noteq> []);
               has_new = (case get_text m tag_NewPassword of None \<Rightarrow> False | Some v \<Rightarrow> v \<noteq> [])
           in ac\<lparr>ac_pending_status := if has_pwd \<and> has_new then status_PasswordChanged else status_Active\<rparr>)"

section \<open>Application messages\<close>

definition acc_next_id :: "string \<Rightarrow> acceptor \<Rightarrow> string \<times> acceptor" where
  "acc_next_id pre ac =
     (let n = ac_id_counter ac + 1 in (pre @ dec (unat n), ac\<lparr>ac_id_counter := n\<rparr>))"

definition copy_field :: "int \<Rightarrow> fix_message \<Rightarrow> fix_message \<Rightarrow> fix_message" where
  "copy_field t src dst = (case fm_fields src t of None \<Rightarrow> dst | Some v \<Rightarrow> put t v dst)"

definition copy_basic :: "fix_message \<Rightarrow> fix_message \<Rightarrow> fix_message" where
  "copy_basic src dst =
     copy_field tag_Side src (copy_field tag_Symbol src
       (copy_field tag_OrigClOrdID src (copy_field tag_ClOrdID src dst)))"

definition order_qty_of :: "fix_codec \<Rightarrow> fix_message \<Rightarrow> rat" where
  "order_qty_of c m = (case get_double c m tag_OrderQty of None \<Rightarrow> 0 | Some x \<Rightarrow> x)"

text \<open>The report of a kind, status and open quantity, with two fresh ids.\<close>

definition execution_report ::
  "fix_codec \<Rightarrow> fix_message \<Rightarrow> char \<Rightarrow> char \<Rightarrow> rat \<Rightarrow> acceptor \<Rightarrow> fix_message \<times> acceptor" where
  "execution_report c m kind status leaves ac =
     (let (exec_id, ac1) = acc_next_id ''E'' ac;
          (order_id, ac2) = acc_next_id ''O'' ac1
      in (put tag_AvgPx (fc_double_text c 0)
          (put tag_CumQty (fc_double_text c 0)
          (put tag_LeavesQty (fc_double_text c leaves)
          (put tag_OrdStatus [status]
          (put tag_ExecType [kind]
          (put tag_OrderID order_id
          (put tag_ExecID exec_id (copy_basic m (new_message ''8'')))))))), ac2))"

definition acc_on_new_order :: "fix_codec \<Rightarrow> fix_message \<Rightarrow> acceptor \<Rightarrow> fix_message \<times> acceptor" where
  "acc_on_new_order c m ac =
     (let (er, ac1) = execution_report c m CHR ''0'' CHR ''0'' (order_qty_of c m) ac;
          short = (get_char m tag_Side = Some CHR ''5'')
      in (put_if short tag_Text ''short_sell'' (put_if short tag_TrdType ''2'' er), ac1))"

definition acc_on_cancel :: "fix_codec \<Rightarrow> fix_message \<Rightarrow> acceptor \<Rightarrow> fix_message \<times> acceptor" where
  "acc_on_cancel c m ac = execution_report c m CHR ''4'' CHR ''4'' 0 ac"

definition acc_on_replace :: "fix_codec \<Rightarrow> fix_message \<Rightarrow> acceptor \<Rightarrow> fix_message \<times> acceptor" where
  "acc_on_replace c m ac = execution_report c m CHR ''5'' CHR ''0'' (order_qty_of c m) ac"

definition acc_on_trade_report :: "fix_message \<Rightarrow> acceptor \<Rightarrow> fix_message \<times> acceptor" where
  "acc_on_trade_report m ac =
     (put tag_TrdRptStatus (dec_int 0)
      (copy_field tag_Symbol m (copy_field tag_TradeReportID m (new_message ''AR''))), ac)"

definition acc_on_amr :: "string \<Rightarrow> fix_message \<Rightarrow> acceptor \<Rightarrow> fix_message \<times> acceptor" where
  "acc_on_amr s m ac =
     (let i = (case get_text m tag_ApplReqID of None \<Rightarrow> [] | Some v \<Rightarrow> v);
          known_session = (s \<in> ac_subscribed ac);
          ac1 = ac\<lparr>ac_subscribed := insert s (ac_subscribed ac)\<rparr>;
          fresh = (\<not> known_session \<and> i \<noteq> []);
          dup = (known_session \<or> fresh \<and> i \<in> ac_appl_req_ids ac);
          ac2 = (if fresh then ac1\<lparr>ac_appl_req_ids := insert i (ac_appl_req_ids ac1)\<rparr> else ac1);
          (ack_id, ac3) = acc_next_id ''AR'' ac2;
          ack = put_if (i \<noteq> []) tag_ApplReqID i (put tag_ApplResponseID ack_id (new_message ''BX''))
      in (if dup then put tag_Text ''Duplicate Application ID'' (put tag_ApplResponseType (dec_int 2) ack)
          else put tag_Text ''Request successfully processed'' (put tag_ApplResponseType (dec_int 0) ack), ac3))"

text \<open>\<open>fromApp\<close>: the reply, or none for a type the mock does not support.\<close>

definition acc_from_app :: "fix_codec \<Rightarrow> string \<Rightarrow> fix_message \<Rightarrow> acceptor \<Rightarrow> (fix_message \<times> acceptor) option" where
  "acc_from_app c s m ac =
     (if fm_type m = Some ''D'' then Some (acc_on_new_order c m ac)
      else if fm_type m = Some ''F'' then Some (acc_on_cancel c m ac)
      else if fm_type m = Some ''G'' then Some (acc_on_replace c m ac)
      else if fm_type m = Some ''AE'' then Some (acc_on_trade_report m ac)
      else if fm_type m = Some ''BW'' then Some (acc_on_amr s m ac)
      else None)"

section \<open>Settings and start\<close>

record acceptor_config =
  af_oe_sender_comp_id :: string
  af_oe_target_comp_id :: string
  af_rd_sender_comp_id :: string
  af_rd_target_comp_id :: string
  af_app_data_dictionary :: string
  af_transport_data_dictionary :: string
  af_store_path :: string
  af_log_path :: string
  af_port :: i32
  af_heartbeat :: i32

record acceptor_endpoints =
  ae_oe_target_comp_id :: string
  ae_oe_sender_comp_id :: string
  ae_rd_target_comp_id :: string
  ae_rd_sender_comp_id :: string
  ae_app_data_dictionary :: string
  ae_transport_data_dictionary :: string
  ae_store_path :: string
  ae_log_path :: string
  ae_port :: i32
  ae_heartbeat :: i32

definition acceptor_session :: "string \<Rightarrow> string \<Rightarrow> string" where
  "acceptor_session sender target =
     (if sender = [] then []
      else ''[SESSION]'' @ newline
        @ setting_line ''BeginString'' ''FIXT.1.1''
        @ setting_line ''DefaultApplVerID'' ''FIX.5.0SP2''
        @ setting_line ''SenderCompID'' sender
        @ setting_line ''TargetCompID'' target)"

definition render_acceptor_settings :: "acceptor_endpoints \<Rightarrow> string" where
  "render_acceptor_settings e =
     ''[DEFAULT]'' @ newline
     @ setting_line ''ConnectionType'' ''acceptor''
     @ setting_line ''FileStorePath'' (ae_store_path e)
     @ setting_line ''FileLogPath'' (ae_log_path e)
     @ setting_line ''StartTime'' ''00:00:00''
     @ setting_line ''EndTime'' ''23:59:59''
     @ setting_line ''HeartBtInt'' (dec_int (sint (ae_heartbeat e)))
     @ setting_line ''TransportDataDictionary'' (ae_transport_data_dictionary e)
     @ setting_line ''AppDataDictionary'' (ae_app_data_dictionary e)
     @ setting_line ''UseDataDictionary'' ''N''
     @ setting_line ''ResetOnLogon'' ''Y''
     @ setting_line ''SocketAcceptPort'' (dec_int (sint (ae_port e)))
     @ setting_line ''ValidateUserDefinedFields'' ''N''
     @ setting_line ''ValidateIncomingMessage'' ''N''
     @ setting_line ''ValidateFieldsOutOfOrder'' ''N''
     @ setting_line ''ValidateFieldsHaveValues'' ''N''
     @ setting_line ''RejectInvalidMessage'' ''N''
     @ setting_line ''AllowUnknownMsgFields'' ''Y''
     @ acceptor_session (ae_oe_sender_comp_id e) (ae_oe_target_comp_id e)
     @ acceptor_session (ae_rd_sender_comp_id e) (ae_rd_target_comp_id e)"

text \<open>The mock's sender is the initiator's target and the other way round. A port of 0 is replaced
  by the one a probing socket is given, a parameter.\<close>

definition endpoints_of :: "acceptor_config \<Rightarrow> acceptor_endpoints" where
  "endpoints_of cfg =
     \<lparr>ae_oe_target_comp_id = af_oe_sender_comp_id cfg, ae_oe_sender_comp_id = af_oe_target_comp_id cfg,
      ae_rd_target_comp_id = af_rd_sender_comp_id cfg, ae_rd_sender_comp_id = af_rd_target_comp_id cfg,
      ae_app_data_dictionary = af_app_data_dictionary cfg,
      ae_transport_data_dictionary = af_transport_data_dictionary cfg,
      ae_store_path = af_store_path cfg, ae_log_path = af_log_path cfg, ae_port = af_port cfg,
      ae_heartbeat = af_heartbeat cfg\<rparr>"

definition acceptor_start ::
  "i32 \<Rightarrow> (string \<Rightarrow> start_failure option) \<Rightarrow> acceptor_endpoints \<Rightarrow> acceptor_endpoints result" where
  "acceptor_start probed engine e =
     (if ae_port e = 0 \<and> sint probed \<le> 0 then Inl (make_error Io ''could not pick ephemeral port'')
      else let e1 = (if ae_port e = 0 then e\<lparr>ae_port := probed\<rparr> else e)
           in case engine (render_acceptor_settings e1) of
                None \<Rightarrow> Inr e1
              | Some f \<Rightarrow> Inl (start_error ''acceptor config: '' ''acceptor runtime: '' f))"

definition acceptor_create ::
  "i32 \<Rightarrow> (string \<Rightarrow> start_failure option) \<Rightarrow> acceptor_config \<Rightarrow> (acceptor \<times> i32) result" where
  "acceptor_create probed engine cfg =
     (case acceptor_start probed engine (endpoints_of cfg) of
        Inl e \<Rightarrow> Inl e
      | Inr e \<Rightarrow> Inr (acceptor_init, ae_port e))"

end
