(* ===== verification/Fix_Runner.thy ===== *)
theory Fix_Runner
  imports Runner Fix_Facade "HOL-Library.Sublist"
begin

text \<open>
  \<open>include/bist/runner/fix_replay.hpp\<close>: \<open>FixScenarioRunner\<close> executes a scenario against the FIX
  clients. The engine runs on a thread of its own: what it does while the runner sleeps or
  waits for so many milliseconds is the function \<open>fx_engine\<close> on the world, with the events whose
  callbacks it makes; a wait ends with the first of them. \<open>None\<close> where the code does not return
  or leaves defined behaviour.
\<close>

section \<open>Events and their fields\<close>

definition fix_session_state_field :: "fix_session_state \<Rightarrow> string" where
  "fix_session_state_field s = dec (fix_session_state_code s)"

fun fix_event_name :: "fix_event \<Rightarrow> string" where
  "fix_event_name (FixSessionEv m) = ''fix_logon_response''"
| "fix_event_name (FixExecEv m) = ''fix_execution_report''"
| "fix_event_name (FixCancelRejectEv m) = ''fix_cancel_reject''"
| "fix_event_name (FixTradeEv m) = ''fix_trade_report''"
| "fix_event_name (FixQuoteEv m) = ''fix_quote_status''"
| "fix_event_name (FixAmrEv m) = ''fix_amr_ack''"

abbreviation inum :: "'a::len word \<Rightarrow> string" where
  "inum w \<equiv> dec_int (sint w)"

text \<open>\<open>s.find(t) != npos\<close>.\<close>

definition contains :: "string \<Rightarrow> string \<Rightarrow> bool" where
  "contains t s \<longleftrightarrow> sublist t s"

definition fix_logon_field :: "logon_result \<Rightarrow> string \<Rightarrow> string option" where
  "fix_logon_field m key =
     (if key \<in> {''SessionStatus'', ''session_status''} then Some (inum (lr_session_status m))
      else if key = ''state'' then Some (fix_session_state_field (lr_state m))
      else if key \<in> {''Text'', ''detail''} then Some (lr_detail m)
      else None)"

definition execution_field :: "execution_report_event \<Rightarrow> string \<Rightarrow> string option" where
  "execution_field m key =
     (if key \<in> {''ClOrdID'', ''cl_ord_id''} then Some (xe_cl_ord_id m)
      else if key \<in> {''OrigClOrdID'', ''orig_cl_ord_id''} then Some (xe_orig_cl_ord_id m)
      else if key \<in> {''ExecID'', ''exec_id''} then Some (xe_exec_id m)
      else if key \<in> {''OrderID'', ''order_id''} then Some (xe_order_id m)
      else if key \<in> {''Symbol'', ''symbol''} then Some (xe_symbol m)
      else if key \<in> {''Side'', ''side''} then Some (side_field (to_wire (xe_side m)))
      else if key \<in> {''ExecType'', ''exec_type''} then Some [xe_exec_type m]
      else if key \<in> {''OrdStatus'', ''ord_status''} then Some [xe_ord_status m]
      else if key \<in> {''LeavesQty'', ''leaves_qty''} then Some (inum (xe_leaves_qty m))
      else if key \<in> {''CumQty'', ''cum_qty''} then Some (inum (xe_cum_qty m))
      else if key \<in> {''LastQty'', ''last_qty''} then Some (inum (xe_last_qty m))
      else if key \<in> {''LastPx'', ''last_price'', ''Price'', ''price''} then Some (inum (xe_last_price m))
      else if key \<in> {''Text'', ''text''} then Some (xe_text m)
      else if key \<in> {''trd_type'', ''TrdType'', ''trade_type''}
      then Some (if contains ''short_sell'' (xe_text m) then ''short_sell'' else [])
      else None)"

definition cancel_reject_field :: "cancel_reject_event \<Rightarrow> string \<Rightarrow> string option" where
  "cancel_reject_field m key =
     (if key \<in> {''ClOrdID'', ''cl_ord_id''} then Some (cj_cl_ord_id m)
      else if key \<in> {''OrigClOrdID'', ''orig_cl_ord_id''} then Some (cj_orig_cl_ord_id m)
      else if key \<in> {''Text'', ''text''} then Some (cj_text m)
      else None)"

definition trade_report_field :: "trade_report_event \<Rightarrow> string \<Rightarrow> string option" where
  "trade_report_field m key =
     (if key \<in> {''TradeReportID'', ''trade_report_id''} then Some (xv_trade_report_id m)
      else if key \<in> {''TradeReportRefID'', ''trade_report_ref_id''} then Some (xv_trade_report_ref_id m)
      else if key \<in> {''Symbol'', ''symbol''} then Some (xv_symbol m)
      else if key \<in> {''Side'', ''side''} then Some (side_field (to_wire (xv_side m)))
      else if key \<in> {''LastQty'', ''quantity'', ''last_qty''} then Some (inum (xv_quantity m))
      else if key \<in> {''LastPx'', ''price'', ''last_price''} then Some (inum (xv_price m))
      else if key \<in> {''CounterpartyID'', ''counterparty_id''} then Some (xv_counterparty_id m)
      else None)"

definition quote_status_field :: "quote_status_event \<Rightarrow> string \<Rightarrow> string option" where
  "quote_status_field m key =
     (if key \<in> {''QuoteID'', ''quote_id''} then Some (xq_quote_id m)
      else if key \<in> {''Symbol'', ''symbol''} then Some (xq_symbol m)
      else if key \<in> {''Side'', ''side''} then Some (side_field (to_wire (xq_side m)))
      else if key \<in> {''QuoteStatus'', ''quote_status''} then Some (num (xq_quote_status m))
      else if key \<in> {''LeavesQty'', ''leaves_qty''} then Some (inum (xq_leaves_qty m))
      else if key \<in> {''Price'', ''price''} then Some (inum (xq_price m))
      else None)"

definition amr_field :: "amr_ack \<Rightarrow> string \<Rightarrow> string option" where
  "amr_field m key =
     (if key = ''ok'' then Some (if am_ok m then ''true'' else ''false'')
      else if key \<in> {''detail'', ''Text''} then Some (am_detail m)
      else None)"

fun fix_event_field :: "fix_event \<Rightarrow> string \<Rightarrow> string option" where
  "fix_event_field (FixSessionEv m) key = fix_logon_field m key"
| "fix_event_field (FixExecEv m) key = execution_field m key"
| "fix_event_field (FixCancelRejectEv m) key = cancel_reject_field m key"
| "fix_event_field (FixTradeEv m) key = trade_report_field m key"
| "fix_event_field (FixQuoteEv m) key = quote_status_field m key"
| "fix_event_field (FixAmrEv m) key = amr_field m key"

definition fix_event_matches :: "expect \<Rightarrow> fix_event \<Rightarrow> bool \<times> string" where
  "fix_event_matches exp ev =
     (let actual = fix_event_name ev
      in if actual \<noteq> ex_msg exp \<and> ex_msg exp \<noteq> ''any''
         then (False, ''expected '' @ ex_msg exp @ '', got '' @ actual)
         else expected_fields_match (ex_fields exp) (fix_event_field ev))"

section \<open>Prices and order types\<close>

definition ord_type_from :: "string \<Rightarrow> ord_type" where
  "ord_type_from s =
     (if s = ''MARKET'' then Market
      else if s = ''MTL'' then MarketToLimit
      else if s = ''IMBALANCE'' then Imbalance
      else if s = ''MIDPOINT_LIMIT'' then MidpointLimit
      else if s = ''MIDPOINT_MARKET'' then MidpointMarket
      else Limit)"

text \<open>The loop over the characters: integer part, fraction and number of its digits. Any number
  of points is allowed; another character makes the function return 0: \<open>Some None\<close>.\<close>

fun scan_price :: "string \<Rightarrow> bool \<Rightarrow> int \<Rightarrow> int \<Rightarrow> nat \<Rightarrow> (int \<times> int \<times> nat) option option" where
  "scan_price [] seen_dot whole frac digits = Some (Some (whole, frac, digits))"
| "scan_price (c # cs) seen_dot whole frac digits =
     (if c = CHR ''.'' then scan_price cs True whole frac digits
      else if \<not> is_digit c then Some None
      else if \<not> seen_dot then
        (if i64_ok (whole * 10) \<and> i64_ok (whole * 10 + int (digit_val c))
         then scan_price cs seen_dot (whole * 10 + int (digit_val c)) frac digits else None)
      else if i64_ok (frac * 10) \<and> i64_ok (frac * 10 + int (digit_val c))
      then scan_price cs seen_dot whole (frac * 10 + int (digit_val c)) (Suc digits)
      else None)"

text \<open>\<open>x /= 10\<close>, \<open>n\<close> times, of a number that is not negative.\<close>

fun tenth :: "nat \<Rightarrow> int \<Rightarrow> int" where
  "tenth 0 x = x"
| "tenth (Suc n) x = tenth n (x div 10)"

definition parse_price :: "string \<Rightarrow> i8 \<Rightarrow> price_int option" where
  "parse_price s decimals =
     (if s = [] then Some 0
      else let neg = (hd s = CHR ''-'')
      in case scan_price (if neg then tl s else s) False 0 0 0 of
           None \<Rightarrow> None
         | Some None \<Rightarrow> Some 0
         | Some (Some (whole, frac, digits)) \<Rightarrow>
             Option.bind (times_ten (nat (sint decimals)) 1)
             (\<lambda>pow10. Option.bind (times_ten (nat (sint decimals - int digits)) frac)
             (\<lambda>frac1. let frac2 = tenth (nat (int digits - sint decimals)) frac1
               in if i64_ok (whole * pow10) \<and> i64_ok (whole * pow10 + frac2)
                  then let v = whole * pow10 + frac2 in Some (word_of_int (if neg then - v else v))
                  else None)))"

section \<open>State\<close>

record token_info =
  ti_symbol :: string
  ti_side :: side
  ti_quantity :: quantity

record 'w fix_runner =
  fx_oe :: "'w oe_client option"
  fx_rd :: "'w rd_client option"
  fx_dc :: "'w dc_client option"
  fx_world :: 'w
  fx_engine :: "int \<Rightarrow> 'w \<Rightarrow> fix_event list \<times> 'w"
  fx_events :: "fix_event list"
  fx_token_index :: "string \<rightharpoonup> token_info"
  fx_mono :: clock
  fx_steady :: clock

definition set_clients ::
  "'w oe_client option \<Rightarrow> 'w rd_client option \<Rightarrow> 'w dc_client option \<Rightarrow> 'w fix_runner \<Rightarrow> 'w fix_runner" where
  "set_clients oe rd dc r = r\<lparr>fx_oe := oe, fx_rd := rd, fx_dc := dc\<rparr>"

definition fx_push :: "fix_event \<Rightarrow> 'w fix_runner \<Rightarrow> 'w fix_runner" where
  "fx_push ev r = r\<lparr>fx_events := fx_events r @ [ev]\<rparr>"

text \<open>A call of a client, and the engine's activity while the runner sleeps or waits; the
  callbacks made meanwhile push their events.\<close>

definition fx_call :: "('a, 'w) fix_call \<Rightarrow> 'w fix_runner \<Rightarrow> ('a result \<times> 'w fix_runner) option" where
  "fx_call f r =
     (case f (fx_world r) of
        None \<Rightarrow> None
      | Some (res, evs, w) \<Rightarrow> Some (res, fold fx_push evs (r\<lparr>fx_world := w\<rparr>)))"

definition fx_meanwhile :: "int \<Rightarrow> 'w fix_runner \<Rightarrow> 'w fix_runner" where
  "fx_meanwhile ms r = (let (evs, w) = fx_engine r ms (fx_world r) in fold fx_push evs (r\<lparr>fx_world := w\<rparr>))"

definition fx_wait_for_event :: "i32 \<Rightarrow> 'w fix_runner \<Rightarrow> fix_event option \<times> 'w fix_runner" where
  "fx_wait_for_event timeout_ms r =
     (let r1 = (if fx_events r = [] then fx_meanwhile (sint timeout_ms) r else r)
      in case fx_events r1 of
           [] \<Rightarrow> (None, r1)
         | ev # evs \<Rightarrow> (Some ev, r1\<lparr>fx_events := evs\<rparr>))"

section \<open>Session steps\<close>

definition relogon_states :: "fix_session_state set" where
  "relogon_states = {FixLoggedOut, FixDisconnected, FixFailed}"

text \<open>The re-logon of one client: nothing to do, or the login call and its error.\<close>

definition fx_relogon ::
  "string \<Rightarrow> ('w \<Rightarrow> fix_session_state) option \<Rightarrow> (unit, 'w) fix_call \<Rightarrow> 'w fix_runner
   \<Rightarrow> (string option \<times> 'w fix_runner) option" where
  "fx_relogon name state login r =
     (case state of
        None \<Rightarrow> Some (None, r)
      | Some st \<Rightarrow>
          (if st (fx_world r) \<notin> relogon_states then Some (None, r)
           else case fx_call login r of
                  None \<Rightarrow> None
                | Some (Inl e, r1) \<Rightarrow> Some (Some (name @ '' login() failed: '' @ detail e), r1)
                | Some (Inr _, r1) \<Rightarrow> Some (None, r1)))"

definition fx_active :: "('w \<Rightarrow> fix_session_state) option \<Rightarrow> 'w \<Rightarrow> bool" where
  "fx_active state w = (case state of None \<Rightarrow> False | Some st \<Rightarrow> st w = FixActive)"

abbreviation oe_status :: "'w fix_runner \<Rightarrow> ('w \<Rightarrow> fix_session_state) option" where
  "oe_status r \<equiv> map_option oe_state (fx_oe r)"

abbreviation rd_status :: "'w fix_runner \<Rightarrow> ('w \<Rightarrow> fix_session_state) option" where
  "rd_status r \<equiv> map_option rd_state (fx_rd r)"

abbreviation dc_status :: "'w fix_runner \<Rightarrow> ('w \<Rightarrow> fix_session_state) option" where
  "dc_status r \<equiv> map_option dc_state (fx_dc r)"

definition fx_run_logon :: "step \<Rightarrow> 'w fix_runner \<Rightarrow> (step_result \<times> 'w fix_runner) option" where
  "fx_run_logon s r =
     (if fx_active (oe_status r) (fx_world r) then Some (outcome s True ''OE already Active'', r)
      else if fx_active (rd_status r) (fx_world r) then Some (outcome s True ''RD already Active'', r)
      else case fx_relogon ''OE'' (oe_status r) (oe_login (the (fx_oe r))) r of
             None \<Rightarrow> None
           | Some (Some why, r1) \<Rightarrow> Some (outcome s False why, r1)
           | Some (None, r1) \<Rightarrow>
               (case fx_relogon ''RD'' (rd_status r1) (rd_login (the (fx_rd r1))) r1 of
                  None \<Rightarrow> None
                | Some (Some why, r2) \<Rightarrow> Some (outcome s False why, r2)
                | Some (None, r2) \<Rightarrow> Some (outcome s True [], r2)))"

text \<open>The result of a logout is dropped.\<close>

definition fx_logout_of :: "(unit, 'w) fix_call option \<Rightarrow> 'w fix_runner \<Rightarrow> 'w fix_runner option" where
  "fx_logout_of f r = (case f of None \<Rightarrow> Some r | Some call \<Rightarrow> map_option snd (fx_call call r))"

definition fx_run_logout :: "step \<Rightarrow> 'w fix_runner \<Rightarrow> (step_result \<times> 'w fix_runner) option" where
  "fx_run_logout s r =
     Option.bind (fx_logout_of (map_option oe_logout (fx_oe r)) r)
     (\<lambda>r1. Option.bind (fx_logout_of (map_option rd_logout (fx_rd r1)) r1)
     (\<lambda>r2. Option.bind (fx_logout_of (map_option dc_logout (fx_dc r2)) r2)
     (\<lambda>r3. Some (outcome s True [], r3))))"

definition fx_run_amr :: "step \<Rightarrow> string \<Rightarrow> 'w fix_runner \<Rightarrow> (step_result \<times> 'w fix_runner) option" where
  "fx_run_amr s appl_req_id r =
     (case fx_rd r of
        None \<Rightarrow> Some (outcome s False ''no RdClient'', r)
      | Some rd \<Rightarrow>
          (case fx_call (rd_subscribe_all rd appl_req_id) r of
             None \<Rightarrow> None
           | Some (Inl e, r1) \<Rightarrow> Some (outcome s False (detail e), r1)
           | Some (Inr _, r1) \<Rightarrow> Some (outcome s True [], r1)))"

definition fx_run_wait_hb :: "step \<Rightarrow> fix_wait_args \<Rightarrow> 'w fix_runner \<Rightarrow> step_result \<times> 'w fix_runner" where
  "fx_run_wait_hb s a r = (outcome s True [], fx_meanwhile (min (sint (fh_timeout_ms a)) 200) r)"

section \<open>Order steps\<close>

definition fx_index :: "string \<Rightarrow> token_info \<Rightarrow> 'w fix_runner \<Rightarrow> 'w fix_runner" where
  "fx_index token info r =
     (if token = [] then r else r\<lparr>fx_token_index := (fx_token_index r)(token \<mapsto> info)\<rparr>)"

text \<open>The call of the client, and the entry of the token index a success makes.\<close>

definition fx_order_step ::
  "step \<Rightarrow> (string, 'w) fix_call \<Rightarrow> string \<Rightarrow> token_info \<Rightarrow> 'w fix_runner
   \<Rightarrow> (step_result \<times> 'w fix_runner) option" where
  "fx_order_step s f token info r =
     (case fx_call f r of
        None \<Rightarrow> None
      | Some (Inl e, r1) \<Rightarrow> Some (outcome s False (detail e), r1)
      | Some (Inr _, r1) \<Rightarrow> Some (outcome s True [], fx_index token info r1))"

definition fx_place_request :: "fix_place_args \<Rightarrow> price_int \<Rightarrow> oe_place_args" where
  "fx_place_request a price =
     oe_place_args_default\<lparr>xp_cl_ord_id := fp_cl_ord_id a, xp_symbol := fp_symbol a, xp_side := fp_side a,
       xp_quantity := fp_quantity a, xp_price_decimals := 3, xp_price := price,
       xp_ord_type := ord_type_from (fp_ord_type a), xp_tif := fp_tif a, xp_account := fp_account a,
       xp_afk := fp_afk a, xp_display_quantity := fp_display_quantity a\<rparr>"

definition fx_run_place :: "step \<Rightarrow> fix_place_args \<Rightarrow> 'w fix_runner \<Rightarrow> (step_result \<times> 'w fix_runner) option" where
  "fx_run_place s a r =
     (case fx_oe r of
        None \<Rightarrow> Some (outcome s False ''no OeClient'', r)
      | Some oe \<Rightarrow>
          (case parse_price (fp_price_str a) 3 of
             None \<Rightarrow> None
           | Some price \<Rightarrow>
               fx_order_step s (oe_place oe (fx_place_request a price)) (fp_cl_ord_id a)
                 \<lparr>ti_symbol = fp_symbol a, ti_side = fp_side a, ti_quantity = fp_quantity a\<rparr> r))"

text \<open>A cancel without a symbol is completed from the order it refers to.\<close>

definition fx_cancel_request :: "fix_cancel_args \<Rightarrow> (string \<rightharpoonup> token_info) \<Rightarrow> oe_cancel_args" where
  "fx_cancel_request a index =
     (let ca = \<lparr>xc_cl_ord_id = fk_cl_ord_id a, xc_orig_cl_ord_id = fk_orig_cl_ord_id a,
            xc_symbol = fk_symbol a, xc_side = fk_side a, xc_quantity = fk_quantity a\<rparr>
      in if xc_symbol ca = [] \<and> xc_orig_cl_ord_id ca \<noteq> [] then
           (case index (xc_orig_cl_ord_id ca) of
              None \<Rightarrow> ca
            | Some ti \<Rightarrow> ca\<lparr>xc_symbol := ti_symbol ti, xc_side := ti_side ti,
                xc_quantity := if xc_quantity ca = 0 then ti_quantity ti else xc_quantity ca\<rparr>)
         else ca)"

definition fx_run_cancel :: "step \<Rightarrow> fix_cancel_args \<Rightarrow> 'w fix_runner \<Rightarrow> (step_result \<times> 'w fix_runner) option" where
  "fx_run_cancel s a r =
     (case fx_oe r of
        None \<Rightarrow> Some (outcome s False ''no OeClient'', r)
      | Some oe \<Rightarrow>
          (let ca = fx_cancel_request a (fx_token_index r)
           in fx_order_step s (oe_cancel oe ca) (xc_cl_ord_id ca)
                \<lparr>ti_symbol = xc_symbol ca, ti_side = xc_side ca, ti_quantity = xc_quantity ca\<rparr> r))"

definition fx_replace_request ::
  "fix_replace_args \<Rightarrow> price_int \<Rightarrow> (string \<rightharpoonup> token_info) \<Rightarrow> oe_replace_args" where
  "fx_replace_request a price index =
     (let ra = \<lparr>xr_cl_ord_id = fr_cl_ord_id a, xr_orig_cl_ord_id = fr_orig_cl_ord_id a,
            xr_symbol = fr_symbol a, xr_side = fr_side a, xr_new_quantity = fr_new_quantity a,
            xr_new_price = price, xr_price_decimals = 3, xr_ord_type = ord_type_from (fr_ord_type a)\<rparr>
      in if xr_symbol ra = [] \<and> xr_orig_cl_ord_id ra \<noteq> [] then
           (case index (xr_orig_cl_ord_id ra) of
              None \<Rightarrow> ra
            | Some ti \<Rightarrow> ra\<lparr>xr_symbol := ti_symbol ti, xr_side := ti_side ti\<rparr>)
         else ra)"

definition fx_run_replace :: "step \<Rightarrow> fix_replace_args \<Rightarrow> 'w fix_runner \<Rightarrow> (step_result \<times> 'w fix_runner) option" where
  "fx_run_replace s a r =
     (case fx_oe r of
        None \<Rightarrow> Some (outcome s False ''no OeClient'', r)
      | Some oe \<Rightarrow>
          (case parse_price (fr_price_str a) 3 of
             None \<Rightarrow> None
           | Some price \<Rightarrow>
               (let ra = fx_replace_request a price (fx_token_index r)
                in fx_order_step s (oe_replace oe ra) (xr_cl_ord_id ra)
                     \<lparr>ti_symbol = xr_symbol ra, ti_side = xr_side ra, ti_quantity = xr_new_quantity ra\<rparr> r)))"

section \<open>Expectations\<close>

definition none_active :: "'w fix_runner \<Rightarrow> bool" where
  "none_active r \<longleftrightarrow>
     \<not> fx_active (oe_status r) (fx_world r) \<and> \<not> fx_active (rd_status r) (fx_world r) \<and> \<not> fx_active (dc_status r) (fx_world r)"

partial_function (option) logout_loop :: "int \<Rightarrow> 'w fix_runner \<Rightarrow> ((bool \<times> string) \<times> 'w fix_runner) option" where
  "logout_loop deadline r =
     (let (now, ck) = read_clock (fx_steady r); r1 = r\<lparr>fx_steady := ck\<rparr>
      in if sint now < deadline then
           (if none_active r1 then Some ((True, []), r1\<lparr>fx_events := []\<rparr>)
            else logout_loop deadline (fx_meanwhile 50 r1))
         else Some ((False, ''logout did not complete within timeout''), r1))"

text \<open>A session event that is no successful logon does not count as a logon response.\<close>

definition logon_breadcrumb :: "expect \<Rightarrow> fix_event \<Rightarrow> bool" where
  "logon_breadcrumb exp ev =
     (ex_msg exp = ''fix_logon_response''
      \<and> (case ev of FixSessionEv lr \<Rightarrow> lr_state lr \<noteq> FixActive \<and> lr_state lr \<noteq> FixPasswordChanged
         | _ \<Rightarrow> False))"

partial_function (option) fx_match_loop ::
  "expect \<Rightarrow> i32 \<Rightarrow> nat \<Rightarrow> 'w fix_runner \<Rightarrow> ((bool \<times> string) \<times> 'w fix_runner) option" where
  "fx_match_loop exp timeout_ms needed r =
     (if needed = 0 then Some ((True, []), r)
      else case fx_wait_for_event timeout_ms r of
             (None, r1) \<Rightarrow> Some ((False, ''timeout waiting for '' @ ex_msg exp), r1)
           | (Some ev, r1) \<Rightarrow>
               (if logon_breadcrumb exp ev then fx_match_loop exp timeout_ms needed r1
                else if fst (fix_event_matches exp ev) then fx_match_loop exp timeout_ms (needed - 1) r1
                else if ex_msg exp = ''any'' then fx_match_loop exp timeout_ms (needed - 1) r1
                else fx_match_loop exp timeout_ms needed r1))"

definition fx_match_expectation ::
  "expect \<Rightarrow> i32 \<Rightarrow> 'w fix_runner \<Rightarrow> ((bool \<times> string) \<times> 'w fix_runner) option" where
  "fx_match_expectation exp timeout_ms r =
     (if ex_msg exp = ''server_heartbeat'' then Some ((True, []), r)
      else if ex_msg exp = ''fix_logout_complete'' then
        (let (now, ck) = read_clock (fx_steady r);
             deadline = sint now + sint timeout_ms * 1000000
         in if i64_ok deadline then logout_loop deadline (r\<lparr>fx_steady := ck\<rparr>) else None)
      else fx_match_loop exp timeout_ms (nat (max 1 (sint (ex_occurrences exp)))) r)"

section \<open>The scenario\<close>

definition fix_wait_args_default :: fix_wait_args where
  "fix_wait_args_default = \<lparr>fh_from = [], fh_count = 1, fh_timeout_ms = 32000\<rparr>"

definition fix_place_args_default :: fix_place_args where
  "fix_place_args_default =
     \<lparr>fp_cl_ord_id = [], fp_symbol = [], fp_side = Buy, fp_quantity = 0, fp_price_str = [], fp_tif = Day,
      fp_ord_type = [], fp_category = Client, fp_account = [], fp_afk = [], fp_display_quantity = 0\<rparr>"

definition fix_cancel_args_default :: fix_cancel_args where
  "fix_cancel_args_default =
     \<lparr>fk_cl_ord_id = [], fk_orig_cl_ord_id = [], fk_symbol = [], fk_side = Buy, fk_quantity = 0\<rparr>"

definition fix_replace_args_default :: fix_replace_args where
  "fix_replace_args_default =
     \<lparr>fr_cl_ord_id = [], fr_orig_cl_ord_id = [], fr_symbol = [], fr_side = Buy, fr_new_quantity = 0,
      fr_price_str = [], fr_ord_type = []\<rparr>"

definition fx_run_action :: "step \<Rightarrow> 'w fix_runner \<Rightarrow> (step_result \<times> 'w fix_runner) option" where
  "fx_run_action s r =
     (if st_action s = ''fix_logon'' then fx_run_logon s r
      else if st_action s = ''fix_logout'' then fx_run_logout s r
      else if st_action s \<in> {''fix_amr_subscribe'', ''fix_amr''} then
        fx_run_amr s (case st_args s of FixAmrSubscribeArgs i \<Rightarrow> i | _ \<Rightarrow> []) r
      else if st_action s \<in> {''fix_wait_heartbeat'', ''wait_heartbeat''} then
        Some (fx_run_wait_hb s (case st_args s of FixWaitHeartbeatArgs a \<Rightarrow> a | _ \<Rightarrow> fix_wait_args_default) r)
      else if st_action s \<in> {''fix_place'', ''place''} then
        fx_run_place s (case st_args s of FixPlaceArgs a \<Rightarrow> a | _ \<Rightarrow> fix_place_args_default) r
      else if st_action s \<in> {''fix_cancel'', ''cancel_by_token'', ''cancel_by_order_id''} then
        fx_run_cancel s (case st_args s of FixCancelArgs a \<Rightarrow> a | _ \<Rightarrow> fix_cancel_args_default) r
      else if st_action s \<in> {''fix_replace'', ''replace''} then
        fx_run_replace s (case st_args s of FixReplaceArgs a \<Rightarrow> a | _ \<Rightarrow> fix_replace_args_default) r
      else if st_action s \<in> {''expect'', ''trigger_match''} then Some (outcome s True [], r)
      else Some (outcome s False (''unsupported FIX action: '' @ st_action s), r))"

definition fx_check_expectation ::
  "i32 \<Rightarrow> step \<Rightarrow> step_result \<Rightarrow> 'w fix_runner \<Rightarrow> (step_result \<times> 'w fix_runner) option" where
  "fx_check_expectation default_timeout s res r =
     (case st_expect s of
        None \<Rightarrow> Some (res, r)
      | Some exp \<Rightarrow>
          if \<not> res_passed res then Some (res, r)
          else case fx_match_expectation exp (if ex_timeout_ms exp \<noteq> 0 then ex_timeout_ms exp else default_timeout) r of
                 None \<Rightarrow> None
               | Some ((ok, why), r1) \<Rightarrow>
                   Some (if ok then res else res\<lparr>res_passed := False, res_detail := why\<rparr>, r1))"

definition fx_now :: "'w fix_runner \<Rightarrow> u64 \<times> 'w fix_runner" where
  "fx_now r = (let (t, ck) = read_clock (fx_mono r) in (t, r\<lparr>fx_mono := ck\<rparr>))"

definition fx_run_step :: "i32 \<Rightarrow> step \<Rightarrow> 'w fix_runner \<Rightarrow> (step_result \<times> 'w fix_runner) option" where
  "fx_run_step default_timeout s r =
     (let (t0, r0) = fx_now r
      in case fx_run_action s r0 of
           None \<Rightarrow> None
         | Some (res, r1) \<Rightarrow>
             (case fx_check_expectation default_timeout s res r1 of
                None \<Rightarrow> None
              | Some (res2, r2) \<Rightarrow>
                  (let (t1, r3) = fx_now r2 in Some (res2\<lparr>res_elapsed_ns := t1 - t0\<rparr>, r3))))"

fun fx_run_steps :: "i32 \<Rightarrow> step list \<Rightarrow> 'w fix_runner \<Rightarrow> (step_result list \<times> 'w fix_runner) option" where
  "fx_run_steps t [] r = Some ([], r)"
| "fx_run_steps t (s # ss) r =
     (case fx_run_step t s r of
        None \<Rightarrow> None
      | Some (res, r1) \<Rightarrow>
          (case fx_run_steps t ss r1 of None \<Rightarrow> None | Some (rs, r2) \<Rightarrow> Some (res # rs, r2)))"

definition fx_run_scenario :: "scenario \<Rightarrow> 'w fix_runner \<Rightarrow> (step_result list \<times> 'w fix_runner) option" where
  "fx_run_scenario sc r = fx_run_steps (sc_default_timeout_ms sc) (sc_steps sc) r"

end
