(* ===== verification/Fix_Runner_Laws.thy ===== *)
theory Fix_Runner_Laws
  imports Fix_Runner
begin

text \<open>
  What the FIX scenario runner guarantees: which events satisfy an expectation, when waiting
  ends, how a cancel is completed from the order it refers to, and how prices are read.
\<close>

section \<open>The event queue\<close>

lemma fold_fx_push: "fold fx_push evs r = r\<lparr>fx_events := fx_events r @ evs\<rparr>"
  by (induction evs arbitrary: r) (simp_all add: fx_push_def)

lemma fx_call_eq:
  "fx_call f r = map_option (\<lambda>(res, evs, w). (res, r\<lparr>fx_world := w, fx_events := fx_events r @ evs\<rparr>)) (f (fx_world r))"
  by (auto simp: fx_call_def fold_fx_push split: option.split)

lemma fx_meanwhile_eq:
  "fx_meanwhile ms r = r\<lparr>fx_world := snd (fx_engine r ms (fx_world r)),
     fx_events := fx_events r @ fst (fx_engine r ms (fx_world r))\<rparr>"
  by (simp add: fx_meanwhile_def fold_fx_push case_prod_beta Let_def)

lemma fx_wait_queued: "fx_events r = ev # evs \<Longrightarrow> fx_wait_for_event t r = (Some ev, r\<lparr>fx_events := evs\<rparr>)"
  by (simp add: fx_wait_for_event_def)

section \<open>Expectations\<close>

text \<open>The events an expectation counts.\<close>

definition fix_counts :: "expect \<Rightarrow> fix_event \<Rightarrow> bool" where
  "fix_counts exp ev \<longleftrightarrow>
     \<not> logon_breadcrumb exp ev
     \<and> (ex_msg exp = ''any''
        \<or> ex_msg exp = fix_event_name ev \<and> (\<forall>(key, v) \<in> set (ex_fields exp). fix_event_field ev key = Some v))"

lemma fix_counts_iff:
  "fix_counts exp ev \<longleftrightarrow>
     \<not> logon_breadcrumb exp ev \<and> (fst (fix_event_matches exp ev) \<or> ex_msg exp = ''any'')"
  by (auto simp: fix_counts_def fix_event_matches_def fields_match_iff Let_def)

text \<open>What is left of a list after the \<open>n\<close>th element of a kind.\<close>

fun after_nth :: "nat \<Rightarrow> ('a \<Rightarrow> bool) \<Rightarrow> 'a list \<Rightarrow> 'a list" where
  "after_nth 0 P xs = xs"
| "after_nth (Suc n) P [] = []"
| "after_nth (Suc n) P (x # xs) = after_nth (if P x then n else Suc n) P xs"

lemma match_loop_0 [simp]: "fx_match_loop exp t 0 r = Some ((True, []), r)"
  by (simp add: fx_match_loop.simps)

lemma fx_loop_queued:
  assumes "fx_events r = ev # evs"
  shows "fx_match_loop exp t (Suc n) r
    = fx_match_loop exp t (if fix_counts exp ev then n else Suc n) (r\<lparr>fx_events := evs\<rparr>)"
  by (simp add: fx_match_loop.simps [of exp t "Suc n"] fx_wait_queued [OF assms] fix_counts_iff)

lemma match_loop_passes:
  assumes "n \<le> length (filter (fix_counts exp) (fx_events r))"
  shows "fx_match_loop exp t n r = Some ((True, []), r\<lparr>fx_events := after_nth n (fix_counts exp) (fx_events r)\<rparr>)"
  using assms
proof (induction n "fix_counts exp" "fx_events r" arbitrary: r rule: after_nth.induct)
  case (3 n x xs)
  from "3.prems" "3.hyps"(2) [symmetric] "3.hyps"(1) [of "r\<lparr>fx_events := xs\<rparr>"] show ?case
    by (simp add: fx_loop_queued split: if_splits)
qed simp_all

lemma match_loop_exhausts:
  assumes "length (filter (fix_counts exp) (fx_events r)) < n"
  shows "fx_match_loop exp t n r
    = fx_match_loop exp t (n - length (filter (fix_counts exp) (fx_events r))) (r\<lparr>fx_events := []\<rparr>)"
  using assms
proof (induction "fx_events r" arbitrary: r n)
  case Nil
  then show ?case by (cases r) simp
next
  case (Cons ev evs)
  from Cons.prems obtain m where "n = Suc m" by (cases n) auto
  with Cons.prems Cons.hyps(2) [symmetric] Cons.hyps(1) [of "r\<lparr>fx_events := evs\<rparr>"] show ?case
    by (auto simp: fx_loop_queued)
qed

lemma match_loop_silent:
  assumes "fx_events r = []" "fst (fx_engine r (sint t) (fx_world r)) = []" "0 < n"
  shows "\<exists>r'. fx_match_loop exp t n r = Some ((False, ''timeout waiting for '' @ ex_msg exp), r')
    \<and> fx_events r' = []"
  using assms by (simp add: fx_match_loop.simps [of exp t n] fx_wait_for_event_def fx_meanwhile_eq)

text \<open>An event that arrives while the queue is empty and counts satisfies an expectation of one.\<close>

lemma match_loop_arrives:
  assumes "fx_events r = []" "fst (fx_engine r (sint t) (fx_world r)) = [ev]" "fix_counts exp ev"
  obtains r' where "fx_match_loop exp t 1 r = Some ((True, []), r')" "fx_events r' = []"
proof -
  let ?r' = "r\<lparr>fx_world := snd (fx_engine r (sint t) (fx_world r)), fx_events := []\<rparr>"
  have "fx_match_loop exp t 1 r = fx_match_loop exp t 0 ?r'"
    using assms(1-3) by (auto simp: fx_match_loop.simps [of exp t "Suc 0" r] fx_wait_for_event_def fx_meanwhile_eq
        fix_counts_iff simp del: match_loop_0)
  then show thesis using that [of ?r'] by simp
qed

lemma match_loop_cross_talk:
  assumes "fx_match_loop exp t n r = Some res"
  shows "(\<forall>w. fst (fx_engine r (sint t) w) \<noteq> [] \<and> (\<forall>ev \<in> set (fst (fx_engine r (sint t) w)). \<not> fix_counts exp ev))
    \<and> (\<forall>ev \<in> set (fx_events r). \<not> fix_counts exp ev) \<longrightarrow> n = 0"
proof (rule fx_match_loop.raw_induct [where P = "\<lambda>exp t n r _.
    (\<forall>w. fst (fx_engine r (sint t) w) \<noteq> [] \<and> (\<forall>ev \<in> set (fst (fx_engine r (sint t) w)). \<not> fix_counts exp ev))
    \<and> (\<forall>ev \<in> set (fx_events r). \<not> fix_counts exp ev) \<longrightarrow> n = 0", OF _ assms])
  fix loop :: "expect \<Rightarrow> i32 \<Rightarrow> nat \<Rightarrow> 'a fix_runner \<Rightarrow> ((bool \<times> string) \<times> 'a fix_runner) option"
    and exp t n r res
  let ?talk = "\<lambda>exp t r. (\<forall>w. fst (fx_engine r (sint t) w) \<noteq> []
      \<and> (\<forall>ev \<in> set (fst (fx_engine r (sint t) w)). \<not> fix_counts exp ev))
    \<and> (\<forall>ev \<in> set (fx_events r). \<not> fix_counts exp ev)"
  assume ih: "\<And>exp t n r res. loop exp t n r = Some res \<Longrightarrow> ?talk exp t r \<longrightarrow> n = 0"
    and body: "(if n = 0 then Some ((True, []), r)
      else case fx_wait_for_event t r of
             (None, r1) \<Rightarrow> Some ((False, ''timeout waiting for '' @ ex_msg exp), r1)
           | (Some ev, r1) \<Rightarrow>
               (if logon_breadcrumb exp ev then loop exp t n r1
                else if fst (fix_event_matches exp ev) then loop exp t (n - 1) r1
                else if ex_msg exp = ''any'' then loop exp t (n - 1) r1
                else loop exp t n r1)) = Some res"
  show "?talk exp t r \<longrightarrow> n = 0"
  proof
    assume talk: "?talk exp t r"
    show "n = 0"
    proof (rule ccontr)
      assume n: "n \<noteq> 0"
      let ?r1 = "if fx_events r = [] then fx_meanwhile (sint t) r else r"
      have talk1: "?talk exp t ?r1" "fx_events ?r1 \<noteq> []"
        using talk by (auto simp: fx_meanwhile_eq)
      then obtain ev evs where q: "fx_events ?r1 = ev # evs" by (cases "fx_events ?r1") auto
      then have wait: "fx_wait_for_event t r = (Some ev, ?r1\<lparr>fx_events := evs\<rparr>)"
        by (simp add: fx_wait_for_event_def Let_def)
      have "\<not> fix_counts exp ev" using talk1(1) q by simp
      then have "loop exp t n (?r1\<lparr>fx_events := evs\<rparr>) = Some res"
        using body n wait by (auto simp: fix_counts_iff split: if_splits)
      moreover have "?talk exp t (?r1\<lparr>fx_events := evs\<rparr>)" using talk1(1) q by simp
      ultimately show False using ih n by blast
    qed
  qed
qed

section \<open>Waiting for a logout\<close>

text \<open>The reading of a clock that is to come \<open>i\<close>th; the last one repeats.\<close>

fun clock_at :: "nat \<Rightarrow> clock \<Rightarrow> u64" where
  "clock_at 0 ck = ck_now ck"
| "clock_at (Suc i) ck = clock_at i (snd (read_clock ck))"

text \<open>The world after the engine has run \<open>i\<close> times for 50 ms.\<close>

definition world_after :: "nat \<Rightarrow> 'w fix_runner \<Rightarrow> 'w" where
  "world_after i r = ((\<lambda>w. snd (fx_engine r 50 w)) ^^ i) (fx_world r)"

definition down_after :: "nat \<Rightarrow> 'w fix_runner \<Rightarrow> bool" where
  "down_after i r \<longleftrightarrow> none_active (r\<lparr>fx_world := world_after i r\<rparr>)"

lemma none_active_update [simp]:
  "none_active (r\<lparr>fx_steady := c\<rparr>) = none_active r" "none_active (r\<lparr>fx_events := evs\<rparr>) = none_active r"
  by (simp_all add: none_active_def)

lemma down_after_0: "down_after 0 r = none_active r"
  by (simp add: down_after_def world_after_def)

lemma down_after_Suc:
  "down_after (Suc i) r = down_after i (fx_meanwhile 50 (r\<lparr>fx_steady := c\<rparr>))"
proof -
  have "world_after (Suc i) r = world_after i (fx_meanwhile 50 (r\<lparr>fx_steady := c\<rparr>))"
    by (simp add: world_after_def fx_meanwhile_eq funpow_Suc_right del: funpow.simps)
  then show ?thesis by (simp add: down_after_def fx_meanwhile_eq none_active_def)
qed

lemma logout_loop_ends:
  assumes "\<forall>i < k. sint (clock_at i (fx_steady r)) < deadline" "deadline \<le> sint (clock_at k (fx_steady r))"
  shows "\<exists>why r'. logout_loop deadline r = Some ((\<exists>j < k. down_after j r, why), r')
    \<and> ((\<exists>j < k. down_after j r) \<longrightarrow> fx_events r' = [] \<and> none_active r')"
  using assms
proof (induction k arbitrary: r)
  case 0
  then show ?case by (simp add: logout_loop.simps [of deadline r] read_clock_def Let_def)
next
  case (Suc k)
  let ?c = "snd (read_clock (fx_steady r))"
  let ?r1 = "fx_meanwhile 50 (r\<lparr>fx_steady := ?c\<rparr>)"
  have now: "sint (ck_now (fx_steady r)) < deadline" using Suc.prems(1) by force
  show ?case
  proof (cases "none_active r")
    case True
    then have "\<exists>j < Suc k. down_after j r" by (auto simp: down_after_0 intro: exI [of _ 0])
    then show ?thesis using True now
      by (simp add: logout_loop.simps [of deadline r] case_prod_beta Let_def)
  next
    case False
    have "logout_loop deadline r = logout_loop deadline ?r1"
      using False now by (simp add: logout_loop.simps [of deadline r] case_prod_beta Let_def)
    moreover have "\<forall>i < k. sint (clock_at i (fx_steady ?r1)) < deadline"
      "deadline \<le> sint (clock_at k (fx_steady ?r1))"
      using Suc.prems by (auto simp: fx_meanwhile_eq dest: spec [of _ "Suc _"])
    moreover have "(\<exists>j < Suc k. down_after j r) \<longleftrightarrow> (\<exists>j < k. down_after j ?r1)"
      using False by (simp add: Ex_less_Suc2 down_after_0 down_after_Suc [of _ r ?c])
    ultimately show ?thesis using Suc.IH [of ?r1] by simp
  qed
qed

section \<open>Prices\<close>

lemma scan_price_whole:
  assumes "list_all is_digit ds" "0 \<le> w" "w * 10 ^ length ds + int (dec_val ds) < 2 ^ 63"
  shows "scan_price (ds @ rest) False w f k = scan_price rest False (w * 10 ^ length ds + int (dec_val ds)) f k"
  using assms
proof (induction ds arbitrary: w)
  case (Cons d ds)
  let ?w = "w * 10 + int (digit_val d)"
  have eq: "w * 10 ^ length (d # ds) + int (dec_val (d # ds)) = ?w * 10 ^ length ds + int (dec_val ds)"
    by (simp add: dec_val_Cons algebra_simps)
  have "?w \<le> ?w * 10 ^ length ds" using Cons.prems(2) by (simp add: mult_le_cancel_left1)
  then have "?w < 2 ^ 63" using Cons.prems(3) unfolding eq by linarith
  then have "i64_ok (w * 10)" "i64_ok ?w" using Cons.prems(2) by (auto simp: i64_ok_def)
  then show ?case using Cons.IH [of ?w] Cons.prems eq digit_not_sep [of d] by simp
qed simp

lemma scan_price_frac:
  assumes "list_all is_digit ds" "0 \<le> f" "f * 10 ^ length ds + int (dec_val ds) < 2 ^ 63"
  shows "scan_price ds True w f k = Some (Some (w, f * 10 ^ length ds + int (dec_val ds), k + length ds))"
  using assms
proof (induction ds arbitrary: f k)
  case (Cons d ds)
  let ?f = "f * 10 + int (digit_val d)"
  have eq: "f * 10 ^ length (d # ds) + int (dec_val (d # ds)) = ?f * 10 ^ length ds + int (dec_val ds)"
    by (simp add: dec_val_Cons algebra_simps)
  have "?f \<le> ?f * 10 ^ length ds" using Cons.prems(2) by (simp add: mult_le_cancel_left1)
  then have "?f < 2 ^ 63" using Cons.prems(3) unfolding eq by linarith
  then have "i64_ok (f * 10)" "i64_ok ?f" using Cons.prems(2) by (auto simp: i64_ok_def)
  then show ?case using Cons.IH [of ?f "Suc k"] Cons.prems eq digit_not_sep [of d] by simp
qed simp

lemma i64_ok_small: "0 \<le> x \<Longrightarrow> x \<le> 2 ^ 62 \<Longrightarrow> i64_ok x"
  by (simp add: i64_ok_def)

lemma parse_price_text:
  assumes "1 \<le> sint d" "sint d \<le> 18" "- (2 ^ 62) \<le> v" "v \<le> 2 ^ 62"
  shows "parse_price (price_text (nat (sint d)) v) d = Some (word_of_int v)"
proof -
  let ?d = "nat (sint d)" and ?a = "nat \<bar>v\<bar>"
  let ?w = "?a div 10 ^ ?d" and ?f = "?a mod 10 ^ ?d"
  let ?txt = "dec ?w @ CHR ''.'' # dec_pad ?d ?f"
  have fs: "list_all is_digit (dec_pad ?d ?f)" "length (dec_pad ?d ?f) = ?d"
    using assms(1) by (simp_all add: dec_pad_digits length_dec_pad)
  have a: "int ?a \<le> 2 ^ 62" using assms(3,4) by linarith
  have sum: "int ?w * 10 ^ ?d + int ?f = \<bar>v\<bar>"
  proof -
    have "int ?w * 10 ^ ?d + int ?f = int (?w * 10 ^ ?d + ?f)" by simp
    also have "\<dots> = int ?a" by (simp only: div_mult_mod_eq)
    finally show ?thesis by simp
  qed
  have "?w \<le> ?a" "?f \<le> ?a" by (simp_all add: div_le_dividend mod_less_eq_dividend)
  then have "int ?w \<le> int ?a" "int ?f \<le> int ?a" by (simp_all only: of_nat_le_iff)
  moreover have "(2 :: int) ^ 62 < 2 ^ 63" by simp
  ultimately have small: "int ?w < 2 ^ 63" "int ?f < 2 ^ 63" using a by linarith+
  have scan: "scan_price ?txt False 0 0 0 = Some (Some (int ?w, int ?f, ?d))"
  proof -
    have "scan_price ?txt False 0 0 0 = scan_price (CHR ''.'' # dec_pad ?d ?f) False (int ?w) 0 0"
      using scan_price_whole [of "dec ?w" 0 "CHR ''.'' # dec_pad ?d ?f" 0 0] small(1)
      by (simp only: dec_digits dec_val_dec mult_zero_left add_0 order_refl simp_thms if_True True_implies_equals)
    also have "\<dots> = scan_price (dec_pad ?d ?f) True (int ?w) 0 0" by simp
    also have "\<dots> = Some (Some (int ?w, int ?f, ?d))"
      using scan_price_frac [OF fs(1), of 0 "int ?w" 0] small(2)
      by (simp only: fs(2) dec_val_dec_pad mult_zero_left add_0 order_refl simp_thms True_implies_equals)
    finally show ?thesis .
  qed
  have "(10 :: int) ^ ?d \<le> 10 ^ 18" using assms(1,2) by (intro power_increasing) (linarith, simp)
  then have ten: "times_ten ?d 1 = Some (10 ^ ?d)" using times_ten_ok [of 1 ?d] by simp
  have ok: "i64_ok (int ?w * 10 ^ ?d)" "i64_ok (int ?w * 10 ^ ?d + int ?f)"
  proof -
    have pos: "0 \<le> int ?w * 10 ^ ?d" "0 \<le> int ?f" by simp_all
    have abs: "\<bar>v\<bar> \<le> 2 ^ 62" using assms(3,4) by (intro abs_leI) linarith+
    show "i64_ok (int ?w * 10 ^ ?d)" "i64_ok (int ?w * 10 ^ ?d + int ?f)"
      using pos abs sum by (intro i64_ok_small; linarith)+
  qed
  then have okv: "i64_ok \<bar>v\<bar>" by (simp only: sum)
  have shift: "nat (sint d - int ?d) = 0" "nat (int ?d - sint d) = 0" using assms(1) by simp_all
  obtain c cs where c: "dec ?w = c # cs" "is_digit c" using dec_head_digit by blast
  have nosign: "?txt \<noteq> []" "hd ?txt \<noteq> CHR ''-''" using c is_digit_not_space [OF c(2)] by simp_all
  show ?thesis
  proof (cases "v < 0")
    case True
    then have "price_text ?d v = CHR ''-'' # ?txt" by (simp add: price_text_def)
    then show ?thesis
      by (simp only: parse_price_def list.distinct list.sel simp_thms if_True if_False Let_def scan
          option.case prod.case ten bind.bind_lunit shift times_ten.simps tenth.simps ok sum okv)
        (use True in simp)
  next
    case False
    then have "price_text ?d v = ?txt" by (simp add: price_text_def)
    then show ?thesis using nosign
      by (simp only: parse_price_def simp_thms if_True if_False Let_def scan
          option.case prod.case ten bind.bind_lunit shift times_ten.simps tenth.simps ok sum okv)
        (use False in simp)
  qed
qed

section \<open>Properties\<close>

text \<open>
  C31: A FIX expectation on events counts, of the queued events, those of the expected type with
  every expected field, skipping the others; it passes when the expected number is there and
  leaves the events after the last one counted. When there are too few and the engine stays
  silent, it fails with a timeout and has emptied the queue. For the type \<open>any\<close> every event
  counts, whatever its fields.
\<close>

theorem fix_expectation_counts:
  assumes "ex_msg exp \<noteq> ''server_heartbeat''" "ex_msg exp \<noteq> ''fix_logout_complete''"
    "n = nat (max 1 (sint (ex_occurrences exp)))"
    "fst (fx_engine r (sint t) (fx_world r)) = []"
  shows "if n \<le> length (filter (fix_counts exp) (fx_events r))
    then fx_match_expectation exp t r
      = Some ((True, []), r\<lparr>fx_events := after_nth n (fix_counts exp) (fx_events r)\<rparr>)
    else \<exists>r'. fx_match_expectation exp t r
      = Some ((False, ''timeout waiting for '' @ ex_msg exp), r') \<and> fx_events r' = []"
proof -
  let ?m = "length (filter (fix_counts exp) (fx_events r))"
  have eq: "fx_match_expectation exp t r = fx_match_loop exp t n r"
    using assms(1-3) by (simp add: fx_match_expectation_def)
  show ?thesis
  proof (cases "n \<le> ?m")
    case True
    then show ?thesis by (simp add: eq match_loop_passes)
  next
    case False
    then have "fx_match_expectation exp t r = fx_match_loop exp t (n - ?m) (r\<lparr>fx_events := []\<rparr>)"
      using eq match_loop_exhausts [of exp r n t] by simp
    moreover have "fst (fx_engine (r\<lparr>fx_events := []\<rparr>) (sint t) (fx_world (r\<lparr>fx_events := []\<rparr>))) = []"
      using assms(4) by simp
    ultimately show ?thesis
      using False match_loop_silent [of "r\<lparr>fx_events := []\<rparr>" t "n - ?m" exp] by simp
  qed
qed

text \<open>
  The timeout of a FIX expectation bounds each wait, not the step: while the engine makes a
  callback within every wait and none of the events counts, the expectation never returns.
\<close>

lemma cross_talk_never_ends:
  assumes "ex_msg exp \<noteq> ''server_heartbeat''" "ex_msg exp \<noteq> ''fix_logout_complete''"
    "\<And>w. fst (fx_engine r (sint t) w) \<noteq> []"
    "\<And>w ev. ev \<in> set (fst (fx_engine r (sint t) w)) \<Longrightarrow> \<not> fix_counts exp ev"
    "\<And>ev. ev \<in> set (fx_events r) \<Longrightarrow> \<not> fix_counts exp ev"
  shows "fx_match_expectation exp t r = None"
proof (rule ccontr)
  assume "fx_match_expectation exp t r \<noteq> None"
  then obtain res where "fx_match_loop exp t (nat (max 1 (sint (ex_occurrences exp)))) r = Some res"
    using assms(1,2) by (auto simp: fx_match_expectation_def)
  from match_loop_cross_talk [OF this] assms(3-5) show False by simp
qed

text \<open>
  Waiting for a logout ends at the first poll that reads the deadline from the clock, and
  passes exactly when at some poll before it no client was active any more; then the queue is
  empty, so no event of the ended session meets a later expectation.
\<close>

lemma logout_wait_ends:
  assumes "ex_msg exp = ''fix_logout_complete''"
    "deadline = sint (ck_now (fx_steady r)) + sint t * 1000000" "i64_ok deadline"
    "ck = snd (read_clock (fx_steady r))"
    "\<forall>i < k. sint (clock_at i ck) < deadline" "deadline \<le> sint (clock_at k ck)"
  shows "\<exists>why r'. fx_match_expectation exp t r = Some ((\<exists>j < k. down_after j r, why), r')
    \<and> ((\<exists>j < k. down_after j r) \<longrightarrow> fx_events r' = [] \<and> none_active r')"
proof -
  let ?r = "r\<lparr>fx_steady := ck\<rparr>"
  have "fx_match_expectation exp t r = logout_loop deadline ?r"
    using assms(1-4) by (simp add: fx_match_expectation_def case_prod_beta Let_def)
  moreover have "down_after j ?r = down_after j r" for j
    by (simp add: down_after_def world_after_def none_active_def)
  ultimately show ?thesis using logout_loop_ends [of k ?r deadline] assms(5,6) by simp
qed

text \<open>
  A cancel or a replace that names only the order it refers to is sent with the symbol and
  side the order was placed with; a cancel without a quantity gets the placed quantity.
\<close>

lemma cancel_completed_from_place:
  assumes "fx_run_place s a r = Some (res, r1)" "res_passed res" "fp_cl_ord_id a \<noteq> []"
    "fk_orig_cl_ord_id c = fp_cl_ord_id a" "fk_symbol c = []"
    "fr_orig_cl_ord_id p = fp_cl_ord_id a" "fr_symbol p = []"
  shows "fx_cancel_request c (fx_token_index r1)
      = \<lparr>xc_cl_ord_id = fk_cl_ord_id c, xc_orig_cl_ord_id = fp_cl_ord_id a, xc_symbol = fp_symbol a,
         xc_side = fp_side a, xc_quantity = if fk_quantity c = 0 then fp_quantity a else fk_quantity c\<rparr>
    \<and> fx_replace_request p price (fx_token_index r1)
      = \<lparr>xr_cl_ord_id = fr_cl_ord_id p, xr_orig_cl_ord_id = fp_cl_ord_id a, xr_symbol = fp_symbol a,
         xr_side = fp_side a, xr_new_quantity = fr_new_quantity p, xr_new_price = price,
         xr_price_decimals = 3, xr_ord_type = ord_type_from (fr_ord_type p)\<rparr>"
proof -
  have "fx_token_index r1 (fp_cl_ord_id a)
      = Some \<lparr>ti_symbol = fp_symbol a, ti_side = fp_side a, ti_quantity = fp_quantity a\<rparr>"
    using assms(1-3)
    by (auto simp: fx_run_place_def fx_order_step_def fx_index_def outcome_def
        split: option.splits prod.splits sum.splits)
  with assms(3-7) show ?thesis
    by (simp add: fx_cancel_request_def fx_replace_request_def Let_def)
qed

text \<open>
  The FIX runner and the OUCH runner read the decimal text of a wire price alike, for 1 to 18
  decimals; but a second point is skipped by the one and ends the number for the other, and a
  comma makes the FIX price zero.
\<close>

lemma fix_price_agrees:
  assumes "1 \<le> sint d" "sint d \<le> 18"
  shows "parse_price (price_text (nat (sint d)) (sint (p :: price_int))) d = Some p
    \<and> to_wire_price (price_text (nat (sint d)) (sint p)) d = Some p
    \<and> parse_price ''1.2.3'' 3 = Some 1230 \<and> to_wire_price ''1.2.3'' 3 = Some 1200
    \<and> parse_price ''1,5'' 3 = Some 0 \<and> to_wire_price ''1,5'' 3 = Some 1500"
proof -
  have p: "- (2 ^ 62) \<le> sint p" "sint p \<le> 2 ^ 62"
    using sint_ge [of p] sint_lt [of p] by simp_all
  have "parse_price ''1.2.3'' 3 = Some 1230" "to_wire_price ''1.2.3'' 3 = Some 1200"
    "parse_price ''1,5'' 3 = Some 0" "to_wire_price ''1,5'' 3 = Some 1500"
    by code_simp+
  then show ?thesis
    using parse_price_text [OF assms p] to_wire_price_text [OF assms p] by simp
qed

section \<open>Witnesses\<close>

text \<open>A runner whose only client is active until the engine has run once; the engine then
  reports the logout again and again, or nothing.\<close>

definition bye :: fix_event where
  "bye = FixSessionEv \<lparr>lr_state = FixLoggedOut, lr_session_status = -1, lr_detail = ''LoggedOut''\<rparr>"

definition sample_oe :: "nat oe_client" where
  "sample_oe = stub_oe\<lparr>oe_place := (\<lambda>a w. Some (Inr (xp_cl_ord_id a), [], w)),
     oe_state := (\<lambda>w. if w = 0 then FixActive else FixLoggedOut)\<rparr>"

definition sample_fx :: "fix_event list \<Rightarrow> nat fix_runner" where
  "sample_fx evs = \<lparr>fx_oe = Some sample_oe, fx_rd = None, fx_dc = None, fx_world = 0,
     fx_engine = (\<lambda>ms w. (evs, Suc w)), fx_events = [], fx_token_index = Map.empty,
     fx_mono = \<lparr>ck_now = 0, ck_later = []\<rparr>,
     fx_steady = \<lparr>ck_now = 0, ck_later = [1000, 50001000, 100001000]\<rparr>\<rparr>"

definition fix_report :: fix_event where
  "fix_report = FixExecEv (execution_report_default\<lparr>xe_cl_ord_id := ''7'', xe_exec_type := CHR ''0''\<rparr>)"

definition expect_report :: expect where
  "expect_report = expect_default\<lparr>ex_msg := ''fix_execution_report'', ex_fields := [(''ClOrdID'', ''7'')]\<rparr>"

definition expect_logout :: expect where
  "expect_logout = expect_default\<lparr>ex_msg := ''fix_logout_complete''\<rparr>"

lemma sample_counts:
  "\<not> fix_counts expect_report bye" "fix_counts expect_report fix_report"
  by (simp_all add: fix_counts_def expect_report_def expect_default_def bye_def fix_report_def
      execution_field_def logon_breadcrumb_def)

theorem fix_expectation_counts_witness:
  "fx_match_expectation expect_report 100 ((sample_fx [])\<lparr>fx_events := [bye, fix_report, bye]\<rparr>)
     = Some ((True, []), (sample_fx [])\<lparr>fx_events := [bye]\<rparr>)"
  using fix_expectation_counts [of expect_report 1 "(sample_fx [])\<lparr>fx_events := [bye, fix_report, bye]\<rparr>" 100]
    sample_counts
  by (simp add: expect_report_def expect_default_def sample_fx_def numeral_nat)

definition sample_fix_place :: fix_place_args where
  "sample_fix_place = fix_place_args_default\<lparr>fp_cl_ord_id := ''7'', fp_symbol := ''GARAN.E'', fp_side := Sell,
     fp_quantity := 10\<rparr>"

definition sample_fix_step :: step where
  "sample_fix_step = \<lparr>st_id = 1, st_action = ''fix_place'', st_args = FixPlaceArgs sample_fix_place, st_expect = None\<rparr>"

end
