(* ===== verification/Fix_Flow.thy ===== *)
theory Fix_Flow
  imports Fix_Acceptor Fix_Runner_Laws
begin

text \<open>
  The FIX applications against the acceptor mock, and the scenario runner over both: what becomes
  of an order, a trade report, a logon and a subscription.
\<close>

section \<open>Messages there and back\<close>

lemma copy_field_simps [simp]:
  "fm_fields (copy_field t src dst) = (case fm_fields src t of None \<Rightarrow> fm_fields dst | Some v \<Rightarrow> (fm_fields dst)(t \<mapsto> v))"
  "fm_type (copy_field t src dst) = fm_type dst" "fm_groups (copy_field t src dst) = fm_groups dst"
  by (simp_all add: copy_field_def split: option.split)

lemma apply_afk_simps [simp]:
  "fm_fields (apply_afk afk m) = fm_fields m" "fm_type (apply_afk afk m) = fm_type m"
  by (simp_all add: apply_afk_def)

lemma small_quantity: "\<bar>sint (q :: quantity)\<bar> < 10 ^ 15 \<Longrightarrow> qty_to_double q = of_int (sint q)"
  unfolding qty_to_double_def by (rule to_double_of_int) simp

lemma copy_basic_type [simp]: "fm_type (copy_basic src dst) = fm_type dst"
  by (simp add: copy_basic_def)

lemma copy_basic_field:
  "fm_fields (copy_basic src (new_message ty)) t
     = (if t \<in> {tag_ClOrdID, tag_OrigClOrdID, tag_Symbol, tag_Side} then fm_fields src t else None)"
  by (simp add: copy_basic_def split: option.split)

lemma execution_report_fields:
  assumes "execution_report c m kind status leaves ac = (er, ac')"
  shows "fm_type er = Some ''8''"
    "fm_fields er tag_ClOrdID = fm_fields m tag_ClOrdID"
    "fm_fields er tag_OrigClOrdID = fm_fields m tag_OrigClOrdID"
    "fm_fields er tag_Symbol = fm_fields m tag_Symbol"
    "fm_fields er tag_Side = fm_fields m tag_Side"
    "fm_fields er tag_ExecID = Some (''E'' @ dec (unat (ac_id_counter ac + 1)))"
    "fm_fields er tag_OrderID = Some (''O'' @ dec (unat (ac_id_counter ac + 2)))"
    "fm_fields er tag_ExecType = Some [kind]" "fm_fields er tag_OrdStatus = Some [status]"
    "fm_fields er tag_LeavesQty = Some (fc_double_text c leaves)"
    "fm_fields er tag_CumQty = Some (fc_double_text c 0)"
    "fm_fields er tag_LastQty = None" "fm_fields er tag_LastPx = None" "fm_fields er tag_Text = None"
  using assms [symmetric]
  by (simp_all add: execution_report_def acc_next_id_def copy_basic_field Let_def add.assoc)

text \<open>A report of a quantity the codec carries exactly decodes to it, whatever the source
  message; nothing else is set than what the report says.\<close>

lemma execution_report_decodes:
  assumes "codec_ok c" "\<bar>sint q\<bar> < 10 ^ 15"
    "execution_report c m kind status (of_int (sint q)) ac = (er, ac')"
    "\<And>t. t \<notin> {tag_Text, tag_TrdType} \<Longrightarrow> fm_fields er' t = fm_fields er t"
  shows "oe_execution c er' = Some (execution_report_default
    \<lparr>xe_cl_ord_id := text_of m tag_ClOrdID, xe_orig_cl_ord_id := text_of m tag_OrigClOrdID,
     xe_exec_id := ''E'' @ dec (unat (ac_id_counter ac + 1)),
     xe_order_id := ''O'' @ dec (unat (ac_id_counter ac + 2)), xe_symbol := text_of m tag_Symbol,
     xe_side := side_of m, xe_exec_type := kind, xe_ord_status := status, xe_leaves_qty := q,
     xe_text := text_of er' tag_Text\<rparr>)"
proof -
  note er = execution_report_fields [OF assms(3)]
  have q: "fc_double_of c (fc_double_text c (of_int (sint q))) = Some (of_int (sint q))"
    using codec_integer [OF assms(1,2)] .
  have z: "fc_double_of c (fc_double_text c 0) = Some 0" using codec_integer [OF assms(1), of 0] by simp
  have "double_to_qty (of_int (sint q)) = Some q"
    using quantity_arrives [OF assms(1,2)] q small_quantity [OF assms(2)] by simp
  moreover have "double_to_qty 0 = Some 0" by (simp add: double_to_qty_def trunc_rat_def)
  ultimately have qty: "qty_of c er' tag_LeavesQty = Some q" "qty_of c er' tag_CumQty = Some 0"
    "qty_of c er' tag_LastQty = Some 0" "price_of c er' tag_LastPx = Some 0"
    using q z by (simp_all add: qty_of_def price_of_def get_double_def assms(4) er)
  have texts: "text_of er' tag_ClOrdID = text_of m tag_ClOrdID"
    "text_of er' tag_OrigClOrdID = text_of m tag_OrigClOrdID"
    "text_of er' tag_Symbol = text_of m tag_Symbol" "side_of er' = side_of m"
    "text_of er' tag_ExecID = ''E'' @ dec (unat (ac_id_counter ac + 1))"
    "text_of er' tag_OrderID = ''O'' @ dec (unat (ac_id_counter ac + 2))"
    "char_of_field er' tag_ExecType = kind" "char_of_field er' tag_OrdStatus = status"
    by (simp_all add: text_of_def side_of_def char_of_field_def get_text_def get_char_def assms(4) er)
  show ?thesis unfolding oe_execution_def qty texts by (simp add: execution_report_default_def)
qed

section \<open>Orders\<close>

lemma new_order_fields:
  "fm_type (new_order c a) = Some ''D''"
  "fm_fields (new_order c a) tag_ClOrdID = Some (xp_cl_ord_id a)"
  "fm_fields (new_order c a) tag_OrigClOrdID = None"
  "fm_fields (new_order c a) tag_Symbol = Some (xp_symbol a)"
  "fm_fields (new_order c a) tag_Side = Some [fix_side (xp_side a)]"
  "fm_fields (new_order c a) tag_OrderQty = Some (fc_double_text c (qty_to_double (xp_quantity a)))"
  by (simp_all add: new_order_def)

lemma cancel_request_fields:
  "fm_type (cancel_request c a) = Some ''F''"
  "fm_fields (cancel_request c a) tag_ClOrdID = Some (xc_cl_ord_id a)"
  "fm_fields (cancel_request c a) tag_OrigClOrdID = Some (xc_orig_cl_ord_id a)"
  "fm_fields (cancel_request c a) tag_Symbol = Some (xc_symbol a)"
  "fm_fields (cancel_request c a) tag_Side = Some [fix_side (xc_side a)]"
  by (simp_all add: cancel_request_def)

lemma replace_order_fields:
  "fm_type (replace_order c a) = Some ''G''"
  "fm_fields (replace_order c a) tag_ClOrdID = Some (xr_cl_ord_id a)"
  "fm_fields (replace_order c a) tag_OrigClOrdID = Some (xr_orig_cl_ord_id a)"
  "fm_fields (replace_order c a) tag_Symbol = Some (xr_symbol a)"
  "fm_fields (replace_order c a) tag_Side = Some [fix_side (xr_side a)]"
  "fm_fields (replace_order c a) tag_OrderQty = Some (fc_double_text c (qty_to_double (xr_new_quantity a)))"
  by (simp_all add: replace_order_def)

lemma order_qty_arrives:
  assumes "codec_ok c" "\<bar>sint q\<bar> < 10 ^ 15" "fm_fields m tag_OrderQty = Some (fc_double_text c (qty_to_double q))"
  shows "order_qty_of c m = of_int (sint q)"
  using codec_integer [OF assms(1,2)] small_quantity [OF assms(2)] assms(3)
  by (simp add: order_qty_of_def get_double_def)

text \<open>The three sides an order can have.\<close>

abbreviation (input) listed :: "side \<Rightarrow> bool" where
  "listed s \<equiv> s \<in> {Buy, Sell, ShortSell}"

lemma side_of_field: "fm_fields m tag_Side = Some [fix_side s] \<Longrightarrow> listed s \<Longrightarrow> side_of m = s"
  by (simp add: side_of_def get_char_def bist_side_fix_side)

lemma new_order_confirmed:
  assumes "codec_ok c" "cb_execution cb" "listed (xp_side a)" "\<bar>sint (xp_quantity a)\<bar> < 10 ^ 15"
  obtains er ac' ev where "acc_from_app c s (new_order c a) ac = Some (er, ac')"
    "oe_from_app c cb er = Some (Handled [FixExecEv ev])"
    "xe_cl_ord_id ev = xp_cl_ord_id a" "xe_symbol ev = xp_symbol a" "xe_side ev = xp_side a"
    "xe_exec_type ev = CHR ''0''" "xe_ord_status ev = CHR ''0''" "xe_leaves_qty ev = xp_quantity a"
    "xe_text ev = (if xp_side a = ShortSell then ''short_sell'' else [])"
proof -
  let ?m = "new_order c a"
  note m = new_order_fields [of c a]
  have qty: "order_qty_of c ?m = of_int (sint (xp_quantity a))"
    using assms(1,4) m(6) by (rule order_qty_arrives)
  obtain er ac' where er: "execution_report c ?m CHR ''0'' CHR ''0'' (of_int (sint (xp_quantity a))) ac = (er, ac')"
    by fastforce
  let ?short = "xp_side a = ShortSell"
  let ?er = "put_if ?short tag_Text ''short_sell'' (put_if ?short tag_TrdType ''2'' er)"
  have short: "get_char ?m tag_Side = Some CHR ''5'' \<longleftrightarrow> ?short"
    using assms(3) by (auto simp: get_char_def m fix_buy_def fix_sell_def fix_sell_short_def)
  have reply: "acc_from_app c s ?m ac = Some (?er, ac')"
    using m(1) short by (simp add: acc_from_app_def acc_on_new_order_def qty er Let_def del: of_int_sint)
  have same: "fm_fields ?er t = fm_fields er t" if "t \<notin> {tag_Text, tag_TrdType}" for t using that by simp
  obtain ev where ev: "oe_execution c ?er = Some ev" "xe_cl_ord_id ev = text_of ?m tag_ClOrdID"
    "xe_symbol ev = text_of ?m tag_Symbol" "xe_side ev = side_of ?m" "xe_exec_type ev = CHR ''0''"
    "xe_ord_status ev = CHR ''0''" "xe_leaves_qty ev = xp_quantity a" "xe_text ev = text_of ?er tag_Text"
    using execution_report_decodes [OF assms(1,4) er same] by simp
  have event: "oe_from_app c cb ?er = Some (Handled [FixExecEv ev])"
    using execution_report_fields(1) [OF er] assms(2) ev(1) by (simp add: oe_from_app_def)
  have "side_of ?m = xp_side a" using m(5) assms(3) by (rule side_of_field)
  moreover have "text_of ?er tag_Text = (if ?short then ''short_sell'' else [])"
    using execution_report_fields(14) [OF er] by (simp add: text_of_def get_text_def)
  ultimately show ?thesis using that [OF reply event] ev m by (simp add: text_of_def get_text_def)
qed

text \<open>
  An order the FIX client places on a session it is bound to goes to the engine as one
  message; the mock's answer to it reaches the execution callback as a report of a new order with
  the id, symbol and side of the order and its whole quantity open, marked \<open>short_sell\<close>
  exactly for a short sale. The quantity is below ten to the 15th.
\<close>

lemma fix_order_confirmed:
  assumes "codec_ok (en_codec eng)" "ap_bound app" "en_known eng (ap_session_id app) e" "cb_execution cb"
    "listed (xp_side a)" "\<bar>sint (xp_quantity a)\<bar> < 10 ^ 15"
  shows "\<exists>m er ac' ev.
      oe_app_place eng a app e = (Inr (xp_cl_ord_id a), en_send eng m (ap_session_id app) e)
    \<and> acc_from_app (en_codec eng) s m ac = Some (er, ac')
    \<and> oe_from_app (en_codec eng) cb er = Some (Handled [FixExecEv ev])
    \<and> xe_cl_ord_id ev = xp_cl_ord_id a \<and> xe_symbol ev = xp_symbol a \<and> xe_side ev = xp_side a
    \<and> xe_exec_type ev = CHR ''0'' \<and> xe_ord_status ev = CHR ''0'' \<and> xe_leaves_qty ev = xp_quantity a
    \<and> xe_text ev = (if xp_side a = ShortSell then ''short_sell'' else [])"
proof -
  let ?m = "new_order (en_codec eng) a"
  have sent: "oe_app_place eng a app e = (Inr (xp_cl_ord_id a), en_send eng ?m (ap_session_id app) e)"
    using assms(2,3) by (simp add: oe_app_place_def send_bound_def send_or_error_def)
  obtain er ac' ev where "acc_from_app (en_codec eng) s ?m ac = Some (er, ac')"
    "oe_from_app (en_codec eng) cb er = Some (Handled [FixExecEv ev])"
    "xe_cl_ord_id ev = xp_cl_ord_id a" "xe_symbol ev = xp_symbol a" "xe_side ev = xp_side a"
    "xe_exec_type ev = CHR ''0''" "xe_ord_status ev = CHR ''0''" "xe_leaves_qty ev = xp_quantity a"
    "xe_text ev = (if xp_side a = ShortSell then ''short_sell'' else [])"
    using new_order_confirmed [OF assms(1,4-6)] .
  with sent show ?thesis by blast
qed

text \<open>
  The mock confirms a cancel as canceled with nothing open and a replace as replaced with the
  new quantity open, both with the ids, symbol and side of the request; the order id in the report
  is a fresh one each time, not the one of the order.
\<close>

lemma fix_amendments_confirmed:
  assumes "codec_ok c" "cb_execution cb" "listed (xc_side k)" "listed (xr_side r)"
    "\<bar>sint (xr_new_quantity r)\<bar> < 10 ^ 15"
  shows "(\<exists>er ac' ev. acc_from_app c s (cancel_request c k) ac = Some (er, ac')
      \<and> oe_from_app c cb er = Some (Handled [FixExecEv ev])
      \<and> xe_cl_ord_id ev = xc_cl_ord_id k \<and> xe_orig_cl_ord_id ev = xc_orig_cl_ord_id k
      \<and> xe_symbol ev = xc_symbol k \<and> xe_side ev = xc_side k
      \<and> xe_exec_type ev = CHR ''4'' \<and> xe_ord_status ev = CHR ''4'' \<and> xe_leaves_qty ev = 0
      \<and> xe_order_id ev = ''O'' @ dec (unat (ac_id_counter ac + 2)))
    \<and> (\<exists>er ac' ev. acc_from_app c s (replace_order c r) ac = Some (er, ac')
      \<and> oe_from_app c cb er = Some (Handled [FixExecEv ev])
      \<and> xe_cl_ord_id ev = xr_cl_ord_id r \<and> xe_orig_cl_ord_id ev = xr_orig_cl_ord_id r
      \<and> xe_symbol ev = xr_symbol r \<and> xe_side ev = xr_side r
      \<and> xe_exec_type ev = CHR ''5'' \<and> xe_ord_status ev = CHR ''0'' \<and> xe_leaves_qty ev = xr_new_quantity r
      \<and> xe_order_id ev = ''O'' @ dec (unat (ac_id_counter ac + 2)))"
proof (intro conjI)
  let ?m = "cancel_request c k"
  note m = cancel_request_fields [of c k]
  obtain er ac' where er: "execution_report c ?m CHR ''4'' CHR ''4'' (of_int (sint (0 :: quantity))) ac = (er, ac')"
    by fastforce
  have "\<bar>sint (0 :: quantity)\<bar> < 10 ^ 15" by simp
  from execution_report_decodes [OF assms(1) this er refl] obtain ev where
    ev: "oe_execution c er = Some ev" "xe_cl_ord_id ev = text_of ?m tag_ClOrdID"
      "xe_orig_cl_ord_id ev = text_of ?m tag_OrigClOrdID" "xe_symbol ev = text_of ?m tag_Symbol"
      "xe_side ev = side_of ?m" "xe_exec_type ev = CHR ''4''" "xe_ord_status ev = CHR ''4''"
      "xe_leaves_qty ev = 0" "xe_order_id ev = ''O'' @ dec (unat (ac_id_counter ac + 2))"
    by simp
  have "acc_from_app c s ?m ac = Some (er, ac')"
    using m(1) er by (simp add: acc_from_app_def acc_on_cancel_def)
  moreover have "oe_from_app c cb er = Some (Handled [FixExecEv ev])"
    using execution_report_fields(1) [OF er] assms(2) ev(1) by (simp add: oe_from_app_def)
  moreover have "side_of ?m = xc_side k" using m(5) assms(3) by (rule side_of_field)
  ultimately show "\<exists>er ac' ev. acc_from_app c s ?m ac = Some (er, ac')
      \<and> oe_from_app c cb er = Some (Handled [FixExecEv ev])
      \<and> xe_cl_ord_id ev = xc_cl_ord_id k \<and> xe_orig_cl_ord_id ev = xc_orig_cl_ord_id k
      \<and> xe_symbol ev = xc_symbol k \<and> xe_side ev = xc_side k
      \<and> xe_exec_type ev = CHR ''4'' \<and> xe_ord_status ev = CHR ''4'' \<and> xe_leaves_qty ev = 0
      \<and> xe_order_id ev = ''O'' @ dec (unat (ac_id_counter ac + 2))"
    using ev m by (auto simp: text_of_def get_text_def)
next
  let ?m = "replace_order c r"
  note m = replace_order_fields [of c r]
  have qty: "order_qty_of c ?m = of_int (sint (xr_new_quantity r))"
    using assms(1,5) m(6) by (rule order_qty_arrives)
  obtain er ac' where er: "execution_report c ?m CHR ''5'' CHR ''0'' (of_int (sint (xr_new_quantity r))) ac = (er, ac')"
    by fastforce
  from execution_report_decodes [OF assms(1,5) er refl] obtain ev where
    ev: "oe_execution c er = Some ev" "xe_cl_ord_id ev = text_of ?m tag_ClOrdID"
      "xe_orig_cl_ord_id ev = text_of ?m tag_OrigClOrdID" "xe_symbol ev = text_of ?m tag_Symbol"
      "xe_side ev = side_of ?m" "xe_exec_type ev = CHR ''5''" "xe_ord_status ev = CHR ''0''"
      "xe_leaves_qty ev = xr_new_quantity r" "xe_order_id ev = ''O'' @ dec (unat (ac_id_counter ac + 2))"
    by simp
  have "acc_from_app c s ?m ac = Some (er, ac')"
    using m(1) er by (simp add: acc_from_app_def acc_on_replace_def qty del: of_int_sint)
  moreover have "oe_from_app c cb er = Some (Handled [FixExecEv ev])"
    using execution_report_fields(1) [OF er] assms(2) ev(1) by (simp add: oe_from_app_def)
  moreover have "side_of ?m = xr_side r" using m(5) assms(4) by (rule side_of_field)
  ultimately show "\<exists>er ac' ev. acc_from_app c s ?m ac = Some (er, ac')
      \<and> oe_from_app c cb er = Some (Handled [FixExecEv ev])
      \<and> xe_cl_ord_id ev = xr_cl_ord_id r \<and> xe_orig_cl_ord_id ev = xr_orig_cl_ord_id r
      \<and> xe_symbol ev = xr_symbol r \<and> xe_side ev = xr_side r
      \<and> xe_exec_type ev = CHR ''5'' \<and> xe_ord_status ev = CHR ''0'' \<and> xe_leaves_qty ev = xr_new_quantity r
      \<and> xe_order_id ev = ''O'' @ dec (unat (ac_id_counter ac + 2))"
    using ev m by (auto simp: text_of_def get_text_def)
qed

text \<open>
  C32: The price of an order survives the way through doubles: whatever the engine's rounding to 15
  digits, the field of a limit order converts back to the wire price, at every scale of up to 15
  decimals; market orders carry none.
\<close>

theorem fix_price_survives_doubles:
  assumes "codec_ok c" "0 \<le> sint (xp_price_decimals a)" "sint (xp_price_decimals a) \<le> 15"
  shows "if xp_ord_type a \<in> {Market, MarketToLimit} then get_double c (new_order c a) tag_Price = None
    else \<exists>x. get_double c (new_order c a) tag_Price = Some x
      \<and> from_fix_price x (xp_price_decimals a) = Some (xp_price a)"
  using price_arrives [OF assms, of "xp_price a"] by (simp add: get_double_def new_order_def)

section \<open>Trade reports\<close>

text \<open>
  A trade report built by the client and read by the client keeps its ids, symbol, quantity
  and price, but not its side: that is sent as a member of a repeating group and looked for among
  the fields of the message, so every report reads as a buy; the counterparty is lost too.
\<close>

lemma trade_report_loses_side:
  assumes "codec_ok c" "\<bar>sint (xt_quantity a)\<bar> < 10 ^ 15" "xt_price_decimals a = 3"
  shows "\<exists>ev. oe_trade_event c (trade_report c a) = Some ev
    \<and> xv_trade_report_id ev = xt_trade_report_id a
    \<and> xv_trade_report_ref_id ev = xt_trade_report_ref_id a
    \<and> xv_symbol ev = xt_symbol a \<and> xv_quantity ev = xt_quantity a \<and> xv_price ev = xt_price a
    \<and> xv_side ev = Buy \<and> xv_counterparty_id ev = []"
proof -
  let ?m = "trade_report c a"
  have m: "fm_fields ?m tag_TradeReportID = Some (xt_trade_report_id a)"
    "fm_fields ?m tag_TradeReportRefID
       = (if xt_trade_report_ref_id a \<noteq> [] then Some (xt_trade_report_ref_id a) else None)"
    "fm_fields ?m tag_Symbol = Some (xt_symbol a)" "fm_fields ?m tag_Side = None"
    "fm_fields ?m tag_LastQty = Some (fc_double_text c (qty_to_double (xt_quantity a)))"
    "fm_fields ?m tag_LastPx = Some (fc_double_text c (to_fix_price (xt_price a) 3))"
    by (simp_all add: trade_report_def Let_def assms(3))
  obtain y where y: "fc_double_of c (fc_double_text c (to_fix_price (xt_price a) 3)) = Some y"
    "from_fix_price y 3 = Some (xt_price a)"
    using price_arrives [OF assms(1), of 3 "xt_price a"] by auto
  have "qty_of c ?m tag_LastQty = Some (xt_quantity a)"
    using quantity_arrives [OF assms(1,2)] m(5) by (auto simp: qty_of_def get_double_def)
  moreover have "price_of c ?m tag_LastPx = Some (xt_price a)"
    using y m(6) by (simp add: price_of_def get_double_def)
  ultimately show ?thesis
    using m by (simp add: oe_trade_event_def trade_report_default_def text_of_def get_text_def side_of_def get_char_def)
qed

section \<open>Logon and password rotation\<close>

text \<open>A logon: the request passes the client's and the mock's administrative callbacks, the answer
  the mock's and the client's, then both see the session established.\<close>

definition logon_exchange ::
  "fix_codec \<Rightarrow> oe_callbacks \<Rightarrow> string \<Rightarrow> fix_app \<Rightarrow> acceptor \<Rightarrow> fix_event list \<times> fix_app \<times> acceptor" where
  "logon_exchange c cb s app ac =
     (let request = oe_to_admin app (new_message ''A'');
          (answer, ac1) = acc_to_admin (new_message ''A'') (acc_from_admin request ac);
          (evs1, app1) = oe_from_admin c cb answer app;
          (evs2, app2) = oe_on_logon cb s app1
      in (evs1 @ evs2, app2, acc_on_logon s ac1))"

definition rotates :: "fix_app \<Rightarrow> bool" where
  "rotates app \<longleftrightarrow> ap_password app \<noteq> [] \<and> ap_new_password app \<noteq> []"

text \<open>
  A logon with a password and a new password is answered with the status of a changed
  password, any other with the active one. A rotation fires two events, the changed password and
  then the active session, each of which counts as a logon response; a plain logon fires one. In
  the end the client is active and its state no longer tells that the password was changed.
\<close>

lemma rotation_counts_twice:
  assumes "codec_ok c" "cb_session cb" "ex_msg want = ''fix_logon_response''" "ex_fields want = []"
  shows "\<exists>evs app' ac'. logon_exchange c cb s app ac = (evs, app', ac')
    \<and> evs = (if rotates app
         then [FixSessionEv (session_result FixPasswordChanged 1 ''Session password changed'')] else [])
        @ [FixSessionEv (session_result FixActive 0 ''Active'')]
    \<and> length (filter (fix_counts want) evs) = (if rotates app then 2 else 1)
    \<and> app' = bind_session s app \<and> ac_pending_status ac' = status_Active \<and> s \<in> ac_sessions ac'"
proof -
  let ?req = "oe_to_admin app (new_message ''A'')"
  have pending: "ac_pending_status (acc_from_admin ?req ac)
      = (if rotates app then status_PasswordChanged else status_Active)"
    by (simp add: acc_from_admin_def oe_to_admin_def rotates_def get_text_def Let_def)
  have status: "get_int c (put tag_SessionStatus (dec_int n) (new_message ''A'')) tag_SessionStatus = Some n" for n
    using assms(1) by (simp add: get_int_def)
  show ?thesis
    using pending status assms(2-4)
    by (simp add: logon_exchange_def acc_to_admin_def oe_from_admin_def oe_on_logon_def acc_on_logon_def
        fire_session_def Let_def bind_session_def fix_counts_def logon_breadcrumb_def session_result_def)
qed

section \<open>Reference data subscriptions\<close>

datatype acceptor_input =
  InLogon string
| InLogout string
| InAdmin fix_message
| OutAdmin fix_message
| InApp string fix_message

fun acceptor_step :: "fix_codec \<Rightarrow> acceptor_input \<Rightarrow> acceptor \<Rightarrow> acceptor" where
  "acceptor_step c (InLogon s) ac = acc_on_logon s ac"
| "acceptor_step c (InLogout s) ac = acc_on_logout s ac"
| "acceptor_step c (InAdmin m) ac = acc_from_admin m ac"
| "acceptor_step c (OutAdmin m) ac = snd (acc_to_admin m ac)"
| "acceptor_step c (InApp s m) ac = (case acc_from_app c s m ac of None \<Rightarrow> ac | Some (_, ac') \<Rightarrow> ac')"

lemma acceptor_step_subscribed: "ac_subscribed ac \<subseteq> ac_subscribed (acceptor_step c i ac)"
  by (cases i) (auto simp: acc_on_logon_def acc_on_logout_def acc_from_admin_def acc_to_admin_def acc_from_app_def
      acc_on_new_order_def acc_on_cancel_def acc_on_replace_def acc_on_trade_report_def acc_on_amr_def
      execution_report_def acc_next_id_def Let_def)

lemma acceptor_run_subscribed: "ac_subscribed ac \<subseteq> ac_subscribed (fold (acceptor_step c) ins ac)"
proof (induction ins arbitrary: ac)
  case (Cons i ins)
  show ?case using acceptor_step_subscribed [of ac c i] Cons.IH [of "acceptor_step c i ac"] by auto
qed simp

text \<open>
  The first subscription of a session with a fresh request id is acknowledged as processed.
  After it every subscription of that session is refused as a duplicate, under any id and even
  after a logout and a new logon, because the logout forgets the session but not its
  subscription.
\<close>

lemma resubscription_refused:
  assumes "cb_amr_ack cb" "s \<notin> ac_subscribed ac" "i \<notin> ac_appl_req_ids ac"
  shows "\<exists>ack ac1. acc_from_app c s (subscription i) ac = Some (ack, ac1)
    \<and> rd_from_app cb ack = Handled [RdAmrAck True ''Request successfully processed'']
    \<and> (\<forall>ins j. \<exists>ack2 ac2. acc_from_app c s (subscription j) (fold (acceptor_step c) ins ac1) = Some (ack2, ac2)
        \<and> rd_from_app cb ack2 = Handled [RdAmrAck False ''Duplicate Application ID''])"
proof -
  have bw: "acc_from_app c s (subscription j) a = Some (acc_on_amr s (subscription j) a)" for a j
    by (simp add: acc_from_app_def subscription_def)
  have ack: "rd_from_app cb (fst (acc_on_amr s (subscription j) a))
      = Handled [if s \<in> ac_subscribed a \<or> j \<noteq> [] \<and> j \<in> ac_appl_req_ids a
                 then RdAmrAck False ''Duplicate Application ID''
                 else RdAmrAck True ''Request successfully processed'']" for a j
    using assms(1)
    by (simp add: rd_from_app_def acc_on_amr_def handle_amr_ack_def acc_next_id_def text_of_def get_text_def
        subscription_def sublist_code Let_def)
  obtain ack1 ac1 where one: "acc_on_amr s (subscription i) ac = (ack1, ac1)" by fastforce
  then have "s \<in> ac_subscribed ac1"
    by (auto simp: acc_on_amr_def acc_next_id_def Let_def)
  then have sub: "s \<in> ac_subscribed (fold (acceptor_step c) ins ac1)" for ins
    using acceptor_run_subscribed by blast
  have first: "rd_from_app cb ack1 = Handled [RdAmrAck True ''Request successfully processed'']"
    using ack [of i ac] one assms(2,3) by simp
  have later: "\<exists>ack2 ac2. acc_from_app c s (subscription j) (fold (acceptor_step c) ins ac1) = Some (ack2, ac2)
      \<and> rd_from_app cb ack2 = Handled [RdAmrAck False ''Duplicate Application ID'']" for ins j
    using bw [of j] ack [of j "fold (acceptor_step c) ins ac1"] sub [of ins]
    by (cases "acc_on_amr s (subscription j) (fold (acceptor_step c) ins ac1)") simp
  show ?thesis using bw [of i ac] one first later by auto
qed

section \<open>A scenario step against the mock\<close>

text \<open>The engine stays a parameter: any record of its functions, any world with a slot for the client's
  application and one for the engine, and any activity while the runner waits. The world after an order
  was handed to it, and the events of the \<open>i\<close>th wait from then on.\<close>

definition placed_world ::
  "'e fix_engine \<Rightarrow> ('w, fix_app) world_slot \<Rightarrow> ('w, 'e) world_slot \<Rightarrow> oe_place_args \<Rightarrow> 'w \<Rightarrow> 'w" where
  "placed_world en app eng pa w =
     sl_set eng (en_send en (new_order (en_codec en) pa) (ap_session_id (sl_get app w)) (sl_get eng w)) w"

definition engine_batch :: "(int \<Rightarrow> 'w \<Rightarrow> fix_event list \<times> 'w) \<Rightarrow> i32 \<Rightarrow> nat \<Rightarrow> 'w \<Rightarrow> fix_event list" where
  "engine_batch go t i w = fst (go (sint t) (((\<lambda>w. snd (go (sint t) w)) ^^ i) w))"

lemma engine_batch_Suc: "engine_batch go t (Suc i) w = engine_batch go t i (snd (go (sint t) w))"
  by (simp only: engine_batch_def funpow_Suc_right comp_apply)

lemma match_loop_waits:
  assumes "fx_events r = []" "engine_batch (fx_engine r) t 0 (fx_world r) \<noteq> []" "0 < n"
  shows "fx_match_loop want t n r = fx_match_loop want t n (fx_meanwhile (sint t) r)"
proof -
  have "fx_wait_for_event t r = fx_wait_for_event t (fx_meanwhile (sint t) r)"
    using assms(1,2) by (simp add: fx_wait_for_event_def fx_meanwhile_eq engine_batch_def)
  then show ?thesis using assms(3) by (simp add: fx_match_loop.simps [of want t n])
qed

text \<open>A counting event that some wait brings satisfies an expectation of one, when no wait before it comes
  back empty; what the waits before it bring is passed over, or satisfies it earlier.\<close>

lemma match_loop_delivered:
  assumes "fx_events r = []" "\<And>i. i < k \<Longrightarrow> engine_batch (fx_engine r) t i (fx_world r) \<noteq> []"
    "ev \<in> set (engine_batch (fx_engine r) t k (fx_world r))" "fix_counts want ev"
  shows "\<exists>r'. fx_match_loop want t 1 r = Some ((True, []), r')"
  using assms
proof (induction k arbitrary: r)
  case 0
  let ?r1 = "fx_meanwhile (sint t) r"
  have batch: "fx_events ?r1 = engine_batch (fx_engine r) t 0 (fx_world r)"
    using "0.prems"(1) by (simp add: fx_meanwhile_eq engine_batch_def)
  then have "filter (fix_counts want) (fx_events ?r1) \<noteq> []" using "0.prems"(3,4) by (auto simp: filter_empty_conv)
  then have "1 \<le> length (filter (fix_counts want) (fx_events ?r1))" by (simp add: Suc_le_eq)
  moreover have "fx_match_loop want t 1 r = fx_match_loop want t 1 ?r1"
    using "0.prems" batch by (intro match_loop_waits) auto
  ultimately show ?case using match_loop_passes by metis
next
  case (Suc k)
  let ?r1 = "fx_meanwhile (sint t) r"
  have wait: "fx_match_loop want t 1 r = fx_match_loop want t 1 ?r1"
    using Suc.prems(1) Suc.prems(2) [of 0] by (intro match_loop_waits) auto
  show ?case
  proof (cases "filter (fix_counts want) (fx_events ?r1) = []")
    case True
    let ?r2 = "?r1\<lparr>fx_events := []\<rparr>"
    have "fx_match_loop want t 1 ?r1 = fx_match_loop want t 1 ?r2"
      using match_loop_exhausts [of want ?r1 1 t] True by simp
    moreover have "engine_batch (fx_engine ?r2) t i (fx_world ?r2) = engine_batch (fx_engine r) t (Suc i) (fx_world r)" for i
      by (simp add: fx_meanwhile_eq engine_batch_Suc)
    ultimately show ?thesis using Suc.IH [of ?r2] Suc.prems wait by auto
  next
    case False
    then have "1 \<le> length (filter (fix_counts want) (fx_events ?r1))" by (simp add: Suc_le_eq)
    then show ?thesis using match_loop_passes wait by metis
  qed
qed

text \<open>The step that places an order and expects its confirmation.\<close>

definition place_step :: "fix_place_args \<Rightarrow> step" where
  "place_step a = \<lparr>st_id = 1, st_action = ''fix_place'', st_args = FixPlaceArgs a,
     st_expect = Some (expect_default\<lparr>ex_msg := ''fix_execution_report'',
       ex_fields := [(''ClOrdID'', fp_cl_ord_id a), (''ExecType'', ''0''),
         (''LeavesQty'', dec_int (sint (fp_quantity a))), (''Symbol'', fp_symbol a)]\<rparr>)\<rparr>"

text \<open>The action of the step hands the engine the one message, and the step ends as its expectation does.\<close>

lemma place_step_ends:
  assumes "fx_oe r = Some (quickfix_oe en app eng)" "fx_events r = []" "ap_bound (sl_get app (fx_world r))"
    "en_known en (ap_session_id (sl_get app (fx_world r))) (sl_get eng (fx_world r))"
    "parse_price (fp_price_str a) 3 = Some price"
  obtains r1 want where "fx_events r1 = []" "fx_engine r1 = fx_engine r"
    "fx_world r1 = placed_world en app eng (fx_place_request a price) (fx_world r)"
    "st_expect (place_step a) = Some want"
    "\<And>ok why r2. fx_match_loop want t 1 r1 = Some ((ok, why), r2)
       \<Longrightarrow> \<exists>res r'. fx_run_step t (place_step a) r = Some (res, r') \<and> res_passed res = ok"
proof -
  let ?pa = "fx_place_request a price" and ?step = "place_step a" and ?r0 = "snd (fx_now r)"
  have r0: "fx_oe ?r0 = fx_oe r" "fx_engine ?r0 = fx_engine r" "fx_events ?r0 = []" "fx_world ?r0 = fx_world r"
    using assms(2) by (simp_all add: fx_now_def case_prod_beta Let_def)
  have "oe_place (quickfix_oe en app eng) ?pa (fx_world r)
      = Some (Inr (xp_cl_ord_id ?pa), [], placed_world en app eng ?pa (fx_world r))"
    using assms(3,4)
    by (simp add: quickfix_oe_def app_send_def oe_app_place_def send_bound_def send_or_error_def placed_world_def)
  then obtain r1 where run: "fx_run_action ?step ?r0 = Some (outcome ?step True [], r1)"
    and r1: "fx_events r1 = []" "fx_engine r1 = fx_engine r" "fx_world r1 = placed_world en app eng ?pa (fx_world r)"
    using assms(1,5) r0
    by (simp add: fx_run_action_def place_step_def fx_run_place_def fx_order_step_def fx_call_def fx_index_def)
  obtain want where want: "st_expect ?step = Some want" "ex_msg want = ''fix_execution_report''"
    "nat (max 1 (sint (ex_occurrences want))) = 1" "ex_timeout_ms want = 0"
    by (simp add: place_step_def expect_default_def)
  have "\<exists>res r'. fx_run_step t ?step r = Some (res, r') \<and> res_passed res = ok"
    if "fx_match_loop want t 1 r1 = Some ((ok, why), r2)" for ok why r2
    using run want that
    by (simp add: fx_run_step_def fx_check_expectation_def fx_match_expectation_def case_prod_beta Let_def outcome_def)
  then show thesis using that [OF r1 want(1)] by blast
qed

text \<open>
  C18: A step of a scenario that places an order through the FIX client and expects the execution report
  with its id, symbol and quantity. The engine is any engine that carries numbers as documented and knows
  the session of the bound client; what it does while the runner waits is arbitrary. The step hands it one
  message for that session. In every state the mock answers this message with one report, from which the
  client's callback makes one event, and the step passes when that event is among those of some wait with
  no empty wait before it, whatever else these waits bring. It fails when the first wait brings nothing.
\<close>

theorem fix_place_step_passes:
  fixes r :: "'w fix_runner"
  assumes "codec_ok (en_codec en)" "fx_oe r = Some (quickfix_oe en app eng)" "fx_events r = []"
    "ap_bound (sl_get app (fx_world r))"
    "en_known en (ap_session_id (sl_get app (fx_world r))) (sl_get eng (fx_world r))"
    "parse_price (fp_price_str a) 3 = Some price" "listed (fp_side a)" "\<bar>sint (fp_quantity a)\<bar> < 10 ^ 15"
    "cb_execution cb" "w = placed_world en app eng (fx_place_request a price) (fx_world r)"
  shows "(\<exists>report ac' ev. acc_from_app (en_codec en) (ap_session_id (sl_get app (fx_world r)))
          (new_order (en_codec en) (fx_place_request a price)) ac = Some (report, ac')
      \<and> oe_from_app (en_codec en) cb report = Some (Handled [FixExecEv ev])
      \<and> (\<forall>k. (\<forall>i < k. engine_batch (fx_engine r) t i w \<noteq> []) \<and> FixExecEv ev \<in> set (engine_batch (fx_engine r) t k w)
          \<longrightarrow> (\<exists>res r'. fx_run_step t (place_step a) r = Some (res, r') \<and> res_passed res)))
    \<and> (engine_batch (fx_engine r) t 0 w = []
          \<longrightarrow> (\<exists>res r'. fx_run_step t (place_step a) r = Some (res, r') \<and> \<not> res_passed res))"
proof -
  let ?pa = "fx_place_request a price" and ?s = "ap_session_id (sl_get app (fx_world r))"
  obtain r1 want where r1: "fx_events r1 = []" "fx_engine r1 = fx_engine r" "fx_world r1 = w"
    and want: "st_expect (place_step a) = Some want"
    and ends: "\<And>ok why r2. fx_match_loop want t 1 r1 = Some ((ok, why), r2)
       \<Longrightarrow> \<exists>res r'. fx_run_step t (place_step a) r = Some (res, r') \<and> res_passed res = ok"
    using place_step_ends [OF assms(2-6)] assms(10) by metis
  have pa: "xp_cl_ord_id ?pa = fp_cl_ord_id a" "xp_symbol ?pa = fp_symbol a" "xp_quantity ?pa = fp_quantity a"
    "listed (xp_side ?pa)" "\<bar>sint (xp_quantity ?pa)\<bar> < 10 ^ 15"
    using assms(7,8) by (simp_all add: fx_place_request_def)
  obtain report ac' ev where conf: "acc_from_app (en_codec en) ?s (new_order (en_codec en) ?pa) ac = Some (report, ac')"
    "oe_from_app (en_codec en) cb report = Some (Handled [FixExecEv ev])"
    and ev: "xe_cl_ord_id ev = fp_cl_ord_id a" "xe_symbol ev = fp_symbol a" "xe_exec_type ev = CHR ''0''"
      "xe_leaves_qty ev = fp_quantity a"
    by (rule new_order_confirmed [OF assms(1,9) pa(4,5), of ?s ac]) (simp only: pa)
  have "want = the (st_expect (place_step a))" using want by simp
  then have counts: "fix_counts want (FixExecEv ev)"
    using ev by (simp add: place_step_def expect_default_def fix_counts_def logon_breadcrumb_def execution_field_def)
  have "\<exists>res r'. fx_run_step t (place_step a) r = Some (res, r') \<and> res_passed res"
    if "\<forall>i < k. engine_batch (fx_engine r) t i w \<noteq> []" "FixExecEv ev \<in> set (engine_batch (fx_engine r) t k w)" for k
    using match_loop_delivered [OF r1(1) _ _ counts, of k t] that r1 ends by fastforce
  moreover have "\<exists>res r'. fx_run_step t (place_step a) r = Some (res, r') \<and> \<not> res_passed res"
    if "engine_batch (fx_engine r) t 0 w = []"
    using match_loop_silent [OF r1(1), of t 1 want] that r1 ends by (fastforce simp: engine_batch_def)
  ultimately show ?thesis
    by (intro conjI exI [of _ report] exI [of _ ac'] exI [of _ ev] conf allI impI) blast+
qed

section \<open>Witnesses\<close>

definition all_callbacks :: oe_callbacks where
  "all_callbacks = \<lparr>cb_execution = True, cb_cancel_reject = True, cb_trade_report = True, cb_session = True\<rparr>"

definition sample_app :: fix_app where
  "sample_app = bind_session ''OE'' (oe_set_password ''old'' ''new'' fix_app_init)"

definition sample_oe_order :: oe_place_args where
  "sample_oe_order = oe_place_args_default
     \<lparr>xp_cl_ord_id := ''7'', xp_symbol := ''GARAN.E'', xp_side := ShortSell, xp_quantity := 10, xp_price := 6200\<rparr>"

lemma sample_oe_order_simps:
  "xp_side sample_oe_order = ShortSell" "xp_quantity sample_oe_order = 10" "xp_cl_ord_id sample_oe_order = ''7''"
  "xp_price sample_oe_order = 6200" "xp_price_decimals sample_oe_order = 3" "xp_ord_type sample_oe_order = Limit"
  by (simp_all add: sample_oe_order_def oe_place_args_default_def)

lemma sample_app_simps: "ap_bound sample_app" "rotates sample_app"
  by (simp_all add: sample_app_def bind_session_def rotates_def oe_set_password_def)

definition sample_fix_cancel :: oe_cancel_args where
  "sample_fix_cancel = \<lparr>xc_cl_ord_id = ''8'', xc_orig_cl_ord_id = ''7'', xc_symbol = ''GARAN.E'', xc_side = Sell,
     xc_quantity = 10\<rparr>"

definition sample_fix_replace :: oe_replace_args where
  "sample_fix_replace = \<lparr>xr_cl_ord_id = ''9'', xr_orig_cl_ord_id = ''7'', xr_symbol = ''GARAN.E'', xr_side = Sell,
     xr_new_quantity = 5, xr_new_price = 6200, xr_price_decimals = 3, xr_ord_type = Limit\<rparr>"

theorem fix_price_survives_doubles_witness:
  "\<exists>x. get_double exact_codec (new_order exact_codec sample_oe_order) tag_Price = Some x
    \<and> from_fix_price x 3 = Some 6200"
  using fix_price_survives_doubles [OF exact_codec_ok, of sample_oe_order] by (simp add: sample_oe_order_simps)

definition sample_trade_report :: trade_report_args where
  "sample_trade_report = \<lparr>xt_trade_report_id = ''T1'', xt_trade_report_ref_id = [], xt_symbol = ''GARAN.E'',
     xt_side = Sell, xt_quantity = 100, xt_price = 6200, xt_price_decimals = 3,
     xt_counterparty_id = ''XYZ'', xt_two_party_internal = False\<rparr>"

definition expect_logon :: expect where
  "expect_logon = expect_default\<lparr>ex_msg := ''fix_logon_response''\<rparr>"

text \<open>One engine to instantiate the parameters with: it keeps the messages sent and, when the runner waits,
  delivers nothing but the events of their reports, after a wait that only brings a session event.\<close>

definition sample_engine :: "(string \<times> fix_message) list fix_engine" where
  "sample_engine = \<lparr>en_codec = exact_codec, en_known = (\<lambda>s net. True), en_send = (\<lambda>m s net. net @ [(s, m)]),
     en_logout = (\<lambda>s net. net), en_logon = (\<lambda>s net. net)\<rparr>"

definition sample_reports :: "(string \<times> fix_message) list \<Rightarrow> fix_event list" where
  "sample_reports net = concat (map (\<lambda>(s, m). case acc_from_app exact_codec s m acceptor_init of
       Some (report, _) \<Rightarrow>
         (case oe_from_app exact_codec all_callbacks report of Some (Handled evs) \<Rightarrow> evs | _ \<Rightarrow> [])
     | None \<Rightarrow> []) net)"

definition sample_runs :: "int \<Rightarrow> fix_app \<times> (string \<times> fix_message) list \<times> bool
    \<Rightarrow> fix_event list \<times> fix_app \<times> (string \<times> fix_message) list \<times> bool" where
  "sample_runs ms w = (case w of (app, net, woken) \<Rightarrow>
     (if woken then sample_reports net else [FixSessionEv (session_result FixActive 0 ''Active'')], app, net, True))"

definition sample_loop :: "(fix_app \<times> (string \<times> fix_message) list \<times> bool) fix_runner" where
  "sample_loop = \<lparr>fx_oe = Some (quickfix_oe sample_engine \<lparr>sl_get = fst, sl_set = (\<lambda>a w. (a, snd w))\<rparr>
       \<lparr>sl_get = (\<lambda>w. fst (snd w)), sl_set = (\<lambda>net w. (fst w, net, snd (snd w)))\<rparr>), fx_rd = None, fx_dc = None,
     fx_world = (sample_app, [], False), fx_engine = sample_runs, fx_events = [], fx_token_index = Map.empty,
     fx_mono = \<lparr>ck_now = 0, ck_later = []\<rparr>, fx_steady = \<lparr>ck_now = 0, ck_later = []\<rparr>\<rparr>"

definition sample_fix_order :: fix_place_args where
  "sample_fix_order = fix_place_args_default\<lparr>fp_cl_ord_id := ''7'', fp_symbol := ''GARAN.E'', fp_side := Sell,
     fp_quantity := 10, fp_price_str := ''6.200''\<rparr>"

theorem fix_place_step_passes_witness:
  "\<exists>res r'. fx_run_step 1000 (place_step sample_fix_order) sample_loop = Some (res, r') \<and> res_passed res"
proof -
  let ?app = "\<lparr>sl_get = fst, sl_set = (\<lambda>a w. (a, snd w))\<rparr>"
  let ?eng = "\<lparr>sl_get = (\<lambda>w. fst (snd w)), sl_set = (\<lambda>net w. (fst w, net, snd (snd w)))\<rparr>"
  let ?m = "new_order exact_codec (fx_place_request sample_fix_order 6200)" and ?s = "ap_session_id sample_app"
  let ?w = "placed_world sample_engine ?app ?eng (fx_place_request sample_fix_order 6200) (fx_world sample_loop)"
  have r: "codec_ok (en_codec sample_engine)" "fx_oe sample_loop = Some (quickfix_oe sample_engine ?app ?eng)"
    "fx_events sample_loop = []" "ap_bound (sl_get ?app (fx_world sample_loop))"
    "en_known sample_engine (ap_session_id (sl_get ?app (fx_world sample_loop))) (sl_get ?eng (fx_world sample_loop))"
    using exact_codec_ok by (simp_all add: sample_loop_def sample_engine_def sample_app_simps)
  have f: "en_codec sample_engine = exact_codec" "sl_get ?app (fx_world sample_loop) = sample_app"
    by (simp_all add: sample_loop_def sample_engine_def)
  have p: "parse_price (fp_price_str sample_fix_order) 3 = Some 6200" by code_simp
  have o: "listed (fp_side sample_fix_order)" "\<bar>sint (fp_quantity sample_fix_order)\<bar> < 10 ^ 15" "cb_execution all_callbacks"
    by (simp_all add: sample_fix_order_def all_callbacks_def)
  have w: "?w = (sample_app, [(?s, ?m)], False)"
    by (simp add: placed_world_def sample_loop_def sample_engine_def)
  have b: "engine_batch (fx_engine sample_loop) 1000 0 ?w \<noteq> []"
    "engine_batch (fx_engine sample_loop) 1000 (Suc 0) ?w = sample_reports [(?s, ?m)]"
    unfolding w by (simp_all add: engine_batch_def sample_loop_def sample_runs_def)
  obtain report ac' ev where conf: "acc_from_app exact_codec ?s ?m acceptor_init = Some (report, ac')"
    "oe_from_app exact_codec all_callbacks report = Some (Handled [FixExecEv ev])"
    and pass: "\<And>k. (\<forall>i < k. engine_batch (fx_engine sample_loop) 1000 i ?w \<noteq> [])
        \<and> FixExecEv ev \<in> set (engine_batch (fx_engine sample_loop) 1000 k ?w)
      \<Longrightarrow> \<exists>res r'. fx_run_step 1000 (place_step sample_fix_order) sample_loop = Some (res, r') \<and> res_passed res"
    using fix_place_step_passes [OF r p o refl, of acceptor_init 1000, unfolded f] by blast
  have "FixExecEv ev \<in> set (sample_reports [(?s, ?m)])" by (simp add: sample_reports_def conf)
  then show ?thesis using pass [of "Suc 0"] b by (simp add: less_Suc_eq)
qed

end
