(* ===== verification/Scenario_Lint.thy ===== *)
theory Scenario_Lint
  imports Runner Fix_Runner Scenario_Loader
    "HOL-Library.Char_ord" "HOL-Library.List_Lexorder" "HOL-Library.Product_Lexorder"
begin

text \<open>
  \<open>apps/tools/scenario_lint.cpp\<close>: the linter that gates the scenario files. It reads the same
  YAML nodes as the loader, so the YAML library is the same parameter \<open>yaml_api\<close>; \<open>None\<close> is an
  exception that leaves the linter. The directory walk is the parameter \<open>dir_api\<close>. The properties
  say what a clean file guarantees of the scenario the loader makes of it, and what it does not.
\<close>

section \<open>Allow-lists\<close>

definition valid_protocols :: "string set" where
  "valid_protocols = {''ouch'', ''fix_oe'', ''fix_rd'', ''drop_copy''}"

definition ouch_actions :: "string set" where
  "ouch_actions =
     {''ouch_login'', ''ouch_logout'', ''wait_heartbeat'', ''expect'',
      ''place'', ''cancel_by_token'', ''cancel_by_order_id'', ''replace'',
      ''mass_quote'', ''switch_gateway'', ''burst_place'', ''trigger_opening_match'',
      ''inactivate_all''}"

definition fix_actions :: "string set" where
  "fix_actions =
     {''fix_logon'', ''fix_logout'', ''fix_amr_subscribe'', ''fix_amr'',
      ''fix_wait_heartbeat'', ''wait_heartbeat'',
      ''fix_place'', ''fix_cancel'', ''fix_replace'', ''fix_trade_report'',
      ''expect'', ''trigger_match'', ''trigger_opening_match'',
      ''place'', ''cancel_by_token'', ''cancel_by_order_id'', ''replace''}"

definition ouch_event_types :: "string set" where
  "ouch_event_types =
     {''any'', ''order_accepted'', ''order_rejected'', ''order_replaced'',
      ''order_canceled'', ''order_executed'', ''mass_quote_ack'',
      ''mass_quote_rejection'', ''login_accepted'', ''login_rejected'',
      ''socket_closed'', ''server_heartbeat''}"

definition fix_event_types :: "string set" where
  "fix_event_types =
     {''any'', ''fix_logon_response'', ''fix_logout_complete'',
      ''fix_execution_report'', ''fix_cancel_reject'', ''fix_trade_report'',
      ''fix_amr_ack'', ''fix_session_status'', ''server_heartbeat''}"

definition ouch_field_keys :: "string set" where
  "ouch_field_keys =
     {''token'', ''order_book_id'', ''side'', ''order_id'', ''quantity'',
      ''leaves_quantity'', ''traded_quantity'', ''price'', ''time_in_force'',
      ''open_close'', ''order_state'', ''pre_trade_quantity'', ''display_quantity'',
      ''client_category'', ''off_hours'', ''smp_level'', ''smp_method'', ''smp_id'',
      ''reject_code'', ''reason'', ''cancel_reason_name'', ''quote_status'',
      ''trade_price'', ''previous_token'', ''previous_order_token'',
      ''replacement_token'', ''replacement_order_token'',
      ''session'', ''next_sequence'', ''sequence'', ''reason_code''}"

definition fix_field_keys :: "string set" where
  "fix_field_keys =
     {''MsgType'', ''ClOrdID'', ''OrigClOrdID'', ''OrderID'', ''ExecType'',
      ''OrdStatus'', ''OrdRejReason'', ''CxlRejReason'', ''Symbol'', ''Side'',
      ''OrderQty'', ''LeavesQty'', ''CumQty'', ''Price'', ''LastPx'', ''LastQty'',
      ''SessionStatus'', ''ApplReqID'', ''ApplResponseType'', ''session_status'',
      ''appl_response_type'', ''appl_req_id'', ''ok'', ''detail'',
      ''trd_type'', ''TrdType'', ''trade_type''}"

definition action_produces_token :: "string \<Rightarrow> bool" where
  "action_produces_token action \<longleftrightarrow> action \<in> {''place'', ''fix_place'', ''mass_quote'', ''burst_place''}"

definition action_produces_new_token_via_replace :: "string \<Rightarrow> bool" where
  "action_produces_new_token_via_replace action \<longleftrightarrow> action \<in> {''replace'', ''fix_replace''}"

section \<open>Issues and the state of one file\<close>

record lint_issue =
  li_file :: string
  li_where :: string
  li_message :: string

record lint_state =
  ls_last_id :: int
  ls_seen_ids :: "i32 set"
  ls_token_seen :: "string \<Rightarrow> nat option"
  ls_issues :: "lint_issue list"

definition lint_init :: "lint_issue list \<Rightarrow> lint_state" where
  "lint_init issues =
     \<lparr>ls_last_id = -1, ls_seen_ids = {}, ls_token_seen = \<lambda>_. None, ls_issues = issues\<rparr>"

definition push_issue :: "string \<Rightarrow> string \<Rightarrow> string \<Rightarrow> lint_state \<Rightarrow> lint_state" where
  "push_issue file loc msg L =
     L\<lparr>ls_issues := ls_issues L @ [\<lparr>li_file = file, li_where = loc, li_message = msg\<rparr>]\<rparr>"

definition step_at :: "nat \<Rightarrow> string" where
  "step_at idx = ''steps['' @ dec idx @ '']''"

section \<open>Tokens\<close>

text \<open>\<open>!args[key] || !args[key].IsScalar()\<close>, then \<open>as<std::string>()\<close>.\<close>

definition scalar_at :: "'n yaml_api \<Rightarrow> 'n \<Rightarrow> string \<Rightarrow> string option option" where
  "scalar_at Y n key =
     do { x \<leftarrow> ym_get Y n key;
          case x of
            None \<Rightarrow> Some None
          | Some v \<Rightarrow> if ym_is_scalar Y v then map_option Some (ym_text Y v) else Some None }"

fun lint_lengths :: "'n yaml_api \<Rightarrow> 'n \<Rightarrow> nat \<Rightarrow> string \<Rightarrow> string list \<Rightarrow> lint_state \<Rightarrow> lint_state option" where
  "lint_lengths Y args idx file [] L = Some L"
| "lint_lengths Y args idx file (key # keys) L =
     do { v \<leftarrow> scalar_at Y args key;
          lint_lengths Y args idx file keys
            (case v of
               None \<Rightarrow> L
             | Some tok \<Rightarrow>
                 if length tok > 14
                 then push_issue file (step_at idx @ ''.args.'' @ key)
                        (''token '' @ quoted tok @ '' exceeds Alpha(14)'') L
                 else L) }"

definition lint_producer :: "nat \<Rightarrow> string \<Rightarrow> bool \<Rightarrow> string \<Rightarrow> string \<Rightarrow> lint_state \<Rightarrow> lint_state" where
  "lint_producer idx file expects_reject key tok L =
     (if tok = [] then L
      else case ls_token_seen L tok of
             Some first \<Rightarrow>
               if \<not> expects_reject
               then push_issue file (step_at idx @ ''.args.'' @ key)
                      (''token '' @ quoted tok @ '' already used at step index '' @ dec first
                       @ '' (add expect: order_rejected if duplicate is intentional)'') L
               else L\<lparr>ls_token_seen := (ls_token_seen L)(tok \<mapsto> idx)\<rparr>
           | None \<Rightarrow> L\<lparr>ls_token_seen := (ls_token_seen L)(tok \<mapsto> idx)\<rparr>)"

fun lint_producers ::
  "'n yaml_api \<Rightarrow> 'n \<Rightarrow> nat \<Rightarrow> string \<Rightarrow> bool \<Rightarrow> string list \<Rightarrow> lint_state \<Rightarrow> lint_state option" where
  "lint_producers Y args idx file rej [] L = Some L"
| "lint_producers Y args idx file rej (key # keys) L =
     do { v \<leftarrow> scalar_at Y args key;
          lint_producers Y args idx file rej keys
            (case v of None \<Rightarrow> L | Some tok \<Rightarrow> lint_producer idx file rej key tok L) }"

definition length_check_keys :: "string list" where
  "length_check_keys = [''token'', ''cl_ord_id'', ''new_token'', ''existing_token'', ''orig_cl_ord_id'']"

definition producer_keys :: "string \<Rightarrow> string list" where
  "producer_keys action =
     (if action_produces_token action then [''token'', ''cl_ord_id'']
      else if action_produces_new_token_via_replace action then [''new_token'', ''cl_ord_id'']
      else [])"

definition check_step_token ::
  "'n yaml_api \<Rightarrow> string \<Rightarrow> 'n \<Rightarrow> nat \<Rightarrow> string \<Rightarrow> bool \<Rightarrow> lint_state \<Rightarrow> lint_state option" where
  "check_step_token Y action args idx file rej L =
     do { L1 \<leftarrow> lint_lengths Y args idx file length_check_keys L;
          lint_producers Y args idx file rej (producer_keys action) L1 }"

section \<open>A step\<close>

text \<open>The three blocks of \<open>check_step\<close>; each gives the value of \<open>ok\<close> it leaves when it starts
  with true.\<close>

definition lint_id :: "i32 option \<Rightarrow> nat \<Rightarrow> string \<Rightarrow> lint_state \<Rightarrow> bool \<times> lint_state" where
  "lint_id id_num idx file L =
     (case id_num of
        None \<Rightarrow> (False, push_issue file (step_at idx @ ''.id'') ''must be integer'' L)
      | Some sid \<Rightarrow>
          if 0 \<le> sint sid
          then (let dup = sid \<in> ls_seen_ids L;
                    L1 = L\<lparr>ls_seen_ids := insert sid (ls_seen_ids L)\<rparr>;
                    L2 = (if dup then push_issue file (step_at idx @ ''.id'')
                                        (''duplicate step id '' @ dec_int (sint sid)) L1 else L1);
                    L3 = (if sint sid \<le> ls_last_id L2
                          then push_issue file (step_at idx @ ''.id'')
                                 (''step id '' @ dec_int (sint sid) @ '' not greater than previous ''
                                  @ dec_int (ls_last_id L2)) L2
                          else L2)
                in (\<not> dup, L3\<lparr>ls_last_id := sint sid\<rparr>))
          else (True, L))"

definition lint_step_id :: "'n yaml_api \<Rightarrow> 'n \<Rightarrow> nat \<Rightarrow> string \<Rightarrow> lint_state \<Rightarrow> (bool \<times> lint_state) option" where
  "lint_step_id Y step idx file L =
     do { n \<leftarrow> ym_get Y step ''id'';
          Some (case n of
                  Some x \<Rightarrow>
                    if ym_is_scalar Y x then lint_id (ym_int Y x) idx file L
                    else (False, push_issue file (step_at idx) (''missing or non-scalar '' @ quoted ''id'') L)
                | None \<Rightarrow> (False, push_issue file (step_at idx) (''missing or non-scalar '' @ quoted ''id'') L)) }"

definition allowed_actions :: "string \<Rightarrow> string set" where
  "allowed_actions protocol = (if protocol = ''ouch'' then ouch_actions else fix_actions)"

definition allowed_events :: "string \<Rightarrow> string set" where
  "allowed_events protocol = (if protocol = ''ouch'' then ouch_event_types else fix_event_types)"

definition allowed_keys :: "string \<Rightarrow> string set" where
  "allowed_keys protocol = (if protocol = ''ouch'' then ouch_field_keys else fix_field_keys)"

text \<open>The action read (empty when there is none), and \<open>ok\<close>.\<close>

definition lint_action ::
  "'n yaml_api \<Rightarrow> 'n \<Rightarrow> nat \<Rightarrow> string \<Rightarrow> string \<Rightarrow> lint_state \<Rightarrow> (string \<times> bool \<times> lint_state) option" where
  "lint_action Y step idx file protocol L =
     do { n \<leftarrow> scalar_at Y step ''action'';
          Some (case n of
                  None \<Rightarrow> ([], False,
                    push_issue file (step_at idx) (''missing or non-scalar '' @ quoted ''action'') L)
                | Some action \<Rightarrow>
                    if action \<notin> allowed_actions protocol
                    then (action, False,
                          push_issue file (step_at idx @ ''.action'')
                            (''action '' @ quoted action @ '' not in '' @ protocol @ '' allow-list'') L)
                    else (action, True, L)) }"

fun lint_keys ::
  "'n yaml_api \<Rightarrow> nat \<Rightarrow> string \<Rightarrow> string \<Rightarrow> ('n \<times> 'n) list \<Rightarrow> lint_state \<Rightarrow> (bool \<times> lint_state) option" where
  "lint_keys Y idx file protocol [] L = Some (True, L)"
| "lint_keys Y idx file protocol (kv # kvs) L =
     do { k \<leftarrow> ym_text Y (fst kv);
          if k \<notin> allowed_keys protocol
          then do { (ok, L1) \<leftarrow> lint_keys Y idx file protocol kvs
                      (push_issue file (step_at idx @ ''.expect.fields'')
                        (''field key '' @ quoted k @ '' not in '' @ protocol @ '' known field set'') L);
                    Some (False, L1) }
          else lint_keys Y idx file protocol kvs L }"

text \<open>The map form of an expectation: its message and its field keys.\<close>

definition lint_expect_msg ::
  "'n yaml_api \<Rightarrow> 'n \<Rightarrow> nat \<Rightarrow> string \<Rightarrow> lint_state \<Rightarrow> (string \<times> bool \<times> lint_state) option" where
  "lint_expect_msg Y exp idx file L =
     do { m \<leftarrow> ym_get Y exp ''msg'';
          case m of
            None \<Rightarrow> Some ([], False, push_issue file (step_at idx @ ''.expect'')
                                      (''map form requires a '' @ quoted ''msg'' @ '' key'') L)
          | Some x \<Rightarrow> if ym_is_scalar Y x then map_option (\<lambda>t. (t, True, L)) (ym_text Y x)
                      else Some ([], True, L) }"

definition lint_expect_fields ::
  "'n yaml_api \<Rightarrow> 'n \<Rightarrow> nat \<Rightarrow> string \<Rightarrow> string \<Rightarrow> lint_state \<Rightarrow> (bool \<times> lint_state) option" where
  "lint_expect_fields Y exp idx file protocol L =
     do { f \<leftarrow> ym_get Y exp ''fields'';
          case f of
            None \<Rightarrow> Some (True, L)
          | Some fs \<Rightarrow> if ym_is_map Y fs then lint_keys Y idx file protocol (ym_pairs Y fs) L
                       else Some (True, L) }"

definition lint_expect_map ::
  "'n yaml_api \<Rightarrow> 'n \<Rightarrow> nat \<Rightarrow> string \<Rightarrow> string \<Rightarrow> lint_state \<Rightarrow> (string \<times> bool \<times> lint_state) option" where
  "lint_expect_map Y exp idx file protocol L =
     do { (msg, ok, L1) \<leftarrow> lint_expect_msg Y exp idx file L;
          (fok, L2) \<leftarrow> lint_expect_fields Y exp idx file protocol L1;
          Some (msg, ok \<and> fok, L2) }"

definition lint_expect_node ::
  "'n yaml_api \<Rightarrow> 'n \<Rightarrow> nat \<Rightarrow> string \<Rightarrow> string \<Rightarrow> lint_state \<Rightarrow> (string \<times> bool \<times> lint_state) option" where
  "lint_expect_node Y exp idx file protocol L =
     (if ym_is_scalar Y exp then map_option (\<lambda>t. (t, True, L)) (ym_text Y exp)
      else if ym_is_map Y exp then lint_expect_map Y exp idx file protocol L
      else Some ([], False, push_issue file (step_at idx @ ''.expect'')
                              ''must be scalar shorthand or map'' L))"

text \<open>\<open>expects_reject\<close>, \<open>ok\<close>.\<close>

definition lint_event ::
  "nat \<Rightarrow> string \<Rightarrow> string \<Rightarrow> string \<times> bool \<times> lint_state \<Rightarrow> bool \<times> bool \<times> lint_state" where
  "lint_event idx file protocol node =
     (case node of (msg, ok, L) \<Rightarrow>
        if msg = [] then (False, ok, L)
        else (msg = ''order_rejected'' \<or> msg = ''fix_cancel_reject'',
              ok \<and> msg \<in> allowed_events protocol,
              if msg \<in> allowed_events protocol then L
              else push_issue file (step_at idx @ ''.expect.msg'')
                     (''event type '' @ quoted msg @ '' not in '' @ protocol @ '' known event set'') L))"

definition lint_expect ::
  "'n yaml_api \<Rightarrow> 'n \<Rightarrow> nat \<Rightarrow> string \<Rightarrow> string \<Rightarrow> lint_state \<Rightarrow> (bool \<times> bool \<times> lint_state) option" where
  "lint_expect Y step idx file protocol L =
     do { e \<leftarrow> ym_get Y step ''expect'';
          case e of
            None \<Rightarrow> Some (False, True, L)
          | Some exp \<Rightarrow> map_option (lint_event idx file protocol) (lint_expect_node Y exp idx file protocol L) }"

definition check_step ::
  "'n yaml_api \<Rightarrow> 'n \<Rightarrow> nat \<Rightarrow> string \<Rightarrow> string \<Rightarrow> lint_state \<Rightarrow> (bool \<times> lint_state) option" where
  "check_step Y step idx file protocol L =
     do { (ok1, L1) \<leftarrow> lint_step_id Y step idx file L;
          (action, ok2, L2) \<leftarrow> lint_action Y step idx file protocol L1;
          (rej, ok3, L3) \<leftarrow> lint_expect Y step idx file protocol L2;
          a \<leftarrow> ym_get Y step ''args'';
          L4 \<leftarrow> (case a of
                   None \<Rightarrow> Some L3
                 | Some args \<Rightarrow> if ym_is_map Y args then check_step_token Y action args idx file rej L3
                                else Some L3);
          Some (ok1 \<and> ok2 \<and> ok3, L4) }"

section \<open>A file\<close>

fun lint_steps :: "'n yaml_api \<Rightarrow> string \<Rightarrow> string \<Rightarrow> nat \<Rightarrow> 'n list \<Rightarrow> lint_state \<Rightarrow> lint_state option" where
  "lint_steps Y file protocol idx [] L = Some L"
| "lint_steps Y file protocol idx (step # steps) L =
     do { L1 \<leftarrow> (if \<not> ym_is_map Y step then Some (push_issue file (step_at idx) ''must be a map'' L)
                 else map_option snd (check_step Y step idx file protocol L));
          lint_steps Y file protocol (idx + 1) steps L1 }"

text \<open>The \<open>preconditions\<close> block: the protocol to lint under, \<open>ouch\<close> when none is given.\<close>

definition lint_protocol :: "string option \<Rightarrow> string \<Rightarrow> lint_state \<Rightarrow> string \<times> lint_state" where
  "lint_protocol v file L =
     (case v of
        None \<Rightarrow> (''ouch'', push_issue file ''preconditions''
                   (''missing required '' @ quoted ''protocol'' @ '' key'') L)
      | Some protocol \<Rightarrow>
          (protocol,
           if protocol \<in> valid_protocols then L
           else push_issue file ''preconditions.protocol''
                  (''protocol '' @ quoted protocol @ '' not in {ouch, fix_oe, fix_rd, drop_copy}'') L))"

definition lint_no_map :: "string \<Rightarrow> lint_state \<Rightarrow> string \<times> lint_state" where
  "lint_no_map file L =
     (''ouch'', push_issue file ''(root)''
        (''missing '' @ quoted ''preconditions'' @ '' map (must declare protocol)'') L)"

definition lint_preconditions ::
  "'n yaml_api \<Rightarrow> 'n \<Rightarrow> string \<Rightarrow> lint_state \<Rightarrow> (string \<times> lint_state) option" where
  "lint_preconditions Y root file L =
     do { p \<leftarrow> ym_get Y root ''preconditions'';
          case p of
            None \<Rightarrow> Some (lint_no_map file L)
          | Some pre \<Rightarrow>
              if ym_is_map Y pre
              then map_option (\<lambda>v. lint_protocol v file L) (scalar_at Y pre ''protocol'')
              else Some (lint_no_map file L) }"

definition lint_name :: "'n yaml_api \<Rightarrow> 'n \<Rightarrow> string \<Rightarrow> lint_state \<Rightarrow> lint_state option" where
  "lint_name Y root file L =
     do { name \<leftarrow> scalar_at Y root ''name'';
          Some (if name = None
                then push_issue file ''(root)'' (''missing or non-scalar '' @ quoted ''name'') L
                else L) }"

definition lint_mock_skip :: "'n yaml_api \<Rightarrow> 'n \<Rightarrow> string \<Rightarrow> lint_state \<Rightarrow> lint_state option" where
  "lint_mock_skip Y root file L =
     do { m \<leftarrow> ym_get Y root ''mock_skip'';
          Some (case m of
                  None \<Rightarrow> L
                | Some x \<Rightarrow> if ym_is_scalar Y x then L
                            else push_issue file ''mock_skip'' ''must be boolean'' L) }"

definition lint_root :: "'n yaml_api \<Rightarrow> 'n \<Rightarrow> string \<Rightarrow> lint_state \<Rightarrow> (bool \<times> lint_state) option" where
  "lint_root Y root file L =
     do { L1 \<leftarrow> lint_name Y root file L;
          (protocol, L2) \<leftarrow> lint_preconditions Y root file L1;
          L3 \<leftarrow> lint_mock_skip Y root file L2;
          s \<leftarrow> ym_get Y root ''steps'';
          (case s of
             None \<Rightarrow> Some (False, push_issue file ''(root)'' (''missing or non-sequence '' @ quoted ''steps'') L3)
           | Some steps \<Rightarrow>
               if ym_is_seq Y steps
               then map_option (Pair True) (lint_steps Y file protocol 0 (ym_items Y steps) L3)
               else Some (False, push_issue file ''(root)'' (''missing or non-sequence '' @ quoted ''steps'') L3)) }"

text \<open>\<open>lint_one\<close>: the issues are appended to the ones found so far.\<close>

definition lint_one ::
  "'n yaml_api \<Rightarrow> (string \<Rightarrow> string + 'n) \<Rightarrow> string \<Rightarrow> lint_issue list \<Rightarrow> (bool \<times> lint_issue list) option" where
  "lint_one Y load_file path issues =
     (case load_file path of
        Inl what \<Rightarrow> Some (False, issues @ [\<lparr>li_file = path, li_where = ''(parse)'', li_message = what\<rparr>])
      | Inr root \<Rightarrow> map_option (map_prod id ls_issues) (lint_root Y root path (lint_init issues)))"

section \<open>The command\<close>

text \<open>The directory walk: whether a path is a directory, and the entries below one with whether
  they are regular files. \<open>None\<close> is a thrown \<open>filesystem_error\<close>.\<close>

record dir_api =
  dir_is :: "string \<Rightarrow> bool option"
  dir_walk :: "string \<Rightarrow> (string \<times> bool) list option"

definition path_extension :: "string \<Rightarrow> string" where
  "path_extension p =
     (let f = path_filename p; ext = rev (takeWhile (\<lambda>c. c \<noteq> CHR ''.'') (rev f))
      in if f \<in> {''.'', ''..''} \<or> CHR ''.'' \<notin> set (drop 1 f) then [] else CHR ''.'' # ext)"

text \<open>Paths compare by their components, relative ones first; a trailing slash is an empty last
  component.\<close>

fun path_components :: "string \<Rightarrow> string \<Rightarrow> string list" where
  "path_components cur [] = [rev cur]"
| "path_components cur (c # cs) =
     (if c = CHR ''/'' then (if cur = [] then path_components [] cs else rev cur # path_components [] cs)
      else path_components (c # cur) cs)"

definition path_key :: "string \<Rightarrow> bool \<times> string list" where
  "path_key p =
     (let rel = dropWhile (\<lambda>c. c = CHR ''/'') p
      in (take 1 p = ''/'', if rel = [] then [] else path_components [] rel))"

fun lint_targets :: "dir_api \<Rightarrow> string list \<Rightarrow> string list option" where
  "lint_targets D [] = Some []"
| "lint_targets D (p # ps) =
     do { d \<leftarrow> dir_is D p;
          here \<leftarrow> (if d then do { es \<leftarrow> dir_walk D p;
                                  Some (map fst (filter (\<lambda>(e, reg). reg
                                    \<and> path_extension e \<in> {''.yaml'', ''.yml''}) es)) }
                   else Some [p]);
          rest \<leftarrow> lint_targets D ps;
          Some (here @ rest) }"

fun lint_all ::
  "'n yaml_api \<Rightarrow> (string \<Rightarrow> string + 'n) \<Rightarrow> string list \<Rightarrow> lint_issue list \<Rightarrow> lint_issue list option" where
  "lint_all Y load_file [] issues = Some issues"
| "lint_all Y load_file (t # ts) issues =
     do { (ok, issues1) \<leftarrow> lint_one Y load_file t issues; lint_all Y load_file ts issues1 }"

definition issue_line :: "lint_issue \<Rightarrow> string" where
  "issue_line i = li_file i @ '': '' @ li_where i @ '': '' @ li_message i"

text \<open>The exit code (0 is \<open>EXIT_SUCCESS\<close>) and the lines printed.\<close>

definition lint_main ::
  "'n yaml_api \<Rightarrow> (string \<Rightarrow> string + 'n) \<Rightarrow> dir_api \<Rightarrow> string \<Rightarrow> string list \<Rightarrow> (nat \<times> string list) option" where
  "lint_main Y load_file D prog args =
     (if args = [] then Some (1, [''usage: '' @ prog @ '' <scenario.yaml | dir> [...]''])
      else do {
        ts \<leftarrow> lint_targets D args;
        let targets = sort_key path_key ts;
        issues \<leftarrow> lint_all Y load_file targets [];
        Some (if issues = [] then (0, [''ok: '' @ dec (length targets) @ '' file(s) clean''])
              else (1, map issue_line issues
                      @ [dec (length issues) @ '' issue(s) across '' @ dec (length targets) @ '' file(s)''])) })"

end
