(* ===== verification/Scenario_Lint_Laws.thy ===== *)
theory Scenario_Lint_Laws
  imports Scenario_Lint
begin

text \<open>
  What \<open>apps/tools/scenario_lint.cpp\<close> guarantees: what a file without issues has, how the allow-lists
  compare with the runners, and when the command succeeds.
\<close>

section \<open>What a clean file has\<close>

text \<open>The linter only adds issues, so a clean result had a clean state everywhere before. Each lemma
  gives what a clean result says about one part of the step.\<close>

lemma push_issue_not_clean [simp]: "ls_issues (push_issue f w m L) \<noteq> []"
  by (simp add: push_issue_def)

lemma push_issue_result: "push_issue f w m L = L' \<Longrightarrow> ls_issues L' \<noteq> []"
  by auto

lemma lint_lengths_before:
  "lint_lengths Y args idx file keys L = Some L' \<Longrightarrow> ls_issues L' = [] \<Longrightarrow> ls_issues L = []"
proof (induction keys arbitrary: L)
  case (Cons key keys)
  obtain v where "scalar_at Y args key = Some v" using Cons.prems(1) by (auto simp: bind_eq_Some_conv)
  with Cons show ?case by (cases v) (fastforce split: if_splits)+
qed simp

lemma lint_lengths_after_push:
  "ls_issues L' = [] \<Longrightarrow> lint_lengths Y args idx file keys (push_issue f w m L) \<noteq> Some L'"
  using lint_lengths_before push_issue_not_clean by metis

lemma lint_lengths_clean:
  assumes "lint_lengths Y args idx file keys L = Some L'" "ls_issues L' = []"
  shows "L' = L" "\<forall>key \<in> set keys. \<forall>tok. scalar_at Y args key = Some (Some tok) \<longrightarrow> length tok \<le> 14"
  using assms
  by (induction keys arbitrary: L)
     (auto simp: bind_eq_Some_conv lint_lengths_after_push split: option.splits if_splits)

definition produced :: "'n yaml_api \<Rightarrow> 'n \<Rightarrow> string list \<Rightarrow> string set" where
  "produced Y args keys = {tok. tok \<noteq> [] \<and> (\<exists>key \<in> set keys. scalar_at Y args key = Some (Some tok))}"

lemma lint_producer_clean:
  assumes "ls_issues (lint_producer idx file rej key tok L) = []"
  shows "ls_issues L = []" "rej \<or> tok = [] \<or> ls_token_seen L tok = None"
    "dom (ls_token_seen (lint_producer idx file rej key tok L)) = dom (ls_token_seen L) \<union> ({tok} - {[]})"
    "ls_last_id (lint_producer idx file rej key tok L) = ls_last_id L"
  using assms by (auto simp: lint_producer_def split: option.splits if_splits)

lemma lint_producers_clean:
  assumes "lint_producers Y args idx file rej keys L = Some L'" "ls_issues L' = []"
  shows "ls_issues L = [] \<and> (rej \<or> produced Y args keys \<inter> dom (ls_token_seen L) = {})
    \<and> dom (ls_token_seen L') = dom (ls_token_seen L) \<union> produced Y args keys
    \<and> ls_last_id L' = ls_last_id L"
  using assms
proof (induction keys arbitrary: L)
  case Nil
  then show ?case by (simp add: produced_def)
next
  case (Cons key keys)
  obtain v where v: "scalar_at Y args key = Some v"
    and rest: "lint_producers Y args idx file rej keys
      (case v of None \<Rightarrow> L | Some tok \<Rightarrow> lint_producer idx file rej key tok L) = Some L'"
    using Cons.prems(1) by (auto simp: bind_eq_Some_conv)
  note IH = Cons.IH [OF rest Cons.prems(2)]
  show ?case
  proof (cases v)
    case None
    then have "produced Y args (key # keys) = produced Y args keys" using v by (auto simp: produced_def)
    with IH None show ?thesis by simp
  next
    case (Some tok)
    then have eq: "produced Y args (key # keys) = ({tok} - {[]}) \<union> produced Y args keys"
      using v by (auto simp: produced_def)
    have "ls_issues (lint_producer idx file rej key tok L) = []" using IH Some by simp
    from lint_producer_clean [OF this] IH Some show ?thesis unfolding eq by auto
  qed
qed

lemma lint_id_clean:
  assumes "lint_id id_num idx file L = (ok, L')" "ls_issues L' = []"
  obtains sid where "id_num = Some sid" "ls_issues L = []" "ls_token_seen L' = ls_token_seen L"
    "0 \<le> sint sid \<longrightarrow> ls_last_id L < sint sid \<and> ls_last_id L' = sint sid"
    "\<not> 0 \<le> sint sid \<longrightarrow> ls_last_id L' = ls_last_id L"
  using assms by (cases id_num) (auto simp: lint_id_def Let_def split: if_splits)

lemma lint_step_id_clean:
  assumes "lint_step_id Y step idx file L = Some (ok, L')" "ls_issues L' = []"
  obtains sid where "value_at Y (ym_int Y) step ''id'' 0 = Some sid"
    "ls_issues L = []" "ls_token_seen L' = ls_token_seen L"
    "0 \<le> sint sid \<longrightarrow> ls_last_id L < sint sid \<and> ls_last_id L' = sint sid"
    "\<not> 0 \<le> sint sid \<longrightarrow> ls_last_id L' = ls_last_id L"
proof -
  obtain x where x: "ym_get Y step ''id'' = Some (Some x)" "lint_id (ym_int Y x) idx file L = (ok, L')"
    using assms by (auto simp: lint_step_id_def bind_eq_Some_conv split: option.splits if_splits)
  from lint_id_clean [OF x(2) assms(2)] obtain sid where sid: "ym_int Y x = Some sid" "ls_issues L = []"
    "ls_token_seen L' = ls_token_seen L"
    "0 \<le> sint sid \<longrightarrow> ls_last_id L < sint sid \<and> ls_last_id L' = sint sid"
    "\<not> 0 \<le> sint sid \<longrightarrow> ls_last_id L' = ls_last_id L" .
  show thesis by (rule that [of sid]) (use x sid in \<open>simp_all add: value_at_def opt_as_def\<close>)
qed

lemma lint_action_clean:
  assumes "lint_action Y step idx file protocol L = Some (action, ok, L')" "ls_issues L' = []"
  shows "L' = L \<and> text_at Y step ''action'' [] = Some action \<and> action \<in> allowed_actions protocol"
  using assms
  by (auto simp: lint_action_def scalar_at_def text_at_def scalar_def bind_eq_Some_conv
      dest!: push_issue_result split: option.splits if_splits)

lemma lint_keys_clean:
  assumes "lint_keys Y idx file protocol kvs L = Some (ok, L')" "ls_issues L' = []"
  shows "L' = L \<and> (\<forall>kv \<in> set kvs. \<forall>k. ym_text Y (fst kv) = Some k \<longrightarrow> k \<in> allowed_keys protocol)"
  using assms
proof (induction kvs arbitrary: L ok)
  case (Cons kv kvs)
  obtain k where k: "ym_text Y (fst kv) = Some k"
    using Cons.prems(1) by (auto simp: bind_eq_Some_conv)
  have ok: "k \<in> allowed_keys protocol"
  proof (rule ccontr)
    assume "k \<notin> allowed_keys protocol"
    then obtain ok1 where "lint_keys Y idx file protocol kvs
        (push_issue file (step_at idx @ ''.expect.fields'')
          (''field key '' @ quoted k @ '' not in '' @ protocol @ '' known field set'') L) = Some (ok1, L')"
      using Cons.prems(1) k by (auto simp: bind_eq_Some_conv)
    from Cons.IH [OF this Cons.prems(2)] have "L' = push_issue file (step_at idx @ ''.expect.fields'')
        (''field key '' @ quoted k @ '' not in '' @ protocol @ '' known field set'') L" by blast
    with Cons.prems(2) show False using push_issue_not_clean by metis
  qed
  then have "lint_keys Y idx file protocol kvs L = Some (ok, L')" using Cons.prems(1) k by simp
  from Cons.IH [OF this Cons.prems(2)] k ok show ?case by simp
qed simp

text \<open>The expectation the loader makes of the node.\<close>

definition expect_checked :: "string \<Rightarrow> expect \<Rightarrow> bool" where
  "expect_checked protocol e \<longleftrightarrow>
     (ex_msg e \<noteq> [] \<longrightarrow> ex_msg e \<in> allowed_events protocol)
     \<and> fst ` set (ex_fields e) \<subseteq> allowed_keys protocol"

definition expects_reject :: "expect option \<Rightarrow> bool" where
  "expects_reject e \<longleftrightarrow>
     (case e of None \<Rightarrow> False | Some x \<Rightarrow> ex_msg x = ''order_rejected'' \<or> ex_msg x = ''fix_cancel_reject'')"

lemma keys_map_put: "fst ` set (map_put k v m) = insert k (fst ` set m)"
  using fst_map_put [of k v m] by simp

lemma keys_of_pairs: "fst ` set (fold (\<lambda>(k, v). map_put k v) kvs m) = fst ` set kvs \<union> fst ` set m"
  by (induction kvs arbitrary: m) (simp_all add: keys_map_put split_beta)

text \<open>What the pairs loop collects.\<close>

lemma text_pairs_keys:
  "map_opt (text_pair Y) kvs = Some ps \<Longrightarrow>
   fst ` set ps \<subseteq> {k. \<exists>kv \<in> set kvs. ym_text Y (fst kv) = Some k}"
  by (induction kvs arbitrary: ps) (fastforce simp: text_pair_def bind_eq_Some_conv)+

lemma lint_expect_msg_clean:
  assumes "lint_expect_msg Y n idx file L = Some (msg, ok, L')" "ls_issues L' = []"
  shows "L' = L" "text_at Y n ''msg'' [] = Some msg"
  using assms
  by (auto simp: lint_expect_msg_def text_at_def scalar_def bind_eq_Some_conv dest!: push_issue_result
      split: option.splits if_splits)

lemma lint_expect_fields_clean:
  assumes "lint_expect_fields Y n idx file protocol L = Some (ok, L')" "ls_issues L' = []"
    "pairs_at Y n ''fields'' = Some ps"
  shows "L' = L" "fst ` set ps \<subseteq> allowed_keys protocol"
  using assms text_pairs_keys [of Y]
  by (fastforce simp: lint_expect_fields_def pairs_at_def bind_eq_Some_conv dest!: lint_keys_clean
      split: option.splits if_splits)+

lemma lint_expect_map_clean:
  assumes "lint_expect_map Y n idx file protocol L = Some (msg, ok, L')" "ls_issues L' = []"
    "\<not> ym_is_scalar Y n" "ym_is_map Y n" "parse_expect Y n = Some e"
  shows "L' = L" "ex_msg e = msg" "fst ` set (ex_fields e) \<subseteq> allowed_keys protocol"
proof -
  obtain ok1 L1 fok where steps: "lint_expect_msg Y n idx file L = Some (msg, ok1, L1)"
    "lint_expect_fields Y n idx file protocol L1 = Some (fok, L')"
    using assms(1) by (auto simp: lint_expect_map_def bind_eq_Some_conv)
  obtain ps where e: "text_at Y n ''msg'' [] = Some (ex_msg e)"
    "pairs_at Y n ''fields'' = Some ps" "ex_fields e = fold (\<lambda>(k, v). map_put k v) ps []"
    using assms(3-5) by (auto simp: parse_expect_def bind_eq_Some_conv)
  note fields = lint_expect_fields_clean [OF steps(2) assms(2) e(2)]
  have "ls_issues L1 = []" using fields(1) assms(2) by simp
  note msg = lint_expect_msg_clean [OF steps(1) this]
  show "L' = L" "ex_msg e = msg" using fields(1) msg e(1) by simp_all
  show "fst ` set (ex_fields e) \<subseteq> allowed_keys protocol" using fields(2) e(3) by (simp add: keys_of_pairs)
qed

lemma lint_event_clean:
  assumes "lint_event idx file protocol (msg, ok, L) = (rej, ok', L')" "ls_issues L' = []"
  shows "L' = L" "msg \<noteq> [] \<longrightarrow> msg \<in> allowed_events protocol"
    "rej = (msg = ''order_rejected'' \<or> msg = ''fix_cancel_reject'')"
  using assms by (auto simp: lint_event_def dest!: push_issue_result split: if_splits)

lemma lint_expect_node_clean:
  assumes "lint_expect_node Y n idx file protocol L = Some (msg, ok, L')" "ls_issues L' = []"
    "parse_expect Y n = Some e"
  shows "L' = L \<and> ex_msg e = msg \<and> fst ` set (ex_fields e) \<subseteq> allowed_keys protocol"
proof -
  consider "ym_is_scalar Y n" | "\<not> ym_is_scalar Y n" "ym_is_map Y n"
    using assms(1,2) by (auto simp: lint_expect_node_def dest!: push_issue_result split: if_splits)
  then show ?thesis
  proof cases
    case 1
    then show ?thesis
      using assms by (auto simp: lint_expect_node_def parse_expect_def bind_eq_Some_conv expect_default_def)
  next
    case 2
    then have "lint_expect_map Y n idx file protocol L = Some (msg, ok, L')"
      using assms(1) by (simp add: lint_expect_node_def)
    from lint_expect_map_clean [OF this assms(2) 2 assms(3)] show ?thesis by blast
  qed
qed

lemma lint_expect_parts:
  assumes "lint_expect Y step idx file protocol L = Some (rej, ok, L')" "ym_get Y step ''expect'' = Some (Some n)"
  obtains msg ok1 L1 where "lint_expect_node Y n idx file protocol L = Some (msg, ok1, L1)"
    "lint_event idx file protocol (msg, ok1, L1) = (rej, ok, L')"
proof -
  obtain node where node: "lint_expect_node Y n idx file protocol L = Some node"
    "lint_event idx file protocol node = (rej, ok, L')"
    using assms by (auto simp: lint_expect_def)
  show thesis by (rule that [of "fst node" "fst (snd node)" "snd (snd node)"]) (use node in simp_all)
qed

lemma lint_expect_clean:
  assumes "lint_expect Y step idx file protocol L = Some (rej, ok, L')" "ls_issues L' = []"
    "ym_get Y step ''expect'' = Some n"
    "(case n of None \<Rightarrow> Some None | Some x \<Rightarrow> map_option Some (parse_expect Y x)) = Some ex"
  shows "L' = L \<and> rej = expects_reject ex \<and> (\<forall>e. ex = Some e \<longrightarrow> expect_checked protocol e)"
proof (cases n)
  case None
  then show ?thesis using assms by (auto simp: lint_expect_def expects_reject_def)
next
  case (Some x)
  then obtain e where e: "parse_expect Y x = Some e" "ex = Some e" using assms(4) by auto
  obtain msg ok1 L1 where node: "lint_expect_node Y x idx file protocol L = Some (msg, ok1, L1)"
    and ev: "lint_event idx file protocol (msg, ok1, L1) = (rej, ok, L')"
    using lint_expect_parts [OF assms(1)] assms(3) Some by blast
  note ev1 = lint_event_clean [OF ev assms(2)]
  have "ls_issues L1 = []" using ev1(1) assms(2) by simp
  from lint_expect_node_clean [OF node this e(1)] ev1 e(2) show ?thesis
    by (simp add: expects_reject_def expect_checked_def)
qed

text \<open>The tokens a loaded step introduces: the ones the linter tracks. The prefixes of a burst and
  the new id of a FIX cancel are not among them.\<close>

fun introduced :: "step_args \<Rightarrow> string set" where
  "introduced (PlaceArgs p) = {sp_token p} - {[]}"
| "introduced (ReplaceArgs p) = {sr_new_token p} - {[]}"
| "introduced (MassQuoteArgs q) = {sq_token q} - {[]}"
| "introduced (FixPlaceArgs p) = {fp_cl_ord_id p} - {[]}"
| "introduced (FixReplaceArgs p) = {fr_cl_ord_id p} - {[]}"
| "introduced _ = {}"

text \<open>Only a map has values under string keys: what the YAML library documents of \<open>operator[]\<close>.\<close>

definition keys_need_map :: "'n yaml_api \<Rightarrow> bool" where
  "keys_need_map Y \<longleftrightarrow> (\<forall>n k x. ym_get Y n k = Some (Some x) \<longrightarrow> ym_is_map Y n)"

definition token_under :: "'n yaml_api \<Rightarrow> 'n \<Rightarrow> string list \<Rightarrow> string \<Rightarrow> bool" where
  "token_under Y a keys tok \<longleftrightarrow>
     (\<exists>key \<in> set keys. \<exists>x. ym_get Y a key = Some (Some x) \<and> scalar_at Y a key = Some (Some tok))"

lemma text_at_other:
  "text_at Y a key d = Some t \<Longrightarrow> t \<noteq> d \<Longrightarrow> key \<in> set keys \<Longrightarrow> token_under Y a keys t"
  by (auto simp: text_at_def scalar_def scalar_at_def token_under_def bind_eq_Some_conv
      split: option.splits if_splits)

lemma text_at_twice:
  assumes "text_at Y a k1 [] = Some t1" "text_at Y a k2 t1 = Some t" "t \<noteq> []" "k1 \<in> set keys" "k2 \<in> set keys"
  shows "token_under Y a keys t"
  using text_at_other [OF assms(1), of keys] text_at_other [OF assms(2), of keys] assms(3-5)
  by (cases "t = t1") simp_all

lemma introduced_tokens:
  assumes "parse_step_args Y is_fix action a = Some args" "tok \<in> introduced args"
  shows "token_under Y a (producer_keys action) tok"
proof -
  have fit: "fits is_fix action args" by (rule parse_step_args_fit [OF assms(1)])
  show ?thesis
  proof (cases args)
    case (PlaceArgs p)
    then have "action = ''place''" using fit by simp
    moreover have "parse_place_args Y a = Some p"
      using assms(1) PlaceArgs fit by (auto simp: parse_step_args_def split: if_splits)
    ultimately show ?thesis using assms(2) PlaceArgs
      by (auto simp: parse_place_args_def bind_eq_Some_conv producer_keys_def action_produces_token_def
          intro: text_at_other)
  next
    case (ReplaceArgs p)
    then have "action = ''replace''" using fit by simp
    moreover have "parse_replace_args Y a = Some p"
      using assms(1) ReplaceArgs fit by (auto simp: parse_step_args_def split: if_splits)
    ultimately show ?thesis using assms(2) ReplaceArgs
      by (auto simp: parse_replace_args_def bind_eq_Some_conv producer_keys_def action_produces_token_def
          action_produces_new_token_via_replace_def intro: text_at_other)
  next
    case (MassQuoteArgs q)
    then have "action = ''mass_quote''" using fit by simp
    moreover have "parse_mass_quote_args Y a = Some q"
      using assms(1) MassQuoteArgs fit by (auto simp: parse_step_args_def split: if_splits)
    ultimately show ?thesis using assms(2) MassQuoteArgs
      by (auto simp: parse_mass_quote_args_def bind_eq_Some_conv producer_keys_def action_produces_token_def
          intro: text_at_other)
  next
    case (FixPlaceArgs p)
    then have act: "action \<in> {''place'', ''fix_place''}" using fit by auto
    have "parse_fix_place_args Y a = Some p"
      using assms(1) FixPlaceArgs fit by (auto simp: parse_step_args_def split: if_splits)
    then obtain t where "text_at Y a ''token'' [] = Some t" "text_at Y a ''cl_ord_id'' t = Some (fp_cl_ord_id p)"
      by (auto simp: parse_fix_place_args_def bind_eq_Some_conv)
    moreover have "''token'' \<in> set (producer_keys action)" "''cl_ord_id'' \<in> set (producer_keys action)"
      using act by (elim insertE; simp add: producer_keys_def action_produces_token_def)+
    moreover have "tok = fp_cl_ord_id p" "fp_cl_ord_id p \<noteq> []" using assms(2) FixPlaceArgs by auto
    ultimately show ?thesis
      using text_at_twice [of Y a "''token''" t "''cl_ord_id''"] by simp
  next
    case (FixReplaceArgs p)
    then have act: "action \<in> {''replace'', ''fix_replace''}" using fit by auto
    have "parse_fix_replace_args Y a = Some p"
      using assms(1) FixReplaceArgs fit by (auto simp: parse_step_args_def split: if_splits)
    then obtain t where "text_at Y a ''new_token'' [] = Some t" "text_at Y a ''cl_ord_id'' t = Some (fr_cl_ord_id p)"
      by (auto simp: parse_fix_replace_args_def bind_eq_Some_conv)
    moreover have "''new_token'' \<in> set (producer_keys action)" "''cl_ord_id'' \<in> set (producer_keys action)"
      using act by (elim insertE; simp add: producer_keys_def action_produces_token_def action_produces_new_token_via_replace_def)+
    moreover have "tok = fr_cl_ord_id p" "fr_cl_ord_id p \<noteq> []" using assms(2) FixReplaceArgs by auto
    ultimately show ?thesis
      using text_at_twice [of Y a "''new_token''" t "''cl_ord_id''"] by simp
  qed (use assms(2) in simp_all)
qed

lemma producer_keys_sub: "set (producer_keys action) \<subseteq> set length_check_keys"
  by (auto simp: producer_keys_def length_check_keys_def)

text \<open>One step.\<close>

definition step_checked :: "string \<Rightarrow> step \<Rightarrow> bool" where
  "step_checked protocol st \<longleftrightarrow>
     st_action st \<in> allowed_actions protocol
     \<and> (\<forall>e. st_expect st = Some e \<longrightarrow> expect_checked protocol e)
     \<and> (\<forall>tok \<in> introduced (st_args st). length tok \<le> 14)"

lemma check_step_parts:
  assumes "check_step Y step idx file protocol L = Some (ok, L')"
  shows "\<exists>ok1 L1 action ok2 L2 rej ok3 L3 a. lint_step_id Y step idx file L = Some (ok1, L1)
    \<and> lint_action Y step idx file protocol L1 = Some (action, ok2, L2)
    \<and> lint_expect Y step idx file protocol L2 = Some (rej, ok3, L3)
    \<and> ym_get Y step ''args'' = Some a
    \<and> (case a of None \<Rightarrow> Some L3
       | Some args \<Rightarrow> if ym_is_map Y args then check_step_token Y action args idx file rej L3
                      else Some L3) = Some L'"
  using assms unfolding check_step_def
  by (clarsimp simp: bind_eq_Some_conv)

lemma parse_step_parts:
  assumes "parse_step Y is_fix step = Some st"
  shows "\<exists>a e. ym_get Y step ''args'' = Some a \<and> value_at Y (ym_int Y) step ''id'' 0 = Some (st_id st)
    \<and> text_at Y step ''action'' [] = Some (st_action st)
    \<and> (case a of None \<Rightarrow> Some NoArgs | Some n \<Rightarrow> parse_step_args Y is_fix (st_action st) n) = Some (st_args st)
    \<and> ym_get Y step ''expect'' = Some e
    \<and> (case e of None \<Rightarrow> Some None | Some n \<Rightarrow> map_option Some (parse_expect Y n)) = Some (st_expect st)"
  using assms unfolding parse_step_def
  by (clarsimp simp: bind_eq_Some_conv cong: option.case_cong)

text \<open>The token part of a step.\<close>

lemma step_tokens_clean:
  assumes "(case a of None \<Rightarrow> Some L3
       | Some args \<Rightarrow> if ym_is_map Y args then check_step_token Y action args idx file rej L3
                      else Some L3) = Some L'" "ls_issues L' = []"
    "(case a of None \<Rightarrow> Some NoArgs | Some n \<Rightarrow> parse_step_args Y is_fix action' n) = Some sargs"
    "keys_need_map Y"
  shows "ls_issues L3 = []" "ls_last_id L' = ls_last_id L3"
    "action = action' \<Longrightarrow> (rej \<or> introduced sargs \<inter> dom (ls_token_seen L3) = {})
      \<and> dom (ls_token_seen L3) \<union> introduced sargs \<subseteq> dom (ls_token_seen L')
      \<and> (\<forall>tok \<in> introduced sargs. length tok \<le> 14)"
proof (atomize (full), cases "\<exists>args. a = Some args \<and> ym_is_map Y args")
  case True
  then obtain args where args: "a = Some args" "ym_is_map Y args" by blast
  have "check_step_token Y action args idx file rej L3 = Some L'" using assms(1) args by simp
  then obtain M where len: "lint_lengths Y args idx file length_check_keys L3 = Some M"
    and prod: "lint_producers Y args idx file rej (producer_keys action) M = Some L'"
    by (auto simp: check_step_token_def bind_eq_Some_conv)
  note p = lint_producers_clean [OF prod assms(2)]
  have "ls_issues M = []" using p by blast
  note l = lint_lengths_clean [OF len this]
  have parsed: "parse_step_args Y is_fix action' args = Some sargs" using assms(3) args by simp
  have sub: "introduced sargs \<subseteq> produced Y args (producer_keys action)" if "action = action'"
  proof
    fix t
    assume t: "t \<in> introduced sargs"
    have "t \<noteq> []" using t by (cases sargs) auto
    with introduced_tokens [OF parsed t] that show "t \<in> produced Y args (producer_keys action)"
      by (auto simp: produced_def token_under_def)
  qed
  have short: "length t \<le> 14" if "t \<in> produced Y args (producer_keys action)" for t
    using that l(2) producer_keys_sub [of action] by (auto simp: produced_def)
  show "ls_issues L3 = [] \<and> ls_last_id L' = ls_last_id L3 \<and>
    (action = action' \<longrightarrow> (rej \<or> introduced sargs \<inter> dom (ls_token_seen L3) = {})
      \<and> dom (ls_token_seen L3) \<union> introduced sargs \<subseteq> dom (ls_token_seen L')
      \<and> (\<forall>tok \<in> introduced sargs. length tok \<le> 14))"
    using p sub short l(1) \<open>ls_issues M = []\<close> by blast
next
  case False
  then have "L' = L3" using assms(1) by (auto split: option.splits)
  moreover have "introduced sargs = {}"
  proof (rule ccontr)
    assume "introduced sargs \<noteq> {}"
    then obtain t where t: "t \<in> introduced sargs" by blast
    then obtain args where args: "a = Some args" "parse_step_args Y is_fix action' args = Some sargs"
      using assms(3) by (cases a) auto
    from introduced_tokens [OF args(2) t] assms(4) have "ym_is_map Y args"
      by (auto simp: token_under_def keys_need_map_def)
    with False args(1) show False by blast
  qed
  ultimately show "ls_issues L3 = [] \<and> ls_last_id L' = ls_last_id L3 \<and>
    (action = action' \<longrightarrow> (rej \<or> introduced sargs \<inter> dom (ls_token_seen L3) = {})
      \<and> dom (ls_token_seen L3) \<union> introduced sargs \<subseteq> dom (ls_token_seen L')
      \<and> (\<forall>tok \<in> introduced sargs. length tok \<le> 14))"
    using assms(2) by simp
qed

lemma check_step_clean:
  assumes "check_step Y step idx file protocol L = Some (ok, L')" "ls_issues L' = []"
    "parse_step Y is_fix step = Some st" "keys_need_map Y"
  shows "ls_issues L = [] \<and> step_checked protocol st
    \<and> (if 0 \<le> sint (st_id st) then ls_last_id L < sint (st_id st) \<and> ls_last_id L' = sint (st_id st)
       else ls_last_id L' = ls_last_id L)
    \<and> (expects_reject (st_expect st) \<or> introduced (st_args st) \<inter> dom (ls_token_seen L) = {})
    \<and> dom (ls_token_seen L) \<union> introduced (st_args st) \<subseteq> dom (ls_token_seen L')"
proof -
  obtain ok1 L1 action ok2 L2 rej ok3 L3 a where steps:
    "lint_step_id Y step idx file L = Some (ok1, L1)"
    "lint_action Y step idx file protocol L1 = Some (action, ok2, L2)"
    "lint_expect Y step idx file protocol L2 = Some (rej, ok3, L3)"
    "ym_get Y step ''args'' = Some a"
    and toks: "(case a of None \<Rightarrow> Some L3
                | Some args \<Rightarrow> if ym_is_map Y args then check_step_token Y action args idx file rej L3
                               else Some L3) = Some L'"
    using check_step_parts [OF assms(1)] by blast
  obtain e where st: "value_at Y (ym_int Y) step ''id'' 0 = Some (st_id st)"
    "text_at Y step ''action'' [] = Some (st_action st)"
    "(case a of None \<Rightarrow> Some NoArgs | Some n \<Rightarrow> parse_step_args Y is_fix (st_action st) n) = Some (st_args st)"
    "ym_get Y step ''expect'' = Some e"
    "(case e of None \<Rightarrow> Some None | Some n \<Rightarrow> map_option Some (parse_expect Y n)) = Some (st_expect st)"
    using parse_step_parts [OF assms(3)] steps(4) by auto
  note t = step_tokens_clean [OF toks assms(2) st(3) assms(4)]
  note e = lint_expect_clean [OF steps(3) t(1) st(4,5)]
  have "ls_issues L2 = []" using e t(1) by simp
  note ac = lint_action_clean [OF steps(2) this]
  have "ls_issues L1 = []" using ac \<open>ls_issues L2 = []\<close> by simp
  from lint_step_id_clean [OF steps(1) this] obtain sid where sid:
    "value_at Y (ym_int Y) step ''id'' 0 = Some sid"
    "ls_issues L = []" "ls_token_seen L1 = ls_token_seen L"
    "0 \<le> sint sid \<longrightarrow> ls_last_id L < sint sid \<and> ls_last_id L1 = sint sid"
    "\<not> 0 \<le> sint sid \<longrightarrow> ls_last_id L1 = ls_last_id L" .
  have eq: "action = st_action st" "sid = st_id st" "L3 = L1" using ac e st(1,2) sid(1) by auto
  show ?thesis using sid(2-5) t(2) t(3) [OF eq(1)] e ac eq by (auto simp: step_checked_def)
qed

section \<open>Files\<close>

text \<open>The steps of a file, each against what came before it.\<close>

fun steps_in_order :: "int \<Rightarrow> string set \<Rightarrow> step list \<Rightarrow> bool" where
  "steps_in_order prev seen [] = True"
| "steps_in_order prev seen (st # sts) =
     ((0 \<le> sint (st_id st) \<longrightarrow> prev < sint (st_id st))
      \<and> (expects_reject (st_expect st) \<or> introduced (st_args st) \<inter> seen = {})
      \<and> steps_in_order (if 0 \<le> sint (st_id st) then sint (st_id st) else prev)
          (seen \<union> introduced (st_args st)) sts)"

lemma steps_in_order_mono: "steps_in_order prev seen sts \<Longrightarrow> seen' \<subseteq> seen \<Longrightarrow> steps_in_order prev seen' sts"
proof (induction sts arbitrary: prev seen seen')
  case (Cons st sts)
  let ?prev = "if 0 \<le> sint (st_id st) then sint (st_id st) else prev"
  have "steps_in_order ?prev (seen' \<union> introduced (st_args st)) sts"
    by (rule Cons.IH [of _ "seen \<union> introduced (st_args st)"]) (use Cons.prems in auto)
  moreover have "expects_reject (st_expect st) \<or> introduced (st_args st) \<inter> seen' = {}"
    using Cons.prems by auto
  ultimately show ?case using Cons.prems(1) by simp
qed simp

lemma lint_steps_clean:
  assumes "lint_steps Y file protocol idx steps L = Some L'" "ls_issues L' = []"
    "map_opt (parse_step Y is_fix) steps = Some sts" "keys_need_map Y"
  shows "ls_issues L = [] \<and> (\<forall>st \<in> set sts. step_checked protocol st)
    \<and> steps_in_order (ls_last_id L) (dom (ls_token_seen L)) sts"
  using assms(1,3)
proof (induction steps arbitrary: idx L sts)
  case Nil
  then show ?case using assms(2) by simp
next
  case (Cons step steps)
  obtain L1 where here: "(if \<not> ym_is_map Y step then Some (push_issue file (step_at idx) ''must be a map'' L)
                 else map_option snd (check_step Y step idx file protocol L)) = Some L1"
    and rest: "lint_steps Y file protocol (idx + 1) steps L1 = Some L'"
    using Cons.prems(1) by (auto simp: bind_eq_Some_conv)
  obtain st sts' where st: "parse_step Y is_fix step = Some st" "map_opt (parse_step Y is_fix) steps = Some sts'"
    "sts = st # sts'" using Cons.prems(2) by (auto simp: bind_eq_Some_conv)
  note IH = Cons.IH [OF rest st(2)]
  obtain ok where "check_step Y step idx file protocol L = Some (ok, L1)"
    using here IH by (auto dest!: push_issue_result split: if_splits)
  from check_step_clean [OF this _ st(1) assms(4)] IH
  have step: "ls_issues L = []" "step_checked protocol st"
    "if 0 \<le> sint (st_id st) then ls_last_id L < sint (st_id st) \<and> ls_last_id L1 = sint (st_id st)
     else ls_last_id L1 = ls_last_id L"
    "expects_reject (st_expect st) \<or> introduced (st_args st) \<inter> dom (ls_token_seen L) = {}"
    "dom (ls_token_seen L) \<union> introduced (st_args st) \<subseteq> dom (ls_token_seen L1)"
    by blast+
  have "steps_in_order (ls_last_id L1) (dom (ls_token_seen L) \<union> introduced (st_args st)) sts'"
    using steps_in_order_mono [OF _ step(5)] IH by blast
  then show ?case using step(1-4) IH st(3) by (auto split: if_splits)
qed

lemma lint_protocol_clean:
  assumes "lint_protocol v file L = (protocol, L')" "ls_issues L' = []"
  shows "v = Some protocol \<and> protocol \<in> valid_protocols \<and> L' = L"
  using assms by (auto simp: lint_protocol_def dest!: push_issue_result split: option.splits if_splits)

lemma lint_no_map_dirty: "lint_no_map file L = (protocol, L') \<Longrightarrow> ls_issues L' \<noteq> []"
  by (auto simp: lint_no_map_def)

lemma lint_preconditions_clean:
  assumes "lint_preconditions Y root file L = Some (protocol, L')" "ls_issues L' = []"
  shows "\<exists>n. ym_get Y root ''preconditions'' = Some (Some n) \<and> text_at Y n ''protocol'' [] = Some protocol
    \<and> protocol \<in> valid_protocols \<and> L' = L"
proof -
  have "\<exists>n v. ym_get Y root ''preconditions'' = Some (Some n) \<and> scalar_at Y n ''protocol'' = Some v
    \<and> lint_protocol v file L = (protocol, L')"
    using assms
    by (auto simp: lint_preconditions_def bind_eq_Some_conv dest!: lint_no_map_dirty
        split: option.splits if_splits)
  then obtain n where n: "ym_get Y root ''preconditions'' = Some (Some n)"
    "scalar_at Y n ''protocol'' = Some (Some protocol)" "protocol \<in> valid_protocols" "L' = L"
    using lint_protocol_clean assms(2) by blast
  from n(2) have "text_at Y n ''protocol'' [] = Some protocol"
    by (auto simp: scalar_at_def text_at_def scalar_def bind_eq_Some_conv split: option.splits if_splits)
  with n show ?thesis by blast
qed

lemma lint_file_clean:
  assumes "lint_one Y load_file path [] = Some (ok, [])" "load_scenario Y load_file path = Inr s"
    "keys_need_map Y"
  obtains root pre protocol where "load_file path = Inr root" "ym_get Y root ''preconditions'' = Some (Some pre)"
    "text_at Y pre ''protocol'' [] = Some protocol" "protocol \<in> valid_protocols"
    "\<forall>st \<in> set (sc_steps s). step_checked protocol st" "steps_in_order (-1) {} (sc_steps s)"
proof -
  obtain root sq where load: "load_file path = Inr root" "ym_get Y root ''steps'' = Some (Some sq)"
    "ym_is_seq Y sq" and parsed: "map_opt (parse_step Y
        (sc_preconditions s ''protocol'' \<in> {Some ''fix_oe'', Some ''fix_rd''})) (ym_items Y sq) = Some (sc_steps s)"
    using load_scenario_Inr [OF assms(2)] by metis
  obtain L' where "lint_root Y root path (lint_init []) = Some (ok, L')" and clean: "ls_issues L' = []"
    using assms(1) load(1) by (auto simp: lint_one_def)
  then obtain L1 protocol L2 L3 where L1: "lint_name Y root path (lint_init []) = Some L1"
    and pre: "lint_preconditions Y root path L1 = Some (protocol, L2)"
    and L3: "lint_mock_skip Y root path L2 = Some L3"
    and steps: "lint_steps Y path protocol 0 (ym_items Y sq) L3 = Some L'"
    using load(2,3) unfolding lint_root_def by (auto simp: bind_eq_Some_conv)
  note cl = lint_steps_clean [OF steps clean parsed assms(3)]
  have eq3: "L3 = L2" using L3 cl
    by (auto simp: lint_mock_skip_def bind_eq_Some_conv dest!: push_issue_result split: option.splits if_splits)
  then have "ls_issues L2 = []" using cl by simp
  then obtain n where n: "ym_get Y root ''preconditions'' = Some (Some n)"
    "text_at Y n ''protocol'' [] = Some protocol" "protocol \<in> valid_protocols" "L2 = L1"
    using lint_preconditions_clean [OF pre] by blast
  have "L1 = lint_init []" using L1 \<open>ls_issues L2 = []\<close> n(4)
    by (auto simp: lint_name_def bind_eq_Some_conv dest!: push_issue_result split: if_splits)
  then show thesis using that [OF load(1) n(1-3)] cl eq3 n(4) by (simp add: lint_init_def)
qed

section \<open>The allow-lists against the runners\<close>

lemma accepted_keys: "accepted_field m k \<noteq> None \<longleftrightarrow>
    k \<in> {''token'', ''order_book_id'', ''side'', ''order_id'', ''quantity'', ''leaves_quantity'', ''price'',
      ''time_in_force'', ''open_close'', ''order_state'', ''pre_trade_quantity'', ''display_quantity'',
      ''client_category'', ''off_hours'', ''smp_level'', ''smp_method'', ''smp_id''}"
  unfolding accepted_field_def by (simp only: if_split insert_iff empty_iff) simp

lemma replaced_keys: "replaced_field m k \<noteq> None \<longleftrightarrow>
    k \<in> {''token'', ''replacement_token'', ''replacement_order_token'', ''previous_token'',
      ''previous_order_token'', ''order_book_id'', ''side'', ''order_id'', ''quantity'', ''leaves_quantity'',
      ''price'', ''time_in_force'', ''open_close'', ''order_state'', ''pre_trade_quantity'',
      ''display_quantity'', ''client_category''}"
  unfolding replaced_field_def by (simp only: if_split insert_iff empty_iff) simp

lemma canceled_keys: "canceled_field m k \<noteq> None \<longleftrightarrow>
    k \<in> {''token'', ''order_book_id'', ''side'', ''order_id'', ''reason'', ''cancel_reason_name''}"
  unfolding canceled_field_def by (simp only: if_split insert_iff empty_iff) simp

lemma executed_keys: "executed_field m k \<noteq> None \<longleftrightarrow>
    k \<in> {''token'', ''order_book_id'', ''traded_quantity'', ''quantity'', ''trade_price'', ''price'',
      ''client_category''}"
  unfolding executed_field_def by (simp only: if_split insert_iff empty_iff) simp

lemma quote_ack_keys: "quote_ack_field m k \<noteq> None \<longleftrightarrow>
    k \<in> {''token'', ''order_book_id'', ''quantity'', ''leaves_quantity'', ''traded_quantity'', ''price'',
      ''side'', ''quote_status''}"
  unfolding quote_ack_field_def by (simp only: if_split insert_iff empty_iff) simp

lemmas ouch_keys = accepted_keys replaced_keys canceled_keys executed_keys quote_ack_keys

lemma ouch_keys_answered:
  "(\<exists>ev. ouch_event_field ev k \<noteq> None) \<longleftrightarrow>
    k \<in> ouch_field_keys - {''session'', ''next_sequence'', ''sequence'', ''reason_code''}"
proof
  assume "\<exists>ev. ouch_event_field ev k \<noteq> None"
  then obtain ev where ev: "ouch_event_field ev k \<noteq> None" ..
  show "k \<in> ouch_field_keys - {''session'', ''next_sequence'', ''sequence'', ''reason_code''}"
  proof (cases ev)
    case (EvAccepted m)
    with ev have "accepted_field m k \<noteq> None" by simp
    then show ?thesis unfolding ouch_keys ouch_field_keys_def by (elim insertE) simp_all
  next
    case (EvReplaced m)
    with ev have "replaced_field m k \<noteq> None" by simp
    then show ?thesis unfolding ouch_keys ouch_field_keys_def by (elim insertE) simp_all
  next
    case (EvCanceled m)
    with ev have "canceled_field m k \<noteq> None" by simp
    then show ?thesis unfolding ouch_keys ouch_field_keys_def by (elim insertE) simp_all
  next
    case (EvExecuted m)
    with ev have "executed_field m k \<noteq> None" by simp
    then show ?thesis unfolding ouch_keys ouch_field_keys_def by (elim insertE) simp_all
  next
    case (EvQuoteAck m)
    with ev have "quote_ack_field m k \<noteq> None" by simp
    then show ?thesis unfolding ouch_keys ouch_field_keys_def by (elim insertE) simp_all
  next
    case (EvRejected m)
    then show ?thesis using ev by (auto simp: ouch_field_keys_def split: if_splits)
  next
    case (EvQuoteRejection m)
    then show ?thesis using ev by (auto simp: ouch_field_keys_def split: if_splits)
  qed
next
  assume "k \<in> ouch_field_keys - {''session'', ''next_sequence'', ''sequence'', ''reason_code''}"
  then have "accepted_field undefined k \<noteq> None \<or> replaced_field undefined k \<noteq> None
      \<or> canceled_field undefined k \<noteq> None \<or> executed_field undefined k \<noteq> None
      \<or> quote_ack_field undefined k \<noteq> None \<or> ouch_event_field (EvRejected undefined) k \<noteq> None"
    unfolding ouch_keys ouch_field_keys_def by (elim DiffE insertE; simp)
  then show "\<exists>ev. ouch_event_field ev k \<noteq> None"
    by (metis ouch_event_field.simps(1,3,4,5,6))
qed

definition unanswered_fix_keys :: "string set" where
  "unanswered_fix_keys =
     {''MsgType'', ''OrdRejReason'', ''CxlRejReason'', ''OrderQty'', ''ApplReqID'', ''ApplResponseType'',
      ''appl_response_type'', ''appl_req_id''}"

lemma fix_keys_unanswered: "k \<in> unanswered_fix_keys \<Longrightarrow> fix_event_field ev k = None"
  unfolding unanswered_fix_keys_def
  by (cases ev; elim insertE; simp add: fix_logon_field_def execution_field_def cancel_reject_field_def
      trade_report_field_def quote_status_field_def amr_field_def)

lemma fix_keys_answered:
  assumes "k \<in> fix_field_keys - unanswered_fix_keys"
  shows "\<exists>ev. fix_event_field ev k \<noteq> None"
proof -
  have "fix_logon_field undefined k \<noteq> None \<or> execution_field undefined k \<noteq> None \<or> amr_field undefined k \<noteq> None"
    using assms unfolding fix_field_keys_def unanswered_fix_keys_def
    by (elim DiffE insertE; simp add: fix_logon_field_def execution_field_def amr_field_def)
  then show ?thesis by (metis fix_event_field.simps(1,2,6))
qed

lemma ouch_names: "range ouch_event_name =
    {''order_accepted'', ''order_rejected'', ''order_replaced'', ''order_canceled'', ''order_executed'',
     ''mass_quote_ack'', ''mass_quote_rejection''}"
proof (intro equalityI subsetI)
  fix n
  assume "n \<in> range ouch_event_name"
  then obtain ev where "n = ouch_event_name ev" by blast
  then show "n \<in> {''order_accepted'', ''order_rejected'', ''order_replaced'', ''order_canceled'',
      ''order_executed'', ''mass_quote_ack'', ''mass_quote_rejection''}" by (cases ev) simp_all
next
  fix n
  assume "n \<in> {''order_accepted'', ''order_rejected'', ''order_replaced'', ''order_canceled'',
      ''order_executed'', ''mass_quote_ack'', ''mass_quote_rejection''}"
  then show "n \<in> range ouch_event_name"
    by (elim insertE) (metis ouch_event_name.simps rangeI, metis ouch_event_name.simps rangeI,
      metis ouch_event_name.simps rangeI, metis ouch_event_name.simps rangeI,
      metis ouch_event_name.simps rangeI, metis ouch_event_name.simps rangeI,
      metis ouch_event_name.simps rangeI, simp)
qed

section \<open>Issues are only added\<close>

lemma lint_keys_before:
  "lint_keys Y idx file protocol kvs L = Some (ok, L') \<Longrightarrow> ls_issues L' = [] \<Longrightarrow> ls_issues L = []"
  using lint_keys_clean by metis

lemma lint_expect_before:
  assumes "lint_expect Y step idx file protocol L = Some (rej, ok, L')" "ls_issues L' = []"
  shows "ls_issues L = []"
proof -
  have msg: "ls_issues L = []" if "lint_expect_msg Y n idx file L = Some (m, k, L1)" "ls_issues L1 = []" for n m k L1
    using lint_expect_msg_clean(1) [OF that] that(2) by simp
  have fields: "ls_issues L1 = []"
    if "lint_expect_fields Y n idx file protocol L1 = Some (k, L2)" "ls_issues L2 = []" for n k L1 L2
    using that lint_keys_before
    by (fastforce simp: lint_expect_fields_def bind_eq_Some_conv split: option.splits if_splits)
  have map: "ls_issues L = []"
    if "lint_expect_map Y n idx file protocol L = Some (m, k, L1)" "ls_issues L1 = []" for n m k L1
    using that msg fields unfolding lint_expect_map_def by (clarsimp simp: bind_eq_Some_conv)
  have node: "ls_issues L = []"
    if "lint_expect_node Y n idx file protocol L = Some (m, k, L1)" "ls_issues L1 = []" for n m k L1
    using that map unfolding lint_expect_node_def by (auto dest!: push_issue_result split: if_splits)
  obtain e where e: "ym_get Y step ''expect'' = Some e"
    using assms(1) by (auto simp: lint_expect_def bind_eq_Some_conv)
  show ?thesis
  proof (cases e)
    case None
    then show ?thesis using assms e by (auto simp: lint_expect_def)
  next
    case (Some n)
    from lint_expect_parts [OF assms(1)] e Some obtain m k L1 where
      "lint_expect_node Y n idx file protocol L = Some (m, k, L1)"
      "lint_event idx file protocol (m, k, L1) = (rej, ok, L')" by blast
    then show ?thesis using node lint_event_clean(1) assms(2) by metis
  qed
qed

lemma check_step_before:
  assumes "check_step Y step idx file protocol L = Some (ok, L')" "ls_issues L' = []"
  shows "ls_issues L = []"
proof -
  obtain ok1 L1 action ok2 L2 rej ok3 L3 a where steps:
    "lint_step_id Y step idx file L = Some (ok1, L1)"
    "lint_action Y step idx file protocol L1 = Some (action, ok2, L2)"
    "lint_expect Y step idx file protocol L2 = Some (rej, ok3, L3)"
    and toks: "(case a of None \<Rightarrow> Some L3
                | Some args \<Rightarrow> if ym_is_map Y args then check_step_token Y action args idx file rej L3
                               else Some L3) = Some L'"
    using check_step_parts [OF assms(1)] by blast
  have "ls_issues L3 = []" using toks assms(2) lint_producers_clean lint_lengths_before
    by (fastforce simp: check_step_token_def bind_eq_Some_conv split: option.splits if_splits)
  from lint_expect_before [OF steps(3) this] have l2: "ls_issues L2 = []" .
  with lint_action_clean [OF steps(2)] have "ls_issues L1 = []" by metis
  then show ?thesis using lint_step_id_clean [OF steps(1)] by metis
qed

lemma lint_steps_before:
  "lint_steps Y file protocol idx steps L = Some L' \<Longrightarrow> ls_issues L' = [] \<Longrightarrow> ls_issues L = []"
proof (induction steps arbitrary: idx L)
  case (Cons step steps)
  obtain L1 where here: "(if \<not> ym_is_map Y step then Some (push_issue file (step_at idx) ''must be a map'' L)
                 else map_option snd (check_step Y step idx file protocol L)) = Some L1"
    and rest: "lint_steps Y file protocol (idx + 1) steps L1 = Some L'"
    using Cons.prems(1) by (auto simp: bind_eq_Some_conv)
  have "ls_issues L1 = []" using Cons.IH [OF rest Cons.prems(2)] .
  then show ?case using here by (auto dest!: push_issue_result intro: check_step_before split: if_splits)
qed simp

lemma lint_root_before:
  assumes "lint_root Y root file L = Some (ok, L')" "ls_issues L' = []"
  shows "ls_issues L = []"
proof -
  obtain L1 protocol L2 L3 where L1: "lint_name Y root file L = Some L1"
    and pre: "lint_preconditions Y root file L1 = Some (protocol, L2)"
    and L3: "lint_mock_skip Y root file L2 = Some L3" and "ls_issues L3 = []"
    using assms lint_steps_before unfolding lint_root_def
    by (fastforce simp: bind_eq_Some_conv dest!: push_issue_result split: option.splits if_splits)
  then have "L3 = L2"
    by (auto simp: lint_mock_skip_def bind_eq_Some_conv dest!: push_issue_result split: option.splits if_splits)
  with \<open>ls_issues L3 = []\<close> have "ls_issues L2 = []" by simp
  with lint_preconditions_clean [OF pre] have "ls_issues L1 = []" by metis
  with L1 show ?thesis by (auto simp: lint_name_def bind_eq_Some_conv split: if_splits)
qed

lemma lint_one_before: "lint_one Y load_file path issues = Some (ok, []) \<Longrightarrow> issues = []"
  using lint_root_before
  by (fastforce simp: lint_one_def lint_init_def split: sum.splits)

lemma lint_all_before: "lint_all Y load_file ts issues = Some [] \<Longrightarrow> issues = []"
  by (induction ts arbitrary: issues) (auto simp: bind_eq_Some_conv dest: lint_one_before)

lemma lint_all_clean:
  "lint_all Y load_file ts [] = Some [] \<longleftrightarrow> (\<forall>t \<in> set ts. \<exists>ok. lint_one Y load_file t [] = Some (ok, []))"
proof (induction ts)
  case (Cons t ts)
  have "lint_all Y load_file (t # ts) [] = Some []
      \<longleftrightarrow> (\<exists>ok. lint_one Y load_file t [] = Some (ok, [])) \<and> lint_all Y load_file ts [] = Some []"
    using lint_all_before by (fastforce simp: bind_eq_Some_conv)
  with Cons.IH show ?case by simp
qed simp

section \<open>Properties\<close>

text \<open>
  The linter's lists against the runners. An OUCH expectation may name exactly the seven events
  the runner captures, the four conditions it handles itself, and \<open>any\<close>; of the field keys, four
  are never answered by an event. For FIX, \<open>fix_session_status\<close> is allowed but no event has that name
  and the runner handles no such condition, \<open>fix_quote_status\<close> is an event but not allowed, and eight
  allowed field keys are answered by no event. A \<open>fix_trade_report\<close> or \<open>trigger_opening_match\<close> step is
  allowed, and the FIX runner refuses it as unsupported whatever its state.
\<close>

lemma allow_lists_against_runners:
  "ouch_event_types = insert ''any'' (range ouch_event_name
      \<union> {''login_accepted'', ''login_rejected'', ''socket_closed'', ''server_heartbeat''})
   \<and> {k. \<exists>ev. ouch_event_field ev k \<noteq> None}
      = ouch_field_keys - {''session'', ''next_sequence'', ''sequence'', ''reason_code''}
   \<and> ''fix_session_status'' \<in> fix_event_types \<and> (\<forall>ev. fix_event_name ev \<noteq> ''fix_session_status'')
   \<and> ''fix_quote_status'' \<notin> fix_event_types \<and> (\<exists>ev. fix_event_name ev = ''fix_quote_status'')
   \<and> fix_field_keys \<inter> {k. \<exists>ev. fix_event_field ev k \<noteq> None} = fix_field_keys - unanswered_fix_keys
   \<and> {''fix_trade_report'', ''trigger_opening_match''} \<subseteq> fix_actions
   \<and> fx_run_action (s\<lparr>st_action := ''fix_trade_report''\<rparr>) r
      = Some (outcome (s\<lparr>st_action := ''fix_trade_report''\<rparr>) False ''unsupported FIX action: fix_trade_report'', r)
   \<and> fx_run_action (s\<lparr>st_action := ''trigger_opening_match''\<rparr>) r
      = Some (outcome (s\<lparr>st_action := ''trigger_opening_match''\<rparr>) False
          ''unsupported FIX action: trigger_opening_match'', r)"
proof (intro conjI)
  show "ouch_event_types = insert ''any'' (range ouch_event_name
      \<union> {''login_accepted'', ''login_rejected'', ''socket_closed'', ''server_heartbeat''})"
    unfolding ouch_names ouch_event_types_def by (simp only: Un_insert_left sup_bot_left)
  show "{k. \<exists>ev. ouch_event_field ev k \<noteq> None}
      = ouch_field_keys - {''session'', ''next_sequence'', ''sequence'', ''reason_code''}"
    by (rule set_eqI) (simp only: ouch_keys_answered mem_Collect_eq)
  show "''fix_session_status'' \<in> fix_event_types" by (simp add: fix_event_types_def)
  show "\<forall>ev. fix_event_name ev \<noteq> ''fix_session_status''"
  proof
    fix ev
    show "fix_event_name ev \<noteq> ''fix_session_status''" by (cases ev) simp_all
  qed
  show "''fix_quote_status'' \<notin> fix_event_types" by (simp add: fix_event_types_def)
  show "\<exists>ev. fix_event_name ev = ''fix_quote_status''" using fix_event_name.simps(5) by blast
  show "fix_field_keys \<inter> {k. \<exists>ev. fix_event_field ev k \<noteq> None} = fix_field_keys - unanswered_fix_keys"
    using fix_keys_unanswered fix_keys_answered by auto
  show "{''fix_trade_report'', ''trigger_opening_match''} \<subseteq> fix_actions"
    by (simp add: fix_actions_def)
  show "fx_run_action (s\<lparr>st_action := ''fix_trade_report''\<rparr>) r
      = Some (outcome (s\<lparr>st_action := ''fix_trade_report''\<rparr>) False ''unsupported FIX action: fix_trade_report'', r)"
    by (simp add: fx_run_action_def)
  show "fx_run_action (s\<lparr>st_action := ''trigger_opening_match''\<rparr>) r
      = Some (outcome (s\<lparr>st_action := ''trigger_opening_match''\<rparr>) False
          ''unsupported FIX action: trigger_opening_match'', r)"
    by (simp add: fx_run_action_def)
qed

lemma steps_in_order_ids:
  assumes "steps_in_order prev seen sts"
  shows "sorted_wrt (<) (prev # filter (\<lambda>i. 0 \<le> i) (map (\<lambda>st. sint (st_id st)) sts))"
  using assms
proof (induction sts arbitrary: prev seen)
  case (Cons st sts)
  let ?prev = "if 0 \<le> sint (st_id st) then sint (st_id st) else prev"
  have "steps_in_order ?prev (seen \<union> introduced (st_args st)) sts" using Cons.prems by simp
  from Cons.IH [OF this] Cons.prems show ?case by (auto split: if_splits)
qed simp

lemma steps_in_order_tokens:
  assumes "steps_in_order prev seen sts" "j < length sts"
    "introduced (st_args (sts ! j)) \<inter> (seen \<union> (\<Union>i < j. introduced (st_args (sts ! i)))) \<noteq> {}"
  shows "expects_reject (st_expect (sts ! j))"
  using assms
proof (induction sts arbitrary: prev seen j)
  case (Cons st sts)
  show ?case
  proof (cases j)
    case 0
    then show ?thesis using Cons.prems by auto
  next
    case (Suc k)
    have "(\<Union>i < Suc k. introduced (st_args ((st # sts) ! i)))
        = introduced (st_args st) \<union> (\<Union>i < k. introduced (st_args (sts ! i)))"
      by (simp only: lessThan_Suc_eq_insert_0 image_insert Union_insert image_comp UN_insert) simp
    then have "introduced (st_args (sts ! k))
        \<inter> ((seen \<union> introduced (st_args st)) \<union> (\<Union>i < k. introduced (st_args (sts ! i)))) \<noteq> {}"
      using Cons.prems(3) Suc by (simp add: Un_assoc)
    then show ?thesis using Cons.IH Cons.prems(1,2) Suc by fastforce
  qed
qed simp

text \<open>
  C27: A file without issues that loads is under one of the four protocols; every step's action, event
  and field keys are in the lists of that protocol, no token introduced is longer than 14
  characters, the non-negative step ids strictly increase (negative ones are not looked at), and a
  token that an earlier step introduced comes back only in a step that expects a rejection.
\<close>

theorem clean_file_checked:
  assumes "lint_one Y load_file path [] = Some (ok, [])" "load_scenario Y load_file path = Inr s"
    "keys_need_map Y"
  shows "\<exists>root pre protocol. load_file path = Inr root
    \<and> ym_get Y root ''preconditions'' = Some (Some pre) \<and> text_at Y pre ''protocol'' [] = Some protocol
    \<and> protocol \<in> valid_protocols
    \<and> (\<forall>st \<in> set (sc_steps s). st_action st \<in> allowed_actions protocol
         \<and> (\<forall>e. st_expect st = Some e \<longrightarrow> (ex_msg e = [] \<or> ex_msg e \<in> allowed_events protocol)
              \<and> fst ` set (ex_fields e) \<subseteq> allowed_keys protocol)
         \<and> (\<forall>tok \<in> introduced (st_args st). length tok \<le> 14))
    \<and> sorted_wrt (<) (filter (\<lambda>i. 0 \<le> i) (map (\<lambda>st. sint (st_id st)) (sc_steps s)))
    \<and> (\<forall>i j. i < j \<and> j < length (sc_steps s)
         \<and> introduced (st_args (sc_steps s ! i)) \<inter> introduced (st_args (sc_steps s ! j)) \<noteq> {}
         \<longrightarrow> expects_reject (st_expect (sc_steps s ! j)))"
proof -
  obtain root pre protocol where f: "load_file path = Inr root"
    "ym_get Y root ''preconditions'' = Some (Some pre)" "text_at Y pre ''protocol'' [] = Some protocol"
    "protocol \<in> valid_protocols" and steps: "\<forall>st \<in> set (sc_steps s). step_checked protocol st"
    and order: "steps_in_order (-1) {} (sc_steps s)"
    using lint_file_clean [OF assms] by metis
  have "expects_reject (st_expect (sc_steps s ! j))"
    if "i < j" "j < length (sc_steps s)"
      "introduced (st_args (sc_steps s ! i)) \<inter> introduced (st_args (sc_steps s ! j)) \<noteq> {}" for i j
    by (rule steps_in_order_tokens [OF order that(2)]) (use that(1,3) in auto)
  moreover have "sorted_wrt (<) (filter (\<lambda>i. 0 \<le> i) (map (\<lambda>st. sint (st_id st)) (sc_steps s)))"
    using steps_in_order_ids [OF order] by simp
  ultimately show ?thesis using f steps unfolding step_checked_def expect_checked_def by blast
qed

text \<open>
  The command succeeds exactly when it has arguments and every file they name, directories walked
  for \<open>.yaml\<close> and \<open>.yml\<close> files, is clean on its own: no issue is lost between files and the result of
  \<open>lint_one\<close>, which the command ignores, is not needed.
\<close>

lemma lint_succeeds_iff:
  "lint_main Y load_file D prog args = Some (0, out) \<longleftrightarrow>
     args \<noteq> [] \<and> (\<exists>ts. lint_targets D args = Some ts
       \<and> (\<forall>t \<in> set ts. \<exists>ok. lint_one Y load_file t [] = Some (ok, []))
       \<and> out = [''ok: '' @ dec (length ts) @ '' file(s) clean''])"
proof (cases "args = []")
  case False
  have "lint_main Y load_file D prog args = Some (0, out) \<longleftrightarrow>
      (\<exists>ts. lint_targets D args = Some ts \<and> lint_all Y load_file (sort_key path_key ts) [] = Some []
        \<and> out = [''ok: '' @ dec (length ts) @ '' file(s) clean''])"
    using False by (auto simp: lint_main_def bind_eq_Some_conv Let_def)
  with False show ?thesis unfolding lint_all_clean by simp
qed (simp add: lint_main_def)

section \<open>Witness\<close>

text \<open>A file that places the same token twice and expects the second to be rejected.\<close>

definition lint_yaml :: "yaml_node yaml_api" where
  "lint_yaml = sample_yaml\<lparr>ym_int := \<lambda>n. case n of YText t \<Rightarrow> (if t = ''1'' then Some 1
     else if t = ''2'' then Some 2 else None) | _ \<Rightarrow> None\<rparr>"

definition lint_step_node :: "string \<Rightarrow> string \<Rightarrow> yaml_node" where
  "lint_step_node n ev = YMap
     [(''id'', YText n), (''action'', YText ''place''),
      (''args'', YMap [(''token'', YText ''A1''), (''qty'', YText ''5'')]), (''expect'', YText ev)]"

definition lint_sample :: yaml_node where
  "lint_sample = YMap
     [(''name'', YText ''dup''), (''preconditions'', YMap [(''protocol'', YText ''ouch'')]),
      (''steps'', YSeq [lint_step_node ''1'' ''order_accepted'', lint_step_node ''2'' ''order_rejected''])]"

lemma lint_yaml_keys: "keys_need_map lint_yaml"
  by (auto simp: keys_need_map_def lint_yaml_def sample_yaml_def split: yaml_node.splits)

lemma lint_sample_clean: "lint_one lint_yaml (\<lambda>_. Inr lint_sample) ''f'' [] = Some (True, [])"
  by code_simp

definition lint_loaded_step :: "i32 \<Rightarrow> string \<Rightarrow> step" where
  "lint_loaded_step i ev =
     \<lparr>st_id = i, st_action = ''place'',
      st_args = PlaceArgs \<lparr>sp_symbol = [], sp_side = Buy, sp_quantity = 0, sp_price_str = [], sp_tif = Day,
        sp_category = Client, sp_client_account = [], sp_customer_info = [], sp_exchange_info = [],
        sp_token = ''A1'', sp_display_quantity = 0\<rparr>,
      st_expect = Some (expect_default\<lparr>ex_msg := ev\<rparr>)\<rparr>"

lemma lint_sample_loads:
  "load_scenario lint_yaml (\<lambda>_. Inr lint_sample) ''f''
     = Inr \<lparr>sc_name = ''dup'', sc_description = [], sc_preconditions = [''protocol'' \<mapsto> ''ouch''],
            sc_default_timeout_ms = 5000, sc_mock_skip = False,
            sc_steps = [lint_loaded_step 1 ''order_accepted'', lint_loaded_step 2 ''order_rejected''],
            sc_source_path = ''f''\<rparr>"
  by (simp add: load_scenario_def lint_yaml_def sample_yaml_def lint_sample_def lint_step_node_def
      text_at_def scalar_def value_at_def opt_as_def pairs_at_def text_pair_def parse_step_def
      parse_step_args_def parse_place_args_def parse_expect_def side_from_def tif_from_def category_from_def
      lint_loaded_step_def Let_def)

theorem clean_file_checked_witness:
  "expects_reject (st_expect (lint_loaded_step 2 ''order_rejected''))"
proof -
  let ?a = "lint_loaded_step 1 ''order_accepted''" and ?b = "lint_loaded_step 2 ''order_rejected''"
  obtain s where s: "load_scenario lint_yaml (\<lambda>_. Inr lint_sample) ''f'' = Inr s" "sc_steps s = [?a, ?b]"
    using lint_sample_loads by simp
  have "\<forall>i j. i < j \<and> j < length (sc_steps s)
         \<and> introduced (st_args (sc_steps s ! i)) \<inter> introduced (st_args (sc_steps s ! j)) \<noteq> {}
         \<longrightarrow> expects_reject (st_expect (sc_steps s ! j))"
    using clean_file_checked [OF lint_sample_clean s(1) lint_yaml_keys] by blast
  from spec [OF spec [OF this, of 0], of 1] show ?thesis
    unfolding s(2) by (simp add: lint_loaded_step_def)
qed

end
