(* ===== verification/Bist_Options.thy ===== *)
theory Bist_Options
  imports Scenario_Lint Scenario_Loader Config Instrument Fix_Acceptor Fix_Initiator Fix_Runner
begin

text \<open>
  \<open>apps/bist_colo.cpp\<close>, first part: the instruments of the certification, the options, the scenarios
  found, and one FIX scenario against the acceptor mock or the live endpoint. A run's result is an
  exit code, 0 for success; it is \<open>None\<close> where the source has no defined behaviour or does not
  return. Terminal output is left out, the message of a refused option kept.
\<close>

section \<open>Instruments\<close>

definition cert_instrument :: "string \<Rightarrow> nat \<Rightarrow> nat \<Rightarrow> nat \<Rightarrow> instrument" where
  "cert_instrument symbol oid part base =
     \<lparr>in_symbol = symbol, in_order_book_id = word_of_nat oid, in_price_decimals = 3,
      in_partition = word_of_nat part, in_base_price = word_of_nat base\<rparr>"

definition cert_table :: "instrument list" where
  "cert_table =
     [cert_instrument ''ACSEL.E'' 70616 1 6000, cert_instrument ''ADEL.E'' 70676 1 6000,
      cert_instrument ''AKBNK.E'' 70796 1 5000, cert_instrument ''ALCAR.E'' 71116 1 5000,
      cert_instrument ''ARCLK.E'' 71376 1 5000, cert_instrument ''ASELS.E'' 71536 1 5000,
      cert_instrument ''ALBRK.E'' 71096 1 6000, cert_instrument ''GARAN.E'' 74196 2 5000,
      cert_instrument ''GEREL.E'' 74416 2 6000, cert_instrument ''HATEK.E'' 74816 2 5000,
      cert_instrument ''ECILC.E'' 73396 2 6000, cert_instrument ''DJIST.F'' 73156 2 5000,
      cert_instrument ''AKBNK.AOF'' 201868 1 5000, cert_instrument ''GARAN.AOF'' 336340 2 5000,
      cert_instrument ''KAREL.E'' 75576 3 5000, cert_instrument ''MGROS.E'' 76576 3 5000,
      cert_instrument ''OYAKC.E'' 77046 3 5000, cert_instrument ''MAVI.E'' 76386 3 6000,
      cert_instrument ''ZOREN.E'' 79596 4 5000, cert_instrument ''TCELL.E'' 78296 4 7000,
      cert_instrument ''VAKKO.E'' 79096 4 5000, cert_instrument ''TBORG.E'' 78276 4 6000]"

definition seed_cert_instruments :: "instrument_cache \<Rightarrow> instrument_cache" where
  "seed_cert_instruments c = fold (\<lambda>i c. snd (cache_put i c)) cert_table c"

section \<open>Options\<close>

record cli_args =
  ca_config :: string
  ca_mock :: bool
  ca_interactive :: bool
  ca_secondary :: bool
  ca_partition :: int
  ca_replay :: string

definition cli_default :: cli_args where
  "cli_default =
     \<lparr>ca_config = [], ca_mock = False, ca_interactive = False, ca_secondary = False, ca_partition = 1, ca_replay = []\<rparr>"

text \<open>\<open>std::atoi\<close>; a value beyond \<open>int\<close> is undefined.\<close>

definition atoi_value :: "string \<Rightarrow> int" where
  "atoi_value s =
     (case dropWhile is_space s of
        [] \<Rightarrow> 0
      | c # cs \<Rightarrow>
          (if c = CHR ''-'' then - int (dec_val (takeWhile is_digit cs))
           else if c = CHR ''+'' then int (dec_val (takeWhile is_digit cs))
           else int (dec_val (takeWhile is_digit (c # cs)))))"

definition atoi :: "string \<Rightarrow> int option" where
  "atoi s = (let v = atoi_value s in if - (2 ^ 31) \<le> v \<and> v < 2 ^ 31 then Some v else None)"

text \<open>\<open>parse_args\<close>: the message it exits with, or the options.\<close>

function parse_args :: "string list \<Rightarrow> cli_args \<Rightarrow> (string + cli_args) option" where
  "parse_args [] a = Some (Inr a)"
| "parse_args (arg # args) a =
     (if arg = ''--config'' \<and> args \<noteq> [] then parse_args (tl args) (a\<lparr>ca_config := hd args\<rparr>)
      else if arg = ''--mock'' then parse_args args (a\<lparr>ca_mock := True\<rparr>)
      else if arg = ''--interactive'' then parse_args args (a\<lparr>ca_interactive := True\<rparr>)
      else if arg = ''--secondary'' then parse_args args (a\<lparr>ca_secondary := True\<rparr>)
      else if arg = ''--partition'' \<and> args \<noteq> []
      then (case atoi (hd args) of
              None \<Rightarrow> None
            | Some p \<Rightarrow> (if p < 1 then Some (Inl ''--partition must be >= 1'')
                         else parse_args (tl args) (a\<lparr>ca_partition := p\<rparr>)))
      else if arg = ''--replay'' \<and> args \<noteq> [] then parse_args (tl args) (a\<lparr>ca_replay := hd args\<rparr>)
      else Some (Inl (''unknown argument: '' @ arg)))"
  by pat_completeness auto
termination
  by (relation "measure (\<lambda>(args, a). length args)") auto

declare parse_args.simps(2) [simp del]

section \<open>Scenarios\<close>

record file_api = dir_api +
  fs_is_regular :: "string \<Rightarrow> bool option"

definition collect_scenarios :: "file_api \<Rightarrow> string \<Rightarrow> string list option" where
  "collect_scenarios F p =
     do { d \<leftarrow> dir_is F p;
          if d
          then do { es \<leftarrow> dir_walk F p;
                    Some (sort_key path_key
                      (map fst (filter (\<lambda>(e, reg). reg \<and> path_extension e \<in> {''.yaml'', ''.yml''}) es))) }
          else do { reg \<leftarrow> fs_is_regular F p; Some (if reg then [p] else []) } }"

definition scenario_protocol :: "scenario \<Rightarrow> string" where
  "scenario_protocol sc =
     (case sc_preconditions sc ''protocol'' of
        None \<Rightarrow> ''ouch''
      | Some p \<Rightarrow> if p = [] then ''ouch'' else p)"

text \<open>0 when every step passed.\<close>

definition verdict :: "step_result list \<Rightarrow> int" where
  "verdict results = (if list_all res_passed results then 0 else 1)"

section \<open>FIX scenarios\<close>

text \<open>The FIX engine of a build with QuickFIX: its answers to session settings, the ephemeral port
  it finds, the clients over its worker threads and the runner in their world.\<close>

record 'w fix_build =
  fe_probed :: i32
  fe_settings :: "string \<Rightarrow> start_failure option"
  fe_oe_client :: "fix_app \<Rightarrow> 'w oe_client"
  fe_rd_client :: "fix_app \<Rightarrow> 'w rd_client"
  fe_runner :: "'w fix_runner"
  fe_dict_dir :: string
  fe_pid :: string

definition mock_acceptor_config :: "('w, 'x) fix_build_scheme \<Rightarrow> acceptor_config" where
  "mock_acceptor_config E =
     \<lparr>af_oe_sender_comp_id = ''CLIENT_OE'', af_oe_target_comp_id = ''BIST_OE'',
      af_rd_sender_comp_id = ''CLIENT_RD'', af_rd_target_comp_id = ''BIST_RD'',
      af_app_data_dictionary = fe_dict_dir E @ ''/FIX50SP2.xml'',
      af_transport_data_dictionary = fe_dict_dir E @ ''/FIXT11.xml'',
      af_store_path = ''state/fix_mock_'' @ fe_pid E, af_log_path = ''log/fix_mock_'' @ fe_pid E,
      af_port = 0, af_heartbeat = 30\<rparr>"

text \<open>The logon step at the head of the scenario chooses password and heartbeat.\<close>

definition logon_of :: "scenario \<Rightarrow> fix_logon_args option" where
  "logon_of sc =
     (case sc_steps sc of
        [] \<Rightarrow> None
      | s # _ \<Rightarrow> if st_action s = ''fix_logon''
                then (case st_args s of FixLogonArgs la \<Rightarrow> Some la | _ \<Rightarrow> None) else None)"

definition fill_init_cfg ::
  "('w, 'x) fix_build_scheme \<Rightarrow> scenario \<Rightarrow> i32 \<Rightarrow> string \<Rightarrow> string \<Rightarrow> string \<Rightarrow> initiator_config" where
  "fill_init_cfg E sc port sender target tag =
     (let c = initiator_config_default
            \<lparr>ic_sender_comp_id := sender, ic_target_comp_id := target, ic_host := ''127.0.0.1'',
             ic_port := ucast port, ic_username := ''TEST01'', ic_password := ''LLL''\<rparr>;
          c1 = (case logon_of sc of
                  None \<Rightarrow> c
                | Some la \<Rightarrow> c\<lparr>ic_password := (if fl_password la \<noteq> [] then fl_password la else ic_password c),
                                ic_new_password := (if fl_new_password la \<noteq> [] then fl_new_password la
                                                    else ic_new_password c),
                                ic_heartbeat_secs := ucast (fl_heartbeat_secs la)\<rparr>)
      in c1\<lparr>ic_app_data_dictionary := fe_dict_dir E @ ''/FIX50SP2.xml'',
            ic_transport_data_dictionary := fe_dict_dir E @ ''/FIXT11.xml'',
            ic_store_path := ''state/fix_init_'' @ tag @ ''_'' @ fe_pid E,
            ic_log_path := ''log/fix_init_'' @ tag @ ''_'' @ fe_pid E\<rparr>)"

text \<open>The client a protocol asks for, put into the runner.\<close>

definition fix_runner_for ::
  "('w, 'x) fix_build_scheme \<Rightarrow> string \<Rightarrow> initiator_config \<Rightarrow> 'w fix_runner result" where
  "fix_runner_for E protocol cfg =
     (if protocol = ''fix_oe''
      then (case oe_create (fe_settings E) cfg of
              Inl e \<Rightarrow> Inl e
            | Inr app \<Rightarrow> Inr (set_clients (Some (fe_oe_client E app)) None None (fe_runner E)))
      else (case rd_create (fe_settings E) cfg of
              Inl e \<Rightarrow> Inl e
            | Inr app \<Rightarrow> Inr (set_clients None (Some (fe_rd_client E app)) None (fe_runner E))))"

definition fix_verdict :: "scenario \<Rightarrow> 'w fix_runner result \<Rightarrow> int option" where
  "fix_verdict sc rr =
     (case rr of Inl _ \<Rightarrow> Some 1 | Inr r \<Rightarrow> map_option (verdict \<circ> fst) (fx_run_scenario sc r))"

text \<open>Without QuickFIX a mock run skips FIX scenarios.\<close>

definition run_one_fix_scenario :: "'w fix_build option \<Rightarrow> scenario \<Rightarrow> string \<Rightarrow> int option" where
  "run_one_fix_scenario fe sc protocol =
     (case fe of
        None \<Rightarrow> Some 0
      | Some E \<Rightarrow>
          (case acceptor_create (fe_probed E) (fe_settings E) (mock_acceptor_config E) of
             Inl _ \<Rightarrow> Some 1
           | Inr (mock, port) \<Rightarrow>
               (if protocol = ''fix_oe''
                then fix_verdict sc (fix_runner_for E protocol (fill_init_cfg E sc port ''CLIENT_OE'' ''BIST_OE'' ''oe''))
                else if protocol = ''fix_rd''
                then fix_verdict sc (fix_runner_for E protocol (fill_init_cfg E sc port ''CLIENT_RD'' ''BIST_RD'' ''rd''))
                else Some 1)))"

definition pick :: "string \<Rightarrow> string \<Rightarrow> string \<Rightarrow> string" where
  "pick per_channel base sfx = (if per_channel \<noteq> [] then per_channel else if base = [] then [] else base @ sfx)"

definition live_init_cfg :: "('w, 'x) fix_build_scheme \<Rightarrow> fix_cfg \<Rightarrow> string \<Rightarrow> initiator_config" where
  "live_init_cfg E f protocol =
     (let c = initiator_config_default
            \<lparr>ic_host := fix_cfg.fx_host_primary f, ic_username := fix_cfg.fx_username f,
             ic_password := fw_current (fx_password f), ic_new_password := fw_next (fx_password f),
             ic_heartbeat_secs := ucast (fx_heartbeat_secs f),
             ic_app_data_dictionary := (if fx_data_dictionary f \<noteq> [] then fx_data_dictionary f
                                        else fe_dict_dir E @ ''/FIX50SP2.xml''),
             ic_transport_data_dictionary := (if fx_transport_dictionary f \<noteq> [] then fx_transport_dictionary f
                                              else fe_dict_dir E @ ''/FIXT11.xml''),
             ic_store_path := (if fx_session_storage f \<noteq> [] then fx_session_storage f @ ''/'' @ protocol
                               else ''state/fix_live_'' @ protocol @ ''_'' @ fe_pid E),
             ic_log_path := ''log/fix_live_'' @ protocol @ ''_'' @ fe_pid E\<rparr>;
          ch = (if protocol = ''fix_oe'' then fix_cfg.fx_oe f else fix_cfg.fx_rd f);
          sfx = (if protocol = ''fix_oe'' then ''_OE'' else ''_RD'')
      in c\<lparr>ic_port := (if protocol = ''fix_oe'' then fx_oe_port f else fx_rd_port f),
           ic_sender_comp_id := pick (fc_sender_comp_id ch) (fx_sender_comp_id f) sfx,
           ic_target_comp_id := pick (fc_target_comp_id ch) (fx_target_comp_id f) sfx,
           ic_username := (if fc_username ch \<noteq> [] then fc_username ch else ic_username c)\<rparr>)"

definition run_one_live_fix_scenario :: "'w fix_build \<Rightarrow> fix_cfg \<Rightarrow> scenario \<Rightarrow> string \<Rightarrow> int option" where
  "run_one_live_fix_scenario E f sc protocol =
     (if protocol \<in> {''fix_oe'', ''fix_rd''}
      then fix_verdict sc (fix_runner_for E protocol (live_init_cfg E f protocol))
      else Some 1)"

end
