(* ===== verification/Transport_Login.thy ===== *)
theory Transport_Login
  imports Transport_Laws Gateway
begin

text \<open>
  The login of \<open>apps/bist_colo.cpp\<close> against the mock gateway: the request the session sends, the
  gateway's answer, and what the handshake makes of it.
\<close>

section \<open>The request\<close>

lemma slice_password: "slice_at kUsernameLen kPasswordLen (drop 3 (enc_LoginRequest (login_request lp)))
    = bytes_of_string (pad_field kPasswordLen (lp_password lp))"
  by (simp add: enc_LoginRequest_def login_request_def slice_at_def soup_len_defs enc_Header_def)

text \<open>A session that has received nothing yet: no identity, and no cursor was saved for it.\<close>

definition fresh_session :: "handlers \<Rightarrow> ouch_session \<Rightarrow> bool" where
  "fresh_session h s \<longleftrightarrow> ss_handlers s = h \<and> ss_assigned_session s = [] \<and> ss_next_inbound_seq s = 0
     \<and> (\<forall>st. persist_all (ss_events s) st = st)"

lemma begin_login_sends:
  assumes "sk_open k" "sk_sends k = []"
  shows "\<exists>s1. begin_login (session_init k h lp hb hbt \<lparr>ck_now = t, ck_later = []\<rparr>) = (Inr (), s1)
    \<and> ss_state s1 = LoggingIn \<and> ss_in_buffer s1 = [] \<and> ss_out_pending s1 = []
    \<and> ss_clock s1 = \<lparr>ck_now = t, ck_later = []\<rparr> \<and> ss_last_send_ns s1 = t
    \<and> ss_heartbeat_send_ns s1 = hb \<and> ss_heartbeat_timeout_ns s1 = hbt
    \<and> ss_socket s1 = k\<lparr>sk_wire := sk_wire k @ enc_LoginRequest (login_request lp)\<rparr>
    \<and> fresh_session h s1"
proof -
  let ?q = "enc_LoginRequest (login_request lp)"
  have q: "?q \<noteq> []" using length_enc_LoginRequest by (metis list.size(3) zero_neq_numeral)
  show ?thesis using assms q
    by (simp add: begin_login_def session_init_def write_bytes_ready monotonic_ns_def read_clock_def
        case_prod_beta Let_def)
      (simp add: fresh_session_def emit_def set_state_def persist_all_def)
qed

section \<open>The answer\<close>

text \<open>A poll that finds one complete packet.\<close>

lemma poll_one_packet:
  assumes "sk_open (ss_socket s)" "sk_recvs (ss_socket s) = [Received (frame ty p)]" "length p < 8000"
    "ss_in_buffer s = []" "ss_clock s = \<lparr>ck_now = t, ck_later = []\<rparr>"
    "dispatch_frame (ty, p) (s\<lparr>ss_socket := (ss_socket s)\<lparr>sk_recvs := []\<rparr>, ss_in_buffer := frame ty p,
       ss_last_recv_ns := t\<rparr>) = Some (Inr (), s1)"
  shows "poll_io s = Some (tick_timers (with_buffer [] s1))"
proof -
  let ?s = "s\<lparr>ss_socket := (ss_socket s)\<lparr>sk_recvs := []\<rparr>, ss_in_buffer := frame ty p, ss_last_recv_ns := t\<rparr>"
  have read: "read_some s = (Inr (), ?s)"
    using read_one_chunk [OF assms(1,2) _ _ assms(5)] assms(3,4) by simp
  have "parse_pending ?s = parse_pending (with_buffer [] s1)"
    using parse_frame [of ty p ?s "[]"] assms(3,6) by (simp add: framed_def)
  also have "\<dots> = Some (Inr (), with_buffer [] s1)"
    by (rule parse_pending_short) (simp add: with_buffer_def)
  finally show ?thesis using read by (simp add: poll_io_def)
qed

lemma monotonic_at_rest:
  "ss_clock s = \<lparr>ck_now = t, ck_later = []\<rparr> \<Longrightarrow> monotonic_ns s = (t, s)"
  by (simp add: monotonic_ns_def read_clock_def)

text \<open>The packet ends the handshake when it takes the session out of \<open>LoggingIn\<close> and nothing else
  is due.\<close>

lemma drive_login_packet:
  assumes "sk_open k" "sk_sends k = []" "sk_recvs k = [Received (frame ty p)]" "length p < 8000"
    "hb \<noteq> 0" "hbt \<noteq> 0" "t \<le> t + d"
    and answer: "\<And>s. dispatch_frame (ty, p) s = Some (Inr (), f s)"
    and keeps: "\<And>s. ss_state (f s) = st" "st \<noteq> LoggingIn" "\<And>s. ss_out_pending (f s) = ss_out_pending s"
      "\<And>s. ss_last_send_ns (f s) = ss_last_send_ns s" "\<And>s. ss_last_recv_ns (f s) = ss_last_recv_ns s"
      "\<And>s. ss_socket (f s) = ss_socket s"
  shows "\<exists>s0. fresh_session h s0 \<and> sk_wire (ss_socket (f s0)) = sk_wire k @ enc_LoginRequest (login_request lp)
    \<and> drive_login d (session_init k h lp hb hbt \<lparr>ck_now = t, ck_later = []\<rparr>) =
      Some (if st = Active then Inr () else Inl (make_error Reject ''login rejected''), with_buffer [] (f s0))"
proof -
  let ?ck = "\<lparr>ck_now = t, ck_later = []\<rparr>" and ?q = "enc_LoginRequest (login_request lp)"
  obtain s where s: "begin_login (session_init k h lp hb hbt ?ck) = (Inr (), s)"
    and f: "ss_state s = LoggingIn" "ss_in_buffer s = []" "ss_out_pending s = []" "ss_clock s = ?ck"
      "ss_last_send_ns s = t" "ss_heartbeat_send_ns s = hb" "ss_heartbeat_timeout_ns s = hbt"
      "ss_socket s = k\<lparr>sk_wire := sk_wire k @ ?q\<rparr>" "fresh_session h s"
    using begin_login_sends [OF assms(1,2), of h lp hb hbt t] by blast
  let ?s = "s\<lparr>ss_socket := (ss_socket s)\<lparr>sk_recvs := []\<rparr>, ss_in_buffer := frame ty p, ss_last_recv_ns := t\<rparr>"
  let ?s1 = "f ?s"
  have s1: "dispatch_frame (ty, p) ?s = Some (Inr (), ?s1)" "ss_state ?s1 \<noteq> LoggingIn"
    "ss_out_pending ?s1 = []" "ss_last_send_ns ?s1 = t" "ss_last_recv_ns ?s1 = t"
    "ss_socket ?s1 = k\<lparr>sk_wire := sk_wire k @ ?q, sk_recvs := []\<rparr>"
    using answer [of ?s] keeps f by simp_all
  have "goes_on ?s ?s1"
    using s1(1) goes_on_trans [OF goes_on_fields(13) [OF goes_on_refl] goes_on_dispatch]
    unfolding dispatch_frame_def by simp
  then obtain n where "ss_clock ?s1 = (tick ^^ n) ?ck" "ss_heartbeat_send_ns ?s1 = hb" "ss_heartbeat_timeout_ns ?s1 = hbt"
    using f unfolding goes_on_def by auto
  moreover have "(tick ^^ n) ?ck = ?ck" for n by (induction n) (simp_all add: tick_def read_clock_def)
  ultimately have clock: "ss_clock ?s1 = ?ck" "ss_heartbeat_send_ns ?s1 = hb" "ss_heartbeat_timeout_ns ?s1 = hbt" by simp_all
  let ?w = "with_buffer [] ?s1"
  have "tick_timers ?w = (Inr (), ?w)"
    by (rule timers_at_rest [of _ t]) (use s1 clock assms(5,6) in \<open>simp_all add: with_buffer_def\<close>)
  then have poll: "poll_io s = Some (Inr (), ?w)"
    using poll_one_packet [OF _ _ assms(4) f(2,4) s1(1)] f(8) assms(1,3) by simp
  have stop: "drive_loop b ?w = Some (Inr (), ?w)" for b
    using s1(2) drive_loop.simps [of b ?w] by (simp add: with_buffer_def)
  have at_rest: "monotonic_ns ?w = (t, ?w)" "monotonic_ns s = (t, s)"
    using clock f(4) by (auto intro!: monotonic_at_rest simp: with_buffer_def)
  have "drive_loop (t + d) s = Some (Inr (), ?w)"
    using assms(7) by (simp add: drive_loop.simps [of "t + d" s] f(1) poll stop at_rest)
  then have "drive_login d (session_init k h lp hb hbt ?ck) = (if ss_state ?w \<noteq> Active
      then Some (Inl (make_error Reject ''login rejected''), ?w) else Some (Inr (), ?w))"
    unfolding drive_login_def s by (simp only: at_rest prod.case sum.case Let_def option.case)
  moreover have "ss_state ?w = ss_state ?s1" "ss_socket ?w = ss_socket ?s1" by (simp_all add: with_buffer_def)
  moreover have "fresh_session h ?s" using f(9) by (simp add: fresh_session_def)
  ultimately show ?thesis using s1(6) keeps(1) [of ?s] by (intro exI [of _ ?s]) simp
qed

text \<open>The gateway's two answers.\<close>

lemma dispatch_mock_accept:
  assumes "p = bytes_of_string (''MOCKSESS01'' @ replicate (kSequenceLen - 1) CHR ''0'' @ ''1'')"
  shows "dispatch_frame (kLoginAccepted, p) s = Some (Inr (),
    set_state Active ''LoginAccepted'' ((emit on_audit_recv (AuditRecv (frame kLoginAccepted p) (ss_assigned_session s) (ss_next_inbound_seq s)) s)
      \<lparr>ss_msgs_recv := ss_msgs_recv s + 1, ss_assigned_session := ''MOCKSESS01'', ss_next_inbound_seq := 1,
       ss_last_login_reject_reason := CHR 0x00\<rparr>))"
proof -
  let ?n = "replicate (kSequenceLen - 1) CHR ''0'' @ ''1''"
  have len: "length p = kSessionLen + kSequenceLen" by (simp add: assms soup_len_defs)
  have sess: "string_of_bytes (slice_at 0 kSessionLen p) = ''MOCKSESS01''"
    and sq: "string_of_bytes (slice_at kSessionLen kSequenceLen p) = ?n"
    unfolding assms by code_simp+
  have one: "strtoull (takeWhile (\<lambda>c. c \<noteq> CHR 0x00) ?n) = 1"
  proof -
    have "takeWhile (\<lambda>c. c \<noteq> CHR 0x00) ?n = dec_pad 20 (unat (1 :: u64))"
      by (simp add: kSequenceLen_def) code_simp
    then show ?thesis using strtoull_dec_pad [of 20 1] by simp
  qed
  show ?thesis
    by (simp add: dispatch_frame_def dispatch_packet_def login_accepted_def peek_Some len sess sq one Let_def
        del: append.simps One_nat_def)
qed

lemma dispatch_mock_reject:
  "dispatch_frame (kLoginRejected, enc_char c) s = Some (Inr (),
    set_state Failed (''LoginRejected(reason='' @ [CHR 0x27] @ [c] @ [CHR 0x27] @ '')'')
      ((emit on_audit_recv (AuditRecv (frame kLoginRejected (enc_char c)) (ss_assigned_session s) (ss_next_inbound_seq s)) s)
        \<lparr>ss_msgs_recv := ss_msgs_recv s + 1, ss_last_login_reject_reason := c\<rparr>))"
  by (simp add: dispatch_frame_def dispatch_packet_def login_rejected_def peek_def slice_at_def Let_def pkt_defs)

section \<open>Properties\<close>

text \<open>
  C15: The login handshake against the mock gateway: with an open socket that takes the request and brings
  the gateway's answer to it, \<open>drive_login\<close> succeeds exactly when the first ten characters of the
  password, less trailing blanks, are the password the gateway accepts. The session is then active
  as ''MOCKSESS01'' at sequence 1; otherwise it has failed with reason 'A'.
\<close>

theorem mock_login_outcome:
  assumes "sk_open k" "sk_sends k = []" "sk_recvs k = [Received (frame ty p)]"
    and gateway: "gw_sent (handle_login (drop 3 (enc_LoginRequest (login_request lp))) g) = gw_sent g @ [(ty, p)]"
      "\<not> gw_arm_duplicate_reject g"
    and timers: "hb \<noteq> 0" "hbt \<noteq> 0" "t \<le> t + d"
  shows "\<exists>s. drive_login d (session_init k h lp hb hbt \<lparr>ck_now = t, ck_later = []\<rparr>) =
      Some (if trim_blanks (take 10 (lp_password lp)) = gw_accepted_password g then Inr ()
            else Inl (make_error Reject ''login rejected''), s)
    \<and> (if trim_blanks (take 10 (lp_password lp)) = gw_accepted_password g
       then ss_state s = Active \<and> ss_assigned_session s = ''MOCKSESS01'' \<and> ss_next_inbound_seq s = 1
       else ss_state s = Failed \<and> ss_last_login_reject_reason s = CHR ''A'')
    \<and> sk_wire (ss_socket s) = sk_wire k @ enc_LoginRequest (login_request lp)"
proof -
  let ?ok = "trim_blanks (take 10 (lp_password lp)) = gw_accepted_password g"
  have len: "length (drop 3 (enc_LoginRequest (login_request lp))) = 46" by simp
  have pw: "trim_blanks (string_of_bytes (slice_at kUsernameLen kPasswordLen
      (drop 3 (enc_LoginRequest (login_request lp))))) = trim_blanks (take 10 (lp_password lp))"
    unfolding slice_password by (simp add: trim_pad_field kPasswordLen_def)
  show ?thesis
  proof (cases ?ok)
    case True
    then have ans: "ty = kLoginAccepted" "p = bytes_of_string (''MOCKSESS01'' @ replicate (kSequenceLen - 1) CHR ''0'' @ ''1'')"
      using gateway len pw
      by (simp_all add: handle_login_def send_login_accepted_def send_packet_def soup_len_defs)
    let ?f = "\<lambda>s. set_state Active ''LoginAccepted'' ((emit on_audit_recv (AuditRecv (frame kLoginAccepted p) (ss_assigned_session s) (ss_next_inbound_seq s)) s)
      \<lparr>ss_msgs_recv := ss_msgs_recv s + 1, ss_assigned_session := ''MOCKSESS01'', ss_next_inbound_seq := 1,
       ss_last_login_reject_reason := CHR 0x00\<rparr>)"
    have "\<exists>s0. fresh_session h s0 \<and> sk_wire (ss_socket (?f s0)) = sk_wire k @ enc_LoginRequest (login_request lp)
      \<and> drive_login d (session_init k h lp hb hbt \<lparr>ck_now = t, ck_later = []\<rparr>) =
        Some (if Active = Active then Inr () else Inl (make_error Reject ''login rejected''), with_buffer [] (?f s0))"
      by (rule drive_login_packet [OF assms(1-3) _ timers, unfolded ans(1)])
        (simp_all add: ans(2) soup_len_defs dispatch_mock_accept)
    then show ?thesis using True by (auto simp: with_buffer_def)
  next
    case False
    then have ans: "ty = kLoginRejected" "p = enc_char CHR ''A''"
      using gateway len pw
      by (simp_all add: handle_login_def send_login_rejected_def send_packet_def soup_len_defs)
    let ?f = "\<lambda>s. set_state Failed (''LoginRejected(reason='' @ [CHR 0x27] @ ''A'' @ [CHR 0x27] @ '')'')
      ((emit on_audit_recv (AuditRecv (frame kLoginRejected (enc_char CHR ''A'')) (ss_assigned_session s) (ss_next_inbound_seq s)) s)
        \<lparr>ss_msgs_recv := ss_msgs_recv s + 1, ss_last_login_reject_reason := CHR ''A''\<rparr>)"
    have "\<exists>s0. fresh_session h s0 \<and> sk_wire (ss_socket (?f s0)) = sk_wire k @ enc_LoginRequest (login_request lp)
      \<and> drive_login d (session_init k h lp hb hbt \<lparr>ck_now = t, ck_later = []\<rparr>) =
        Some (if Failed = Active then Inr () else Inl (make_error Reject ''login rejected''), with_buffer [] (?f s0))"
      by (rule drive_login_packet [OF assms(1-3) _ timers, unfolded ans])
        (simp_all add: dispatch_mock_reject)
    then show ?thesis using False by (auto simp: with_buffer_def set_state_def emit_def)
  qed
qed

text \<open>
  C36: A rejected reconnect overwrites the cursor. The handler saves on every packet what the new session
  holds, which before the login is answered is no session and number 0; the difference to the last
  number saved wraps around and counts as due. When the gateway then rejects the login, the file
  holds the empty cursor, and a restart begins cold.
\<close>

theorem rejected_login_overwrites_cursor:
  assumes conn: "connect_with_retry (lc_active_host lc) (lc_port lc) (lc_policy lc) (lc_net lc) (lc_clock lc)
      = Some (Inr (k, \<lparr>ck_now = t, ck_later = []\<rparr>), st, w1, ck1)"
    and sock: "sk_open k" "sk_sends k = []" "sk_recvs k = [Received (frame kLoginRejected (enc_char c))]"
    and timers: "lc_hb_send_ns lc \<noteq> 0" "t \<le> t + login_timeout_ns"
    and handler: "on_audit_recv (lc_handlers lc)"
    and cursor: "sq_last_saved_seq (lc_store lc) \<noteq> 0" "sq_last_saved_seq (lc_store lc) \<le> - 100"
      "sq_fates (lc_store lc) = []"
  shows "\<exists>s lc'. live_reconnect_and_login password session sequence lc
      = Some (Inl (make_error Reject ''login rejected''), Some s, lc')
    \<and> load_cursor None (lc_store lc') = (Inr (), [], 0)
    \<and> dk_file (sq_disk (lc_store lc')) = Some (cursor_text [] 0)"
proof -
  let ?f = "\<lambda>s. set_state Failed (''LoginRejected(reason='' @ [CHR 0x27] @ [c] @ [CHR 0x27] @ '')'')
      ((emit on_audit_recv (AuditRecv (frame kLoginRejected (enc_char c)) (ss_assigned_session s) (ss_next_inbound_seq s)) s)
        \<lparr>ss_msgs_recv := ss_msgs_recv s + 1, ss_last_login_reject_reason := c\<rparr>)"
  have "\<exists>s0. fresh_session (lc_handlers lc) s0
      \<and> sk_wire (ss_socket (?f s0)) = sk_wire k @ enc_LoginRequest (login_request (override_login (lc_base_lp lc) password session sequence))
      \<and> drive_login login_timeout_ns (session_init k (lc_handlers lc) (override_login (lc_base_lp lc) password session sequence)
          (lc_hb_send_ns lc) kHeartbeatTimeoutNs \<lparr>ck_now = t, ck_later = []\<rparr>)
        = Some (if Failed = Active then Inr () else Inl (make_error Reject ''login rejected''), with_buffer [] (?f s0))"
    by (rule drive_login_packet [OF sock _ timers(1) _ timers(2)])
      (simp_all add: dispatch_mock_reject kHeartbeatTimeoutNs_def)
  then obtain s0 where s0: "fresh_session (lc_handlers lc) s0"
    and login: "drive_login login_timeout_ns (session_init k (lc_handlers lc) (override_login (lc_base_lp lc) password session sequence)
          (lc_hb_send_ns lc) kHeartbeatTimeoutNs \<lparr>ck_now = t, ck_later = []\<rparr>)
        = Some (Inl (make_error Reject ''login rejected''), with_buffer [] (?f s0))"
    by auto
  let ?s = "with_buffer [] (?f s0)"
  obtain ck where saved: "persist_all (ss_events ?s) (lc_store lc) = snd (save [] 0 ((lc_store lc)\<lparr>sq_clock := ck\<rparr>))"
  proof -
    let ?now = "ck_now (sq_clock (lc_store lc))"
    have due: "100 \<le> - sq_last_saved_seq (lc_store lc)"
    proof -
      let ?w = "sq_last_saved_seq (lc_store lc)"
      have "uint ?w < 2 ^ 64" "uint ?w \<noteq> 0" using uint_lt2p [of ?w] cursor(1) by (simp_all add: uint_0_iff)
      moreover have "0 \<le> uint ?w" by simp
      ultimately have "uint (- ?w) = 2 ^ 64 - uint ?w"
        by (simp add: uint_word_ariths zmod_zminus1_eq_if)
      then show ?thesis using cursor(2) by (simp add: word_le_def)
    qed
    moreover have "ss_events ?s = ss_events s0 @ AuditRecv (frame kLoginRejected (enc_char c)) [] 0 # drop (length (ss_events s0) + 1) (ss_events ?s)
        \<and> (\<forall>st. persist_all (drop (length (ss_events s0) + 1) (ss_events ?s)) st = st)"
      using s0 handler by (simp add: fresh_session_def emit_def set_state_def with_buffer_def persist_all_def)
    moreover have "persist_all (ss_events s0 @ AuditRecv b [] 0 # es) st = persist_all es (persist (AuditRecv b [] 0) st)" for b es st
      using s0 by (simp add: persist_all_def fresh_session_def)
    ultimately have "persist_all (ss_events ?s) (lc_store lc) = persist (AuditRecv (frame kLoginRejected (enc_char c)) [] 0) (lc_store lc)"
      by metis
    then show ?thesis using due cursor(1) that by (simp add: save_if_due_def Let_def case_prod_beta)
  qed
  have "dk_file (sq_disk (snd (save [] 0 ((lc_store lc)\<lparr>sq_clock := ck\<rparr>)))) = Some (cursor_text [] 0)"
    using cursor(3) by (simp add: save_def next_fate_def write_tmp_def rename_tmp_def remember_saved_def Let_def case_prod_beta)
  moreover have "live_reconnect_and_login password session sequence lc = Some (Inl (make_error Reject ''login rejected''), Some ?s,
      lc\<lparr>lc_last_state := st, lc_net := w1, lc_clock := ck1, lc_store := persist_all (ss_events ?s) (lc_store lc),
        lc_handled := length (ss_events ?s)\<rparr>)"
    using conn login by (simp add: live_reconnect_and_login_def live_rebuild_def absorb_def Let_def del: emit_simps)
  ultimately show ?thesis using saved load_cursor_text [of _ "[]" 0]
    by (intro exI [of _ ?s] exI) (auto simp del: emit_simps)
qed

section \<open>Witnesses\<close>

definition login_socket :: "char \<Rightarrow> byte list \<Rightarrow> tcp_socket" where
  "login_socket ty p = \<lparr>sk_open = True, sk_sends = [], sk_recvs = [Received (frame ty p)], sk_wire = []\<rparr>"

theorem mock_login_outcome_witness:
  "\<exists>s. drive_login login_timeout_ns (session_init (login_socket kLoginRejected (enc_char CHR ''A''))
        (ss_handlers sample_session)
        \<lparr>lp_username = ''U'', lp_password = ''654321'', lp_requested_session = [], lp_requested_sequence = 0\<rparr>
        kHeartbeatSendNs kHeartbeatTimeoutNs \<lparr>ck_now = 1, ck_later = []\<rparr>)
      = Some (Inl (make_error Reject ''login rejected''), s)
    \<and> ss_last_login_reject_reason s = CHR ''A''"
proof -
  let ?lp = "\<lparr>lp_username = ''U'', lp_password = ''654321'', lp_requested_session = [], lp_requested_sequence = 0\<rparr>"
    and ?g = "gateway_init \<lparr>ck_now = 1, ck_later = []\<rparr> \<lparr>ck_now = 1, ck_later = []\<rparr>"
  have pw: "trim_blanks (take 10 (lp_password ?lp)) \<noteq> gw_accepted_password ?g" by code_simp
  have req: "trim_blanks (string_of_bytes (slice_at kUsernameLen kPasswordLen
      (drop 3 (enc_LoginRequest (login_request ?lp))))) = trim_blanks (take 10 (lp_password ?lp))"
    unfolding slice_password by (simp add: trim_pad_field kPasswordLen_def)
  have "gw_sent (handle_login (drop 3 (enc_LoginRequest (login_request ?lp))) ?g)
      = gw_sent ?g @ [(kLoginRejected, enc_char CHR ''A'')]"
    unfolding handle_login_def req using pw
    by (simp add: send_login_rejected_def send_packet_def soup_len_defs gateway_init_def)
  then show ?thesis
    using mock_login_outcome [of "login_socket kLoginRejected (enc_char CHR ''A'')" kLoginRejected "enc_char CHR ''A''"
        ?lp ?g kHeartbeatSendNs kHeartbeatTimeoutNs 1 login_timeout_ns "ss_handlers sample_session"] pw
    by (auto simp: login_socket_def gateway_init_def kHeartbeatSendNs_def kHeartbeatTimeoutNs_def login_timeout_ns_def)
qed

theorem live_reconnect_outcome_witness:
  "\<exists>s lc'. live_reconnect_and_login ''new'' [] 9
        (live_sample [Inr [Refused ''Connection refused'',
           Connects (login_socket kLoginRejected (enc_char CHR ''A'')) \<lparr>ck_now = 1, ck_later = []\<rparr>]])
      = Some (Inl (make_error Reject ''login rejected''), Some s, lc')
    \<and> lp_password (ss_login s) = ''new'' \<and> lp_requested_sequence (ss_login s) = 9
    \<and> lc_store lc' = persist_all (ss_events s) (lc_store (live_sample []))"
proof -
  let ?k = "login_socket kLoginRejected (enc_char CHR ''A'')" and ?ck = "\<lparr>ck_now = 1, ck_later = []\<rparr>"
  let ?lc = "live_sample [Inr [Refused ''Connection refused'', Connects ?k ?ck]]"
  let ?lp = "override_login (lc_base_lp ?lc) ''new'' [] 9"
  obtain st w1 ck1 where conn: "connect_with_retry (lc_active_host ?lc) (lc_port ?lc) (lc_policy ?lc) (lc_net ?lc)
      (lc_clock ?lc) = Some (Inr (?k, ?ck), st, w1, ck1)"
    by (simp add: connect_with_retry_def reconnect_with_deadline_def attempt_loop.simps [of _ _ _ _ _ _] connect_attempt_def
        socket_connect_def live_sample_def Let_def read_clock_def)
  have "\<exists>s. drive_login login_timeout_ns (session_init ?k (lc_handlers ?lc) ?lp (lc_hb_send_ns ?lc) kHeartbeatTimeoutNs ?ck)
      = Some (Inl (make_error Reject ''login rejected''), s)"
    using drive_login_packet [of ?k kLoginRejected "enc_char CHR ''A''" "lc_hb_send_ns ?lc" kHeartbeatTimeoutNs 1 login_timeout_ns
        _ Failed "lc_handlers ?lc" ?lp, OF _ _ _ _ _ _ _ dispatch_mock_reject]
    by (auto simp: login_socket_def live_sample_def kHeartbeatTimeoutNs_def login_timeout_ns_def)
  then obtain s lc' where "live_reconnect_and_login ''new'' [] 9 ?lc
      = Some (Inl (make_error Reject ''login rejected''), Some s, lc')"
    using conn by (auto simp: live_reconnect_and_login_def live_rebuild_def Let_def)
  from this live_reconnect_outcome [OF this] show ?thesis
    by (auto simp: override_login_def live_sample_def)
qed

theorem rejected_login_overwrites_cursor_witness:
  "\<exists>s lc'. live_reconnect_and_login [] [] 0
        ((live_sample [Inr [Connects (login_socket kLoginRejected (enc_char CHR ''A'')) \<lparr>ck_now = 1, ck_later = []\<rparr>]])
          \<lparr>lc_store := store_init ''s.seq'' \<lparr>dk_file = Some (cursor_text ''S1'' 500), dk_tmp = None\<rparr> [] \<lparr>ck_now = 1, ck_later = []\<rparr>
             \<lparr>sq_last_saved_seq := 500\<rparr>\<rparr>)
      = Some (Inl (make_error Reject ''login rejected''), Some s, lc')
    \<and> load_cursor None (lc_store lc') = (Inr (), [], 0)"
proof -
  let ?k = "login_socket kLoginRejected (enc_char CHR ''A'')" and ?ck = "\<lparr>ck_now = 1, ck_later = []\<rparr>"
  let ?lc = "(live_sample [Inr [Connects ?k ?ck]])
    \<lparr>lc_store := store_init ''s.seq'' \<lparr>dk_file = Some (cursor_text ''S1'' 500), dk_tmp = None\<rparr> [] ?ck\<lparr>sq_last_saved_seq := 500\<rparr>\<rparr>"
  obtain st w1 ck1 where conn: "connect_with_retry (lc_active_host ?lc) (lc_port ?lc) (lc_policy ?lc) (lc_net ?lc)
      (lc_clock ?lc) = Some (Inr (?k, ?ck), st, w1, ck1)"
    by (simp add: connect_with_retry_def reconnect_with_deadline_def attempt_loop.simps [of _ _ _ _ _ _] connect_attempt_def
        socket_connect_def live_sample_def lc_active_host_def Let_def read_clock_def)
  show ?thesis
    using rejected_login_overwrites_cursor [OF conn, of "CHR ''A''" "[]" "[]" 0]
    by (auto simp: login_socket_def live_sample_def login_timeout_ns_def store_init_def all_handlers_def
        sample_session_def session_init_def)
qed

end
