(* ===== verification/Calendar.thy ===== *)
theory Calendar
  imports Prelude
begin

text \<open>
  What \<open>observability/audit.hpp\<close> uses of \<open>gmtime_r\<close> and \<open>strftime\<close>: the Gregorian date and the time
  of day of a count of seconds since 1970, and their text. The timestamps of the audit log sort as
  text the way they do as times.
\<close>

section \<open>The calendar\<close>

definition leap_year :: "nat \<Rightarrow> bool" where
  "leap_year y \<longleftrightarrow> 4 dvd y \<and> (\<not> 100 dvd y \<or> 400 dvd y)"

definition year_days :: "nat \<Rightarrow> nat" where
  "year_days y = (if leap_year y then 366 else 365)"

definition month_days :: "nat \<Rightarrow> nat list" where
  "month_days y = [31, if leap_year y then 29 else 28, 31, 30, 31, 30, 31, 31, 30, 31, 30, 31]"

lemma year_days_bounds: "365 \<le> year_days y" "year_days y \<le> 366" "0 < year_days y"
  by (simp_all add: year_days_def)

lemma sum_month_days: "sum_list (month_days y) = year_days y"
  by (simp add: month_days_def year_days_def)

text \<open>The year of a day and its place there, counted from a first year; likewise the month.\<close>

function split_year :: "nat \<Rightarrow> nat \<Rightarrow> nat \<times> nat" where
  "split_year y d = (if d < year_days y then (y, d) else split_year (y + 1) (d - year_days y))"
  by auto
termination
proof (relation "measure snd")
  show "((y + 1, d - year_days y), y, d) \<in> measure snd" if "\<not> d < year_days y" for y d
    using that year_days_bounds(3) [of y] by simp
qed simp

declare split_year.simps [simp del]

fun split_month :: "nat list \<Rightarrow> nat \<Rightarrow> nat \<Rightarrow> nat \<times> nat" where
  "split_month [] m d = (m, d)"
| "split_month (n # ns) m d = (if d < n then (m, d) else split_month ns (m + 1) (d - n))"

record utc_time =
  ut_year :: nat
  ut_month :: nat
  ut_day :: nat
  ut_hour :: nat
  ut_minute :: nat
  ut_second :: nat

definition gmtime :: "nat \<Rightarrow> utc_time" where
  "gmtime secs =
     (let (y, doy) = split_year 1970 (secs div 86400);
          (m, k) = split_month (month_days y) 1 doy;
          r = secs mod 86400
      in \<lparr>ut_year = y, ut_month = m, ut_day = k + 1,
          ut_hour = r div 3600, ut_minute = r mod 3600 div 60, ut_second = r mod 60\<rparr>)"

text \<open>\<open>strftime\<close> with \<open>%Y-%m-%d\<close>, and with \<open>%Y-%m-%dT%H:%M:%S\<close>.\<close>

definition date_text :: "utc_time \<Rightarrow> string" where
  "date_text t = dec (ut_year t) @ ''-'' @ dec_pad 2 (ut_month t) @ ''-'' @ dec_pad 2 (ut_day t)"

definition date_time_text :: "utc_time \<Rightarrow> string" where
  "date_time_text t = date_text t @ ''T'' @ dec_pad 2 (ut_hour t) @ '':'' @ dec_pad 2 (ut_minute t)
     @ '':'' @ dec_pad 2 (ut_second t)"

definition format_iso8601 :: "u64 \<Rightarrow> string" where
  "format_iso8601 ns =
     date_time_text (gmtime (unat ns div 1000000000)) @ ''.'' @ dec_pad 9 (unat ns mod 1000000000) @ ''Z''"

section \<open>The walks keep the order\<close>

definition first_day :: "nat \<Rightarrow> nat" where
  "first_day y = (\<Sum>k = 1970..<y. year_days k)"

lemma first_day_Suc: "1970 \<le> y \<Longrightarrow> first_day (Suc y) = first_day y + year_days y"
  by (simp add: first_day_def)

lemma first_day_step: "1970 \<le> y \<Longrightarrow> y < y' \<Longrightarrow> first_day y + year_days y \<le> first_day y'"
proof (induction y')
  case (Suc n)
  then show ?case
    using first_day_Suc [of n] by (cases "y = n") auto
qed simp

lemma split_year_days:
  assumes "split_year y d = (y', doy)" "1970 \<le> y"
  shows "first_day y + d = first_day y' + doy \<and> doy < year_days y' \<and> y \<le> y'"
  using assms
proof (induction y d rule: split_year.induct)
  case (1 y d)
  show ?case
  proof (cases "d < year_days y")
    case True
    then show ?thesis using "1.prems" by (simp add: split_year.simps [of y d])
  next
    case False
    then have "split_year (y + 1) (d - year_days y) = (y', doy)"
      using "1.prems" by (simp add: split_year.simps [of y d])
    from "1.IH" [OF False this] show ?thesis
      using "1.prems" False first_day_Suc [of y] by simp
  qed
qed

lemma split_year_less:
  assumes "split_year 1970 d = (y, a)" "split_year 1970 e = (z, b)"
  shows "d < e \<longleftrightarrow> y < z \<or> y = z \<and> a < b"
proof -
  have d: "d = first_day y + a" "a < year_days y" "1970 \<le> y"
    and e: "e = first_day z + b" "b < year_days z" "1970 \<le> z"
    using split_year_days [OF assms(1)] split_year_days [OF assms(2)] by (simp_all add: first_day_def)
  show ?thesis
    using first_day_step [of y z] first_day_step [of z y] d e by (cases y z rule: linorder_cases) auto
qed

lemma split_year_bound:
  assumes "split_year 1970 d = (y, doy)"
  shows "1970 \<le> y" "365 * (y - 1970) \<le> d"
proof -
  have s: "d = first_day y + doy" "1970 \<le> y" using split_year_days [OF assms] by (simp_all add: first_day_def)
  have "365 * (y - 1970) \<le> first_day y"
    using s(2)
  proof (induction y rule: dec_induct)
    case (step n)
    then show ?case using first_day_Suc [of n] year_days_bounds(1) [of n] by simp
  qed simp
  then show "1970 \<le> y" "365 * (y - 1970) \<le> d" using s by simp_all
qed

lemma split_month_sum:
  assumes "split_month ns m d = (m', k)" "d < sum_list ns"
  shows "\<exists>i < length ns. m' = m + i \<and> d = sum_list (take i ns) + k \<and> k < ns ! i"
  using assms
proof (induction ns arbitrary: m d)
  case (Cons n ns)
  show ?case
  proof (cases "d < n")
    case True
    then show ?thesis using Cons.prems by (intro exI [of _ 0]) simp
  next
    case False
    then have "split_month ns (m + 1) (d - n) = (m', k)" "d - n < sum_list ns" using Cons.prems by auto
    from Cons.IH [OF this] obtain i where "i < length ns" "m' = m + 1 + i" "d - n = sum_list (take i ns) + k" "k < ns ! i"
      by blast
    then show ?thesis using False by (intro exI [of _ "Suc i"]) simp
  qed
qed simp

lemma sum_take_step: "i < j \<Longrightarrow> i < length (ns :: nat list) \<Longrightarrow> sum_list (take i ns) + ns ! i \<le> sum_list (take j ns)"
proof -
  assume "i < j" "i < length ns"
  then have "take j ns = take i ns @ ns ! i # drop (Suc i) (take j ns)"
    by (metis Cons_nth_drop_Suc append_take_drop_id length_take min_less_iff_conj nth_take take_take min.absorb1 less_imp_le_nat)
  then have "sum_list (take j ns) = sum_list (take i ns) + (ns ! i + sum_list (drop (Suc i) (take j ns)))"
    by (metis sum_list.append sum_list.Cons)
  then show ?thesis by simp
qed

lemma split_month_less:
  assumes "split_month ns 1 d = (m, a)" "split_month ns 1 e = (l, b)" "d < sum_list ns" "e < sum_list ns"
  shows "d < e \<longleftrightarrow> m < l \<or> m = l \<and> a < b"
proof -
  obtain i j where d: "m = 1 + i" "i < length ns" "d = sum_list (take i ns) + a" "a < ns ! i"
    and e: "l = 1 + j" "j < length ns" "e = sum_list (take j ns) + b" "b < ns ! j"
    using split_month_sum [OF assms(1,3)] split_month_sum [OF assms(2,4)] by blast
  show ?thesis
    using sum_take_step [of i j ns] sum_take_step [of j i ns] d e by (cases i j rule: linorder_cases) auto
qed

lemma split_month_bounds:
  assumes "split_month (month_days y) 1 d = (m, k)" "d < year_days y"
  shows "m < 13" "k < 31"
proof -
  obtain i where i: "m = 1 + i" "i < 12" "k < month_days y ! i"
    using split_month_sum [OF assms(1)] assms(2) by (auto simp: sum_month_days) (simp add: month_days_def)
  have "list_all (\<lambda>n. n \<le> 31) (month_days y)" by (simp add: month_days_def)
  then have "month_days y ! i \<le> 31" using i(2) by (simp add: list_all_length month_days_def)
  then show "m < 13" "k < 31" using i by simp_all
qed

section \<open>Text order\<close>

text \<open>Strings compare by their unsigned characters.\<close>

fun text_less :: "string \<Rightarrow> string \<Rightarrow> bool" where
  "text_less s [] \<longleftrightarrow> False"
| "text_less [] (c # t) \<longleftrightarrow> True"
| "text_less (c # s) (d # t) \<longleftrightarrow> (of_char c :: nat) < of_char d \<or> c = d \<and> text_less s t"

lemma text_less_append:
  "length s = length s' \<Longrightarrow> text_less (s @ u) (s' @ v) \<longleftrightarrow> text_less s s' \<or> s = s' \<and> text_less u v"
  by (induction s s' rule: list_induct2) auto

lemma dec_val_less: "list_all is_digit s \<Longrightarrow> dec_val s < 10 ^ length s"
proof (induction s)
  case (Cons c s)
  then have "digit_val c \<le> 9" by (auto simp: is_digit_def digit_val_def)
  then have "digit_val c * 10 ^ length s \<le> 9 * 10 ^ length s" by simp
  moreover have "dec_val s < 10 ^ length s" using Cons by simp
  ultimately have "digit_val c * 10 ^ length s + dec_val s < 10 * 10 ^ length s" by linarith
  then show ?case by (simp add: dec_val_Cons)
qed simp

lemma digits_less:
  assumes "length s = length t" "list_all is_digit s" "list_all is_digit t"
  shows "text_less s t \<longleftrightarrow> dec_val s < dec_val t"
  using assms
proof (induction s t rule: list_induct2)
  case (Cons c s d t)
  have c: "digit_val c = digit_val d \<longleftrightarrow> c = d" "digit_val c < digit_val d \<longleftrightarrow> (of_char c :: nat) < of_char d"
    using Cons.prems by (auto simp: digit_val_def is_digit_def)
      (metis Nat.add_diff_assoc2 add_diff_inverse_nat char_of_char diff_is_0_eq linorder_not_le nat_le_linear)
  have s: "dec_val s < 10 ^ length s" "dec_val t < 10 ^ length s"
    using Cons.prems Cons.hyps dec_val_less [of s] dec_val_less [of t] by simp_all
  show ?case
  proof (cases "digit_val c" "digit_val d" rule: linorder_cases)
    case less
    then have "(digit_val c + 1) * 10 ^ length s \<le> digit_val d * 10 ^ length s" by (intro mult_le_mono) simp_all
    then show ?thesis using less c s Cons.hyps by (simp add: dec_val_Cons)
  next
    case equal
    then show ?thesis using c Cons by (simp add: dec_val_Cons)
  next
    case greater
    then have "(digit_val d + 1) * 10 ^ length s \<le> digit_val c * 10 ^ length s" by (intro mult_le_mono) simp_all
    then show ?thesis using greater c s Cons.hyps by (simp add: dec_val_Cons)
  qed
qed simp

text \<open>Fields of a fixed width compare as numbers.\<close>

lemma text_less_field:
  assumes "m < 10 ^ w" "n < 10 ^ w" "0 < w"
  shows "text_less (dec_pad w m @ u) (dec_pad w n @ v) \<longleftrightarrow> m < n \<or> m = n \<and> text_less u v"
  using assms
  by (simp add: text_less_append length_dec_pad digits_less dec_pad_digits dec_pad_inj)

section \<open>Timestamps\<close>

lemma dec_year: "1000 \<le> y \<Longrightarrow> y < 10000 \<Longrightarrow> dec y = dec_pad 4 y"
proof -
  assume y: "1000 \<le> y" "y < 10000"
  then have "\<not> length (dec y) \<le> 3" using dec_val_less [OF dec_digits, of y] power_increasing [of "length (dec y)" 3 "10 :: nat"]
    by fastforce
  then show ?thesis by (simp add: dec_pad_def)
qed

lemma less_div_mod:
  fixes u v n :: nat
  assumes "0 < n"
  shows "u < v \<longleftrightarrow> u div n < v div n \<or> u div n = v div n \<and> u mod n < v mod n"
proof (cases "u div n" "v div n" rule: linorder_cases)
  case less
  then show ?thesis using div_le_mono [of v u n] by (auto simp: not_less [symmetric])
next
  case equal
  then show ?thesis using div_mult_mod_eq [of u n] div_mult_mod_eq [of v n] by (metis add_less_cancel_left less_irrefl)
next
  case greater
  then show ?thesis using div_le_mono [of u v n] by (auto simp: not_less [symmetric])
qed

text \<open>The fields of a time compare lexicographically as the times do.\<close>

lemma gmtime_less:
  "s < s' \<longleftrightarrow> (let t = gmtime s; t' = gmtime s' in
     ut_year t < ut_year t' \<or> ut_year t = ut_year t' \<and> (
     ut_month t < ut_month t' \<or> ut_month t = ut_month t' \<and> (
     ut_day t < ut_day t' \<or> ut_day t = ut_day t' \<and> (
     ut_hour t < ut_hour t' \<or> ut_hour t = ut_hour t' \<and> (
     ut_minute t < ut_minute t' \<or> ut_minute t = ut_minute t' \<and>
     ut_second t < ut_second t')))))"
proof -
  obtain y a z b where y: "split_year 1970 (s div 86400) = (y, a)" "split_year 1970 (s' div 86400) = (z, b)" by fastforce
  obtain m k l j where m: "split_month (month_days y) 1 a = (m, k)" "split_month (month_days z) 1 b = (l, j)" by fastforce
  have doy: "a < sum_list (month_days y)" "b < sum_list (month_days z)"
    using split_year_days [OF y(1)] split_year_days [OF y(2)] by (simp_all add: sum_month_days)
  have days: "s div 86400 < s' div 86400 \<longleftrightarrow> y < z \<or> y = z \<and> (m < l \<or> m = l \<and> k < j)"
    using split_year_less [OF y] split_month_less [of "month_days z" a m k b l j] m doy by auto
  have same: "s div 86400 = s' div 86400 \<longleftrightarrow> y = z \<and> m = l \<and> k = j"
  proof
    assume "y = z \<and> m = l \<and> k = j"
    moreover have "s' div 86400 < s div 86400 \<longleftrightarrow> z < y \<or> z = y \<and> (l < m \<or> l = m \<and> j < k)"
      using split_year_less [OF y(2,1)] split_month_less [of "month_days y" b l j a m k] m doy by auto
    ultimately show "s div 86400 = s' div 86400" using days by auto
  qed (use y m in auto)
  let ?r = "s mod 86400" and ?q = "s' mod 86400"
  have time: "?r < ?q \<longleftrightarrow> ?r div 3600 < ?q div 3600 \<or> ?r div 3600 = ?q div 3600 \<and> (
      ?r mod 3600 div 60 < ?q mod 3600 div 60 \<or> ?r mod 3600 div 60 = ?q mod 3600 div 60 \<and> ?r mod 60 < ?q mod 60)"
    using less_div_mod [of 3600 ?r ?q] less_div_mod [of 60 "?r mod 3600" "?q mod 3600"] by (simp add: mod_mod_cancel)
  have "s < s' \<longleftrightarrow> s div 86400 < s' div 86400 \<or> s div 86400 = s' div 86400 \<and> ?r < ?q"
    by (rule less_div_mod) simp
  then show ?thesis unfolding days same time by (auto simp: gmtime_def y m [unfolded One_nat_def] Let_def)
qed

lemma gmtime_inj: "gmtime s = gmtime s' \<longleftrightarrow> s = s'"
proof
  assume "gmtime s = gmtime s'"
  then have "\<not> s < s'" "\<not> s' < s" unfolding gmtime_less [of s s'] gmtime_less [of s' s] by simp_all
  then show "s = s'" by simp
qed simp

lemma gmtime_ranges:
  assumes "s < 20000000000"
  shows "1000 \<le> ut_year (gmtime s)" "ut_year (gmtime s) < 10000" "ut_month (gmtime s) < 100" "ut_day (gmtime s) < 100"
    "ut_hour (gmtime s) < 100" "ut_minute (gmtime s) < 100" "ut_second (gmtime s) < 100"
proof -
  obtain y a where y: "split_year 1970 (s div 86400) = (y, a)" by fastforce
  obtain m k where m: "split_month (month_days y) 1 a = (m, k)" by fastforce
  have "s div 86400 \<le> 20000000000 div 86400" using assms by (intro div_le_mono) simp
  moreover note split_year_bound [OF y]
  moreover have "a < year_days y" using split_year_days [OF y] by simp
  moreover note split_month_bounds [OF m this]
  moreover have "s mod 86400 < 86400" by simp
  then have "s mod 86400 div 3600 < 24" by (simp add: div_less_iff_less_mult)
  moreover have "s mod 86400 mod 3600 div 60 < 60" by (simp add: div_less_iff_less_mult)
  ultimately show "1000 \<le> ut_year (gmtime s)" "ut_year (gmtime s) < 10000" "ut_month (gmtime s) < 100"
      "ut_day (gmtime s) < 100" "ut_hour (gmtime s) < 100" "ut_minute (gmtime s) < 100"
    by (simp_all add: gmtime_def y m [unfolded One_nat_def] Let_def)
  have "s mod 86400 mod 60 < 60" by (rule mod_less_divisor) simp
  then show "ut_second (gmtime s) < 100"
    by (simp add: gmtime_def y m [unfolded One_nat_def] Let_def)
qed

text \<open>
  The timestamps of the audit log sort as text exactly as they do as times, nanoseconds included,
  for every 64-bit count of nanoseconds.
\<close>

lemma timestamps_sort: "text_less (format_iso8601 a) (format_iso8601 b) \<longleftrightarrow> a < b"
proof -
  let ?s = "unat a div 1000000000" and ?s' = "unat b div 1000000000"
  have range: "unat c div 1000000000 < 20000000000" for c :: u64
    using unat_bound_64 [of c] by (simp add: div_less_iff_less_mult)
  note r = gmtime_ranges [OF range [of a]] and r' = gmtime_ranges [OF range [of b]]
  have sep: "text_less (''-'' @ u) (''-'' @ v) = text_less u v" "text_less (''T'' @ u) (''T'' @ v) = text_less u v"
    "text_less ('':'' @ u) ('':'' @ v) = text_less u v" "text_less (''.'' @ u) (''.'' @ v) = text_less u v" for u v
    by simp_all
  have irr: "\<not> text_less u u" for u by (induction u) auto
  have "text_less (format_iso8601 a) (format_iso8601 b) \<longleftrightarrow>
      ?s < ?s' \<or> gmtime ?s = gmtime ?s' \<and> unat a mod 1000000000 < unat b mod 1000000000"
    unfolding gmtime_less [of ?s ?s'] Let_def
    using r r' irr [of "''Z''"]
    by (auto simp: format_iso8601_def date_time_text_def date_text_def dec_year append_assoc sep text_less_field
        simp del: append.simps text_less.simps)
  moreover have "gmtime ?s = gmtime ?s' \<longleftrightarrow> ?s = ?s'"
    by (rule gmtime_inj)
  moreover have "a < b \<longleftrightarrow> ?s < ?s' \<or> ?s = ?s' \<and> unat a mod 1000000000 < unat b mod 1000000000"
    unfolding word_less_nat_alt by (rule less_div_mod) simp
  ultimately show ?thesis by simp
qed

end
