(* ===== verification/Audit_Log.thy ===== *)
theory Audit_Log
  imports Calendar Ring_Buffer Tcp_Socket Codec Soup
begin

text \<open>
  \<open>include/bist/observability/audit.hpp\<close>: the audit log. Any thread may \<open>record\<close> into the ring; one
  worker thread pops the records, writes one line each, and rotates the file with the date. The
  moves of the threads are explicit, one atomic queue operation or one action of the worker each;
  the disk is a script of answers, with the text that reached each file in order.
\<close>

section \<open>Records and lines\<close>

datatype audit_direction = Sent | Recv

record audit_record =
  ar_wall_ns :: u64
  ar_dir :: audit_direction
  ar_channel :: string
  ar_seq :: u64
  ar_type :: char
  ar_hex :: string

definition audit_record_default :: audit_record where
  "audit_record_default =
     \<lparr>ar_wall_ns = 0, ar_dir = Sent, ar_channel = [], ar_seq = 0, ar_type = CHR 0x00, ar_hex = []\<rparr>"

definition audit_line :: "audit_record \<Rightarrow> string" where
  "audit_line r =
     format_iso8601 (ar_wall_ns r) @ ''  '' @ (if ar_dir r = Sent then ''SENT'' else ''RECV'') @ ''  ''
     @ ar_channel r @ ''  '' @ (if ar_seq r \<noteq> 0 then dec (unat (ar_seq r)) else ''-'') @ ''  ''
     @ [ar_type r] @ ''  '' @ ''hex='' @ ar_hex r @ [CHR 0x0A]"

section \<open>State\<close>

text \<open>Where the worker thread stands in \<open>run\<close>; \<open>Draining\<close> carries \<open>drained\<close>.\<close>

datatype audit_worker = NoWorker | LoopTop | Draining bool | Rotating | FinalDrain | Ended

text \<open>What the disk will answer: to \<open>create_directories\<close> the text of an error, to an open whether it
  succeeds, to a line how much of it is taken. A used-up list stands for success. \<open>ad_log\<close> holds
  what was written, each piece with its file, in order.\<close>

record audit_disk =
  ad_mkdirs :: "string option list"
  ad_opens :: "bool list"
  ad_writes :: "nat list"
  ad_log :: "(string \<times> string) list"

text \<open>\<open>al_file\<close> is the file the stream has open, \<open>al_bad\<close> its error flag.\<close>

record audit_log =
  al_directory :: string
  al_today :: string
  al_file :: "string option"
  al_bad :: bool
  al_running :: bool
  al_worker :: audit_worker
  al_queue :: "audit_record ring"
  al_wall :: clock
  al_disk :: audit_disk

definition audit_init :: "string \<Rightarrow> clock \<Rightarrow> audit_disk \<Rightarrow> audit_log" where
  "audit_init dir wall disk =
     \<lparr>al_directory = dir, al_today = [], al_file = None, al_bad = False, al_running = False,
      al_worker = NoWorker, al_queue = ring_init audit_record_default 14, al_wall = wall, al_disk = disk\<rparr>"

section \<open>The hot path\<close>

definition audit_entry :: "u64 \<Rightarrow> audit_direction \<Rightarrow> string \<Rightarrow> u64 \<Rightarrow> byte list \<Rightarrow> audit_record" where
  "audit_entry now dir channel seq bytes =
     \<lparr>ar_wall_ns = now, ar_dir = dir, ar_channel = channel, ar_seq = seq,
      ar_type = (if bytes = [] then CHR 0x00 else char_of_byte (hd bytes)), ar_hex = hex_dump bytes\<rparr>"

definition audit_put ::
  "audit_direction \<Rightarrow> string \<Rightarrow> u64 \<Rightarrow> byte list \<Rightarrow> audit_log \<Rightarrow> bool \<times> audit_log" where
  "audit_put dir channel seq bytes a =
     (let (now, ck) = read_clock (al_wall a);
          (ok, q) = try_push (audit_entry now dir channel seq bytes) (al_queue a)
      in (ok, a\<lparr>al_wall := ck, al_queue := q\<rparr>))"

section \<open>The file\<close>

definition utc_date :: "u64 \<Rightarrow> string" where
  "utc_date ns = date_text (gmtime (unat ns div 1000000000))"

definition audit_path :: "string \<Rightarrow> string \<Rightarrow> string" where
  "audit_path dir day = dir @ ''/'' @ day @ ''.audit.log''"

definition stream_open :: "string \<Rightarrow> audit_log \<Rightarrow> audit_log" where
  "stream_open path a =
     (if al_file a \<noteq> None then a\<lparr>al_bad := True\<rparr>
      else case ad_opens (al_disk a) of
        [] \<Rightarrow> a\<lparr>al_file := Some path, al_bad := False\<rparr>
      | ok # rest \<Rightarrow>
          (if ok then a\<lparr>al_file := Some path, al_bad := False, al_disk := (al_disk a)\<lparr>ad_opens := rest\<rparr>\<rparr>
           else a\<lparr>al_bad := True, al_disk := (al_disk a)\<lparr>ad_opens := rest\<rparr>\<rparr>))"

definition stream_close :: "audit_log \<Rightarrow> audit_log" where
  "stream_close a = (if al_file a = None then a\<lparr>al_bad := True\<rparr> else a\<lparr>al_file := None\<rparr>)"

definition create_directories :: "audit_log \<Rightarrow> string option \<times> audit_log" where
  "create_directories a =
     (case ad_mkdirs (al_disk a) of
        [] \<Rightarrow> (None, a)
      | e # rest \<Rightarrow> (e, a\<lparr>al_disk := (al_disk a)\<lparr>ad_mkdirs := rest\<rparr>\<rparr>))"

definition open_for_today :: "audit_log \<Rightarrow> unit result \<times> audit_log" where
  "open_for_today a =
     (let (now, ck) = read_clock (al_wall a);
          (e, a1) = create_directories (a\<lparr>al_wall := ck, al_today := utc_date now\<rparr>)
      in case e of
           Some msg \<Rightarrow>
             (Inl (make_error Io (''create audit directory '' @ al_directory a @ '': '' @ msg)), a1)
         | None \<Rightarrow>
             (let path = audit_path (al_directory a1) (al_today a1); a2 = stream_open path a1
              in if al_bad a2 then (Inl (make_error Io (''open audit log '' @ path @ '' failed'')), a2)
                 else (Inr (), a2)))"

definition maybe_rotate :: "audit_log \<Rightarrow> audit_log" where
  "maybe_rotate a =
     (let (now, ck) = read_clock (al_wall a); a1 = a\<lparr>al_wall := ck\<rparr>
      in if al_today a1 \<noteq> utc_date now then snd (open_for_today (stream_close a1)) else a1)"

text \<open>Inserting into a stream whose error flag is set does nothing.\<close>

definition stream_put :: "string \<Rightarrow> string \<Rightarrow> audit_log \<Rightarrow> audit_log" where
  "stream_put path line a =
     (if al_bad a then a
      else case ad_writes (al_disk a) of
        [] \<Rightarrow> a\<lparr>al_disk := (al_disk a)\<lparr>ad_log := ad_log (al_disk a) @ [(path, line)]\<rparr>\<rparr>
      | n # rest \<Rightarrow>
          (if n < length line
           then a\<lparr>al_bad := True, al_disk := (al_disk a)\<lparr>ad_writes := rest,
                  ad_log := ad_log (al_disk a) @ [(path, take n line)]\<rparr>\<rparr>
           else a\<lparr>al_disk := (al_disk a)\<lparr>ad_writes := rest, ad_log := ad_log (al_disk a) @ [(path, line)]\<rparr>\<rparr>))"

definition write_one :: "audit_record \<Rightarrow> audit_log \<Rightarrow> audit_log" where
  "write_one r a = (case al_file a of None \<Rightarrow> a | Some path \<Rightarrow> stream_put path (audit_line r) a)"

section \<open>The worker and its owner\<close>

definition drain_step :: "audit_worker \<Rightarrow> audit_worker \<Rightarrow> audit_log \<Rightarrow> audit_log" where
  "drain_step busy idle a =
     (case try_pop (al_queue a) of
        (Some r, q) \<Rightarrow> write_one r (a\<lparr>al_queue := q, al_worker := busy\<rparr>)
      | (None, q) \<Rightarrow> a\<lparr>al_queue := q, al_worker := idle\<rparr>)"

definition worker_step :: "audit_log \<Rightarrow> audit_log" where
  "worker_step a =
     (case al_worker a of
        NoWorker \<Rightarrow> a
      | LoopTop \<Rightarrow> a\<lparr>al_worker := (if al_running a then Draining False else FinalDrain)\<rparr>
      | Draining drained \<Rightarrow> drain_step (Draining True) Rotating a
      | Rotating \<Rightarrow> (maybe_rotate a)\<lparr>al_worker := LoopTop\<rparr>
      | FinalDrain \<Rightarrow> drain_step FinalDrain Ended a
      | Ended \<Rightarrow> a)"

definition audit_start :: "audit_log \<Rightarrow> unit result \<times> audit_log" where
  "audit_start a =
     (if al_running a then (Inr (), a)
      else case open_for_today a of
        (Inl e, a1) \<Rightarrow> (Inl e, a1)
      | (Inr _, a1) \<Rightarrow> (Inr (), a1\<lparr>al_running := True, al_worker := LoopTop\<rparr>))"

text \<open>\<open>stop\<close> first ends the loop; the rest is what it does once the worker has returned.\<close>

definition stop_request :: "audit_log \<Rightarrow> audit_log" where
  "stop_request a = a\<lparr>al_running := False\<rparr>"

definition stop_finish :: "audit_log \<Rightarrow> audit_log" where
  "stop_finish a = (if al_file a \<noteq> None then stream_close a else a)\<lparr>al_worker := NoWorker\<rparr>"

datatype audit_move = Record audit_direction string u64 "byte list" | Work | Start | Stop_Request | Stop_Finish

text \<open>One move and the record it was accepted for. The owner cannot start the log again while it is
  inside \<open>stop\<close>, and leaves \<open>stop\<close> when the worker has ended.\<close>

fun do_move :: "audit_move \<Rightarrow> audit_log \<Rightarrow> audit_record list \<times> audit_log" where
  "do_move (Record dir channel seq bytes) a =
     (let (ok, a1) = audit_put dir channel seq bytes a
      in (if ok then [audit_entry (ck_now (al_wall a)) dir channel seq bytes] else [], a1))"
| "do_move Work a = ([], worker_step a)"
| "do_move Start a =
     ([], if al_running a \<or> al_worker a = NoWorker then snd (audit_start a) else a)"
| "do_move Stop_Request a = ([], if al_running a then stop_request a else a)"
| "do_move Stop_Finish a = ([], if al_worker a = Ended then stop_finish a else a)"

fun do_moves :: "audit_move list \<Rightarrow> audit_log \<Rightarrow> audit_record list \<times> audit_log" where
  "do_moves [] a = ([], a)"
| "do_moves (m # ms) a =
     (let (acc, a1) = do_move m a; (rest, a2) = do_moves ms a1 in (acc @ rest, a2))"

section \<open>Nothing is lost\<close>

definition disk_serves :: "audit_log \<Rightarrow> bool" where
  "disk_serves a \<longleftrightarrow> ad_mkdirs (al_disk a) = [] \<and> ad_opens (al_disk a) = [] \<and> ad_writes (al_disk a) = []"

definition audit_inv :: "string \<Rightarrow> audit_record list \<Rightarrow> audit_log \<Rightarrow> bool" where
  "audit_inv dir acc a \<longleftrightarrow> al_directory a = dir \<and> ring_inv (al_queue a) \<and> ring_capacity (al_queue a) = 2 ^ 14 \<and> disk_serves a
     \<and> (al_running a \<longrightarrow> al_worker a \<notin> {NoWorker, FinalDrain, Ended})
     \<and> (if al_worker a = NoWorker then al_file a = None else al_file a \<noteq> None \<and> \<not> al_bad a)
     \<and> (\<forall>(path, line) \<in> set (ad_log (al_disk a)). \<exists>ns. path = audit_path dir (utc_date ns))
     \<and> (\<forall>path. al_file a = Some path \<longrightarrow> (\<exists>ns. path = audit_path dir (utc_date ns)))
     \<and> map snd (ad_log (al_disk a)) @ map audit_line (ring_list (al_queue a)) = map audit_line acc"

lemma inv_init:
  "audit_inv dir [] (audit_init dir wall \<lparr>ad_mkdirs = [], ad_opens = [], ad_writes = [], ad_log = []\<rparr>)"
  using ring_inv_init [of 14 audit_record_default]
  by (simp add: audit_inv_def audit_init_def disk_serves_def ring_init_def ring_capacity_def ring_list_def ring_len_def)

lemma inv_put:
  assumes "audit_inv dir acc a"
  shows "audit_inv dir (acc @ fst (do_move (Record d ch sq bs) a)) (snd (do_move (Record d ch sq bs) a))"
proof -
  let ?r = "audit_entry (ck_now (al_wall a)) d ch sq bs"
  note push = spsc.psh_ok [of "al_queue a" ?r]
  show ?thesis using assms push
    by (auto simp: audit_inv_def audit_put_def case_prod_beta Let_def disk_serves_def)
qed

lemma inv_drain:
  assumes "audit_inv dir acc a" "al_worker a \<noteq> NoWorker" "busy \<noteq> NoWorker" "idle \<noteq> NoWorker"
    "al_running a \<longrightarrow> {busy, idle} \<inter> {FinalDrain, Ended} = {}"
  shows "audit_inv dir acc (drain_step busy idle a)"
proof -
  note pop = spsc.pp_ok [of "al_queue a"]
  show ?thesis
  proof (cases "ring_list (al_queue a)")
    case Nil
    then show ?thesis using assms pop
      by (auto simp: audit_inv_def drain_step_def case_prod_beta disk_serves_def split: option.split prod.split)
  next
    case (Cons r rs)
    then show ?thesis using assms pop
      by (auto simp: audit_inv_def drain_step_def case_prod_beta disk_serves_def write_one_def stream_put_def
          split: option.split prod.split)
  qed
qed

lemma open_for_today_ok:
  assumes "disk_serves a" "al_file a = None"
  shows "\<exists>ns ck. open_for_today a =
    (Inr (), a\<lparr>al_wall := ck, al_today := utc_date ns,
       al_file := Some (audit_path (al_directory a) (utc_date ns)), al_bad := False\<rparr>)"
  using assms
  by (auto simp: open_for_today_def create_directories_def disk_serves_def stream_open_def case_prod_beta Let_def)

lemma inv_rotate:
  assumes "audit_inv dir acc a" "al_worker a \<noteq> NoWorker" "al_worker a \<noteq> Ended"
  shows "audit_inv dir acc ((maybe_rotate a)\<lparr>al_worker := LoopTop\<rparr>)"
proof -
  let ?a = "stream_close (a\<lparr>al_wall := snd (read_clock (al_wall a))\<rparr>)"
  obtain ns ck where "open_for_today ?a = (Inr (), ?a\<lparr>al_wall := ck, al_today := utc_date ns,
       al_file := Some (audit_path (al_directory ?a) (utc_date ns)), al_bad := False\<rparr>)"
    using open_for_today_ok [of ?a] assms by (auto simp: audit_inv_def disk_serves_def stream_close_def)
  then show ?thesis using assms
    by (auto simp: maybe_rotate_def case_prod_beta Let_def audit_inv_def disk_serves_def stream_close_def)
qed

lemma inv_start:
  assumes "audit_inv dir acc a" "al_worker a = NoWorker"
  shows "audit_inv dir acc (snd (audit_start a))"
proof -
  obtain ns ck where "open_for_today a = (Inr (), a\<lparr>al_wall := ck, al_today := utc_date ns,
       al_file := Some (audit_path (al_directory a) (utc_date ns)), al_bad := False\<rparr>)"
    using open_for_today_ok [of a] assms by (auto simp: audit_inv_def)
  then show ?thesis using assms by (auto simp: audit_start_def audit_inv_def disk_serves_def)
qed

lemma inv_move: "audit_inv dir acc a \<Longrightarrow> audit_inv dir (acc @ fst (do_move m a)) (snd (do_move m a))"
proof (cases m)
  case Work
  assume inv: "audit_inv dir acc a"
  then have running: "al_running a \<Longrightarrow> al_worker a \<noteq> FinalDrain" by (simp add: audit_inv_def)
  show ?thesis
  proof (cases "al_worker a")
    case LoopTop
    then show ?thesis using inv Work by (auto simp: worker_step_def audit_inv_def disk_serves_def)
  qed (use inv Work running in \<open>auto intro!: inv_drain inv_rotate simp: worker_step_def\<close>)
next
  case Start
  assume inv: "audit_inv dir acc a"
  then show ?thesis using Start inv_start [of dir acc a] by (auto simp: audit_start_def)
next
  case Stop_Request
  assume "audit_inv dir acc a"
  then show ?thesis using Stop_Request by (auto simp: audit_inv_def stop_request_def disk_serves_def)
next
  case Stop_Finish
  assume "audit_inv dir acc a"
  then show ?thesis using Stop_Finish
    by (auto simp: audit_inv_def stop_finish_def stream_close_def disk_serves_def)
qed (use inv_put in blast)

lemma inv_moves: "audit_inv dir acc a \<Longrightarrow> audit_inv dir (acc @ fst (do_moves ms a)) (snd (do_moves ms a))"
proof (induction ms arbitrary: acc a)
  case (Cons m ms)
  from Cons.IH [OF inv_move [OF Cons.prems, of m]] show ?case
    by (simp add: case_prod_beta Let_def del: do_move.simps)
qed simp

section \<open>Stopping\<close>

text \<open>The worker's own steps to its end: a record each, and at most five more.\<close>

definition steps_left :: "audit_log \<Rightarrow> nat" where
  "steps_left a = length (ring_list (al_queue a)) +
     (case al_worker a of NoWorker \<Rightarrow> 0 | LoopTop \<Rightarrow> 2 | Draining _ \<Rightarrow> 4 | Rotating \<Rightarrow> 3 | FinalDrain \<Rightarrow> 1 | Ended \<Rightarrow> 0)"

lemma rotate_keeps [simp]:
  "al_queue (maybe_rotate a) = al_queue a" "al_running (maybe_rotate a) = al_running a"
  by (simp_all add: maybe_rotate_def open_for_today_def create_directories_def stream_open_def stream_close_def
      case_prod_beta Let_def split: list.split option.split)

lemma write_keeps [simp]:
  "al_queue (write_one r a) = al_queue a" "al_running (write_one r a) = al_running a"
  "al_worker (write_one r a) = al_worker a"
  by (simp_all add: write_one_def stream_put_def split: list.split option.split)

lemma worker_step_down:
  assumes "ring_inv (al_queue a)" "\<not> al_running a" "al_worker a \<notin> {NoWorker, Ended}"
  shows "ring_inv (al_queue (worker_step a)) \<and> \<not> al_running (worker_step a) \<and> al_worker (worker_step a) \<noteq> NoWorker
    \<and> steps_left (worker_step a) < steps_left a
    \<and> (al_worker (worker_step a) = Ended \<longrightarrow> ring_list (al_queue (worker_step a)) = [])"
proof -
  note pop = spsc.pp_ok [OF assms(1)]
  have drain: "ring_inv (al_queue (drain_step busy idle a)) \<and> \<not> al_running (drain_step busy idle a)
      \<and> (if ring_list (al_queue a) = [] then ring_list (al_queue (drain_step busy idle a)) = []
           \<and> al_worker (drain_step busy idle a) = idle
         else length (ring_list (al_queue (drain_step busy idle a))) < length (ring_list (al_queue a))
           \<and> al_worker (drain_step busy idle a) = busy)" for busy idle
    using pop assms(2) by (cases "ring_list (al_queue a)")
      (auto simp: drain_step_def case_prod_beta split: option.split prod.split)
  show ?thesis
  proof (cases "al_worker a")
    case (Draining d)
    then show ?thesis using drain [of "Draining True" Rotating] by (auto simp: worker_step_def steps_left_def split: if_splits)
  next
    case FinalDrain
    then show ?thesis using drain [of FinalDrain Ended] by (auto simp: worker_step_def steps_left_def split: if_splits)
  qed (use assms in \<open>simp_all add: worker_step_def steps_left_def\<close>)
qed

lemma worker_ends:
  assumes "ring_inv (al_queue a)" "\<not> al_running a" "al_worker a \<notin> {NoWorker, Ended}"
  shows "\<exists>n \<le> steps_left a. al_worker ((worker_step ^^ n) a) = Ended
    \<and> ring_list (al_queue ((worker_step ^^ n) a)) = []"
  using assms
proof (induction "steps_left a" arbitrary: a rule: less_induct)
  case less
  note step = worker_step_down [OF less.prems]
  show ?case
  proof (cases "al_worker (worker_step a) = Ended")
    case True
    then show ?thesis using step by (intro exI [of _ 1]) auto
  next
    case False
    then obtain n where "n \<le> steps_left (worker_step a)" "al_worker ((worker_step ^^ n) (worker_step a)) = Ended"
      "ring_list (al_queue ((worker_step ^^ n) (worker_step a))) = []"
      using less.hyps [of "worker_step a"] step by auto
    then show ?thesis using step by (intro exI [of _ "Suc n"]) (simp add: funpow_Suc_right del: funpow.simps)
  qed
qed

lemma work_moves: "do_moves (replicate n Work) a = ([], (worker_step ^^ n) a)"
  by (induction n arbitrary: a) (simp_all add: funpow_Suc_right del: funpow.simps)

lemma do_moves_append:
  "do_moves (ms @ ns) a = (fst (do_moves ms a) @ fst (do_moves ns (snd (do_moves ms a))),
     snd (do_moves ns (snd (do_moves ms a))))"
  by (induction ms arbitrary: a) (simp_all add: case_prod_beta Let_def del: do_move.simps)

section \<open>Properties\<close>

abbreviation healthy_disk :: audit_disk where
  "healthy_disk \<equiv> \<lparr>ad_mkdirs = [], ad_opens = [], ad_writes = [], ad_log = []\<rparr>"

text \<open>
  C12: On a disk that does not fail, whatever the threads do in whatever order, the lines on disk and
  the records still queued are together the accepted records, each once and in order; every line is
  in a file named by a date. Once the worker is told to stop, its own next steps, at most four more
  than records are queued, bring all of them to the disk.
\<close>

theorem audit_complete:
  "(let (acc, a) = do_moves ms (audit_init dir wall healthy_disk)
    in map snd (ad_log (al_disk a)) @ map audit_line (ring_list (al_queue a)) = map audit_line acc
     \<and> (\<forall>(path, line) \<in> set (ad_log (al_disk a)). \<exists>ns. path = audit_path dir (utc_date ns))
     \<and> (al_running a \<longrightarrow> (\<exists>n \<le> length (ring_list (al_queue a)) + 4.
          let (later, b) = do_moves (Stop_Request # replicate n Work) a
          in later = [] \<and> al_worker b = Ended \<and> map snd (ad_log (al_disk b)) = map audit_line acc)))"
proof -
  obtain acc a where run: "do_moves ms (audit_init dir wall healthy_disk) = (acc, a)" by fastforce
  have inv: "audit_inv dir acc a" using inv_moves [OF inv_init [of dir wall], of ms] run by simp
  have stop: "\<exists>n \<le> length (ring_list (al_queue a)) + 4.
      let (later, b) = do_moves (Stop_Request # replicate n Work) a
      in later = [] \<and> al_worker b = Ended \<and> map snd (ad_log (al_disk b)) = map audit_line acc" if "al_running a"
  proof -
    let ?a = "stop_request a"
    have w: "ring_inv (al_queue ?a)" "\<not> al_running ?a" "al_worker ?a \<notin> {NoWorker, Ended}" "al_worker ?a \<noteq> FinalDrain"
      using inv that by (auto simp: audit_inv_def stop_request_def)
    have "steps_left ?a \<le> length (ring_list (al_queue a)) + 4"
      by (simp add: steps_left_def stop_request_def split: audit_worker.split)
    then obtain n where n: "n \<le> length (ring_list (al_queue a)) + 4"
      "al_worker ((worker_step ^^ n) ?a) = Ended" "ring_list (al_queue ((worker_step ^^ n) ?a)) = []"
      using worker_ends [OF w(1-3)] le_trans by blast
    have b: "do_moves (Stop_Request # replicate n Work) a = ([], (worker_step ^^ n) ?a)"
      using that by (simp add: work_moves)
    have "audit_inv dir acc ((worker_step ^^ n) ?a)" using inv_moves [OF inv, of "Stop_Request # replicate n Work"] b by simp
    then show ?thesis using n b by (intro exI [of _ n]) (simp add: audit_inv_def)
  qed
  show ?thesis using inv stop unfolding run by (auto simp: audit_inv_def)
qed

text \<open>
  C37: When the file of a new day cannot be opened, the log is lost for that day: as long as the clock
  stays on the day and the log is not stopped, whatever is recorded and however long the worker
  runs, nothing reaches the disk, while \<open>record\<close> goes on reporting success for as many records as
  the queue takes.
\<close>

definition clock_on :: "string \<Rightarrow> clock \<Rightarrow> bool" where
  "clock_on day ck \<longleftrightarrow> (\<forall>ns \<in> set (ck_now ck # ck_later ck). utc_date ns = day)"

definition lost_day :: "string \<Rightarrow> audit_log \<Rightarrow> bool" where
  "lost_day day a \<longleftrightarrow> al_file a = None \<and> al_today a = day \<and> clock_on day (al_wall a) \<and> ring_inv (al_queue a)"

lemma clock_on_read: "clock_on day ck \<Longrightarrow> clock_on day (snd (read_clock ck))" "clock_on day ck \<Longrightarrow> utc_date (ck_now ck) = day"
  by (auto simp: clock_on_def read_clock_def split: list.split)

lemma lost_step: "lost_day day a \<Longrightarrow> lost_day day (worker_step a) \<and> ad_log (al_disk (worker_step a)) = ad_log (al_disk a)"
proof -
  assume lost: "lost_day day a"
  have "lost_day day (drain_step busy idle a) \<and> ad_log (al_disk (drain_step busy idle a)) = ad_log (al_disk a)" for busy idle
    using lost spsc.pp_ok [of "al_queue a"]
    by (auto simp: lost_day_def drain_step_def write_one_def case_prod_beta split: option.split prod.split)
  moreover have "maybe_rotate a = a\<lparr>al_wall := snd (read_clock (al_wall a))\<rparr>"
    using lost clock_on_read(2) by (auto simp: lost_day_def maybe_rotate_def case_prod_beta Let_def)
  ultimately show ?thesis
    using lost clock_on_read(1) by (cases "al_worker a") (auto simp: worker_step_def lost_day_def)
qed

definition lossy_move :: "audit_move \<Rightarrow> bool" where
  "lossy_move m \<longleftrightarrow> m = Work \<or> (\<exists>dir ch sq bs. m = Record dir ch sq bs)"

lemma lost_moves:
  "lost_day day a \<Longrightarrow> list_all lossy_move ms \<Longrightarrow>
    lost_day day (snd (do_moves ms a)) \<and> ad_log (al_disk (snd (do_moves ms a))) = ad_log (al_disk a)"
proof (induction ms arbitrary: a)
  case (Cons m ms)
  have "lost_day day (snd (do_move m a)) \<and> ad_log (al_disk (snd (do_move m a))) = ad_log (al_disk a)"
  proof (cases m)
    case (Record dir ch sq bs)
    then show ?thesis
      using Cons.prems spsc.psh_ok [of "al_queue a" "audit_entry (ck_now (al_wall a)) dir ch sq bs"] clock_on_read
      by (auto simp: lost_day_def audit_put_def case_prod_beta Let_def)
  next
    case Work
    then show ?thesis using lost_step [OF Cons.prems(1)] by simp
  qed (use Cons.prems in \<open>auto simp: lossy_move_def\<close>)
  with Cons.IH [of "snd (do_move m a)"] Cons.prems show ?case
    by (simp add: case_prod_beta Let_def del: do_move.simps)
qed simp

lemma put_accepted:
  assumes "ring_inv (al_queue a)"
  shows "fst (audit_put dir ch sq bs a) = (length (ring_list (al_queue a)) < ring_capacity (al_queue a))"
  using spsc.psh_ok [OF assms] by (simp add: audit_put_def case_prod_beta Let_def)

theorem failed_rotation_loses_the_day:
  assumes "al_worker a = Rotating" "ring_inv (al_queue a)" "al_today a \<noteq> day" "clock_on day (al_wall a)"
    "ad_mkdirs (al_disk a) = [] \<and> ad_opens (al_disk a) = False # opens
     \<or> ad_mkdirs (al_disk a) = Some msg # dirs"
    "list_all lossy_move ms" "do_moves (Work # ms) a = (acc, b)"
  shows "al_file b = None \<and> ad_log (al_disk b) = ad_log (al_disk a)
    \<and> fst (audit_put dir ch sq bs b) = (length (ring_list (al_queue b)) < ring_capacity (al_queue b))"
proof -
  have "lost_day day (worker_step a) \<and> ad_log (al_disk (worker_step a)) = ad_log (al_disk a)"
    using assms(1-5)
    by (auto simp: worker_step_def lost_day_def maybe_rotate_def open_for_today_def create_directories_def stream_open_def
        stream_close_def clock_on_read case_prod_beta Let_def)
  then have "lost_day day b \<and> ad_log (al_disk b) = ad_log (al_disk a)"
    using lost_moves [of day "worker_step a" ms] assms(6,7) by (auto simp: case_prod_beta Let_def)
  then show ?thesis using put_accepted by (auto simp: lost_day_def)
qed

text \<open>The type column holds the first byte recorded, which for a received packet is the high byte of
  its length.\<close>

lemma framed_type_is_nul:
  assumes "length p < 255"
  shows "ar_type (audit_entry now dir ch sq (frame ty p)) = CHR 0x00"
proof -
  have "char_of_byte 0 = CHR 0x00" by code_simp
  then show ?thesis using hd_frame [OF assms] by (simp add: audit_entry_def)
qed

section \<open>Witnesses\<close>

definition audit_sample :: audit_log where
  "audit_sample = (audit_init ''audit'' \<lparr>ck_now = 0, ck_later = []\<rparr> \<lparr>ad_mkdirs = [], ad_opens = [False], ad_writes = [], ad_log = []\<rparr>)
     \<lparr>al_running := True, al_worker := Rotating, al_today := ''1969-12-31'', al_file := Some ''audit/1969-12-31.audit.log''\<rparr>"

lemma utc_epoch: "utc_date 0 = ''1970-01-01''"
  unfolding utc_date_def by (simp add: gmtime_def split_year.simps [of 1970 0] year_days_def month_days_def leap_year_def) code_simp

theorem audit_complete_witness:
  "map audit_line (ring_list (al_queue (snd (do_moves [Record Sent ''OUCH-OE'' 1 [0x4F]]
      (audit_init ''audit'' \<lparr>ck_now = 0, ck_later = []\<rparr> healthy_disk)))))
   = [audit_line (audit_entry 0 Sent ''OUCH-OE'' 1 [0x4F])]"
proof -
  let ?a = "audit_init ''audit'' \<lparr>ck_now = 0, ck_later = []\<rparr> healthy_disk"
  let ?m = "Record Sent ''OUCH-OE'' 1 [0x4F]"
  have "audit_inv ''audit'' [] ?a" by (rule inv_init)
  then have "fst (audit_put Sent ''OUCH-OE'' 1 [0x4F] ?a)"
    by (subst put_accepted) (auto simp: audit_inv_def audit_init_def ring_init_def ring_list_def ring_len_def)
  then have "fst (do_moves [?m] ?a) = [audit_entry 0 Sent ''OUCH-OE'' 1 [0x4F]]"
    "ad_log (al_disk (snd (do_moves [?m] ?a))) = []"
    by (auto simp: case_prod_beta Let_def audit_init_def audit_put_def)
  then show ?thesis
    using audit_complete [of "[?m]" "''audit''" "\<lparr>ck_now = 0, ck_later = []\<rparr>"]
    by (simp add: case_prod_beta Let_def del: do_moves.simps)
qed

theorem failed_rotation_loses_the_day_witness:
  "al_file (snd (do_moves [Work, Work, Record Recv ''OUCH-OE'' 2 [0, 1, 72], Work, Work] audit_sample)) = None
   \<and> ad_log (al_disk (snd (do_moves [Work, Work, Record Recv ''OUCH-OE'' 2 [0, 1, 72], Work, Work] audit_sample))) = []"
  using failed_rotation_loses_the_day [of audit_sample "''1970-01-01''" "[]" _ _
      "[Work, Record Recv ''OUCH-OE'' 2 [0, 1, 72], Work, Work]", OF _ _ _ _ _ _ surjective_pairing]
    ring_inv_init [of 14 audit_record_default] utc_epoch
  by (simp add: audit_sample_def audit_init_def clock_on_def lossy_move_def del: do_moves.simps)

end
