(* ===== verification/Bist_Colo.thy ===== *)
theory Bist_Colo
  imports Bist_Options Transport_Login Audit_Log
begin

text \<open>
  \<open>apps/bist_colo.cpp\<close>, second part: one scenario against the mock gateway, the mock replay, the live
  service with its resident and its replay mode, and \<open>main\<close>. What the outside world will answer is a
  record per run.
\<close>

section \<open>The parts every run wires together\<close>

text \<open>The handlers push to the runner and print; the live ones also audit.\<close>

definition app_handlers :: "bool \<Rightarrow> handlers" where
  "app_handlers audited =
     \<lparr>on_accepted = True, on_rejected = True, on_replaced = True, on_canceled = True, on_executed = True,
      on_mass_quote_ack = True, on_mass_quote_reject = True, on_state_change = True,
      on_audit_sent = audited, on_audit_recv = audited\<rparr>"

definition fresh_desk :: "u64 \<Rightarrow> order_desk" where
  "fresh_desk rate =
     \<lparr>od_tokens = token_registry_init ''C-'', od_throttler = throttler_init rate rate, od_book = Map.empty\<rparr>"

text \<open>What the audit handlers record of a session's events.\<close>

fun audit_moves_of :: "event list \<Rightarrow> audit_move list" where
  "audit_moves_of [] = []"
| "audit_moves_of (AuditSent bytes sent # evs) = Record Sent ''OUCH-OE'' (sent + 1) bytes # audit_moves_of evs"
| "audit_moves_of (AuditRecv bytes session seq # evs) = Record Recv ''OUCH-OE'' seq bytes # audit_moves_of evs"
| "audit_moves_of (ev # evs) = audit_moves_of evs"

section \<open>A scenario against the mock gateway\<close>

text \<open>The ports the two gateways bind, what the network and they answer, what the end-of-day trigger
  makes of the client, and the wall clock.\<close>

record mock_world =
  mw_port :: "u16 result"
  mw_port_secondary :: "u16 result"
  mw_net :: net
  mw_eod :: "ouch_client \<Rightarrow> ouch_client"
  mw_wall :: clock

definition mock_login :: login_params where
  "mock_login =
     \<lparr>lp_username = ''TEST01'', lp_password = ''123456'', lp_requested_session = [], lp_requested_sequence = 0\<rparr>"

definition mock_control_init :: "u16 \<Rightarrow> u16 \<Rightarrow> net \<Rightarrow> mock_control" where
  "mock_control_init p1 p2 w =
     \<lparr>mc_port_primary = p1, mc_port_secondary = p2, mc_on_secondary = False, mc_base_lp = mock_login,
      mc_handlers = app_handlers False, mc_net = w\<rparr>"

definition mock_runner :: "mock_world \<Rightarrow> ouch_session \<Rightarrow> mock_control \<Rightarrow> runner" where
  "mock_runner W s m =
     set_eod_trigger (mw_eod W)
       (runner_init (client_at (fresh_desk 100) s) (seed_cert_instruments cache_empty) (Some (mock_transport m)) (mw_wall W))"

text \<open>The scenario is loaded once to see its protocol and again to run it.\<close>

definition run_one_scenario ::
  "'n yaml_api \<Rightarrow> (string \<Rightarrow> string + 'n) \<Rightarrow> 'w fix_build option \<Rightarrow> mock_world \<Rightarrow> string \<Rightarrow> int option" where
  "run_one_scenario Y load_file fe W path =
     (case load_scenario Y load_file path of
        Inl _ \<Rightarrow> Some 1
      | Inr sc \<Rightarrow>
          (if scenario_protocol sc \<in> {''fix_oe'', ''fix_rd''}
           then (if sc_mock_skip sc then Some 0 else run_one_fix_scenario fe sc (scenario_protocol sc))
           else case (mw_port W, mw_port_secondary W) of
             (Inr p1, Inr p2) \<Rightarrow>
               (case mock_reconnect_and_login [] [] 0 (mock_control_init p1 p2 (mw_net W)) of
                  Some (Inr _, Some s, m) \<Rightarrow>
                    (case load_scenario Y load_file path of
                       Inl _ \<Rightarrow> Some 1
                     | Inr sc \<Rightarrow>
                         (if sc_mock_skip sc then Some 0
                          else map_option (verdict \<circ> fst) (run_scenario sc (mock_runner W s m))))
                | Some (Inl _, _, _) \<Rightarrow> Some 1
                | _ \<Rightarrow> None)
           | _ \<Rightarrow> Some 1))"

fun count_failures :: "(string \<Rightarrow> int option) \<Rightarrow> string list \<Rightarrow> nat option" where
  "count_failures one [] = Some 0"
| "count_failures one (f # fs) =
     do { code \<leftarrow> one f; n \<leftarrow> count_failures one fs; Some (if code \<noteq> 0 then n + 1 else n) }"

definition run_mock_replay ::
  "'n yaml_api \<Rightarrow> (string \<Rightarrow> string + 'n) \<Rightarrow> 'w fix_build option \<Rightarrow> file_api \<Rightarrow> (string \<Rightarrow> mock_world) \<Rightarrow> cli_args
    \<Rightarrow> int option" where
  "run_mock_replay Y load_file fe F W args =
     (if ca_replay args = [] then Some 0
      else do { files \<leftarrow> collect_scenarios F (ca_replay args);
                if files = [] then Some 1
                else do { n \<leftarrow> count_failures (\<lambda>f. run_one_scenario Y load_file fe (W f) f) files;
                          Some (if n = 0 then 0 else 1) } })"

section \<open>Live: from the configuration to the transport\<close>

text \<open>The world of a live run: network and clocks, the disk of the cursor with the error of opening the
  file, the disk of the audit log, and how often the resident loop polls before a stop is asked for.\<close>

record live_world =
  lw_net :: net
  lw_clock :: clock
  lw_wall :: clock
  lw_disk :: disk
  lw_fates :: "save_fate list"
  lw_store_clock :: clock
  lw_open_error :: "string option"
  lw_audit_disk :: audit_disk
  lw_polls :: nat

definition audit_directory :: "config \<Rightarrow> string" where
  "audit_directory cfg = (if lg_audit_dir (cg_logging cfg) = [] then ''audit'' else lg_audit_dir (cg_logging cfg))"

definition live_store :: "cli_args \<Rightarrow> config \<Rightarrow> live_world \<Rightarrow> sequence_store" where
  "live_store args cfg W =
     store_init (''state/'' @ ev_name (cg_environment cfg) @ ''_oe_p'' @ dec_int (ca_partition args) @ ''.seq'')
       (lw_disk W) (lw_fates W) (lw_store_clock W)"

definition saved_cursor :: "string option \<Rightarrow> sequence_store \<Rightarrow> string \<times> u64" where
  "saved_cursor open_err st =
     (case load_cursor open_err st of (Inr _, session, seq) \<Rightarrow> (session, seq) | (Inl _, _, _) \<Rightarrow> ([], 0))"

definition live_login :: "ouch_cfg \<Rightarrow> string \<times> u64 \<Rightarrow> login_params" where
  "live_login oc saved =
     \<lparr>lp_username = ou_username oc, lp_password = ou_password oc,
      lp_requested_session = (if ou_session oc \<noteq> [] then ou_session oc else fst saved),
      lp_requested_sequence = (if ou_sequence oc \<noteq> 0 then ou_sequence oc else snd saved)\<rparr>"

definition live_hb_send_ns :: "ouch_cfg \<Rightarrow> u32" where
  "live_hb_send_ns oc = ou_heartbeat_ms oc * 1000000"

definition live_policy :: "ouch_cfg \<Rightarrow> reconnect_policy" where
  "live_policy oc = default_policy\<lparr>rp_deadline_ms := ou_cod_reconnect_deadline_ms oc\<rparr>"

definition live_control_init ::
  "cli_args \<Rightarrow> config \<Rightarrow> live_world \<Rightarrow> resolved_endpoint \<Rightarrow> resolved_endpoint \<Rightarrow> live_control" where
  "live_control_init args cfg W primary secondary =
     (let ep = (if ca_secondary args then secondary else primary);
          st = live_store args cfg W
      in \<lparr>lc_host_primary = re_host primary, lc_host_secondary = re_host secondary, lc_port = re_port ep,
          lc_on_secondary = ca_secondary args,
          lc_base_lp = live_login (cg_ouch cfg) (saved_cursor (lw_open_error W) st),
          lc_hb_send_ns = live_hb_send_ns (cg_ouch cfg), lc_handlers = app_handlers True,
          lc_store = st, lc_handled = 0, lc_policy = live_policy (cg_ouch cfg),
          lc_last_state = \<lparr>rc_started_ns = 0, rc_attempts = 0, rc_cod_risk = False\<rparr>,
          lc_net = lw_net W, lc_clock = lw_clock W\<rparr>)"

text \<open>Everything before the first connection; the first failure ends the program.\<close>

definition live_setup :: "cli_args \<Rightarrow> config \<Rightarrow> live_world \<Rightarrow> unit + live_control" where
  "live_setup args cfg W =
     (case (resolve_ouch_endpoint (cg_ouch cfg) (ca_partition args) False,
            resolve_ouch_endpoint (cg_ouch cfg) (ca_partition args) True) of
        (Inr primary, Inr secondary) \<Rightarrow>
          (case audit_start (audit_init (audit_directory cfg) (lw_wall W) (lw_audit_disk W)) of
             (Inl _, _) \<Rightarrow> Inl ()
           | (Inr _, _) \<Rightarrow> Inr (live_control_init args cfg W primary secondary))
      | _ \<Rightarrow> Inl ())"

section \<open>Live: resident mode\<close>

fun resident_loop :: "nat \<Rightarrow> ouch_session \<Rightarrow> (int \<times> ouch_session) option" where
  "resident_loop 0 s = Some (0, s)"
| "resident_loop (Suc n) s =
     (case poll_io s of
        None \<Rightarrow> None
      | Some (Inl _, s1) \<Rightarrow> Some (1, s1)
      | Some (Inr _, s1) \<Rightarrow> resident_loop n s1)"

text \<open>What ends every run with a session: the cursor, then the logout.\<close>

definition sign_off_at :: "ouch_session \<Rightarrow> sequence_store \<Rightarrow> ouch_session \<times> sequence_store" where
  "sign_off_at s st =
     (let st1 = snd (flush_cursor (ss_assigned_session s) (ss_next_inbound_seq s) st)
      in (snd (request_logout s), st1))"

definition sign_off :: "ouch_session \<Rightarrow> live_control \<Rightarrow> ouch_session \<times> sequence_store" where
  "sign_off s lc = sign_off_at s (lc_store (absorb s lc))"

definition run_resident :: "nat \<Rightarrow> ouch_session \<Rightarrow> live_control \<Rightarrow> (int \<times> ouch_session \<times> sequence_store) option" where
  "run_resident polls s lc =
     map_option (\<lambda>(code, s1). (code, sign_off s1 lc)) (resident_loop polls s)"

section \<open>Live: replay\<close>

text \<open>One runner lives through all scenarios; the exit code counts the files that failed.\<close>

definition fix_endpoint_missing :: "fix_cfg \<Rightarrow> string \<Rightarrow> bool" where
  "fix_endpoint_missing f protocol \<longleftrightarrow>
     fix_cfg.fx_host_primary f = [] \<or> protocol = ''fix_oe'' \<and> fx_oe_port f = 0 \<or> protocol = ''fix_rd'' \<and> fx_rd_port f = 0"

definition run_live_file ::
  "'n yaml_api \<Rightarrow> (string \<Rightarrow> string + 'n) \<Rightarrow> 'w fix_build option \<Rightarrow> fix_cfg \<Rightarrow> string \<Rightarrow> runner \<Rightarrow> (bool \<times> runner) option" where
  "run_live_file Y load_file fe f path r =
     (case load_scenario Y load_file path of
        Inl _ \<Rightarrow> Some (False, r)
      | Inr sc \<Rightarrow>
          (let protocol = scenario_protocol sc
           in if protocol \<in> {''fix_oe'', ''fix_rd''}
              then (case fe of
                      None \<Rightarrow> Some (False, r)
                    | Some E \<Rightarrow>
                        (if fix_endpoint_missing f protocol then Some (False, r)
                         else map_option (\<lambda>code. (code = 0, r)) (run_one_live_fix_scenario E f sc protocol)))
              else map_option (\<lambda>(results, r1). (verdict results = 0, r1)) (run_scenario sc r)))"

fun run_live_files ::
  "'n yaml_api \<Rightarrow> (string \<Rightarrow> string + 'n) \<Rightarrow> 'w fix_build option \<Rightarrow> fix_cfg \<Rightarrow> string list \<Rightarrow> runner \<Rightarrow> (nat \<times> runner) option" where
  "run_live_files Y load_file fe f [] r = Some (0, r)"
| "run_live_files Y load_file fe f (path # paths) r =
     do { (ok, r1) \<leftarrow> run_live_file Y load_file fe f path r;
          (n, r2) \<leftarrow> run_live_files Y load_file fe f paths r1;
          Some (if ok then n else n + 1, r2) }"

definition live_runner :: "config \<Rightarrow> live_world \<Rightarrow> ouch_session \<Rightarrow> live_control \<Rightarrow> runner" where
  "live_runner cfg W s lc =
     runner_init (client_at (fresh_desk (ucast (tc_orders_per_sec (cg_throttler cfg)))) s)
       (seed_cert_instruments cache_empty) (Some (live_transport lc)) (lw_wall W)"

text \<open>The session the last step left is signed off, over the store its transport holds.\<close>

definition replay_sign_off :: "runner \<Rightarrow> (ouch_session \<times> sequence_store) option" where
  "replay_sign_off r =
     do { tr \<leftarrow> rn_transport r;
          st \<leftarrow> tr_store tr (rn_session r);
          Some (sign_off_at (rn_session r) st) }"

definition run_replay ::
  "'n yaml_api \<Rightarrow> (string \<Rightarrow> string + 'n) \<Rightarrow> 'w fix_build option \<Rightarrow> fix_cfg \<Rightarrow> string list \<Rightarrow> runner
    \<Rightarrow> (int \<times> (ouch_session \<times> sequence_store) option) option" where
  "run_replay Y load_file fe f files r =
     do { (n, r1) \<leftarrow> run_live_files Y load_file fe f files r;
          Some (if n = 0 then 0 else 1, replay_sign_off r1) }"

section \<open>Live: the run\<close>

definition run_connected ::
  "'n yaml_api \<Rightarrow> (string \<Rightarrow> string + 'n) \<Rightarrow> 'w fix_build option \<Rightarrow> file_api \<Rightarrow> cli_args \<Rightarrow> config \<Rightarrow> live_world
    \<Rightarrow> ouch_session \<Rightarrow> live_control \<Rightarrow> int option" where
  "run_connected Y load_file fe F args cfg W s lc =
     (if ca_replay args = [] then map_option fst (run_resident (lw_polls W) s lc)
      else do { files \<leftarrow> collect_scenarios F (ca_replay args);
                if files = [] then Some 1
                else map_option fst (run_replay Y load_file fe (cg_fix cfg) files (live_runner cfg W s lc)) })"

definition run_live ::
  "'n yaml_api \<Rightarrow> (string \<Rightarrow> string + 'n) \<Rightarrow> 'w fix_build option \<Rightarrow> file_api \<Rightarrow> (string \<Rightarrow> config result option)
    \<Rightarrow> live_world \<Rightarrow> cli_args \<Rightarrow> int option" where
  "run_live Y load_file fe F load_cfg W args =
     (if ca_config args = [] then Some 1
      else if ca_replay args = [] \<and> ca_interactive args then Some 1
      else do { cfg_r \<leftarrow> load_cfg (ca_config args);
                case cfg_r of
                  Inl _ \<Rightarrow> Some 1
                | Inr cfg \<Rightarrow>
                    (case live_setup args cfg W of
                       Inl _ \<Rightarrow> Some 1
                     | Inr lc \<Rightarrow>
                         (case live_reconnect_and_login [] [] 0 lc of
                            Some (Inr _, Some s, lc1) \<Rightarrow> run_connected Y load_file fe F args cfg W s lc1
                          | Some (Inl _, _, _) \<Rightarrow> Some 1
                          | _ \<Rightarrow> None)) })"

definition colo_main ::
  "'n yaml_api \<Rightarrow> (string \<Rightarrow> string + 'n) \<Rightarrow> 'w fix_build option \<Rightarrow> file_api \<Rightarrow> (string \<Rightarrow> mock_world)
    \<Rightarrow> (string \<Rightarrow> config result option) \<Rightarrow> live_world \<Rightarrow> string list \<Rightarrow> int option" where
  "colo_main Y load_file fe F MW load_cfg W argv =
     (if argv = [] then Some 1
      else if \<exists>a \<in> set argv. a \<in> {''--version'', ''-h'', ''--help''} then Some 0
      else do { parsed \<leftarrow> parse_args argv cli_default;
                case parsed of
                  Inl _ \<Rightarrow> Some 1
                | Inr args \<Rightarrow>
                    (if ca_mock args then run_mock_replay Y load_file fe F MW args
                     else run_live Y load_file fe F load_cfg W args) })"

section \<open>The version\<close>

text \<open>The lines of \<open>print_version\<close>: a message, the size of its structure, and the size the text promises.\<close>

definition version_receipts :: "(string \<times> nat \<times> nat) list" where
  "version_receipts =
     [(''EnterOrder'', length (enc_EnterOrder zero_EnterOrder), 114),
      (''ReplaceOrder'', length (enc_ReplaceOrder zero_ReplaceOrder), 122),
      (''CancelOrder'', length (enc_CancelOrder zero_CancelOrder), 15),
      (''CancelByOrderId'', length (enc_CancelByOrderId zero_CancelByOrderId), 14),
      (''MassQuoteHeader'', length (enc_MassQuoteHeader zero_MassQuoteHeader), 50),
      (''QuoteEntry'', length (enc_QuoteEntry zero_QuoteEntry), 28),
      (''OrderAccepted'', length (enc_OrderAccepted zero_OrderAccepted), 137),
      (''OrderRejected'', length (enc_OrderRejected zero_OrderRejected), 27),
      (''OrderReplaced'', length (enc_OrderReplaced zero_OrderReplaced), 145),
      (''OrderCanceled'', length (enc_OrderCanceled zero_OrderCanceled), 37),
      (''OrderExecuted'', length (enc_OrderExecuted zero_OrderExecuted), 68),
      (''MassQuoteAck'', length (enc_MassQuoteAck zero_MassQuoteAck), 52),
      (''MassQuoteRejection'', length (enc_MassQuoteRejection zero_MassQuoteRejection), 31)]"

lemma version_receipts_agree: "list_all (\<lambda>(name, size, promised). size = promised) version_receipts"
  by (simp add: version_receipts_def eo.length_enc ro.length_enc co.length_enc cy.length_enc mh.length_enc qe.length_enc oa.length_enc oj.length_enc rep.length_enc oc.length_enc oe.length_enc mk.length_enc mr.length_enc)

end
