(* ===== verification/Bist_Colo_Laws.thy ===== *)
theory Bist_Colo_Laws
  imports Bist_Colo
begin

text \<open>What the program as a whole promises: its options, its exit codes, its restarts.\<close>

section \<open>Options\<close>

text \<open>A command line for given options.\<close>

definition cli_text :: "cli_args \<Rightarrow> string list" where
  "cli_text a =
     (if ca_config a = [] then [] else [''--config'', ca_config a])
     @ (if ca_mock a then [''--mock''] else []) @ (if ca_interactive a then [''--interactive''] else [])
     @ (if ca_secondary a then [''--secondary''] else []) @ [''--partition'', dec (nat (ca_partition a))]
     @ (if ca_replay a = [] then [] else [''--replay'', ca_replay a])"

lemma atoi_dec: "int n < 2 ^ 31 \<Longrightarrow> atoi (dec n) = Some (int n)"
proof -
  assume n: "int n < 2 ^ 31"
  have d: "list_all is_digit (dec n)" by (rule dec_digits)
  obtain c cs where c: "dec n = c # cs" by (cases "dec n") auto
  have "is_digit c" using d c by simp
  then have "atoi_value (dec n) = int (dec_val (takeWhile is_digit (dec n)))"
    using is_digit_not_space [of c] by (auto simp: atoi_value_def c)
  also have "takeWhile is_digit (dec n) = dec n" using d by (simp add: list_all_iff takeWhile_eq_all_conv)
  finally show ?thesis using n by (simp add: atoi_def)
qed

lemma parse_option [simp]:
  "parse_args (''--config'' # v # args) a = parse_args args (a\<lparr>ca_config := v\<rparr>)"
  "parse_args (''--replay'' # v # args) a = parse_args args (a\<lparr>ca_replay := v\<rparr>)"
  "parse_args (''--mock'' # args) a = parse_args args (a\<lparr>ca_mock := True\<rparr>)"
  "parse_args (''--interactive'' # args) a = parse_args args (a\<lparr>ca_interactive := True\<rparr>)"
  "parse_args (''--secondary'' # args) a = parse_args args (a\<lparr>ca_secondary := True\<rparr>)"
  "int n < 2 ^ 31 \<Longrightarrow> 0 < n \<Longrightarrow>
     parse_args (''--partition'' # dec n # args) a = parse_args args (a\<lparr>ca_partition := int n\<rparr>)"
  by (simp_all add: parse_args.simps(2) atoi_dec)

text \<open>
  Options written to a command line and parsed come back, for every partition an \<open>int\<close> holds.
\<close>

lemma options_roundtrip:
  assumes "1 \<le> ca_partition a" "ca_partition a < 2 ^ 31"
  shows "parse_args (cli_text a) cli_default = Some (Inr a)"
proof -
  have n: "int (nat (ca_partition a)) = ca_partition a" "0 < nat (ca_partition a)" using assms(1) by simp_all
  then have "int (nat (ca_partition a)) < 2 ^ 31" using assms(2) by simp
  with n show ?thesis
    by (cases a) (simp add: cli_text_def cli_default_def)
qed

section \<open>Certification\<close>

lemma count_failures_zero:
  "count_failures one fs = Some 0 \<longleftrightarrow> (\<forall>f \<in> set fs. one f = Some 0)"
  by (induction fs) (auto simp: bind_eq_Some_conv split: if_splits)

lemma verdict_zero: "verdict rs = 0 \<longleftrightarrow> (\<forall>r \<in> set rs. res_passed r)"
  by (simp add: verdict_def list_all_iff)

lemma run_steps_length: "run_steps t ss r = Some (rs, r1) \<Longrightarrow> length rs = length ss"
  by (induction t ss r arbitrary: rs r1 rule: run_steps.induct) (auto split: option.splits)

lemma fix_verdict_zero:
  "fix_verdict sc rr = Some 0 \<Longrightarrow> \<exists>r rs r1. rr = Inr r \<and> fx_run_scenario sc r = Some (rs, r1) \<and> (\<forall>x \<in> set rs. res_passed x)"
  by (auto simp: fix_verdict_def verdict_zero split: sum.splits)

text \<open>A scenario run with every step passed: over a session logged in at the mock gateway, or by the
  FIX client its protocol asks for.\<close>

definition ouch_clean :: "mock_world \<Rightarrow> scenario \<Rightarrow> bool" where
  "ouch_clean W sc \<longleftrightarrow>
     (\<exists>p q s m rs r. mw_port W = Inr p \<and> mw_port_secondary W = Inr q
        \<and> mock_reconnect_and_login [] [] 0 (mock_control_init p q (mw_net W)) = Some (Inr (), Some s, m)
        \<and> ss_state s = Active \<and> run_scenario sc (mock_runner W s m) = Some (rs, r)
        \<and> length rs = length (sc_steps sc) \<and> (\<forall>x \<in> set rs. res_passed x))"

definition fix_clean :: "'w fix_build option \<Rightarrow> scenario \<Rightarrow> bool" where
  "fix_clean fe sc \<longleftrightarrow>
     (\<exists>E cfg r rs r1. fe = Some E \<and> fix_runner_for E (scenario_protocol sc) cfg = Inr r
        \<and> fx_run_scenario sc r = Some (rs, r1) \<and> (\<forall>x \<in> set rs. res_passed x))"

lemma fix_success:
  assumes "run_one_fix_scenario fe sc (scenario_protocol sc) = Some 0"
  shows "fe = None \<or> fix_clean fe sc"
proof (cases fe)
  case (Some E)
  then obtain cfg where "fix_verdict sc (fix_runner_for E (scenario_protocol sc) cfg) = Some 0"
    using assms by (auto simp: run_one_fix_scenario_def split: sum.splits prod.splits if_splits)
  from fix_verdict_zero [OF this] show ?thesis unfolding fix_clean_def Some by blast
qed simp

lemma ouch_success:
  assumes "run_one_scenario Y load_file fe W path = Some 0" "load_scenario Y load_file path = Inr sc"
    "scenario_protocol sc \<notin> {''fix_oe'', ''fix_rd''}"
  shows "sc_mock_skip sc \<or> ouch_clean W sc"
proof -
  obtain p q s m where m: "mock_reconnect_and_login [] [] 0 (mock_control_init p q (mw_net W)) = Some (Inr (), Some s, m)"
    and ports: "mw_port W = Inr p" "mw_port_secondary W = Inr q"
    and run: "sc_mock_skip sc \<or> (\<exists>rs r1. run_scenario sc (mock_runner W s m) = Some (rs, r1) \<and> verdict rs = 0)"
    using assms by (auto simp: run_one_scenario_def split: if_splits option.splits sum.splits prod.splits)
  have "ss_state s = Active"
    using m drive_login_result
    by (fastforce simp: mock_reconnect_and_login_def mock_rebuild_def Let_def case_prod_beta split: sum.splits)
  moreover have "length rs = length (sc_steps sc)" if "run_scenario sc r = Some (rs, r1)" for rs r r1
    using run_steps_length that unfolding run_scenario_def by blast
  ultimately show ?thesis using m ports run unfolding ouch_clean_def verdict_zero by blast
qed

text \<open>
  C5: A mock replay that exits with success has certified what it found: there was at least one
  scenario, every one loaded, and each was marked as live-only, or was a FIX scenario of a build
  without FIX, or ran to its end with every step passed.
\<close>

theorem mock_replay_certifies:
  assumes "run_mock_replay Y load_file fe F W args = Some 0" "ca_replay args \<noteq> []"
  shows "\<exists>files. collect_scenarios F (ca_replay args) = Some files \<and> files \<noteq> []
    \<and> (\<forall>f \<in> set files. \<exists>sc. load_scenario Y load_file f = Inr sc
        \<and> (sc_mock_skip sc
           \<or> scenario_protocol sc \<in> {''fix_oe'', ''fix_rd''} \<and> (fe = None \<or> fix_clean fe sc)
           \<or> scenario_protocol sc \<notin> {''fix_oe'', ''fix_rd''} \<and> ouch_clean (W f) sc))"
proof -
  obtain files where files: "collect_scenarios F (ca_replay args) = Some files" "files \<noteq> []"
    "count_failures (\<lambda>f. run_one_scenario Y load_file fe (W f) f) files = Some 0"
    using assms by (auto simp: run_mock_replay_def bind_eq_Some_conv split: if_splits)
  have "\<exists>sc. load_scenario Y load_file f = Inr sc
        \<and> (sc_mock_skip sc
           \<or> scenario_protocol sc \<in> {''fix_oe'', ''fix_rd''} \<and> (fe = None \<or> fix_clean fe sc)
           \<or> scenario_protocol sc \<notin> {''fix_oe'', ''fix_rd''} \<and> ouch_clean (W f) sc)" if "f \<in> set files" for f
  proof -
    have ok: "run_one_scenario Y load_file fe (W f) f = Some 0"
      using files(3) that by (simp add: count_failures_zero)
    then obtain sc where sc: "load_scenario Y load_file f = Inr sc"
      by (auto simp: run_one_scenario_def split: sum.splits)
    have "scenario_protocol sc \<in> {''fix_oe'', ''fix_rd''} \<Longrightarrow> sc_mock_skip sc \<or> fe = None \<or> fix_clean fe sc"
      using ok sc fix_success [of fe sc] by (auto simp: run_one_scenario_def split: if_splits)
    with ouch_success [OF ok sc] sc show ?thesis by blast
  qed
  with files show ?thesis by blast
qed

section \<open>Gateways\<close>

lemma live_rebuild_dials:
  assumes "live_rebuild host password session sequence lc = Some (r, slot, lc')"
  shows "\<exists>n. nt_dialed (lc_net lc') = nt_dialed (lc_net lc) @ replicate n (host, lc_port lc)"
proof -
  obtain rc st w1 ck1 where dial: "connect_with_retry host (lc_port lc) (lc_policy lc) (lc_net lc) (lc_clock lc) = Some (rc, st, w1, ck1)"
    using assms by (auto simp: live_rebuild_def split: option.splits)
  then have "lc_net lc' = w1" using assms
    by (auto simp: live_rebuild_def Let_def absorb_def split: option.splits sum.splits prod.splits)
  with connect_with_retry_log [OF dial] show ?thesis by simp
qed

text \<open>
  Without a secondary host in the configuration, the drill that switches to the secondary gateway
  does not fail: it dials the primary again. The error the transport has for this case is never
  returned.
\<close>

lemma empty_secondary_dials_primary:
  assumes "live_setup args cfg W = Inr lc" "ou_host_secondary (cg_ouch cfg) = []" "ou_host_primary (cg_ouch cfg) \<noteq> []"
    "live_switch_to_secondary True session sequence slot lc = Some (r, slot', rebuilt, lc')"
  shows "rebuilt \<and> (\<exists>n. nt_dialed (lc_net lc') = nt_dialed (lc_net lc) @ replicate n (ou_host_primary (cg_ouch cfg), lc_port lc))"
proof -
  obtain p q where "resolve_ouch_endpoint (cg_ouch cfg) (ca_partition args) False = Inr p"
    "resolve_ouch_endpoint (cg_ouch cfg) (ca_partition args) True = Inr q" "lc = live_control_init args cfg W p q"
    using assms(1) by (auto simp: live_setup_def split: sum.splits prod.splits)
  then have host: "lc_host_secondary lc = ou_host_primary (cg_ouch cfg)"
    using assms(2) by (auto simp: resolve_ouch_endpoint_def live_control_init_def Let_def split: if_splits)
  let ?lc = "lc\<lparr>lc_on_secondary := True\<rparr>"
  have a: "lc_active_host ?lc = ou_host_primary (cg_ouch cfg)" using host by (simp add: lc_active_host_def)
  then have "rebuilt" "live_rebuild (lc_active_host ?lc) [] session sequence ?lc = Some (r, slot', lc')"
    using assms(3,4) by (auto simp: live_switch_to_secondary_def)
  then show ?thesis
    using live_rebuild_dials [of "lc_active_host ?lc" "[]" session sequence ?lc] a by auto
qed

section \<open>Restarts\<close>

text \<open>The file holds the number last saved, for a given session, and saves succeed.\<close>

definition cursor_of :: "string \<Rightarrow> sequence_store \<Rightarrow> bool" where
  "cursor_of session st \<longleftrightarrow> sq_fates st = []
     \<and> dk_file (sq_disk st) = Some (cursor_text session (sq_last_saved_seq st))"

lemma cursor_of_save: "sq_fates st = [] \<Longrightarrow> cursor_of session (snd (save session seq st))
    \<and> sq_last_saved_seq (snd (save session seq st)) = seq"
  by (simp add: cursor_of_def save_def next_fate_def write_tmp_def rename_tmp_def remember_saved_def Let_def case_prod_beta)

lemma cursor_of_flush:
  "cursor_of session st \<Longrightarrow> cursor_of session (snd (flush_cursor session seq st))
    \<and> sq_last_saved_seq (snd (flush_cursor session seq st)) = seq"
  using cursor_of_save [of st session seq] by (auto simp: flush_cursor_def cursor_of_def)

lemma cursor_of_due: "cursor_of session st \<Longrightarrow> cursor_of session (snd (save_if_due session seq d i st))"
  using cursor_of_save [of "st\<lparr>sq_clock := snd (read_clock (sq_clock st))\<rparr>" session seq]
  by (auto simp: save_if_due_def cursor_of_def Let_def case_prod_beta)

lemma cursor_of_persist:
  "cursor_of session st \<Longrightarrow> (\<And>b x n. ev = AuditRecv b x n \<Longrightarrow> x = session) \<Longrightarrow> cursor_of session (persist ev st)"
  using cursor_of_due by (cases "(ev, st)" rule: persist.cases) auto

lemma cursor_of_persist_all:
  "cursor_of session st \<Longrightarrow> (\<And>b x n. AuditRecv b x n \<in> set evs \<Longrightarrow> x = session) \<Longrightarrow> cursor_of session (persist_all evs st)"
proof (induction evs arbitrary: st)
  case (Cons ev evs)
  then show ?case using cursor_of_persist [of session st ev] by (auto simp: persist_all_def)
qed (simp add: persist_all_def)

text \<open>A login that succeeds saves the cursor of its session.\<close>

lemma fates_persist: "sq_fates st = [] \<Longrightarrow> sq_fates (persist ev st) = []"
proof (cases ev)
  case (AuditRecv b x n)
  assume "sq_fates st = []"
  then show ?thesis
    using cursor_of_save [of "st\<lparr>sq_clock := snd (read_clock (sq_clock st))\<rparr>" x n]
    by (auto simp: AuditRecv save_if_due_def cursor_of_def Let_def case_prod_beta)
qed simp_all

lemma fates_persist_all: "sq_fates st = [] \<Longrightarrow> sq_fates (persist_all evs st) = []"
  by (induction evs arbitrary: st) (simp_all add: persist_all_def fates_persist)

lemma live_login_saves_cursor:
  assumes "live_rebuild host password session sequence lc = Some (Inr (), Some s, lc1)" "sq_fates (lc_store lc) = []"
  shows "cursor_of (ss_assigned_session s) (lc_store lc1)"
proof -
  have "lc_store lc1 = snd (save (ss_assigned_session s) (ss_next_inbound_seq s) (persist_all (ss_events s) (lc_store lc)))"
    using assms(1) by (auto simp: live_rebuild_def Let_def absorb_def split: option.splits sum.splits prod.splits)
  then show ?thesis using cursor_of_save [OF fates_persist_all [OF assms(2)]] by simp
qed

text \<open>What a session is signed off with, the next run starts from.\<close>

lemma sign_off_resumes:
  assumes cursor: "cursor_of (ss_assigned_session s) st0"
    and name: "CHR '':'' \<notin> set (ss_assigned_session s)" "CHR 0x0A \<notin> set (ss_assigned_session s)"
    and again: "live_setup args cfg W = Inr lc2" "lw_open_error W = None"
      "ou_session (cg_ouch cfg) = []" "ou_sequence (cg_ouch cfg) = 0"
    and disk: "lw_disk W = sq_disk (snd (sign_off_at s st0))"
  shows "lc_base_lp lc2 =
    \<lparr>lp_username = ou_username (cg_ouch cfg), lp_password = ou_password (cg_ouch cfg),
     lp_requested_session = ss_assigned_session s, lp_requested_sequence = ss_next_inbound_seq s\<rparr>"
proof -
  have st: "dk_file (lw_disk W) = Some (cursor_text (ss_assigned_session s) (ss_next_inbound_seq s))"
    using cursor_of_flush [OF cursor, of "ss_next_inbound_seq s"] disk by (simp add: cursor_of_def sign_off_at_def)
  obtain p q where lc2: "lc2 = live_control_init args cfg W p q"
    using again(1) by (auto simp: live_setup_def split: sum.splits prod.splits)
  have "dk_file (sq_disk (live_store args cfg W)) = Some (cursor_text (ss_assigned_session s) (ss_next_inbound_seq s))"
    using st by (simp add: live_store_def store_init_def)
  from load_cursor_text [OF this name]
  show ?thesis using again(2-4) lc2
    by (simp add: live_control_init_def live_login_def saved_cursor_def Let_def)
qed

text \<open>
  C11: What a resident run leaves behind, the next run starts from. The last flush writes the session
  and the next number of the session that was signed off, and a later run whose configuration
  leaves both open puts exactly these into its login.
\<close>

theorem restart_resumes:
  assumes run: "resident_loop polls s = Some (result, s1)"
    and cursor: "cursor_of (ss_assigned_session s1) (lc_store lc)"
    and same: "\<And>b x n. AuditRecv b x n \<in> set (drop (lc_handled lc) (ss_events s1)) \<Longrightarrow> x = ss_assigned_session s1"
    and name: "CHR '':'' \<notin> set (ss_assigned_session s1)" "CHR 0x0A \<notin> set (ss_assigned_session s1)"
    and again: "live_setup args cfg W = Inr lc2" "lw_open_error W = None"
      "ou_session (cg_ouch cfg) = []" "ou_sequence (cg_ouch cfg) = 0"
  shows "\<exists>s2 st. run_resident polls s lc = Some (result, s2, st)
    \<and> (lw_disk W = sq_disk st \<longrightarrow> lc_base_lp lc2 =
        \<lparr>lp_username = ou_username (cg_ouch cfg), lp_password = ou_password (cg_ouch cfg),
         lp_requested_session = ss_assigned_session s1, lp_requested_sequence = ss_next_inbound_seq s1\<rparr>)"
proof -
  let ?st0 = "lc_store (absorb s1 lc)"
  have "cursor_of (ss_assigned_session s1) ?st0"
    using cursor_of_persist_all [OF cursor same] by (simp add: absorb_def)
  from sign_off_resumes [OF this name again]
  show ?thesis using run by (cases "sign_off_at s1 ?st0") (auto simp: run_resident_def sign_off_def)
qed

text \<open>The same at the end of a live replay, over the store the transport holds then.\<close>

lemma replay_resumes:
  assumes run: "run_live_files Y load_file fe f files r = Some (n, r1)"
    and live: "rn_transport r1 = Some (live_transport lc)"
    and cursor: "cursor_of (ss_assigned_session (rn_session r1)) (lc_store lc)"
    and same: "\<And>b x n. AuditRecv b x n \<in> set (drop (lc_handled lc) (ss_events (rn_session r1)))
      \<Longrightarrow> x = ss_assigned_session (rn_session r1)"
    and name: "CHR '':'' \<notin> set (ss_assigned_session (rn_session r1))" "CHR 0x0A \<notin> set (ss_assigned_session (rn_session r1))"
    and again: "live_setup args cfg W = Inr lc2" "lw_open_error W = None"
      "ou_session (cg_ouch cfg) = []" "ou_sequence (cg_ouch cfg) = 0"
  shows "\<exists>s2 st. run_replay Y load_file fe f files r = Some (if n = 0 then 0 else 1, Some (s2, st))
    \<and> (lw_disk W = sq_disk st \<longrightarrow> lc_base_lp lc2 =
        \<lparr>lp_username = ou_username (cg_ouch cfg), lp_password = ou_password (cg_ouch cfg),
         lp_requested_session = ss_assigned_session (rn_session r1),
         lp_requested_sequence = ss_next_inbound_seq (rn_session r1)\<rparr>)"
proof -
  let ?s = "rn_session r1" and ?st0 = "lc_store (absorb (rn_session r1) lc)"
  have "cursor_of (ss_assigned_session ?s) ?st0"
    using cursor_of_persist_all [OF cursor same] by (simp add: absorb_def)
  from sign_off_resumes [OF this name again]
  show ?thesis using run live by (cases "sign_off_at ?s ?st0") (auto simp: run_replay_def replay_sign_off_def)
qed

section \<open>Witnesses\<close>

definition opening_root :: yaml_node where
  "opening_root = YMap
     [(''name'', YText ''open''), (''steps'', YSeq [YMap [(''action'', YText ''trigger_opening_match'')]])]"

definition opening_step :: step where
  "opening_step = \<lparr>st_id = 0, st_action = ''trigger_opening_match'', st_args = NoArgs, st_expect = None\<rparr>"

lemma opening_scenario:
  "load_scenario sample_yaml (\<lambda>_. Inr opening_root) ''s.yaml''
     = Inr \<lparr>sc_name = ''open'', sc_description = [], sc_preconditions = Map.empty,
            sc_default_timeout_ms = 5000, sc_mock_skip = False, sc_steps = [opening_step],
            sc_source_path = ''s.yaml''\<rparr>"
  by (simp add: load_scenario_def sample_yaml_def opening_root_def text_at_def scalar_def value_at_def
      opt_as_def pairs_at_def text_pair_def parse_step_def parse_step_args_def opening_step_def Let_def)

definition accepting_world :: mock_world where
  "accepting_world =
     \<lparr>mw_port = Inr 5000, mw_port_secondary = Inr 5001,
      mw_net = \<lparr>nt_answers = [Inr [Connects (login_socket kLoginAccepted
          (bytes_of_string (''MOCKSESS01'' @ replicate (kSequenceLen - 1) CHR ''0'' @ ''1''))) \<lparr>ck_now = 1, ck_later = []\<rparr>]],
        nt_dialed = []\<rparr>,
      mw_eod = id, mw_wall = \<lparr>ck_now = 1, ck_later = []\<rparr>\<rparr>"

definition one_file :: file_api where
  "one_file = \<lparr>dir_is = \<lambda>_. Some False, dir_walk = \<lambda>_. None, fs_is_regular = \<lambda>p. Some (p = ''s.yaml'')\<rparr>"

lemma accepting_login:
  "\<exists>s m. mock_reconnect_and_login [] [] 0 (mock_control_init 5000 5001 (mw_net accepting_world)) = Some (Inr (), Some s, m)"
proof -
  let ?p = "bytes_of_string (''MOCKSESS01'' @ replicate (kSequenceLen - 1) CHR ''0'' @ ''1'')"
  let ?k = "login_socket kLoginAccepted ?p"
  let ?lp = "override_login mock_login [] [] 0"
  obtain s where "drive_login login_timeout_ns (session_init ?k (app_handlers False) ?lp kHeartbeatSendNs
      kHeartbeatTimeoutNs \<lparr>ck_now = 1, ck_later = []\<rparr>) = Some (Inr (), s)"
    using drive_login_packet [of ?k kLoginAccepted ?p kHeartbeatSendNs kHeartbeatTimeoutNs 1 login_timeout_ns
        _ Active "app_handlers False" ?lp, OF _ _ _ _ _ _ _ dispatch_mock_accept [OF refl]]
    by (auto simp: login_socket_def kHeartbeatSendNs_def kHeartbeatTimeoutNs_def login_timeout_ns_def kSequenceLen_def)
  then show ?thesis
    by (simp add: mock_reconnect_and_login_def mock_rebuild_def mock_control_init_def accepting_world_def
        socket_connect_def Let_def)
qed

lemma opening_passes:
  "\<exists>x r1. run_scenario \<lparr>sc_name = ''open'', sc_description = [], sc_preconditions = Map.empty,
      sc_default_timeout_ms = 5000, sc_mock_skip = False, sc_steps = [opening_step], sc_source_path = ''s.yaml''\<rparr> r
    = Some ([x], r1) \<and> res_passed x"
  by (simp add: run_scenario_def run_step_def run_action_def check_expectation_def opening_step_def outcome_def
      Let_def case_prod_beta)

theorem mock_replay_certifies_witness:
  "\<exists>sc. load_scenario sample_yaml (\<lambda>_. Inr opening_root) ''s.yaml'' = Inr sc \<and> ouch_clean accepting_world sc"
proof -
  obtain s m where login: "mock_reconnect_and_login [] [] 0 (mock_control_init 5000 5001 (mw_net accepting_world)) = Some (Inr (), Some s, m)"
    using accepting_login by blast
  obtain x r1 where run: "run_scenario \<lparr>sc_name = ''open'', sc_description = [], sc_preconditions = Map.empty,
      sc_default_timeout_ms = 5000, sc_mock_skip = False, sc_steps = [opening_step], sc_source_path = ''s.yaml''\<rparr>
      (mock_runner accepting_world s m) = Some ([x], r1)" "res_passed x"
    using opening_passes by blast
  have ports: "mw_port accepting_world = Inr 5000" "mw_port_secondary accepting_world = Inr 5001"
    by (simp_all add: accepting_world_def)
  have one: "run_one_scenario sample_yaml (\<lambda>_. Inr opening_root) (None :: unit fix_build option) accepting_world ''s.yaml'' = Some 0"
    using login run ports
    by (simp add: run_one_scenario_def opening_scenario scenario_protocol_def verdict_def)
  have files: "collect_scenarios one_file ''s.yaml'' = Some [''s.yaml'']"
    by (simp add: collect_scenarios_def one_file_def)
  let ?args = "cli_default\<lparr>ca_replay := ''s.yaml''\<rparr>"
  have "run_mock_replay sample_yaml (\<lambda>_. Inr opening_root) (None :: unit fix_build option) one_file
      (\<lambda>_. accepting_world) ?args = Some 0"
    by (simp add: run_mock_replay_def files one)
  from mock_replay_certifies [OF this] files show ?thesis
    by (auto simp: opening_scenario scenario_protocol_def)
qed

definition live_sample_world :: "disk \<Rightarrow> live_world" where
  "live_sample_world d =
     \<lparr>lw_net = \<lparr>nt_answers = [], nt_dialed = []\<rparr>, lw_clock = \<lparr>ck_now = 0, ck_later = [40000000000]\<rparr>,
      lw_wall = \<lparr>ck_now = 0, ck_later = []\<rparr>, lw_disk = d, lw_fates = [], lw_store_clock = \<lparr>ck_now = 1, ck_later = []\<rparr>,
      lw_open_error = None, lw_audit_disk = healthy_disk, lw_polls = 0\<rparr>"

definition live_sample_config :: config where
  "live_sample_config = config_default\<lparr>cg_ouch := ouch_cfg_default\<lparr>ou_host_primary := ''gw1'', ou_ports := [5000]\<rparr>\<rparr>"

lemma live_sample_setup:
  "live_setup cli_default live_sample_config (live_sample_world d) = Inr
     (live_control_init cli_default live_sample_config (live_sample_world d)
        \<lparr>re_host = ''gw1'', re_port = 5000\<rparr> \<lparr>re_host = ''gw1'', re_port = 5000\<rparr>)"
proof -
  obtain a1 where "audit_start (audit_init (audit_directory live_sample_config) (lw_wall (live_sample_world d)) healthy_disk) = (Inr (), a1)"
    using open_for_today_ok [of "audit_init (audit_directory live_sample_config) (lw_wall (live_sample_world d)) healthy_disk"]
    by (auto simp: audit_start_def audit_init_def disk_serves_def)
  then show ?thesis
    by (simp add: live_setup_def resolve_ouch_endpoint_def live_sample_config_def ouch_cfg_default_def cli_default_def
        live_sample_world_def)
qed

definition signed_off :: ouch_session where
  "signed_off = sample_session\<lparr>ss_assigned_session := ''S1'', ss_next_inbound_seq := 42, ss_events := []\<rparr>"

definition signing_control :: live_control where
  "signing_control = live_sample []\<lparr>lc_store := (store_init ''s.seq'' \<lparr>dk_file = Some (cursor_text ''S1'' 7), dk_tmp = None\<rparr> []
     \<lparr>ck_now = 1, ck_later = []\<rparr>)\<lparr>sq_last_saved_seq := 7\<rparr>\<rparr>"

theorem restart_resumes_witness:
  "\<exists>s2 st lc2. run_resident 0 signed_off signing_control = Some (0, s2, st)
    \<and> live_setup cli_default live_sample_config (live_sample_world (sq_disk st)) = Inr lc2
    \<and> lp_requested_session (lc_base_lp lc2) = ''S1'' \<and> lp_requested_sequence (lc_base_lp lc2) = 42"
proof -
  let ?W = "live_sample_world (sq_disk (snd (snd (the (run_resident 0 signed_off signing_control)))))"
  have cursor: "cursor_of (ss_assigned_session signed_off) (lc_store signing_control)"
    by (simp add: cursor_of_def signed_off_def signing_control_def store_init_def)
  have W: "lw_open_error ?W = None" "ou_session (cg_ouch live_sample_config) = []" "ou_sequence (cg_ouch live_sample_config) = 0"
    "lw_disk ?W = sq_disk (snd (snd (the (run_resident 0 signed_off signing_control))))"
    by (simp_all add: live_sample_world_def live_sample_config_def ouch_cfg_default_def)
  have s: "resident_loop 0 signed_off = Some (0, signed_off)" "CHR '':'' \<notin> set (ss_assigned_session signed_off)"
    "CHR 0x0A \<notin> set (ss_assigned_session signed_off)" "ss_events signed_off = []"
    by (simp_all add: signed_off_def)
  show ?thesis
    using restart_resumes [OF s(1) cursor _ s(2,3) live_sample_setup W(1-3)] s(4) W(4)
    by (auto simp: live_sample_setup signed_off_def)
qed

end
