(* ===== verification/Preflight.thy ===== *)
theory Preflight
  imports Bist_Colo_Laws
begin

text \<open>
  \<open>apps/tools/preflight.cpp\<close>: the check before the service is started. What the file system answers
  for a path and what the network answers to the probes is a record; terminal output is left out,
  the issues found are kept. \<open>None\<close> is an exception that ends the program.
\<close>

section \<open>Checks\<close>

record preflight_issue =
  pi_fatal :: bool
  pi_detail :: string

text \<open>The error text of \<open>create_directories\<close>, whether \<open>fopen\<close> for writing works, whether a path exists
  (\<open>exists\<close> may throw), and the network.\<close>

record preflight_world =
  pw_mkdir :: "string \<Rightarrow> string option"
  pw_fopen :: "string \<Rightarrow> bool"
  pw_exists :: "string \<Rightarrow> bool option"
  pw_net :: net

definition preflight_emit :: "bool \<Rightarrow> string \<Rightarrow> preflight_issue list \<Rightarrow> preflight_issue list" where
  "preflight_emit fatal why out = out @ [\<lparr>pi_fatal = fatal, pi_detail = why\<rparr>]"

definition check_credential :: "string \<Rightarrow> string \<Rightarrow> bool \<Rightarrow> preflight_issue list \<Rightarrow> preflight_issue list" where
  "check_credential name val fatal out = (if val = [] then preflight_emit fatal (name @ '' is empty'') out else out)"

definition check_writable ::
  "preflight_world \<Rightarrow> string \<Rightarrow> string \<Rightarrow> preflight_issue list \<Rightarrow> preflight_issue list" where
  "check_writable P dir purpose out =
     (case pw_mkdir P dir of
        Some e \<Rightarrow> preflight_emit True (purpose @ '' dir '' @ dir @ '' not creatable: '' @ e) out
      | None \<Rightarrow>
          (if \<not> pw_fopen P (path_join dir ''.preflight.tmp'')
           then preflight_emit True (purpose @ '' dir '' @ dir @ '' not writable'') out else out))"

definition check_file ::
  "preflight_world \<Rightarrow> string \<Rightarrow> string \<Rightarrow> preflight_issue list \<Rightarrow> preflight_issue list option" where
  "check_file P p purpose out =
     (if p = [] then Some (preflight_emit True (purpose @ '': path is empty'') out)
      else map_option (\<lambda>there. if there then out else preflight_emit True (purpose @ '' missing: '' @ p) out)
        (pw_exists P p))"

definition check_tcp ::
  "string \<Rightarrow> u16 \<Rightarrow> string \<Rightarrow> bool \<Rightarrow> preflight_issue list \<times> net \<Rightarrow> preflight_issue list \<times> net" where
  "check_tcp host port label fatal = (\<lambda>(out, w).
     if host = [] \<or> port = 0 then (preflight_emit fatal (label @ '': host/port not configured'') out, w)
     else case socket_connect host port w of
       (Inr _, w1) \<Rightarrow> (out, w1)
     | (Inl e, w1) \<Rightarrow>
         (preflight_emit fatal (label @ '': '' @ host @ '':'' @ dec (unat port) @ '' connect failed: '' @ detail e) out, w1))"

section \<open>The parts of main\<close>

record preflight_args =
  pa_config :: string
  pa_secondary :: bool
  pa_fix :: bool

datatype preflight_parse = Usage | Unknown string | Parsed preflight_args

function parse_preflight :: "string list \<Rightarrow> preflight_args \<Rightarrow> preflight_parse" where
  "parse_preflight [] a = Parsed a"
| "parse_preflight (arg # args) a =
     (if arg = ''--config'' \<and> args \<noteq> [] then parse_preflight (tl args) (a\<lparr>pa_config := hd args\<rparr>)
      else if arg = ''--no-secondary'' then parse_preflight args (a\<lparr>pa_secondary := False\<rparr>)
      else if arg = ''--no-fix'' then parse_preflight args (a\<lparr>pa_fix := False\<rparr>)
      else if arg \<in> {''-h'', ''--help''} then Usage
      else Unknown arg)"
  by pat_completeness auto
termination
  by (relation "measure (\<lambda>(args, a). length args)") auto

declare parse_preflight.simps(2) [simp del]

definition preflight_credentials :: "bool \<Rightarrow> config \<Rightarrow> preflight_issue list \<Rightarrow> preflight_issue list" where
  "preflight_credentials with_fix cfg out =
     (let oc = cg_ouch cfg; f = cg_fix cfg;
          out1 = check_credential ''ouch.username'' (ou_username oc) True out;
          out2 = check_credential ''ouch.password'' (ou_password oc) True out1;
          out3 = check_credential ''ouch.host_primary'' (ou_host_primary oc) True out2;
          out4 = (if ou_ports oc = [] then preflight_emit True ''ouch.ports list is empty'' out3 else out3)
      in if \<not> with_fix then out4
         else let out5 = (if fix_cfg.fx_host_primary f = []
                          then preflight_emit False ''fix.host_primary empty (FIX cert disabled)'' out4 else out4);
                  out6 = (if fx_oe_port f = 0 \<and> fx_rd_port f = 0
                          then preflight_emit False ''fix.{oe,rd}_port both zero (FIX cert disabled)'' out5 else out5)
              in check_credential ''fix.password.current'' (fw_current (fx_password f)) (fix_cfg.fx_host_primary f \<noteq> []) out6)"

definition log_directory :: "config \<Rightarrow> string" where
  "log_directory cfg = (if lg_directory (cg_logging cfg) = [] then ''log'' else lg_directory (cg_logging cfg))"

definition preflight_directories :: "preflight_world \<Rightarrow> config \<Rightarrow> preflight_issue list \<Rightarrow> preflight_issue list" where
  "preflight_directories P cfg out =
     check_writable P (log_directory cfg) ''log''
       (check_writable P ''state'' ''state'' (check_writable P (audit_directory cfg) ''audit'' out))"

definition preflight_dictionaries ::
  "bool \<Rightarrow> preflight_world \<Rightarrow> config \<Rightarrow> preflight_issue list \<Rightarrow> preflight_issue list option" where
  "preflight_dictionaries with_fix P cfg out =
     (let f = cg_fix cfg
      in if with_fix \<and> fix_cfg.fx_host_primary f \<noteq> []
         then do { out1 \<leftarrow> (if fx_data_dictionary f \<noteq> []
                            then check_file P (fx_data_dictionary f) ''fix.data_dictionary'' out else Some out);
                   if fx_transport_dictionary f \<noteq> []
                   then check_file P (fx_transport_dictionary f) ''fix.transport_dictionary'' out1 else Some out1 }
         else Some out)"

definition preflight_probes ::
  "bool \<Rightarrow> bool \<Rightarrow> config \<Rightarrow> preflight_issue list \<times> net \<Rightarrow> preflight_issue list \<times> net" where
  "preflight_probes with_secondary with_fix cfg s =
     (let oc = cg_ouch cfg; f = cg_fix cfg;
          s1 = (if ou_host_primary oc \<noteq> [] \<and> ou_ports oc \<noteq> []
                then check_tcp (ou_host_primary oc) (hd (ou_ports oc)) ''ouch.primary[1]'' True s else s);
          s2 = (if with_secondary \<and> ou_host_secondary oc \<noteq> [] \<and> ou_ports oc \<noteq> []
                then check_tcp (ou_host_secondary oc) (hd (ou_ports oc)) ''ouch.secondary[1]'' False s1 else s1)
      in if with_fix \<and> fix_cfg.fx_host_primary f \<noteq> []
         then let h = fix_cfg.fx_host_primary f;
                  s3 = (if fx_oe_port f \<noteq> 0 then check_tcp h (fx_oe_port f) ''fix.oe'' True s2 else s2);
                  s4 = (if fx_rd_port f \<noteq> 0 then check_tcp h (fx_rd_port f) ''fix.rd'' True s3 else s3)
              in if fx_dc_port f \<noteq> 0 then check_tcp h (fx_dc_port f) ''fix.dc'' False s4 else s4
         else s2)"

definition preflight_checks ::
  "preflight_args \<Rightarrow> preflight_world \<Rightarrow> config \<Rightarrow> (preflight_issue list \<times> net) option" where
  "preflight_checks a P cfg =
     map_option (\<lambda>out. preflight_probes (pa_secondary a) (pa_fix a) cfg (out, pw_net P))
       (preflight_dictionaries (pa_fix a) P cfg
         (preflight_directories P cfg (preflight_credentials (pa_fix a) cfg [])))"

definition preflight_code :: "preflight_issue list \<Rightarrow> int" where
  "preflight_code out = (if out = [] then 0 else if \<exists>i \<in> set out. pi_fatal i then 2 else 0)"

definition preflight_main ::
  "(string \<Rightarrow> config result option) \<Rightarrow> preflight_world \<Rightarrow> string list \<Rightarrow> int option" where
  "preflight_main load_cfg P argv =
     (case parse_preflight argv \<lparr>pa_config = [], pa_secondary = True, pa_fix = True\<rparr> of
        Usage \<Rightarrow> Some 0
      | Unknown _ \<Rightarrow> Some 1
      | Parsed a \<Rightarrow>
          (if pa_config a = [] then Some 1
           else do { cfg_r \<leftarrow> load_cfg (pa_config a);
                     case cfg_r of
                       Inl _ \<Rightarrow> Some 1
                     | Inr cfg \<Rightarrow> map_option (preflight_code \<circ> fst) (preflight_checks a P cfg) }))"

section \<open>What makes it pass\<close>

definition clear :: "preflight_issue list \<Rightarrow> bool" where
  "clear out \<longleftrightarrow> (\<forall>i \<in> set out. \<not> pi_fatal i)"

lemma clear_emit [simp]: "clear (preflight_emit fatal why out) \<longleftrightarrow> \<not> fatal \<and> clear out"
  by (auto simp: clear_def preflight_emit_def)

lemma clear_nil [simp]: "clear []"
  by (simp add: clear_def)

lemma code_clear: "preflight_code out = 0 \<longleftrightarrow> clear out"
  by (auto simp: preflight_code_def clear_def)

lemma clear_credential [simp]: "clear (check_credential name val fatal out) \<longleftrightarrow> (fatal \<longrightarrow> val \<noteq> []) \<and> clear out"
  by (auto simp: check_credential_def)

definition writable :: "preflight_world \<Rightarrow> string \<Rightarrow> bool" where
  "writable P dir \<longleftrightarrow> pw_mkdir P dir = None \<and> pw_fopen P (path_join dir ''.preflight.tmp'')"

lemma clear_writable [simp]: "clear (check_writable P dir purpose out) \<longleftrightarrow> writable P dir \<and> clear out"
  by (auto simp: check_writable_def writable_def split: option.split)

definition readable_if_set :: "preflight_world \<Rightarrow> string \<Rightarrow> bool" where
  "readable_if_set P p \<longleftrightarrow> (p = [] \<or> pw_exists P p = Some True)"

lemma clear_file:
  "check_file P p purpose out = Some out' \<Longrightarrow> p \<noteq> [] \<Longrightarrow> clear out' \<longleftrightarrow> readable_if_set P p \<and> clear out"
  by (auto simp: check_file_def readable_if_set_def split: if_splits)

text \<open>The probes as a list, with what each finds; an endpoint without port is not dialled.\<close>

type_synonym probe = "string \<times> u16 \<times> bool"

fun probe_all :: "probe list \<Rightarrow> net \<Rightarrow> (bool \<times> bool) list \<times> net" where
  "probe_all [] w = ([], w)"
| "probe_all ((host, port, fatal) # ps) w =
     (if host = [] \<or> port = 0 then (let (rs, w1) = probe_all ps w in ((fatal, False) # rs, w1))
      else let (r, w1) = socket_connect host port w; (rs, w2) = probe_all ps w1
           in ((fatal, result_ok r) # rs, w2))"

definition probe_list :: "bool \<Rightarrow> bool \<Rightarrow> config \<Rightarrow> probe list" where
  "probe_list with_secondary with_fix cfg =
     (let oc = cg_ouch cfg; f = cg_fix cfg; h = fix_cfg.fx_host_primary f
      in (if ou_host_primary oc \<noteq> [] \<and> ou_ports oc \<noteq> [] then [(ou_host_primary oc, hd (ou_ports oc), True)] else [])
       @ (if with_secondary \<and> ou_host_secondary oc \<noteq> [] \<and> ou_ports oc \<noteq> []
          then [(ou_host_secondary oc, hd (ou_ports oc), False)] else [])
       @ (if with_fix \<and> h \<noteq> []
          then filter (\<lambda>(_, port, _). port \<noteq> 0) [(h, fx_oe_port f, True), (h, fx_rd_port f, True), (h, fx_dc_port f, False)]
          else []))"

definition required_reached :: "probe list \<Rightarrow> net \<Rightarrow> bool" where
  "required_reached ps w \<longleftrightarrow> (\<forall>(fatal, ok) \<in> set (fst (probe_all ps w)). fatal \<longrightarrow> ok)"

lemma required_step:
  "clear (fst (check_tcp host port label fatal (out, w))) \<and> required_reached ps (snd (check_tcp host port label fatal (out, w)))
    \<longleftrightarrow> clear out \<and> required_reached ((host, port, fatal) # ps) w"
  by (auto simp: check_tcp_def required_reached_def result_ok_def case_prod_beta Let_def split: sum.split)

lemma clear_tcp_last:
  "clear (fst (check_tcp host port label fatal (out, w))) \<longleftrightarrow> clear out \<and> required_reached [(host, port, fatal)] w"
  using required_step [of host port label fatal out w "[]"] by (simp add: required_reached_def)

lemma required_nil [simp]: "required_reached [] w"
  by (simp add: required_reached_def)

lemma clear_probes:
  "clear (fst (preflight_probes with_secondary with_fix cfg (out, w)))
    \<longleftrightarrow> clear out \<and> required_reached (probe_list with_secondary with_fix cfg) w"
proof -
  define go where "go = (\<lambda>(c :: bool) (p :: probe) label s. if c then check_tcp (fst p) (fst (snd p)) label (snd (snd p)) s else s)"
  have step: "clear (fst (go c p label s)) \<and> required_reached ps (snd (go c p label s))
      \<longleftrightarrow> clear (fst s) \<and> required_reached ((if c then [p] else []) @ ps) (snd s)" for c p label s ps
    using required_step [of "fst p" "fst (snd p)" label "snd (snd p)" "fst s" "snd s" ps] by (simp add: go_def)
  let ?oc = "cg_ouch cfg" and ?f = "cg_fix cfg"
  let ?h = "fix_cfg.fx_host_primary ?f"
  let ?go_a = "go (ou_host_primary ?oc \<noteq> [] \<and> ou_ports ?oc \<noteq> []) (ou_host_primary ?oc, hd (ou_ports ?oc), True) ''ouch.primary[1]''"
    and ?go_b = "go (with_secondary \<and> ou_host_secondary ?oc \<noteq> [] \<and> ou_ports ?oc \<noteq> []) (ou_host_secondary ?oc, hd (ou_ports ?oc), False) ''ouch.secondary[1]''"
    and ?go_c = "go ((with_fix \<and> ?h \<noteq> []) \<and> fx_oe_port ?f \<noteq> 0) (?h, fx_oe_port ?f, True) ''fix.oe''"
    and ?go_d = "go ((with_fix \<and> ?h \<noteq> []) \<and> fx_rd_port ?f \<noteq> 0) (?h, fx_rd_port ?f, True) ''fix.rd''"
    and ?go_e = "go ((with_fix \<and> ?h \<noteq> []) \<and> fx_dc_port ?f \<noteq> 0) (?h, fx_dc_port ?f, False) ''fix.dc''"
  have all: "preflight_probes with_secondary with_fix cfg (out, w) = ?go_e (?go_d (?go_c (?go_b (?go_a (out, w)))))"
    unfolding preflight_probes_def go_def Let_def fst_conv snd_conv
    by (cases "with_fix \<and> ?h \<noteq> []") (simp_all only: simp_thms if_True if_False)
  have ps: "probe_list with_secondary with_fix cfg =
      (if ou_host_primary ?oc \<noteq> [] \<and> ou_ports ?oc \<noteq> [] then [(ou_host_primary ?oc, hd (ou_ports ?oc), True)] else [])
      @ (if with_secondary \<and> ou_host_secondary ?oc \<noteq> [] \<and> ou_ports ?oc \<noteq> [] then [(ou_host_secondary ?oc, hd (ou_ports ?oc), False)] else [])
      @ (if (with_fix \<and> ?h \<noteq> []) \<and> fx_oe_port ?f \<noteq> 0 then [(?h, fx_oe_port ?f, True)] else [])
      @ (if (with_fix \<and> ?h \<noteq> []) \<and> fx_rd_port ?f \<noteq> 0 then [(?h, fx_rd_port ?f, True)] else [])
      @ (if (with_fix \<and> ?h \<noteq> []) \<and> fx_dc_port ?f \<noteq> 0 then [(?h, fx_dc_port ?f, False)] else []) @ []"
    unfolding probe_list_def Let_def
    by (intro arg_cong2 [where f = "(@)"] refl, cases "with_fix \<and> ?h \<noteq> []") simp_all
  have "clear (fst (preflight_probes with_secondary with_fix cfg (out, w)))
      \<longleftrightarrow> clear (fst (preflight_probes with_secondary with_fix cfg (out, w)))
        \<and> required_reached [] (snd (preflight_probes with_secondary with_fix cfg (out, w)))"
    by simp
  also have "\<dots> \<longleftrightarrow> clear out \<and> required_reached (probe_list with_secondary with_fix cfg) w"
    unfolding all step ps by simp
  finally show ?thesis .
qed


lemma clear_credentials [simp]:
  "clear (preflight_credentials with_fix cfg out) \<longleftrightarrow> clear out \<and> ou_username (cg_ouch cfg) \<noteq> []
     \<and> ou_password (cg_ouch cfg) \<noteq> [] \<and> ou_host_primary (cg_ouch cfg) \<noteq> [] \<and> ou_ports (cg_ouch cfg) \<noteq> []
     \<and> (with_fix \<and> fix_cfg.fx_host_primary (cg_fix cfg) \<noteq> [] \<longrightarrow> fw_current (fx_password (cg_fix cfg)) \<noteq> [])"
  by (auto simp: preflight_credentials_def Let_def)

lemma clear_directories [simp]:
  "clear (preflight_directories P cfg out) \<longleftrightarrow> clear out \<and> writable P (audit_directory cfg) \<and> writable P ''state''
     \<and> writable P (log_directory cfg)"
  by (auto simp: preflight_directories_def)

lemma clear_dictionaries:
  assumes "preflight_dictionaries with_fix P cfg out = Some out'"
  shows "clear out' \<longleftrightarrow> clear out \<and> (with_fix \<and> fix_cfg.fx_host_primary (cg_fix cfg) \<noteq> [] \<longrightarrow>
    readable_if_set P (fx_data_dictionary (cg_fix cfg)) \<and> readable_if_set P (fx_transport_dictionary (cg_fix cfg)))"
proof (cases "with_fix \<and> fix_cfg.fx_host_primary (cg_fix cfg) \<noteq> []")
  case True
  let ?f = "cg_fix cfg"
  obtain out1 where one: "(if fx_data_dictionary ?f \<noteq> []
      then check_file P (fx_data_dictionary ?f) ''fix.data_dictionary'' out else Some out) = Some out1"
    and two: "(if fx_transport_dictionary ?f \<noteq> []
      then check_file P (fx_transport_dictionary ?f) ''fix.transport_dictionary'' out1 else Some out1) = Some out'"
    using assms True by (auto simp: preflight_dictionaries_def Let_def bind_eq_Some_conv split del: if_split)
  have set_or: "readable_if_set P []" by (simp add: readable_if_set_def)
  have "clear out1 \<longleftrightarrow> readable_if_set P (fx_data_dictionary ?f) \<and> clear out"
    using one clear_file set_or by (metis option.inject)
  moreover have "clear out' \<longleftrightarrow> readable_if_set P (fx_transport_dictionary ?f) \<and> clear out1"
    using two clear_file set_or by (metis option.inject)
  ultimately show ?thesis using True by blast
next
  case False
  then show ?thesis using assms by (auto simp: preflight_dictionaries_def)
qed

section \<open>Properties\<close>

text \<open>
  The go or no-go of the check, exactly: it reports ready when the OUCH credentials, host and port
  list are there, the FIX password with a FIX host, the three directories are writable, configured
  dictionaries exist, and every required endpoint accepts the connection. Whatever else it finds is
  a warning.
\<close>

lemma preflight_ready_iff:
  assumes "preflight_checks a P cfg = Some (issues, w')"
  shows "preflight_code issues = 0 \<longleftrightarrow>
      ou_username (cg_ouch cfg) \<noteq> [] \<and> ou_password (cg_ouch cfg) \<noteq> []
    \<and> ou_host_primary (cg_ouch cfg) \<noteq> [] \<and> ou_ports (cg_ouch cfg) \<noteq> []
    \<and> writable P (audit_directory cfg) \<and> writable P ''state'' \<and> writable P (log_directory cfg)
    \<and> (pa_fix a \<and> fix_cfg.fx_host_primary (cg_fix cfg) \<noteq> [] \<longrightarrow>
         fw_current (fx_password (cg_fix cfg)) \<noteq> []
         \<and> readable_if_set P (fx_data_dictionary (cg_fix cfg)) \<and> readable_if_set P (fx_transport_dictionary (cg_fix cfg)))
    \<and> required_reached (probe_list (pa_secondary a) (pa_fix a) cfg) (pw_net P)"
proof -
  obtain out where out: "preflight_dictionaries (pa_fix a) P cfg
      (preflight_directories P cfg (preflight_credentials (pa_fix a) cfg [])) = Some out"
    and issues: "issues = fst (preflight_probes (pa_secondary a) (pa_fix a) cfg (out, pw_net P))"
    using assms by (auto simp: preflight_checks_def)
  show ?thesis unfolding code_clear issues clear_probes clear_dictionaries [OF out] by auto
qed

text \<open>
  C28: A passed check and the start it clears: with the configuration the check has read, the live run of
  partition 1 gets to its first connection, with host, port and credentials all there, once the
  audit file can be opened. Every other partition depends on ports the check never looked at: one
  beyond the list still refuses to start.
\<close>

theorem preflight_clears_the_start:
  assumes "preflight_main load_cfg P [''--config'', path] = Some 0" "path \<noteq> []"
    and audit: "\<And>dir. result_ok (fst (audit_start (audit_init dir (lw_wall W) (lw_audit_disk W))))"
  shows "\<exists>cfg. load_cfg path = Some (Inr cfg)
    \<and> (\<exists>lc. live_setup (cli_default\<lparr>ca_config := path\<rparr>) cfg W = Inr lc \<and> lc_active_host lc = ou_host_primary (cg_ouch cfg)
         \<and> lc_active_host lc \<noteq> [] \<and> lc_port lc = hd (ou_ports (cg_ouch cfg)) \<and> lc_port lc \<noteq> 0
         \<and> lp_username (lc_base_lp lc) \<noteq> [] \<and> lp_password (lc_base_lp lc) \<noteq> [])
    \<and> (\<forall>p > int (length (ou_ports (cg_ouch cfg))).
         live_setup (cli_default\<lparr>ca_config := path, ca_partition := p\<rparr>) cfg W = Inl ())"
proof -
  let ?a = "\<lparr>pa_config = path, pa_secondary = True, pa_fix = True\<rparr>"
  obtain y where y: "load_cfg path = Some y"
    "(case y of Inl _ \<Rightarrow> Some 1 | Inr cfg \<Rightarrow> map_option (preflight_code \<circ> fst) (preflight_checks ?a P cfg)) = Some 0"
    using assms(1,2) by (auto simp: preflight_main_def parse_preflight.simps bind_eq_Some_conv)
  then obtain cfg issues w' where cfg: "load_cfg path = Some (Inr cfg)"
    and checks: "preflight_checks ?a P cfg = Some (issues, w')" "clear issues"
    by (cases y) (auto simp: code_clear)
  obtain out where out: "preflight_dictionaries True P cfg
      (preflight_directories P cfg (preflight_credentials True cfg [])) = Some out"
    and issues: "issues = fst (preflight_probes True True cfg (out, pw_net P))"
    using checks(1) by (auto simp: preflight_checks_def)
  have need: "ou_username (cg_ouch cfg) \<noteq> []" "ou_password (cg_ouch cfg) \<noteq> []"
    "ou_host_primary (cg_ouch cfg) \<noteq> []" "ou_ports (cg_ouch cfg) \<noteq> []"
    "required_reached (probe_list True True cfg) (pw_net P)"
    using checks(2) unfolding issues clear_probes clear_dictionaries [OF out] by auto
  then have "hd (ou_ports (cg_ouch cfg)) \<noteq> 0"
    by (auto simp: probe_list_def required_reached_def Let_def case_prod_beta)
  moreover obtain u a1 where "audit_start (audit_init (audit_directory cfg) (lw_wall W) (lw_audit_disk W)) = (Inr u, a1)"
    using audit [of "audit_directory cfg"] by (cases "audit_start (audit_init (audit_directory cfg) (lw_wall W) (lw_audit_disk W))")
      (auto simp: result_ok_def split: sum.splits)
  moreover have "length (ou_ports (cg_ouch cfg)) \<ge> 1" using need(4) by (cases "ou_ports (cg_ouch cfg)") auto
  ultimately show ?thesis using cfg need
    by (auto simp: live_setup_def resolve_ouch_endpoint_def live_control_init_def cli_default_def lc_active_host_def
        live_login_def Let_def hd_conv_nth)
qed

section \<open>Witnesses\<close>

definition preflight_config :: config where
  "preflight_config = config_default\<lparr>cg_ouch := ouch_cfg_default\<lparr>ou_host_primary := ''gw1'', ou_ports := [5000],
     ou_username := ''U'', ou_password := ''P''\<rparr>\<rparr>"

definition preflight_sample :: "(string + addr_answer list) list \<Rightarrow> preflight_world" where
  "preflight_sample answers =
     \<lparr>pw_mkdir = \<lambda>_. None, pw_fopen = \<lambda>_. True, pw_exists = \<lambda>_. Some False,
      pw_net = \<lparr>nt_answers = answers, nt_dialed = []\<rparr>\<rparr>"

abbreviation (input) probe_answer :: addr_answer where
  "probe_answer \<equiv> Connects \<lparr>sk_open = True, sk_sends = [], sk_recvs = [], sk_wire = []\<rparr> \<lparr>ck_now = 0, ck_later = []\<rparr>"

lemma sample_probes: "probe_list True True preflight_config = [(''gw1'', 5000, True)]"
  by (simp add: probe_list_def preflight_config_def ouch_cfg_default_def config_default_def fix_cfg_default_def)

lemma sample_checks:
  "\<exists>issues w'. preflight_checks \<lparr>pa_config = ''c'', pa_secondary = True, pa_fix = True\<rparr> (preflight_sample answers) preflight_config
     = Some (issues, w')"
proof -
  have "fix_cfg.fx_host_primary (cg_fix preflight_config) = []"
    by (simp add: preflight_config_def config_default_def fix_cfg_default_def)
  then show ?thesis by (simp add: preflight_checks_def preflight_dictionaries_def Let_def)
qed

text \<open>A gateway that refuses stops the start.\<close>

theorem preflight_clears_the_start_witness:
  "\<exists>lc. live_setup (cli_default\<lparr>ca_config := ''c''\<rparr>) preflight_config (live_sample_world \<lparr>dk_file = None, dk_tmp = None\<rparr>) = Inr lc
     \<and> lc_active_host lc = ''gw1'' \<and> lc_port lc = 5000"
proof -
  let ?P = "preflight_sample [Inr [probe_answer]]" and ?W = "live_sample_world \<lparr>dk_file = None, dk_tmp = None\<rparr>"
  let ?load = "\<lambda>_ :: string. Some (Inr preflight_config :: config result)"
  obtain issues w' where c: "preflight_checks \<lparr>pa_config = ''c'', pa_secondary = True, pa_fix = True\<rparr> ?P preflight_config
      = Some (issues, w')" using sample_checks by blast
  have cfg: "ou_username (cg_ouch preflight_config) = ''U''" "ou_password (cg_ouch preflight_config) = ''P''"
    "ou_host_primary (cg_ouch preflight_config) = ''gw1''" "ou_ports (cg_ouch preflight_config) = [5000]"
    "fix_cfg.fx_host_primary (cg_fix preflight_config) = []"
    by (simp_all add: preflight_config_def config_default_def fix_cfg_default_def ouch_cfg_default_def)
  have "clear issues"
  proof -
    have "required_reached (probe_list True True preflight_config) (pw_net ?P)"
      unfolding sample_probes by (simp add: required_reached_def preflight_sample_def socket_connect_def Let_def result_ok_def)
    moreover have "writable ?P d" for d by (simp add: writable_def preflight_sample_def)
    moreover have "issues = fst (preflight_probes True True preflight_config
        (preflight_directories ?P preflight_config (preflight_credentials True preflight_config []), pw_net ?P))"
      using c cfg by (simp add: preflight_checks_def preflight_dictionaries_def)
    ultimately show ?thesis using cfg by (simp add: clear_probes)
  qed
  then have main: "preflight_main ?load ?P [''--config'', ''c''] = Some 0"
    using c by (simp add: preflight_main_def parse_preflight.simps code_clear)
  have audit: "result_ok (fst (audit_start (audit_init dir (lw_wall ?W) (lw_audit_disk ?W))))" for dir
    using open_for_today_ok [of "audit_init dir (lw_wall ?W) (lw_audit_disk ?W)"]
    by (auto simp: audit_start_def audit_init_def disk_serves_def live_sample_world_def result_ok_def)
  show ?thesis
    using preflight_clears_the_start [OF main _ audit] cfg by auto
qed

end
