(* ===== verification/Gateway_Serve.thy ===== *)
theory Gateway_Serve
  imports Gateway Tcp_Socket
begin

text \<open>
  The mock gateway around its packets: \<open>read_n\<close> and \<open>write_all\<close> on a descriptor whose kernel answers as
  it likes, the listener of \<open>start\<close>, the worker of \<open>accept_loop\<close>, and \<open>stop\<close>. What the packet loop
  reads off one byte stream is what \<open>read_n\<close> reads however the kernel cuts it up.
\<close>

section \<open>Reading and writing a descriptor\<close>

text \<open>\<open>read_n\<close>: the bytes, or the failure it reports as \<open>false\<close>, with the kernel's answers left; \<open>None\<close> is
  a call that waits for ever. The end of the stream is there for every later call, and \<open>RecvAgain\<close> is
  \<open>EINTR\<close> or \<open>EAGAIN\<close>, after which the loop goes on.\<close>

function read_n :: "recv_answer list \<Rightarrow> nat \<Rightarrow> byte list \<Rightarrow> (byte list option \<times> recv_answer list) option" where
  "read_n as n buf =
     (if n = 0 then Some (Some buf, as)
      else case as of
        [] \<Rightarrow> None
      | RecvAgain # rest \<Rightarrow> read_n rest n buf
      | RecvFails e # rest \<Rightarrow> Some (None, as)
      | Received bs # rest \<Rightarrow>
          (if bs = [] then Some (None, as)
           else read_n (if length bs \<le> n then rest else Received (drop n bs) # rest) (n - length bs) (buf @ take n bs)))"
  by pat_completeness auto
termination
  by (relation "measure (\<lambda>(as, n, buf). n + length as)") auto

declare read_n.simps [simp del]

text \<open>\<open>write_all\<close>: the bytes that went out. An answer of 0 bytes or an error ends it, without a report.\<close>

fun write_all :: "send_answer list \<Rightarrow> byte list \<Rightarrow> byte list \<times> send_answer list" where
  "write_all [] p = (p, [])"
| "write_all (Wrote n # as) p =
     (if p = [] then ([], Wrote n # as)
      else if n = 0 then ([], as)
      else (let (w, rest) = write_all as (drop n p) in (take n p @ w, rest)))"
| "write_all (SendAgain # as) p = (if p = [] then ([], SendAgain # as) else write_all as p)"
| "write_all (SendFails e # as) p = (if p = [] then ([], SendFails e # as) else ([], as))"

text \<open>One packet off the descriptor: the header, then the payload its length field announces.\<close>

datatype recv_outcome = Closed | Crashes | Packet char "byte list"

definition recv_packet :: "recv_answer list \<Rightarrow> (recv_outcome \<times> recv_answer list) option" where
  "recv_packet as =
     (case read_n as 3 [] of
        None \<Rightarrow> None
      | Some (None, as1) \<Rightarrow> Some (Closed, as1)
      | Some (Some hb, as1) \<Rightarrow>
          (let h = dec_Header hb; n = unat (hd_length h)
           in if n = 0 then Some (Crashes, as1)
              else case read_n as1 (n - 1) [] of
                None \<Rightarrow> None
              | Some (None, as2) \<Rightarrow> Some (Closed, as2)
              | Some (Some payload, as2) \<Rightarrow> Some (Packet (hd_packet_type h) payload, as2)))"

section \<open>The listener\<close>

record listener =
  ls_open :: bool
  ls_running :: bool
  ls_accept_one :: bool

definition listener_init :: listener where
  "listener_init = \<lparr>ls_open = False, ls_running = False, ls_accept_one = True\<rparr>"

datatype listen_answer = NoListenSocket | BindFails | ListenFails | Listening u16

definition gateway_start :: "listen_answer \<Rightarrow> bool \<Rightarrow> listener \<Rightarrow> u16 result \<times> listener" where
  "gateway_start ans accept_one l =
     (case ans of
        NoListenSocket \<Rightarrow> (Inl (make_error Io ''socket''), l\<lparr>ls_open := False\<rparr>)
      | BindFails \<Rightarrow> (Inl (make_error Io ''bind''), l\<lparr>ls_open := False\<rparr>)
      | ListenFails \<Rightarrow> (Inl (make_error Io ''listen''), l\<lparr>ls_open := False\<rparr>)
      | Listening port \<Rightarrow> (Inr port, l\<lparr>ls_open := True, ls_accept_one := accept_one, ls_running := True\<rparr>))"

text \<open>What \<open>stop\<close> does before it waits for the worker.\<close>

definition gateway_stop :: "listener \<Rightarrow> listener" where
  "gateway_stop l = l\<lparr>ls_running := False, ls_open := False\<rparr>"

text \<open>A client: the answers of \<open>poll\<close> while \<open>running_\<close> holds, what it sends, and whether \<open>running_\<close> still
  holds when it has gone. The list of clients ends when \<open>accept\<close> fails.\<close>

record gateway_client =
  cn_polls :: "bool list"
  cn_input :: "byte list"
  cn_running :: bool

fun accept_loop :: "bool \<Rightarrow> gateway_client list \<Rightarrow> gateway \<Rightarrow> gateway option" where
  "accept_loop accept_one [] g = Some g"
| "accept_loop accept_one (c # cs) g =
     (case run_loop (cn_polls c) (cn_input c) (g\<lparr>gw_connected := True\<rparr>) of
        None \<Rightarrow> None
      | Some g1 \<Rightarrow>
          (let g2 = g1\<lparr>gw_connected := False\<rparr>
           in if cn_running c \<and> \<not> accept_one then accept_loop accept_one cs g2 else Some g2))"

section \<open>The stream behind the answers\<close>

fun stream :: "recv_answer list \<Rightarrow> byte list" where
  "stream [] = []"
| "stream (RecvAgain # as) = stream as"
| "stream (RecvFails e # as) = []"
| "stream (Received bs # as) = (if bs = [] then [] else bs @ stream as)"

fun ends :: "recv_answer list \<Rightarrow> bool" where
  "ends [] = False"
| "ends (RecvAgain # as) = ends as"
| "ends (RecvFails e # as) = True"
| "ends (Received bs # as) = (bs = [] \<or> ends as)"

lemma read_n_simps [simp]:
  "read_n as 0 buf = Some (Some buf, as)"
  "n \<noteq> 0 \<Longrightarrow> read_n [] n buf = None"
  "n \<noteq> 0 \<Longrightarrow> read_n (RecvAgain # as) n buf = read_n as n buf"
  "n \<noteq> 0 \<Longrightarrow> read_n (RecvFails e # as) n buf = Some (None, RecvFails e # as)"
  "n \<noteq> 0 \<Longrightarrow> read_n (Received [] # as) n buf = Some (None, Received [] # as)"
  "n \<noteq> 0 \<Longrightarrow> bs \<noteq> [] \<Longrightarrow> read_n (Received bs # as) n buf =
     read_n (if length bs \<le> n then as else Received (drop n bs) # as) (n - length bs) (buf @ take n bs)"
  by (simp_all add: read_n.simps [of _ 0] read_n.simps [of "_ # _" n] read_n.simps [of "[]" n])

lemma read_n_stream:
  "if n \<le> length (stream as)
   then \<exists>as'. read_n as n buf = Some (Some (buf @ take n (stream as)), as') \<and> stream as' = drop n (stream as) \<and> ends as' = ends as
   else if ends as then \<exists>as'. read_n as n buf = Some (None, as') else read_n as n buf = None"
proof (induction as n buf rule: read_n.induct)
  case (1 as n buf)
  show ?case
  proof (cases "n = 0 \<or> as = []")
    case True
    then show ?thesis by (cases "n = 0") simp_all
  next
    case False
    then obtain a rest where n: "n \<noteq> 0" and as: "as = a # rest" by (cases as) auto
    show ?thesis
    proof (cases a)
      case RecvAgain
      then show ?thesis using "1.IH"(2) [OF n as RecvAgain] n as by simp
    next
      case (RecvFails e)
      then show ?thesis using n as by simp
    next
      case (Received bs)
      consider "bs = []" | "bs \<noteq> []" "length bs \<le> n" | "bs \<noteq> []" "n < length bs" by linarith
      then show ?thesis
      proof cases
        case 1
        then show ?thesis using n as Received by simp
      next
        case 2
        note ih = "1.IH"(1) [OF n as Received 2(1), simplified if_P [OF 2(2)]]
        have "stream as = bs @ stream rest" "ends as = ends rest" "read_n as n buf = read_n rest (n - length bs) (buf @ take n bs)"
          using 2 n as Received by simp_all
        moreover have "n - length bs \<le> length (stream rest) \<longleftrightarrow> n \<le> length (bs @ stream rest)" "take n bs = bs"
          using 2(2) by auto
        ultimately show ?thesis using ih by (simp only: append_assoc take_append drop_append drop_all 2(2) append_Nil)
      next
        case 3
        have "stream (Received bs # rest) = bs @ stream rest" using 3 by simp
        then show ?thesis using 3 n as Received by simp
      qed
    qed
  qed
qed

lemma write_all_prefix:
  "\<exists>n. fst (write_all as p) = take n p
    \<and> ((\<forall>a \<in> set as. a \<noteq> Wrote 0 \<and> (\<forall>e. a \<noteq> SendFails e)) \<longrightarrow> fst (write_all as p) = p)"
proof (induction as p rule: write_all.induct)
  case (2 n as p)
  show ?case
  proof (cases "p = [] \<or> n = 0")
    case True
    then show ?thesis by (auto intro: exI [of _ 0])
  next
    case False
    then obtain m where m: "fst (write_all as (drop n p)) = take m (drop n p)"
      "(\<forall>a \<in> set as. a \<noteq> Wrote 0 \<and> (\<forall>e. a \<noteq> SendFails e)) \<longrightarrow> fst (write_all as (drop n p)) = drop n p"
      using "2.IH" by blast
    have w: "fst (write_all (Wrote n # as) p) = take n p @ fst (write_all as (drop n p))"
      using False by (simp add: case_prod_beta Let_def)
    have "fst (write_all (Wrote n # as) p) = take (n + m) p" unfolding w m(1) by (simp add: take_add)
    moreover have "(\<forall>a \<in> set (Wrote n # as). a \<noteq> Wrote 0 \<and> (\<forall>e. a \<noteq> SendFails e)) \<longrightarrow> fst (write_all (Wrote n # as) p) = p"
      unfolding w using m(2) by auto
    ultimately show ?thesis by blast
  qed
next
  case (1 p)
  then show ?case by (auto intro: exI [of _ "length p"])
next
  case (4 e as p)
  then show ?case by (auto intro: exI [of _ 0])
qed (auto split: if_splits)

section \<open>The invariant across connections\<close>

lemma heartbeat_due_quiet:
  "accepted_orders (snd (heartbeat_due t g)) = accepted_orders g" "gw_seen_tokens (snd (heartbeat_due t g)) = gw_seen_tokens g"
  "gw_order_id_seq (snd (heartbeat_due t g)) = gw_order_id_seq g"
  by (simp_all add: heartbeat_due_def send_heartbeat_def send_packet_def accepted_orders_def Let_def case_prod_beta
      soup_len_defs pkt_defs)


lemma login_quiet:
  "accepted_orders (handle_login p g) = accepted_orders g" "gw_seen_tokens (handle_login p g) = gw_seen_tokens g"
  "gw_order_id_seq (handle_login p g) = gw_order_id_seq g"
  by (simp_all add: handle_login_def send_login_rejected_def send_login_accepted_def send_packet_def accepted_orders_def
      soup_len_defs pkt_defs)

lemma gateway_inv_more: "gateway_inv n g \<Longrightarrow> n \<le> m \<Longrightarrow> accepted_orders g' = accepted_orders g
    \<Longrightarrow> gw_seen_tokens g' = gw_seen_tokens g \<Longrightarrow> gw_order_id_seq g' = gw_order_id_seq g \<Longrightarrow> gateway_inv m g'"
  by (simp add: gateway_inv_def)

lemma mono_ns_quiet:
  "accepted_orders (snd (mono_ns g)) = accepted_orders g" "gw_seen_tokens (snd (mono_ns g)) = gw_seen_tokens g"
  "gw_order_id_seq (snd (mono_ns g)) = gw_order_id_seq g"
  by (simp_all add: mono_ns_def accepted_orders_def Let_def case_prod_beta)

lemmas turn_quiet = heartbeat_due_quiet mono_ns_quiet login_quiet

lemma gateway_inv_packets:
  "packet_loop polls inp t g = Some g' \<Longrightarrow> gateway_inv n g \<Longrightarrow> n + length polls < 2 ^ 64 \<Longrightarrow>
     gateway_inv (n + length polls) g'"
proof (induction polls inp t g arbitrary: n rule: packet_loop.induct)
  case (1 inp t g)
  then show ?case by simp
next
  case (2 polls inp t g)
  have "gateway_inv (Suc n) (snd (heartbeat_due t g))"
    by (rule gateway_inv_more [OF 2(3)]) (simp_all add: turn_quiet)
  then show ?case
    using "2.IH" [of "heartbeat_due t g" "fst (heartbeat_due t g)" "snd (heartbeat_due t g)" "Suc n"] "2.prems"
    by (simp add: case_prod_beta Let_def)
next
  case (3 polls inp t g)
  show ?case
  proof (cases "read_packet inp")
    case ReadFails
    then show ?thesis using 3 gateway_inv_more [OF "3.prems"(2)] by simp
  next
    case Dies
    then show ?thesis using 3 by simp
  next
    case (PacketRead ty payload rest)
    let ?g = "send_packet kEndOfSession [] g"
    have eos: "accepted_orders ?g = accepted_orders g" "gw_seen_tokens ?g = gw_seen_tokens g"
      "gw_order_id_seq ?g = gw_order_id_seq g"
      by (simp_all add: send_packet_def accepted_orders_def)
    consider "ty = kLogoutRequest" | "ty = kUnsequencedData" "ty \<noteq> kLogoutRequest" | "ty \<noteq> kLogoutRequest" "ty \<noteq> kUnsequencedData"
      by blast
    then show ?thesis
    proof cases
      case 1
      then show ?thesis using "3.prems" PacketRead
        by (auto intro!: gateway_inv_more [OF "3.prems"(2)] simp: turn_quiet eos)
    next
      case 2
      obtain g1 where g1: "handle_unsequenced_payload payload g = Some g1"
        using "3.prems"(1) PacketRead 2 by (auto split: option.splits)
      let ?h = "heartbeat_due (fst (mono_ns g1)) (snd (mono_ns g1))"
      have "gateway_inv (Suc n) (snd ?h)"
        by (rule gateway_inv_more [OF gateway_inv_handle [OF "3.prems"(2) g1]]) (use "3.prems"(3) in \<open>simp_all add: turn_quiet\<close>)
      moreover have "packet_loop polls rest (fst ?h) (snd ?h) = Some g'"
        using "3.prems"(1) PacketRead 2 g1 by (simp add: case_prod_beta Let_def)
      ultimately show ?thesis
        using "3.IH"(1) [OF PacketRead 2(2,1) g1, of "mono_ns g1" "fst (mono_ns g1)" "snd (mono_ns g1)" ?h "fst ?h" "snd ?h" "Suc n"] "3.prems"(3)
        by simp
    next
      case 3
      let ?h = "heartbeat_due t g"
      have "gateway_inv (Suc n) (snd ?h)"
        by (rule gateway_inv_more [OF "3.prems"(2)]) (simp_all add: turn_quiet)
      moreover have "packet_loop polls rest (fst ?h) (snd ?h) = Some g'"
        using "3.prems"(1) PacketRead 3 by (simp add: case_prod_beta Let_def)
      ultimately show ?thesis
        using "3.IH"(2) [OF PacketRead 3, of ?h "fst ?h" "snd ?h" "Suc n"] "3.prems"(3)
        by simp
    qed
  qed
qed

lemma gateway_inv_connection:
  assumes "run_loop polls inp g = Some g'" "gateway_inv n g" "n + length polls < 2 ^ 64"
  shows "gateway_inv (n + length polls) g'"
proof (cases "read_packet inp")
  case (PacketRead ty payload rest)
  let ?g = "if ty = kLoginRequest then handle_login payload g else g"
  have "gateway_inv n (snd (mono_ns ?g))"
    by (rule gateway_inv_more [OF assms(2)]) (simp_all add: turn_quiet)
  moreover have "packet_loop polls rest (fst (mono_ns ?g)) (snd (mono_ns ?g)) = Some g'"
    using assms(1) PacketRead by (simp add: run_loop_def case_prod_beta Let_def)
  ultimately show ?thesis using gateway_inv_packets assms(3) by blast
qed (use assms gateway_inv_more [OF assms(2)] in \<open>simp_all add: run_loop_def\<close>)

lemma gateway_inv_connected: "gateway_inv n (g\<lparr>gw_connected := b\<rparr>) = gateway_inv n g"
  by (simp add: gateway_inv_def accepted_orders_def)

lemma gateway_inv_clients:
  "accept_loop accept_one cs g = Some g' \<Longrightarrow> gateway_inv n g \<Longrightarrow> n + length (concat (map cn_polls cs)) < 2 ^ 64 \<Longrightarrow>
     gateway_inv (n + length (concat (map cn_polls cs))) g'"
proof (induction accept_one cs g arbitrary: n rule: accept_loop.induct)
  case (1 accept_one g)
  then show ?case by simp
next
  case (2 accept_one c cs g)
  obtain g1 where g1: "run_loop (cn_polls c) (cn_input c) (g\<lparr>gw_connected := True\<rparr>) = Some g1"
    using "2.prems"(1) by (auto split: option.splits)
  have inv: "gateway_inv (n + length (cn_polls c)) (g1\<lparr>gw_connected := False\<rparr>)"
    using gateway_inv_connection [OF g1, of n] "2.prems" by (simp add: gateway_inv_connected)
  show ?case
  proof (cases "cn_running c \<and> \<not> accept_one")
    case True
    then show ?thesis using "2.IH" [OF g1 refl True _ inv] "2.prems" g1 by (simp add: add.assoc)
  next
    case False
    then have "g' = g1\<lparr>gw_connected := False\<rparr>" using "2.prems"(1) g1 by auto
    then show ?thesis using gateway_inv_more [OF inv] by simp
  qed
qed

lemma read_packet_frame:
  assumes "length p < 2 ^ 16 - 1"
  shows "read_packet (frame ty p @ rest) = PacketRead ty p rest"
proof -
  have "take 3 (frame ty p @ rest) = enc_Header (make_header ty (word_of_nat (length p)))"
    "drop 3 (frame ty p @ rest) = p @ rest"
    by (simp_all add: frame_def)
  moreover have "unat (hd_length (make_header ty (word_of_nat (length p)))) = Suc (length p)"
    using assms by (simp add: unat_make_header)
  ultimately show ?thesis
    by (simp add: read_packet_def hdr.dec_enc wf_Header_def Let_def)
qed

text \<open>A client whose login was rejected stays connected and is served like any other.\<close>

lemma rejected_client_is_served:
  assumes "length creds < 2 ^ 16 - 1" "wf_EnterOrder eo" "eo_message_type eo = kEnterOrder"
  shows "run_loop (True # polls) (frame kLoginRequest creds @ frame kUnsequencedData (enc_EnterOrder eo) @ rest) g =
    (let (t, g1) = mono_ns (handle_login creds g);
         (t2, g2) = mono_ns (on_enter_order eo g1); (ls, g3) = heartbeat_due t2 g2
     in packet_loop polls rest ls g3)"
proof -
  have "length (enc_EnterOrder eo) < 2 ^ 16 - 1" using assms(2) by (simp add: eo.length_enc)
  then show ?thesis
    using read_packet_frame [OF assms(1), of kLoginRequest "frame kUnsequencedData (enc_EnterOrder eo) @ rest"]
      read_packet_frame [of "enc_EnterOrder eo" kUnsequencedData rest] enter_order_handled [OF assms(2,3)]
    by (simp add: run_loop_def case_prod_beta Let_def pkt_defs)
qed

section \<open>Properties\<close>

text \<open>
  C22: The packet reader of the gateway sees one byte stream, however the kernel cuts it up and
  interrupts it: the packet read, the failure and the crash are those of the stream, and what is
  left is the rest of the stream. Only where the peer keeps an incomplete packet open does the call
  not return.
\<close>

theorem gateway_reads_the_stream:
  "case read_packet (stream as) of
     ReadFails \<Rightarrow> map_option fst (recv_packet as) = (if ends as then Some Closed else None)
   | Dies \<Rightarrow> map_option fst (recv_packet as) = Some Crashes
   | PacketRead ty payload rest \<Rightarrow>
       \<exists>as'. recv_packet as = Some (Packet ty payload, as') \<and> stream as' = rest \<and> ends as' = ends as"
proof (cases "3 \<le> length (stream as)")
  case False
  then have "if ends as then \<exists>as'. read_n as 3 [] = Some (None, as') else read_n as 3 [] = None"
    using read_n_stream [of 3 as "[]"] by simp
  moreover have "read_packet (stream as) = ReadFails" using False by (simp add: read_packet_def)
  ultimately show ?thesis by (auto simp: recv_packet_def split: if_splits)
next
  case True
  let ?h = "dec_Header (take 3 (stream as))"
  let ?n = "unat (hd_length ?h)"
  obtain as1 where one: "read_n as 3 [] = Some (Some (take 3 (stream as)), as1)" "stream as1 = drop 3 (stream as)" "ends as1 = ends as"
    using read_n_stream [of 3 as "[]"] True by auto
  show ?thesis
  proof (cases "?n = 0")
    case True
    then show ?thesis using one \<open>3 \<le> length (stream as)\<close> by (simp add: read_packet_def recv_packet_def)
  next
    case n: False
    show ?thesis
    proof (cases "?n - 1 \<le> length (stream as1)")
      case True
      then obtain as2 where two: "read_n as1 (?n - 1) [] = Some (Some (take (?n - 1) (stream as1)), as2)"
        "stream as2 = drop (?n - 1) (stream as1)" "ends as2 = ends as1"
        using read_n_stream [of "?n - 1" as1 "[]"] by auto
      have "recv_packet as = Some (Packet (hd_packet_type ?h) (take (?n - 1) (stream as1)), as2)"
        unfolding recv_packet_def one(1) by (simp only: option.case prod.case Let_def n if_False two(1))
      moreover have "read_packet (stream as) = PacketRead (hd_packet_type ?h) (take (?n - 1) (stream as1)) (drop (?n - 1) (stream as1))"
        using \<open>3 \<le> length (stream as)\<close> True n unfolding read_packet_def one(2) by (simp only: Let_def not_less [symmetric] if_False if_not_P not_le)
      ultimately show ?thesis using two(2,3) one(3) by simp
    next
      case False
      then have "if ends as1 then \<exists>as'. read_n as1 (?n - 1) [] = Some (None, as') else read_n as1 (?n - 1) [] = None"
        using read_n_stream [of "?n - 1" as1 "[]"] by simp
      then have "map_option fst (recv_packet as) = (if ends as then Some Closed else None)"
        unfolding recv_packet_def one(1) using n one(3) by (auto simp: Let_def split: if_splits)
      moreover have "read_packet (stream as) = ReadFails"
        using \<open>3 \<le> length (stream as)\<close> False n one(2) by (simp add: read_packet_def Let_def)
      ultimately show ?thesis by simp
    qed
  qed
qed

text \<open>
  C9: A logout does not wipe the slate: over all the connections the gateway serves, one after the other
  and whatever the clients send, the tokens it accepts stay pairwise distinct and the order ids it
  draws keep increasing.
\<close>

theorem accepts_once_across_logins:
  assumes "accept_loop accept_one cs (gateway_init wall mono_ck) = Some g"
    "length (concat (map cn_polls cs)) < 2 ^ 64 - 1"
  shows "distinct (map oa_order_token (accepted_orders g))
    \<and> sorted_wrt (<) (map (\<lambda>m. unat (oa_order_id m)) (accepted_orders g))"
proof -
  have "gateway_inv 1 (gateway_init wall mono_ck)"
    by (simp add: gateway_inv_def gateway_init_def accepted_orders_def)
  from gateway_inv_clients [OF assms(1) this] assms(2) show ?thesis by (simp add: gateway_inv_def)
qed

section \<open>Witness\<close>

definition sample_connection :: gateway_client where
  "sample_connection =
     \<lparr>cn_polls = [True], cn_input = frame kLoginRequest [] @ frame kUnsequencedData (enc_EnterOrder sample_order),
      cn_running = True\<rparr>"

theorem accepts_once_across_logins_witness:
  "\<exists>g. accept_loop False [sample_connection, sample_connection] sample_gateway = Some g \<and> distinct (map oa_order_token (accepted_orders g))"
proof -
  have "\<exists>g'. run_loop (cn_polls sample_connection) (cn_input sample_connection) g = Some g'" for g
    using rejected_client_is_served [of "[]" sample_order "[]" "[]" g] by (simp add: sample_connection_def case_prod_beta Let_def)
  then obtain f where f: "\<And>g. run_loop (cn_polls sample_connection) (cn_input sample_connection) g = Some (f g)" by metis
  moreover have "cn_running sample_connection" by (simp add: sample_connection_def)
  ultimately obtain g where g: "accept_loop False [sample_connection, sample_connection] sample_gateway = Some g"
    by (simp add: Let_def)
  then show ?thesis
    using accepts_once_across_logins [OF g [unfolded sample_gateway_def]] by (simp add: sample_connection_def)
qed

end
