(* ===== verification/Gateway_Threads.thy ===== *)
theory Gateway_Threads
  imports Gateway_Serve Order_Flow
begin

text \<open>
  The mock gateway with its two threads (\<open>src/mock/ouch_gateway.cpp\<close>): the worker that serves the
  client, and the runner's thread that calls \<open>inactivate_all_resting\<close> for the end of the day. What the
  mutex guards is one step; between the steps the threads interleave, and each \<open>write_all\<close> is a step
  of its own, since nothing guards the socket. The handlers are those of Gateway; \<open>gw_sent\<close> lists the
  packets in the order they were made, \<open>gt_wire\<close> the writes in the order they were done.
\<close>

section \<open>Threads\<close>

text \<open>The worker between steps: idle; past the check of an order's token; or with writes to do, after which
  a day order comes to rest.\<close>

datatype after_writes = Packet_Done | Rest_Order string resting_order

datatype worker_at = W_Idle | W_Gate EnterOrder | W_Write "byte list list" after_writes

text \<open>The end of the day between steps: the orders of its snapshot still to cancel.\<close>

datatype eod_at =
    E_Idle
  | E_Cancel "(string \<times> resting_order) list"
  | E_Write "byte list list" "(string \<times> resting_order) list"

record gateway_threads =
  gt_gateway :: gateway
  gt_locked :: bool
  gt_worker :: worker_at
  gt_eod :: eod_at
  gt_wire :: "byte list list"

definition threads_start :: "clock \<Rightarrow> clock \<Rightarrow> gateway_threads" where
  "threads_start wall mono_ck = \<lparr>gt_gateway = gateway_init wall mono_ck, gt_locked = False, gt_worker = W_Idle,
     gt_eod = E_Idle, gt_wire = []\<rparr>"

text \<open>\<open>send_sequenced\<close> writes header and message apart; a packet without payload is one structure.\<close>

definition packet_writes :: "char \<times> byte list \<Rightarrow> byte list list" where
  "packet_writes pk =
     enc_Header (make_header (fst pk) (word_of_nat (length (snd pk)))) # (if snd pk = [] then [] else [snd pk])"

definition new_writes :: "gateway \<Rightarrow> gateway \<Rightarrow> byte list list" where
  "new_writes g g' = concat (map packet_writes (drop (length (gw_sent g)) (gw_sent g')))"

definition is_enter_order :: "byte list \<Rightarrow> bool" where
  "is_enter_order p \<longleftrightarrow> length p = 114 \<and> dec_char (take 1 p) = kEnterOrder"

section \<open>Steps\<close>

text \<open>The worker takes a payload. The token of an order is checked and registered under the lock, and a
  repeated one rejected under it. The other packets touch shared state in one critical section.\<close>

definition worker_takes :: "byte list \<Rightarrow> gateway_threads \<Rightarrow> gateway_threads option" where
  "worker_takes p s =
     (let g = gt_gateway s in
      if gt_worker s \<noteq> W_Idle then None
      else if is_enter_order p then
        (let eo = dec_EnterOrder p; tok = eo_order_token eo
         in if tok \<in> set (gw_seen_tokens g)
            then (let g' = reject_order eo kTokenNotUnique g
                  in Some (s\<lparr>gt_gateway := g', gt_locked := True, gt_worker := W_Write (new_writes g g') Packet_Done\<rparr>))
            else Some (s\<lparr>gt_gateway := g\<lparr>gw_seen_tokens := gw_seen_tokens g @ [tok]\<rparr>, gt_worker := W_Gate eo\<rparr>))
      else (case handle_unsequenced_payload p g of
              None \<Rightarrow> None
            | Some g' \<Rightarrow> Some (s\<lparr>gt_gateway := g', gt_worker := W_Write (new_writes g g') Packet_Done\<rparr>)))"

text \<open>The price gate, and the acceptance.\<close>

definition worker_gates :: "gateway_threads \<Rightarrow> gateway_threads option" where
  "worker_gates s =
     (let g = gt_gateway s in
      case gt_worker s of
        W_Gate eo \<Rightarrow>
          (if 9000 <s eo_price eo
           then (let g' = reject_order eo kPriceOutsideLimits g
                 in Some (s\<lparr>gt_gateway := g', gt_worker := W_Write (new_writes g g') Packet_Done\<rparr>))
           else (let oid = gw_order_id_seq g;
                     (now, g1) = wall_ns (g\<lparr>gw_order_id_seq := oid + 1\<rparr>);
                     g' = send_sequenced (enc_OrderAccepted (order_accepted_msg eo oid now)) g1
                 in Some (s\<lparr>gt_gateway := g', gt_worker := W_Write (new_writes g g')
                      (if eo_time_in_force eo = 0
                       then Rest_Order (eo_order_token eo) \<lparr>rs_order_book_id = eo_order_book_id eo,
                              rs_side = eo_side eo, rs_order_id = oid\<rparr>
                       else Packet_Done)\<rparr>)))
      | _ \<Rightarrow> None)"

definition worker_beats :: "gateway_threads \<Rightarrow> gateway_threads option" where
  "worker_beats s =
     (let g = gt_gateway s; g' = send_heartbeat g in
      if gt_worker s = W_Idle then Some (s\<lparr>gt_gateway := g', gt_worker := W_Write (new_writes g g') Packet_Done\<rparr>)
      else None)"

text \<open>One write, or what follows the last: the lock is released, or taken to let the order rest.\<close>

definition worker_goes_on :: "gateway_threads \<Rightarrow> gateway_threads option" where
  "worker_goes_on s =
     (let g = gt_gateway s in
      case gt_worker s of
        W_Write (c # cs) k \<Rightarrow> Some (s\<lparr>gt_wire := gt_wire s @ [c], gt_worker := W_Write cs k\<rparr>)
      | W_Write [] Packet_Done \<Rightarrow> Some (s\<lparr>gt_locked := False, gt_worker := W_Idle\<rparr>)
      | W_Write [] (Rest_Order tok r) \<Rightarrow>
          Some (s\<lparr>gt_gateway := g\<lparr>gw_resting := (gw_resting g)(tok \<mapsto> r)\<rparr>, gt_worker := W_Idle\<rparr>)
      | _ \<Rightarrow> None)"

text \<open>\<open>inactivate_all_resting\<close>: the snapshot, in the hash map's order, empties the map under the lock;
  then every order is cancelled without it.\<close>

definition eod_snapshot :: "(string \<times> resting_order) list \<Rightarrow> gateway_threads \<Rightarrow> gateway_threads option" where
  "eod_snapshot snapshot s =
     (let g = gt_gateway s in
      if gt_eod s = E_Idle \<and> \<not> gt_locked s \<and> gw_connected g \<and> distinct (map fst snapshot) \<and> map_of snapshot = gw_resting g
      then Some (s\<lparr>gt_gateway := g\<lparr>gw_resting := Map.empty\<rparr>, gt_eod := E_Cancel snapshot\<rparr>) else None)"

definition eod_goes_on :: "gateway_threads \<Rightarrow> gateway_threads option" where
  "eod_goes_on s =
     (let g = gt_gateway s in
      case gt_eod s of
        E_Idle \<Rightarrow> None
      | E_Cancel [] \<Rightarrow> Some (s\<lparr>gt_eod := E_Idle\<rparr>)
      | E_Cancel ((tok, r) # rest) \<Rightarrow>
          (let g' = emit_canceled tok r 4 g
           in Some (s\<lparr>gt_gateway := g', gt_eod := E_Write (new_writes g g') rest\<rparr>))
      | E_Write (c # cs) rest \<Rightarrow> Some (s\<lparr>gt_wire := gt_wire s @ [c], gt_eod := E_Write cs rest\<rparr>)
      | E_Write [] rest \<Rightarrow> Some (s\<lparr>gt_eod := E_Cancel rest\<rparr>))"

datatype gt_action = Takes "byte list" | Gates | Beats | Worker_Goes_On | Snapshot "(string \<times> resting_order) list" | Eod_Goes_On

fun gt_act :: "gt_action \<Rightarrow> gateway_threads \<Rightarrow> gateway_threads option" where
  "gt_act (Takes p) s = worker_takes p s"
| "gt_act Gates s = worker_gates s"
| "gt_act Beats s = worker_beats s"
| "gt_act Worker_Goes_On s = worker_goes_on s"
| "gt_act (Snapshot xs) s = eod_snapshot xs s"
| "gt_act Eod_Goes_On s = eod_goes_on s"

fun gt_run :: "gt_action list \<Rightarrow> gateway_threads \<Rightarrow> gateway_threads option" where
  "gt_run [] s = Some s"
| "gt_run (a # as) s = Option.bind (gt_act a s) (gt_run as)"

section \<open>Cancellations of the end of the day\<close>

text \<open>Of the packets the gateway makes only \<open>OrderCanceled\<close> has 37 bytes; reason 4 is the end of the day's.\<close>

definition inactivated :: "gateway \<Rightarrow> OrderCanceled list" where
  "inactivated g = filter (\<lambda>m. oc_reason m = 4)
     (map (dec_OrderCanceled \<circ> snd) (filter (\<lambda>(t, p). t = kSequencedData \<and> length p = 37) (gw_sent g)))"

lemma inactivated_snoc:
  "gw_sent g' = gw_sent g @ [(t, p)] \<Longrightarrow> inactivated g' = inactivated g
     @ (if t = kSequencedData \<and> length p = 37 \<and> oc_reason (dec_OrderCanceled p) = 4 then [dec_OrderCanceled p] else [])"
  by (simp add: inactivated_def)

lemma inactivated_cong: "gw_sent g' = gw_sent g \<Longrightarrow> inactivated g' = inactivated g"
  by (simp add: inactivated_def)

lemma canceled_fields [simp]:
  "oc_reason (order_canceled_msg tok r c now) = c" "oc_order_id (order_canceled_msg tok r c now) = rs_order_id r"
  by (simp_all add: order_canceled_msg_def)

lemma canceled_back [simp]:
  "dec_OrderCanceled (enc_OrderCanceled (order_canceled_msg tok r c now)) = order_canceled_msg tok r c now"
  by (rule oc.dec_enc [OF wf_order_canceled_msg])

lemma inactivated_reject [simp]:
  "wf_EnterOrder eo \<Longrightarrow> inactivated (reject_order eo c g) = inactivated g"
  using inactivated_snoc [of "reject_order eo c g" g] by (simp add: reply_lengths)

lemma ack_side_inactivates:
  "wf_MassQuoteHeader h \<Longrightarrow> inactivated (ack_side h e sd g) = inactivated g \<and> gw_resting (ack_side h e sd g) = gw_resting g"
  by (simp add: ack_side_def status_for_side_def case_prod_beta Let_def inactivated_def reply_lengths)

lemma on_quote_entry_inactivates:
  "wf_MassQuoteHeader h \<Longrightarrow> inactivated (on_quote_entry h e g) = inactivated g
     \<and> gw_resting (on_quote_entry h e g) = gw_resting g"
  using ack_side_inactivates [of h e]
  by (simp add: on_quote_entry_def case_prod_beta inactivated_def reply_lengths)

lemma quote_loop_inactivates:
  "wf_MassQuoteHeader h \<Longrightarrow> quote_loop h p i n g = Some g' \<Longrightarrow> inactivated g' = inactivated g \<and> gw_resting g' = gw_resting g"
  by (induction h p i n g rule: quote_loop.induct)
    (auto simp: on_quote_entry_inactivates split: option.splits)

lemma on_mass_quote_inactivates:
  assumes "on_mass_quote p g = Some g'"
  shows "inactivated g' = inactivated g \<and> gw_resting g' = gw_resting g"
proof (cases "length p < kMassQuoteHdrLen + kQuoteEntryLen")
  case True
  then show ?thesis using assms by (simp add: on_mass_quote_def)
next
  case False
  then have "wf_MassQuoteHeader (dec_MassQuoteHeader (take kMassQuoteHdrLen p))"
    by (intro mh.wf_dec) (simp add: kMassQuoteHdrLen_def kQuoteEntryLen_def)
  then show ?thesis using assms False quote_loop_inactivates by (auto simp: on_mass_quote_def Let_def)
qed

text \<open>What a packet that is no order entry does to the orders at rest: nothing, one fewer, or one replaced
  under a fresh id.\<close>

definition rests_after :: "gateway \<Rightarrow> gateway \<Rightarrow> bool" where
  "rests_after g g' \<longleftrightarrow>
     gw_order_id_seq g' = gw_order_id_seq g \<and> (\<forall>t r. gw_resting g' t = Some r \<longrightarrow> gw_resting g t = Some r)
     \<or> gw_order_id_seq g' = gw_order_id_seq g + 1
       \<and> (\<exists>new. \<forall>t r. gw_resting g' t = Some r \<longrightarrow>
            (if t = new then rs_order_id r = gw_order_id_seq g else gw_resting g t = Some r))"

lemma rests_after_refl [simp]: "rests_after g g"
  by (simp add: rests_after_def)

lemma on_cancel_rests: "rests_after g (on_cancel_order co g) \<and> inactivated (on_cancel_order co g) = inactivated g"
  by (auto simp: on_cancel_order_def Let_def case_prod_beta rests_after_def inactivated_def reply_lengths split: option.splits if_splits)

lemma on_cancel_by_id_rests: "rests_after g (on_cancel_by_id cy g) \<and> inactivated (on_cancel_by_id cy g) = inactivated g"
  by (auto simp: on_cancel_by_id_def Let_def case_prod_beta rests_after_def inactivated_def reply_lengths)

lemma on_replace_rests:
  "wf_ReplaceOrder ro \<Longrightarrow> rests_after g (on_replace_order ro g) \<and> inactivated (on_replace_order ro g) = inactivated g"
  by (auto simp: on_replace_order_def Let_def case_prod_beta rests_after_def inactivated_def reply_lengths split: if_splits)

lemma handle_rests:
  assumes "handle_unsequenced_payload p g = Some g'" "\<not> is_enter_order p"
  shows "rests_after g g' \<and> inactivated g' = inactivated g"
proof -
  have "rests_after g g' \<and> inactivated g' = inactivated g" if "on_mass_quote p g = Some g'"
  proof -
    have "gw_order_id_seq g' = gw_order_id_seq g"
    proof (cases "length p < kMassQuoteHdrLen + kQuoteEntryLen")
      case False
      then have "wf_MassQuoteHeader (dec_MassQuoteHeader (take kMassQuoteHdrLen p))"
        by (intro mh.wf_dec) (simp add: kMassQuoteHdrLen_def kQuoteEntryLen_def)
      then show ?thesis using that False quote_loop_quiet by (auto simp: on_mass_quote_def Let_def)
    qed (use that in \<open>simp add: on_mass_quote_def\<close>)
    then show ?thesis using on_mass_quote_inactivates [OF that] by (simp add: rests_after_def)
  qed
  then show ?thesis
    using assms on_cancel_rests [of g] on_cancel_by_id_rests [of g] on_replace_rests [OF ro.wf_dec, of p g]
    by (auto simp: handle_unsequenced_payload_def is_enter_order_def Let_def split: if_splits)
qed

text \<open>A cancellation by order id is answered but forgets nothing: the order it names stays at rest, and the
  end of the day cancels it a second time.\<close>

lemma cancel_by_id_leaves_order:
  assumes "gw_resting g tok = Some r" "cy_order_id cy = rs_order_id r"
  shows "(\<exists>m. gw_sent (on_cancel_by_id cy g) = gw_sent g @ [(kSequencedData, enc_OrderCanceled m)]
      \<and> oc_order_id m = rs_order_id r \<and> oc_reason m = 1)
    \<and> gw_resting (on_cancel_by_id cy g) tok = Some r"
  using assms by (auto simp: on_cancel_by_id_def Let_def case_prod_beta intro!: exI)

section \<open>The invariant\<close>

definition order_no :: "resting_order \<Rightarrow> nat" where
  "order_no r = unat (rs_order_id r)"

fun eod_left :: "eod_at \<Rightarrow> (string \<times> resting_order) list" where
  "eod_left E_Idle = []"
| "eod_left (E_Cancel xs) = xs"
| "eod_left (E_Write cs xs) = xs"

text \<open>The ids the end of the day has cancelled or is about to.\<close>

definition taken :: "gateway_threads \<Rightarrow> nat list" where
  "taken s = map (\<lambda>m. unat (oc_order_id m)) (inactivated (gt_gateway s)) @ map (\<lambda>x. order_no (snd x)) (eod_left (gt_eod s))"

definition rests_ok :: "gateway \<Rightarrow> nat list \<Rightarrow> bool" where
  "rests_ok g T \<longleftrightarrow> distinct T \<and> (\<forall>i \<in> set T. i < unat (gw_order_id_seq g))
     \<and> (\<forall>t r. gw_resting g t = Some r \<longrightarrow> order_no r < unat (gw_order_id_seq g) \<and> order_no r \<notin> set T)
     \<and> (\<forall>t t' r r'. gw_resting g t = Some r \<longrightarrow> gw_resting g t' = Some r' \<longrightarrow> order_no r = order_no r' \<longrightarrow> t = t')"

fun worker_ok :: "gateway \<Rightarrow> nat list \<Rightarrow> worker_at \<Rightarrow> bool" where
  "worker_ok g T (W_Gate eo) \<longleftrightarrow> wf_EnterOrder eo \<and> eo_order_token eo \<in> set (gw_seen_tokens g)
     \<and> eo_order_token eo \<notin> oa_order_token ` set (accepted_orders g)"
| "worker_ok g T (W_Write cs (Rest_Order tok r)) \<longleftrightarrow> order_no r < unat (gw_order_id_seq g) \<and> order_no r \<notin> set T
     \<and> (\<forall>t r'. gw_resting g t = Some r' \<longrightarrow> order_no r' \<noteq> order_no r)"
| "worker_ok g T _ \<longleftrightarrow> True"

definition threads_inv :: "nat \<Rightarrow> gateway_threads \<Rightarrow> bool" where
  "threads_inv n s \<longleftrightarrow> gateway_inv n (gt_gateway s) \<and> rests_ok (gt_gateway s) (taken s)
     \<and> worker_ok (gt_gateway s) (taken s) (gt_worker s)"

lemma threads_inv_start: "threads_inv 1 (threads_start wall mono_ck)"
  by (simp add: threads_inv_def threads_start_def gateway_inv_def gateway_init_def accepted_orders_def rests_ok_def
      taken_def inactivated_def)

lemma rests_ok_same:
  "rests_ok g T \<Longrightarrow> gw_order_id_seq g' = gw_order_id_seq g \<Longrightarrow> gw_resting g' = gw_resting g \<Longrightarrow> rests_ok g' T"
  by (simp add: rests_ok_def)

lemma rests_ok_after:
  assumes "rests_ok g T" "rests_after g g'" "unat (gw_order_id_seq g + 1) = unat (gw_order_id_seq g) + 1"
  shows "rests_ok g' T"
  using assms(2) unfolding rests_after_def
proof
  assume "gw_order_id_seq g' = gw_order_id_seq g \<and> (\<forall>t r. gw_resting g' t = Some r \<longrightarrow> gw_resting g t = Some r)"
  then show ?thesis using assms(1) unfolding rests_ok_def by metis
next
  assume "gw_order_id_seq g' = gw_order_id_seq g + 1 \<and> (\<exists>new. \<forall>t r. gw_resting g' t = Some r \<longrightarrow>
    (if t = new then rs_order_id r = gw_order_id_seq g else gw_resting g t = Some r))"
  then obtain new where seq: "gw_order_id_seq g' = gw_order_id_seq g + 1"
    and new: "\<And>t r. gw_resting g' t = Some r \<Longrightarrow> (if t = new then rs_order_id r = gw_order_id_seq g else gw_resting g t = Some r)"
    by blast
  let ?n = "unat (gw_order_id_seq g)"
  have old: "order_no r < ?n" "order_no r \<notin> set T" if "gw_resting g t = Some r" for t r
    using assms(1) that by (auto simp: rests_ok_def)
  have no: "order_no r = ?n" if "gw_resting g' new = Some r" for r using new [OF that] by (simp add: order_no_def)
  have T: "distinct T" "\<forall>i \<in> set T. i < ?n" using assms(1) by (simp_all add: rests_ok_def)
  have inj: "t = t'" if at: "gw_resting g' t = Some r" "gw_resting g' t' = Some r'" and same: "order_no r = order_no r'" for t t' r r'
  proof (cases "t = new")
    case True
    have "t' = new"
    proof (rule ccontr)
      assume "t' \<noteq> new"
      then have "gw_resting g t' = Some r'" using new [OF at(2)] by simp
      then show False using old(1) no at(1) True same by fastforce
    qed
    then show ?thesis using True by simp
  next
    case False
    then have r: "gw_resting g t = Some r" using new [OF at(1)] by simp
    then have "t' \<noteq> new" using old(1) [OF r] no at(2) same by auto
    then have "gw_resting g t' = Some r'" using new [OF at(2)] by simp
    then show ?thesis using assms(1) r same unfolding rests_ok_def by blast
  qed
  have "order_no r < ?n + 1 \<and> order_no r \<notin> set T" if "gw_resting g' t = Some r" for t r
  proof (cases "t = new")
    case True
    then show ?thesis using no that T(2) by auto
  next
    case False
    then have "gw_resting g t = Some r" using new [OF that] by simp
    then show ?thesis using old less_Suc_eq by auto
  qed
  then show ?thesis using T inj seq assms(3) less_Suc_eq unfolding rests_ok_def by auto
qed

lemma worker_ok_same:
  "worker_ok g T w \<Longrightarrow> gw_order_id_seq g' = gw_order_id_seq g \<Longrightarrow> gw_resting g' = gw_resting g \<Longrightarrow>
     gw_seen_tokens g' = gw_seen_tokens g \<Longrightarrow> accepted_orders g' = accepted_orders g \<Longrightarrow> worker_ok g' T w"
  by (cases "(g, T, w)" rule: worker_ok.cases) simp_all

lemma seq_room: "gateway_inv n g \<Longrightarrow> Suc n < 2 ^ 64 \<Longrightarrow> unat (gw_order_id_seq g + 1) = unat (gw_order_id_seq g) + 1"
  by (intro unat_seq_Suc) (auto simp: gateway_inv_def)

text \<open>The worker's steps.\<close>

lemma inv_takes:
  assumes "threads_inv n s" "worker_takes p s = Some s'" "Suc n < 2 ^ 64"
  shows "threads_inv (Suc n) s'"
proof -
  let ?g = "gt_gateway s"
  have g: "gateway_inv n ?g" "rests_ok ?g (taken s)" using assms(1) by (simp_all add: threads_inv_def)
  have idle: "gt_worker s = W_Idle" using assms(2) by (auto simp: worker_takes_def Let_def split: if_splits)
  show ?thesis
  proof (cases "is_enter_order p")
    case True
    then have wf: "wf_EnterOrder (dec_EnterOrder p)" by (intro eo.wf_dec) (simp add: is_enter_order_def)
    let ?eo = "dec_EnterOrder p"
    show ?thesis
    proof (cases "eo_order_token ?eo \<in> set (gw_seen_tokens ?g)")
      case dup: True
      let ?r = "reject_order ?eo kTokenNotUnique ?g"
      have "accepted_orders ?r = accepted_orders ?g" using wf by (simp add: accepted_orders_snoc reply_lengths)
      then have "gateway_inv (Suc n) ?r" using g(1) by (intro gateway_inv_quiet [of n ?g]) simp_all
      moreover have "rests_ok ?r (taken s)" using g(2) by (rule rests_ok_same) simp_all
      moreover have "s' = s\<lparr>gt_gateway := ?r, gt_locked := True, gt_worker := W_Write (new_writes ?g ?r) Packet_Done\<rparr>"
        using assms(2) True dup idle by (simp add: worker_takes_def Let_def)
      ultimately show ?thesis using wf by (simp add: threads_inv_def taken_def)
    next
      case new: False
      let ?g1 = "?g\<lparr>gw_seen_tokens := gw_seen_tokens ?g @ [eo_order_token ?eo]\<rparr>"
      have "accepted_orders ?g1 = accepted_orders ?g" by (rule accepted_orders_cong) simp
      moreover have "inactivated ?g1 = inactivated ?g" by (rule inactivated_cong) simp
      ultimately have "gateway_inv (Suc n) ?g1" "worker_ok ?g1 (taken s) (W_Gate ?eo)" "inactivated ?g1 = inactivated ?g"
        using g(1) new wf by (auto simp: gateway_inv_def)
      moreover have "rests_ok ?g1 (taken s)" using g(2) by (rule rests_ok_same) simp_all
      moreover have "s' = s\<lparr>gt_gateway := ?g1, gt_worker := W_Gate ?eo\<rparr>"
        using assms(2) True new idle by (simp add: worker_takes_def Let_def)
      ultimately show ?thesis by (simp add: threads_inv_def taken_def)
    qed
  next
    case False
    then obtain g' where g': "handle_unsequenced_payload p ?g = Some g'"
      "s' = s\<lparr>gt_gateway := g', gt_worker := W_Write (new_writes ?g g') Packet_Done\<rparr>"
      using assms(2) idle by (auto simp: worker_takes_def Let_def split: option.splits)
    have r: "rests_after ?g g'" "inactivated g' = inactivated ?g" using handle_rests [OF g'(1) False] by auto
    have "rests_ok g' (taken s)" by (rule rests_ok_after [OF g(2) r(1) seq_room [OF g(1) assms(3)]])
    then show ?thesis using gateway_inv_handle [OF g(1) g'(1) assms(3)] g'(2) r(2)
      by (simp add: threads_inv_def taken_def)
  qed
qed

lemma inv_gates:
  assumes "threads_inv n s" "worker_gates s = Some s'" "Suc n < 2 ^ 64"
  shows "threads_inv (Suc n) s'"
proof -
  let ?g = "gt_gateway s"
  obtain eo where w: "gt_worker s = W_Gate eo"
    using assms(2) by (auto simp: worker_gates_def Let_def split: worker_at.splits)
  have g: "gateway_inv n ?g" "rests_ok ?g (taken s)" and eo: "wf_EnterOrder eo" "eo_order_token eo \<in> set (gw_seen_tokens ?g)"
    "eo_order_token eo \<notin> oa_order_token ` set (accepted_orders ?g)"
    using assms(1) w by (simp_all add: threads_inv_def)
  show ?thesis
  proof (cases "9000 <s eo_price eo")
    case True
    let ?r = "reject_order eo kPriceOutsideLimits ?g"
    have "accepted_orders ?r = accepted_orders ?g" using eo(1) by (simp add: accepted_orders_snoc reply_lengths)
    then have "gateway_inv (Suc n) ?r" using g(1) by (intro gateway_inv_quiet [of n ?g]) simp_all
    moreover have "rests_ok ?r (taken s)" using g(2) by (rule rests_ok_same) simp_all
    moreover have "s' = s\<lparr>gt_gateway := ?r, gt_worker := W_Write (new_writes ?g ?r) Packet_Done\<rparr>"
      using assms(2) True w by (simp add: worker_gates_def Let_def)
    ultimately show ?thesis using eo(1) by (simp add: threads_inv_def taken_def)
  next
    case False
    let ?oid = "gw_order_id_seq ?g"
    obtain now g1 where now: "wall_ns (?g\<lparr>gw_order_id_seq := ?oid + 1\<rparr>) = (now, g1)" by fastforce
    let ?m = "order_accepted_msg eo ?oid now"
    let ?g' = "send_sequenced (enc_OrderAccepted ?m) g1"
    let ?r = "\<lparr>rs_order_book_id = eo_order_book_id eo, rs_side = eo_side eo, rs_order_id = ?oid\<rparr>"
    have f: "gw_sent g1 = gw_sent ?g" "gw_seen_tokens g1 = gw_seen_tokens ?g" "gw_resting g1 = gw_resting ?g"
      "gw_order_id_seq g1 = ?oid + 1"
      using now wall_ns_simps [of "?g\<lparr>gw_order_id_seq := ?oid + 1\<rparr>"] by simp_all
    have room: "unat (?oid + 1) = unat ?oid + 1" by (rule seq_room [OF g(1) assms(3)])
    have "accepted_orders ?g' = accepted_orders ?g @ [?m]"
      using accepted_orders_snoc [of ?g' ?g] f(1) eo(1) by (simp add: reply_lengths oa.dec_enc wf_order_accepted_msg)
    then have inv: "gateway_inv (Suc n) ?g'"
      using g(1) eo f room by (auto simp: gateway_inv_def order_accepted_msg_def sorted_wrt_append less_Suc_eq)
    have i: "inactivated ?g' = inactivated ?g"
      using inactivated_snoc [of ?g' ?g] f(1) eo(1) by (simp add: reply_lengths)
    have ok: "rests_ok ?g' (taken s)" using g(2) f room unfolding rests_ok_def by (auto intro: less_SucI)
    have fresh: "worker_ok ?g' (taken s) (W_Write cs (Rest_Order tok ?r))" for cs tok
      using g(2) f room unfolding rests_ok_def by (fastforce simp: order_no_def)
    have "s' = s\<lparr>gt_gateway := ?g', gt_worker := W_Write (new_writes ?g ?g')
        (if eo_time_in_force eo = 0 then Rest_Order (eo_order_token eo) ?r else Packet_Done)\<rparr>"
      using assms(2) False w now by (simp add: worker_gates_def Let_def)
    then show ?thesis using inv i ok fresh by (simp add: threads_inv_def taken_def)
  qed
qed

lemma inv_beats:
  assumes "threads_inv n s" "worker_beats s = Some s'"
  shows "threads_inv (Suc n) s'"
proof -
  let ?g = "gt_gateway s"
  let ?g' = "send_heartbeat ?g"
  have f: "gw_sent ?g' = gw_sent ?g @ [(kServerHeartbeat, [])]" "gw_seen_tokens ?g' = gw_seen_tokens ?g"
    "gw_order_id_seq ?g' = gw_order_id_seq ?g" "gw_resting ?g' = gw_resting ?g"
    by (simp_all add: send_heartbeat_def send_packet_def)
  have "accepted_orders ?g' = accepted_orders ?g" "inactivated ?g' = inactivated ?g"
    using f(1) by (simp_all add: accepted_orders_def inactivated_def)
  moreover have "s' = s\<lparr>gt_gateway := ?g', gt_worker := W_Write (new_writes ?g ?g') Packet_Done\<rparr>"
    using assms(2) by (simp add: worker_beats_def Let_def split: if_splits)
  ultimately show ?thesis
    using assms(1) f gateway_inv_quiet [of n ?g ?g'] rests_ok_same [of ?g "taken s" ?g']
    by (simp add: threads_inv_def taken_def)
qed

lemma inv_worker_goes_on:
  assumes "threads_inv n s" "worker_goes_on s = Some s'"
  shows "threads_inv (Suc n) s'"
proof -
  let ?g = "gt_gateway s"
  have g: "gateway_inv (Suc n) ?g" "rests_ok ?g (taken s)" "worker_ok ?g (taken s) (gt_worker s)"
    using assms(1) by (simp_all add: threads_inv_def gateway_inv_def)
  obtain cs k where w: "gt_worker s = W_Write cs k"
    using assms(2) by (auto simp: worker_goes_on_def Let_def split: worker_at.splits)
  show ?thesis
  proof (cases cs)
    case (Cons c cs')
    then have "s' = s\<lparr>gt_wire := gt_wire s @ [c], gt_worker := W_Write cs' k\<rparr>"
      using assms(2) w by (simp add: worker_goes_on_def Let_def)
    moreover have "worker_ok ?g (taken s) (W_Write cs' k)" using g(3) w by (cases k) simp_all
    ultimately show ?thesis using g by (simp add: threads_inv_def taken_def)
  next
    case Nil
    show ?thesis
    proof (cases k)
      case Packet_Done
      then have "s' = s\<lparr>gt_locked := False, gt_worker := W_Idle\<rparr>"
        using assms(2) w Nil by (simp add: worker_goes_on_def Let_def)
      then show ?thesis using g by (simp add: threads_inv_def taken_def)
    next
      case (Rest_Order tok r)
      let ?g' = "?g\<lparr>gw_resting := (gw_resting ?g)(tok \<mapsto> r)\<rparr>"
      have s': "s' = s\<lparr>gt_gateway := ?g', gt_worker := W_Idle\<rparr>"
        using assms(2) w Nil Rest_Order by (simp add: worker_goes_on_def Let_def)
      have "gateway_inv (Suc n) ?g'" "inactivated ?g' = inactivated ?g"
        using g(1) by (simp_all add: gateway_inv_def accepted_orders_def inactivated_def)
      moreover have "rests_ok ?g' (taken s)"
        using g(2,3) w Rest_Order unfolding rests_ok_def by (auto split: if_splits) metis+
      ultimately show ?thesis using s' by (simp add: threads_inv_def taken_def)
    qed
  qed
qed

text \<open>The end of the day. A cancellation moves its order from those left to those cancelled.\<close>

lemma inv_snapshot:
  assumes "threads_inv n s" "eod_snapshot xs s = Some s'"
  shows "threads_inv (Suc n) s'"
proof -
  let ?g = "gt_gateway s"
  let ?g' = "?g\<lparr>gw_resting := Map.empty\<rparr>"
  have a: "gt_eod s = E_Idle" "distinct (map fst xs)" "map_of xs = gw_resting ?g"
    and s': "s' = s\<lparr>gt_gateway := ?g', gt_eod := E_Cancel xs\<rparr>"
    using assms(2) by (auto simp: eod_snapshot_def Let_def split: if_splits)
  have g: "gateway_inv (Suc n) ?g'" "rests_ok ?g (taken s)" "worker_ok ?g (taken s) (gt_worker s)"
    using assms(1) by (simp_all add: threads_inv_def gateway_inv_def accepted_orders_def)
  have rest: "gw_resting ?g (fst x) = Some (snd x)" if "x \<in> set xs" for x
    using map_of_is_SomeI [OF a(2), of "fst x" "snd x"] that a(3) by simp
  have ids: "order_no (snd x) < unat (gw_order_id_seq ?g)" "order_no (snd x) \<notin> set (taken s)" if "x \<in> set xs" for x
    using rest [OF that] g(2) by (auto simp: rests_ok_def)
  have "inj_on (\<lambda>x. order_no (snd x)) (set xs)"
  proof (rule inj_onI)
    fix x y
    assume "x \<in> set xs" "y \<in> set xs" "order_no (snd x) = order_no (snd y)"
    then have "fst x = fst y" using rest g(2) unfolding rests_ok_def by blast
    then show "x = y" using a(2) \<open>x \<in> set xs\<close> \<open>y \<in> set xs\<close> rest by (metis option.inject prod.expand)
  qed
  then have dist: "distinct (map (\<lambda>x. order_no (snd x)) xs)"
    using a(2) by (simp add: distinct_map)
  have taken: "taken s' = taken s @ map (\<lambda>x. order_no (snd x)) xs"
    by (simp add: s' taken_def a(1) inactivated_def)
  have "rests_ok ?g' (taken s')"
    using g(2) ids dist unfolding rests_ok_def taken by auto
  moreover have "worker_ok ?g' (taken s') (gt_worker s)"
  proof (cases "\<exists>cs tok r. gt_worker s = W_Write cs (Rest_Order tok r)")
    case True
    then obtain cs tok r where w: "gt_worker s = W_Write cs (Rest_Order tok r)" by blast
    have ne: "order_no (snd x) \<noteq> order_no r" if "x \<in> set xs" for x using rest [OF that] g(3) w by simp
    have "order_no r \<notin> (\<lambda>x. order_no (snd x)) ` set xs"
    proof
      assume "order_no r \<in> (\<lambda>x. order_no (snd x)) ` set xs"
      then obtain x where "order_no r = order_no (snd x)" "x \<in> set xs" by (rule imageE)
      then show False using ne [of x] by simp
    qed
    then show ?thesis using g(3) w unfolding taken by simp
  next
    case False
    then show ?thesis using g(3)
      by (cases "(?g, taken s, gt_worker s)" rule: worker_ok.cases) (auto simp: accepted_orders_def)
  qed
  ultimately show ?thesis using g(1) by (simp add: threads_inv_def s')
qed

lemma eod_goes_on_cases:
  assumes "eod_goes_on s = Some s'"
  obtains (quiet) "gt_gateway s' = gt_gateway s" "eod_left (gt_eod s') = eod_left (gt_eod s)" "gt_worker s' = gt_worker s"
    | (cancel) tok r rest where "gt_eod s = E_Cancel ((tok, r) # rest)"
        "s' = s\<lparr>gt_gateway := emit_canceled tok r 4 (gt_gateway s),
          gt_eod := E_Write (new_writes (gt_gateway s) (emit_canceled tok r 4 (gt_gateway s))) rest\<rparr>"
proof (cases "gt_eod s")
  case E_Idle
  then show ?thesis using assms by (simp add: eod_goes_on_def)
next
  case (E_Cancel xs)
  show ?thesis
  proof (cases xs)
    case Nil
    then have "s' = s\<lparr>gt_eod := E_Idle\<rparr>" using assms E_Cancel by (simp add: eod_goes_on_def)
    then show ?thesis using quiet E_Cancel Nil by simp
  next
    case (Cons x rest)
    then show ?thesis using assms E_Cancel cancel [of "fst x" "snd x" rest]
      by (simp add: eod_goes_on_def Let_def case_prod_beta)
  qed
next
  case (E_Write cs xs)
  show ?thesis
  proof (cases cs)
    case Nil
    then have "s' = s\<lparr>gt_eod := E_Cancel xs\<rparr>" using assms E_Write by (simp add: eod_goes_on_def)
    then show ?thesis using quiet E_Write by simp
  next
    case (Cons c cs')
    then have "s' = s\<lparr>gt_wire := gt_wire s @ [c], gt_eod := E_Write cs' xs\<rparr>"
      using assms E_Write by (simp add: eod_goes_on_def Let_def)
    then show ?thesis using quiet E_Write by simp
  qed
qed

lemma inv_eod:
  assumes "threads_inv n s" "eod_goes_on s = Some s'"
  shows "threads_inv (Suc n) s'"
proof -
  let ?g = "gt_gateway s"
  have g: "gateway_inv n ?g" "rests_ok ?g (taken s)" "worker_ok ?g (taken s) (gt_worker s)"
    using assms(1) by (simp_all add: threads_inv_def)
  have g1: "gateway_inv (Suc n) ?g" using g(1) by (simp add: gateway_inv_def)
  consider (quiet) "gt_gateway s' = ?g" "eod_left (gt_eod s') = eod_left (gt_eod s)" "gt_worker s' = gt_worker s"
    | (cancel) tok r rest where "gt_eod s = E_Cancel ((tok, r) # rest)"
        "s' = s\<lparr>gt_gateway := emit_canceled tok r 4 ?g, gt_eod := E_Write (new_writes ?g (emit_canceled tok r 4 ?g)) rest\<rparr>"
    by (rule eod_goes_on_cases [OF assms(2)])
  then show ?thesis
  proof cases
    case quiet
    then show ?thesis using g1 g by (simp add: threads_inv_def taken_def)
  next
    case cancel
    let ?g' = "emit_canceled tok r 4 ?g"
    have f: "gw_sent ?g' = gw_sent ?g @ [(kSequencedData, enc_OrderCanceled (order_canceled_msg tok r 4 (ck_now (gw_wall ?g))))]"
      "gw_seen_tokens ?g' = gw_seen_tokens ?g" "gw_order_id_seq ?g' = gw_order_id_seq ?g" "gw_resting ?g' = gw_resting ?g"
      by (simp_all add: emit_canceled_def case_prod_beta)
    have acc: "accepted_orders ?g' = accepted_orders ?g" using accepted_orders_snoc [OF f(1)] by (simp add: reply_lengths)
    have "inactivated ?g' = inactivated ?g @ [order_canceled_msg tok r 4 (ck_now (gw_wall ?g))]"
      using inactivated_snoc [OF f(1)] by (simp add: reply_lengths)
    then have "taken s' = taken s" using cancel by (simp add: taken_def order_no_def)
    moreover have "gateway_inv (Suc n) ?g'" by (rule gateway_inv_quiet [OF g(1) acc f(2,3)])
    moreover have "rests_ok ?g' (taken s)" by (rule rests_ok_same [OF g(2) f(3,4)])
    moreover have "worker_ok ?g' (taken s) (gt_worker s)" by (rule worker_ok_same [OF g(3) f(3,4,2) acc])
    moreover have gw: "gt_gateway s' = ?g'" "gt_worker s' = gt_worker s" using cancel(2) by simp_all
    ultimately show ?thesis unfolding threads_inv_def gw by metis
  qed
qed

lemma inv_act:
  assumes "threads_inv n s" "gt_act a s = Some s'" "Suc n < 2 ^ 64"
  shows "threads_inv (Suc n) s'"
  using assms
  by (cases a) (auto intro: inv_takes inv_gates inv_beats inv_worker_goes_on inv_snapshot inv_eod)

lemma inv_run: "gt_run as s = Some s' \<Longrightarrow> threads_inv n s \<Longrightarrow> n + length as < 2 ^ 64 \<Longrightarrow> threads_inv (n + length as) s'"
proof (induction as arbitrary: n s)
  case (Cons a as)
  then obtain s1 where s1: "gt_act a s = Some s1" "gt_run as s1 = Some s'" by (auto split: Option.bind_splits)
  have "threads_inv (Suc n) s1" using inv_act [OF Cons.prems(2) s1(1)] Cons.prems(3) by simp
  then show ?case using Cons.IH [OF s1(2), of "Suc n"] Cons.prems(3) by simp
qed simp

text \<open>
  C19: The end of the day may interleave with the worker. Whatever the client sends and however the two
  threads take turns (within \<open>2 ^ 64\<close> steps), the tokens of the accepted orders stay pairwise distinct
  and their ids increase, no order is inactivated twice, and none that has been inactivated still rests.
\<close>

theorem end_of_day_interleaves:
  assumes "gt_run as (threads_start wall mono_ck) = Some s" "length as < 2 ^ 64 - 1"
  shows "distinct (map oa_order_token (accepted_orders (gt_gateway s)))
    \<and> sorted_wrt (<) (map (\<lambda>m. unat (oa_order_id m)) (accepted_orders (gt_gateway s)))
    \<and> distinct (map oc_order_id (inactivated (gt_gateway s)))
    \<and> rs_order_id ` ran (gw_resting (gt_gateway s)) \<inter> oc_order_id ` set (inactivated (gt_gateway s)) = {}"
proof -
  have inv: "threads_inv (1 + length as) s"
    by (rule inv_run [OF assms(1) threads_inv_start]) (use assms(2) in linarith)
  then have "distinct (map (\<lambda>m. unat (oc_order_id m)) (inactivated (gt_gateway s)))"
    by (auto simp: threads_inv_def rests_ok_def taken_def)
  then have "distinct (map oc_order_id (inactivated (gt_gateway s)))"
    by (simp add: distinct_map inj_on_def)
  moreover have "rs_order_id r \<noteq> oc_order_id m"
    if "gw_resting (gt_gateway s) t = Some r" "m \<in> set (inactivated (gt_gateway s))" for t r m
  proof -
    have "order_no r \<notin> set (taken s)" using inv that(1) unfolding threads_inv_def rests_ok_def by blast
    moreover have "unat (oc_order_id m) \<in> set (taken s)" using that(2) by (simp add: taken_def)
    ultimately show ?thesis by (auto simp: order_no_def)
  qed
  ultimately show ?thesis using inv by (auto simp: threads_inv_def gateway_inv_def ran_def)
qed

section \<open>Writes that interleave\<close>

text \<open>What a client makes of two packets whose headers went out before their messages.\<close>

lemma torn_packet:
  assumes "ss_in_buffer s = []" "length a = 137" "length c = 37"
  shows "\<exists>s'. parse_pending (with_buffer (enc_Header (make_header kSequencedData 137)
      @ enc_Header (make_header kSequencedData 37) @ a @ c) s)
    = Some (Inl (make_error Protocol (''unknown OUCH type: '' @ [CHR 0x00])), s')"
proof -
  let ?h = "enc_Header (make_header kSequencedData 37)"
  let ?p = "?h @ take 134 a" and ?rest = "drop 134 a @ c"
  have len: "length ?p = 137" using assms(2) by (simp add: enc_Header_def)
  obtain q where q: "?p = 0 # q" by (simp add: enc_Header_def make_header_def be_bytes_def)
  have buf: "enc_Header (make_header kSequencedData 137) @ ?h @ a @ c = frame kSequencedData ?p @ ?rest"
    unfolding frame_def len by simp
  let ?s = "with_buffer (frame kSequencedData ?p @ ?rest) s"
  have one: "peek 0 1 ?p = Some [0]" unfolding q by (simp add: peek_def slice_at_def)
  have "char_of_byte 0 = CHR 0x00" by code_simp
  then have "dec_char [0] = CHR 0x00" by (simp add: dec_char_def)
  then have "dispatch_ouch ?p (length ?p) s0 = Some (Inl (make_error Protocol (''unknown OUCH type: '' @ [CHR 0x00])), s0)" for s0
    using one unfolding dispatch_ouch_def len by (simp add: msg_type_defs)
  then have "\<exists>s1. dispatch_frame (kSequencedData, ?p) ?s
      = Some (Inl (make_error Protocol (''unknown OUCH type: '' @ [CHR 0x00])), s1)"
    by (simp add: dispatch_frame_def dispatch_packet_def pkt_defs Let_def del: append.simps)
  then show ?thesis
    using parse_frame [of kSequencedData ?p ?s ?rest] len
    by (auto simp: buf framed_def with_buffer_def simp del: append.simps)
qed

text \<open>The schedule: the first order rests; the end of the day takes it while the acceptance of the second is
  being written.\<close>

definition torn_schedule :: "EnterOrder \<Rightarrow> EnterOrder \<Rightarrow> gt_action list" where
  "torn_schedule eo1 eo2 =
     [Takes (enc_EnterOrder eo1), Gates, Worker_Goes_On, Worker_Goes_On, Worker_Goes_On,
      Takes (enc_EnterOrder eo2), Gates, Worker_Goes_On,
      Snapshot [(eo_order_token eo1, \<lparr>rs_order_book_id = eo_order_book_id eo1, rs_side = eo_side eo1, rs_order_id = 1\<rparr>)],
      Eod_Goes_On, Eod_Goes_On, Worker_Goes_On, Eod_Goes_On, Worker_Goes_On, Eod_Goes_On, Eod_Goes_On]"

lemma takes_order:
  assumes "wf_EnterOrder eo" "eo_message_type eo = kEnterOrder" "gt_worker s = W_Idle"
    "eo_order_token eo \<notin> set (gw_seen_tokens (gt_gateway s))"
  shows "worker_takes (enc_EnterOrder eo) s = Some (s\<lparr>gt_gateway := (gt_gateway s)
    \<lparr>gw_seen_tokens := gw_seen_tokens (gt_gateway s) @ [eo_order_token eo]\<rparr>, gt_worker := W_Gate eo\<rparr>)"
proof -
  have "dec_char (take 1 (enc_EnterOrder eo)) = kEnterOrder"
    using assms(2) by (simp add: enc_EnterOrder_def enc_char_def dec_char_def)
  then have "is_enter_order (enc_EnterOrder eo)" using assms(1) by (simp add: is_enter_order_def eo.length_enc)
  then show ?thesis using assms by (simp add: worker_takes_def Let_def eo.dec_enc)
qed

lemma torn_run:
  fixes t :: u64
  assumes "wf_EnterOrder eo1" "wf_EnterOrder eo2" "eo_message_type eo1 = kEnterOrder" "eo_message_type eo2 = kEnterOrder"
    "eo_order_token eo1 \<noteq> eo_order_token eo2" "\<not> 9000 <s eo_price eo1" "\<not> 9000 <s eo_price eo2" "eo_time_in_force eo1 = 0"
  defines "a1 \<equiv> enc_OrderAccepted (order_accepted_msg eo1 1 t)"
    and "a2 \<equiv> enc_OrderAccepted (order_accepted_msg eo2 2 t)"
    and "c1 \<equiv> enc_OrderCanceled (order_canceled_msg (eo_order_token eo1)
       \<lparr>rs_order_book_id = eo_order_book_id eo1, rs_side = eo_side eo1, rs_order_id = 1\<rparr> 4 t)"
  shows "\<exists>s. gt_run (torn_schedule eo1 eo2) (threads_start \<lparr>ck_now = t, ck_later = []\<rparr> mono_ck) = Some s
    \<and> gt_worker s = W_Idle \<and> gt_eod s = E_Idle
    \<and> gw_sent (gt_gateway s) = [(kSequencedData, a1), (kSequencedData, a2), (kSequencedData, c1)]
    \<and> gt_wire s = packet_writes (kSequencedData, a1) @ [enc_Header (make_header kSequencedData 137),
        enc_Header (make_header kSequencedData 37), a2, c1]"
proof -
  have len: "length a1 = 137" "length a2 = 137" "length c1 = 37"
    using assms(1,2) by (simp_all add: a1_def a2_def c1_def reply_lengths)
  have ne: "a1 \<noteq> []" "a2 \<noteq> []" "c1 \<noteq> []" using len by auto
  show ?thesis
    using assms(1-8) ne len
    by (simp add: torn_schedule_def threads_start_def gateway_init_def takes_order worker_gates_def wall_ns_def read_clock_def
        Let_def send_sequenced_def send_packet_def new_writes_def packet_writes_def worker_goes_on_def eod_snapshot_def
        eod_goes_on_def emit_canceled_def a1_def a2_def c1_def)
qed

lemma feed_torn:
  assumes "wf_OrderAccepted m" "oa_message_type m = kOrderAccepted" "on_accepted (ss_handlers c)" "ss_in_buffer c = []"
    "length a = 137" "length x = 37"
  shows "\<exists>c'. feed (frame kSequencedData (enc_OrderAccepted m) @ enc_Header (make_header kSequencedData 137)
      @ enc_Header (make_header kSequencedData 37) @ a @ x) c
    = Some (Inl (make_error Protocol (''unknown OUCH type: '' @ [CHR 0x00])), c')"
proof -
  let ?rest = "enc_Header (make_header kSequencedData 137) @ enc_Header (make_header kSequencedData 37) @ a @ x"
  let ?s = "with_buffer (frame kSequencedData (enc_OrderAccepted m) @ ?rest) c"
  have "on_accepted (ss_handlers ?s)" using assms(3) by (simp add: with_buffer_def)
  from dispatch_frame_acceptance [OF assms(1,2) this] obtain s1
    where s1: "dispatch_frame (kSequencedData, enc_OrderAccepted m) ?s = Some (Inr (), s1)" by blast
  have "parse_pending ?s = parse_pending (with_buffer ?rest s1)"
    using parse_frame [of kSequencedData "enc_OrderAccepted m" ?s ?rest] s1 oa.length_enc [OF assms(1)]
    by (simp add: framed_def with_buffer_def)
  then show ?thesis
    using torn_packet [of "with_buffer [] s1", OF _ assms(5,6)] assms(4)
    by (simp add: feed_def with_buffer_def)
qed

text \<open>
  C20: Nothing guards the socket. For any two orders the gateway accepts, the first a day order, there is a schedule of the two
  threads after which both are at rest and the gateway has made the three packets it should, two acceptances
  and a cancellation, but whose writes a client session cannot read: it fails on a message of type zero.
\<close>

theorem unlocked_writes_break_framing:
  assumes "wf_EnterOrder eo1" "wf_EnterOrder eo2" "eo_message_type eo1 = kEnterOrder" "eo_message_type eo2 = kEnterOrder"
    "eo_order_token eo1 \<noteq> eo_order_token eo2" "\<not> 9000 <s eo_price eo1" "\<not> 9000 <s eo_price eo2" "eo_time_in_force eo1 = 0"
    "on_accepted (ss_handlers c)" "ss_in_buffer c = []"
  shows "\<exists>as s c'. gt_run as (threads_start \<lparr>ck_now = t, ck_later = []\<rparr> mono_ck) = Some s
    \<and> gt_worker s = W_Idle \<and> gt_eod s = E_Idle
    \<and> gw_sent (gt_gateway s) = [(kSequencedData, enc_OrderAccepted (order_accepted_msg eo1 1 t)),
        (kSequencedData, enc_OrderAccepted (order_accepted_msg eo2 2 t)),
        (kSequencedData, enc_OrderCanceled (order_canceled_msg (eo_order_token eo1)
           \<lparr>rs_order_book_id = eo_order_book_id eo1, rs_side = eo_side eo1, rs_order_id = 1\<rparr> 4 t))]
    \<and> feed (concat (gt_wire s)) c = Some (Inl (make_error Protocol (''unknown OUCH type: '' @ [CHR 0x00])), c')"
proof -
  let ?m1 = "order_accepted_msg eo1 1 t" and ?m2 = "order_accepted_msg eo2 2 t"
  let ?r = "\<lparr>rs_order_book_id = eo_order_book_id eo1, rs_side = eo_side eo1, rs_order_id = 1\<rparr>"
  let ?x = "order_canceled_msg (eo_order_token eo1) ?r 4 t"
  obtain s where s: "gt_run (torn_schedule eo1 eo2) (threads_start \<lparr>ck_now = t, ck_later = []\<rparr> mono_ck) = Some s"
    "gt_worker s = W_Idle" "gt_eod s = E_Idle"
    "gw_sent (gt_gateway s) = [(kSequencedData, enc_OrderAccepted ?m1), (kSequencedData, enc_OrderAccepted ?m2),
       (kSequencedData, enc_OrderCanceled ?x)]"
    "gt_wire s = packet_writes (kSequencedData, enc_OrderAccepted ?m1) @ [enc_Header (make_header kSequencedData 137),
        enc_Header (make_header kSequencedData 37), enc_OrderAccepted ?m2, enc_OrderCanceled ?x]"
    using torn_run [OF assms(1-8), of t mono_ck] by blast
  have len: "length (enc_OrderAccepted ?m1) = 137" "length (enc_OrderAccepted ?m2) = 137" "length (enc_OrderCanceled ?x) = 37"
    using assms(1,2) by (simp_all add: reply_lengths)
  have wf: "wf_OrderAccepted ?m1" "oa_message_type ?m1 = kOrderAccepted"
    using assms(1) by (rule wf_order_accepted_msg) (simp add: order_accepted_msg_def)
  have "concat (gt_wire s) = frame kSequencedData (enc_OrderAccepted ?m1) @ enc_Header (make_header kSequencedData 137)
      @ enc_Header (make_header kSequencedData 37) @ enc_OrderAccepted ?m2 @ enc_OrderCanceled ?x"
    using len(1) unfolding s(5) by (auto simp: packet_writes_def frame_def)
  then obtain c' where "feed (concat (gt_wire s)) c = Some (Inl (make_error Protocol (''unknown OUCH type: '' @ [CHR 0x00])), c')"
    using feed_torn [OF wf assms(9,10) len(2,3)] by metis
  then show ?thesis using s(1-4) by blast
qed

definition other_order :: EnterOrder where
  "other_order = sample_order\<lparr>eo_order_token := replicate 14 (CHR ''B'')\<rparr>"

lemma other_order [simp]:
  "wf_EnterOrder other_order" "eo_message_type other_order = kEnterOrder" "\<not> 9000 <s eo_price other_order"
  "eo_time_in_force other_order = 0" "eo_order_token sample_order \<noteq> eo_order_token other_order"
  using sample_order_simps by (simp_all add: other_order_def wf_EnterOrder_def)

theorem unlocked_writes_break_framing_witness:
  "\<exists>as s c'. gt_run as (threads_start \<lparr>ck_now = 9, ck_later = []\<rparr> \<lparr>ck_now = 1, ck_later = []\<rparr>) = Some s
    \<and> gw_sent (gt_gateway s) \<noteq> []
    \<and> feed (concat (gt_wire s)) sample_session = Some (Inl (make_error Protocol (''unknown OUCH type: '' @ [CHR 0x00])), c')"
proof -
  have "ss_in_buffer sample_session = []" "on_accepted (ss_handlers sample_session)"
    by (simp_all add: sample_session_def session_init_def all_handlers_def)
  moreover have "\<not> 9000 <s eo_price sample_order" by simp
  ultimately show ?thesis
    using unlocked_writes_break_framing [OF sample_order_simps(1) other_order(1) sample_order_simps(2) other_order(2,5) _
        other_order(3) sample_order_simps(4), of sample_session 9 "\<lparr>ck_now = 1, ck_later = []\<rparr>"]
    by (metis list.distinct(1))
qed

theorem end_of_day_interleaves_witness:
  "\<exists>s. gt_run (torn_schedule sample_order other_order) (threads_start \<lparr>ck_now = 9, ck_later = []\<rparr> \<lparr>ck_now = 1, ck_later = []\<rparr>) = Some s
    \<and> length (gw_sent (gt_gateway s)) = 3 \<and> distinct (map oa_order_token (accepted_orders (gt_gateway s)))"
proof -
  obtain s where s: "gt_run (torn_schedule sample_order other_order)
      (threads_start \<lparr>ck_now = 9, ck_later = []\<rparr> \<lparr>ck_now = 1, ck_later = []\<rparr>) = Some s" "length (gw_sent (gt_gateway s)) = 3"
    using torn_run [of sample_order other_order 9 "\<lparr>ck_now = 1, ck_later = []\<rparr>"] sample_order_simps other_order by auto
  show ?thesis using s end_of_day_interleaves [OF s(1)] by (simp add: torn_schedule_def)
qed

end
