(* ===== verification/Socket_Handles.thy ===== *)
theory Socket_Handles
  imports Transport_Control
begin

text \<open>
  Who owns a descriptor: the objects of class \<open>TcpSocket\<close> (\<open>net/tcp_socket.hpp\<close>) over the descriptor table
  of the process, with construction, moves, adoption, connecting, closing and destruction; and
  \<open>pick_ephemeral_port\<close> (\<open>fix/acceptor_mock.cpp\<close>), which opens and closes one. What passes through an
  open socket is in Tcp_Socket; the options set on a descriptor are left out, since nothing reads them.
\<close>

section \<open>Descriptors\<close>

text \<open>The open descriptors, the sockets alive with their \<open>fd_\<close>, and the closes of a descriptor not open.\<close>

record process =
  pr_open :: "int list"
  pr_sockets :: "nat \<rightharpoonup> int"
  pr_bad_closes :: "int list"

text \<open>\<open>socket\<close> answers with the lowest descriptor not open.\<close>

definition lowest_free :: "int list \<Rightarrow> int" where
  "lowest_free xs = hd (filter (\<lambda>n. n \<notin> set xs) (map int [0..<Suc (length xs)]))"

definition sys_socket :: "process \<Rightarrow> int \<times> process" where
  "sys_socket p = (let fd = lowest_free (pr_open p) in (fd, p\<lparr>pr_open := fd # pr_open p\<rparr>))"

definition sys_close :: "int \<Rightarrow> process \<Rightarrow> process" where
  "sys_close fd p =
     (if fd \<in> set (pr_open p) then p\<lparr>pr_open := removeAll fd (pr_open p)\<rparr>
      else p\<lparr>pr_bad_closes := pr_bad_closes p @ [fd]\<rparr>)"

section \<open>The class\<close>

definition set_fd :: "nat \<Rightarrow> int \<Rightarrow> process \<Rightarrow> process" where
  "set_fd i fd p = p\<lparr>pr_sockets := (pr_sockets p)(i \<mapsto> fd)\<rparr>"

definition handle_close :: "nat \<Rightarrow> process \<Rightarrow> process option" where
  "handle_close i p =
     (case pr_sockets p i of
        None \<Rightarrow> None
      | Some fd \<Rightarrow> Some (if 0 \<le> fd then set_fd i (-1) (sys_close fd p) else p))"

definition handle_new :: "nat \<Rightarrow> process \<Rightarrow> process option" where
  "handle_new i p = (if pr_sockets p i = None then Some (set_fd i (-1) p) else None)"

definition handle_destroy :: "nat \<Rightarrow> process \<Rightarrow> process option" where
  "handle_destroy i p = map_option (\<lambda>p1. p1\<lparr>pr_sockets := (pr_sockets p1)(i := None)\<rparr>) (handle_close i p)"

definition handle_move_new :: "nat \<Rightarrow> nat \<Rightarrow> process \<Rightarrow> process option" where
  "handle_move_new i j p =
     (case (pr_sockets p i, pr_sockets p j) of
        (None, Some fd) \<Rightarrow> Some (set_fd j (-1) (set_fd i fd p))
      | _ \<Rightarrow> None)"

definition handle_move_assign :: "nat \<Rightarrow> nat \<Rightarrow> process \<Rightarrow> process option" where
  "handle_move_assign i j p =
     (if pr_sockets p i = None \<or> pr_sockets p j = None then None
      else if i = j then Some p
      else Option.bind (handle_close i p) (\<lambda>p1.
             map_option (\<lambda>fd. set_fd j (-1) (set_fd i fd p1)) (pr_sockets p1 j)))"

definition handle_from_fd :: "nat \<Rightarrow> int \<Rightarrow> process \<Rightarrow> process option" where
  "handle_from_fd i fd p = (if pr_sockets p i = None then Some (set_fd i fd p) else None)"

text \<open>The addresses of a host in turn: a socket for each, closed again when its connect fails.\<close>

fun dial_addresses :: "addr_answer list \<Rightarrow> process \<Rightarrow> int \<times> process" where
  "dial_addresses [] p = (-1, p)"
| "dial_addresses (NoSocket e # as) p = dial_addresses as p"
| "dial_addresses (Refused e # as) p = (let (fd, p1) = sys_socket p in dial_addresses as (sys_close fd p1))"
| "dial_addresses (Connects k ck # as) p = sys_socket p"

text \<open>A name that resolves. \<open>fd_\<close> is overwritten by the new descriptor, whatever it was.\<close>

definition handle_connect :: "nat \<Rightarrow> addr_answer list \<Rightarrow> process \<Rightarrow> (bool \<times> process) option" where
  "handle_connect i as p =
     (if pr_sockets p i = None then None
      else let (fd, p1) = dial_addresses as p
           in if fd < 0 then Some (False, p1) else Some (True, set_fd i fd p1))"

definition handle_is_open :: "nat \<Rightarrow> process \<Rightarrow> bool option" where
  "handle_is_open i p = map_option (\<lambda>fd. 0 \<le> fd) (pr_sockets p i)"

text \<open>\<open>pick_ephemeral_port\<close>: a bound socket tells its port and is closed; the answers of \<open>bind\<close> and
  \<open>getsockname\<close> are given.\<close>

definition pick_ephemeral_port :: "bool \<Rightarrow> bool \<Rightarrow> u16 option \<Rightarrow> process \<Rightarrow> int \<times> process" where
  "pick_ephemeral_port have_socket binds port p =
     (if \<not> have_socket then (-1, p)
      else let (fd, p1) = sys_socket p
           in if \<not> binds then (-1, sys_close fd p1)
              else case port of
                     None \<Rightarrow> (-1, sys_close fd p1)
                   | Some n \<Rightarrow> (uint n, sys_close fd p1))"

datatype handle_op =
    H_New nat | H_Destroy nat | H_Move_New nat nat | H_Move_Assign nat nat | H_From_Fd nat int
  | H_Connect nat "addr_answer list" | H_Close nat

fun handle_act :: "handle_op \<Rightarrow> process \<Rightarrow> process option" where
  "handle_act (H_New i) p = handle_new i p"
| "handle_act (H_Destroy i) p = handle_destroy i p"
| "handle_act (H_Move_New i j) p = handle_move_new i j p"
| "handle_act (H_Move_Assign i j) p = handle_move_assign i j p"
| "handle_act (H_From_Fd i fd) p = handle_from_fd i fd p"
| "handle_act (H_Connect i as) p = map_option snd (handle_connect i as p)"
| "handle_act (H_Close i) p = handle_close i p"

text \<open>What the class asks of its users: adopt an open descriptor no socket has, and connect a closed socket.\<close>

fun handle_care :: "handle_op \<Rightarrow> process \<Rightarrow> bool" where
  "handle_care (H_From_Fd i fd) p \<longleftrightarrow> fd < 0 \<or> fd \<in> set (pr_open p) \<and> fd \<notin> ran (pr_sockets p)"
| "handle_care (H_Connect i as) p \<longleftrightarrow> handle_is_open i p \<noteq> Some True"
| "handle_care _ p \<longleftrightarrow> True"

fun handle_run :: "handle_op list \<Rightarrow> process \<Rightarrow> process option" where
  "handle_run [] p = Some p"
| "handle_run (a # as) p = (if handle_care a p then Option.bind (handle_act a p) (handle_run as) else None)"

section \<open>Ownership\<close>

definition owned :: "process \<Rightarrow> int set" where
  "owned p = {fd \<in> ran (pr_sockets p). 0 \<le> fd}"

definition unowned :: "process \<Rightarrow> int set" where
  "unowned p = set (pr_open p) - owned p"

definition one_owner :: "process \<Rightarrow> bool" where
  "one_owner p \<longleftrightarrow> (\<forall>i j fd. pr_sockets p i = Some fd \<longrightarrow> pr_sockets p j = Some fd \<longrightarrow> 0 \<le> fd \<longrightarrow> i = j)"

definition handles_ok :: "process \<Rightarrow> bool" where
  "handles_ok p \<longleftrightarrow> (\<forall>fd \<in> set (pr_open p). 0 \<le> fd) \<and> owned p \<subseteq> set (pr_open p) \<and> pr_bad_closes p = [] \<and> one_owner p"

lemma lowest_free: "lowest_free xs \<notin> set xs" "0 \<le> lowest_free xs"
proof -
  let ?free = "filter (\<lambda>n. n \<notin> set xs) (map int [0..<Suc (length xs)])"
  have "?free \<noteq> []"
  proof
    assume "?free = []"
    then have "set (map int [0..<Suc (length xs)]) \<subseteq> set xs" unfolding filter_empty_conv by blast
    then have "card (set (map int [0..<Suc (length xs)])) \<le> length xs"
      by (meson List.finite_set card_length card_mono le_trans)
    then show False by (simp add: card_image distinct_card distinct_map del: upt_Suc)
  qed
  then have "hd ?free \<in> set ?free" by (rule hd_in_set)
  then show "lowest_free xs \<notin> set xs" "0 \<le> lowest_free xs" by (auto simp: lowest_free_def)
qed

lemma close_new [simp]: "sys_close (fst (sys_socket p)) (snd (sys_socket p)) = p"
  by (simp add: sys_close_def sys_socket_def Let_def removeAll_id lowest_free)

lemma dial_addresses_cases:
  "dial_addresses as p = (case first_connected e as of Inl _ \<Rightarrow> (-1, p) | Inr _ \<Rightarrow> sys_socket p)"
proof (induction as arbitrary: p e)
  case (Cons a as)
  then show ?case by (cases a) (simp_all add: case_prod_beta Let_def)
qed simp

text \<open>Connecting agrees with the connect of the transport.\<close>

lemma handle_connect_agrees:
  assumes "handle_connect i as p = Some (ok, p')"
  shows "ok \<longleftrightarrow> (\<exists>kc. fst (socket_connect host port (w\<lparr>nt_answers := Inr as # rest\<rparr>)) = Inr kc)"
  using assms lowest_free(2) [of "pr_open p"]
  by (auto simp: handle_connect_def dial_addresses_cases [of as p "[]"] socket_connect_def sys_socket_def Let_def split: sum.splits if_splits)

text \<open>Probing a port leaves no descriptor behind.\<close>

lemma pick_ephemeral_port_clean:
  "snd (pick_ephemeral_port s b n p) = p" "fst (pick_ephemeral_port s b n p) \<in> {-1..65535}"
proof -
  show "snd (pick_ephemeral_port s b n p) = p"
    by (simp add: pick_ephemeral_port_def case_prod_beta Let_def split: option.split)
  have "uint m \<le> 65535" for m :: u16 using uint_bounded [of m] by simp
  then show "fst (pick_ephemeral_port s b n p) \<in> {-1..65535}"
    by (auto simp: pick_ephemeral_port_def case_prod_beta Let_def intro: order_trans [OF _ uint_ge_0] split: option.split)
qed


lemma owned_iff: "fd \<in> owned p \<longleftrightarrow> 0 \<le> fd \<and> (\<exists>i. pr_sockets p i = Some fd)"
  by (auto simp: owned_def ran_def)

text \<open>Writing to a slot that has no descriptor adds the one written; emptying a slot removes its own.\<close>

abbreviation vacant :: "process \<Rightarrow> nat \<Rightarrow> bool" where
  "vacant p i \<equiv> \<forall>fd. pr_sockets p i = Some fd \<longrightarrow> fd < 0"

lemma owned_write: "vacant p i \<Longrightarrow> pr_sockets p' = (pr_sockets p)(i := x) \<Longrightarrow>
    owned p' = owned p \<union> {fd. x = Some fd \<and> 0 \<le> fd}"
  by (auto simp: owned_iff split: if_splits) (metis linorder_not_le)

lemma owned_clear:
  assumes "handles_ok p" "pr_sockets p i = Some fd" "x < 0" "pr_sockets p' = (pr_sockets p)(i \<mapsto> x)"
  shows "owned p' = owned p - {fd}"
proof
  show "owned p' \<subseteq> owned p - {fd}"
    using assms unfolding handles_ok_def one_owner_def by (auto simp: owned_iff split: if_splits)
  show "owned p - {fd} \<subseteq> owned p'"
    using assms by (auto simp: owned_iff) (metis option.inject)
qed

lemma owned_open: "handles_ok p \<Longrightarrow> pr_sockets p i = Some fd \<Longrightarrow> 0 \<le> fd \<Longrightarrow> fd \<in> set (pr_open p)"
  unfolding handles_ok_def using owned_iff by blast

lemma close_keeps:
  assumes "handles_ok p" "handle_close i p = Some p'"
  shows "handles_ok p' \<and> unowned p' = unowned p \<and> (\<exists>fd < 0. pr_sockets p' = (pr_sockets p)(i \<mapsto> fd))"
proof -
  obtain fd where fd: "pr_sockets p i = Some fd" using assms(2) by (auto simp: handle_close_def split: option.splits)
  show ?thesis
  proof (cases "0 \<le> fd")
    case True
    have p': "p' = set_fd i (-1) (p\<lparr>pr_open := removeAll fd (pr_open p)\<rparr>)"
      using assms(2) True fd owned_open [OF assms(1) fd True] by (simp add: handle_close_def sys_close_def)
    have own: "owned p' = owned p - {fd}"
      by (rule owned_clear [OF assms(1) fd, of "-1"]) (simp_all add: p' set_fd_def)
    moreover have "fd \<in> owned p" using fd True by (auto simp: owned_iff)
    ultimately have "unowned p' = unowned p" by (auto simp: unowned_def p' set_fd_def)
    moreover have "one_owner p'"
      using assms(1) unfolding handles_ok_def one_owner_def p' by (simp add: set_fd_def split: if_splits)
    then have "handles_ok p'" using assms(1) own by (auto simp: handles_ok_def p' set_fd_def)
    moreover have "pr_sockets p' = (pr_sockets p)(i \<mapsto> - 1)" by (simp add: p' set_fd_def)
    ultimately show ?thesis by (intro conjI exI [of _ "- 1"]) simp_all
  next
    case False
    then have "p' = p" using assms(2) fd by (simp add: handle_close_def)
    then show ?thesis using assms(1) False fd by (auto intro!: exI [of _ fd])
  qed
qed

lemma destroy_keeps:
  assumes "handles_ok p" "vacant p i"
  shows "handles_ok (p\<lparr>pr_sockets := (pr_sockets p)(i := None)\<rparr>)"
    "unowned (p\<lparr>pr_sockets := (pr_sockets p)(i := None)\<rparr>) = unowned p"
  using assms owned_write [OF assms(2), of "p\<lparr>pr_sockets := (pr_sockets p)(i := None)\<rparr>" None]
  by (auto simp: handles_ok_def one_owner_def unowned_def split: if_splits)

text \<open>A slot without a descriptor takes one over from another slot, or one that no socket has.\<close>

lemma move_keeps:
  assumes "handles_ok p" "pr_sockets p j = Some fd" "i \<noteq> j" "vacant p i"
  shows "handles_ok (set_fd j (-1) (set_fd i fd p)) \<and> unowned (set_fd j (-1) (set_fd i fd p)) = unowned p"
proof -
  let ?p1 = "set_fd j (-1) p" and ?p2 = "set_fd j (-1) (set_fd i fd p)"
  have "owned ?p1 = owned p - {fd}" by (rule owned_clear [OF assms(1,2), of "-1"]) (simp_all add: set_fd_def)
  moreover have "owned ?p2 = owned ?p1 \<union> {e. Some fd = Some e \<and> 0 \<le> e}"
    using assms(3,4) by (intro owned_write [of ?p1 i]) (simp_all add: set_fd_def fun_upd_twist)
  moreover have "0 \<le> fd \<Longrightarrow> fd \<in> owned p" using assms(2) by (auto simp: owned_iff)
  moreover have "fd \<in> owned p \<Longrightarrow> 0 \<le> fd" by (simp add: owned_iff)
  ultimately have own: "owned ?p2 = owned p" by auto
  have one: "a = b" if "one_owner p" "0 \<le> e" "pr_sockets p a = Some e" "pr_sockets p b = Some e" for a b e
    using that unfolding one_owner_def by blast
  have "one_owner ?p2"
    unfolding one_owner_def set_fd_def using assms one [of fd] one by (simp add: handles_ok_def split: if_splits) metis
  then show ?thesis using assms(1) own by (simp add: handles_ok_def unowned_def set_fd_def)
qed

lemma adopt_keeps:
  assumes "handles_ok p" "fd < 0 \<or> fd \<in> set (pr_open p) \<and> fd \<notin> ran (pr_sockets p)"
    "vacant p i"
  shows "handles_ok (set_fd i fd p) \<and> unowned (set_fd i fd p) \<subseteq> unowned p - {fd}"
proof -
  have own: "owned (set_fd i fd p) = owned p \<union> {e. Some fd = Some e \<and> 0 \<le> e}"
    by (rule owned_write [OF assms(3)]) (simp add: set_fd_def)
  have "one_owner p" "0 \<le> fd \<Longrightarrow> fd \<notin> ran (pr_sockets p)" using assms(1,2) by (auto simp: handles_ok_def)
  then have "one_owner (set_fd i fd p)"
    unfolding one_owner_def set_fd_def ran_def by (simp split: if_splits) metis
  moreover have "fd < 0 \<Longrightarrow> fd \<notin> set (pr_open p)" using assms(1) unfolding handles_ok_def by force
  ultimately show ?thesis using assms own by (auto simp: handles_ok_def unowned_def set_fd_def)
qed

lemma connect_keeps:
  assumes "handles_ok p" "handle_connect i as p = Some (ok, p')" "handle_is_open i p \<noteq> Some True"
  shows "handles_ok p' \<and> unowned p' \<subseteq> unowned p"
proof -
  let ?p1 = "snd (sys_socket p)" and ?fd = "lowest_free (pr_open p)"
  have fresh: "?fd \<notin> set (pr_open p)" "0 \<le> ?fd" by (rule lowest_free)+
  have new: "fst (sys_socket p) = ?fd" "?p1 = p\<lparr>pr_open := ?fd # pr_open p\<rparr>" by (simp_all add: sys_socket_def Let_def)
  have "p' = p \<or> p' = set_fd i ?fd ?p1"
    unfolding new(2) [symmetric] using assms(2) new(1) fresh(2) by (auto simp: handle_connect_def dial_addresses_cases [of as p "[]"] case_prod_beta split: sum.splits if_splits)
  moreover have "handles_ok (set_fd i ?fd ?p1) \<and> unowned (set_fd i ?fd ?p1) \<subseteq> unowned ?p1 - {?fd}"
  proof (rule adopt_keeps)
    have "owned ?p1 = owned p" by (auto simp: new owned_iff)
    then show "handles_ok ?p1" using assms(1) fresh by (auto simp: new handles_ok_def one_owner_def)
    show "?fd < 0 \<or> ?fd \<in> set (pr_open ?p1) \<and> ?fd \<notin> ran (pr_sockets ?p1)"
      using assms(1) fresh by (auto simp: new handles_ok_def owned_def)
    show "vacant ?p1 i"
      using assms(3) by (auto simp: new handle_is_open_def)
  qed
  moreover have "unowned ?p1 - {?fd} \<subseteq> unowned p" by (auto simp: new unowned_def owned_iff)
  ultimately show ?thesis using assms(1) by auto
qed

lemma handle_act_keeps:
  assumes "handles_ok p" "handle_care a p" "handle_act a p = Some p'"
  shows "handles_ok p' \<and> unowned p' \<subseteq> unowned p"
proof (cases a)
  case (H_New i)
  then show ?thesis using assms adopt_keeps [OF assms(1), of "-1" i] by (auto simp: handle_new_def split: if_splits)
next
  case (H_Destroy i)
  then obtain p1 where p1: "handle_close i p = Some p1" "p' = p1\<lparr>pr_sockets := (pr_sockets p1)(i := None)\<rparr>"
    using assms(3) by (auto simp: handle_destroy_def)
  with close_keeps [OF assms(1) p1(1)] obtain fd where "handles_ok p1" "unowned p1 = unowned p" "fd < 0" "pr_sockets p1 i = Some fd"
    by auto
  then show ?thesis using destroy_keeps [of p1 i] p1(2) by simp
next
  case (H_Move_New i j)
  then obtain fd where "pr_sockets p i = None" "pr_sockets p j = Some fd" "p' = set_fd j (-1) (set_fd i fd p)"
    using assms(3) by (auto simp: handle_move_new_def split: option.splits)
  moreover have "i \<noteq> j" using calculation(1,2) by auto
  ultimately show ?thesis using move_keeps [OF assms(1), of j fd i] by simp
next
  case (H_Move_Assign i j)
  show ?thesis
  proof (cases "i = j")
    case True
    then show ?thesis using assms H_Move_Assign by (auto simp: handle_move_assign_def split: if_splits)
  next
    case False
    then obtain p1 fd where p1: "handle_close i p = Some p1" "pr_sockets p1 j = Some fd" "p' = set_fd j (-1) (set_fd i fd p1)"
      using assms(3) H_Move_Assign by (auto simp: handle_move_assign_def split: if_splits Option.bind_splits)
    with close_keeps [OF assms(1) p1(1)] show ?thesis using move_keeps [of p1 j fd i] False by auto
  qed
next
  case (H_From_Fd i fd)
  then show ?thesis using assms adopt_keeps [OF assms(1), of fd i] by (auto simp: handle_from_fd_def split: if_splits)
next
  case (H_Connect i as)
  then obtain ok where "handle_connect i as p = Some (ok, p')" using assms(3) by auto
  then show ?thesis using connect_keeps [OF assms(1)] assms(2) H_Connect by simp
next
  case (H_Close i)
  then show ?thesis using assms close_keeps [OF assms(1), of i p'] by simp
qed

lemma handle_run_keeps:
  "handle_run as p = Some p' \<Longrightarrow> handles_ok p \<Longrightarrow> handles_ok p' \<and> unowned p' \<subseteq> unowned p"
proof (induction as arbitrary: p)
  case (Cons a as)
  then obtain p1 where "handle_care a p" "handle_act a p = Some p1" "handle_run as p1 = Some p'"
    by (auto split: if_splits Option.bind_splits)
  then show ?case using handle_act_keeps [OF Cons.prems(2)] Cons.IH [of p1] by blast
qed simp

text \<open>A step is undefined only outside the lifetime of the objects it names.\<close>

fun handle_alive :: "handle_op \<Rightarrow> process \<Rightarrow> bool" where
  "handle_alive (H_New i) p \<longleftrightarrow> pr_sockets p i = None"
| "handle_alive (H_Destroy i) p \<longleftrightarrow> pr_sockets p i \<noteq> None"
| "handle_alive (H_Move_New i j) p \<longleftrightarrow> pr_sockets p i = None \<and> pr_sockets p j \<noteq> None"
| "handle_alive (H_Move_Assign i j) p \<longleftrightarrow> pr_sockets p i \<noteq> None \<and> pr_sockets p j \<noteq> None"
| "handle_alive (H_From_Fd i fd) p \<longleftrightarrow> pr_sockets p i = None"
| "handle_alive (H_Connect i as) p \<longleftrightarrow> pr_sockets p i \<noteq> None"
| "handle_alive (H_Close i) p \<longleftrightarrow> pr_sockets p i \<noteq> None"

lemma handle_close_sockets: "handle_close i p = Some p1 \<Longrightarrow> i \<noteq> j \<Longrightarrow> pr_sockets p1 j = pr_sockets p j"
  by (auto simp: handle_close_def set_fd_def sys_close_def split: option.splits)

lemma handle_close_alive: "handle_close i p = None \<longleftrightarrow> pr_sockets p i = None"
  by (simp add: handle_close_def split: option.split)

lemma handle_act_alive: "(\<exists>p'. handle_act a p = Some p') \<longleftrightarrow> handle_alive a p"
proof (cases a)
  case (H_Move_Assign i j)
  show ?thesis
  proof (cases "handle_close i p")
    case (Some p1)
    have "pr_sockets p i \<noteq> None" using Some handle_close_alive [of i p] by auto
    then show ?thesis using H_Move_Assign Some handle_close_sockets [OF Some, of j]
      by (auto simp: handle_move_assign_def)
  qed (use H_Move_Assign in \<open>auto simp: handle_move_assign_def handle_close_alive\<close>)
qed (auto simp: handle_new_def handle_destroy_def handle_move_new_def handle_from_fd_def handle_connect_def handle_close_def
  case_prod_beta Let_def split: option.splits)

text \<open>
  C24: Descriptors are closed exactly once. A process starts without sockets, with any open descriptors. However
  its sockets are then made, moved, assigned to each other or to themselves, made to adopt descriptors,
  connected over any addresses, closed and destroyed, as long as objects are used within their lifetime, a
  descriptor adopted is open and no other socket's, and no connected socket connects again: no close ever hits
  a descriptor that is not open, no two sockets have the same, those of the sockets are open, and every other
  descriptor still open was there at the start. Once the last socket is gone, nothing it opened is left.
\<close>

theorem sockets_own_descriptors:
  assumes "handle_run as p = Some p'" "pr_sockets p = Map.empty" "pr_bad_closes p = []" "\<forall>fd \<in> set (pr_open p). 0 \<le> fd"
  shows "pr_bad_closes p' = []
    \<and> (\<forall>i j fd. pr_sockets p' i = Some fd \<and> pr_sockets p' j = Some fd \<and> 0 \<le> fd \<longrightarrow> i = j)
    \<and> owned p' \<subseteq> set (pr_open p') \<and> set (pr_open p') \<subseteq> set (pr_open p) \<union> owned p'
    \<and> (pr_sockets p' = Map.empty \<longrightarrow> set (pr_open p') \<subseteq> set (pr_open p))"
proof -
  have "handles_ok p" using assms(2-4) by (simp add: handles_ok_def one_owner_def owned_def)
  note kept = handle_run_keeps [OF assms(1) this]
  have "unowned p = set (pr_open p)" using assms(2) by (simp add: unowned_def owned_def)
  then have "set (pr_open p') \<subseteq> set (pr_open p) \<union> owned p'" using kept by (auto simp: unowned_def)
  moreover have "owned p' = {}" if "pr_sockets p' = Map.empty" using that by (simp add: owned_def)
  ultimately show ?thesis using kept by (auto simp: handles_ok_def one_owner_def)
qed

definition sample_connect :: "addr_answer list" where
  "sample_connect = [Refused ''refused'', Connects \<lparr>sk_open = True, sk_sends = [], sk_recvs = [], sk_wire = []\<rparr>
     \<lparr>ck_now = 0, ck_later = []\<rparr>]"

definition sample_handles :: "handle_op list" where
  "sample_handles = [H_New 0, H_Connect 0 sample_connect, H_Move_New 1 0, H_New 2, H_Connect 2 sample_connect,
     H_Move_Assign 2 1, H_Move_Assign 2 2, H_From_Fd 3 1, H_Destroy 3, H_Destroy 2, H_Destroy 1, H_Destroy 0]"

theorem sockets_own_descriptors_witness:
  "\<exists>p'. handle_run sample_handles \<lparr>pr_open = [0, 1, 2], pr_sockets = Map.empty, pr_bad_closes = []\<rparr> = Some p'
    \<and> pr_open p' = [0, 2] \<and> pr_bad_closes p' = []"
proof -
  let ?p = "\<lparr>pr_open = [0, 1, 2], pr_sockets = Map.empty, pr_bad_closes = []\<rparr>"
  have "map_option pr_open (handle_run sample_handles ?p) = Some [0, 2]"
    by (simp add: sample_handles_def sample_connect_def handle_new_def handle_connect_def handle_move_new_def
        handle_move_assign_def handle_from_fd_def handle_destroy_def handle_close_def handle_is_open_def sys_socket_def
        sys_close_def set_fd_def lowest_free_def ran_def Let_def upt_rec)
  then obtain p' where p': "handle_run sample_handles ?p = Some p'" "pr_open p' = [0, 2]" by auto
  then show ?thesis using sockets_own_descriptors [OF p'(1)] by simp
qed

text \<open>Without it, a connected socket that connects again leaks: its old descriptor stays open for good.\<close>

lemma second_connect_leaks:
  assumes "handles_ok p" "pr_sockets p i = Some fd" "0 \<le> fd" "handle_connect i (Connects k ck # as) p = Some (ok, p')"
  shows "ok \<and> fd \<in> unowned p'"
proof -
  have fresh: "lowest_free (pr_open p) \<notin> set (pr_open p)" "0 \<le> lowest_free (pr_open p)" by (rule lowest_free)+
  let ?new = "lowest_free (pr_open p)"
  let ?q = "set_fd i ?new (p\<lparr>pr_open := ?new # pr_open p\<rparr>)"
  have p': "ok" "p' = ?q"
    using assms(2,4) fresh(2) by (simp_all add: handle_connect_def sys_socket_def Let_def split: if_splits)
  have open_fd: "fd \<in> set (pr_open p)" by (rule owned_open [OF assms(1-3)])
  have "j = i" if "pr_sockets p j = Some fd" for j
    using assms(1-3) that unfolding handles_ok_def one_owner_def by blast
  moreover have "fd \<noteq> ?new" using open_fd fresh(1) by auto
  ultimately have "fd \<notin> owned ?q" by (auto simp: owned_iff set_fd_def split: if_splits)
  then show ?thesis using open_fd p' by (simp add: unowned_def set_fd_def)
qed

end
