(* ===== verification/Latency_Bench.thy ===== *)
theory Latency_Bench
  imports Fix_Convert Bist_Options Transport_Control Gateway_Serve
begin

text \<open>
  \<open>apps/tools/latency_bench.cpp\<close>: the number of samples asked for, the samples kept, and the percentiles
  printed. The session that is timed is the one of the session theories; the times themselves come
  from the clock. Doubles are the rationals of Fix_Convert.
\<close>

section \<open>Options\<close>

definition kDefaultSamples :: u64 where "kDefaultSamples = 5000"
definition kWarmup :: u64 where "kWarmup = 200"

text \<open>\<open>std::atoll\<close> into a \<open>size_t\<close>; a value beyond \<open>long long\<close> is undefined.\<close>

definition atoll_size :: "string \<Rightarrow> u64 option" where
  "atoll_size s = (let v = atoi_value s in if - (2 ^ 63) \<le> v \<and> v < 2 ^ 63 then Some (word_of_int v) else None)"

function samples_wanted :: "string list \<Rightarrow> u64 \<Rightarrow> u64 option" where
  "samples_wanted [] n = Some n"
| "samples_wanted (arg # args) n =
     (if arg = ''--samples'' \<and> args \<noteq> []
      then Option.bind (atoll_size (hd args)) (samples_wanted (tl args))
      else samples_wanted args n)"
  by pat_completeness auto
termination
  by (relation "measure (\<lambda>(args, n). length args)") auto

declare samples_wanted.simps(2) [simp del]

definition bench_samples :: "string list \<Rightarrow> u64 option" where
  "bench_samples args = map_option (\<lambda>n. if n < 100 then 100 else n) (samples_wanted args kDefaultSamples)"

section \<open>The timed session\<close>

text \<open>The client over its session, the readings the tool itself takes of the clock, and the variables
  the handler of acceptances shares with the loop.\<close>

record bench =
  bn_client :: ouch_client
  bn_clock :: clock
  bn_rtt :: "u64 list"
  bn_got_ack :: bool
  bn_last_send_ns :: u64

definition bench_handlers :: handlers where
  "bench_handlers = \<lparr>on_accepted = True, on_rejected = False, on_replaced = False, on_canceled = False,
     on_executed = False, on_mass_quote_ack = False, on_mass_quote_reject = False, on_state_change = False,
     on_audit_sent = False, on_audit_recv = False\<rparr>"

fun bench_event :: "event \<Rightarrow> bench \<Rightarrow> bench" where
  "bench_event (Accepted m) b =
     (let (now, ck) = read_clock (bn_clock b)
      in b\<lparr>bn_clock := ck, bn_rtt := bn_rtt b @ [now - bn_last_send_ns b], bn_got_ack := True\<rparr>)"
| "bench_event _ b = b"

text \<open>The events of a call on the session, and the session after it.\<close>

definition bench_absorb :: "ouch_session \<Rightarrow> bench \<Rightarrow> bench" where
  "bench_absorb s b =
     fold bench_event (ss_events s) (b\<lparr>bn_client := (bn_client b)\<lparr>oc_session := s\<lparr>ss_events := []\<rparr>\<rparr>\<rparr>)"

definition bench_order :: "nat \<Rightarrow> place_args" where
  "bench_order i =
     \<lparr>pa_symbol = ''ACSEL.E'', pa_order_book_id = 70616, pa_side = Buy, pa_quantity = 1, pa_price = 6000, pa_tif = Day,
      pa_open_close = DefaultForAccount, pa_category = Client, pa_display_quantity = 0, pa_client_account = [],
      pa_customer_info = [], pa_exchange_info = [], pa_explicit_token = ''T'' @ dec i, pa_off_hours = 0\<rparr>"

text \<open>Polling until the acceptance is in; it may go on for ever.\<close>

partial_function (option) await_ack :: "bench \<Rightarrow> (unit result \<times> bench) option" where
  "await_ack b =
     (if bn_got_ack b then Some (Inr (), b)
      else case poll_io (oc_session (bn_client b)) of
        None \<Rightarrow> None
      | Some (Inl e, s) \<Rightarrow> Some (Inl e, bench_absorb s b)
      | Some (Inr _, s) \<Rightarrow> await_ack (bench_absorb s b))"

definition bench_place :: "nat \<Rightarrow> bench \<Rightarrow> order_token result \<times> bench" where
  "bench_place i b =
     (let (now, ck) = read_clock (bn_clock b);
          b1 = b\<lparr>bn_got_ack := False, bn_clock := ck, bn_last_send_ns := now\<rparr>;
          (res, c) = place (bench_order i) (bn_client b1)
      in (res, bench_absorb (oc_session c) (b1\<lparr>bn_client := c\<rparr>)))"

text \<open>\<open>pop_back\<close> of an empty vector is undefined.\<close>

definition bench_turn :: "nat \<Rightarrow> bench \<Rightarrow> (unit result \<times> bench) option" where
  "bench_turn i b =
     (case bench_place i b of
        (Inl e, b1) \<Rightarrow> Some (Inl e, b1)
      | (Inr _, b1) \<Rightarrow>
          (case await_ack b1 of
             Some (Inr _, b2) \<Rightarrow>
               (if i < unat kWarmup
                then if bn_rtt b2 = [] then None else Some (Inr (), b2\<lparr>bn_rtt := butlast (bn_rtt b2)\<rparr>)
                else Some (Inr (), b2))
           | x \<Rightarrow> x))"

text \<open>The turns from \<open>i\<close> on, \<open>n\<close> of them.\<close>

fun bench_loop :: "nat \<Rightarrow> nat \<Rightarrow> bench \<Rightarrow> (unit result \<times> bench) option" where
  "bench_loop 0 i b = Some (Inr (), b)"
| "bench_loop (Suc n) i b =
     (case bench_turn i b of
        Some (Inr _, b1) \<Rightarrow> bench_loop n (i + 1) b1
      | x \<Rightarrow> x)"

partial_function (option) bench_login :: "ouch_session \<Rightarrow> (unit result \<times> ouch_session) option" where
  "bench_login s =
     (if ss_state s \<noteq> LoggingIn then Some (Inr (), s)
      else case poll_io s of
        None \<Rightarrow> None
      | Some (Inl e, s1) \<Rightarrow> Some (Inl e, s1)
      | Some (Inr _, s1) \<Rightarrow> bench_login s1)"

section \<open>Percentiles\<close>

text \<open>The index is the product of two doubles cut off to an integer; an index past the end is undefined.
  The vector stays sorted.\<close>

definition percentile_index :: "rat \<Rightarrow> nat \<Rightarrow> int" where
  "percentile_index p n = trunc_rat (to_double (p * to_double (of_nat (n - 1))))"

definition percentile :: "u64 list \<Rightarrow> rat \<Rightarrow> (rat \<times> u64 list) option" where
  "percentile v p =
     (if v = [] then Some (0, v)
      else let w = sort v; i = percentile_index p (length w)
           in if 0 \<le> i \<and> i < int (length w) then Some (to_double (of_nat (unat (w ! nat i))), w) else None)"

section \<open>The tool\<close>

text \<open>The five values printed, in microseconds, each from the vector the one before sorted.\<close>

fun percentiles :: "rat list \<Rightarrow> u64 list \<Rightarrow> rat list option" where
  "percentiles [] v = Some []"
| "percentiles (p # ps) v =
     (case percentile v p of None \<Rightarrow> None
      | Some (x, w) \<Rightarrow> map_option ((#) (to_double (x / 1000))) (percentiles ps w))"

definition bench_shares :: "rat list" where
  "bench_shares = map to_double [1 / 2, 9 / 10, 99 / 100, 999 / 1000, 1]"

text \<open>\<open>max_size()\<close> of a vector of 8-byte elements; \<open>reserve\<close> throws above it.\<close>

definition max_vector :: u64 where "max_vector = 2 ^ 60 - 1"

datatype bench_end = Exits_1 | Prints nat "rat list"

text \<open>What the world answers: the listening socket of the mock gateway, the name service and the sockets,
  and the clock of the tool. The gateway's own side of the connection is the script of the socket.\<close>

record bench_world =
  bw_listen :: listen_answer
  bw_net :: net
  bw_clock :: clock

definition bench_client :: "ouch_session \<Rightarrow> ouch_client" where
  "bench_client s = \<lparr>oc_session = s, oc_tokens = token_registry_init ''C-'', oc_throttler = throttler_init 100000 100000,
     oc_book = Map.empty\<rparr>"

definition bench_run :: "nat \<Rightarrow> tcp_socket \<Rightarrow> clock \<Rightarrow> clock \<Rightarrow> (unit result \<times> bench) option" where
  "bench_run n k ck tool_ck =
     (let lp = \<lparr>lp_username = ''TEST01'', lp_password = ''123456'', lp_requested_session = [], lp_requested_sequence = 0\<rparr>;
          bench_at = (\<lambda>s. \<lparr>bn_client = bench_client s, bn_clock = tool_ck, bn_rtt = [], bn_got_ack = False, bn_last_send_ns = 0\<rparr>)
      in case begin_login (session_init k bench_handlers lp kHeartbeatSendNs kHeartbeatTimeoutNs ck) of
           (Inl e, s) \<Rightarrow> Some (Inl e, bench_at s)
         | (Inr _, s) \<Rightarrow>
             (case bench_login s of
                None \<Rightarrow> None
              | Some (Inl e, s1) \<Rightarrow> Some (Inl e, bench_at s1)
              | Some (Inr _, s1) \<Rightarrow>
                  (if ss_state s1 \<noteq> Active then Some (Inl (make_error Reject ''login not Active''), bench_at s1)
                   else bench_loop (n + unat kWarmup) 0 (bench_absorb s1 (bench_at s1)))))"

definition bench_main :: "string list \<Rightarrow> bench_world \<Rightarrow> bench_end option" where
  "bench_main args w =
     (case bench_samples args of
        None \<Rightarrow> None
      | Some n \<Rightarrow>
          (case gateway_start (bw_listen w) True listener_init of
             (Inl e, l) \<Rightarrow> Some Exits_1
           | (Inr port, l) \<Rightarrow>
               (case socket_connect ''127.0.0.1'' port (bw_net w) of
                  (Inl e, w1) \<Rightarrow> Some Exits_1
                | (Inr (k, ck), w1) \<Rightarrow>
                    if n > max_vector then None
                    else (case bench_run (unat n) k ck (bw_clock w) of
                            None \<Rightarrow> None
                          | Some (Inl e, b) \<Rightarrow> Some Exits_1
                          | Some (Inr _, b) \<Rightarrow>
                              map_option (Prints (length (bn_rtt b))) (percentiles bench_shares (bn_rtt b))))))"

lemma trunc_rat_near:
  assumes "\<bar>y - x\<bar> < 1" "0 \<le> y"
  shows "of_int (trunc_rat y) < x + 1" "x - 2 < of_int (trunc_rat y)" "0 \<le> trunc_rat y"
  using assms unfolding trunc_rat_def by (auto simp: not_less) linarith+

lemma close_nonneg:
  assumes "\<bar>y - x\<bar> \<le> x / 2 ^ 53" "(0 :: rat) \<le> x"
  shows "0 \<le> y"
proof -
  have "x / 2 ^ 53 \<le> x" using assms(2) by simp
  then show ?thesis using assms(1) by linarith
qed

lemma last_sorted:
  fixes v :: "u64 list"
  assumes "v \<noteq> []"
  shows "sort v ! (length v - 1) = Max (set v)"
proof -
  have ne: "sort v \<noteq> []" using assms by (metis set_empty set_sort)
  have "x \<le> last (sort v)" if "x \<in> set v" for x
  proof -
    have "x \<in> set (sort v)" using that by simp
    then obtain j where "j < length (sort v)" "x = sort v ! j" by (metis in_set_conv_nth)
    then show ?thesis using ne by (auto simp: last_conv_nth intro!: sorted_nth_mono)
  qed
  moreover have "last (sort v) \<in> set v" using last_in_set [OF ne] by simp
  ultimately have "Max (set v) = last (sort v)" by (intro Max_eqI) auto
  then show ?thesis using ne by (simp add: last_conv_nth)
qed

text \<open>
  A percentile never reads past the samples, and it is the sample of the rank it should be, up to the
  rounding of one product: for at most \<open>2 ^ 53\<close> samples and a share between 0 and 1, the value is the
  element of the sorted samples at an index less than 2 away from the share of the last index. The
  share 1 gives the largest sample.
\<close>

lemma percentile_within_samples:
  assumes "v \<noteq> []" "length v \<le> 2 ^ 53" "0 \<le> p" "p \<le> 1"
  shows "\<exists>i < length v. percentile v p = Some (to_double (of_nat (unat (sort v ! i))), sort v)
    \<and> \<bar>of_nat i - p * of_nat (length v - 1)\<bar> < 2 \<and> (p = 1 \<longrightarrow> sort v ! i = Max (set v))"
proof -
  let ?N = "of_nat (length v - 1) :: rat" and ?x = "p * of_nat (length v - 1)"
  let ?y = "to_double ?x"
  have bound: "?N < 2 ^ 53"
  proof -
    have "length v - 1 < 2 ^ 53" using assms(1,2) by (cases v) auto
    then have "(of_nat (length v - 1) :: rat) < of_nat (2 ^ 53)" by (simp only: of_nat_less_iff)
    then show ?thesis by simp
  qed
  have exact: "to_double ?N = ?N"
    using to_double_of_int [of "int (length v - 1)"] assms(2) by simp
  have x: "0 \<le> ?x" "?x \<le> ?N" using assms(3,4) by (simp_all add: mult_left_le_one_le)
  have err: "\<bar>?y - ?x\<bar> \<le> ?x / 2 ^ 53" using to_double_error [of ?x] x(1) by simp
  have small: "?x / 2 ^ 53 < 1" using x(2) bound by (simp add: divide_less_eq)
  have y: "0 \<le> ?y" by (rule close_nonneg [OF err x(1)])
  define t where "t = trunc_rat ?y"
  note near = trunc_rat_near [OF le_less_trans [OF err small] y, folded t_def]
  have "of_int t < ?N + 1" using near(1) x(2) by linarith
  also have "?N + 1 = of_int (int (length v))" using assms(1) by (cases v) simp_all
  finally have lt: "t < int (length v)" by (simp only: of_int_less_iff)
  let ?i = "nat t"
  have i: "?i < length v" using near(3) lt by simp
  have "percentile_index p (length v) = t"
    by (simp only: percentile_index_def exact t_def)
  then have "percentile v p = Some (to_double (of_nat (unat (sort v ! ?i))), sort v)"
    using assms(1) near(3) lt by (simp add: percentile_def Let_def)
  moreover have "\<bar>of_nat ?i - ?x\<bar> < 2"
  proof -
    have "(of_nat ?i :: rat) = of_int t" using near(3) by simp
    then show ?thesis using near(1,2) by linarith
  qed
  moreover have "p = 1 \<longrightarrow> sort v ! ?i = Max (set v)"
  proof
    assume "p = 1"
    then have "?y = of_int (int (length v - 1))" using exact by simp
    then have "?i = length v - 1" unfolding t_def by (simp only: trunc_rat_def) simp
    then show "sort v ! ?i = Max (set v)" using last_sorted [OF assms(1)] by simp
  qed
  ultimately show ?thesis using i by blast
qed

section \<open>Witness\<close>

end
