(* ===== verification/Bench_Laws.thy ===== *)
theory Bench_Laws
  imports Latency_Bench Order_Flow Transport_Login
begin

text \<open>
  What the latency bench measures. Against a gateway that accepts the login and answers each order, the
  loop ends, sends its orders one after the other and keeps one sample per order after the warm-up:
  the time between the two readings of the tool's clock. The session's clock moves on all the while: it
  sends its heartbeats, and the peer timeout does not trip as long as the answers come within its bound.
  In general no sample is lost and the warm-up takes back only samples it made.
\<close>

section \<open>The samples\<close>

lemma bench_event_rtt: "\<exists>new. bn_rtt (bench_event e b) = bn_rtt b @ new"
  by (cases e) (auto split: prod.splits)

lemma bench_events_rtt: "\<exists>new. bn_rtt (fold bench_event es b) = bn_rtt b @ new
    \<and> (bn_got_ack (fold bench_event es b) \<longrightarrow> bn_got_ack b \<or> new \<noteq> [])"
proof (induction es arbitrary: b)
  case (Cons e es)
  have step: "\<exists>new. bn_rtt (bench_event e b) = bn_rtt b @ new \<and> (bn_got_ack (bench_event e b) \<longrightarrow> bn_got_ack b \<or> new \<noteq> [])"
    by (cases e) (auto split: prod.splits)
  then show ?case using Cons.IH [of "bench_event e b"] by fastforce
qed simp

lemma bench_absorb_rtt: "\<exists>new. bn_rtt (bench_absorb s b) = bn_rtt b @ new
    \<and> (bn_got_ack (bench_absorb s b) \<longrightarrow> bn_got_ack b \<or> new \<noteq> [])"
  using bench_events_rtt [of "ss_events s" "b\<lparr>bn_client := (bn_client b)\<lparr>oc_session := s\<lparr>ss_events := []\<rparr>\<rparr>\<rparr>"]
  by (simp add: bench_absorb_def)

lemma await_ack_rtt:
  assumes "await_ack b = Some (Inr (), b')"
  shows "\<exists>new. bn_rtt b' = bn_rtt b @ new \<and> (bn_got_ack b \<or> new \<noteq> [])"
proof -
  have "fst y = Inr () \<longrightarrow> (\<exists>new. bn_rtt (snd y) = bn_rtt b @ new \<and> (bn_got_ack b \<or> new \<noteq> []))"
    if "await_ack b = Some y" for y
  proof (rule await_ack.raw_induct [where P = "\<lambda>b y. fst y = Inr () \<longrightarrow>
      (\<exists>new. bn_rtt (snd y) = bn_rtt b @ new \<and> (bn_got_ack b \<or> new \<noteq> []))", OF _ that])
    fix f b y
    assume IH: "\<And>b y. f b = Some y \<Longrightarrow> fst y = Inr () \<longrightarrow>
      (\<exists>new. bn_rtt (snd y) = bn_rtt b @ new \<and> (bn_got_ack b \<or> new \<noteq> []))"
      and run: "(if bn_got_ack b then Some (Inr (), b)
        else case poll_io (oc_session (bn_client b)) of None \<Rightarrow> None
          | Some (Inl e, s) \<Rightarrow> Some (Inl e, bench_absorb s b) | Some (Inr _, s) \<Rightarrow> f (bench_absorb s b)) = Some y"
    show "fst y = Inr () \<longrightarrow> (\<exists>new. bn_rtt (snd y) = bn_rtt b @ new \<and> (bn_got_ack b \<or> new \<noteq> []))"
    proof (cases "bn_got_ack b")
      case True
      then show ?thesis using run by auto
    next
      case False
      show ?thesis
      proof (cases "poll_io (oc_session (bn_client b))")
        case (Some p)
        obtain r s where p: "p = (r, s)" by fastforce
        obtain new where "bn_rtt (bench_absorb s b) = bn_rtt b @ new" "bn_got_ack (bench_absorb s b) \<longrightarrow> new \<noteq> []"
          using bench_absorb_rtt [of s b] False by blast
        note absorbed = this
        show ?thesis
        proof (cases r)
          case (Inl e)
          then show ?thesis using run False Some p by auto
        next
          case (Inr u)
          then have "f (bench_absorb s b) = Some y" using run False Some p by simp
          note rest = IH [OF this]
          show ?thesis
          proof
            assume "fst y = Inr ()"
            then obtain n2 where n2: "bn_rtt (snd y) = bn_rtt (bench_absorb s b) @ n2"
              "bn_got_ack (bench_absorb s b) \<or> n2 \<noteq> []" using rest by blast
            then show "\<exists>new. bn_rtt (snd y) = bn_rtt b @ new \<and> (bn_got_ack b \<or> new \<noteq> [])"
              using absorbed by (intro exI [of _ "new @ n2"]) auto
          qed
        qed
      qed (use run False in simp)
    qed
  qed
  then show ?thesis using assms by fastforce
qed

lemma bench_place_rtt: "\<exists>new. bn_rtt (snd (bench_place i b)) = bn_rtt b @ new
    \<and> (bn_got_ack (snd (bench_place i b)) \<longrightarrow> new \<noteq> [])"
proof -
  obtain now ck where c: "read_clock (bn_clock b) = (now, ck)" by fastforce
  let ?b1 = "b\<lparr>bn_got_ack := False, bn_clock := ck, bn_last_send_ns := now\<rparr>"
  obtain res c1 where p: "place (bench_order i) (bn_client ?b1) = (res, c1)" by fastforce
  show ?thesis using bench_absorb_rtt [of "oc_session c1" "?b1\<lparr>bn_client := c1\<rparr>"]
    by (simp add: bench_place_def c p [simplified])
qed

lemma bench_place_error: "fst (bench_place i b) = Inl e \<Longrightarrow> bench_turn i b = Some (Inl e, snd (bench_place i b))"
  by (cases "bench_place i b") (auto simp: bench_turn_def)

text \<open>A turn adds samples of its own, at least one of which is left when the warm-up is over; it is
  undefined only where the polling is.\<close>

lemma bench_turn_rtt:
  assumes "bench_turn i b = Some (Inr (), b')"
  shows "\<exists>new. bn_rtt b' = bn_rtt b @ new \<and> (unat kWarmup \<le> i \<longrightarrow> new \<noteq> [])"
proof -
  obtain t b1 where p: "bench_place i b = (Inr t, b1)"
    using assms by (auto simp: bench_turn_def split: prod.splits sum.splits)
  obtain b2 where a: "await_ack b1 = Some (Inr (), b2)"
    using assms p by (auto simp: bench_turn_def split: option.splits sum.splits)
  obtain n1 where n1: "bn_rtt b1 = bn_rtt b @ n1" "bn_got_ack b1 \<longrightarrow> n1 \<noteq> []"
    using bench_place_rtt [of i b] p by auto
  obtain n2 where n2: "bn_rtt b2 = bn_rtt b1 @ n2" "bn_got_ack b1 \<or> n2 \<noteq> []" using await_ack_rtt [OF a] by blast
  have new: "bn_rtt b2 = bn_rtt b @ n1 @ n2" "n1 @ n2 \<noteq> []" using n1 n2 by auto
  show ?thesis
  proof (cases "i < unat kWarmup")
    case True
    then have "bn_rtt b' = butlast (bn_rtt b2)" using assms p a new by (auto simp: bench_turn_def)
    then show ?thesis using new True by (auto simp: butlast_append)
  next
    case False
    then have "b' = b2" using assms p a by (simp add: bench_turn_def)
    then show ?thesis using new by blast
  qed
qed

lemma bench_turn_defined:
  assumes "bench_turn i b = None" "bench_place i b = (Inr t, b1)"
  shows "await_ack b1 = None"
proof (cases "await_ack b1")
  case (Some x)
  obtain r b2 where x: "x = (r, b2)" by fastforce
  have "bn_rtt b2 \<noteq> []" if "r = Inr ()"
    using that Some x await_ack_rtt [of b1 b2] bench_place_rtt [of i b] assms(2) by auto
  then show ?thesis using assms Some x by (cases r) (auto simp: bench_turn_def split: if_splits)
qed

lemma bench_loop_rtt:
  assumes "bench_loop n i b = Some (Inr (), b')"
  shows "\<exists>new. bn_rtt b' = bn_rtt b @ new \<and> i + n \<le> max i (unat kWarmup) + length new"
  using assms
proof (induction n arbitrary: i b)
  case (Suc n)
  obtain b1 where t: "bench_turn i b = Some (Inr (), b1)" and l: "bench_loop n (i + 1) b1 = Some (Inr (), b')"
    using Suc.prems by (auto split: option.splits prod.splits sum.splits)
  obtain n1 where n1: "bn_rtt b1 = bn_rtt b @ n1" "unat kWarmup \<le> i \<longrightarrow> n1 \<noteq> []" using bench_turn_rtt [OF t] by blast
  obtain n2 where n2: "bn_rtt b' = bn_rtt b1 @ n2" "i + 1 + n \<le> max (i + 1) (unat kWarmup) + length n2"
    using Suc.IH [OF l] by blast
  have "1 \<le> length n1" if "unat kWarmup \<le> i" using n1(2) that by (cases n1) auto
  then have "i + Suc n \<le> max i (unat kWarmup) + length (n1 @ n2)" using n2(2) by (auto simp: max_def split: if_splits)
  then show ?case using n1(1) n2(1) by auto
qed simp

section \<open>The clock of the session\<close>

text \<open>The readings the session takes of the clock, by number, and what is asked of them: the clock does not go
  back, and \<open>w\<close> readings in a row span less than the peer timeout.\<close>

definition reading :: "clock \<Rightarrow> nat \<Rightarrow> u64" where
  "reading ck i = ck_now ((tick ^^ i) ck)"

definition paced :: "nat \<Rightarrow> clock \<Rightarrow> bool" where
  "paced w ck \<longleftrightarrow> (\<forall>i j. i \<le> j \<longrightarrow> reading ck i \<le> reading ck j)
     \<and> (\<forall>i j. i \<le> j \<and> j \<le> i + w \<longrightarrow> reading ck j - reading ck i < ucast kHeartbeatTimeoutNs)"

lemma monotonic_reads:
  "ss_clock s = (tick ^^ d) ck \<Longrightarrow> monotonic_ns s = (reading ck d, s\<lparr>ss_clock := (tick ^^ Suc d) ck\<rparr>)"
  by (simp add: monotonic_ns_def reading_def tick_def case_prod_beta Let_def)

lemma reading_mono: "paced w ck \<Longrightarrow> i \<le> j \<Longrightarrow> win (reading ck i) \<le> win (reading ck j)"
  unfolding paced_def win_def by (metis word_le_nat_alt div_le_mono)

section \<open>A session at rest\<close>

text \<open>Logged in, nothing buffered, and a kernel that takes all bytes; \<open>d\<close> readings have been taken, the one of
  the last receipt as number \<open>i\<close>.\<close>

definition session_rests :: "clock \<Rightarrow> nat \<Rightarrow> nat \<Rightarrow> ouch_session \<Rightarrow> bool" where
  "session_rests ck i d s \<longleftrightarrow> ss_handlers s = bench_handlers \<and> ss_state s = Active \<and> sk_open (ss_socket s)
     \<and> sk_sends (ss_socket s) = [] \<and> ss_in_buffer s = [] \<and> ss_out_pending s = [] \<and> ss_events s = []
     \<and> ss_heartbeat_timeout_ns s = kHeartbeatTimeoutNs
     \<and> ss_clock s = (tick ^^ d) ck \<and> ss_last_recv_ns s = reading ck i \<and> i \<le> d"

text \<open>The timers send a heartbeat when one is due, and do not trip within the pace.\<close>

lemma timers_paced:
  assumes "paced w ck" "session_rests ck i d (s\<lparr>ss_events := []\<rparr>)" "d \<le> i + w"
  shows "\<exists>s' d'. tick_timers s = (Inr (), s') \<and> ss_events s' = ss_events s \<and> session_rests ck i d' (s'\<lparr>ss_events := []\<rparr>)
    \<and> d \<le> d' \<and> d' \<le> d + 2 \<and> sk_recvs (ss_socket s') = sk_recvs (ss_socket s)"
proof -
  have flush: "flush_pending s = s" using assms(2) by (simp add: flush_pending.simps session_rests_def)
  have clock: "monotonic_ns s = (reading ck d, s\<lparr>ss_clock := (tick ^^ Suc d) ck\<rparr>)"
    using assms(2) by (intro monotonic_reads) (simp add: session_rests_def)
  let ?s1 = "s\<lparr>ss_clock := (tick ^^ Suc d) ck\<rparr>"
  have calm: "watchdog (reading ck d) x = (Inr (), x)"
    if "ss_last_recv_ns x = reading ck i" "ss_heartbeat_timeout_ns x = kHeartbeatTimeoutNs" for x
    using that assms unfolding watchdog_def paced_def session_rests_def by (auto simp: not_le)
  obtain x where x: "write_bytes (enc_Header (make_header kClientHeartbeat 0)) ?s1 = (Inr (), x)"
    "ss_events x = ss_events s" "session_rests ck i (d + 2) (x\<lparr>ss_events := []\<rparr>)"
    "sk_recvs (ss_socket x) = sk_recvs (ss_socket s)"
  proof -
    have clock2: "monotonic_ns y = (reading ck (Suc d), y\<lparr>ss_clock := (tick ^^ Suc (Suc d)) ck\<rparr>)"
      if "ss_clock y = (tick ^^ Suc d) ck" for y by (rule monotonic_reads [OF that])
    have ne: "enc_Header (make_header kClientHeartbeat 0) \<noteq> []" by (simp add: enc_Header_def be_bytes_def)
    show thesis
      using assms(2) ne that
      by (simp add: session_rests_def write_bytes_ready clock2 Let_def emit_def bench_handlers_def del: funpow.simps)
  qed
  show ?thesis
  proof (cases "reading ck d - ss_last_send_ns ?s1 \<ge> ucast (ss_heartbeat_send_ns ?s1)")
    case True
    then have "tick_timers s = (Inr (), x)"
      using assms(2) flush clock x calm [of x] by (simp add: tick_timers_def session_rests_def)
    then show ?thesis using x by (intro exI [of _ x] exI [of _ "d + 2"]) simp
  next
    case False
    then have "tick_timers s = (Inr (), ?s1)"
      using assms(2) flush clock calm [of ?s1] by (simp add: tick_timers_def session_rests_def)
    then show ?thesis using assms(2)
      by (intro exI [of _ ?s1] exI [of _ "Suc d"]) (simp add: session_rests_def)
  qed
qed

text \<open>A poll that finds nothing.\<close>

lemma read_nothing:
  assumes "sk_open (ss_socket s)" "sk_recvs (ss_socket s) = RecvAgain # rest"
  shows "read_some s = (Inr (), s\<lparr>ss_socket := (ss_socket s)\<lparr>sk_recvs := rest\<rparr>\<rparr>)"
  using assms by (simp add: read_some.simps [of s] socket_recv_def)

lemma poll_nothing:
  assumes "paced w ck" "session_rests ck i d s" "d \<le> i + w" "sk_recvs (ss_socket s) = RecvAgain # rest"
  shows "\<exists>s' d'. poll_io s = Some (Inr (), s') \<and> session_rests ck i d' s' \<and> d' \<le> d + 2
    \<and> sk_recvs (ss_socket s') = rest \<and> d \<le> d'"
proof -
  let ?s = "s\<lparr>ss_socket := (ss_socket s)\<lparr>sk_recvs := rest\<rparr>\<rparr>"
  have read: "read_some s = (Inr (), ?s)" using assms(2,4) by (intro read_nothing) (simp_all add: session_rests_def)
  have parse: "parse_pending ?s = Some (Inr (), ?s)"
    using assms(2) by (intro parse_pending_short) (simp add: session_rests_def)
  have same: "?s\<lparr>ss_events := []\<rparr> = ?s" using assms(2) by (simp add: session_rests_def)
  have "session_rests ck i d (?s\<lparr>ss_events := []\<rparr>)" unfolding same using assms(2) by (simp add: session_rests_def)
  from timers_paced [OF assms(1) this assms(3)] obtain s' d' where t: "tick_timers ?s = (Inr (), s')" "ss_events s' = []"
    "session_rests ck i d' (s'\<lparr>ss_events := []\<rparr>)" "d' \<le> d + 2" "sk_recvs (ss_socket s') = rest" "d \<le> d'"
    using assms(2) by (auto simp: session_rests_def)
  have "session_rests ck i d' s'" using t(2,3) by (simp add: session_rests_def)
  then show ?thesis using t read parse by (auto simp: poll_io_def)
qed

text \<open>A poll that finds one packet, whose dispatch leaves the timers alone.\<close>

lemma read_answer:
  assumes "sk_open (ss_socket s)" "sk_recvs (ss_socket s) = Received bs # RecvAgain # rest" "bs \<noteq> []" "length bs \<le> 8192"
    "ss_clock s = (tick ^^ d) ck"
  shows "read_some s = (Inr (), s\<lparr>ss_socket := (ss_socket s)\<lparr>sk_recvs := rest\<rparr>,
    ss_in_buffer := ss_in_buffer s @ bs, ss_clock := (tick ^^ Suc d) ck, ss_last_recv_ns := reading ck d\<rparr>)"
proof -
  obtain b cs where bs: "bs = b # cs" using assms(3) by (cases bs) auto
  have recv: "socket_recv 8192 (ss_socket s) = (Inr bs, (ss_socket s)\<lparr>sk_recvs := RecvAgain # rest\<rparr>)"
    using assms(1,2,4) unfolding bs by (simp add: socket_recv_def)
  let ?s0 = "s\<lparr>ss_socket := (ss_socket s)\<lparr>sk_recvs := RecvAgain # rest\<rparr>, ss_in_buffer := ss_in_buffer s @ bs\<rparr>"
  let ?s1 = "?s0\<lparr>ss_clock := (tick ^^ Suc d) ck, ss_last_recv_ns := reading ck d\<rparr>"
  have clock: "monotonic_ns ?s0 = (reading ck d, ?s0\<lparr>ss_clock := (tick ^^ Suc d) ck\<rparr>)"
    using assms(5) by (intro monotonic_reads) simp
  have "read_some s = read_some ?s1"
    using assms(1,3) recv clock by (simp add: read_some.simps [of s] del: funpow.simps)
  also have "\<dots> = (Inr (), ?s1\<lparr>ss_socket := (ss_socket ?s1)\<lparr>sk_recvs := rest\<rparr>\<rparr>)"
    using assms(1) by (intro read_nothing) simp_all
  finally show ?thesis by simp
qed

lemma poll_answer:
  assumes "paced w ck" "2 \<le> w" "sk_open (ss_socket s)" "sk_recvs (ss_socket s) = Received (frame ty p) # RecvAgain # rest"
    "length p < 8000" "ss_in_buffer s = []" "ss_clock s = (tick ^^ d) ck"
    "dispatch_frame (ty, p) (s\<lparr>ss_socket := (ss_socket s)\<lparr>sk_recvs := rest\<rparr>, ss_in_buffer := frame ty p,
       ss_clock := (tick ^^ Suc d) ck, ss_last_recv_ns := reading ck d\<rparr>) = Some (Inr (), s1)"
    "session_rests ck d (Suc d) ((with_buffer [] s1)\<lparr>ss_events := []\<rparr>)"
  shows "\<exists>s' d'. poll_io s = Some (Inr (), s') \<and> ss_events s' = ss_events s1 \<and> session_rests ck d d' (s'\<lparr>ss_events := []\<rparr>)
    \<and> d' \<le> d + 3 \<and> sk_recvs (ss_socket s') = sk_recvs (ss_socket s1)"
proof -
  let ?s = "s\<lparr>ss_socket := (ss_socket s)\<lparr>sk_recvs := rest\<rparr>, ss_in_buffer := frame ty p,
       ss_clock := (tick ^^ Suc d) ck, ss_last_recv_ns := reading ck d\<rparr>"
  have read: "read_some s = (Inr (), ?s)"
    using read_answer [OF assms(3,4) _ _ assms(7)] assms(5,6) by simp
  have "parse_pending ?s = parse_pending (with_buffer [] s1)"
    using parse_frame [of ty p ?s "[]"] assms(5,8) by (simp add: framed_def del: funpow.simps)
  also have "\<dots> = Some (Inr (), with_buffer [] s1)"
    by (rule parse_pending_short) (simp add: with_buffer_def)
  finally have parse: "parse_pending ?s = Some (Inr (), with_buffer [] s1)" .
  have "Suc d \<le> d + w" using assms(2) by simp
  from timers_paced [OF assms(1,9) this] obtain s' d' where "tick_timers (with_buffer [] s1) = (Inr (), s')"
    "ss_events s' = ss_events (with_buffer [] s1)" "session_rests ck d d' (s'\<lparr>ss_events := []\<rparr>)" "d' \<le> Suc d + 2"
    "sk_recvs (ss_socket s') = sk_recvs (ss_socket (with_buffer [] s1))" by blast
  then show ?thesis using read parse by (auto simp: poll_io_def with_buffer_def)
qed

lemma poll_acceptance:
  assumes "paced w ck" "2 \<le> w" "session_rests ck i d s" "wf_OrderAccepted m" "oa_message_type m = kOrderAccepted"
    "sk_recvs (ss_socket s) = Received (frame kSequencedData (enc_OrderAccepted m)) # RecvAgain # rest"
  shows "\<exists>s' d'. poll_io s = Some (Inr (), s') \<and> ss_events s' = [Accepted m] \<and> session_rests ck d d' (s'\<lparr>ss_events := []\<rparr>)
    \<and> d' \<le> d + 3 \<and> sk_recvs (ss_socket s') = rest"
proof -
  let ?p = "enc_OrderAccepted m"
  let ?s = "s\<lparr>ss_socket := (ss_socket s)\<lparr>sk_recvs := rest\<rparr>, ss_in_buffer := frame kSequencedData ?p,
    ss_clock := (tick ^^ Suc d) ck, ss_last_recv_ns := reading ck d\<rparr>"
  let ?s1 = "emit on_accepted (Accepted m)
    ((emit on_audit_recv (AuditRecv (frame kSequencedData ?p) (ss_assigned_session ?s) (ss_next_inbound_seq ?s)) ?s)
      \<lparr>ss_msgs_recv := ss_msgs_recv ?s + 1, ss_next_inbound_seq := ss_next_inbound_seq ?s + 1\<rparr>)"
  have h: "on_accepted (ss_handlers ?s)" using assms(3) by (simp add: session_rests_def bench_handlers_def)
  note d = dispatch_frame_acceptance [OF assms(4,5) h]
  have small: "length ?p < 8000" using oa.length_enc [OF assms(4)] by simp
  have rests: "session_rests ck d (Suc d) ((with_buffer [] ?s1)\<lparr>ss_events := []\<rparr>)"
    "ss_events ?s1 = [Accepted m]" "sk_recvs (ss_socket ?s1) = rest"
    using assms(3) by (simp_all add: session_rests_def with_buffer_def emit_def bench_handlers_def)
  show ?thesis
    using poll_answer [OF assms(1,2) _ assms(6) small _ _ d rests(1)] assms(3) rests(2,3) by (simp add: session_rests_def)
qed

lemma send_at_rest:
  assumes "session_rests ck i d s" "p \<noteq> []"
  shows "\<exists>s'. send_unsequenced p s = (Inr (), s') \<and> session_rests ck i (d + 2) s'
    \<and> ss_socket s' = (ss_socket s)\<lparr>sk_wire := sk_wire (ss_socket s) @ frame kUnsequencedData p\<rparr>"
proof -
  have clock: "monotonic_ns x = (reading ck k, x\<lparr>ss_clock := (tick ^^ Suc k) ck\<rparr>)" if "ss_clock x = (tick ^^ k) ck" for x k
    by (rule monotonic_reads [OF that])
  have "enc_Header (make_header kUnsequencedData (word_of_nat (length p))) \<noteq> []" by (simp add: enc_Header_def be_bytes_def)
  then show ?thesis using assms clock [of _ d] clock [of _ "Suc d"]
    by (simp add: session_rests_def send_unsequenced_def write_bytes_ready Let_def frame_def emit_def
        bench_handlers_def del: funpow.simps)
qed

text \<open>An order under a token of its own, placed on a session at rest with a grant of the throttler.\<close>

lemma place_at_rest:
  assumes "session_rests ck i d (oc_session c)" "fst (try_acquire (oc_throttler c) 0 (reading ck d))"
    "pa_explicit_token args \<noteq> []" "pa_explicit_token args \<notin> tr_seen (oc_tokens c)"
  shows "\<exists>c'. place args c = (Inr (order_token_of (pa_explicit_token args)), c') \<and> session_rests ck i (d + 3) (oc_session c')
    \<and> ss_socket (oc_session c') = (ss_socket (oc_session c))\<lparr>sk_wire := sk_wire (ss_socket (oc_session c))
        @ frame kUnsequencedData (enc_EnterOrder (enter_order_msg args (order_token_of (pa_explicit_token args))))\<rparr>
    \<and> oc_throttler c' = snd (try_acquire (oc_throttler c) 0 (reading ck d))
    \<and> tr_seen (oc_tokens c') = insert (pa_explicit_token args) (tr_seen (oc_tokens c))"
proof -
  let ?tok = "order_token_of (pa_explicit_token args)" and ?s = "(oc_session c)\<lparr>ss_clock := (tick ^^ Suc d) ck\<rparr>"
  have "ss_clock (oc_session c) = (tick ^^ d) ck" using assms(1) by (simp add: session_rests_def)
  then have clock: "monotonic_ns (oc_session c) = (reading ck d, ?s)" by (rule monotonic_reads)
  have "th_limit (oc_throttler c) \<noteq> 0" using assms(2) by (auto simp: try_acquire_def)
  then have acq: "acquire c = (True, c\<lparr>oc_session := ?s, oc_throttler := snd (try_acquire (oc_throttler c) 0 (reading ck d))\<rparr>)"
    using assms(2) clock by (simp add: acquire_def case_prod_beta)
  have ne: "enc_EnterOrder (enter_order_msg args ?tok) \<noteq> []" by (simp add: enc_EnterOrder_def enc_char_def)
  have "session_rests ck i (Suc d) ?s" using assms(1) by (simp add: session_rests_def del: funpow.simps)
  from send_at_rest [OF this ne] obtain s' where s': "send_unsequenced (enc_EnterOrder (enter_order_msg args ?tok)) ?s = (Inr (), s')"
    "session_rests ck i (Suc d + 2) s'" "ss_socket s' = (ss_socket (oc_session c))\<lparr>sk_wire :=
      sk_wire (ss_socket (oc_session c)) @ frame kUnsequencedData (enc_EnterOrder (enter_order_msg args ?tok))\<rparr>"
    by auto
  have "Suc d + 2 = d + 3" by simp
  with s'(2) have rests: "session_rests ck i (d + 3) s'" by (simp only:)
  show ?thesis using assms(3,4) s'(1,3) rests
    by (simp add: place_def acq take_token_def register_external_def via_session_def send_enter_order_def)
qed

section \<open>A turn\<close>

text \<open>An acceptance that arrives after \<open>e\<close> polls that find nothing.\<close>

definition answer :: "nat \<times> OrderAccepted \<Rightarrow> recv_answer list" where
  "answer em = replicate (fst em) RecvAgain @ [Received (frame kSequencedData (enc_OrderAccepted (snd em))), RecvAgain]"

definition acceptance :: "OrderAccepted \<Rightarrow> bool" where
  "acceptance m \<longleftrightarrow> wf_OrderAccepted m \<and> oa_message_type m = kOrderAccepted"

text \<open>Before turn \<open>i\<close>: at most three readings since the last receipt, at most \<open>i\<close> grants taken of 100,000, and
  no token of a later turn used.\<close>

definition bench_ready :: "clock \<Rightarrow> nat \<Rightarrow> bench \<Rightarrow> bool" where
  "bench_ready ck i b \<longleftrightarrow> (\<exists>l d. session_rests ck l d (oc_session (bn_client b)) \<and> d \<le> l + 3
       \<and> (\<exists>acc c. throttler_rel (oc_throttler (bn_client b)) acc c \<and> c \<le> win (reading ck d) \<and> length acc \<le> i))
     \<and> th_limit (oc_throttler (bn_client b)) = 100000
     \<and> (\<forall>j \<ge> i. ''T'' @ dec j \<notin> tr_seen (oc_tokens (bn_client b)))"

definition order_frame :: "nat \<Rightarrow> byte list" where
  "order_frame i = frame kUnsequencedData (enc_EnterOrder (enter_order_msg (bench_order i) (order_token_of (''T'' @ dec i))))"

lemma dec_text_inj: "Prelude.dec i = Prelude.dec j \<longleftrightarrow> i = j"
  by (metis dec_val_dec)

lemma grant_taken:
  assumes "throttler_rel th acc c" "c \<le> win t" "length acc \<le> i" "th_limit th = 100000" "i < 100000"
  shows "fst (try_acquire th 0 t)" "throttler_rel (snd (try_acquire th 0 t)) (win t # acc) (win t)"
    "th_limit (snd (try_acquire th 0 t)) = 100000"
proof -
  have "length (filter (recent (win t)) acc) < unat (th_limit th)"
    using le_less_trans [OF le_trans [OF length_filter_le assms(3)] assms(5), of "recent (win t)"] assms(4) by simp
  then show g: "fst (try_acquire th 0 t)" using lim.step_decides [OF assms(1,2)] by simp
  show "throttler_rel (snd (try_acquire th 0 t)) (win t # acc) (win t)"
    using lim.step_rel [OF assms(1,2)] g by simp
  show "th_limit (snd (try_acquire th 0 t)) = 100000"
    using lim.step_lim [of th t] assms(4) by (simp add: word_unat_eq_iff)
qed

text \<open>The wait for an acceptance: the polls that find nothing, then the one that finds it.\<close>

lemma await_answered:
  assumes "paced w ck" "session_rests ck l d (oc_session (bn_client b))" "d + 2 * e \<le> l + w" "2 \<le> w" "acceptance m"
    "\<not> bn_got_ack b" "sk_recvs (ss_socket (oc_session (bn_client b))) = answer (e, m) @ rest"
    "read_clock (bn_clock b) = (t1, ck2)"
  shows "\<exists>s l' d'. await_ack b = Some (Inr (), b\<lparr>bn_client := (bn_client b)\<lparr>oc_session := s\<rparr>, bn_clock := ck2,
      bn_rtt := bn_rtt b @ [t1 - bn_last_send_ns b], bn_got_ack := True\<rparr>)
    \<and> session_rests ck l' d' s \<and> d \<le> d' \<and> d' \<le> l' + 3 \<and> sk_recvs (ss_socket s) = rest"
  using assms
proof (induction e arbitrary: b d)
  case 0
  let ?c = "bn_client b"
  have "sk_recvs (ss_socket (oc_session ?c)) = Received (frame kSequencedData (enc_OrderAccepted m)) # RecvAgain # rest"
    using "0.prems"(7) by (simp add: answer_def)
  from poll_acceptance [OF "0.prems"(1,4,2) _ _ this] "0.prems"(5) obtain s d' where
    poll: "poll_io (oc_session ?c) = Some (Inr (), s)" "ss_events s = [Accepted m]"
      "session_rests ck d d' (s\<lparr>ss_events := []\<rparr>)" "d' \<le> d + 3" "sk_recvs (ss_socket s) = rest"
    by (auto simp: acceptance_def)
  let ?b2 = "b\<lparr>bn_client := ?c\<lparr>oc_session := s\<lparr>ss_events := []\<rparr>\<rparr>, bn_clock := ck2,
    bn_rtt := bn_rtt b @ [t1 - bn_last_send_ns b], bn_got_ack := True\<rparr>"
  have "bench_absorb s b = ?b2" using "0.prems"(8) by (simp add: bench_absorb_def poll(2))
  then have "await_ack b = Some (Inr (), ?b2)"
    using "0.prems"(6) poll(1) by (simp add: await_ack.simps [of b] await_ack.simps [of ?b2])
  moreover have "d \<le> d'" using poll(3) by (simp add: session_rests_def)
  ultimately show ?case using poll
    by (intro exI [of _ "s\<lparr>ss_events := []\<rparr>"] exI [of _ d] exI [of _ d']) simp
next
  case (Suc e)
  let ?c = "bn_client b"
  have recvs: "sk_recvs (ss_socket (oc_session ?c)) = RecvAgain # answer (e, m) @ rest"
    using Suc.prems(7) by (simp add: answer_def)
  have "d \<le> l + w" using Suc.prems(3) by simp
  from poll_nothing [OF Suc.prems(1,2) this recvs] obtain s d' where
    poll: "poll_io (oc_session ?c) = Some (Inr (), s)" "session_rests ck l d' s" "d' \<le> d + 2"
      "sk_recvs (ss_socket s) = answer (e, m) @ rest" "d \<le> d'" by blast
  let ?b1 = "b\<lparr>bn_client := ?c\<lparr>oc_session := s\<rparr>\<rparr>"
  have "s\<lparr>ss_events := []\<rparr> = s" "ss_events s = []" using poll(2) by (simp_all add: session_rests_def)
  then have "bench_absorb s b = ?b1" by (simp add: bench_absorb_def)
  then have same: "await_ack b = await_ack ?b1"
    using Suc.prems(6) poll(1) by (simp add: await_ack.simps [of b])
  have "d' + 2 * e \<le> l + w" using poll(3) Suc.prems(3) by simp
  from Suc.IH [where b = ?b1 and d = d', OF Suc.prems(1) _ this Suc.prems(4,5)] obtain t l' d2 where
    "await_ack ?b1 = Some (Inr (), b\<lparr>bn_client := ?c\<lparr>oc_session := t\<rparr>, bn_clock := ck2,
      bn_rtt := bn_rtt b @ [t1 - bn_last_send_ns b], bn_got_ack := True\<rparr>)"
    "session_rests ck l' d2 t" "d' \<le> d2" "d2 \<le> l' + 3" "sk_recvs (ss_socket t) = rest"
    using Suc.prems(6,8) poll(2,4) by auto
  then show ?case using same poll(5)
    by (intro exI [of _ t] exI [of _ l'] exI [of _ d2]) simp
qed

text \<open>A turn whose order is accepted ends, one answer and one order further, with one sample.\<close>

lemma bench_turn_answered:
  assumes "paced (2 * emax + 6) ck" "bench_ready ck i b" "i < 100000" "acceptance m" "e \<le> emax"
    "sk_recvs (ss_socket (oc_session (bn_client b))) = answer (e, m) @ rest"
    "read_clock (bn_clock b) = (t0, ck1)" "read_clock ck1 = (t1, ck2)"
  shows "\<exists>b'. bench_turn i b = Some (Inr (), b') \<and> bench_ready ck (i + 1) b' \<and> bn_clock b' = ck2
    \<and> bn_rtt b' = bn_rtt b @ (if i < unat kWarmup then [] else [t1 - t0])
    \<and> sk_recvs (ss_socket (oc_session (bn_client b'))) = rest"
proof -
  let ?c = "bn_client b" and ?tok = "''T'' @ dec i"
  obtain l d acc c where rests: "session_rests ck l d (oc_session ?c)" "d \<le> l + 3"
    and th: "throttler_rel (oc_throttler ?c) acc c" "c \<le> win (reading ck d)" "length acc \<le> i"
    "th_limit (oc_throttler ?c) = 100000" and toks: "\<forall>j \<ge> i. ''T'' @ dec j \<notin> tr_seen (oc_tokens ?c)"
    using assms(2) by (auto simp: bench_ready_def)
  note g = grant_taken [OF th assms(3)]
  have pa: "pa_explicit_token (bench_order i) = ?tok" by (simp add: bench_order_def)
  obtain c' where place: "place (bench_order i) ?c = (Inr (order_token_of ?tok), c')"
    and s': "session_rests ck l (d + 3) (oc_session c')"
      "ss_socket (oc_session c') = (ss_socket (oc_session ?c))\<lparr>sk_wire := sk_wire (ss_socket (oc_session ?c)) @ order_frame i\<rparr>"
    and kept: "oc_throttler c' = snd (try_acquire (oc_throttler ?c) 0 (reading ck d))"
      "tr_seen (oc_tokens c') = insert ?tok (tr_seen (oc_tokens ?c))"
    using place_at_rest [OF rests(1) g(1), of "bench_order i"] toks pa by (auto simp: order_frame_def)
  let ?b1 = "b\<lparr>bn_got_ack := False, bn_clock := ck1, bn_last_send_ns := t0, bn_client := c'\<rparr>"
  have ev: "ss_events (oc_session c') = []" "(oc_session c')\<lparr>ss_events := []\<rparr> = oc_session c'"
    using s'(1) by (simp_all add: session_rests_def)
  have bp: "bench_place i b = (Inr (order_token_of ?tok), ?b1)"
    using place ev by (simp add: bench_place_def assms(7) bench_absorb_def)
  have room: "d + 3 + 2 * e \<le> l + (2 * emax + 6)" "(2 :: nat) \<le> 2 * emax + 6" using rests(2) assms(5) by simp_all
  have b1: "session_rests ck l (d + 3) (oc_session (bn_client ?b1))" "\<not> bn_got_ack ?b1"
    "sk_recvs (ss_socket (oc_session (bn_client ?b1))) = answer (e, m) @ rest" "read_clock (bn_clock ?b1) = (t1, ck2)"
    using s' assms(6,8) by simp_all
  obtain s l' d' where wait: "await_ack ?b1 = Some (Inr (), ?b1\<lparr>bn_client := c'\<lparr>oc_session := s\<rparr>, bn_clock := ck2,
      bn_rtt := bn_rtt b @ [t1 - t0], bn_got_ack := True\<rparr>)"
    and s: "session_rests ck l' d' s" "d + 3 \<le> d'" "d' \<le> l' + 3" "sk_recvs (ss_socket s) = rest"
    using await_answered [OF assms(1) b1(1) room assms(4) b1(2,3,4)] by auto
  let ?b2 = "?b1\<lparr>bn_client := c'\<lparr>oc_session := s\<rparr>, bn_clock := ck2, bn_rtt := bn_rtt b @ [t1 - t0], bn_got_ack := True\<rparr>"
  have turn: "bench_turn i b = Some (Inr (), if i < unat kWarmup then ?b2\<lparr>bn_rtt := bn_rtt b\<rparr> else ?b2)"
    by (simp add: bench_turn_def bp wait)
  let ?t = "reading ck d"
  have rel: "throttler_rel (oc_throttler c') (win ?t # acc) (win ?t)" "th_limit (oc_throttler c') = 100000"
    using g(2,3) kept(1) by simp_all
  have later: "win ?t \<le> win (reading ck d')" using reading_mono [OF assms(1)] s(2) by simp
  have "\<forall>j \<ge> i + 1. ''T'' @ dec j \<notin> tr_seen (oc_tokens c')" using toks kept(2) by (auto simp: dec_text_inj)
  moreover have "\<exists>acc c. throttler_rel (oc_throttler c') acc c \<and> c \<le> win (reading ck d') \<and> length acc \<le> i + 1"
    using rel(1) later th(3) by (intro exI [of _ "win ?t # acc"] exI [of _ "win ?t"]) simp
  ultimately have ready: "bench_ready ck (i + 1) x" if "bn_client x = bn_client ?b2" for x
    unfolding bench_ready_def that using s(1,3) rel(2) by simp blast
  show ?thesis
    using turn ready [of "if i < unat kWarmup then ?b2\<lparr>bn_rtt := bn_rtt b\<rparr> else ?b2"] s(4)
    by (intro exI [of _ "if i < unat kWarmup then ?b2\<lparr>bn_rtt := bn_rtt b\<rparr> else ?b2"]) simp
qed

text \<open>The times between the two readings of each of \<open>n\<close> turns.\<close>

fun laps :: "nat \<Rightarrow> clock \<Rightarrow> u64 list" where
  "laps 0 ck = []"
| "laps (Suc n) ck = (let (t0, ck1) = read_clock ck; (t1, ck2) = read_clock ck1 in (t1 - t0) # laps n ck2)"

lemma length_laps [simp]: "length (laps n ck) = n"
  by (induction n arbitrary: ck) (simp_all add: case_prod_beta)

lemma bench_loop_answered:
  assumes "paced (2 * emax + 6) ck" "bench_ready ck i b" "i + length ms \<le> 100000"
    "\<forall>em \<in> set ms. fst em \<le> emax \<and> acceptance (snd em)"
    "sk_recvs (ss_socket (oc_session (bn_client b))) = concat (map answer ms) @ rest"
  shows "\<exists>b'. bench_loop (length ms) i b = Some (Inr (), b')
    \<and> bn_rtt b' = bn_rtt b @ drop (unat kWarmup - i) (laps (length ms) (bn_clock b))"
  using assms
proof (induction ms arbitrary: i b)
  case (Cons em ms)
  obtain e m where em: "em = (e, m)" by fastforce
  obtain t0 ck1 t1 ck2 where clk: "read_clock (bn_clock b) = (t0, ck1)" "read_clock ck1 = (t1, ck2)" by fastforce
  obtain b1 where b1: "bench_turn i b = Some (Inr (), b1)" "bench_ready ck (i + 1) b1" "bn_clock b1 = ck2"
    "bn_rtt b1 = bn_rtt b @ (if i < unat kWarmup then [] else [t1 - t0])"
    "sk_recvs (ss_socket (oc_session (bn_client b1))) = concat (map answer ms) @ rest"
    using bench_turn_answered [OF Cons.prems(1,2) _ _ _ _ clk, of m e "concat (map answer ms) @ rest"]
      Cons.prems(3-5) em by auto
  obtain b' where b': "bench_loop (length ms) (i + 1) b1 = Some (Inr (), b')"
    "bn_rtt b' = bn_rtt b1 @ drop (unat kWarmup - (i + 1)) (laps (length ms) (bn_clock b1))"
    using Cons.IH [OF Cons.prems(1) b1(2) _ _ b1(5)] Cons.prems(3,4) by auto
  have "(if i < unat kWarmup then [] else [t1 - t0]) @ drop (unat kWarmup - (i + 1)) (laps (length ms) ck2)
      = drop (unat kWarmup - i) (laps (Suc (length ms)) (bn_clock b))"
    by (auto simp: clk Suc_diff_Suc [symmetric])
  then show ?case using b1 b' by simp
qed simp

section \<open>The login\<close>

text \<open>The login is accepted after \<open>e\<close> polls that find nothing.\<close>

definition mock_login_payload :: "byte list" where
  "mock_login_payload = bytes_of_string (''MOCKSESS01'' @ replicate (kSequenceLen - 1) CHR ''0'' @ ''1'')"

definition login_answer :: "nat \<Rightarrow> recv_answer list" where
  "login_answer e = replicate e RecvAgain @ [Received (frame kLoginAccepted mock_login_payload), RecvAgain]"

lemma length_mock_login_payload: "length mock_login_payload < 8000"
  by (simp add: mock_login_payload_def bytes_of_string_def kSequenceLen_def)

text \<open>A session that waits for its answer is one at rest but for its state, and nothing was received yet.\<close>

definition session_waits :: "clock \<Rightarrow> nat \<Rightarrow> ouch_session \<Rightarrow> bool" where
  "session_waits ck d s \<longleftrightarrow> ss_state s = LoggingIn
     \<and> session_rests ck d d (s\<lparr>ss_state := Active, ss_last_recv_ns := reading ck d\<rparr>)"

lemma bench_begins:
  assumes "sk_open k" "sk_sends k = []"
  shows "\<exists>s. begin_login (session_init k bench_handlers lp kHeartbeatSendNs kHeartbeatTimeoutNs ck) = (Inr (), s)
    \<and> session_waits ck 1 s \<and> ss_socket s = k\<lparr>sk_wire := sk_wire k @ enc_LoginRequest (login_request lp)\<rparr>"
proof -
  have q: "enc_LoginRequest (login_request lp) \<noteq> []" using length_enc_LoginRequest by (metis list.size(3) zero_neq_numeral)
  show ?thesis using assms q
    by (simp add: begin_login_def session_init_def write_bytes_ready monotonic_ns_def
        case_prod_beta Let_def)
      (simp add: session_waits_def session_rests_def emit_def set_state_def bench_handlers_def kHeartbeatSendNs_def
        kHeartbeatTimeoutNs_def tick_def)
qed

lemma bench_login_done: "ss_state s \<noteq> LoggingIn \<Longrightarrow> bench_login s = Some (Inr (), s)"
  by (simp add: bench_login.simps [of s])

lemma login_poll_nothing:
  assumes "session_waits ck d s" "sk_recvs (ss_socket s) = RecvAgain # rest"
  shows "poll_io s = Some (Inr (), s\<lparr>ss_socket := (ss_socket s)\<lparr>sk_recvs := rest\<rparr>\<rparr>)"
proof -
  let ?s = "s\<lparr>ss_socket := (ss_socket s)\<lparr>sk_recvs := rest\<rparr>\<rparr>"
  have read: "read_some s = (Inr (), ?s)"
    using assms by (intro read_nothing) (simp_all add: session_waits_def session_rests_def)
  have parse: "parse_pending ?s = Some (Inr (), ?s)"
    using assms(1) by (intro parse_pending_short) (simp add: session_waits_def session_rests_def)
  have "tick_timers ?s = (Inr (), ?s)"
    using assms(1) by (simp add: tick_timers_def session_waits_def session_rests_def flush_pending.simps)
  then show ?thesis using read parse by (simp add: poll_io_def)
qed

lemma bench_logs_in:
  assumes "paced w ck" "2 \<le> w" "session_waits ck d s" "sk_recvs (ss_socket s) = login_answer e @ rest"
  shows "\<exists>s' d'. bench_login s = Some (Inr (), s') \<and> session_rests ck d d' s' \<and> d' \<le> d + 3
    \<and> sk_recvs (ss_socket s') = rest"
  using assms(3,4)
proof (induction e arbitrary: s)
  case 0
  let ?p = mock_login_payload
  let ?s = "s\<lparr>ss_socket := (ss_socket s)\<lparr>sk_recvs := rest\<rparr>, ss_in_buffer := frame kLoginAccepted ?p,
    ss_clock := (tick ^^ Suc d) ck, ss_last_recv_ns := reading ck d\<rparr>"
  let ?s1 = "set_state Active ''LoginAccepted''
    ((emit on_audit_recv (AuditRecv (frame kLoginAccepted ?p) (ss_assigned_session ?s) (ss_next_inbound_seq ?s)) ?s)
      \<lparr>ss_msgs_recv := ss_msgs_recv ?s + 1, ss_assigned_session := ''MOCKSESS01'', ss_next_inbound_seq := 1,
       ss_last_login_reject_reason := CHR 0x00\<rparr>)"
  have recvs: "sk_recvs (ss_socket s) = Received (frame kLoginAccepted ?p) # RecvAgain # rest"
    using "0.prems"(2) by (simp add: login_answer_def)
  have at: "sk_open (ss_socket s)" "ss_in_buffer s = []" "ss_clock s = (tick ^^ d) ck"
    using "0.prems"(1) by (simp_all add: session_waits_def session_rests_def)
  have rests: "session_rests ck d (Suc d) ((with_buffer [] ?s1)\<lparr>ss_events := []\<rparr>)"
    "ss_events ?s1 = []" "sk_recvs (ss_socket ?s1) = rest"
    using "0.prems"(1)
    by (simp_all add: session_waits_def session_rests_def with_buffer_def set_state_def emit_def bench_handlers_def)
  from poll_answer [OF assms(1,2) at(1) recvs length_mock_login_payload at(2,3)
      dispatch_mock_accept [OF mock_login_payload_def] rests(1)]
  obtain s' d' where poll: "poll_io s = Some (Inr (), s')" "ss_events s' = []"
    "session_rests ck d d' (s'\<lparr>ss_events := []\<rparr>)" "d' \<le> d + 3" "sk_recvs (ss_socket s') = rest"
    using rests(2,3) by auto
  have s': "session_rests ck d d' s'" using poll(2,3) by (simp add: session_rests_def)
  have "bench_login s' = Some (Inr (), s')" by (rule bench_login_done) (use s' in \<open>simp add: session_rests_def\<close>)
  then have "bench_login s = Some (Inr (), s')"
    using "0.prems"(1) poll(1) by (simp add: bench_login.simps [of s] session_waits_def)
  then show ?case using s' poll(4,5) by blast
next
  case (Suc e)
  let ?s = "s\<lparr>ss_socket := (ss_socket s)\<lparr>sk_recvs := login_answer e @ rest\<rparr>\<rparr>"
  have "sk_recvs (ss_socket s) = RecvAgain # login_answer e @ rest" using Suc.prems(2) by (simp add: login_answer_def)
  then have "bench_login s = bench_login ?s"
    using Suc.prems(1) login_poll_nothing [OF Suc.prems(1)] by (simp add: bench_login.simps [of s] session_waits_def)
  moreover have "session_waits ck d ?s" using Suc.prems(1) by (simp add: session_waits_def session_rests_def)
  ultimately show ?case using Suc.IH [of ?s] by simp
qed

section \<open>The whole run\<close>

lemma bench_run_answered:
  assumes "paced (2 * emax + 6) ck" "sk_open k" "sk_sends k = []" "n + unat kWarmup \<le> 100000" "length ms = n + unat kWarmup"
    "\<forall>em \<in> set ms. fst em \<le> emax \<and> acceptance (snd em)" "sk_recvs k = login_answer e @ concat (map answer ms)"
  shows "\<exists>b. bench_run n k ck tool_ck = Some (Inr (), b)
    \<and> bn_rtt b = drop (unat kWarmup) (laps (n + unat kWarmup) tool_ck)"
proof -
  let ?lp = "\<lparr>lp_username = ''TEST01'', lp_password = ''123456'', lp_requested_session = [], lp_requested_sequence = 0\<rparr>"
  let ?b = "\<lambda>s. \<lparr>bn_client = bench_client s, bn_clock = tool_ck, bn_rtt = [], bn_got_ack = False, bn_last_send_ns = 0\<rparr>"
  obtain s where s: "begin_login (session_init k bench_handlers ?lp kHeartbeatSendNs kHeartbeatTimeoutNs ck) = (Inr (), s)"
    "session_waits ck 1 s" and k: "ss_socket s = k\<lparr>sk_wire := sk_wire k @ enc_LoginRequest (login_request ?lp)\<rparr>"
    using bench_begins [OF assms(2,3), of ?lp ck] by blast
  have "sk_recvs (ss_socket s) = login_answer e @ concat (map answer ms)" by (simp add: k assms(7))
  from bench_logs_in [OF assms(1) _ s(2) this]
  obtain s1 d where s1: "bench_login s = Some (Inr (), s1)" "session_rests ck 1 d s1" "d \<le> 1 + 3"
    and k1: "sk_recvs (ss_socket s1) = concat (map answer ms)" by auto
  have at: "ss_state s1 = Active" "ss_events s1 = []" using s1(2) by (simp_all add: session_rests_def)
  have same: "bench_absorb s1 (?b s1) = ?b s1" by (simp add: bench_absorb_def at bench_client_def)
  have "throttler_rel (throttler_init 100000 100000) [] 0" by (rule throttler_rel_init)
  then have "\<exists>acc c. throttler_rel (throttler_init 100000 100000) acc c \<and> c \<le> win (reading ck d) \<and> length acc \<le> 0"
    by (intro exI [of _ "[]"] exI [of _ 0]) simp
  then have "\<exists>l d. session_rests ck l d s1 \<and> d \<le> l + 3
      \<and> (\<exists>acc c. throttler_rel (throttler_init 100000 100000) acc c \<and> c \<le> win (reading ck d) \<and> length acc \<le> 0)"
    using s1(2,3) by (intro exI [of _ 1] exI [of _ d]) simp
  then have "bench_ready ck 0 (?b s1)"
    unfolding bench_ready_def by (simp add: bench_client_def token_registry_init_def) (simp add: throttler_init_def)
  from bench_loop_answered [OF assms(1) this _ assms(6), of "[]"]
  obtain b' where "bench_loop (length ms) 0 (?b s1) = Some (Inr (), b')"
    "bn_rtt b' = drop (unat kWarmup) (laps (length ms) tool_ck)"
    using assms(4,5) k1 by (auto simp: bench_client_def)
  then show ?thesis using assms(5) by (simp add: bench_run_def s(1) s1(1) at(1) same)
qed

lemma bench_shares_within: "p \<in> set bench_shares \<Longrightarrow> 0 \<le> p \<and> p \<le> 1"
proof -
  have *: "0 \<le> to_double x \<and> to_double x \<le> 1" if "0 \<le> x" "x \<le> 999 / 1000 \<or> x = 1" for x
  proof (cases "x = 1")
    case True
    then show ?thesis using to_double_of_int [of 1] by simp
  next
    case False
    then have "x \<le> 999 / 1000" using that by simp
    moreover have "\<bar>to_double x - x\<bar> \<le> x / 2 ^ 53" using to_double_error [of x] that(1) by simp
    moreover have "x / 2 ^ 53 \<le> x" "x / 2 ^ 53 \<le> 1 / 1000" using that(1) calculation(1) by simp_all
    ultimately show ?thesis by linarith
  qed
  show "p \<in> set bench_shares \<Longrightarrow> 0 \<le> p \<and> p \<le> 1"
    unfolding bench_shares_def using *  [of "1 / 2"] * [of "9 / 10"] * [of "99 / 100"] * [of "999 / 1000"] * [of 1]
    by auto
qed

lemma percentiles_defined:
  assumes "v \<noteq> []" "length v \<le> 2 ^ 53" "\<forall>p \<in> set ps. 0 \<le> p \<and> p \<le> 1"
  shows "\<exists>xs. percentiles ps v = Some xs \<and> length xs = length ps
    \<and> (ps \<noteq> [] \<and> last ps = 1 \<longrightarrow> last xs = to_double (to_double (of_nat (unat (Max (set v)))) / 1000))"
  using assms
proof (induction ps arbitrary: v)
  case (Cons p ps)
  obtain i where i: "percentile v p = Some (to_double (of_nat (unat (sort v ! i))), sort v)"
    "p = 1 \<longrightarrow> sort v ! i = Max (set v)"
    using percentile_within_samples [of v p] Cons.prems by auto
  have "sort v \<noteq> []" using Cons.prems(1) by (metis set_empty set_sort)
  then obtain xs where xs: "percentiles ps (sort v) = Some xs" "length xs = length ps"
    "ps \<noteq> [] \<and> last ps = 1 \<longrightarrow> last xs = to_double (to_double (of_nat (unat (Max (set v)))) / 1000)"
    using Cons.IH [of "sort v"] Cons.prems(2,3) by auto
  show ?case using i xs by (cases ps; cases xs) auto
qed simp

text \<open>
  C17: The bench ends and measures what it says. The gateway accepts the login, after any number of polls
  that find nothing, and each order after at most \<open>emax\<close> such polls, each answer in a read of its own; all bytes are
  taken by the kernel. The session's readings of the clock move on: heartbeats are sent when they are
  due, and what is asked is that the clock does not go back and that no \<open>2 * emax + 6\<close> readings in a row
  span the peer timeout of 2.5 s, or the session would give the gateway up. The session's readings and
  the tool's own are two scripts, so that every interleaving of the readings of one clock is covered.
  Then a run for at most 99,800 samples ends (with the 200 orders of the warm-up that is the throttler's
  100,000 in any second, so no order can be refused however short the run is), and it prints
  exactly the number of samples asked for (at least 100): the times between the
  two readings of the tool's clock of the orders after the warm-up. No order is refused, by
  the throttler or for its token; the percentiles are all defined, and the last is the largest sample,
  in microseconds.
\<close>

theorem bench_prints_every_sample:
  assumes "bench_samples args = Some n" "n \<le> 99800" "bw_listen w = Listening port"
    "nt_answers (bw_net w) = [Inr [Connects k ck]]" "sk_open k" "sk_sends k = []"
    "sk_recvs k = login_answer e @ concat (map answer ms)" "length ms = unat n + unat kWarmup"
    "\<forall>em \<in> set ms. fst em \<le> emax \<and> acceptance (snd em)" "paced (2 * emax + 6) ck"
  shows "\<exists>ps. bench_main args w = Some (Prints (unat n) ps) \<and> length ps = 5
    \<and> percentiles bench_shares (drop (unat kWarmup) (laps (length ms) (bw_clock w))) = Some ps
    \<and> last ps = to_double (to_double (of_nat (unat
        (Max (set (drop (unat kWarmup) (laps (length ms) (bw_clock w))))))) / 1000)"
proof -
  let ?v = "drop (unat kWarmup) (laps (unat n + unat kWarmup) (bw_clock w))"
  have n: "unat n \<le> 99800" using assms(2) by (simp add: word_le_nat_alt)
  have pos: "100 \<le> unat n" using assms(1) by (auto simp: bench_samples_def word_less_nat_alt split: if_splits)
  have warm: "unat kWarmup = 200" by (simp add: kWarmup_def)
  have "n \<le> max_vector" using n by (simp add: max_vector_def word_le_nat_alt)
  obtain b where b: "bench_run (unat n) k ck (bw_clock w) = Some (Inr (), b)" "bn_rtt b = ?v"
    using bench_run_answered [OF assms(10,5,6) _ assms(8,9,7), of "bw_clock w"] n warm by auto
  have len: "length ?v = unat n" by simp
  then have "?v \<noteq> []" "length ?v \<le> 2 ^ 53" using pos n by auto
  moreover have "bench_shares \<noteq> [] \<and> last bench_shares = 1" using to_double_of_int [of 1] by (simp add: bench_shares_def)
  ultimately obtain ps where ps: "percentiles bench_shares ?v = Some ps" "length ps = length bench_shares"
    "last ps = to_double (to_double (of_nat (unat (Max (set ?v)))) / 1000)"
    using percentiles_defined [of ?v bench_shares] bench_shares_within by blast
  have "bench_main args w = Some (Prints (unat n) ps)"
    using assms(1,3,4) b ps(1) \<open>n \<le> max_vector\<close> len
    by (simp add: bench_main_def gateway_start_def socket_connect_def)
  then show ?thesis using ps assms(8) by (simp add: bench_shares_def)
qed

section \<open>Witness\<close>

definition sample_answer :: OrderAccepted where
  "sample_answer = order_accepted_msg (enter_order_msg (bench_order 0) (order_token_of ''T0'')) 1 0"

lemma sample_answer_accepts: "acceptance sample_answer"
  by (simp add: acceptance_def sample_answer_def wf_order_accepted_msg) (simp add: order_accepted_msg_def)

text \<open>The clock moves on by 1.2 s within the run, beyond the interval of the heartbeats.\<close>

definition sample_ck :: clock where
  "sample_ck = \<lparr>ck_now = 9, ck_later = [10, 1200000012]\<rparr>"

definition sample_answers :: "(nat \<times> OrderAccepted) list" where
  "sample_answers = replicate 150 (2, sample_answer) @ replicate 150 (0, sample_answer)"

definition sample_bench :: bench_world where
  "sample_bench = \<lparr>bw_listen = Listening 40000,
     bw_net = \<lparr>nt_answers = [Inr [Connects \<lparr>sk_open = True, sk_sends = [],
        sk_recvs = login_answer 3 @ concat (map answer sample_answers), sk_wire = []\<rparr> sample_ck]], nt_dialed = []\<rparr>,
     bw_clock = \<lparr>ck_now = 1000, ck_later = [1700, 2000]\<rparr>\<rparr>"

lemma sample_reading: "reading sample_ck i = (if i = 0 then 9 else if i = 1 then 10 else 1200000012)"
proof -
  have stays: "(tick ^^ j) \<lparr>ck_now = 1200000012, ck_later = []\<rparr> = \<lparr>ck_now = 1200000012, ck_later = []\<rparr>" for j
    by (induction j) (simp_all add: tick_def read_clock_def)
  have "reading sample_ck (Suc (Suc j)) = 1200000012" for j
    using stays [of j] by (simp add: reading_def sample_ck_def tick_def read_clock_def funpow_Suc_right del: funpow.simps(2))
  moreover have "reading sample_ck 0 = 9" "reading sample_ck 1 = 10"
    by (simp_all add: reading_def sample_ck_def tick_def read_clock_def)
  ultimately show ?thesis by (metis One_nat_def not0_implies_Suc)
qed

lemma sample_paced: "paced w sample_ck"
proof -
  have limit: "ucast kHeartbeatTimeoutNs = (2500000000 :: u64)" by (simp add: kHeartbeatTimeoutNs_def)
  show ?thesis unfolding paced_def sample_reading limit by (auto simp: word_le_nat_alt)
qed

lemma bench_prints_every_sample_witness:
  "\<exists>ps. bench_main [''--samples'', ''100''] sample_bench = Some (Prints 100 ps) \<and> length ps = 5"
proof -
  have args: "bench_samples [''--samples'', ''100''] = Some 100" by code_simp
  have answers: "length sample_answers = unat (100 :: u64) + unat kWarmup"
    "\<forall>em \<in> set sample_answers. fst em \<le> 2 \<and> acceptance (snd em)"
    using sample_answer_accepts by (auto simp: sample_answers_def kWarmup_def)
  show ?thesis
    using bench_prints_every_sample [OF args, of sample_bench 40000 "\<lparr>sk_open = True, sk_sends = [],
        sk_recvs = login_answer 3 @ concat (map answer sample_answers), sk_wire = []\<rparr>" sample_ck 3
        sample_answers 2, OF _ _ _ _ _ _ answers sample_paced]
    by (auto simp: sample_bench_def)
qed

end
