(* ===== verification/Result_Union.thy ===== *)
theory Result_Union
  imports Core_Types
begin

text \<open>
  The storage behind \<open>Result<T>\<close> (\<open>core/result.hpp\<close>): a flag and a union of which one member at most is
  alive, with the constructors, assignments and the destructor that begin and end the life of its
  members by hand. The other theories use the sum type \<open>result\<close> of Core_Types; here the storage is
  shown to implement it. \<open>T\<close> and \<open>std::string\<close> enter as what their copies and moves do.
\<close>

section \<open>Objects\<close>

text \<open>What lives in the union. \<open>Dead\<close>: neither member; reading or destroying one is undefined.\<close>

datatype 'a member = Dead | Alive_Value 'a | Alive_Error error

record 'a result_obj =
  ok_flag :: bool
  union_of :: "'a member"

text \<open>
  The special members of \<open>T\<close> and of \<open>Error\<close>. A copy may throw (None: the string of an \<open>Error\<close>
  allocates, and so may \<open>T\<close>); a move gives the new object and what is left of the old one, and does
  not throw.
\<close>

record 'a lifetimes =
  copy_value :: "'a \<Rightarrow> 'a option"
  move_value :: "'a \<Rightarrow> 'a \<times> 'a"
  copy_error :: "error \<Rightarrow> error option"
  move_error :: "error \<Rightarrow> error \<times> error"

text \<open>The objects of a program, by address, and how many members were overwritten while alive (leaks).\<close>

record 'a results =
  cells :: "nat \<Rightarrow> 'a result_obj option"
  leaked :: nat

text \<open>How a member function ends. \<open>UB\<close>: the code destroyed or read a member that is not alive.\<close>

datatype 's ending = Returns 's | Throws 's | UB

section \<open>Members\<close>

text \<open>A use of the object at an address, and of an address that has none.\<close>

definition with_cell :: "('k \<Rightarrow> 'c option) \<Rightarrow> 'k \<Rightarrow> ('c \<Rightarrow> 's ending) \<Rightarrow> 's ending" where
  "with_cell m p f = (case m p of None \<Rightarrow> UB | Some r \<Rightarrow> f r)"

definition without_cell :: "('k \<Rightarrow> 'c option) \<Rightarrow> 'k \<Rightarrow> 's ending \<Rightarrow> 's ending" where
  "without_cell m p x = (if m p = None then x else UB)"

fun life_of :: "bool \<Rightarrow> 'a member \<Rightarrow> bool" where
  "life_of b (Alive_Value v) = b"
| "life_of b (Alive_Error e) = (\<not> b)"
| "life_of b Dead = False"

text \<open>\<open>destroy()\<close> ends the member the flag names.\<close>

definition result_destroy :: "'a result_obj \<Rightarrow> 'a result_obj option" where
  "result_destroy r =
     (if life_of (ok_flag r) (union_of r) then Some (r\<lparr>union_of := Dead\<rparr>) else None)"

text \<open>Placement new of a member; one that is alive is lost without its destructor.\<close>

definition place_member :: "nat \<Rightarrow> 'a member \<Rightarrow> 'a result_obj \<Rightarrow> 'a results \<Rightarrow> 'a results" where
  "place_member p m r w =
     w\<lparr>cells := (cells w)(p \<mapsto> r\<lparr>union_of := m\<rparr>),
       leaked := leaked w + (if union_of r = Dead then 0 else 1)\<rparr>"

definition set_cell :: "nat \<Rightarrow> 'a result_obj \<Rightarrow> 'a results \<Rightarrow> 'a results" where
  "set_cell p r w = w\<lparr>cells := (cells w)(p \<mapsto> r)\<rparr>"

text \<open>A copy of the member of \<open>other\<close> its flag names into the storage of \<open>r\<close>.\<close>

definition copy_member :: "'a lifetimes \<Rightarrow> nat \<Rightarrow> 'a result_obj \<Rightarrow> 'a result_obj \<Rightarrow> 'a results \<Rightarrow> 'a results ending" where
  "copy_member lt p r other w =
     (case union_of other of
        Alive_Value v \<Rightarrow> if ok_flag r then (case copy_value lt v of None \<Rightarrow> Throws w
                                           | Some v' \<Rightarrow> Returns (place_member p (Alive_Value v') r w)) else UB
      | Alive_Error e \<Rightarrow> if ok_flag r then UB else (case copy_error lt e of None \<Rightarrow> Throws w
                                           | Some e' \<Rightarrow> Returns (place_member p (Alive_Error e') r w))
      | Dead \<Rightarrow> UB)"

text \<open>A move: the member of \<open>other\<close> stays alive, with what the move left.\<close>

definition move_member :: "'a lifetimes \<Rightarrow> nat \<Rightarrow> 'a result_obj \<Rightarrow> nat \<Rightarrow> 'a result_obj \<Rightarrow> 'a results \<Rightarrow> 'a results ending" where
  "move_member lt p r q other w =
     (case union_of other of
        Alive_Value v \<Rightarrow> if ok_flag r then (let (v', left) = move_value lt v in
           Returns (set_cell q (other\<lparr>union_of := Alive_Value left\<rparr>) (place_member p (Alive_Value v') r w))) else UB
      | Alive_Error e \<Rightarrow> if ok_flag r then UB else (let (e', left) = move_error lt e in
           Returns (set_cell q (other\<lparr>union_of := Alive_Error left\<rparr>) (place_member p (Alive_Error e') r w)))
      | Dead \<Rightarrow> UB)"

section \<open>Operations\<close>

text \<open>The storage of an object whose constructor starts: no member alive.\<close>

abbreviation (input) fresh :: "bool \<Rightarrow> 'a result_obj" where
  "fresh b \<equiv> \<lparr>ok_flag = b, union_of = Dead\<rparr>"

definition from_value :: "'a lifetimes \<Rightarrow> nat \<Rightarrow> 'a \<Rightarrow> 'a results \<Rightarrow> 'a results ending" where
  "from_value lt p v w = Returns (place_member p (Alive_Value (fst (move_value lt v))) (fresh True) w)"

definition from_error :: "'a lifetimes \<Rightarrow> nat \<Rightarrow> error \<Rightarrow> 'a results \<Rightarrow> 'a results ending" where
  "from_error lt p e w = Returns (place_member p (Alive_Error (fst (move_error lt e))) (fresh False) w)"

text \<open>A constructor that throws leaves no object.\<close>

definition copy_construct :: "'a lifetimes \<Rightarrow> nat \<Rightarrow> 'a result_obj \<Rightarrow> 'a results \<Rightarrow> 'a results ending" where
  "copy_construct lt p other w = copy_member lt p (fresh (ok_flag other)) other w"

definition move_construct :: "'a lifetimes \<Rightarrow> nat \<Rightarrow> nat \<Rightarrow> 'a result_obj \<Rightarrow> 'a results \<Rightarrow> 'a results ending" where
  "move_construct lt p q other w = move_member lt p (fresh (ok_flag other)) q other w"

text \<open>\<open>operator=\<close>: nothing for the object itself, else the member is destroyed, the flag taken over and the
  new member constructed. When that copy throws, the flag is set and the storage dead.\<close>

definition copy_assign :: "'a lifetimes \<Rightarrow> nat \<Rightarrow> nat \<Rightarrow> 'a results \<Rightarrow> 'a results ending" where
  "copy_assign lt p q w = with_cell (cells w) p (\<lambda>this.
     if p = q then Returns w
     else case result_destroy this of
            None \<Rightarrow> UB
          | Some r \<Rightarrow> with_cell (cells (set_cell p r w)) q (\<lambda>other.
              let r' = r\<lparr>ok_flag := ok_flag other\<rparr>
              in copy_member lt p r' other (set_cell p r' w)))"

definition move_assign :: "'a lifetimes \<Rightarrow> nat \<Rightarrow> nat \<Rightarrow> 'a results \<Rightarrow> 'a results ending" where
  "move_assign lt p q w = with_cell (cells w) p (\<lambda>this.
     if p = q then Returns w
     else case result_destroy this of
            None \<Rightarrow> UB
          | Some r \<Rightarrow> with_cell (cells (set_cell p r w)) q (\<lambda>other.
              let r' = r\<lparr>ok_flag := ok_flag other\<rparr>
              in move_member lt p r' q other (set_cell p r' w)))"

definition destruct :: "nat \<Rightarrow> 'a result_obj \<Rightarrow> 'a results \<Rightarrow> 'a results ending" where
  "destruct p this w =
     (case result_destroy this of None \<Rightarrow> UB | Some r \<Rightarrow> Returns (w\<lparr>cells := (cells w)(p := None)\<rparr>))"

definition result_is_ok :: "'a result_obj \<Rightarrow> bool" where
  "result_is_ok r = ok_flag r"

text \<open>\<open>value()\<close> and \<open>error()\<close> do not look at the flag; the wrong one reads a dead member.\<close>

definition result_value :: "'a result_obj \<Rightarrow> 'a option" where
  "result_value r = (case union_of r of Alive_Value v \<Rightarrow> Some v | _ \<Rightarrow> None)"

definition result_error :: "'a result_obj \<Rightarrow> error option" where
  "result_error r = (case union_of r of Alive_Error e \<Rightarrow> Some e | _ \<Rightarrow> None)"

text \<open>\<open>value() &&\<close> and \<open>error() &&\<close>: the member is moved out and stays alive.\<close>

definition take_value :: "'a lifetimes \<Rightarrow> nat \<Rightarrow> 'a result_obj \<Rightarrow> 'a results \<Rightarrow> ('a \<times> 'a results) option" where
  "take_value lt p r w = map_option (\<lambda>v. (fst (move_value lt v),
     set_cell p (r\<lparr>union_of := Alive_Value (snd (move_value lt v))\<rparr>) w)) (result_value r)"

definition take_error :: "'a lifetimes \<Rightarrow> nat \<Rightarrow> 'a result_obj \<Rightarrow> 'a results \<Rightarrow> (error \<times> 'a results) option" where
  "take_error lt p r w = map_option (\<lambda>e. (fst (move_error lt e),
     set_cell p (r\<lparr>union_of := Alive_Error (snd (move_error lt e))\<rparr>) w)) (result_error r)"

section \<open>Programs over results\<close>

text \<open>The uses a program makes of results, by address. A use of an object that is not there, or a second
  object at the same address, is undefined.\<close>

datatype 'a result_op =
    From_Value nat 'a | From_Error nat error | Copy_New nat nat | Move_New nat nat
  | Copy_To nat nat | Move_To nat nat | Read_Value nat | Read_Error nat
  | Take_Value nat | Take_Error nat | Destruct nat

definition ending_of :: "'s option \<Rightarrow> 's ending" where
  "ending_of x = (case x of None \<Rightarrow> UB | Some s \<Rightarrow> Returns s)"

fun result_step :: "'a lifetimes \<Rightarrow> 'a result_op \<Rightarrow> 'a results \<Rightarrow> 'a results ending" where
  "result_step lt (From_Value p v) w = without_cell (cells w) p (from_value lt p v w)"
| "result_step lt (From_Error p e) w = without_cell (cells w) p (from_error lt p e w)"
| "result_step lt (Copy_New p q) w =
     without_cell (cells w) p (with_cell (cells w) q (\<lambda>other. copy_construct lt p other w))"
| "result_step lt (Move_New p q) w =
     without_cell (cells w) p (with_cell (cells w) q (\<lambda>other. move_construct lt p q other w))"
| "result_step lt (Copy_To p q) w = copy_assign lt p q w"
| "result_step lt (Move_To p q) w = move_assign lt p q w"
| "result_step lt (Read_Value p) w =
     with_cell (cells w) p (\<lambda>r. ending_of (map_option (\<lambda>_. w) (result_value r)))"
| "result_step lt (Read_Error p) w =
     with_cell (cells w) p (\<lambda>r. ending_of (map_option (\<lambda>_. w) (result_error r)))"
| "result_step lt (Take_Value p) w =
     with_cell (cells w) p (\<lambda>r. ending_of (map_option snd (take_value lt p r w)))"
| "result_step lt (Take_Error p) w =
     with_cell (cells w) p (\<lambda>r. ending_of (map_option snd (take_error lt p r w)))"
| "result_step lt (Destruct p) w = with_cell (cells w) p (\<lambda>r. destruct p r w)"

text \<open>A program goes on after an exception it catches.\<close>

fun run_ops :: "('op \<Rightarrow> 's \<Rightarrow> 's ending) \<Rightarrow> 'op list \<Rightarrow> 's \<Rightarrow> 's option" where
  "run_ops f [] s = Some s"
| "run_ops f (x # xs) s =
     (case f x s of Returns t \<Rightarrow> run_ops f xs t | Throws t \<Rightarrow> run_ops f xs t | UB \<Rightarrow> None)"

section \<open>What a result promises\<close>

text \<open>The same uses over the sum: a result is a value or an error, and nothing is ever half made.\<close>

definition copied :: "'a lifetimes \<Rightarrow> 'a result \<Rightarrow> 'a result option" where
  "copied lt r = (case r of Inr v \<Rightarrow> map_option Inr (copy_value lt v) | Inl e \<Rightarrow> map_option Inl (copy_error lt e))"

definition moved :: "'a lifetimes \<Rightarrow> 'a result \<Rightarrow> 'a result \<times> 'a result" where
  "moved lt r = (case r of Inr v \<Rightarrow> map_prod Inr Inr (move_value lt v) | Inl e \<Rightarrow> map_prod Inl Inl (move_error lt e))"

fun result_spec :: "'a lifetimes \<Rightarrow> 'a result_op \<Rightarrow> (nat \<Rightarrow> 'a result option) \<Rightarrow> (nat \<Rightarrow> 'a result option) ending" where
  "result_spec lt (From_Value p v) m = without_cell m p (Returns (m(p \<mapsto> fst (moved lt (Inr v)))))"
| "result_spec lt (From_Error p e) m = without_cell m p (Returns (m(p \<mapsto> fst (moved lt (Inl e)))))"
| "result_spec lt (Copy_New p q) m = without_cell m p (with_cell m q (\<lambda>s.
     case copied lt s of None \<Rightarrow> Throws m | Some t \<Rightarrow> Returns (m(p \<mapsto> t))))"
| "result_spec lt (Move_New p q) m = without_cell m p (with_cell m q (\<lambda>s.
     Returns (m(p \<mapsto> fst (moved lt s), q \<mapsto> snd (moved lt s)))))"
| "result_spec lt (Copy_To p q) m = with_cell m p (\<lambda>_. with_cell m q (\<lambda>s.
     if p = q then Returns m
     else case copied lt s of None \<Rightarrow> Throws m | Some t \<Rightarrow> Returns (m(p \<mapsto> t))))"
| "result_spec lt (Move_To p q) m = with_cell m p (\<lambda>_. with_cell m q (\<lambda>s.
     if p = q then Returns m else Returns (m(p \<mapsto> fst (moved lt s), q \<mapsto> snd (moved lt s)))))"
| "result_spec lt (Read_Value p) m = with_cell m p (\<lambda>r. if result_ok r then Returns m else UB)"
| "result_spec lt (Read_Error p) m = with_cell m p (\<lambda>r. if result_ok r then UB else Returns m)"
| "result_spec lt (Take_Value p) m =
     with_cell m p (\<lambda>r. if result_ok r then Returns (m(p \<mapsto> snd (moved lt r))) else UB)"
| "result_spec lt (Take_Error p) m =
     with_cell m p (\<lambda>r. if result_ok r then UB else Returns (m(p \<mapsto> snd (moved lt r))))"
| "result_spec lt (Destruct p) m = with_cell m p (\<lambda>_. Returns (m(p := None)))"

text \<open>How the storage holds a result: the flag says which member is alive.\<close>

definition stored :: "'a result \<Rightarrow> 'a result_obj" where
  "stored r = (case r of Inr v \<Rightarrow> \<lparr>ok_flag = True, union_of = Alive_Value v\<rparr>
                       | Inl e \<Rightarrow> \<lparr>ok_flag = False, union_of = Alive_Error e\<rparr>)"

definition storage :: "(nat \<Rightarrow> 'a result option) \<Rightarrow> 'a results" where
  "storage m = \<lparr>cells = map_option stored \<circ> m, leaked = 0\<rparr>"

lemma stored_simps [simp]:
  "stored (Inr v) = \<lparr>ok_flag = True, union_of = Alive_Value v\<rparr>"
  "stored (Inl e) = \<lparr>ok_flag = False, union_of = Alive_Error e\<rparr>"
  by (simp_all add: stored_def)

lemma storage_simps [simp]:
  "cells (storage m) p = map_option stored (m p)" "leaked (storage m) = 0"
  by (simp_all add: storage_def)

lemma storage_update: "set_cell p (stored r) (storage m) = storage (m(p \<mapsto> r))"
  by (auto simp: set_cell_def storage_def)

lemmas storage_update_member [simp] =
  storage_update [of _ "Inr v" for v, simplified] storage_update [of _ "Inl e" for e, simplified]

lemma dead_cell [simp]: "r\<lparr>union_of := Dead, ok_flag := b\<rparr> = \<lparr>ok_flag = b, union_of = Dead\<rparr>"
  by (cases r) simp

lemma storage_delete: "(storage m)\<lparr>cells := (cells (storage m))(p := None)\<rparr> = storage (m(p := None))"
  by (auto simp: storage_def)

lemma place_stored:
  "place_member p (union_of (stored r)) \<lparr>ok_flag = ok_flag (stored r), union_of = Dead\<rparr> (storage m) = storage (m(p \<mapsto> r))"
  by (cases r) (auto simp: place_member_def storage_def)

lemma place_over_dead:
  "place_member p n \<lparr>ok_flag = b, union_of = Dead\<rparr> (set_cell p x w) = place_member p n \<lparr>ok_flag = b, union_of = Dead\<rparr> w"
  by (simp add: place_member_def set_cell_def)

lemma destroy_stored [simp]: "result_destroy (stored r) = Some ((stored r)\<lparr>union_of := Dead\<rparr>)"
  by (cases r) (auto simp: result_destroy_def)

lemma accessors_stored [simp]:
  "result_is_ok (stored r) = result_ok r"
  "result_value (stored r) = (case r of Inr v \<Rightarrow> Some v | Inl _ \<Rightarrow> None)"
  "result_error (stored r) = (case r of Inr _ \<Rightarrow> None | Inl e \<Rightarrow> Some e)"
  by (cases r; simp add: result_is_ok_def result_value_def result_error_def)+

lemma copy_member_stored:
  "copy_member lt p \<lparr>ok_flag = ok_flag (stored s), union_of = Dead\<rparr> (stored s) (storage m) =
     (case copied lt s of None \<Rightarrow> Throws (storage m) | Some t \<Rightarrow> Returns (storage (m(p \<mapsto> t))))"
  using place_stored [of p "Inr v" m for v] place_stored [of p "Inl e" m for e]
  by (cases s) (auto simp: copy_member_def copied_def split: option.splits)

lemma move_member_stored:
  "move_member lt p \<lparr>ok_flag = ok_flag (stored s), union_of = Dead\<rparr> q (stored s) (storage m) =
     Returns (storage (m(p \<mapsto> fst (moved lt s), q \<mapsto> snd (moved lt s))))"
  using place_stored [of p "Inr v" m for v] place_stored [of p "Inl e" m for e]
  by (cases s) (auto simp: move_member_def moved_def split: prod.splits)

lemma copy_member_over:
  "copy_member lt p \<lparr>ok_flag = b, union_of = Dead\<rparr> other (set_cell p x w) =
     (case copy_member lt p \<lparr>ok_flag = b, union_of = Dead\<rparr> other w of
        Throws _ \<Rightarrow> Throws (set_cell p x w) | Returns t \<Rightarrow> Returns t | UB \<Rightarrow> UB)"
  by (cases "union_of other") (auto simp: copy_member_def place_over_dead split: option.splits)

lemma move_member_over:
  "move_member lt p \<lparr>ok_flag = b, union_of = Dead\<rparr> q other (set_cell p x w) =
     move_member lt p \<lparr>ok_flag = b, union_of = Dead\<rparr> q other w"
  by (cases "union_of other") (auto simp: move_member_def place_over_dead split: prod.splits)

fun map_ending :: "('s \<Rightarrow> 't) \<Rightarrow> 's ending \<Rightarrow> 't ending" where
  "map_ending f (Returns s) = Returns (f s)"
| "map_ending f (Throws s) = Throws (f s)"
| "map_ending f UB = UB"

lemma map_ending_guards [simp]:
  "map_ending f (with_cell m p g) = with_cell m p (\<lambda>r. map_ending f (g r))"
  "map_ending f (without_cell m p x) = without_cell m p (map_ending f x)"
  by (simp_all add: with_cell_def without_cell_def split: option.splits)

lemma with_cell_storage:
  "with_cell (cells (storage m)) p f = with_cell m p (\<lambda>r. f (stored r))"
  "without_cell (cells (storage m)) p x = without_cell m p x"
  by (simp_all add: with_cell_def without_cell_def split: option.splits)

lemma with_cell_cong_some: "(\<And>r. m p = Some r \<Longrightarrow> f r = g r) \<Longrightarrow> with_cell m p f = with_cell m p g"
  by (simp add: with_cell_def split: option.splits)

lemma construct_stored:
  "from_value lt p v (storage m) = Returns (storage (m(p \<mapsto> fst (moved lt (Inr v)))))"
  "from_error lt p e (storage m) = Returns (storage (m(p \<mapsto> fst (moved lt (Inl e)))))"
  using place_stored [of p "Inr (fst (move_value lt v))" m] place_stored [of p "Inl (fst (move_error lt e))" m]
  by (simp_all add: from_value_def from_error_def moved_def split: prod.splits)

lemma cells_set_cell [simp]: "cells (set_cell p r w) q = (if q = p then Some r else cells w q)"
  by (simp add: set_cell_def)

lemma copy_assign_stored:
  "copy_assign lt p q (storage m) = with_cell m p (\<lambda>_.
     if p = q then Returns (storage m)
     else with_cell m q (\<lambda>s. case copied lt s of
             None \<Rightarrow> Throws (set_cell p \<lparr>ok_flag = ok_flag (stored s), union_of = Dead\<rparr> (storage m))
           | Some t \<Rightarrow> Returns (storage (m(p \<mapsto> t)))))"
  by (auto simp: copy_assign_def with_cell_def Let_def copy_member_over copy_member_stored split: option.splits)

lemma move_assign_stored:
  "move_assign lt p q (storage m) = with_cell m p (\<lambda>_.
     if p = q then Returns (storage m)
     else with_cell m q (\<lambda>s. Returns (storage (m(p \<mapsto> fst (moved lt s), q \<mapsto> snd (moved lt s))))))"
  by (auto simp: move_assign_def with_cell_def Let_def move_member_over move_member_stored split: option.splits)

lemma take_stored [simp]:
  "take_value lt p (stored r) (storage m) =
     (case r of Inr v \<Rightarrow> Some (fst (move_value lt v), storage (m(p \<mapsto> snd (moved lt r)))) | Inl e \<Rightarrow> None)"
  "take_error lt p (stored r) (storage m) =
     (case r of Inr v \<Rightarrow> None | Inl e \<Rightarrow> Some (fst (move_error lt e), storage (m(p \<mapsto> snd (moved lt r)))))"
proof -
  show "take_value lt p (stored r) (storage m) =
     (case r of Inr v \<Rightarrow> Some (fst (move_value lt v), storage (m(p \<mapsto> snd (moved lt r)))) | Inl e \<Rightarrow> None)"
    by (cases r) (simp_all only: take_value_def result_value_def result_obj.select_convs member.case sum.case option.map stored_simps
        result_obj.update_convs storage_update_member moved_def snd_map_prod)
  show "take_error lt p (stored r) (storage m) =
     (case r of Inr v \<Rightarrow> None | Inl e \<Rightarrow> Some (fst (move_error lt e), storage (m(p \<mapsto> snd (moved lt r)))))"
    by (cases r) (simp_all only: take_error_def result_error_def result_obj.select_convs member.case sum.case option.map stored_simps
        result_obj.update_convs storage_update_member moved_def snd_map_prod)
qed

definition assigns_safely :: "'a lifetimes \<Rightarrow> (nat \<Rightarrow> 'a result option) \<Rightarrow> 'a result_op \<Rightarrow> bool" where
  "assigns_safely lt m x = (case x of
     Copy_To p q \<Rightarrow> p = q \<or> (case m q of Some s \<Rightarrow> copied lt s \<noteq> None | None \<Rightarrow> True) | _ \<Rightarrow> True)"

lemma ending_of_map:
  "ending_of (map_option f x) = (case x of None \<Rightarrow> UB | Some y \<Rightarrow> Returns (f y))"
  by (simp add: ending_of_def split: option.splits)

lemma result_step_stored:
  assumes "assigns_safely lt m x"
  shows "result_step lt x (storage m) = map_ending storage (result_spec lt x m)"
proof (cases x)
  case (Copy_To p q)
  then show ?thesis using assms
    by (auto simp: assigns_safely_def with_cell_def copy_assign_stored split: option.splits)
next
  case (Take_Value p)
  then show ?thesis
    by (auto simp: with_cell_storage ending_of_def with_cell_def result_ok_def split: option.splits sum.splits)
next
  case (Take_Error p)
  then show ?thesis
    by (auto simp: with_cell_storage ending_of_def with_cell_def result_ok_def split: option.splits sum.splits)
next
  case (Copy_New p q)
  then show ?thesis
    by (auto simp: with_cell_storage copy_construct_def copy_member_stored with_cell_def without_cell_def split: option.splits)
qed (auto simp: with_cell_storage construct_stored move_construct_def with_cell_def without_cell_def
       move_member_stored move_assign_stored destruct_def storage_delete ending_of_map 
       result_ok_def split: option.splits sum.splits)

lemma map_ending_cases:
  "(case map_ending f x of Returns t \<Rightarrow> g t | Throws t \<Rightarrow> h t | UB \<Rightarrow> u) =
   (case x of Returns t \<Rightarrow> g (f t) | Throws t \<Rightarrow> h (f t) | UB \<Rightarrow> u)"
  by (cases x) simp_all

lemma run_stored:
  assumes "\<And>m x. x \<in> set xs \<Longrightarrow> assigns_safely lt m x"
  shows "run_ops (result_step lt) xs (storage m) = map_option storage (run_ops (result_spec lt) xs m)"
  using assms
proof (induction xs arbitrary: m)
  case (Cons x xs)
  then have "result_step lt x (storage m) = map_ending storage (result_spec lt x m)"
    by (intro result_step_stored) simp
  moreover have "run_ops (result_step lt) xs (storage n) = map_option storage (run_ops (result_spec lt) xs n)" for n
    using Cons by simp
  ultimately show ?case by (cases "result_spec lt x m") simp_all
qed simp

fun copy_assigns :: "'a result_op \<Rightarrow> bool" where
  "copy_assigns (Copy_To p q) = True"
| "copy_assigns _ = False"

lemma assigns_safelyI:
  "\<not> copy_assigns x \<or> (\<forall>v. copy_value lt v \<noteq> None) \<and> (\<forall>e. copy_error lt e \<noteq> None) \<Longrightarrow> assigns_safely lt m x"
  by (cases x) (auto simp: assigns_safely_def copied_def split: option.splits sum.splits)

text \<open>
  C16: The hand-made storage of \<open>Result<T>\<close> behaves as the sum of a value and an error under any program of
  constructions, copies, moves, assignments (an object to itself among them), reads and destructions:
  where the sum allows the next use, no dead member is read or destroyed and no live one overwritten, and
  where it does not (reading the value of an error, two objects at one address) the use is undefined. A
  copy construction may throw. It is assumed only that copies do not throw, or that no result is assigned
  to by copy.
\<close>

theorem result_storage_refines:
  assumes "(\<forall>v. copy_value lt v \<noteq> None) \<and> (\<forall>e. copy_error lt e \<noteq> None) \<or> (\<forall>x \<in> set xs. \<not> copy_assigns x)"
  shows "run_ops (result_step lt) xs (storage m) = map_option storage (run_ops (result_spec lt) xs m)
    \<and> (case run_ops (result_step lt) xs (storage m) of None \<Rightarrow> True | Some w \<Rightarrow> leaked w = 0)"
proof -
  have "run_ops (result_step lt) xs (storage m) = map_option storage (run_ops (result_spec lt) xs m)"
    using assms by (intro run_stored assigns_safelyI) blast
  then show ?thesis by (simp split: option.splits)
qed

text \<open>Integers whose copies do not throw, strings that a move empties.\<close>

definition plain_copies :: "int lifetimes" where
  "plain_copies = \<lparr>copy_value = Some, move_value = (\<lambda>v. (v, v)), copy_error = Some,
     move_error = (\<lambda>e. (e, e\<lparr>detail := []\<rparr>))\<rparr>"

lemma result_storage_refines_witness:
  "run_ops (result_step plain_copies) [From_Value 0 7, Copy_New 1 0, From_Error 2 (make_error Io ''eof''), Copy_To 0 2,
     Move_To 1 0, Copy_To 1 1, Read_Error 1, Destruct 0, Destruct 1, Destruct 2] (storage Map.empty) = Some (storage Map.empty)"
  using result_storage_refines [of plain_copies "[From_Value 0 7, Copy_New 1 0, From_Error 2 (make_error Io ''eof''),
    Copy_To 0 2, Move_To 1 0, Copy_To 1 1, Read_Error 1, Destruct 0, Destruct 1, Destruct 2]" Map.empty]
  by (simp add: plain_copies_def with_cell_def without_cell_def copied_def moved_def result_ok_def fun_upd_twist)

text \<open>
  C38: What a throwing copy does to an assignment. Assigning a result to another and destroying the target
  afterwards, as the end of its scope does whether or not the exception is caught, is undefined exactly
  when the copy throws and the two are different objects: \<open>operator=\<close> has destroyed the old member
  and set the flag before the copy, so the destructor destroys a member that was never made.
\<close>

theorem throwing_copy_assignment:
  assumes "m p = Some r" "m q = Some s"
  shows "run_ops (result_step lt) [Copy_To p q, Destruct p] (storage m) = None \<longleftrightarrow> p \<noteq> q \<and> copied lt s = None"
proof (cases "p \<noteq> q \<and> copied lt s = None")
  case True
  then show ?thesis using assms
    by (simp add: with_cell_def copy_assign_stored set_cell_def destruct_def result_destroy_def)
next
  case False
  then have safe: "assigns_safely lt m (Copy_To p q)" using assms by (auto simp: assigns_safely_def)
  show ?thesis using False assms
    by (auto simp: result_step_stored [OF safe] with_cell_def destruct_def simp del: result_step.simps(5) split: option.splits)
qed

lemma throwing_copy_assignment_witness:
  "run_ops (result_step (plain_copies\<lparr>copy_error := (\<lambda>e. None)\<rparr>))
     [Copy_To 0 1, Destruct 0] (storage [0 \<mapsto> Inr 7, 1 \<mapsto> Inl (make_error Io ''eof'')]) = None"
  using throwing_copy_assignment [of "[0 \<mapsto> Inr 7, 1 \<mapsto> Inl (make_error Io ''eof'')]" 0 "Inr 7" 1
    "Inl (make_error Io ''eof'')" "plain_copies\<lparr>copy_error := (\<lambda>e. None)\<rparr>"]
  by (simp add: copied_def)

section \<open>\<open>Result<void>\<close>\<close>

text \<open>No union here: an error that is always there, and a flag.\<close>

record void_result =
  err_field :: error
  has_err :: bool

definition void_default :: void_result where
  "void_default = \<lparr>err_field = \<lparr>category = Ok, code = 0, detail = []\<rparr>, has_err = False\<rparr>"

definition void_from_error :: "error \<Rightarrow> void_result" where
  "void_from_error e = \<lparr>err_field = e, has_err = True\<rparr>"

definition void_ok :: "void_result \<Rightarrow> bool" where
  "void_ok r = (\<not> has_err r)"

definition void_error :: "void_result \<Rightarrow> error" where
  "void_error r = err_field r"

definition void_sum :: "void_result \<Rightarrow> unit result" where
  "void_sum r = (if void_ok r then Inr () else Inl (void_error r))"

lemma void_sum_simps [simp]:
  "void_sum void_default = Inr ()" "void_sum (void_from_error e) = Inl e"
  "result_ok (void_sum r) = void_ok r" "category (void_error void_default) = Ok"
  by (simp_all add: void_sum_def void_default_def void_from_error_def void_ok_def void_error_def)

end
