(* ===== verification/Alloc_Guard.thy ===== *)
theory Alloc_Guard
  imports Core_Types
begin

text \<open>
  The allocation guard of debug builds (\<open>core/alloc_guard.hpp\<close>) with the allocator hooks its test
  links (\<open>tests/unit/alloc_hooks.cpp\<close>): per-thread counters, scopes that watch them, and a thread's
  work as nested scopes of allocations and deallocations. \<open>malloc\<close> answers as the environment likes.
\<close>

section \<open>Counters and hooks\<close>

record alloc_tls =
  allocations_count :: u64
  deallocations_count :: u64
  tracking_active :: bool

definition tls_init :: alloc_tls where
  "tls_init = \<lparr>allocations_count = 0, deallocations_count = 0, tracking_active = False\<rparr>"

definition count_new :: "alloc_tls \<Rightarrow> alloc_tls" where
  "count_new t = (if tracking_active t then t\<lparr>allocations_count := allocations_count t + 1\<rparr> else t)"

text \<open>A null pointer is None. The throwing operators raise \<open>bad_alloc\<close> on it.\<close>

datatype new_outcome = Block "nat option" | Bad_Alloc

definition operator_new :: "(nat \<Rightarrow> nat option) \<Rightarrow> nat \<Rightarrow> alloc_tls \<Rightarrow> new_outcome \<times> alloc_tls" where
  "operator_new malloc n t =
     (case malloc (if n = 0 then 1 else n) of None \<Rightarrow> Bad_Alloc | Some p \<Rightarrow> Block (Some p), count_new t)"

definition operator_new_nothrow :: "(nat \<Rightarrow> nat option) \<Rightarrow> nat \<Rightarrow> alloc_tls \<Rightarrow> new_outcome \<times> alloc_tls" where
  "operator_new_nothrow malloc n t = (Block (malloc (if n = 0 then 1 else n)), count_new t)"

definition operator_delete :: "nat option \<Rightarrow> alloc_tls \<Rightarrow> alloc_tls" where
  "operator_delete p t =
     (if tracking_active t \<and> p \<noteq> None then t\<lparr>deallocations_count := deallocations_count t + 1\<rparr> else t)"

section \<open>The guard\<close>

text \<open>\<open>Inert\<close> is the guard of a build without \<open>BIST_ENABLE_ALLOC_GUARD\<close>.\<close>

datatype alloc_guard = Armed (start_alloc: u64) (start_dealloc: u64) | Inert

fun guard_enter :: "bool \<Rightarrow> alloc_tls \<Rightarrow> alloc_guard \<times> alloc_tls" where
  "guard_enter True t =
     (Armed (allocations_count t) (deallocations_count t), t\<lparr>tracking_active := True\<rparr>)"
| "guard_enter False t = (Inert, t)"

text \<open>The destructor; None is \<open>std::abort\<close>.\<close>

fun guard_leave :: "alloc_guard \<Rightarrow> alloc_tls \<Rightarrow> alloc_tls option" where
  "guard_leave (Armed a d) t =
     (let t' = t\<lparr>tracking_active := False\<rparr>; allocs = allocations_count t' - a
      in if allocs \<noteq> 0 then None else Some t')"
| "guard_leave Inert t = Some t"

fun observed_allocations :: "alloc_guard \<Rightarrow> alloc_tls \<Rightarrow> u64" where
  "observed_allocations (Armed a d) t = allocations_count t - a"
| "observed_allocations Inert t = 0"

fun observed_deallocations :: "alloc_guard \<Rightarrow> alloc_tls \<Rightarrow> u64" where
  "observed_deallocations (Armed a d) t = deallocations_count t - d"
| "observed_deallocations Inert t = 0"

section \<open>Guarded work\<close>

text \<open>What a thread does: allocations (throwing or not), deallocations, and guarded scopes. An exception
  leaves the scopes it is in, whose guards are destroyed on the way; an abort ends the process.\<close>

datatype work = New nat | New_Nothrow nat | Delete "nat option" | Guarded "work list"

datatype work_end = Finished alloc_tls | Unwinding alloc_tls | Aborted

fun run_work :: "bool \<Rightarrow> (nat \<Rightarrow> nat option) \<Rightarrow> work list \<Rightarrow> alloc_tls \<Rightarrow> work_end" where
  "run_work b malloc [] t = Finished t"
| "run_work b malloc (New n # ws) t =
     (case operator_new malloc n t of
        (Bad_Alloc, t') \<Rightarrow> Unwinding t' | (Block p, t') \<Rightarrow> run_work b malloc ws t')"
| "run_work b malloc (New_Nothrow n # ws) t = run_work b malloc ws (snd (operator_new_nothrow malloc n t))"
| "run_work b malloc (Delete p # ws) t = run_work b malloc ws (operator_delete p t)"
| "run_work b malloc (Guarded vs # ws) t =
     (let (g, t1) = guard_enter b t
      in case run_work b malloc vs t1 of
           Aborted \<Rightarrow> Aborted
         | Finished t2 \<Rightarrow> (case guard_leave g t2 of None \<Rightarrow> Aborted | Some t3 \<Rightarrow> run_work b malloc ws t3)
         | Unwinding t2 \<Rightarrow> (case guard_leave g t2 of None \<Rightarrow> Aborted | Some t3 \<Rightarrow> Unwinding t3))"

section \<open>What the guard sees\<close>

text \<open>Work without scopes, and the allocations it makes: up to the first that throws.\<close>

fun flat :: "work list \<Rightarrow> bool" where
  "flat [] = True"
| "flat (Guarded vs # ws) = False"
| "flat (New n # ws) = flat ws"
| "flat (New_Nothrow n # ws) = flat ws"
| "flat (Delete p # ws) = flat ws"

fun allocs :: "(nat \<Rightarrow> nat option) \<Rightarrow> work list \<Rightarrow> nat" where
  "allocs malloc (New n # ws) = (if malloc (if n = 0 then 1 else n) = None then 1 else 1 + allocs malloc ws)"
| "allocs malloc (New_Nothrow n # ws) = 1 + allocs malloc ws"
| "allocs malloc (Delete p # ws) = allocs malloc ws"
| "allocs malloc _ = 0"

fun throws :: "(nat \<Rightarrow> nat option) \<Rightarrow> work list \<Rightarrow> bool" where
  "throws malloc (New n # ws) = (malloc (if n = 0 then 1 else n) = None \<or> throws malloc ws)"
| "throws malloc (w # ws) = throws malloc ws"
| "throws malloc [] = False"

lemma allocs_le: "allocs malloc ws \<le> length ws"
  by (induction ws rule: allocs.induct) auto

lemma count_new_simps [simp]:
  "tracking_active (count_new t) = tracking_active t"
  "allocations_count (count_new t) = allocations_count t + (if tracking_active t then 1 else 0)"
  by (simp_all add: count_new_def)

lemma operator_delete_simps [simp]:
  "tracking_active (operator_delete p t) = tracking_active t"
  "allocations_count (operator_delete p t) = allocations_count t"
  by (simp_all add: operator_delete_def)

lemma run_flat:
  assumes "flat ws"
  shows "\<exists>t'. run_work b malloc ws t = (if throws malloc ws then Unwinding t' else Finished t')
    \<and> tracking_active t' = tracking_active t
    \<and> allocations_count t' = allocations_count t + (if tracking_active t then of_nat (allocs malloc ws) else 0)"
  using assms
proof (induction ws arbitrary: t rule: flat.induct)
  case (3 n ws)
  show ?case
  proof (cases "malloc (if n = 0 then 1 else n)")
    case None
    then show ?thesis by (simp add: operator_new_def)
  next
    case (Some p)
    moreover obtain t' where "run_work b malloc ws (count_new t) = (if throws malloc ws then Unwinding t' else Finished t')"
      "tracking_active t' = tracking_active (count_new t)" "allocations_count t' = allocations_count (count_new t)
        + (if tracking_active (count_new t) then of_nat (allocs malloc ws) else 0)"
      using "3.IH" [of "count_new t"] "3.prems" by auto
    ultimately show ?thesis by (intro exI [of _ t']) (simp add: operator_new_def)
  qed
next
  case (4 n ws)
  then obtain t' where "run_work b malloc ws (count_new t) = (if throws malloc ws then Unwinding t' else Finished t')"
    "tracking_active t' = tracking_active (count_new t)" "allocations_count t' = allocations_count (count_new t)
      + (if tracking_active (count_new t) then of_nat (allocs malloc ws) else 0)"
    using "4.IH" [of "count_new t"] by auto
  then show ?case by (intro exI [of _ t']) (simp add: operator_new_nothrow_def)
next
  case (5 p ws)
  then show ?case using "5.IH" [of "operator_delete p t"]
    by (simp only: run_work.simps flat.simps throws.simps allocs.simps operator_delete_simps)
qed auto

lemma count_is_zero:
  assumes "length ws < 2 ^ 64"
  shows "(of_nat (allocs malloc ws) = (0 :: u64)) \<longleftrightarrow> allocs malloc ws = 0"
proof -
  have "allocs malloc ws < 2 ^ 64" using allocs_le [of malloc ws] assms by linarith
  then show ?thesis by (auto simp: word_of_nat_eq_0_iff dvd_eq_mod_eq_0)
qed

lemma allocs_if_throws: "flat ws \<Longrightarrow> throws malloc ws \<Longrightarrow> 0 < allocs malloc ws"
  by (induction ws rule: flat.induct) auto

lemma flat_append:
  "flat vs \<Longrightarrow> flat ws \<Longrightarrow> flat (vs @ ws)"
  "flat vs \<Longrightarrow> allocs malloc vs = 0 \<Longrightarrow> allocs malloc (vs @ ws) = allocs malloc ws"
  by (induction vs rule: flat.induct) (auto split: if_splits)

text \<open>What a scope without scopes in it ends with.\<close>

lemma guarded_flat:
  assumes "flat ws" "length ws < 2 ^ 64"
  shows "if 0 < allocs malloc ws then run_work True malloc (Guarded ws # vs) t = Aborted
    else \<exists>t'. run_work True malloc (Guarded ws # vs) t = run_work True malloc vs t'
      \<and> \<not> tracking_active t' \<and> allocations_count t' = allocations_count t"
proof -
  obtain t' where t': "run_work True malloc ws (t\<lparr>tracking_active := True\<rparr>) = (if throws malloc ws then Unwinding t' else Finished t')"
    "tracking_active t'" "allocations_count t' = allocations_count t + of_nat (allocs malloc ws)"
    using run_flat [OF assms(1), of True malloc "t\<lparr>tracking_active := True\<rparr>"] by auto
  show ?thesis
  proof (cases "0 < allocs malloc ws")
    case True
    then show ?thesis using t' count_is_zero [OF assms(2), of malloc] by (simp split: if_splits)
  next
    case False
    then have "\<not> throws malloc ws" using allocs_if_throws [OF assms(1), of malloc] by auto
    then show ?thesis using t' False by (auto intro!: exI [of _ "t'\<lparr>tracking_active := False\<rparr>"])
  qed
qed

lemma guarded_keeps_count:
  assumes "run_work True malloc ws (t\<lparr>tracking_active := True\<rparr>) = (if b then Unwinding u else Finished u)"
    "allocations_count u = allocations_count t"
  shows "run_work True malloc [Guarded ws] t \<noteq> Aborted"
  using assms by (cases b) simp_all

text \<open>
  A guard of a debug build ends the process exactly when its scope allocates. For a scope that holds no
  other guard and fewer than \<open>2 ^ 64\<close> steps, the process aborts if and only if an allocation was made or
  tried before the scope was left, by its end or by an exception, whatever the counters were and
  whatever deallocations it did; otherwise the scope ends with tracking off and the count as it was.
\<close>

lemma guard_exact:
  assumes "flat ws" "length ws < 2 ^ 64"
  shows "if 0 < allocs malloc ws then run_work True malloc [Guarded ws] t = Aborted
    else \<exists>t'. run_work True malloc [Guarded ws] t = Finished t'
      \<and> \<not> tracking_active t' \<and> allocations_count t' = allocations_count t"
  using guarded_flat [OF assms, of malloc "[]" t] by (simp only: run_work.simps(1))

text \<open>
  Guards do not nest. The end of an inner guarded scope switches the tracking of the thread off, so
  whatever the outer scope allocates after it goes unnoticed: the process never aborts for it, where
  the same work without the inner guard aborts exactly when it allocates.
\<close>

lemma inner_guard_blinds_outer:
  assumes "flat vs" "flat ws" "length (vs @ ws) < 2 ^ 64" "allocs malloc vs = 0"
  shows "run_work True malloc [Guarded (Guarded vs # ws)] t \<noteq> Aborted
    \<and> (run_work True malloc [Guarded (vs @ ws)] t = Aborted \<longleftrightarrow> 0 < allocs malloc ws)"
proof
  obtain t1 where "run_work True malloc (Guarded vs # ws) (t\<lparr>tracking_active := True\<rparr>) = run_work True malloc ws t1"
    "\<not> tracking_active t1" "allocations_count t1 = allocations_count t"
    using guarded_flat [of vs malloc ws "t\<lparr>tracking_active := True\<rparr>"] assms by auto
  moreover obtain t2 where "run_work True malloc ws t1 = (if throws malloc ws then Unwinding t2 else Finished t2)"
    "allocations_count t2 = allocations_count t1"
    using run_flat [OF assms(2), of True malloc t1] calculation(2) by auto
  ultimately show "run_work True malloc [Guarded (Guarded vs # ws)] t \<noteq> Aborted"
    by (intro guarded_keeps_count [of malloc "Guarded vs # ws" t "throws malloc ws" t2]) (simp_all only:)
  show "run_work True malloc [Guarded (vs @ ws)] t = Aborted \<longleftrightarrow> 0 < allocs malloc ws"
    using guarded_flat [of "vs @ ws" malloc "[]" t] flat_append [OF assms(1)] assms by (auto split: if_splits)
qed

text \<open>A release build does not watch anything.\<close>

lemma release_guard_inert:
  "run_work False malloc (Guarded vs # ws) t =
     (case run_work False malloc vs t of Finished t' \<Rightarrow> run_work False malloc ws t' | e \<Rightarrow> e)"
  "observed_allocations (fst (guard_enter False t)) t = 0" "observed_deallocations (fst (guard_enter False t)) t = 0"
  by (simp_all split: work_end.splits)

lemma release_never_aborts: "run_work False malloc ws t \<noteq> Aborted"
  by (induction "False" malloc ws t rule: run_work.induct) (auto split: prod.splits new_outcome.splits work_end.splits)

lemma observed_at_entry [simp]:
  "observed_allocations (fst (guard_enter b t)) t = 0" "observed_deallocations (fst (guard_enter b t)) t = 0"
  by (cases b; simp)+

end
