(* ===== verification/Reactor.thy ===== *)
theory Reactor
  imports Core_Types
begin

unbundle bit_operations_syntax

text \<open>
  \<open>include/bist/net/reactor.hpp\<close> and \<open>epoll_reactor.hpp\<close>: the table of callbacks behind poll and
  behind epoll, and the rounds that call them. A callback is what it asks of the reactor when it is
  called; the kernel is what \<open>poll\<close>, \<open>epoll_wait\<close> and \<open>epoll_ctl\<close> answer.
\<close>

section \<open>Events\<close>

type_synonym io_event = u8

definition io_none :: io_event where "io_none = 0"
definition io_readable :: io_event where "io_readable = 1"
definition io_writable :: io_event where "io_writable = 2"
definition io_error :: io_event where "io_error = 4"

definition io_has :: "io_event \<Rightarrow> io_event \<Rightarrow> bool" where
  "io_has events flag \<longleftrightarrow> events AND flag \<noteq> 0"

datatype io_callback = IoCallback "io_event \<Rightarrow> reactor_call list"
and reactor_call = CallAdd int io_event io_callback | CallModify int io_event | CallRemove int

primrec invoke :: "io_callback \<Rightarrow> io_event \<Rightarrow> reactor_call list" where
  "invoke (IoCallback f) ev = f ev"

text \<open>The Linux values.\<close>

definition POLLIN :: u16 where "POLLIN = 0x1"
definition POLLOUT :: u16 where "POLLOUT = 0x4"
definition POLL_ERRORS :: u16 where "POLL_ERRORS = 0x38"

definition EPOLLIN :: u32 where "EPOLLIN = 0x1"
definition EPOLLOUT :: u32 where "EPOLLOUT = 0x4"
definition EPOLLRDHUP :: u32 where "EPOLLRDHUP = 0x2000"
definition EPOLL_ERRORS :: u32 where "EPOLL_ERRORS = 0x2018"
definition EPOLLET :: u32 where "EPOLLET = 0x80000000"

section \<open>The poll reactor\<close>

record pollfd =
  pf_fd :: int
  pf_events :: u16
  pf_revents :: u16

text \<open>\<open>pr_fired\<close> remembers which callbacks were called, with what.\<close>

record poll_reactor =
  pr_fds :: "pollfd list"
  pr_callbacks :: "io_callback list"
  pr_fired :: "(int \<times> io_event) list"

definition poll_reactor_init :: poll_reactor where
  "poll_reactor_init = \<lparr>pr_fds = [], pr_callbacks = [], pr_fired = []\<rparr>"

definition poll_events_for :: "io_event \<Rightarrow> u16" where
  "poll_events_for e =
     (if io_has e io_readable then POLLIN else 0) OR (if io_has e io_writable then POLLOUT else 0)"

fun find_index_from :: "int \<Rightarrow> nat \<Rightarrow> pollfd list \<Rightarrow> nat option" where
  "find_index_from fd i [] = None"
| "find_index_from fd i (p # ps) = (if pf_fd p = fd then Some i else find_index_from fd (i + 1) ps)"

definition find_index :: "int \<Rightarrow> poll_reactor \<Rightarrow> nat option" where
  "find_index fd r = find_index_from fd 0 (pr_fds r)"

definition poll_add :: "int \<Rightarrow> io_event \<Rightarrow> io_callback \<Rightarrow> poll_reactor \<Rightarrow> unit result \<times> poll_reactor" where
  "poll_add fd interest cb r =
     (if find_index fd r \<noteq> None then (Inl (make_error Validation ''fd already registered''), r)
      else (Inr (), r\<lparr>pr_fds := pr_fds r @ [\<lparr>pf_fd = fd, pf_events = poll_events_for interest, pf_revents = 0\<rparr>],
                      pr_callbacks := pr_callbacks r @ [cb]\<rparr>))"

definition poll_modify :: "int \<Rightarrow> io_event \<Rightarrow> poll_reactor \<Rightarrow> unit result \<times> poll_reactor" where
  "poll_modify fd interest r =
     (case find_index fd r of
        None \<Rightarrow> (Inl (make_error Validation ''fd not registered''), r)
      | Some i \<Rightarrow>
          (Inr (), r\<lparr>pr_fds := (pr_fds r)[i := (pr_fds r ! i)\<lparr>pf_events := poll_events_for interest\<rparr>]\<rparr>))"

definition erase_at :: "nat \<Rightarrow> 'a list \<Rightarrow> 'a list" where
  "erase_at i xs = take i xs @ drop (i + 1) xs"

definition poll_remove :: "int \<Rightarrow> poll_reactor \<Rightarrow> unit result \<times> poll_reactor" where
  "poll_remove fd r =
     (case find_index fd r of
        None \<Rightarrow> (Inl (make_error Validation ''fd not registered''), r)
      | Some i \<Rightarrow> (Inr (), r\<lparr>pr_fds := erase_at i (pr_fds r), pr_callbacks := erase_at i (pr_callbacks r)\<rparr>))"

text \<open>What a callback asks for while it is called from place \<open>i\<close>. The callback lives in the vector:
  a removal at or before its place and an addition that may reallocate the vector destroy or move it,
  and what it does after that is undefined.\<close>

fun poll_call :: "reactor_call \<Rightarrow> poll_reactor \<Rightarrow> poll_reactor" where
  "poll_call (CallAdd fd interest cb) r = snd (poll_add fd interest cb r)"
| "poll_call (CallModify fd interest) r = snd (poll_modify fd interest r)"
| "poll_call (CallRemove fd) r = snd (poll_remove fd r)"

fun poll_disturbs :: "nat \<Rightarrow> reactor_call \<Rightarrow> poll_reactor \<Rightarrow> bool" where
  "poll_disturbs i (CallAdd fd interest cb) r \<longleftrightarrow> find_index fd r = None"
| "poll_disturbs i (CallModify fd interest) r \<longleftrightarrow> False"
| "poll_disturbs i (CallRemove fd) r \<longleftrightarrow> (case find_index fd r of None \<Rightarrow> False | Some j \<Rightarrow> j \<le> i)"

fun poll_calls :: "nat \<Rightarrow> reactor_call list \<Rightarrow> poll_reactor \<Rightarrow> poll_reactor option" where
  "poll_calls i [] r = Some r"
| "poll_calls i (c # cs) r =
     (if poll_disturbs i c r \<and> cs \<noteq> [] then None else poll_calls i cs (poll_call c r))"

definition poll_event_of :: "u16 \<Rightarrow> io_event" where
  "poll_event_of re =
     (if re AND POLLIN \<noteq> 0 then io_readable else 0) OR (if re AND POLLOUT \<noteq> 0 then io_writable else 0)
     OR (if re AND POLL_ERRORS \<noteq> 0 then io_error else 0)"

definition poll_fire :: "nat \<Rightarrow> io_event \<Rightarrow> poll_reactor \<Rightarrow> poll_reactor option" where
  "poll_fire i ev r =
     poll_calls i (invoke (pr_callbacks r ! i) ev) (r\<lparr>pr_fired := pr_fired r @ [(pf_fd (pr_fds r ! i), ev)]\<rparr>)"

definition pending :: "poll_reactor \<Rightarrow> nat" where
  "pending r = length (filter (\<lambda>p. pf_revents p \<noteq> 0) (pr_fds r))"

lemma find_index_from_bound: "find_index_from fd i ps = Some j \<Longrightarrow> i \<le> j \<and> j < i + length ps \<and> pf_fd (ps ! (j - i)) = fd"
  by (induction fd i ps rule: find_index_from.induct) (force split: if_splits simp: nth_Cons')+

lemma find_index_bound: "find_index fd r = Some j \<Longrightarrow> j < length (pr_fds r) \<and> pf_fd (pr_fds r ! j) = fd"
  using find_index_from_bound [of fd 0 "pr_fds r" j] by (simp add: find_index_def)

lemma pending_call: "pending (poll_call c r) \<le> pending r"
proof (cases c)
  case (CallModify fd interest)
  have "map pf_revents ((pr_fds r)[i := (pr_fds r ! i)\<lparr>pf_events := e\<rparr>]) = map pf_revents (pr_fds r)" for i e
    by (cases "i < length (pr_fds r)") (auto simp: map_update intro!: nth_equalityI simp: nth_list_update)
  then have "map pf_revents (pr_fds (poll_call c r)) = map pf_revents (pr_fds r)"
    by (auto simp: CallModify poll_modify_def split: option.split)
  moreover have "pending r = length (filter (\<lambda>x. x \<noteq> 0) (map pf_revents (pr_fds r)))" for r
    by (simp add: pending_def filter_map comp_def)
  ultimately show ?thesis by (metis le_refl)
next
  case (CallRemove fd)
  have "length (filter P (erase_at i xs)) \<le> length (filter P xs)" for P i and xs :: "pollfd list"
  proof -
    have "drop (i + 1) xs = tl (drop i xs)" by (simp add: drop_Suc tl_drop)
    then have "length (filter P (drop (i + 1) xs)) \<le> length (filter P (drop i xs))"
      by (cases "drop i xs") simp_all
    then have "length (filter P (take i xs @ drop (i + 1) xs)) \<le> length (filter P (take i xs @ drop i xs))"
      by (simp del: append_take_drop_id)
    then show ?thesis by (simp add: erase_at_def)
  qed
  then show ?thesis by (auto simp: CallRemove poll_remove_def pending_def split: option.split)
qed (simp add: poll_add_def pending_def)

lemma pending_calls: "poll_calls i cs r = Some r' \<Longrightarrow> pending r' \<le> pending r"
proof (induction i cs r rule: poll_calls.induct)
  case (2 i c cs r)
  then show ?case using pending_call [of c r] by (fastforce split: if_splits)
qed simp

definition clear_revents :: "nat \<Rightarrow> poll_reactor \<Rightarrow> poll_reactor" where
  "clear_revents i r = r\<lparr>pr_fds := (pr_fds r)[i := (pr_fds r ! i)\<lparr>pf_revents := 0\<rparr>]\<rparr>"

lemma pending_clear:
  assumes "i < length (pr_fds r)" "pf_revents (pr_fds r ! i) \<noteq> 0"
  shows "pending (clear_revents i r) < pending r"
proof -
  let ?xs = "pr_fds r" and ?P = "\<lambda>p. pf_revents p \<noteq> 0"
  have "filter ?P ?xs = filter ?P (take i ?xs @ ?xs ! i # drop (Suc i) ?xs)"
    by (rule arg_cong [OF id_take_nth_drop [OF assms(1)]])
  also have "\<dots> = filter ?P (take i ?xs) @ ?xs ! i # filter ?P (drop (Suc i) ?xs)" using assms(2) by simp
  finally have "pending r = Suc (length (filter ?P (take i ?xs)) + length (filter ?P (drop (Suc i) ?xs)))"
    by (simp add: pending_def)
  then show ?thesis using assms(1) by (simp add: pending_def clear_revents_def upd_conv_take_nth_drop)
qed

lemma pending_fired [simp]: "pending (r\<lparr>pr_fired := f\<rparr>) = pending r"
  by (simp add: pending_def)

lemma pending_fire: "poll_fire i ev r = Some r' \<Longrightarrow> pending r' \<le> pending r"
  unfolding poll_fire_def by (drule pending_calls) (simp only: pending_fired)

text \<open>One round over the vector; entries may go and come while it runs.\<close>

function poll_round :: "nat \<Rightarrow> nat \<Rightarrow> poll_reactor \<Rightarrow> (nat \<times> poll_reactor) option" where
  "poll_round i fired r =
     (if length (pr_fds r) \<le> i then Some (fired, r)
      else if pf_revents (pr_fds r ! i) = 0 then poll_round (i + 1) fired r
      else (case poll_fire i (poll_event_of (pf_revents (pr_fds r ! i))) (clear_revents i r) of
              None \<Rightarrow> None
            | Some r1 \<Rightarrow> poll_round (i + 1) (fired + 1) r1))"
  by auto
termination
proof (relation "measures [\<lambda>(i, fired, r). pending r, \<lambda>(i, fired, r). length (pr_fds r) - i]")
  fix i fired r r1
  assume "\<not> length (pr_fds r) \<le> i" "pf_revents (pr_fds r ! i) \<noteq> 0"
    "poll_fire i (poll_event_of (pf_revents (pr_fds r ! i))) (clear_revents i r) = Some r1"
  then have "pending r1 < pending r" using pending_fire pending_clear [of i r] by fastforce
  then show "((i + 1, fired + 1, r1), i, fired, r)
      \<in> measures [\<lambda>(i, fired, r). pending r, \<lambda>(i, fired, r). length (pr_fds r) - i]" by simp
qed auto

declare poll_round.simps [simp del]

definition poll_timeout :: "int \<Rightarrow> i32" where
  "poll_timeout max_wait = word_of_int (min max_wait 1000000)"

text \<open>\<open>run_for\<close>; the kernel sets \<open>revents\<close> of each entry, or fails.\<close>

definition poll_run_for ::
  "(pollfd list \<Rightarrow> i32 \<Rightarrow> u16 list option) \<Rightarrow> int \<Rightarrow> poll_reactor \<Rightarrow> (nat result \<times> poll_reactor) option" where
  "poll_run_for answer max_wait r =
     (if pr_fds r = [] then Some (Inr 0, r)
      else case answer (pr_fds r) (poll_timeout max_wait) of
        None \<Rightarrow> Some (Inl (make_error Io ''poll failed''), r)
      | Some res \<Rightarrow>
          (let r1 = r\<lparr>pr_fds := map2 (\<lambda>p re. p\<lparr>pf_revents := re\<rparr>) (pr_fds r) res\<rparr>
           in if list_all (\<lambda>re. re = 0) res then Some (Inr 0, r1)
              else map_option (map_prod Inr id) (poll_round 0 0 r1)))"

section \<open>The epoll reactor\<close>

text \<open>\<open>er_interest\<close> is the kernel's interest list; \<open>er_ctl\<close> what \<open>epoll_ctl\<close> will answer, success when
  used up.\<close>

record epoll_reactor =
  er_open :: bool
  er_callbacks :: "int \<Rightarrow> io_callback option"
  er_interest :: "int \<Rightarrow> u32 option"
  er_ctl :: "bool list"
  er_fired :: "(int \<times> io_event) list"

definition epoll_reactor_init :: "bool \<Rightarrow> bool list \<Rightarrow> epoll_reactor" where
  "epoll_reactor_init ok ctl =
     \<lparr>er_open = ok, er_callbacks = Map.empty, er_interest = Map.empty, er_ctl = ctl, er_fired = []\<rparr>"

definition epoll_events_for :: "io_event \<Rightarrow> u32" where
  "epoll_events_for e =
     EPOLLET OR (if io_has e io_readable then EPOLLIN OR EPOLLRDHUP else 0)
     OR (if io_has e io_writable then EPOLLOUT else 0)"

definition epoll_ctl :: "(epoll_reactor \<Rightarrow> epoll_reactor) \<Rightarrow> epoll_reactor \<Rightarrow> bool \<times> epoll_reactor" where
  "epoll_ctl change r =
     (case er_ctl r of
        [] \<Rightarrow> (True, change r)
      | ok # later \<Rightarrow> (ok, if ok then change (r\<lparr>er_ctl := later\<rparr>) else r\<lparr>er_ctl := later\<rparr>))"

definition set_interest :: "int \<Rightarrow> u32 option \<Rightarrow> epoll_reactor \<Rightarrow> epoll_reactor" where
  "set_interest fd m r = r\<lparr>er_interest := (er_interest r)(fd := m)\<rparr>"

definition set_callback :: "int \<Rightarrow> io_callback option \<Rightarrow> epoll_reactor \<Rightarrow> epoll_reactor" where
  "set_callback fd cb r = r\<lparr>er_callbacks := (er_callbacks r)(fd := cb)\<rparr>"

definition epoll_add :: "int \<Rightarrow> io_event \<Rightarrow> io_callback \<Rightarrow> epoll_reactor \<Rightarrow> unit result \<times> epoll_reactor" where
  "epoll_add fd interest cb r =
     (if \<not> er_open r then (Inl (make_error Io ''epoll_create1 failed''), r)
      else if er_callbacks r fd \<noteq> None then (Inl (make_error Validation ''fd already registered''), r)
      else (case epoll_ctl (set_interest fd (Some (epoll_events_for interest))) r of
              (False, r1) \<Rightarrow> (Inl (make_error Io ''epoll_ctl ADD failed''), r1)
            | (True, r1) \<Rightarrow> (Inr (), set_callback fd (Some cb) r1)))"

definition epoll_modify :: "int \<Rightarrow> io_event \<Rightarrow> epoll_reactor \<Rightarrow> unit result \<times> epoll_reactor" where
  "epoll_modify fd interest r =
     (if er_callbacks r fd = None then (Inl (make_error Validation ''fd not registered''), r)
      else (case epoll_ctl (set_interest fd (Some (epoll_events_for interest))) r of
              (False, r1) \<Rightarrow> (Inl (make_error Io ''epoll_ctl MOD failed''), r1)
            | (True, r1) \<Rightarrow> (Inr (), r1)))"

definition epoll_remove :: "int \<Rightarrow> epoll_reactor \<Rightarrow> unit result \<times> epoll_reactor" where
  "epoll_remove fd r =
     (if er_callbacks r fd = None then (Inl (make_error Validation ''fd not registered''), r)
      else (case epoll_ctl (set_interest fd None) r of
              (False, r1) \<Rightarrow> (Inl (make_error Io ''epoll_ctl DEL failed''), r1)
            | (True, r1) \<Rightarrow> (Inr (), set_callback fd None r1)))"

text \<open>The callback lives in a node of the map, which only its own removal destroys.\<close>

fun epoll_call :: "reactor_call \<Rightarrow> epoll_reactor \<Rightarrow> unit result \<times> epoll_reactor" where
  "epoll_call (CallAdd fd interest cb) r = epoll_add fd interest cb r"
| "epoll_call (CallModify fd interest) r = epoll_modify fd interest r"
| "epoll_call (CallRemove fd) r = epoll_remove fd r"

fun removes :: "int \<Rightarrow> reactor_call \<Rightarrow> bool" where
  "removes fd (CallRemove fd') \<longleftrightarrow> fd' = fd"
| "removes fd _ \<longleftrightarrow> False"

fun epoll_calls :: "int \<Rightarrow> reactor_call list \<Rightarrow> epoll_reactor \<Rightarrow> epoll_reactor option" where
  "epoll_calls fd [] r = Some r"
| "epoll_calls fd (c # cs) r =
     (let (res, r1) = epoll_call c r
      in if removes fd c \<and> result_ok res \<and> cs \<noteq> [] then None else epoll_calls fd cs r1)"

definition epoll_event_of :: "u32 \<Rightarrow> io_event" where
  "epoll_event_of e =
     (if e AND EPOLLIN \<noteq> 0 then io_readable else 0) OR (if e AND EPOLLOUT \<noteq> 0 then io_writable else 0)
     OR (if e AND EPOLL_ERRORS \<noteq> 0 then io_error else 0)"

fun epoll_round :: "(int \<times> u32) list \<Rightarrow> nat \<Rightarrow> epoll_reactor \<Rightarrow> (nat \<times> epoll_reactor) option" where
  "epoll_round [] fired r = Some (fired, r)"
| "epoll_round ((fd, e) # es) fired r =
     (case er_callbacks r fd of
        None \<Rightarrow> epoll_round es fired r
      | Some cb \<Rightarrow>
          (let ev = epoll_event_of e
           in case epoll_calls fd (invoke cb ev) (r\<lparr>er_fired := er_fired r @ [(fd, ev)]\<rparr>) of
                None \<Rightarrow> None
              | Some r1 \<Rightarrow> epoll_round es (fired + 1) r1))"

definition epoll_timeout :: "int \<Rightarrow> i32" where
  "epoll_timeout max_wait = word_of_int max_wait"

text \<open>The kernel answers with at most \<open>kMaxBatch\<close> ready descriptors, or fails.\<close>

definition kMaxBatch :: nat where "kMaxBatch = 64"

definition epoll_run_for ::
  "((int \<Rightarrow> u32 option) \<Rightarrow> i32 \<Rightarrow> (int \<times> u32) list option) \<Rightarrow> int \<Rightarrow> epoll_reactor
    \<Rightarrow> (nat result \<times> epoll_reactor) option" where
  "epoll_run_for answer max_wait r =
     (if er_callbacks r = Map.empty then Some (Inr 0, r)
      else case answer (er_interest r) (epoll_timeout max_wait) of
        None \<Rightarrow> Some (Inl (make_error Io ''epoll_wait failed''), r)
      | Some es \<Rightarrow> map_option (map_prod Inr id) (epoll_round (take kMaxBatch es) 0 r))"

end
