(* ===== verification/Reactor_Laws.thy ===== *)
theory Reactor_Laws
  imports Reactor
begin

text \<open>
  The contract of \<open>IReactor\<close> as a table of descriptors, its two implementations, and what a round of
  each calls.
\<close>

section \<open>The contract\<close>

text \<open>What is registered for a descriptor: whether it waits to read and to write, and its callback.\<close>

type_synonym watch_table = "int \<Rightarrow> ((bool \<times> bool) \<times> io_callback) option"

definition wants :: "io_event \<Rightarrow> bool \<times> bool" where
  "wants e = (io_has e io_readable, io_has e io_writable)"

fun table_call :: "reactor_call \<Rightarrow> watch_table \<Rightarrow> unit result \<times> watch_table" where
  "table_call (CallAdd fd e cb) t =
     (if t fd \<noteq> None then (Inl (make_error Validation ''fd already registered''), t)
      else (Inr (), t(fd \<mapsto> (wants e, cb))))"
| "table_call (CallModify fd e) t =
     (case t fd of
        None \<Rightarrow> (Inl (make_error Validation ''fd not registered''), t)
      | Some w \<Rightarrow> (Inr (), t(fd \<mapsto> (wants e, snd w))))"
| "table_call (CallRemove fd) t =
     (if t fd = None then (Inl (make_error Validation ''fd not registered''), t)
      else (Inr (), t(fd := None)))"

primrec call_results :: "(reactor_call \<Rightarrow> 's \<Rightarrow> unit result \<times> 's) \<Rightarrow> reactor_call list \<Rightarrow> 's \<Rightarrow> unit result list \<times> 's" where
  "call_results f [] s = ([], s)"
| "call_results f (c # cs) s =
     (let (x, s1) = f c s; (xs, s2) = call_results f cs s1 in (x # xs, s2))"

locale reactor_table =
  fixes call :: "reactor_call \<Rightarrow> 's \<Rightarrow> unit result \<times> 's"
    and tbl :: "'s \<Rightarrow> watch_table"
    and inv :: "'s \<Rightarrow> bool"
  assumes call_inv: "inv s \<Longrightarrow> inv (snd (call c s))"
    and call_table: "inv s \<Longrightarrow> (fst (call c s), tbl (snd (call c s))) = table_call c (tbl s)"
begin

lemma calls_table:
  "inv s \<Longrightarrow> fst (call_results call cs s) = fst (call_results table_call cs (tbl s))
     \<and> tbl (snd (call_results call cs s)) = snd (call_results table_call cs (tbl s))
     \<and> inv (snd (call_results call cs s))"
proof (induction cs arbitrary: s)
  case (Cons c cs)
  have "table_call c (tbl s) = (fst (call c s), tbl (snd (call c s)))" using call_table [OF Cons.prems, of c] by simp
  then show ?case using Cons.IH [OF call_inv [OF Cons.prems, of c]] by (simp add: case_prod_beta Let_def)
qed simp

end

section \<open>The poll reactor keeps it\<close>

fun poll_request :: "reactor_call \<Rightarrow> poll_reactor \<Rightarrow> unit result \<times> poll_reactor" where
  "poll_request (CallAdd fd e cb) r = poll_add fd e cb r"
| "poll_request (CallModify fd e) r = poll_modify fd e r"
| "poll_request (CallRemove fd) r = poll_remove fd r"

definition poll_wants :: "u16 \<Rightarrow> bool \<times> bool" where
  "poll_wants ev = (ev AND POLLIN \<noteq> 0, ev AND POLLOUT \<noteq> 0)"

lemma poll_wants_for: "poll_wants (poll_events_for e) = wants e"
  by (simp add: poll_wants_def poll_events_for_def wants_def POLLIN_def POLLOUT_def)

definition poll_row :: "pollfd \<Rightarrow> io_callback \<Rightarrow> int \<times> (bool \<times> bool) \<times> io_callback" where
  "poll_row p cb = (pf_fd p, poll_wants (pf_events p), cb)"

definition poll_rows :: "poll_reactor \<Rightarrow> (int \<times> (bool \<times> bool) \<times> io_callback) list" where
  "poll_rows r = map2 poll_row (pr_fds r) (pr_callbacks r)"

definition poll_inv :: "poll_reactor \<Rightarrow> bool" where
  "poll_inv r \<longleftrightarrow> length (pr_callbacks r) = length (pr_fds r) \<and> distinct (map pf_fd (pr_fds r))"

lemma poll_rows_keys: "poll_inv r \<Longrightarrow> map fst (poll_rows r) = map pf_fd (pr_fds r)"
  by (rule nth_equalityI) (simp_all add: poll_rows_def poll_inv_def poll_row_def)

lemma length_poll_rows: "poll_inv r \<Longrightarrow> length (poll_rows r) = length (pr_fds r)"
  by (simp add: poll_rows_def poll_inv_def)

lemma poll_rows_nth: "poll_inv r \<Longrightarrow> i < length (pr_fds r) \<Longrightarrow> poll_rows r ! i = poll_row (pr_fds r ! i) (pr_callbacks r ! i)"
  by (simp add: poll_rows_def poll_inv_def)

lemma find_index_from_None: "find_index_from fd i ps = None \<longleftrightarrow> fd \<notin> set (map pf_fd ps)"
  by (induction fd i ps rule: find_index_from.induct) auto

lemma poll_table_find:
  assumes "poll_inv r"
  shows "map_of (poll_rows r) fd =
    (case find_index fd r of None \<Rightarrow> None | Some i \<Rightarrow> Some (snd (poll_rows r ! i)))"
proof (cases "find_index fd r")
  case None
  then have "fd \<notin> fst ` set (poll_rows r)"
    using poll_rows_keys [OF assms] by (simp add: find_index_def find_index_from_None flip: set_map)
  then show ?thesis using None by (simp add: map_of_eq_None_iff)
next
  case (Some i)
  then have "i < length (poll_rows r)" "fst (poll_rows r ! i) = fd"
    using find_index_bound [OF Some] length_poll_rows [OF assms] poll_rows_nth [OF assms] by (simp_all add: poll_row_def)
  then have "(fd, snd (poll_rows r ! i)) \<in> set (poll_rows r)" using nth_mem [of i "poll_rows r"] by (metis prod.collapse)
  moreover have "distinct (map fst (poll_rows r))" using poll_rows_keys [OF assms] assms by (simp add: poll_inv_def)
  ultimately show ?thesis using Some by simp
qed

lemma map_of_update_nth:
  "distinct (map fst xs) \<Longrightarrow> i < length xs \<Longrightarrow> fst (xs ! i) = k \<Longrightarrow> map_of (xs[i := (k, v)]) = (map_of xs)(k \<mapsto> v)"
proof (induction xs arbitrary: i)
  case (Cons x xs)
  then show ?case by (cases i; cases x) (auto simp: fun_upd_twist nth_mem image_iff)
qed simp

lemma map_of_erase:
  "distinct (map fst xs) \<Longrightarrow> i < length xs \<Longrightarrow> fst (xs ! i) = k \<Longrightarrow> map_of (erase_at i xs) = (map_of xs)(k := None)"
proof (induction xs arbitrary: i)
  case (Cons x xs)
  show ?case
  proof (cases i)
    case 0
    then have "k \<notin> fst ` set xs" "fst x = k" using Cons.prems by auto
    then have "map_of xs k = None" by (simp add: map_of_eq_None_iff)
    then show ?thesis using 0 \<open>fst x = k\<close> by (cases x) (auto simp: erase_at_def)
  next
    case (Suc j)
    then have "fst x \<noteq> k" using Cons.prems by (auto simp: image_iff)
    then show ?thesis using Suc Cons by (cases x) (auto simp: erase_at_def fun_upd_twist)
  qed
qed simp

lemma erase_at_map2: "length xs = length ys \<Longrightarrow> map2 f (erase_at i xs) (erase_at i ys) = erase_at i (map2 f xs ys)"
  by (simp add: erase_at_def take_zip drop_zip take_map drop_map)

lemma poll_request_table:
  assumes "poll_inv r"
  shows "poll_inv (snd (poll_request c r)) \<and>
    (fst (poll_request c r), map_of (poll_rows (snd (poll_request c r)))) = table_call c (map_of (poll_rows r))"
proof -
  have distinct: "distinct (map fst (poll_rows r))" using poll_rows_keys [OF assms] assms by (simp add: poll_inv_def)
  note found = poll_table_find [OF assms]
  note len = assms [unfolded poll_inv_def]
  show ?thesis
  proof (cases c)
    case (CallAdd fd e cb)
    show ?thesis
    proof (cases "find_index fd r")
      case None
      let ?r = "snd (poll_add fd e cb r)"
      have "fd \<notin> pf_fd ` set (pr_fds r)" using None by (simp add: find_index_def find_index_from_None)
      moreover have "poll_rows ?r = poll_rows r @ [(fd, wants e, cb)]"
        using None len by (simp add: poll_add_def poll_rows_def poll_row_def poll_wants_for)
      moreover have "map_of (poll_rows r) fd = None" using found [of fd] None by simp
      ultimately show ?thesis using CallAdd None len
        by (auto simp: poll_add_def poll_inv_def map_of_append fun_eq_iff map_add_def split: option.split)
    qed (use CallAdd found [of fd] assms in \<open>simp add: poll_add_def\<close>)
  next
    case (CallModify fd e)
    show ?thesis
    proof (cases "find_index fd r")
      case (Some i)
      let ?r = "snd (poll_modify fd e r)"
      have i: "i < length (pr_fds r)" "pf_fd (pr_fds r ! i) = fd" using find_index_bound [OF Some] by simp_all
      have "poll_rows ?r = (poll_rows r)[i := (fd, wants e, pr_callbacks r ! i)]"
        using Some len i
        by (intro nth_equalityI) (auto simp: poll_modify_def poll_rows_def poll_row_def poll_wants_for nth_list_update)
      then have "map_of (poll_rows ?r) = (map_of (poll_rows r))(fd \<mapsto> (wants e, pr_callbacks r ! i))"
        using map_of_update_nth [OF distinct, of i fd] i length_poll_rows [OF assms] poll_rows_nth [OF assms i(1)]
        by (simp add: poll_row_def)
      moreover have "(map pf_fd (pr_fds r))[i := fd] = map pf_fd (pr_fds r)"
        using i by (metis list_update_id nth_map)
      then have "poll_inv ?r" using Some len i by (simp add: poll_modify_def poll_inv_def map_update)
      ultimately show ?thesis using CallModify Some found [of fd] poll_rows_nth [OF assms i(1)]
        by (simp add: poll_modify_def poll_row_def)
    qed (use CallModify found [of fd] assms in \<open>simp add: poll_modify_def\<close>)
  next
    case (CallRemove fd)
    show ?thesis
    proof (cases "find_index fd r")
      case (Some i)
      let ?r = "snd (poll_remove fd r)"
      have i: "i < length (pr_fds r)" "pf_fd (pr_fds r ! i) = fd" using find_index_bound [OF Some] by simp_all
      have "poll_rows ?r = erase_at i (poll_rows r)"
        using Some len erase_at_map2 [of "pr_fds r" "pr_callbacks r"] by (simp add: poll_remove_def poll_rows_def)
      then have "map_of (poll_rows ?r) = (map_of (poll_rows r))(fd := None)"
        using map_of_erase [OF distinct, of i fd] i length_poll_rows [OF assms] poll_rows_nth [OF assms i(1)]
        by (simp add: poll_row_def)
      moreover have "distinct (erase_at i xs)" if "distinct xs" for xs :: "int list"
        using that by (simp add: erase_at_def set_take_disj_set_drop_if_distinct)
      then have "poll_inv ?r"
        using Some len by (simp add: poll_remove_def poll_inv_def erase_at_def flip: take_map drop_map)
      ultimately show ?thesis using CallRemove Some found [of fd] by (simp add: poll_remove_def)
    qed (use CallRemove found [of fd] assms in \<open>simp add: poll_remove_def\<close>)
  qed
qed

interpretation poll_table: reactor_table poll_request "\<lambda>r. map_of (poll_rows r)" poll_inv
  by unfold_locales (simp_all add: poll_request_table)

section \<open>The epoll reactor keeps it\<close>

definition epoll_wants :: "u32 \<Rightarrow> bool \<times> bool" where
  "epoll_wants ev = (ev AND EPOLLIN \<noteq> 0, ev AND EPOLLOUT \<noteq> 0)"

lemma epoll_wants_for: "epoll_wants (epoll_events_for e) = wants e"
  by (simp add: epoll_wants_def epoll_events_for_def wants_def EPOLLIN_def EPOLLOUT_def EPOLLRDHUP_def EPOLLET_def)

definition epoll_table :: "epoll_reactor \<Rightarrow> watch_table" where
  "epoll_table r fd = map_option (\<lambda>cb. (epoll_wants (the (er_interest r fd)), cb)) (er_callbacks r fd)"

text \<open>The kernel accepted what it was asked.\<close>

definition epoll_inv :: "epoll_reactor \<Rightarrow> bool" where
  "epoll_inv r \<longleftrightarrow> er_open r \<and> er_ctl r = [] \<and> dom (er_callbacks r) = dom (er_interest r)"

lemma epoll_call_table:
  assumes "epoll_inv r"
  shows "epoll_inv (snd (epoll_call c r)) \<and>
    (fst (epoll_call c r), epoll_table (snd (epoll_call c r))) = table_call c (epoll_table r)"
proof (cases c)
  case (CallAdd fd e cb)
  then show ?thesis using assms
    by (auto simp: epoll_add_def epoll_inv_def epoll_ctl_def set_interest_def set_callback_def epoll_table_def
        epoll_wants_for fun_eq_iff)
next
  case (CallModify fd e)
  then show ?thesis using assms
    by (auto simp: epoll_modify_def epoll_inv_def epoll_ctl_def set_interest_def epoll_table_def
        epoll_wants_for fun_eq_iff)
next
  case (CallRemove fd)
  then show ?thesis using assms
    by (auto simp: epoll_remove_def epoll_inv_def epoll_ctl_def set_interest_def set_callback_def epoll_table_def
        fun_eq_iff)
qed

interpretation epoll_table: reactor_table epoll_call epoll_table epoll_inv
  by unfold_locales (simp_all add: epoll_call_table)

section \<open>Properties\<close>

text \<open>
  C23: The epoll reactor is a drop-in replacement: any sequence of registrations, changes and removals
  gets the same answers from both reactors and leaves the same table of descriptors, interests and
  callbacks, as long as the kernel does not refuse.
\<close>

theorem reactors_interchangeable:
  "fst (call_results poll_request cs poll_reactor_init) = fst (call_results epoll_call cs (epoll_reactor_init True []))
   \<and> map_of (poll_rows (snd (call_results poll_request cs poll_reactor_init)))
     = epoll_table (snd (call_results epoll_call cs (epoll_reactor_init True [])))"
proof -
  have "poll_inv poll_reactor_init" "epoll_inv (epoll_reactor_init True [])"
    by (simp_all add: poll_inv_def poll_reactor_init_def epoll_inv_def epoll_reactor_init_def)
  moreover have "map_of (poll_rows poll_reactor_init) = epoll_table (epoll_reactor_init True [])"
    by (simp add: poll_rows_def poll_reactor_init_def epoll_table_def epoll_reactor_init_def fun_eq_iff)
  ultimately show ?thesis using poll_table.calls_table epoll_table.calls_table by metis
qed

section \<open>Rounds\<close>

definition quiet :: "io_callback \<Rightarrow> bool" where
  "quiet cb \<longleftrightarrow> (\<forall>ev. invoke cb ev = [])"

text \<open>The callbacks a round of poll calls when none of them asks anything of the reactor.\<close>

definition poll_ready :: "pollfd list \<Rightarrow> (int \<times> io_event) list" where
  "poll_ready ps = map (\<lambda>p. (pf_fd p, poll_event_of (pf_revents p))) (filter (\<lambda>p. pf_revents p \<noteq> 0) ps)"

lemma quiet_round:
  assumes "length (pr_callbacks r) = length (pr_fds r)" "list_all quiet (pr_callbacks r)" "i \<le> length (pr_fds r)"
  shows "poll_round i n r = Some (n + length (poll_ready (drop i (pr_fds r))),
    r\<lparr>pr_fds := take i (pr_fds r) @ map (pf_revents_update (\<lambda>_. 0)) (drop i (pr_fds r)),
      pr_fired := pr_fired r @ poll_ready (drop i (pr_fds r))\<rparr>)"
  using assms
proof (induction "length (pr_fds r) - i" arbitrary: i n r)
  case 0
  then show ?case by (simp add: poll_round.simps [of i n r] poll_ready_def)
next
  case (Suc k)
  let ?p = "pr_fds r ! i" and ?r = "clear_revents i r"
  have i: "i < length (pr_fds r)" "\<not> length (pr_fds r) \<le> i" using Suc.hyps(2) by simp_all
  have d: "drop i (pr_fds r) = ?p # drop (Suc i) (pr_fds r)" using i by (simp add: Cons_nth_drop_Suc)
  have t: "take (Suc i) (pr_fds r) = take i (pr_fds r) @ [?p]" using i by (simp add: take_Suc_conv_app_nth)
  show ?case
  proof (cases "pf_revents ?p = 0")
    case True
    moreover have "?p\<lparr>pf_revents := 0\<rparr> = ?p" using True by simp
    ultimately show ?thesis
      using Suc.hyps(1) [of r "i + 1" n] Suc.hyps(2) Suc.prems i d t
      by (simp add: poll_round.simps [of i n r] poll_ready_def)
  next
    case False
    let ?ev = "poll_event_of (pf_revents ?p)"
    let ?r1 = "?r\<lparr>pr_fired := pr_fired r @ [(pf_fd ?p, ?ev)]\<rparr>"
    have "invoke (pr_callbacks r ! i) ?ev = []"
      using Suc.prems(1,2) i by (simp add: list_all_length quiet_def)
    then have "poll_fire i ?ev ?r = Some ?r1" using i by (simp add: poll_fire_def clear_revents_def)
    moreover have "take (Suc i) (pr_fds ?r1) = take i (pr_fds r) @ [?p\<lparr>pf_revents := 0\<rparr>]"
      "drop (Suc i) (pr_fds ?r1) = drop (Suc i) (pr_fds r)" "length (pr_fds ?r1) = length (pr_fds r)"
      using i by (simp_all add: clear_revents_def take_Suc_conv_app_nth)
    ultimately show ?thesis
      using Suc.hyps(1) [of ?r1 "i + 1" "n + 1"] Suc.hyps(2) Suc.prems i d False
      by (simp add: poll_round.simps [of i n r] poll_ready_def clear_revents_def)
  qed
qed

lemma quiet_epoll_round:
  assumes "\<forall>(fd, e) \<in> set es. \<exists>cb. er_callbacks r fd = Some cb \<and> quiet cb"
  shows "epoll_round es n r = Some (n + length es,
    r\<lparr>er_fired := er_fired r @ map (\<lambda>(fd, e). (fd, epoll_event_of e)) es\<rparr>)"
  using assms
proof (induction es arbitrary: n r)
  case (Cons x es)
  then show ?case by (cases x) (auto simp: quiet_def Let_def)
qed simp

text \<open>
  When callbacks ask nothing of the reactor, a round of either calls the callback of every ready
  descriptor once, in the kernel's order, with its events, returns their number and leaves the table
  as it is: from the same table and the same events (a batch of at most 64) both do the same.
\<close>

lemma quiet_rounds_agree:
  assumes tables: "poll_inv p" "map_of (poll_rows p) = epoll_table e" "list_all quiet (pr_callbacks p)"
    and poll: "pans (pr_fds p) (poll_timeout w) = Some res" "length res = length (pr_fds p)"
    and epoll: "eans (er_interest e) (epoll_timeout w) = Some es" "length es \<le> kMaxBatch"
    and same: "map (\<lambda>(fd, ev). (fd, epoll_event_of ev)) es = poll_ready (map2 (\<lambda>p re. p\<lparr>pf_revents := re\<rparr>) (pr_fds p) res)"
  shows "\<exists>p' e'. poll_run_for pans w p = Some (Inr (length es), p') \<and> epoll_run_for eans w e = Some (Inr (length es), e')
    \<and> pr_fired p' = pr_fired p @ map (\<lambda>(fd, ev). (fd, epoll_event_of ev)) es
    \<and> er_fired e' = er_fired e @ map (\<lambda>(fd, ev). (fd, epoll_event_of ev)) es
    \<and> map_of (poll_rows p') = map_of (poll_rows p) \<and> epoll_table e' = epoll_table e"
proof -
  let ?fds = "map2 (\<lambda>p re. p\<lparr>pf_revents := re\<rparr>) (pr_fds p) res"
  let ?p1 = "p\<lparr>pr_fds := ?fds\<rparr>" and ?fired = "map (\<lambda>(fd, ev). (fd, epoll_event_of ev)) es"
  let ?p2 = "p\<lparr>pr_fds := map (pf_revents_update (\<lambda>_. 0)) ?fds, pr_fired := pr_fired p @ ?fired\<rparr>"
  have len: "length (pr_callbacks p) = length (pr_fds p)" using tables(1) by (simp add: poll_inv_def)
  have n: "length (poll_ready ?fds) = length es" using same by (metis length_map)
  have "poll_round 0 0 ?p1 = Some (length es, ?p2)"
    using quiet_round [of ?p1 0 0] len poll(2) tables(3) n same by simp
  moreover have rows: "poll_rows q = poll_rows p"
    if "map pf_fd (pr_fds q) = map pf_fd (pr_fds p)" "map pf_events (pr_fds q) = map pf_events (pr_fds p)"
      "pr_callbacks q = pr_callbacks p" for q
  proof (rule nth_equalityI)
    have l: "length (pr_fds q) = length (pr_fds p)" using that(1) by (metis length_map)
    then show "length (poll_rows q) = length (poll_rows p)" using that(3) by (simp add: poll_rows_def)
    fix i assume "i < length (poll_rows q)"
    then have i: "i < length (pr_fds p)" "i < length (pr_fds q)" "i < length (pr_callbacks p)"
      using l that(3) by (simp_all add: poll_rows_def)
    then have "pf_fd (pr_fds q ! i) = pf_fd (pr_fds p ! i)" "pf_events (pr_fds q ! i) = pf_events (pr_fds p ! i)"
      using that(1,2) by (metis nth_map)+
    then show "poll_rows q ! i = poll_rows p ! i" using i that(3) by (simp add: poll_rows_def poll_row_def)
  qed
  have keep: "map pf_fd ?fds = map pf_fd (pr_fds p)" "map pf_events ?fds = map pf_events (pr_fds p)"
    using poll(2) by (auto intro!: nth_equalityI)
  have "poll_rows ?p1 = poll_rows p" "poll_rows ?p2 = poll_rows p"
    using keep by (auto intro!: rows simp: comp_def)
  moreover have registered: "\<exists>cb. er_callbacks e fd = Some cb \<and> quiet cb" if "fd \<in> pf_fd ` set (pr_fds p)" for fd
  proof -
    have "fd \<in> fst ` set (poll_rows p)" using that poll_rows_keys [OF tables(1)] by (metis set_map)
    then obtain w where w: "map_of (poll_rows p) fd = Some w" by (metis map_of_eq_None_iff not_None_eq)
    then have "(fd, w) \<in> set (poll_rows p)" by (rule map_of_SomeD)
    then have "snd w \<in> set (pr_callbacks p)" by (auto simp: poll_rows_def poll_row_def dest: set_zip_rightD)
    moreover have "er_callbacks e fd = Some (snd w)" using w tables(2) by (auto simp: epoll_table_def)
    ultimately show ?thesis using tables(3) by (simp add: list_all_iff)
  qed
  have "fd \<in> pf_fd ` set (pr_fds p)" if "(fd, ev) \<in> set es" for fd ev
  proof -
    have "fd \<in> fst ` set (poll_ready ?fds)" using that same by (force simp flip: same)
    moreover have "fst ` set (poll_ready xs) \<subseteq> pf_fd ` set xs" for xs by (auto simp: poll_ready_def)
    ultimately have "fd \<in> pf_fd ` set ?fds" by blast
    then show ?thesis using keep(1) by (metis set_map)
  qed
  then have "\<forall>(fd, ev) \<in> set es. \<exists>cb. er_callbacks e fd = Some cb \<and> quiet cb" using registered by blast
  then have "epoll_round es 0 e = Some (length es, e\<lparr>er_fired := er_fired e @ ?fired\<rparr>)"
    using quiet_epoll_round [of es e 0] by simp
  then have run_e: "epoll_run_for eans w e = Some (Inr (length es), e\<lparr>er_fired := er_fired e @ ?fired\<rparr>)"
    if "pr_fds p \<noteq> []"
    using that registered [of "pf_fd (hd (pr_fds p))"] epoll by (auto simp: epoll_run_for_def)
  have table_e: "epoll_table (e\<lparr>er_fired := f\<rparr>) = epoll_table e" for f by (simp add: epoll_table_def fun_eq_iff)
  show ?thesis
  proof (cases "pr_fds p = []")
    case True
    then have "es = []" "er_callbacks e = Map.empty"
      using n tables(2) by (auto simp: poll_ready_def epoll_table_def poll_rows_def fun_eq_iff)
    then show ?thesis using True by (simp add: poll_run_for_def epoll_run_for_def)
  next
    case False
    show ?thesis
    proof (cases "list_all (\<lambda>re. re = 0) res")
      case True
      then have "poll_ready ?fds = []" by (auto simp: poll_ready_def filter_empty_conv list_all_iff dest: set_zip_rightD)
      then have "es = []" using n by simp
      then show ?thesis
        using run_e [OF False] False True poll(1) calculation(2) table_e by (simp add: poll_run_for_def)
    next
      case some: False
      then have "poll_run_for pans w p = Some (Inr (length es), ?p2)"
        using False poll(1) calculation(1) by (simp add: poll_run_for_def)
      then show ?thesis using run_e [OF False] calculation(3) table_e by simp
    qed
  qed
qed

text \<open>
  C39: A callback of the poll reactor that removes its own descriptor makes the round skip the next
  one: with two descriptors ready, the second is not called although its events stay set; the epoll
  reactor calls both.
\<close>

theorem removal_skips_next:
  assumes "poll_inv p" "pr_fds p = [a, b]" "pr_callbacks p = [ca, cb]"
    and removes: "\<And>ev. invoke ca ev = [CallRemove (pf_fd a)]"
    and poll: "pans (pr_fds p) (poll_timeout w) = Some [ra, rb]" "ra \<noteq> 0" "rb \<noteq> 0"
    and epoll: "epoll_inv e" "epoll_table e = map_of (poll_rows p)" "quiet cb"
      "eans (er_interest e) (epoll_timeout w) = Some [(pf_fd a, ea), (pf_fd b, eb)]"
  shows "poll_run_for pans w p = Some (Inr 1, p\<lparr>pr_fds := [b\<lparr>pf_revents := rb\<rparr>], pr_callbacks := [cb],
      pr_fired := pr_fired p @ [(pf_fd a, poll_event_of ra)]\<rparr>)
    \<and> (\<exists>e'. epoll_run_for eans w e = Some (Inr 2, e')
      \<and> er_fired e' = er_fired e @ [(pf_fd a, epoll_event_of ea), (pf_fd b, epoll_event_of eb)])"
proof -
  have ne: "pf_fd b \<noteq> pf_fd a" using assms(1,2) by (auto simp: poll_inv_def)
  have cbs: "er_callbacks e (pf_fd a) = Some ca" "er_callbacks e (pf_fd b) = Some cb"
    using fun_cong [OF epoll(2), of "pf_fd a"] fun_cong [OF epoll(2), of "pf_fd b"] ne assms(2,3)
    by (auto simp: epoll_table_def poll_rows_def poll_row_def)
  have "poll_run_for pans w p = Some (Inr 1, p\<lparr>pr_fds := [b\<lparr>pf_revents := rb\<rparr>], pr_callbacks := [cb],
      pr_fired := pr_fired p @ [(pf_fd a, poll_event_of ra)]\<rparr>)"
    using assms(2,3) poll removes
    by (simp add: poll_run_for_def poll_round.simps poll_fire_def clear_revents_def poll_remove_def find_index_def erase_at_def)
  moreover have "er_callbacks e \<noteq> Map.empty" using cbs(1) by auto
  then have "\<exists>e'. epoll_run_for eans w e = Some (Inr 2, e')
      \<and> er_fired e' = er_fired e @ [(pf_fd a, epoll_event_of ea), (pf_fd b, epoll_event_of eb)]"
    using cbs ne epoll removes
    by (simp add: epoll_run_for_def kMaxBatch_def numeral_eq_Suc Let_def epoll_remove_def epoll_ctl_def epoll_inv_def
        set_interest_def set_callback_def quiet_def)
  ultimately show ?thesis by blast
qed

text \<open>Only the poll reactor caps the wait: \<open>2 ^ 31\<close> milliseconds become a negative timeout of epoll,
  which waits for ever.\<close>

lemma epoll_timeout_wraps: "epoll_timeout 0x80000000 <s 0" "poll_timeout 0x80000000 = 1000000"
  by (simp_all add: epoll_timeout_def poll_timeout_def word_sless_alt)

section \<open>Witnesses\<close>

definition idle_callback :: io_callback where
  "idle_callback = IoCallback (\<lambda>_. [])"

definition leaving_callback :: "int \<Rightarrow> io_callback" where
  "leaving_callback fd = IoCallback (\<lambda>_. [CallRemove fd])"

definition sample_poll :: "io_callback \<Rightarrow> poll_reactor" where
  "sample_poll cb = \<lparr>pr_fds = [\<lparr>pf_fd = 7, pf_events = POLLIN, pf_revents = 0\<rparr>, \<lparr>pf_fd = 9, pf_events = POLLIN, pf_revents = 0\<rparr>],
     pr_callbacks = [cb, idle_callback], pr_fired = []\<rparr>"

definition sample_epoll :: "io_callback \<Rightarrow> epoll_reactor" where
  "sample_epoll cb = \<lparr>er_open = True, er_callbacks = [7 \<mapsto> cb, 9 \<mapsto> idle_callback],
     er_interest = [7 \<mapsto> EPOLLIN, 9 \<mapsto> EPOLLIN], er_ctl = [], er_fired = []\<rparr>"

lemma sample_tables: "map_of (poll_rows (sample_poll cb)) = epoll_table (sample_epoll cb)"
  by (simp add: fun_eq_iff sample_poll_def sample_epoll_def poll_rows_def poll_row_def epoll_table_def poll_wants_def
      epoll_wants_def POLLIN_def POLLOUT_def EPOLLIN_def EPOLLOUT_def)

theorem removal_skips_next_witness:
  "\<exists>p'. poll_run_for (\<lambda>_ _. Some [1, 1]) 5 (sample_poll (leaving_callback 7)) = Some (Inr 1, p')
    \<and> pr_fired p' = [(7, 1)] \<and> map pf_revents (pr_fds p') = [1]"
proof -
  have ev: "poll_event_of 1 = 1" by code_simp
  show ?thesis
    using removal_skips_next [of "sample_poll (leaving_callback 7)" "\<lparr>pf_fd = 7, pf_events = POLLIN, pf_revents = 0\<rparr>"
        "\<lparr>pf_fd = 9, pf_events = POLLIN, pf_revents = 0\<rparr>" "leaving_callback 7" idle_callback "\<lambda>_ _. Some [1, 1]" 5 1 1
        "sample_epoll (leaving_callback 7)" "\<lambda>_ _. Some [(7, 1), (9, 1)]" 1 1] sample_tables [of "leaving_callback 7"]
    by (simp add: poll_inv_def sample_poll_def leaving_callback_def idle_callback_def quiet_def sample_epoll_def epoll_inv_def ev)
qed

end
