(* ===== verification/Ouch_Decode.thy ===== *)
theory Ouch_Decode
  imports Soup Codec
begin

text \<open>
  \<open>apps/tools/ouch_decode.cpp\<close>: the tool that renders a hex dump. The lines it prints are a list; the
  input is what the file or the standard input holds, \<open>None\<close> for a file that cannot be opened. The
  reader \<open>hex_to_bytes\<close> is in Codec, where the dump is.
\<close>

definition quoted_char :: "char \<Rightarrow> string" where
  "quoted_char c = [CHR 0x27, c, CHR 0x27]"

definition describe :: "byte list \<Rightarrow> string list" where
  "describe bytes =
     (case bytes of
        [] \<Rightarrow> [''(empty)'']
      | b # _ \<Rightarrow>
          (let t = char_of_byte b
           in (''type='' @ quoted_char t @ ''  size='' @ dec (length bytes) @ '' bytes'')
              # (if t = kEnterOrder then (if length bytes \<noteq> 114 then [''  WARN: expected 114 bytes for EnterOrder''] else [])
                 else if t = kOrderAccepted
                 then (if length bytes \<noteq> 137 then [''  WARN: expected 137 bytes for OrderAccepted''] else [])
                 else [])))"

text \<open>With one argument it names the file; otherwise the tool reads the standard input.\<close>

definition ouch_decode :: "(string \<Rightarrow> string option) \<Rightarrow> string \<Rightarrow> string list \<Rightarrow> int \<times> string list" where
  "ouch_decode files stdin args =
     (case (if length args = 1 then files (hd args) else Some stdin) of
        None \<Rightarrow> (1, [])
      | Some hex \<Rightarrow>
          (case hex_to_bytes hex of
             Inl _ \<Rightarrow> (1, [])
           | Inr bytes \<Rightarrow> (0, describe bytes)))"

lemma decode_dump: "ouch_decode files (hex_dump bs) [] = (0, describe bs)"
  by (simp add: ouch_decode_def hex_roundtrip)

lemma sizes_text: "dec 114 = ''114''" "dec 4 = ''4''"
  by code_simp+

text \<open>
  What the tool makes of an audit entry. A bare order message is shown with its type and its size
  and no warning. But the audit log holds packets as they were framed, and of those shorter than 256
  bytes the tool shows the type NUL and the size of the whole packet, whatever the message is: the
  first byte of a packet is the high byte of its length.
\<close>

lemma decoder_on_audit_entries:
  assumes "wf_EnterOrder eo" "eo_message_type eo = kEnterOrder" "length m < 255"
  shows "ouch_decode files (hex_dump (enc_EnterOrder eo)) [] = (0, [''type='' @ quoted_char CHR ''O'' @ ''  size=114 bytes''])"
    "ouch_decode files (hex_dump (frame t m)) [] =
       (0, [''type='' @ quoted_char CHR 0x00 @ ''  size='' @ dec (length m + 3) @ '' bytes''])"
proof -
  have first: "hd (enc_EnterOrder eo) = byte_of_char kEnterOrder" "length (enc_EnterOrder eo) = 114" "enc_EnterOrder eo \<noteq> []"
    using assms(2) eo.length_enc [OF assms(1)] by (auto simp: enc_EnterOrder_def enc_char_def)
  have "describe (enc_EnterOrder eo) = [''type='' @ quoted_char CHR ''O'' @ ''  size=114 bytes'']"
    using first by (cases "enc_EnterOrder eo") (simp_all add: describe_def Let_def kEnterOrder_def sizes_text)
  then show "ouch_decode files (hex_dump (enc_EnterOrder eo)) [] = (0, [''type='' @ quoted_char CHR ''O'' @ ''  size=114 bytes''])"
    by (simp only: decode_dump)
next
  show "ouch_decode files (hex_dump (frame t m)) [] =
       (0, [''type='' @ quoted_char CHR 0x00 @ ''  size='' @ dec (length m + 3) @ '' bytes''])"
  proof -
    obtain bs where bs: "frame t m = 0 # bs" using hd_frame [OF assms(3), of t] by (cases "frame t m") (auto simp: frame_def enc_Header_def enc_char_def)
    then have "length bs + 1 = length m + 3" using length_frame [of t m] by simp
    moreover have "char_of_byte 0 = CHR 0x00" by code_simp
    ultimately show ?thesis unfolding decode_dump bs by (simp add: describe_def kEnterOrder_def kOrderAccepted_def numeral_3_eq_3)
  qed
qed

end
