(* ===== verification/Spec2Isabelle.thy ===== *)
theory Spec2Isabelle
  imports Ring_Threads Order_Flow Reconnect Sequence_Store Ptrm Config Scenario_Loader Runner_Laws Fix_Flow
    Scenario_Lint_Laws Preflight Gateway_Threads Socket_Handles Bench_Laws Result_Union Alloc_Guard Reactor_Laws Gateway_Serve Ouch_Decode
begin

text \<open>
  Verification library of a co-location trading client for Borsa Istanbul: OUCH order entry
  over SoupBinTCP, the mock gateway it is certified against, and the scenario runner that
  drives the certification. The code is C++20 under \<open>include/bist\<close>, \<open>src\<close> and \<open>apps\<close>.

  How the parts interact. \<open>OuchClient\<close> (\<open>ouch/client.hpp\<close>) asks the throttler for a slot, the
  token registry for a token, notes the order in the local book and hands a packed message to
  \<open>OuchSession\<close> (\<open>ouch/session.hpp\<close>), which frames it for the socket, parses what comes back,
  counts sequence numbers, keeps the heartbeat timers and calls the handlers. The handlers push
  the messages to \<open>ScenarioRunner\<close> (\<open>runner/replay.hpp\<close>), which calls the client for each step of a
  scenario that the loader (\<open>runner/scenario_loader.cpp\<close>) has read, and compares. The gateway
  (\<open>mock/ouch_gateway.cpp\<close>) answers at the other end of the stream.

  Theories and sources.

    \<^item> \<open>Prelude\<close>: bytes and text, fixed-width fields, decimal numbers, 64-bit signed arithmetic
      with overflow as \<open>None\<close>; the simp collection \<open>layout_simps\<close>.
    \<^item> \<open>Endian\<close>: \<open>core/endian.hpp\<close>. \<open>Core_Types\<close>: \<open>core/types.hpp\<close> and the values of
      \<open>core/result.hpp\<close>; \<open>Result_Union\<close>: the storage behind those values. \<open>Alloc_Guard\<close>:
      \<open>core/alloc_guard.hpp\<close> and the hooks that feed it.
    \<^item> \<open>Messages\<close>: the packed structs of \<open>ouch/messages.hpp\<close>. The code copies them as bytes; encoding and
      decoding are that copy written out field by field in the order of the layout, and each pair
      interprets the locale of exact codecs. \<open>Codec\<close>: \<open>ouch/codec.hpp\<close> and the hex reader of
      \<open>apps/tools/ouch_decode.cpp\<close>. \<open>Soup\<close>: \<open>net/soupbintcp.hpp\<close>.
    \<^item> \<open>Keyed_Store\<close>: the contract of a table (locale \<open>keyed_store\<close>), interpreted by the order
      book, the instrument cache and the gateway's resting orders.
    \<^item> \<open>Throttler\<close>, \<open>Token_Registry\<close>, \<open>Order_Book\<close>, \<open>Instrument\<close>: the files of \<open>domain\<close>.
    \<^item> \<open>Ring_Buffer\<close>: \<open>core/ring_buffer.hpp\<close> as a bounded FIFO (locale \<open>bounded_queue\<close>);
      \<open>Ring_Threads\<close>: its two threads, step by atomic step, as an inductive relation.
    \<^item> \<open>Tcp_Socket\<close>: \<open>net/tcp_socket.hpp\<close> and \<open>core/time.hpp\<close>. \<open>Session\<close>, \<open>Session_Parse\<close>,
      \<open>Session_Contract\<close>: \<open>ouch/session.hpp\<close> (sending, receiving, properties). \<open>Socket_Handles\<close>: who
      owns a descriptor.
    \<^item> \<open>Client\<close>: \<open>ouch/client.hpp\<close>. \<open>Gateway\<close>: the handlers and the packet loop of
      \<open>mock/ouch_gateway.cpp\<close>; \<open>Gateway_Serve\<close>: its descriptor, its listener and its worker;
      \<open>Gateway_Threads\<close>: that worker and the end of the day, taking turns.
      \<open>Order_Flow\<close>: client, session and gateway together.
    \<^item> \<open>Reconnect\<close>: \<open>app/reconnect_policy.hpp\<close>. \<open>Sequence_Store\<close>:
      \<open>observability/sequence_store.hpp\<close>. \<open>Ptrm\<close>: \<open>risk/ptrm.hpp\<close> (locale \<open>ptrm_gate\<close>).
      \<open>Config\<close>: \<open>config/config.cpp\<close>.
    \<^item> \<open>Calendar\<close>, \<open>Audit_Log\<close>: \<open>observability/audit.hpp\<close>, the dates and texts of its lines, and the log
      with its worker. \<open>Reactor\<close>, \<open>Reactor_Laws\<close>: \<open>net/reactor.hpp\<close> and \<open>net/epoll_reactor.hpp\<close>
      (locale \<open>reactor_table\<close>, interpreted by both).
    \<^item> \<open>Scenario\<close>, \<open>Scenario_Loader\<close>: \<open>runner/scenario.hpp\<close> and \<open>runner/scenario_loader.cpp\<close>.
      \<open>Runner_Events\<close>, \<open>Runner\<close>, \<open>Runner_Laws\<close>: \<open>runner/replay.hpp\<close>. \<open>Scenario_Lint\<close>, \<open>Scenario_Lint_Laws\<close>:
      \<open>apps/tools/scenario_lint.cpp\<close>.
    \<^item> The FIX side. \<open>Fix_Facade\<close>: \<open>fix/facade.hpp\<close> and its two implementations. \<open>Fix_Convert\<close>:
      \<open>fix/internal/converters.hpp\<close>, with doubles. \<open>Fix_Fields\<close>, \<open>Fix_Message\<close>, \<open>Fix_Apps\<close>, \<open>Fix_Initiator\<close>: tags, messages,
      the applications and their start. \<open>Fix_Acceptor\<close>: the acceptor mock. \<open>Fix_Runner\<close>,
      \<open>Fix_Runner_Laws\<close>: \<open>runner/fix_replay.hpp\<close>. \<open>Fix_Flow\<close>: runner, client and acceptor together.
    \<^item> The programs. \<open>Transport_Control\<close>, \<open>Transport_Laws\<close>, \<open>Transport_Login\<close>: dialling, the login and
      the two transports of \<open>apps/bist_colo.cpp\<close>; \<open>Bist_Options\<close>, \<open>Bist_Colo\<close>, \<open>Bist_Colo_Laws\<close>: its
      options, FIX scenarios, mock replay, live service and \<open>main\<close>. \<open>Preflight\<close>, \<open>Latency_Bench\<close> with
      \<open>Bench_Laws\<close>, \<open>Ouch_Decode\<close>: the tools of the same names under \<open>apps/tools\<close>.

  How state and effects are modelled. A class is a record, a member function a function from
  the record to its result and the record afterwards; an enum is a datatype with its wire
  values, an unlisted byte kept where the code keeps it. Integers have their width as words;
  where C++ leaves signed overflow undefined the result is \<open>None\<close>. \<open>Result<T>\<close> is a sum. The
  kernel is the environment: a socket holds the answers the coming \<open>send\<close> and \<open>recv\<close> calls get, a
  clock its coming readings, a file system the fate of the coming saves, a network what the coming
  names and addresses answer, so a theorem about all values of these fields covers every behaviour. Callbacks are recorded in order as events
  of the session. A read outside the received bytes, an escaping exception, and a loop that
  does not return are \<open>None\<close>.

  What the lemmas show. Fields, messages, tokens, prices, hex text and the saved cursor survive
  their round trip, with the exact conditions where they do not. The throttler takes the
  decisions of a limiter that remembers everything, and bounds what the client sends. The ring
  buffer refines a bounded FIFO. The parser's result does not depend on how the stream is cut;
  it stays within its buffer while every length field counts the type byte, and leaves it
  otherwise. The session's state machine, timers and sequence numbers are as intended; writing
  keeps the stream, except that a partial write can be overtaken. The gateway accepts no token
  twice and, whenever the day ends, inactivates none twice; but the writes of its two threads can tear a
  packet. An order placed comes back to the callback with the gateway's order id. The reconnect
  loop ends, the cursor survives crashes, a configuration that loads is usable, a scenario that
  loads has arguments that fit, and an expectation is decided by the next events in the order they arrive.
  A FIX step passes when its report arrives in time, whatever else the engine brings. The two
  reactors are interchangeable while callbacks leave the table alone; the audit log loses nothing
  on a healthy disk, and its timestamps sort as the times do. A mock replay that exits with
  success has certified what it found; a run that signs off leaves the cursor the next one logs in
  with, and a rejected login overwrites it; what \<open>preflight\<close> clears, the service can start. The latency bench
  prints one sample for each answered order, on a clock that moves on. The raw storage of a \<open>Result\<close> behaves as a sum while no copy
  throws, a guard of a debug build aborts exactly when its scope allocates, and sockets used with care close
  every descriptor once.

  Bounds and fuel. Loops over data are structural or have a measure; the receive loop ends
  because a read consumes an answer of the kernel. The loops that wait for the clock are
  partial functions to \<open>option\<close>, total once the clock reaches the deadline. The throttle retry
  of a burst has the code's own bound of 1000 tries.

  Parameters. The TOML and YAML libraries, the FIX engine (its number conversions, its sessions and
  what its threads do in between, of which no property assumes a model), the connect callable, and what the file system and the kernel
  answer are arguments of the definitions that use them; the end-of-day trigger is a function on
  the client. The two transports are modelled and put into the runner as its argument.

  Not modelled. Threads, except those of the ring buffer, the audit log and the mock gateway: the
  callbacks of the FIX applications are atomic steps. Logging (\<open>observability/logger.hpp\<close> only wraps a
  library) and terminal output, usage texts included, except where a program's output is its result (the
  linter, the decoder, the bench, the receipts of \<open>--version\<close>). The signal handlers: the stop flag is the
  number of polls until it is seen. The wall clock the audit handlers read during a run. A callback that
  calls back into the session that called it does not occur in the sources and has no model.
\<close>

end
